(* ===== verification/Prelude.thy ===== *)
theory Prelude
  imports Main "HOL-Library.Word" "HOL-Library.AList" "HOL-Library.List_Lexorder"
    "HOL-Library.Char_ord"
begin

text \<open>
  Shared vocabulary of the development: Go errors and panics as values of a sum type, the
  monadic loop that models \<^verbatim>\<open>for ... range\<close> with early error returns, Go's
  64-bit \<^verbatim>\<open>int\<close> as \<^typ>\<open>64 word\<close>, decimal printing, and association lists as Go
  maps.  Two flavours of maps occur.  A document (\<^verbatim>\<open>map[string]any\<close>) is stored as its
  key-sorted association list, so that HOL equality is equality of Go maps.  The two maps inside
  a Z-set are association lists in an arbitrary order: the order of the list is the iteration
  order the Go runtime happens to choose, and since the theorems quantify over all lists they
  hold for every iteration order.
\<close>

section \<open>Errors, panics and results\<close>

text \<open>
  \<^term>\<open>Error m\<close> is an error created with message (format) \<open>m\<close>, \<^term>\<open>Wrapped m e\<close> an
  error that wraps \<open>e\<close> with \<^verbatim>\<open>%w\<close>, and \<^term>\<open>Panic m\<close> a run-time panic, which no caller
  in the modelled code recovers from, so wrapping leaves it alone.
\<close>

datatype error = Error string | Wrapped string error | Panic string

type_synonym 'a res = "error + 'a"

fun wrap :: "string \<Rightarrow> error \<Rightarrow> error" where
  "wrap m (Panic p) = Panic p"
| "wrap m e = Wrapped m e"

definition is_ok :: "'a res \<Rightarrow> bool" where
  "is_ok r = (case r of Inl _ \<Rightarrow> False | Inr _ \<Rightarrow> True)"

lemma is_ok_simps [simp]: "is_ok (Inr x)" "\<not> is_ok (Inl e)"
  by (simp_all add: is_ok_def)

lemma is_ok_iff: "is_ok r \<longleftrightarrow> (\<exists>x. r = Inr x)"
  by (cases r) auto

definition bind :: "'a res \<Rightarrow> ('a \<Rightarrow> 'b res) \<Rightarrow> 'b res" where
  "bind r f = (case r of Inl e \<Rightarrow> Inl e | Inr x \<Rightarrow> f x)"

lemma bind_simps [simp]: "bind (Inl e) f = Inl e" "bind (Inr x) f = f x"
  by (simp_all add: bind_def)

lemma bind_Inr_iff: "bind r f = Inr y \<longleftrightarrow> (\<exists>x. r = Inr x \<and> f x = Inr y)"
  by (cases r) auto

lemma bind_cong [fundef_cong]:
  "r = r' \<Longrightarrow> (\<And>x. r' = Inr x \<Longrightarrow> f x = g x) \<Longrightarrow> bind r f = bind r' g"
  by (cases r') auto

lemma bind_Inr_right [simp]: "bind r Inr = r"
  by (cases r) auto

lemma bind_assoc: "bind (bind r f) g = bind r (\<lambda>x. bind (f x) g)"
  by (cases r) auto

text \<open>\<^verbatim>\<open>if err != nil { return nil, fmt.Errorf("m: %w", err) }\<close>\<close>

definition rewrap :: "string \<Rightarrow> 'a res \<Rightarrow> 'a res" where
  "rewrap m r = (case r of Inl e \<Rightarrow> Inl (wrap m e) | Inr x \<Rightarrow> Inr x)"

lemma rewrap_simps [simp]: "rewrap m (Inr x) = Inr x" "rewrap m (Inl e) = Inl (wrap m e)"
  by (simp_all add: rewrap_def)

lemma rewrap_Inr_iff [simp]: "rewrap m r = Inr y \<longleftrightarrow> r = Inr y"
  by (cases r) auto

lemma is_ok_rewrap [simp]: "is_ok (rewrap m r) = is_ok r"
  by (cases r) auto

section \<open>Loops with early error returns\<close>

fun foldM :: "('s \<Rightarrow> 'x \<Rightarrow> 's res) \<Rightarrow> 's \<Rightarrow> 'x list \<Rightarrow> 's res" where
  "foldM f s [] = Inr s"
| "foldM f s (x # xs) = bind (f s x) (\<lambda>s'. foldM f s' xs)"

lemma foldM_append: "foldM f s (xs @ ys) = bind (foldM f s xs) (\<lambda>t. foldM f t ys)"
  by (induction xs arbitrary: s) (auto simp: bind_assoc)

lemma foldM_cong [fundef_cong]:
  "s = s' \<Longrightarrow> xs = ys \<Longrightarrow> (\<And>s x. x \<in> set ys \<Longrightarrow> f s x = g s x) \<Longrightarrow> foldM f s xs = foldM g s' ys"
  by (induction xs arbitrary: s s' ys) (auto intro!: bind_cong)

lemma foldM_map: "foldM f s (map h xs) = foldM (\<lambda>s x. f s (h x)) s xs"
  by (induction xs arbitrary: s) auto

text \<open>The total-correctness rule of the loop: every iteration succeeds and keeps \<open>P\<close>.\<close>

lemma foldM_total:
  assumes "P s" and "\<And>s x. x \<in> set xs \<Longrightarrow> P s \<Longrightarrow> \<exists>s'. f s x = Inr s' \<and> P s'"
  shows "\<exists>t. foldM f s xs = Inr t \<and> P t"
  using assms
proof (induction xs arbitrary: s)
  case (Cons x xs)
  from Cons.prems(2) [of x s] Cons.prems(1) obtain s' where "f s x = Inr s'" "P s'"
    by auto
  with Cons.IH [of s'] Cons.prems(2) show ?case by simp
qed simp

text \<open>The invariant rule: whatever a successful run reaches satisfies \<open>P\<close>.\<close>

lemma foldM_invariant:
  assumes "foldM f s xs = Inr t" and "P s"
    and "\<And>s x s'. x \<in> set xs \<Longrightarrow> P s \<Longrightarrow> f s x = Inr s' \<Longrightarrow> P s'"
  shows "P t"
  using assms
proof (induction xs arbitrary: s)
  case (Cons x xs)
  from Cons.prems(1) obtain s' where s': "f s x = Inr s'" "foldM f s' xs = Inr t"
    by (auto simp: bind_Inr_iff)
  from Cons.prems(2,3) s'(1) have "P s'" by auto
  with Cons.IH [OF s'(2)] Cons.prems(3) show ?case by auto
qed simp

text \<open>A successful loop ran every iteration successfully.\<close>

lemma foldM_each: "foldM f s xs = Inr t \<Longrightarrow> x \<in> set xs \<Longrightarrow> \<exists>r r'. f r x = Inr r'"
  by (induction xs arbitrary: s) (auto simp: bind_Inr_iff)

text \<open>Mapping a fallible function over a list, stopping at the first error.\<close>

fun mapM :: "('x \<Rightarrow> 'y res) \<Rightarrow> 'x list \<Rightarrow> 'y list res" where
  "mapM f [] = Inr []"
| "mapM f (x # xs) = bind (f x) (\<lambda>y. bind (mapM f xs) (\<lambda>ys. Inr (y # ys)))"

lemma mapM_cong [fundef_cong]:
  "xs = ys \<Longrightarrow> (\<And>x. x \<in> set ys \<Longrightarrow> f x = g x) \<Longrightarrow> mapM f xs = mapM g ys"
  by (induction xs arbitrary: ys) (auto intro!: bind_cong)

lemma mapM_Inr_iff: "mapM f xs = Inr ys \<longleftrightarrow> list_all2 (\<lambda>x y. f x = Inr y) xs ys"
  by (induction xs arbitrary: ys) (auto simp: bind_Inr_iff list_all2_Cons1)

lemma mapM_Inr_pure [simp]: "mapM (\<lambda>x. Inr (h x)) xs = Inr (map h xs)"
  by (induction xs) auto

lemma mapM_Cons_Inr: "mapM f (x # xs) = Inr ys \<longleftrightarrow> (\<exists>y ys'. f x = Inr y \<and> mapM f xs = Inr ys' \<and> ys = y # ys')"
  by (auto simp: bind_Inr_iff)

lemma mapM_map: "mapM f (map h xs) = mapM (\<lambda>x. f (h x)) xs"
  by (induction xs) auto

lemma mapM_pointwise: "(\<And>x. x \<in> set xs \<Longrightarrow> f x = Inr (h x)) \<Longrightarrow> mapM f xs = Inr (map h xs)"
  by (induction xs) auto

section \<open>64-bit integers\<close>

text \<open>
  Go's \<^verbatim>\<open>int\<close> and \<^verbatim>\<open>int64\<close> on the platforms the controller is built for: two's complement,
  arithmetic wraps.  Comparisons read the word as a signed number.
\<close>

type_synonym gint = "64 word"

abbreviation ipos :: "gint \<Rightarrow> bool" where
  "ipos n \<equiv> 0 < sint n"

abbreviation ineg :: "gint \<Rightarrow> bool" where
  "ineg n \<equiv> sint n < 0"

lemma sint_eq_0_gint [simp]: "sint (n :: gint) = 0 \<longleftrightarrow> n = 0"
  by (metis signed_0 signed_word_eqI)

section \<open>Decimal printing (\<^verbatim>\<open>%d\<close>)\<close>

definition digit_char :: "nat \<Rightarrow> char" where
  "digit_char d = (char_of (48 + d) :: char)"

fun nat_str :: "nat \<Rightarrow> string" where
  "nat_str n = (if n < 10 then [digit_char n] else nat_str (n div 10) @ [digit_char (n mod 10)])"

declare nat_str.simps [simp del]

definition int_str :: "int \<Rightarrow> string" where
  "int_str i = (if i < 0 then CHR ''-'' # nat_str (nat (- i)) else nat_str (nat i))"

lemma of_char_digit: "d < 10 \<Longrightarrow> of_char (digit_char d) = (48 + d :: nat)"
  by (simp add: digit_char_def)

lemma digit_char_inj: "d < 10 \<Longrightarrow> e < 10 \<Longrightarrow> digit_char d = digit_char e \<Longrightarrow> d = e"
  by (metis add_left_cancel of_char_digit)

lemma digit_char_range:
  "d < 10 \<Longrightarrow> 48 \<le> (of_char (digit_char d) :: nat) \<and> (of_char (digit_char d) :: nat) \<le> 57"
  by (simp add: of_char_digit)

lemma nat_str_nonempty [simp]: "nat_str n \<noteq> []" "[] \<noteq> nat_str n"
  by (simp_all add: nat_str.simps [of n])

lemma nat_str_digits:
  "c \<in> set (nat_str n) \<Longrightarrow> 48 \<le> (of_char c :: nat) \<and> (of_char c :: nat) \<le> 57"
proof (induction n rule: nat_str.induct)
  case (1 n)
  then show ?case
    by (subst (asm) (2) nat_str.simps) (auto simp: digit_char_range split: if_splits)
qed

lemma nat_str_inj: "nat_str m = nat_str n \<Longrightarrow> m = n"
proof (induction m arbitrary: n rule: nat_str.induct)
  case (1 m)
  have step: "nat_str k = (if k < 10 then [digit_char k]
      else nat_str (k div 10) @ [digit_char (k mod 10)])" for k
    by (rule nat_str.simps)
  show ?case
  proof (cases "m < 10")
    case True
    with 1(2) have "nat_str n = [digit_char m]" by (simp add: step [of m])
    then have "n < 10 \<and> digit_char n = digit_char m"
      by (simp add: step [of n] split: if_splits)
    with True show ?thesis by (metis digit_char_inj)
  next
    case False
    with 1(2) have eq: "nat_str n = nat_str (m div 10) @ [digit_char (m mod 10)]"
      by (simp add: step [of m])
    then have n: "\<not> n < 10" by (auto simp: step [of n])
    with eq have "nat_str (m div 10) = nat_str (n div 10)"
      and "digit_char (n mod 10) = digit_char (m mod 10)"
      by (simp_all add: step [of n])
    then have "m div 10 = n div 10" and "n mod 10 = m mod 10"
      using 1(1) [OF False] by (auto intro: digit_char_inj)
    then show ?thesis by (metis div_mult_mod_eq)
  qed
qed

lemma nat_str_no_minus: "nat_str n \<noteq> CHR ''-'' # s"
  using nat_str_digits [of "CHR ''-''" n] by auto

lemma int_str_inj: "int_str i = int_str j \<Longrightarrow> i = j"
  by (auto simp: int_str_def nat_str_no_minus dest!: nat_str_inj split: if_splits)
    (metis nat_str_no_minus)

section \<open>Association lists as Go maps\<close>

abbreviation keys :: "('k \<times> 'v) list \<Rightarrow> 'k set" where
  "keys m \<equiv> fst ` set m"

definition lookup0 :: "('k \<times> 'v :: zero) list \<Rightarrow> 'k \<Rightarrow> 'v" where
  "lookup0 m k = (case map_of m k of None \<Rightarrow> 0 | Some v \<Rightarrow> v)"

lemma lookup0_Nil [simp]: "lookup0 [] k = 0"
  by (simp add: lookup0_def)

lemma lookup0_notin [simp]: "k \<notin> keys m \<Longrightarrow> lookup0 m k = 0"
  by (simp add: lookup0_def map_of_eq_None_iff [THEN iffD2])

lemma lookup0_Cons: "lookup0 ((k', v) # m) k = (if k = k' then v else lookup0 m k)"
  by (simp add: lookup0_def)

lemma map_of_in: "distinct (map fst m) \<Longrightarrow> (k, v) \<in> set m \<longleftrightarrow> map_of m k = Some v"
  by simp

text \<open>Assignment to and deletion from a map whose iteration order is the order of the list.\<close>

lemma keys_update [simp]: "keys (AList.update k v m) = insert k (keys m)"
  by (simp add: dom_update)

lemma set_update_new: "k \<notin> keys m \<Longrightarrow> AList.update k v m = m @ [(k, v)]"
  by (induction m) auto

lemma set_update:
  "distinct (map fst m) \<Longrightarrow> set (AList.update k v m) = insert (k, v) {e \<in> set m. fst e \<noteq> k}"
  by (induction m) (auto simp: image_iff)

lemma set_update_notin: "k \<notin> keys m \<Longrightarrow> set (AList.update k v m) = insert (k, v) (set m)"
  by (simp add: set_update_new)

lemma delete_update_same: "AList.delete k (AList.update k v m) = AList.delete k m"
  by (induction m) auto

lemma set_delete: "set (AList.delete k m) = {e \<in> set m. fst e \<noteq> k}"
  by (auto simp: AList.delete_eq)

lemma keys_delete [simp]: "keys (AList.delete k m) = keys m - {k}"
  by (auto simp: set_delete)

text \<open>
  Summing over the entries of a map, in whatever order they are listed, is summing over any
  finite set that contains its keys.
\<close>

lemma alist_sum:
  fixes m :: "('k \<times> 'v :: semiring_0) list"
  assumes "distinct (map fst m)" and "finite K" and "keys m \<subseteq> K"
  shows "(\<Sum>(k, v) \<leftarrow> m. v * g k) = (\<Sum>k \<in> K. lookup0 m k * g k)"
  using assms
proof (induction m)
  case (Cons e m)
  obtain k v where e: "e = (k, v)" by (cases e)
  from Cons.prems e have k: "k \<in> K" "k \<notin> keys m" by (auto simp: image_iff)
  have rest: "(\<Sum>x \<in> K - {k}. lookup0 (e # m) x * g x) = (\<Sum>x \<in> K - {k}. lookup0 m x * g x)"
    by (rule sum.cong) (auto simp: e lookup0_Cons)
  have "(\<Sum>x \<in> K. lookup0 (e # m) x * g x) = v * g k + (\<Sum>x \<in> K - {k}. lookup0 m x * g x)"
    using Cons.prems(2) k(1) rest by (simp add: sum.remove [of K k] e lookup0_Cons)
  moreover have "(\<Sum>x \<in> K. lookup0 m x * g x) = (\<Sum>x \<in> K - {k}. lookup0 m x * g x)"
    using Cons.prems(2) k by (simp add: sum.remove [of K k])
  ultimately show ?case using Cons e by simp
qed simp

text \<open>
  Sorted association lists: a Go map that is never iterated with an observable order.
  Assignment, deletion and the sortedness invariant.
\<close>

fun sm_set :: "'k :: linorder \<Rightarrow> 'v \<Rightarrow> ('k \<times> 'v) list \<Rightarrow> ('k \<times> 'v) list" where
  "sm_set k v [] = [(k, v)]"
| "sm_set k v ((k', v') # m) =
     (if k < k' then (k, v) # (k', v') # m
      else if k = k' then (k, v) # m
      else (k', v') # sm_set k v m)"

definition sm_del :: "'k \<Rightarrow> ('k \<times> 'v) list \<Rightarrow> ('k \<times> 'v) list" where
  "sm_del k m = filter (\<lambda>e. fst e \<noteq> k) m"

definition sm_wf :: "('k :: linorder \<times> 'v) list \<Rightarrow> bool" where
  "sm_wf m \<longleftrightarrow> sorted_wrt (<) (map fst m)"

lemma sm_wf_Nil [simp]: "sm_wf []"
  by (simp add: sm_wf_def)

lemma sm_wf_distinct: "sm_wf m \<Longrightarrow> distinct (map fst m)"
  by (simp add: sm_wf_def strict_sorted_iff)

lemma map_of_sm_set [simp]: "map_of (sm_set k v m) = (map_of m)(k \<mapsto> v)"
  by (induction k v m rule: sm_set.induct) (auto simp: fun_eq_iff)

lemma keys_sm_set [simp]: "keys (sm_set k v m) = insert k (keys m)"
  by (induction k v m rule: sm_set.induct) auto

lemma snd_sm_set: "snd ` set (sm_set k v m) \<subseteq> insert v (snd ` set m)"
  by (induction k v m rule: sm_set.induct) auto

lemma sm_wf_Cons: "sm_wf ((k, v) # m) \<longleftrightarrow> (\<forall>k' \<in> keys m. k < k') \<and> sm_wf m"
  by (auto simp: sm_wf_def)

lemma sm_wf_set [simp]: "sm_wf m \<Longrightarrow> sm_wf (sm_set k v m)"
  by (induction k v m rule: sm_set.induct) (auto simp: sm_wf_Cons less_imp_not_eq2 not_less_iff_gr_or_eq)

lemma map_of_sm_del [simp]: "map_of (sm_del k m) = (map_of m)(k := None)"
  by (induction m) (auto simp: sm_del_def fun_eq_iff)

lemma sm_wf_del [simp]: "sm_wf m \<Longrightarrow> sm_wf (sm_del k m)"
  by (induction m) (auto simp: sm_del_def sm_wf_Cons)

text \<open>A sorted list is determined by the map it denotes.\<close>

lemma sm_ext:
  assumes "sm_wf m" and "sm_wf n" and "map_of m = map_of n"
  shows "m = n"
proof -
  have "set m = set n"
    using assms by (metis map_of_eqI map_of_in sm_wf_distinct subsetI subset_antisym surj_pair)
  moreover from this have "map fst m = map fst n"
    using assms(1,2) strict_sorted_equal [of "map fst m" "map fst n"]
    by (simp add: sm_wf_def)
  moreover have "m = map (\<lambda>k. (k, the (map_of m k))) (map fst m)" if "sm_wf m" for m :: "('a \<times> 'b) list"
    using sm_wf_distinct [OF that] by (auto intro!: map_idI [symmetric])
  ultimately show ?thesis using assms by metis
qed

section \<open>Collections\<close>

text \<open>
  \<open>wf_intros\<close> gathers the rules by which operations keep the well-formedness of Z-sets;
  \<open>cnt_simps\<close> the equations that describe the multiplicities of a result;
  \<open>copy_ids\<close> the equations that make the deep copies of the source disappear in a model of
  immutable values.
\<close>

named_theorems wf_intros
named_theorems cnt_simps
named_theorems copy_ids

end
