(* ===== verification/Float64.thy ===== *)
theory Float64
  imports Prelude
begin

text \<open>
  Go's \<^verbatim>\<open>float64\<close> as its IEEE-754 bit pattern, with the operations of the language and of
  package \<^verbatim>\<open>math\<close> that the expression language uses (comparison, addition, conversion from
  integers, absolute value, floor, ceiling), and the decimal text \<^verbatim>\<open>encoding/json\<close> prints for
  it (the shortest decimal that reads back as the same number).  All of it computes on natural
  numbers: a finite float is \<open>mantissa * 2 ^ exponent\<close>, and results are rounded to nearest,
  ties to even, by \<open>round_pos\<close>.
\<close>

type_synonym f64 = "64 word"

section \<open>Decoding\<close>

definition f_sign :: "f64 \<Rightarrow> bool" where
  "f_sign x = bit x 63"

definition f_exp :: "f64 \<Rightarrow> nat" where
  "f_exp x = unat (take_bit 11 (drop_bit 52 x))"

definition f_frac :: "f64 \<Rightarrow> nat" where
  "f_frac x = unat (take_bit 52 x)"

definition f_nan :: "f64 \<Rightarrow> bool" where
  "f_nan x \<longleftrightarrow> f_exp x = 2047 \<and> f_frac x \<noteq> 0"

definition f_inf :: "f64 \<Rightarrow> bool" where
  "f_inf x \<longleftrightarrow> f_exp x = 2047 \<and> f_frac x = 0"

definition f_mant :: "f64 \<Rightarrow> nat" where
  "f_mant x = (if f_exp x = 0 then f_frac x else f_frac x + 2 ^ 52)"

definition f_pow :: "f64 \<Rightarrow> int" where
  "f_pow x = int (max 1 (f_exp x)) - 1075"

text \<open>The magnitude of a finite float is \<open>f_num x / f_den x\<close>.\<close>

definition f_num :: "f64 \<Rightarrow> nat" where
  "f_num x = f_mant x * 2 ^ nat (f_pow x)"

definition f_den :: "f64 \<Rightarrow> nat" where
  "f_den x = 2 ^ nat (- f_pow x)"

section \<open>Rounding\<close>

fun bitlen :: "nat \<Rightarrow> nat" where
  "bitlen n = (if n = 0 then 0 else Suc (bitlen (n div 2)))"

declare bitlen.simps [simp del]

text \<open>The bits (without sign) of the float nearest to \<open>n / d\<close>.\<close>

definition round_pos :: "nat \<Rightarrow> nat \<Rightarrow> nat" where
  "round_pos n d =
     (if n = 0 then 0 else
      let e1 = int (bitlen n) - int (bitlen d) - 53;
          big = (n * 2 ^ nat (- e1) \<ge> d * 2 ^ nat e1 * 2 ^ 53);
          e = max (if big then e1 + 1 else e1) (- 1074);
          N = n * 2 ^ nat (- e); D = d * 2 ^ nat e;
          q0 = N div D; r = N mod D;
          q = (if 2 * r > D \<or> (2 * r = D \<and> odd q0) then Suc q0 else q0);
          b = (if q < 2 ^ 52 then q else nat (e + 1075) * 2 ^ 52 + (q - 2 ^ 52))
      in min b (2047 * 2 ^ 52))"

definition mk_float :: "bool \<Rightarrow> nat \<Rightarrow> f64" where
  "mk_float s b = (if s then of_nat (b + 2 ^ 63) else of_nat b)"

section \<open>Arithmetic\<close>

definition f_of_int :: "int \<Rightarrow> f64" where
  "f_of_int i = mk_float (i < 0) (round_pos (nat \<bar>i\<bar>) 1)"

definition f_abs :: "f64 \<Rightarrow> f64" where
  "f_abs x = take_bit 63 x"

definition f_neg :: "f64 \<Rightarrow> f64" where
  "f_neg x = (if f_sign x then take_bit 63 x else x + 2 ^ 63)"

definition f_ord :: "f64 \<Rightarrow> int" where
  "f_ord x = (if f_sign x then - int (unat (take_bit 63 x)) else int (unat (take_bit 63 x)))"

definition f_lt :: "f64 \<Rightarrow> f64 \<Rightarrow> bool" where
  "f_lt x y \<longleftrightarrow> \<not> f_nan x \<and> \<not> f_nan y \<and> f_ord x < f_ord y"

definition f_le :: "f64 \<Rightarrow> f64 \<Rightarrow> bool" where
  "f_le x y \<longleftrightarrow> \<not> f_nan x \<and> \<not> f_nan y \<and> f_ord x \<le> f_ord y"

definition f_eq :: "f64 \<Rightarrow> f64 \<Rightarrow> bool" where
  "f_eq x y \<longleftrightarrow> \<not> f_nan x \<and> \<not> f_nan y \<and> f_ord x = f_ord y"

definition f_quiet_nan :: f64 where
  "f_quiet_nan = of_nat (2047 * 2 ^ 52 + 2 ^ 51)"

definition f_add :: "f64 \<Rightarrow> f64 \<Rightarrow> f64" where
  "f_add x y =
     (if f_nan x then x else if f_nan y then y
      else if f_inf x then (if f_inf y \<and> f_sign x \<noteq> f_sign y then f_quiet_nan else x)
      else if f_inf y then y
      else
        let a = (if f_sign x then - 1 else 1) * int (f_num x * f_den y);
            b = (if f_sign y then - 1 else 1) * int (f_num y * f_den x);
            s = a + b
        in if s = 0 then mk_float (f_sign x \<and> f_sign y) 0
           else mk_float (s < 0) (round_pos (nat \<bar>s\<bar>) (f_den x * f_den y)))"

definition f_floor :: "f64 \<Rightarrow> f64" where
  "f_floor x =
     (if f_nan x \<or> f_inf x \<or> f_mant x = 0 then x
      else if f_sign x then mk_float True (round_pos ((f_num x + f_den x - 1) div f_den x) 1)
      else mk_float False (round_pos (f_num x div f_den x) 1))"

definition f_ceil :: "f64 \<Rightarrow> f64" where
  "f_ceil x = f_neg (f_floor (f_neg x))"

section \<open>The JSON text of a float\<close>

function lead_zeros :: "nat \<Rightarrow> nat \<Rightarrow> nat" where
  "lead_zeros n d = (if n = 0 \<or> d \<le> n then 0 else Suc (lead_zeros (10 * n) d))"
  by pat_completeness auto
termination
  by (relation "measure (\<lambda>(n, d). d - n)") auto

declare lead_zeros.simps [simp del]

text \<open>The position \<open>k\<close> of the decimal point: \<open>10 ^ (k - 1) \<le> n / d < 10 ^ k\<close>.\<close>

definition dec_point :: "nat \<Rightarrow> nat \<Rightarrow> int" where
  "dec_point n d =
     (if d \<le> n then int (length (nat_str (n div d))) else 1 - int (lead_zeros n d))"

definition scale10 :: "nat \<Rightarrow> int \<Rightarrow> nat \<times> nat" where
  "scale10 m k = (m * 10 ^ nat k, 10 ^ nat (- k))"

text \<open>
  Try to print \<open>n / d\<close> (whose bits are \<open>b\<close>) with \<open>w\<close> significant digits: of the two
  neighbouring \<open>w\<close>-digit decimals, the closer one that reads back as \<open>b\<close>.
\<close>

definition try_digits :: "nat \<Rightarrow> nat \<Rightarrow> nat \<Rightarrow> int \<Rightarrow> nat \<Rightarrow> nat option" where
  "try_digits n d b k w =
     (let (N, E) = scale10 n (int w - k); D = d * E; lo = N div D; r = N mod D;
          back = (\<lambda>m. let (p, q) = scale10 m (k - int w) in round_pos p q = b)
      in if back lo \<and> (2 * r \<le> D \<or> \<not> back (Suc lo)) then Some lo
         else if back (Suc lo) then Some (Suc lo)
         else None)"

fun shortest :: "nat \<Rightarrow> nat \<Rightarrow> nat \<Rightarrow> int \<Rightarrow> nat list \<Rightarrow> nat \<times> nat" where
  "shortest n d b k [] = (0, 0)"
| "shortest n d b k (w # ws) =
     (case try_digits n d b k w of Some m \<Rightarrow> (m, w) | None \<Rightarrow> shortest n d b k ws)"

definition strip_zeros :: "string \<Rightarrow> string" where
  "strip_zeros s = rev (dropWhile (\<lambda>c. c = CHR ''0'') (rev s))"

definition fixed_text :: "string \<Rightarrow> int \<Rightarrow> string" where
  "fixed_text ds p =
     (if p \<le> 0 then ''0.'' @ replicate (nat (- p)) CHR ''0'' @ ds
      else if int (length ds) \<le> p then ds @ replicate (nat p - length ds) CHR ''0''
      else take (nat p) ds @ ''.'' @ drop (nat p) ds)"

definition exp_text :: "string \<Rightarrow> int \<Rightarrow> string" where
  "exp_text ds p =
     take 1 ds @ (if length ds > 1 then ''.'' @ drop 1 ds else []) @ ''e'' @
     (let e = p - 1 in
      if e < 0 then ''-'' @ nat_str (nat (- e))
      else ''+'' @ (if e < 10 then ''0'' else []) @ nat_str (nat e))"

definition float_text :: "f64 \<Rightarrow> string" where
  "float_text x =
     (let a = f_abs x; sg = (if f_sign x then ''-'' else []) in
      if f_mant x = 0 then sg @ ''0''
      else
        let n = f_num x; d = f_den x; k = dec_point n d;
            (m, w) = shortest n d (unat a) k [1..<18];
            s = nat_str m; p = k + int (length s) - int w; ds = strip_zeros s
        in sg @ (if f_lt a (mk_float False (round_pos 1 (10 ^ 6)))
                    \<or> f_le (mk_float False (round_pos (10 ^ 21) 1)) a
                 then exp_text ds p else fixed_text ds p))"

text \<open>\<^verbatim>\<open>encoding/json\<close> refuses NaN and the infinities.\<close>

definition json_float :: "f64 \<Rightarrow> string res" where
  "json_float x =
     (if f_nan x \<or> f_inf x then Inl (Error ''json: unsupported value'') else Inr (float_text x))"

end
