(* ===== verification/Documents.thy ===== *)
theory Documents
  imports Float64
begin

text \<open>
  Package \<^verbatim>\<open>dbsp\<close>, file \<^verbatim>\<open>document.go\<close>: unstructured documents, their canonical JSON key,
  which defines the identity of a document inside a Z-set, and deep copies.  The text
  \<^verbatim>\<open>encoding/json\<close> produces is modelled down to the escaping of strings.
\<close>

section \<open>Go values\<close>

text \<open>
  \<^verbatim>\<open>any\<close> restricted to what documents hold: \<^verbatim>\<open>nil\<close>, \<^verbatim>\<open>bool\<close>, \<^verbatim>\<open>int64\<close>, \<^verbatim>\<open>float64\<close>,
  \<^verbatim>\<open>string\<close>, \<^verbatim>\<open>[]any\<close> and \<^verbatim>\<open>map[string]any\<close>, and one more constructor for the struct
  \<^verbatim>\<open>listElem\<close> that the unwind operator passes through \<^verbatim>\<open>any\<close> between its extractor and its
  transformer.  A map is the list of its entries in ascending key order.
\<close>

datatype gval =
    VNil
  | VBool bool
  | VInt gint
  | VFloat f64
  | VStr string
  | VList "gval list"
  | VMap "(string \<times> gval) list"
  | VListElem gint gval

type_synonym doc = "(string \<times> gval) list"

lemma gval_induct [case_names VNil VBool VInt VFloat VStr VList VMap VListElem, induct type: gval]:
  assumes "P VNil" and "\<And>b. P (VBool b)" and "\<And>i. P (VInt i)" and "\<And>f. P (VFloat f)"
    and "\<And>s. P (VStr s)" and "\<And>xs. (\<And>v. v \<in> set xs \<Longrightarrow> P v) \<Longrightarrow> P (VList xs)"
    and "\<And>m. (\<And>k v. (k, v) \<in> set m \<Longrightarrow> P v) \<Longrightarrow> P (VMap m)"
    and "\<And>i v. P v \<Longrightarrow> P (VListElem i v)"
  shows "P v"
proof (induction v rule: gval.induct)
  case (VMap m)
  have "P v" if "(k, v) \<in> set m" for k v
    by (rule VMap.IH [OF that]) simp
  then show ?case by (rule assms(7))
qed (auto intro: assms)

text \<open>Representation invariant: every map, at every depth, is listed in ascending key order.\<close>

primrec gwf :: "gval \<Rightarrow> bool" where
  "gwf VNil = True"
| "gwf (VBool b) = True"
| "gwf (VInt i) = True"
| "gwf (VFloat f) = True"
| "gwf (VStr s) = True"
| "gwf (VList xs) = list_all id (map gwf xs)"
| "gwf (VMap m) = (sm_wf m \<and> list_all snd (map (map_prod id gwf) m))"
| "gwf (VListElem i v) = gwf v"

lemma gwf_VList [simp]: "gwf (VList xs) \<longleftrightarrow> (\<forall>v \<in> set xs. gwf v)"
  by (auto simp: list_all_iff)

lemma gwf_VMap [simp]: "gwf (VMap m) \<longleftrightarrow> sm_wf m \<and> (\<forall>k v. (k, v) \<in> set m \<longrightarrow> gwf v)"
  by (force simp: list_all_iff)

declare gwf.simps(6,7) [simp del]

section \<open>JSON text\<close>

fun join :: "string \<Rightarrow> string list \<Rightarrow> string" where
  "join sep [] = []"
| "join sep [s] = s"
| "join sep (s # t # ss) = s @ sep @ join sep (t # ss)"

definition hex_digit :: "nat \<Rightarrow> char" where
  "hex_digit n = (if n < 10 then digit_char n else char_of (87 + n))"

text \<open>Escaping of one byte below 0x80, with HTML escaping on as in \<^verbatim>\<open>json.Marshal\<close>.\<close>

definition esc_ascii :: "char \<Rightarrow> string" where
  "esc_ascii c =
     (let b = of_char c :: nat in
      if b = 34 \<or> b = 92 then [CHR 0x5C, c]
      else if b = 8 then CHR 0x5C # ''b''
      else if b = 12 then CHR 0x5C # ''f''
      else if b = 10 then CHR 0x5C # ''n''
      else if b = 13 then CHR 0x5C # ''r''
      else if b = 9 then CHR 0x5C # ''t''
      else if b < 32 \<or> b = 60 \<or> b = 62 \<or> b = 38
      then CHR 0x5C # ''u00'' @ [hex_digit (b div 16), hex_digit (b mod 16)]
      else [c])"

text \<open>
  The number of bytes of the UTF-8 sequence that starts with byte \<open>b\<close> and continues with
  \<open>cs\<close>; 0 when it is not valid UTF-8 (\<^verbatim>\<open>utf8.DecodeRuneInString\<close> returning
  \<^verbatim>\<open>RuneError\<close> with width 1).
\<close>

definition cont :: "nat \<Rightarrow> nat \<Rightarrow> nat \<Rightarrow> string \<Rightarrow> bool" where
  "cont i lo hi cs \<longleftrightarrow> i < length cs \<and> lo \<le> (of_char (cs ! i) :: nat) \<and> (of_char (cs ! i) :: nat) \<le> hi"

definition utf8_len :: "nat \<Rightarrow> string \<Rightarrow> nat" where
  "utf8_len b cs =
     (if 0xC2 \<le> b \<and> b \<le> 0xDF then (if cont 0 0x80 0xBF cs then 2 else 0)
      else if 0xE0 \<le> b \<and> b \<le> 0xEF then
        (if cont 0 (if b = 0xE0 then 0xA0 else 0x80) (if b = 0xED then 0x9F else 0xBF) cs
            \<and> cont 1 0x80 0xBF cs then 3 else 0)
      else if 0xF0 \<le> b \<and> b \<le> 0xF4 then
        (if cont 0 (if b = 0xF0 then 0x90 else 0x80) (if b = 0xF4 then 0x8F else 0xBF) cs
            \<and> cont 1 0x80 0xBF cs \<and> cont 2 0x80 0xBF cs then 4 else 0)
      else 0)"

definition is_line_sep :: "string \<Rightarrow> bool" where
  "is_line_sep u \<longleftrightarrow> u = [CHR 0xE2, CHR 0x80, CHR 0xA8] \<or> u = [CHR 0xE2, CHR 0x80, CHR 0xA9]"

fun json_esc :: "string \<Rightarrow> string" where
  "json_esc [] = []"
| "json_esc (c # cs) =
     (let b = of_char c :: nat in
      if b < 128 then esc_ascii c @ json_esc cs
      else case utf8_len b cs of
        0 \<Rightarrow> CHR 0x5C # ''ufffd'' @ json_esc cs
      | Suc n \<Rightarrow>
          (let u = c # take n cs in
           (if is_line_sep u then CHR 0x5C # ''u202'' @ [if last u = CHR 0xA8 then CHR ''8'' else CHR ''9'']
            else u)
           @ json_esc (drop n cs)))"

definition json_str :: "string \<Rightarrow> string" where
  "json_str s = CHR 0x22 # json_esc s @ [CHR 0x22]"

text \<open>One \<^verbatim>\<open>"key":value\<close> member of an object.\<close>

definition json_member :: "string \<times> string res \<Rightarrow> string res" where
  "json_member e = bind (snd e) (\<lambda>t. Inr (json_str (fst e) @ '':'' @ t))"

text \<open>
  \<^verbatim>\<open>json.Marshal\<close> on a Go value.  Object members come in ascending key order.  A struct with
  no exported field, such as \<^verbatim>\<open>listElem\<close>, prints as an empty object.
\<close>

primrec json_val :: "gval \<Rightarrow> string res" where
  "json_val VNil = Inr ''null''"
| "json_val (VBool b) = Inr (if b then ''true'' else ''false'')"
| "json_val (VInt i) = Inr (int_str (sint i))"
| "json_val (VFloat f) = json_float f"
| "json_val (VStr s) = Inr (json_str s)"
| "json_val (VList xs) =
     bind (mapM id (map json_val xs)) (\<lambda>ts. Inr (''['' @ join '','' ts @ '']''))"
| "json_val (VMap m) =
     bind (mapM json_member (map (map_prod id json_val) m)) (\<lambda>ts. Inr (''{'' @ join '','' ts @ ''}''))"
| "json_val (VListElem i v) = Inr ''{}''"

text \<open>Values \<^verbatim>\<open>json.Marshal\<close> accepts: no NaN and no infinity anywhere.\<close>

primrec jsonable :: "gval \<Rightarrow> bool" where
  "jsonable VNil = True"
| "jsonable (VBool b) = True"
| "jsonable (VInt i) = True"
| "jsonable (VFloat f) = (\<not> f_nan f \<and> \<not> f_inf f)"
| "jsonable (VStr s) = True"
| "jsonable (VList xs) = list_all id (map jsonable xs)"
| "jsonable (VMap m) = list_all snd (map (map_prod id jsonable) m)"
| "jsonable (VListElem i v) = True"

lemma mapM_is_ok: "is_ok (mapM f xs) \<longleftrightarrow> (\<forall>x \<in> set xs. is_ok (f x))"
proof (induction xs)
  case (Cons x xs)
  show ?case
  proof (cases "f x")
    case (Inr y)
    with Cons show ?thesis by (cases "mapM f xs") auto
  qed simp
qed simp

lemma is_ok_bind_pure [simp]: "is_ok (bind r (\<lambda>x. Inr (f x))) = is_ok r"
  by (cases r) auto

lemma json_val_ok: "is_ok (json_val v) \<longleftrightarrow> jsonable v"
proof (induction v)
  case (VMap m)
  then show ?case
    by (force simp: mapM_is_ok json_member_def list_all_iff)
qed (auto simp: json_float_def mapM_is_ok list_all_iff)

section \<open>Canonical form, keys, equality and copies (\<^verbatim>\<open>document.go\<close>)\<close>

primrec toCanonicalForm :: "gval \<Rightarrow> gval res" where
  "toCanonicalForm VNil = Inr VNil"
| "toCanonicalForm (VBool b) = Inr (VBool b)"
| "toCanonicalForm (VInt i) = Inr (VInt i)"
| "toCanonicalForm (VFloat f) = Inr (VFloat f)"
| "toCanonicalForm (VStr s) = Inr (VStr s)"
| "toCanonicalForm (VList xs) =
     bind (mapM (rewrap ''failed to canonicalize array element at index'') (map toCanonicalForm xs))
       (\<lambda>ys. Inr (VList ys))"
| "toCanonicalForm (VMap m) =
     bind (mapM (\<lambda>e. bind (rewrap ''failed to canonicalize map field'' (snd e)) (\<lambda>c. Inr (fst e, c)))
             (map (map_prod id toCanonicalForm) m))
       (\<lambda>m'. Inr (VMap m'))"
| "toCanonicalForm (VListElem i v) = Inr (VListElem i v)"

definition computeJSONKey :: "doc \<Rightarrow> string res" where
  "computeJSONKey d =
     bind (rewrap ''failed to convert document to canonical form'' (toCanonicalForm (VMap d)))
       (\<lambda>canonical. rewrap ''failed to marshal document to JSON'' (json_val canonical))"

definition DeepEqual :: "doc \<Rightarrow> doc \<Rightarrow> bool res" where
  "DeepEqual a b =
     bind (rewrap ''failed to compute key for first document'' (computeJSONKey a)) (\<lambda>keyA.
     bind (rewrap ''failed to compute key for second document'' (computeJSONKey b)) (\<lambda>keyB.
     Inr (keyA = keyB)))"

primrec DeepCopyAny :: "gval \<Rightarrow> gval" where
  "DeepCopyAny VNil = VNil"
| "DeepCopyAny (VBool b) = VBool b"
| "DeepCopyAny (VInt i) = VInt i"
| "DeepCopyAny (VFloat f) = VFloat f"
| "DeepCopyAny (VStr s) = VStr s"
| "DeepCopyAny (VList xs) = VList (map DeepCopyAny xs)"
| "DeepCopyAny (VMap m) = VMap (map (map_prod id DeepCopyAny) m)"
| "DeepCopyAny (VListElem i v) = VListElem i v"

definition DeepCopyDocument :: "doc \<Rightarrow> doc" where
  "DeepCopyDocument d = (case DeepCopyAny (VMap d) of VMap c \<Rightarrow> c | _ \<Rightarrow> [])"

definition computeJSONAny :: "gval \<Rightarrow> string res" where
  "computeJSONAny v = rewrap ''failed to marshal value to JSON'' (json_val v)"

lemma DeepCopyAny_id [simp, copy_ids]: "DeepCopyAny v = v"
proof (induction v)
  case (VMap m)
  then show ?case by (auto intro!: map_idI)
qed (auto intro!: map_idI)

lemma DeepCopyDocument_id [simp, copy_ids]: "DeepCopyDocument d = d"
  by (simp add: DeepCopyDocument_def del: DeepCopyAny.simps)

lemma toCanonicalForm_id [simp]: "toCanonicalForm v = Inr v"
proof (induction v)
  case (VList xs)
  then show ?case by (simp add: mapM_map mapM_pointwise [where h = id])
next
  case (VMap m)
  then show ?case
    by (auto simp: mapM_map intro!: exI [of _ m] mapM_pointwise [where h = id, simplified]
        simp: bind_Inr_iff)
qed simp_all

lemma computeJSONKey_json:
  "computeJSONKey d = rewrap ''failed to marshal document to JSON'' (json_val (VMap d))"
  by (simp add: computeJSONKey_def del: toCanonicalForm.simps json_val.simps)

text \<open>The successful keys, as an option: what the invariants of Z-sets talk about.\<close>

definition doc_key :: "doc \<Rightarrow> string option" where
  "doc_key d = (case computeJSONKey d of Inl _ \<Rightarrow> None | Inr k \<Rightarrow> Some k)"

lemma doc_key_Some_iff: "doc_key d = Some k \<longleftrightarrow> computeJSONKey d = Inr k"
  by (simp add: doc_key_def split: sum.splits)

lemma computeJSONKey_ok: "is_ok (computeJSONKey d) \<longleftrightarrow> jsonable (VMap d)"
  by (simp add: computeJSONKey_json json_val_ok del: jsonable.simps json_val.simps)

end
