(* ===== verification/ZSet.thy ===== *)
theory ZSet
  imports Documents
begin

text \<open>
  Package \<^verbatim>\<open>dbsp\<close>, file \<^verbatim>\<open>zset.go\<close>: Z-sets of documents.  The state is the pair of Go maps of
  the source, the invariant \<open>zwf\<close> says how they agree, and the multiplicity function
  \<open>cnt\<close> is the abstraction: two Z-sets with the same \<open>cnt\<close> are the same Z-set.
  Multiplicities are 64-bit words, so the group laws hold with wrap-around included.
\<close>

section \<open>The data structure\<close>

record zset =
  docs :: "(string \<times> doc) list"
  counts :: "(string \<times> gint) list"

definition NewDocumentZSet :: zset where
  "NewDocumentZSet = \<lparr>docs = [], counts = []\<rparr>"

text \<open>\<^verbatim>\<open>dz.docs[key]\<close>: the zero value of a missing entry is the nil map.\<close>

definition zdoc :: "zset \<Rightarrow> string \<Rightarrow> doc" where
  "zdoc dz key = (case map_of (docs dz) key of None \<Rightarrow> [] | Some d \<Rightarrow> d)"

definition cnt :: "zset \<Rightarrow> string \<Rightarrow> gint" where
  "cnt dz key = lookup0 (counts dz) key"

definition zwf :: "zset \<Rightarrow> bool" where
  "zwf dz \<longleftrightarrow>
     distinct (map fst (docs dz)) \<and> distinct (map fst (counts dz)) \<and>
     keys (docs dz) = keys (counts dz) \<and>
     (\<forall>k d. (k, d) \<in> set (docs dz) \<longrightarrow> computeJSONKey d = Inr k) \<and>
     (\<forall>k m. (k, m) \<in> set (counts dz) \<longrightarrow> m \<noteq> 0)"

text \<open>The documents a Z-set holds.\<close>

definition zdocs :: "zset \<Rightarrow> doc set" where
  "zdocs dz = snd ` set (docs dz)"

section \<open>Operations\<close>

definition AddDocumentMutate :: "zset \<Rightarrow> doc \<Rightarrow> gint \<Rightarrow> zset res" where
  "AddDocumentMutate dz d count =
     (if count = 0 then Inr dz
      else bind (computeJSONKey d) (\<lambda>key.
        let dz1 = (case map_of (counts dz) key of
              Some c \<Rightarrow> dz\<lparr>counts := AList.update key (c + count) (counts dz)\<rparr>
            | None \<Rightarrow> dz\<lparr>docs := AList.update key d (docs dz),
                         counts := AList.update key count (counts dz)\<rparr>)
        in Inr (if lookup0 (counts dz1) key = 0
                then dz1\<lparr>counts := AList.delete key (counts dz1), docs := AList.delete key (docs dz1)\<rparr>
                else dz1)))"

definition ShallowCopy :: "zset \<Rightarrow> zset" where
  "ShallowCopy dz = \<lparr>docs = map (\<lambda>(k, d). (k, d)) (docs dz), counts = map (\<lambda>(k, c). (k, c)) (counts dz)\<rparr>"

definition DeepCopy :: "zset \<Rightarrow> zset" where
  "DeepCopy dz =
     \<lparr>docs = map (\<lambda>(k, d). (k, DeepCopyDocument d)) (docs dz),
      counts = map (\<lambda>(k, d). (k, lookup0 (counts dz) k)) (docs dz)\<rparr>"

definition AddDocument :: "zset \<Rightarrow> doc \<Rightarrow> gint \<Rightarrow> zset res" where
  "AddDocument dz d count = AddDocumentMutate (ShallowCopy dz) d count"

text \<open>The argument of \<^verbatim>\<open>Add\<close> and \<^verbatim>\<open>Subtract\<close> is a pointer; \<^term>\<open>None\<close> is \<^verbatim>\<open>nil\<close>.\<close>

fun Add :: "zset \<Rightarrow> zset option \<Rightarrow> zset res" where
  "Add dz None = Inr (DeepCopy dz)"
| "Add dz (Some other) =
     foldM (\<lambda>result (key, count).
         rewrap ''failed to add document during Z-set addition''
           (AddDocumentMutate result (zdoc other key) count))
       (DeepCopy dz) (counts other)"

fun Subtract :: "zset \<Rightarrow> zset option \<Rightarrow> zset res" where
  "Subtract dz None = Inr (DeepCopy dz)"
| "Subtract dz (Some other) =
     foldM (\<lambda>result (key, count).
         rewrap ''failed to subtract document during Z-set subtraction''
           (AddDocumentMutate result (zdoc other key) (- count)))
       (DeepCopy dz) (counts other)"

definition Distinct :: "zset \<Rightarrow> zset res" where
  "Distinct dz =
     foldM (\<lambda>result (key, count).
         if ipos count
         then rewrap ''failed to add document during 'distinct' operation''
                (AddDocumentMutate result (zdoc dz key) 1)
         else Inr result)
       NewDocumentZSet (counts dz)"

definition Unique :: "zset \<Rightarrow> zset res" where
  "Unique dz =
     foldM (\<lambda>result (key, count).
         let mul = (if ineg count then -1 else 1)
         in rewrap ''failed to add document during 'unique' operation''
              (AddDocumentMutate result (zdoc dz key) mul))
       NewDocumentZSet (counts dz)"

record DocumentEntry =
  Document :: doc
  Multiplicity :: gint

definition ListEntries :: "zset \<Rightarrow> DocumentEntry list res" where
  "ListEntries dz =
     Inr (map (\<lambda>(key, mult). \<lparr>Document = DeepCopyDocument (zdoc dz key), Multiplicity = mult\<rparr>) (counts dz))"

definition GetDocuments :: "zset \<Rightarrow> doc list res" where
  "GetDocuments dz =
     Inr (concat (map (\<lambda>(key, count).
       if sint count \<le> 0 then []
       else replicate (nat (sint count)) (DeepCopyDocument (zdoc dz key))) (counts dz)))"

definition GetUniqueDocuments :: "zset \<Rightarrow> doc list res" where
  "GetUniqueDocuments dz =
     Inr (concat (map (\<lambda>(key, count).
       if ipos count then [DeepCopyDocument (zdoc dz key)] else []) (counts dz)))"

definition IsZero :: "zset \<Rightarrow> bool" where
  "IsZero dz \<longleftrightarrow> length (counts dz) = 0"

definition Size :: "zset \<Rightarrow> gint" where
  "Size dz = fold (\<lambda>(_, count) total. if ipos count then total + count else total) (counts dz) 0"

definition TotalSize :: "zset \<Rightarrow> gint" where
  "TotalSize dz =
     fold (\<lambda>(_, count) total. if ipos count then total + count else total + (- count)) (counts dz) 0"

definition UniqueCount :: "zset \<Rightarrow> gint" where
  "UniqueCount dz = fold (\<lambda>(_, mult) count. if ipos mult then count + 1 else count) (counts dz) 0"

definition GetMultiplicity :: "zset \<Rightarrow> doc \<Rightarrow> gint res" where
  "GetMultiplicity dz d =
     bind (rewrap ''failed to compute document key'' (computeJSONKey d)) (\<lambda>key.
       Inr (case map_of (counts dz) key of Some count \<Rightarrow> count | None \<Rightarrow> 0))"

definition Contains :: "zset \<Rightarrow> doc \<Rightarrow> bool res" where
  "Contains dz d = bind (GetMultiplicity dz d) (\<lambda>multiplicity. Inr (ipos multiplicity))"

definition SingletonZSet :: "doc \<Rightarrow> zset res" where
  "SingletonZSet d = AddDocument NewDocumentZSet d 1"

definition FromDocuments :: "doc list \<Rightarrow> zset res" where
  "FromDocuments ds =
     foldM (\<lambda>result d. rewrap ''failed to add document at index'' (AddDocument result d 1))
       NewDocumentZSet ds"

text \<open>\<^verbatim>\<open>newDocumentFromPairs\<close>: alternating keys and values.\<close>

fun pairs_loop :: "doc \<Rightarrow> gval list \<Rightarrow> doc res" where
  "pairs_loop d (VStr key # v # rest) = pairs_loop (sm_set key v d) rest"
| "pairs_loop d (_ # _ # _) = Inl (Error ''key at position must be a string'')"
| "pairs_loop d _ = Inr d"

definition newDocumentFromPairs :: "gval list \<Rightarrow> doc res" where
  "newDocumentFromPairs ps =
     (if length ps mod 2 \<noteq> 0
      then Inl (Error ''NewDocument requires even number of arguments (key-value pairs)'')
      else pairs_loop [] ps)"

section \<open>Basic facts\<close>

lemma ShallowCopy_id [simp, copy_ids]: "ShallowCopy dz = dz"
  by (simp add: ShallowCopy_def)

lemma AddDocument_eq [simp]: "AddDocument dz d n = AddDocumentMutate dz d n"
  by (simp add: AddDocument_def)

lemma zwf_New [simp, wf_intros]: "zwf NewDocumentZSet"
  by (simp add: zwf_def NewDocumentZSet_def)

lemma cnt_New [simp, cnt_simps]: "cnt NewDocumentZSet k = 0"
  by (simp add: cnt_def NewDocumentZSet_def)

lemma zdocs_New [simp]: "zdocs NewDocumentZSet = {}"
  by (simp add: zdocs_def NewDocumentZSet_def)

lemma zwf_keys: "zwf dz \<Longrightarrow> keys (docs dz) = keys (counts dz)"
  by (simp add: zwf_def)

lemma zwf_distinct: "zwf dz \<Longrightarrow> distinct (map fst (counts dz))" "zwf dz \<Longrightarrow> distinct (map fst (docs dz))"
  by (simp_all add: zwf_def)

lemma zdoc_mem:
  assumes "zwf dz" and "k \<in> keys (counts dz)"
  shows "(k, zdoc dz k) \<in> set (docs dz)"
proof -
  from assms have "k \<in> keys (docs dz)" by (simp add: zwf_def)
  then obtain d where "map_of (docs dz) k = Some d"
    by (metis (no_types) map_of_eq_None_iff not_None_eq)
  then show ?thesis by (simp add: zdoc_def map_of_SomeD)
qed

lemma zdoc_key: "zwf dz \<Longrightarrow> k \<in> keys (counts dz) \<Longrightarrow> computeJSONKey (zdoc dz k) = Inr k"
  using zdoc_mem [of dz k] unfolding zwf_def by blast

lemma zdoc_in_zdocs: "zwf dz \<Longrightarrow> k \<in> keys (counts dz) \<Longrightarrow> zdoc dz k \<in> zdocs dz"
  using zdoc_mem [of dz k] by (force simp: zdocs_def)

lemma zdocs_eq: "zwf dz \<Longrightarrow> zdocs dz = zdoc dz ` keys (counts dz)"
proof -
  assume wf: "zwf dz"
  have "d = zdoc dz k" if "(k, d) \<in> set (docs dz)" for k d
    using that zwf_distinct(2) [OF wf] by (simp add: zdoc_def)
  with zwf_keys [OF wf] have "zdocs dz \<subseteq> zdoc dz ` keys (counts dz)"
    by (force simp: zdocs_def image_iff)
  with zdoc_in_zdocs [OF wf] show ?thesis by blast
qed

lemma cnt_eq_0_iff:
  assumes "zwf dz"
  shows "cnt dz k = 0 \<longleftrightarrow> k \<notin> keys (counts dz)"
proof (cases "map_of (counts dz) k")
  case None
  with map_of_eq_None_iff [of "counts dz" k] show ?thesis by (simp add: cnt_def lookup0_def)
next
  case (Some m)
  then have "(k, m) \<in> set (counts dz)" by (rule map_of_SomeD)
  with assms have "m \<noteq> 0" "k \<in> keys (counts dz)" by (auto simp: zwf_def intro: rev_image_eqI)
  with Some show ?thesis by (simp add: cnt_def lookup0_def)
qed

lemma cnt_mem:
  assumes "zwf dz"
  shows "(k, m) \<in> set (counts dz) \<longleftrightarrow> m \<noteq> 0 \<and> cnt dz k = m"
proof -
  have "(k, m) \<in> set (counts dz) \<longleftrightarrow> map_of (counts dz) k = Some m"
    using zwf_distinct(1) [OF assms] by simp
  moreover have "map_of (counts dz) k = Some m \<longleftrightarrow> m \<noteq> 0 \<and> cnt dz k = m"
    using cnt_eq_0_iff [OF assms, of k] map_of_eq_None_iff [of "counts dz" k]
    by (cases "map_of (counts dz) k") (auto simp: cnt_def lookup0_def)
  ultimately show ?thesis by simp
qed

lemma keys_counts_eq: "zwf dz \<Longrightarrow> keys (counts dz) = {k. cnt dz k \<noteq> 0}"
  using cnt_eq_0_iff by blast

lemma DeepCopy_simps:
  assumes "zwf dz"
  shows zwf_DeepCopy: "zwf (DeepCopy dz)"
    and cnt_DeepCopy: "cnt (DeepCopy dz) k = cnt dz k"
    and zdocs_DeepCopy: "zdocs (DeepCopy dz) = zdocs dz"
    and zdoc_DeepCopy: "zdoc (DeepCopy dz) k = zdoc dz k"
    and docs_DeepCopy: "docs (DeepCopy dz) = docs dz"
proof -
  have d: "docs (DeepCopy dz) = docs dz" by (simp add: DeepCopy_def)
  have c: "counts (DeepCopy dz) = map (\<lambda>k. (k, cnt dz k)) (map fst (docs dz))"
    by (simp add: DeepCopy_def cnt_def case_prod_unfold)
  have ks: "keys (counts (DeepCopy dz)) = keys (docs dz)" by (simp add: c image_image)
  show "zwf (DeepCopy dz)"
    using assms cnt_eq_0_iff [OF assms] unfolding zwf_def d ks
    by (auto simp: c comp_def) (metis fst_conv image_eqI)
  show "cnt (DeepCopy dz) k = cnt dz k"
  proof (cases "k \<in> keys (docs dz)")
    case True
    then have "map_of (counts (DeepCopy dz)) k = Some (cnt dz k)"
      unfolding c by (subst map_of_map_restrict) simp
    then show ?thesis by (simp add: cnt_def lookup0_def)
  next
    case False
    then show ?thesis
      using assms ks by (simp add: cnt_def zwf_def)
  qed
  show "zdocs (DeepCopy dz) = zdocs dz" and "zdoc (DeepCopy dz) k = zdoc dz k"
    by (simp_all add: zdocs_def zdoc_def d)
  show "docs (DeepCopy dz) = docs dz" by (rule d)
qed

declare zwf_DeepCopy [simp, wf_intros] cnt_DeepCopy [simp, cnt_simps] zdocs_DeepCopy [simp]
  zdoc_DeepCopy [simp]

end
