(* ===== verification/ZSet_Laws.thy ===== *)
theory ZSet_Laws
  imports ZSet
begin

text \<open>
  The contract of the Z-set as the operators use it, stated as the locale \<open>zset_adt\<close> and
  discharged for the two-map representation of \<^verbatim>\<open>zset.go\<close>; and what every operation of the
  file does to multiplicities: addition and subtraction are pointwise and total, the empty
  Z-set and negation make them an abelian group, \<^verbatim>\<open>Distinct\<close> and \<^verbatim>\<open>Unique\<close> are the positive
  part and the sign.
\<close>

section \<open>What running a loop body does to an accumulator\<close>

text \<open>One document, looked up by key: 1 if \<open>d\<close> is stored under \<open>k\<close>.\<close>

definition hit :: "doc \<Rightarrow> string \<Rightarrow> gint" where
  "hit d k = (if computeJSONKey d = Inr k then 1 else 0)"

text \<open>How often a list of documents hits the key \<open>k\<close>.\<close>

definition occ :: "doc list \<Rightarrow> string \<Rightarrow> gint" where
  "occ ds k = (\<Sum>d \<leftarrow> ds. hit d k)"

lemma occ_simps [simp]: "occ [] k = 0" "occ (d # ds) k = hit d k + occ ds k"
  "occ (ds @ es) k = occ ds k + occ es k"
  by (simp_all add: occ_def)

text \<open>
  \<open>adds invar mult held z g H r\<close>: the computation \<open>r\<close> started from accumulator \<open>z\<close>
  succeeds, keeps the invariant, adds \<open>g\<close> to the multiplicities and stores no documents but
  those of \<open>H\<close>.
\<close>

definition adds ::
    "('z \<Rightarrow> bool) \<Rightarrow> ('z \<Rightarrow> string \<Rightarrow> gint) \<Rightarrow> ('z \<Rightarrow> doc set) \<Rightarrow>
     'z \<Rightarrow> (string \<Rightarrow> gint) \<Rightarrow> doc set \<Rightarrow> 'z res \<Rightarrow> bool" where
  "adds invar mult held z g H r \<longleftrightarrow>
     (\<exists>z'. r = Inr z' \<and> invar z' \<and> (\<forall>k. mult z' k = mult z k + g k) \<and> held z' \<subseteq> held z \<union> H)"

lemma adds_rewrap [simp]: "adds invar mult held z g H (rewrap m r) = adds invar mult held z g H r"
  by (simp add: adds_def)

lemma adds_mono:
  "adds invar mult held z g H r \<Longrightarrow> (\<And>k. g k = g' k) \<Longrightarrow> H \<subseteq> H' \<Longrightarrow> adds invar mult held z g' H' r"
  by (fastforce simp: adds_def)

lemma adds_bind:
  assumes "adds invar mult held z g H r"
    and "\<And>z'. r = Inr z' \<Longrightarrow> invar z' \<Longrightarrow> adds invar mult held z' g' H' (f z')"
  shows "adds invar mult held z (\<lambda>k. g k + g' k) (H \<union> H') (bind r f)"
  using assms by (fastforce simp: adds_def add.assoc)

lemma adds_foldM:
  assumes "invar z" and "\<And>r x. x \<in> set xs \<Longrightarrow> invar r \<Longrightarrow> adds invar mult held r (g x) (H x) (f r x)"
  shows "adds invar mult held z (\<lambda>k. \<Sum>x \<leftarrow> xs. g x k) (\<Union>x \<in> set xs. H x) (foldM f z xs)"
  using assms
proof (induction xs arbitrary: z)
  case Nil
  then show ?case by (simp add: adds_def)
next
  case (Cons x xs)
  have "adds invar mult held z (\<lambda>k. g x k + (\<Sum>y \<leftarrow> xs. g y k)) (H x \<union> (\<Union>y \<in> set xs. H y))
      (bind (f z x) (\<lambda>s. foldM f s xs))"
    using Cons by (intro adds_bind) auto
  then show ?case by simp
qed

locale zset_adt =
  fixes empty :: 'z
    and add_doc :: "'z \<Rightarrow> doc \<Rightarrow> gint \<Rightarrow> 'z res"
    and mult :: "'z \<Rightarrow> string \<Rightarrow> gint"
    and held :: "'z \<Rightarrow> doc set"
    and invar :: "'z \<Rightarrow> bool"
  assumes invar_empty: "invar empty"
    and mult_empty: "mult empty k = 0"
    and held_empty: "held empty = {}"
    and add_doc_adds: "invar z \<Longrightarrow> computeJSONKey d = Inr k \<Longrightarrow>
      adds invar mult held z (\<lambda>k'. n * hit d k') {d} (add_doc z d n)"
    and add_doc_fails: "computeJSONKey d = Inl e \<Longrightarrow> n \<noteq> 0 \<Longrightarrow> add_doc z d n = Inl e"
begin

lemma add_list:
  assumes "invar z" and "\<And>d. d \<in> set ds \<Longrightarrow> is_ok (computeJSONKey d)"
  shows "adds invar mult held z (\<lambda>k. n * occ ds k) (set ds) (foldM (\<lambda>r d. add_doc r d n) z ds)"
proof -
  have "adds invar mult held r (\<lambda>k. n * hit d k) {d} (add_doc r d n)"
    if "d \<in> set ds" "invar r" for r d
    using that assms(2) [of d] by (auto simp: is_ok_iff intro: add_doc_adds)
  from adds_foldM [of invar z ds mult held "\<lambda>d k. n * hit d k" "\<lambda>d. {d}", OF assms(1) this]
  show ?thesis by (simp add: occ_def sum_list_const_mult)
qed

text \<open>
  The loop all per-document operators share: evaluate each entry's document into a list of
  documents and add them with the entry's multiplicity.
\<close>

lemma spread:
  assumes "invar z"
    and "\<And>x. x \<in> set xs \<Longrightarrow> f x = Inr (img x)"
    and "\<And>x d. x \<in> set xs \<Longrightarrow> d \<in> set (img x) \<Longrightarrow> is_ok (computeJSONKey d)"
  shows "adds invar mult held z (\<lambda>k. \<Sum>x \<leftarrow> xs. n x * occ (img x) k) (\<Union>x \<in> set xs. set (img x))
    (foldM (\<lambda>r x. bind (f x) (\<lambda>ds. foldM (\<lambda>r d. add_doc r d (n x)) r ds)) z xs)"
  using assms by (intro adds_foldM) (auto intro: add_list)

end

section \<open>The two-map representation meets the contract\<close>

lemma zwf_insert:
  assumes "zwf dz" and "computeJSONKey d = Inr k" and "k \<notin> keys (counts dz)" and "n \<noteq> 0"
  shows "zwf (dz\<lparr>docs := AList.update k d (docs dz), counts := AList.update k n (counts dz)\<rparr>)"
proof -
  from assms(1,3) have "k \<notin> keys (docs dz)" by (simp add: zwf_def)
  with assms show ?thesis by (auto simp: zwf_def set_update_new)
qed

lemma zwf_bump:
  assumes "zwf dz" and "k \<in> keys (counts dz)" and "n \<noteq> 0"
  shows "zwf (dz\<lparr>counts := AList.update k n (counts dz)\<rparr>)"
  using assms by (auto simp: zwf_def set_update distinct_update insert_absorb)

lemma zwf_remove:
  assumes "zwf dz"
  shows "zwf (dz\<lparr>counts := AList.delete k (counts dz), docs := AList.delete k (docs dz)\<rparr>)"
proof -
  have "keys (AList.delete k (docs dz)) = keys (AList.delete k (counts dz))"
    using assms by (simp add: zwf_def)
  with assms show ?thesis
    unfolding zwf_def by (simp add: set_delete distinct_delete) blast
qed

lemma lookup0_update: "lookup0 (AList.update k v m) k' = (if k' = k then v else lookup0 m k')"
  by (simp add: lookup0_def update_conv')

lemma lookup0_delete: "lookup0 (AList.delete k m) k' = (if k' = k then 0 else lookup0 m k')"
  by (simp add: lookup0_def delete_conv')

text \<open>The three outcomes of a successful call with a non-zero count.\<close>

lemma AddDocumentMutate_cases:
  assumes "computeJSONKey d = Inr k" and "n \<noteq> 0"
  shows "k \<notin> keys (counts dz) \<Longrightarrow> AddDocumentMutate dz d n =
      Inr (dz\<lparr>docs := AList.update k d (docs dz), counts := AList.update k n (counts dz)\<rparr>)"
    and "map_of (counts dz) k = Some c \<Longrightarrow> c + n = 0 \<Longrightarrow> AddDocumentMutate dz d n =
      Inr (dz\<lparr>counts := AList.delete k (counts dz), docs := AList.delete k (docs dz)\<rparr>)"
    and "map_of (counts dz) k = Some c \<Longrightarrow> c + n \<noteq> 0 \<Longrightarrow> AddDocumentMutate dz d n =
      Inr (dz\<lparr>counts := AList.update k (c + n) (counts dz)\<rparr>)"
  using assms map_of_eq_None_iff [of "counts dz" k]
  by (auto simp: AddDocumentMutate_def lookup0_update delete_update_same)

lemma AddDocumentMutate_adds:
  assumes wf: "zwf dz" and key: "computeJSONKey d = Inr k"
  shows "adds zwf cnt zdocs dz (\<lambda>k'. n * hit d k') {d} (AddDocumentMutate dz d n)"
proof (cases "n = 0")
  case True
  with wf show ?thesis by (auto simp: adds_def AddDocumentMutate_def)
next
  case n: False
  note add = AddDocumentMutate_cases [OF key n, of dz]
  show ?thesis
  proof (cases "map_of (counts dz) k")
    case None
    then have k: "k \<notin> keys (counts dz)" by (simp add: map_of_eq_None_iff)
    with zwf_keys [OF wf] have "k \<notin> keys (docs dz)" by simp
    with add(1) [OF k] zwf_insert [OF wf key k n] key k show ?thesis
      by (auto simp: adds_def lookup0_update cnt_def hit_def zdocs_def set_update_notin)
  next
    case (Some c)
    then have k: "k \<in> keys (counts dz)" and c: "lookup0 (counts dz) k = c"
      by (auto simp: lookup0_def intro: rev_image_eqI dest: map_of_SomeD)
    show ?thesis
    proof (cases "c + n = 0")
      case True
      with add(2) [OF Some] zwf_remove [OF wf, of k] key c show ?thesis
        by (auto simp: adds_def lookup0_delete cnt_def hit_def zdocs_def set_delete)
    next
      case False
      with add(3) [OF Some] zwf_bump [OF wf k] key c show ?thesis
        by (auto simp: adds_def lookup0_update cnt_def hit_def zdocs_def)
    qed
  qed
qed

interpretation zs: zset_adt NewDocumentZSet AddDocumentMutate cnt zdocs zwf
proof
  show "adds zwf cnt zdocs z (\<lambda>k'. n * hit d k') {d} (AddDocumentMutate z d n)"
    if "zwf z" "computeJSONKey d = Inr k" for z d k n
    by (rule AddDocumentMutate_adds [OF that])
  show "AddDocumentMutate z d n = Inl e" if "computeJSONKey d = Inl e" "n \<noteq> 0" for d e n z
    using that by (simp add: AddDocumentMutate_def)
qed simp_all

section \<open>Sums over the entries of a Z-set\<close>

lemma sum_counts:
  assumes "zwf z" and "finite K" and "keys (counts z) \<subseteq> K"
  shows "(\<Sum>(k, m) \<leftarrow> counts z. m * g k) = (\<Sum>k \<in> K. cnt z k * g k)"
  unfolding cnt_def by (rule alist_sum [OF zwf_distinct(1) [OF assms(1)] assms(2,3)])

text \<open>Of a sum over the entries only the entry of \<open>k\<close> survives.\<close>

lemma alist_pick:
  "distinct (map fst m) \<Longrightarrow>
   (\<Sum>(k', v) \<leftarrow> m. if k' = k then h v else 0) = (case map_of m k of None \<Rightarrow> 0 | Some v \<Rightarrow> h v)"
proof (induction m)
  case (Cons e m)
  obtain k' v where e: "e = (k', v)" by (cases e)
  have "(\<Sum>(k', v) \<leftarrow> m. if k' = k then h v else 0) = 0" if "k \<notin> keys m"
    using that by (induction m) auto
  with Cons e show ?case by auto
qed simp

lemma pick_counts:
  assumes "zwf z"
  shows "(\<Sum>(k', m) \<leftarrow> counts z. h m * hit (zdoc z k') k) = (if cnt z k = 0 then 0 else h (cnt z k))"
proof -
  have "(\<Sum>(k', m) \<leftarrow> counts z. h m * hit (zdoc z k') k)
      = (\<Sum>(k', m) \<leftarrow> counts z. if k' = k then h m else 0)"
    by (rule arg_cong [where f = sum_list], rule map_cong)
      (auto simp: hit_def zdoc_key [OF assms] rev_image_eqI split: prod.splits)
  also have "\<dots> = (case map_of (counts z) k of None \<Rightarrow> 0 | Some v \<Rightarrow> h v)"
    by (rule alist_pick [OF zwf_distinct(1) [OF assms]])
  also have "\<dots> = (if cnt z k = 0 then 0 else h (cnt z k))"
    using assms by (auto simp: cnt_def lookup0_def zwf_def split: option.splits dest: map_of_SomeD)
  finally show ?thesis .
qed

section \<open>Addition, subtraction, distinct, unique\<close>

text \<open>Loops over the entries of a Z-set that add one document per entry.\<close>

lemma adds_entries:
  assumes "zwf acc" and "zwf z"
    and "\<And>r k m. (k, m) \<in> set (counts z) \<Longrightarrow> zwf r \<Longrightarrow>
      f r (k, m) = rewrap msg (AddDocumentMutate r (zdoc z k) (h m))"
  shows "adds zwf cnt zdocs acc (\<lambda>k. if cnt z k = 0 then 0 else h (cnt z k)) (zdocs z) (foldM f acc (counts z))"
proof -
  have step: "adds zwf cnt zdocs r (\<lambda>k. h (snd e) * hit (zdoc z (fst e)) k) (zdocs z) (f r e)"
    if "e \<in> set (counts z)" "zwf r" for r e
  proof -
    obtain k m where e: "e = (k, m)" by (cases e)
    with that assms(2) have k: "k \<in> keys (counts z)" by force
    have "adds zwf cnt zdocs r (\<lambda>k'. h m * hit (zdoc z k) k') {zdoc z k}
        (AddDocumentMutate r (zdoc z k) (h m))"
      by (rule AddDocumentMutate_adds [OF that(2) zdoc_key [OF assms(2) k]])
    with assms(3) [of k m r] that e zdoc_in_zdocs [OF assms(2) k] show ?thesis
      by (auto simp: adds_def)
  qed
  have "adds zwf cnt zdocs acc (\<lambda>k. \<Sum>e \<leftarrow> counts z. h (snd e) * hit (zdoc z (fst e)) k)
      (\<Union>e \<in> set (counts z). zdocs z) (foldM f acc (counts z))"
    by (rule adds_foldM [OF assms(1) step])
  then show ?thesis
    by (rule adds_mono) (use pick_counts [OF assms(2), of h] in \<open>auto simp: case_prod_unfold\<close>)
qed

lemma Add_adds:
  assumes "zwf a" and "zwf b"
  shows "adds zwf cnt zdocs a (cnt b) (zdocs b) (Add a (Some b))"
proof -
  have "adds zwf cnt zdocs (DeepCopy a) (\<lambda>k. if cnt b k = 0 then 0 else cnt b k) (zdocs b) (Add a (Some b))"
    unfolding Add.simps using assms by (intro adds_entries [where h = "\<lambda>m. m"]) auto
  with assms(1) show ?thesis by (simp add: adds_def if_distrib cong: if_cong)
qed

lemma Subtract_adds:
  assumes "zwf a" and "zwf b"
  shows "adds zwf cnt zdocs a (\<lambda>k. - cnt b k) (zdocs b) (Subtract a (Some b))"
proof -
  have "adds zwf cnt zdocs (DeepCopy a) (\<lambda>k. if cnt b k = 0 then 0 else - cnt b k) (zdocs b)
      (Subtract a (Some b))"
    unfolding Subtract.simps using assms by (intro adds_entries [where h = uminus]) auto
  moreover have "(if c = 0 then 0 else - c) = - c" for c :: gint by simp
  ultimately show ?thesis using assms(1) by (simp add: adds_def)
qed

lemma Add_ok:
  assumes "zwf a" and "zwf b"
  obtains c where "Add a (Some b) = Inr c" "zwf c" "\<And>k. cnt c k = cnt a k + cnt b k"
    "zdocs c \<subseteq> zdocs a \<union> zdocs b"
  using Add_adds [OF assms] by (auto simp: adds_def)

lemma Subtract_ok:
  assumes "zwf a" and "zwf b"
  obtains c where "Subtract a (Some b) = Inr c" "zwf c" "\<And>k. cnt c k = cnt a k - cnt b k"
    "zdocs c \<subseteq> zdocs a \<union> zdocs b"
  using Subtract_adds [OF assms] by (auto simp: adds_def)

declare Add.simps(2) [simp del] Subtract.simps(2) [simp del]

lemma Distinct_adds:
  assumes "zwf z"
  shows "adds zwf cnt zdocs NewDocumentZSet (\<lambda>k. if ipos (cnt z k) then 1 else 0) (zdocs z) (Distinct z)"
proof -
  have "(\<lambda>result (key, count). if ipos count
         then rewrap ''failed to add document during 'distinct' operation''
                (AddDocumentMutate result (zdoc z key) 1) else Inr result)
      = (\<lambda>result (key, count). rewrap ''failed to add document during 'distinct' operation''
                (AddDocumentMutate result (zdoc z key) (if ipos count then 1 else 0)))"
    by (auto simp: fun_eq_iff AddDocumentMutate_def)
  then have "adds zwf cnt zdocs NewDocumentZSet
      (\<lambda>k. if cnt z k = 0 then 0 else if ipos (cnt z k) then 1 else 0) (zdocs z) (Distinct z)"
    unfolding Distinct_def using assms
    by (simp only:) (intro adds_entries [where h = "\<lambda>m. if ipos m then 1 else 0"]; simp)
  then show ?thesis by (rule adds_mono) auto
qed

lemma Unique_adds:
  assumes "zwf z"
  shows "adds zwf cnt zdocs NewDocumentZSet
    (\<lambda>k. if cnt z k = 0 then 0 else if ineg (cnt z k) then -1 else 1) (zdocs z) (Unique z)"
  unfolding Unique_def using assms
  by (intro adds_entries [where h = "\<lambda>m. if ineg m then -1 else 1"]) (simp_all add: Let_def)

end
