(* ===== verification/Op_Base.thy ===== *)
theory Op_Base
  imports ZSet_Laws
begin

text \<open>
  Package \<^verbatim>\<open>dbsp\<close>, file \<^verbatim>\<open>op.go\<close>: the function types operators are built from and the input
  check they share.  Evaluators, extractors and transformers are interfaces in the source; here
  they are pure functions, arguments of the operators.  The second half is the theory of
  per-document operators: the locale \<open>linear_op\<close> says that an operator maps every document of
  its input to a list of documents and adds them with the document's multiplicity, and derives
  additivity, preservation of zero, and correctness on streams of deltas.
\<close>

section \<open>Interfaces and input validation\<close>

type_synonym evaluator = "doc \<Rightarrow> doc list res"
type_synonym extractor = "doc \<Rightarrow> gval res"
type_synonym transformer = "doc \<Rightarrow> gval \<Rightarrow> doc res"

definition validateInputs :: "nat \<Rightarrow> zset list \<Rightarrow> unit res" where
  "validateInputs arity inputs =
     (if length inputs \<noteq> arity then Inl (Error ''node expects a different number of inputs'') else Inr ())"

lemma validateInputs_1 [simp]: "validateInputs (Suc 0) [z] = Inr ()"
  by (simp add: validateInputs_def)

lemma validateInputs_2 [simp]: "validateInputs 2 [a, b] = Inr ()"
  by (simp add: validateInputs_def)

section \<open>Weighted sums of multiplicity functions\<close>

definition wsum :: "(string \<Rightarrow> gint) \<Rightarrow> (string \<Rightarrow> gint) \<Rightarrow> gint" where
  "wsum f g = (\<Sum>k \<in> {k. f k \<noteq> 0}. f k * g k)"

lemma wsum_superset:
  assumes "finite K" and "{k. f k \<noteq> 0} \<subseteq> K"
  shows "wsum f g = (\<Sum>k \<in> K. f k * g k)"
  unfolding wsum_def using assms by (intro sum.mono_neutral_left) auto

lemma wsum_add:
  assumes "finite {k. f k \<noteq> 0}" and "finite {k. f' k \<noteq> 0}"
  shows "wsum (\<lambda>k. f k + f' k) g = wsum f g + wsum f' g"
proof -
  let ?K = "{k. f k \<noteq> 0} \<union> {k. f' k \<noteq> 0}"
  have "wsum (\<lambda>k. f k + f' k) g = (\<Sum>k \<in> ?K. (f k + f' k) * g k)"
    using assms by (intro wsum_superset) auto
  also have "\<dots> = (\<Sum>k \<in> ?K. f k * g k) + (\<Sum>k \<in> ?K. f' k * g k)"
    by (simp add: distrib_right sum.distrib)
  also have "\<dots> = wsum f g + wsum f' g"
    using assms wsum_superset [of ?K f g] wsum_superset [of ?K f' g] by simp
  finally show ?thesis .
qed

lemma wsum_uminus: "wsum (\<lambda>k. - f k) g = - wsum f g"
  by (simp add: wsum_def sum_negf)

lemma wsum_zero [simp]: "wsum (\<lambda>k. 0) g = 0"
  by (simp add: wsum_def)

lemma wsum_right_add: "wsum f (\<lambda>k. g k + h k) = wsum f g + wsum f h"
  by (simp add: wsum_def distrib_left sum.distrib)

lemma wsum_cong: "(\<And>k. f k \<noteq> 0 \<Longrightarrow> g k = h k) \<Longrightarrow> wsum f g = wsum f h"
  by (auto simp: wsum_def intro!: sum.cong)

lemma finite_cnt [simp]: "finite {k. cnt z k \<noteq> 0}"
proof (rule finite_subset)
  show "{k. cnt z k \<noteq> 0} \<subseteq> keys (counts z)"
    unfolding cnt_def using lookup0_notin by fastforce
qed simp

lemma sum_counts_wsum: "zwf z \<Longrightarrow> (\<Sum>(k, m) \<leftarrow> counts z. m * g k) = wsum (cnt z) g"
  by (simp add: wsum_def sum_counts keys_counts_eq)

section \<open>Dictionaries\<close>

text \<open>
  The key of a document is its JSON text, and different Go values can print alike (the integer
  1 and the float 1.0).  Addition keeps whichever of two such documents was there first.  So a
  statement that evaluates documents of a sum needs to know that the documents involved do not
  clash: a dictionary \<open>dk\<close> gives the one document in use for each key, and a document or a
  Z-set is known to it when it agrees with it.
\<close>

definition known :: "(string \<Rightarrow> doc) \<Rightarrow> doc \<Rightarrow> bool" where
  "known dk d \<longleftrightarrow> (\<exists>k. computeJSONKey d = Inr k \<and> dk k = d)"

definition zknown :: "(string \<Rightarrow> doc) \<Rightarrow> zset \<Rightarrow> bool" where
  "zknown dk z \<longleftrightarrow> zwf z \<and> (\<forall>d \<in> zdocs z. known dk d)"

lemma zknown_wf [simp]: "zknown dk z \<Longrightarrow> zwf z"
  by (simp add: zknown_def)

lemma zknown_New [simp]: "zknown dk NewDocumentZSet"
  by (simp add: zknown_def)

lemma zknown_zdoc: "zknown dk z \<Longrightarrow> k \<in> keys (counts z) \<Longrightarrow> zdoc z k = dk k"
  using zdoc_key [of z k] zdoc_in_zdocs [of z k] by (fastforce simp: zknown_def known_def)

lemma zknown_DeepCopy [simp]: "zknown dk z \<Longrightarrow> zknown dk (DeepCopy z)"
  by (simp add: zknown_def)

lemma known_ok: "known dk d \<Longrightarrow> is_ok (computeJSONKey d)"
  by (auto simp: known_def)

lemma zknown_zdoc_known: "zknown dk z \<Longrightarrow> k \<in> keys (counts z) \<Longrightarrow> known dk (dk k)"
  by (metis zdoc_in_zdocs zknown_def zknown_zdoc)

lemma zknown_adds:
  assumes "adds zwf cnt zdocs a g H r" and "zknown dk a" and "\<And>d. d \<in> H \<Longrightarrow> known dk d"
  obtains c where "r = Inr c" "zknown dk c" "\<And>k. cnt c k = cnt a k + g k"
  using assms by (fastforce simp: adds_def zknown_def)

lemma zknown_Add:
  assumes "zknown dk a" and "zknown dk b"
  obtains c where "Add a (Some b) = Inr c" "zknown dk c" "\<And>k. cnt c k = cnt a k + cnt b k"
  using zknown_adds [OF Add_adds [of a b] assms(1), of thesis] assms by (auto simp: zknown_def)

lemma zknown_Subtract:
  assumes "zknown dk a" and "zknown dk b"
  obtains c where "Subtract a (Some b) = Inr c" "zknown dk c" "\<And>k. cnt c k = cnt a k - cnt b k"
  using zknown_adds [OF Subtract_adds [of a b] assms(1), of thesis] assms by (auto simp: zknown_def)

text \<open>
  A sum over the entries of a known Z-set depends on the multiplicities only, not on the
  representation and its iteration order.
\<close>

lemma zknown_sum:
  assumes "zknown dk z"
  shows "(\<Sum>(k, m) \<leftarrow> counts z. m * g (zdoc z k)) = wsum (cnt z) (\<lambda>k. g (dk k))"
proof -
  have "(\<Sum>(k, m) \<leftarrow> counts z. m * g (zdoc z k)) = wsum (cnt z) (\<lambda>k. g (zdoc z k))"
    using assms by (intro sum_counts_wsum) simp
  also have "\<dots> = wsum (cnt z) (\<lambda>k. g (dk k))"
  proof (rule wsum_cong)
    fix k assume "cnt z k \<noteq> 0"
    with assms have "k \<in> keys (counts z)" by (simp add: keys_counts_eq)
    with assms show "g (zdoc z k) = g (dk k)" by (simp add: zknown_zdoc)
  qed
  finally show ?thesis .
qed

section \<open>Streams of deltas\<close>

text \<open>The snapshot a list of deltas adds up to.\<close>

definition integrate :: "zset list \<Rightarrow> zset res" where
  "integrate zs = foldM (\<lambda>s d. Add s (Some d)) NewDocumentZSet zs"

definition total :: "zset list \<Rightarrow> string \<Rightarrow> gint" where
  "total zs k = (\<Sum>z \<leftarrow> zs. cnt z k)"

lemma total_simps [simp]: "total [] k = 0" "total (z # zs) k = cnt z k + total zs k"
  "total (zs @ ys) k = total zs k + total ys k"
  by (simp_all add: total_def)

lemma finite_total [simp]: "finite {k. total zs k \<noteq> 0}"
proof (induction zs)
  case (Cons z zs)
  have "{k. total (z # zs) k \<noteq> 0} \<subseteq> {k. cnt z k \<noteq> 0} \<union> {k. total zs k \<noteq> 0}" by auto
  then show ?case by (rule finite_subset) (use Cons in simp)
qed simp

lemma foldM_Add_known:
  assumes "zknown dk a" and "\<And>z. z \<in> set zs \<Longrightarrow> zknown dk z"
  shows "\<exists>s. foldM (\<lambda>s d. Add s (Some d)) a zs = Inr s \<and> zknown dk s
    \<and> (\<forall>k. cnt s k = cnt a k + total zs k)"
  using assms
proof (induction zs arbitrary: a)
  case (Cons z zs)
  from Cons.prems obtain c where c: "Add a (Some z) = Inr c" "zknown dk c"
      "\<And>k. cnt c k = cnt a k + cnt z k"
    by (rule zknown_Add) auto
  from Cons.IH [OF c(2)] Cons.prems(2) c(1,3) show ?case by (auto simp: add.assoc)
qed simp

lemma integrate_known:
  assumes "\<And>z. z \<in> set zs \<Longrightarrow> zknown dk z"
  obtains s where "integrate zs = Inr s" "zknown dk s" "\<And>k. cnt s k = total zs k"
  using foldM_Add_known [of dk NewDocumentZSet zs] assms by (auto simp: integrate_def)

section \<open>Per-document operators\<close>

text \<open>The images of a document, and that they can be computed and stored.\<close>

definition imgs :: "evaluator \<Rightarrow> doc \<Rightarrow> doc list" where
  "imgs img d = (case img d of Inl _ \<Rightarrow> [] | Inr ds \<Rightarrow> ds)"

definition evaluates :: "evaluator \<Rightarrow> doc \<Rightarrow> bool" where
  "evaluates img d \<longleftrightarrow> (\<exists>ds. img d = Inr ds \<and> (\<forall>x \<in> set ds. is_ok (computeJSONKey x)))"

lemma evaluates_imgs: "evaluates img d \<Longrightarrow> img d = Inr (imgs img d)"
  "evaluates img d \<Longrightarrow> x \<in> set (imgs img d) \<Longrightarrow> is_ok (computeJSONKey x)"
  by (auto simp: evaluates_def imgs_def)

locale linear_op =
  fixes run :: "zset \<Rightarrow> zset res"
    and img :: evaluator
  assumes run_adds: "zwf z \<Longrightarrow> (\<And>d. d \<in> zdocs z \<Longrightarrow> evaluates img d) \<Longrightarrow>
      adds zwf cnt zdocs NewDocumentZSet
        (\<lambda>k. \<Sum>(k0, m) \<leftarrow> counts z. m * occ (imgs img (zdoc z k0)) k)
        (\<Union>d \<in> zdocs z. set (imgs img d)) (run z)"
    and run_fails: "zwf z \<Longrightarrow> run z = Inr z' \<Longrightarrow> d \<in> zdocs z \<Longrightarrow> evaluates img d"
begin

lemma run_ok_iff: "zwf z \<Longrightarrow> is_ok (run z) \<longleftrightarrow> (\<forall>d \<in> zdocs z. evaluates img d)"
  using run_adds [of z] run_fails [of z] by (auto simp: adds_def is_ok_iff)

text \<open>The response of the operator in terms of multiplicities.\<close>

lemma run_known:
  assumes "zknown dk z" and "\<And>d. d \<in> zdocs z \<Longrightarrow> evaluates img d"
  obtains r where "run z = Inr r" "zwf r"
    "\<And>k. cnt r k = wsum (cnt z) (\<lambda>k0. occ (imgs img (dk k0)) k)"
    "zdocs r \<subseteq> (\<Union>d \<in> zdocs z. set (imgs img d))"
  using run_adds [of z] assms(1) assms(2)
  by (auto simp: adds_def zknown_sum [where g = "\<lambda>d. occ (imgs img d) k" for k])

lemma additive:
  assumes "zknown dk a" and "zknown dk b"
    and "\<And>d. d \<in> zdocs a \<union> zdocs b \<Longrightarrow> evaluates img d"
    and "zknown dk c" and "zdocs c \<subseteq> zdocs a \<union> zdocs b" and "\<And>k. cnt c k = cnt a k + cnt b k"
  shows "\<exists>ra rb rc. run a = Inr ra \<and> run b = Inr rb \<and> run c = Inr rc
    \<and> (\<forall>k. cnt rc k = cnt ra k + cnt rb k)"
proof -
  from assms(1,3) obtain ra where ra: "run a = Inr ra"
      "\<And>k. cnt ra k = wsum (cnt a) (\<lambda>k0. occ (imgs img (dk k0)) k)"
    by (rule run_known) auto
  from assms(2,3) obtain rb where rb: "run b = Inr rb"
      "\<And>k. cnt rb k = wsum (cnt b) (\<lambda>k0. occ (imgs img (dk k0)) k)"
    by (rule run_known) auto
  from assms(3,5) have "\<And>d. d \<in> zdocs c \<Longrightarrow> evaluates img d" by blast
  with assms(4) obtain rc where rc: "run c = Inr rc"
      "\<And>k. cnt rc k = wsum (cnt c) (\<lambda>k0. occ (imgs img (dk k0)) k)"
    by (rule run_known) auto
  have "cnt c = (\<lambda>k. cnt a k + cnt b k)" using assms(6) by blast
  then have "cnt rc k = cnt ra k + cnt rb k" for k
    using rc(2) ra(2) rb(2) by (simp add: wsum_add)
  with ra rb rc show ?thesis by blast
qed

end

text \<open>
  How the source's operators are shown to be linear: they loop over the entries, and the loop
  body adds the images of the entry's document and fails when they cannot be computed.
\<close>

lemma linear_opI:
  assumes loop: "\<And>z. run z = foldM (body z) NewDocumentZSet (counts z)"
    and body: "\<And>z r k m. zwf r \<Longrightarrow> evaluates img (zdoc z k) \<Longrightarrow>
      adds zwf cnt zdocs r (\<lambda>k'. m * occ (imgs img (zdoc z k)) k') (set (imgs img (zdoc z k)))
        (body z r (k, m))"
    and fails: "\<And>z r k m r'. m \<noteq> 0 \<Longrightarrow> body z r (k, m) = Inr r' \<Longrightarrow> evaluates img (zdoc z k)"
  shows "linear_op run img"
proof
  fix z assume wf: "zwf z" and ev: "\<And>d. d \<in> zdocs z \<Longrightarrow> evaluates img d"
  have "adds zwf cnt zdocs r (\<lambda>k'. snd e * occ (imgs img (zdoc z (fst e))) k')
      (set (imgs img (zdoc z (fst e)))) (body z r e)" if "e \<in> set (counts z)" "zwf r" for e r
    using body [of r z "fst e" "snd e"] that ev zdoc_in_zdocs [OF wf, of "fst e"] by simp
  from adds_foldM [of zwf NewDocumentZSet "counts z", OF zwf_New this]
  have "adds zwf cnt zdocs NewDocumentZSet
      (\<lambda>k. \<Sum>e \<leftarrow> counts z. snd e * occ (imgs img (zdoc z (fst e))) k)
      (\<Union>e \<in> set (counts z). set (imgs img (zdoc z (fst e)))) (run z)"
    by (simp add: loop)
  then show "adds zwf cnt zdocs NewDocumentZSet
      (\<lambda>k. \<Sum>(k0, m) \<leftarrow> counts z. m * occ (imgs img (zdoc z k0)) k)
      (\<Union>d \<in> zdocs z. set (imgs img d)) (run z)"
    by (rule adds_mono) (auto simp: case_prod_unfold zdocs_eq [OF wf])
next
  fix z z' d assume wf: "zwf z" and run: "run z = Inr z'" and d: "d \<in> zdocs z"
  from d wf obtain k m where km: "(k, m) \<in> set (counts z)" "d = zdoc z k"
    by (auto simp: zdocs_eq)
  from foldM_each [OF run [unfolded loop] km(1)] obtain r r' where "body z r (k, m) = Inr r'"
    by blast
  moreover from km wf have "m \<noteq> 0" by (auto simp: zwf_def)
  ultimately show "evaluates img d" using fails km(2) by blast
qed

text \<open>The common body: evaluate, then add every image with the entry's multiplicity.\<close>

lemma add_list_stored:
  assumes "foldM (\<lambda>r d. AddDocumentMutate r d m) r ds = Inr r'" and "m \<noteq> 0" and "d \<in> set ds"
  shows "is_ok (computeJSONKey d)"
proof -
  from foldM_each [OF assms(1,3)] obtain s s' where "AddDocumentMutate s d m = Inr s'" by blast
  with assms(2) show ?thesis by (cases "computeJSONKey d") (auto simp: AddDocumentMutate_def)
qed

lemma eval_add_adds:
  assumes "zwf r" and "evaluates img d"
  shows "adds zwf cnt zdocs r (\<lambda>k. m * occ (imgs img d) k) (set (imgs img d))
    (bind (img d) (\<lambda>ds. foldM (\<lambda>r x. AddDocumentMutate r x m) r ds))"
  using evaluates_imgs [OF assms(2)] assms(1) by (simp add: zs.add_list)

lemma eval_add_fails:
  "m \<noteq> 0 \<Longrightarrow> bind (img d) (\<lambda>ds. foldM (\<lambda>r x. AddDocumentMutate r x m) r ds) = Inr r' \<Longrightarrow> evaluates img d"
  by (auto simp: bind_Inr_iff evaluates_def dest: add_list_stored)

section \<open>Composition\<close>

text \<open>The images of a document under one evaluator after another.\<close>

definition chain_img :: "evaluator \<Rightarrow> evaluator \<Rightarrow> evaluator" where
  "chain_img f g d = bind (f d) (\<lambda>ds. bind (mapM g ds) (\<lambda>dss. Inr (concat dss)))"

text \<open>An evaluator that succeeds on known documents and yields known documents.\<close>

definition maps_known :: "(string \<Rightarrow> doc) \<Rightarrow> evaluator \<Rightarrow> bool" where
  "maps_known dk f \<longleftrightarrow> (\<forall>d. known dk d \<longrightarrow> (\<exists>ds. f d = Inr ds \<and> (\<forall>x \<in> set ds. known dk x)))"

lemma maps_known_evaluates: "maps_known dk f \<Longrightarrow> known dk d \<Longrightarrow> evaluates f d"
  by (force simp: maps_known_def evaluates_def intro: known_ok)

lemma maps_known_imgs: "maps_known dk f \<Longrightarrow> known dk d \<Longrightarrow> x \<in> set (imgs f d) \<Longrightarrow> known dk x"
  by (force simp: maps_known_def imgs_def)

lemma mapM_imgs: "(\<And>x. x \<in> set xs \<Longrightarrow> evaluates g x) \<Longrightarrow> mapM g xs = Inr (map (imgs g) xs)"
  by (rule mapM_pointwise) (simp add: evaluates_imgs)

lemma imgs_chain:
  assumes "maps_known dk f" and "maps_known dk g" and "known dk d"
  shows "imgs (chain_img f g) d = concat (map (imgs g) (imgs f d))"
proof -
  have "f d = Inr (imgs f d)" using assms by (simp add: evaluates_imgs maps_known_evaluates)
  moreover have "mapM g (imgs f d) = Inr (map (imgs g) (imgs f d))"
    using assms by (intro mapM_imgs) (auto intro: maps_known_evaluates maps_known_imgs)
  ultimately show ?thesis by (simp add: imgs_def [of "chain_img f g"] chain_img_def)
qed

lemma maps_known_chain:
  assumes "maps_known dk f" and "maps_known dk g"
  shows "maps_known dk (chain_img f g)"
  unfolding maps_known_def
proof (intro allI impI)
  fix d assume d: "known dk d"
  have f: "f d = Inr (imgs f d)" using assms d by (simp add: evaluates_imgs maps_known_evaluates)
  have "mapM g (imgs f d) = Inr (map (imgs g) (imgs f d))"
    using assms d by (intro mapM_imgs) (auto intro: maps_known_evaluates maps_known_imgs)
  with f have "chain_img f g d = Inr (concat (map (imgs g) (imgs f d)))"
    by (simp add: chain_img_def)
  moreover have "\<forall>x \<in> set (concat (map (imgs g) (imgs f d))). known dk x"
    using assms d by (auto dest: maps_known_imgs)
  ultimately show "\<exists>ds. chain_img f g d = Inr ds \<and> (\<forall>x \<in> set ds. known dk x)" by blast
qed

lemma finite_occ [simp]: "finite {k. occ ds k \<noteq> 0}"
proof (rule finite_subset)
  show "{k. occ ds k \<noteq> 0} \<subseteq> (\<lambda>d. projr (computeJSONKey d)) ` set ds"
    by (induction ds) (auto simp: hit_def image_iff split: if_splits)
qed simp

lemma wsum_hit: "computeJSONKey d = Inr k \<Longrightarrow> wsum (hit d) h = h k"
  by (subst wsum_superset [of "{k}"]) (auto simp: hit_def)

lemma wsum_occ:
  assumes "\<And>d. d \<in> set ds \<Longrightarrow> known dk d"
  shows "wsum (occ ds) (\<lambda>k. h (dk k)) = (\<Sum>d \<leftarrow> ds. h d)"
  using assms
proof (induction ds)
  case Nil
  have "occ [] = (\<lambda>k. 0)" by (simp add: fun_eq_iff)
  then show ?case by simp
next
  case (Cons d ds)
  then obtain k where k: "computeJSONKey d = Inr k" "dk k = d" by (auto simp: known_def)
  have "{k. hit d k \<noteq> 0} \<subseteq> {k}" using k by (auto simp: hit_def)
  then have fin: "finite {k. hit d k \<noteq> 0}" by (rule finite_subset) simp
  have "occ (d # ds) = (\<lambda>k. hit d k + occ ds k)" by (simp add: fun_eq_iff)
  then have "wsum (occ (d # ds)) (\<lambda>k. h (dk k)) = wsum (hit d) (\<lambda>k. h (dk k)) + wsum (occ ds) (\<lambda>k. h (dk k))"
    using fin by (simp add: wsum_add)
  with Cons k show ?case by (simp add: wsum_hit del: occ_simps)
qed

lemma wsum_swap:
  assumes "finite {k0. f k0 \<noteq> 0}" and "\<And>k0. finite {k. A k0 k \<noteq> 0}"
  shows "wsum (\<lambda>k. wsum f (\<lambda>k0. A k0 k)) h = wsum f (\<lambda>k0. wsum (A k0) h)"
proof -
  let ?F = "{k0. f k0 \<noteq> 0}"
  let ?K = "\<Union>k0 \<in> ?F. {k. A k0 k \<noteq> 0}"
  have K: "finite ?K" using assms by simp
  have "wsum (\<lambda>k. wsum f (\<lambda>k0. A k0 k)) h = (\<Sum>k \<in> ?K. wsum f (\<lambda>k0. A k0 k) * h k)"
  proof (rule wsum_superset [OF K], rule subsetI, rule ccontr)
    fix k assume k: "k \<in> {k. wsum f (\<lambda>k0. A k0 k) \<noteq> 0}" and "k \<notin> ?K"
    then have "wsum f (\<lambda>k0. A k0 k) = 0"
      unfolding wsum_def by (intro sum.neutral) auto
    with k show False by simp
  qed
  also have "\<dots> = (\<Sum>k0 \<in> ?F. \<Sum>k \<in> ?K. f k0 * A k0 k * h k)"
    by (simp add: wsum_def sum_distrib_right sum.swap [of _ ?F])
  also have "\<dots> = (\<Sum>k0 \<in> ?F. f k0 * (\<Sum>k \<in> ?K. A k0 k * h k))"
    by (simp add: sum_distrib_left mult.assoc)
  also have "\<dots> = (\<Sum>k0 \<in> ?F. f k0 * wsum (A k0) h)"
  proof (rule sum.cong [OF refl])
    fix k0 assume "k0 \<in> ?F"
    then have "{k. A k0 k \<noteq> 0} \<subseteq> ?K" by blast
    then show "f k0 * (\<Sum>k \<in> ?K. A k0 k * h k) = f k0 * wsum (A k0) h"
      by (simp only: wsum_superset [OF K])
  qed
  finally show ?thesis by (simp add: wsum_def)
qed

lemma occ_concat_map: "occ (concat (map g ds)) k = (\<Sum>d \<leftarrow> ds. occ (g d) k)"
  by (induction ds) auto

text \<open>
  \<open>responds dk run f\<close>: on Z-sets of known documents \<open>run\<close> succeeds, yields known documents,
  and its multiplicities are those of \<open>f\<close> applied to every document.  This is the semantics of
  a stage of a pipeline; it composes.
\<close>

definition responds :: "(string \<Rightarrow> doc) \<Rightarrow> (zset \<Rightarrow> zset res) \<Rightarrow> evaluator \<Rightarrow> bool" where
  "responds dk run f \<longleftrightarrow> maps_known dk f \<and> (\<forall>z. zknown dk z \<longrightarrow>
     (\<exists>r. run z = Inr r \<and> zknown dk r \<and> (\<forall>k. cnt r k = wsum (cnt z) (\<lambda>k0. occ (imgs f (dk k0)) k))))"

lemma respondsD:
  assumes "responds dk run f" and "zknown dk z"
  obtains r where "run z = Inr r" "zknown dk r"
    "\<And>k. cnt r k = wsum (cnt z) (\<lambda>k0. occ (imgs f (dk k0)) k)"
  using assms by (auto simp: responds_def)

lemma linear_responds:
  assumes "linear_op run f" and f: "maps_known dk f"
  shows "responds dk run f"
  unfolding responds_def
proof (intro conjI f allI impI)
  fix z assume z: "zknown dk z"
  have ev: "\<And>d. d \<in> zdocs z \<Longrightarrow> known dk d \<and> evaluates f d"
    using z f by (auto simp: zknown_def intro: maps_known_evaluates)
  obtain r where r: "run z = Inr r" "zwf r" "\<And>k. cnt r k = wsum (cnt z) (\<lambda>k0. occ (imgs f (dk k0)) k)"
      "zdocs r \<subseteq> (\<Union>d \<in> zdocs z. set (imgs f d))"
    using linear_op.run_known [OF assms(1) z] ev by metis
  from r(2,4) ev maps_known_imgs [OF f] have "zknown dk r" unfolding zknown_def by blast
  with r show "\<exists>r. run z = Inr r \<and> zknown dk r \<and>
      (\<forall>k. cnt r k = wsum (cnt z) (\<lambda>k0. occ (imgs f (dk k0)) k))" by blast
qed

text \<open>Two stages in a row respond like the composed evaluator.\<close>

lemma responds_compose:
  assumes "responds dk run1 f" and "responds dk run2 g"
  shows "responds dk (\<lambda>z. bind (run1 z) run2) (chain_img f g)"
  unfolding responds_def
proof (intro conjI allI impI)
  from assms have f: "maps_known dk f" and g: "maps_known dk g" by (simp_all add: responds_def)
  then show "maps_known dk (chain_img f g)" by (rule maps_known_chain)
  fix z assume z: "zknown dk z"
  obtain r where r: "run1 z = Inr r" "zknown dk r"
      "\<And>k. cnt r k = wsum (cnt z) (\<lambda>k0. occ (imgs f (dk k0)) k)"
    using respondsD [OF assms(1) z] by metis
  obtain s where s: "run2 r = Inr s" "zknown dk s"
      "\<And>k. cnt s k = wsum (cnt r) (\<lambda>k0. occ (imgs g (dk k0)) k)"
    using respondsD [OF assms(2) r(2)] by metis
  have "cnt s k = wsum (cnt z) (\<lambda>k0. occ (imgs (chain_img f g) (dk k0)) k)" for k
  proof -
    have "cnt r = (\<lambda>k. wsum (cnt z) (\<lambda>k0. occ (imgs f (dk k0)) k))" using r(3) by blast
    then have "cnt s k = wsum (cnt z) (\<lambda>k0. wsum (occ (imgs f (dk k0))) (\<lambda>k1. occ (imgs g (dk k1)) k))"
      using s(3) wsum_swap [of "cnt z" "\<lambda>k0. occ (imgs f (dk k0))"] by simp
    also have "\<dots> = wsum (cnt z) (\<lambda>k0. occ (imgs (chain_img f g) (dk k0)) k)"
    proof (rule wsum_cong)
      fix k0 assume "cnt z k0 \<noteq> 0"
      with z have d: "known dk (dk k0)" by (auto simp: keys_counts_eq intro: zknown_zdoc_known)
      with f show "wsum (occ (imgs f (dk k0))) (\<lambda>k1. occ (imgs g (dk k1)) k)
          = occ (imgs (chain_img f g) (dk k0)) k"
        by (subst wsum_occ [where h = "\<lambda>d. occ (imgs g d) k"])
          (auto simp: imgs_chain [OF f g d] occ_concat_map dest: maps_known_imgs)
    qed
    finally show ?thesis .
  qed
  with r(1) s show "\<exists>r. bind (run1 z) run2 = Inr r \<and> zknown dk r \<and>
      (\<forall>k. cnt r k = wsum (cnt z) (\<lambda>k0. occ (imgs (chain_img f g) (dk k0)) k))" by auto
qed

lemma responds_cong:
  assumes "responds dk run f" and "\<And>d. known dk d \<Longrightarrow> g d = f d"
  shows "responds dk run g"
proof -
  have "wsum (cnt z) (\<lambda>k0. occ (imgs g (dk k0)) k) = wsum (cnt z) (\<lambda>k0. occ (imgs f (dk k0)) k)"
    if "zknown dk z" for z k
  proof (rule wsum_cong)
    fix k0 assume "cnt z k0 \<noteq> 0"
    with that have "known dk (dk k0)" by (auto simp: keys_counts_eq intro: zknown_zdoc_known)
    with assms(2) show "occ (imgs g (dk k0)) k = occ (imgs f (dk k0)) k" by (simp add: imgs_def)
  qed
  with assms show ?thesis by (auto simp: responds_def maps_known_def)
qed

lemma responds_id: "responds dk Inr (\<lambda>d. Inr [d])"
proof -
  have "wsum (cnt z) (\<lambda>k0. hit (dk k0) k) = cnt z k" if "zknown dk z" for z k
    using zknown_sum [OF that, of "\<lambda>d. hit d k"] pick_counts [of z "\<lambda>m. m" k] that by auto
  then show ?thesis by (auto simp: responds_def maps_known_def imgs_def)
qed

text \<open>Stages with the same response cannot be told apart by multiplicities.\<close>

lemma responds_same:
  assumes "responds dk run1 f" and "responds dk run2 f" and "zknown dk z"
  shows "\<exists>r1 r2. run1 z = Inr r1 \<and> run2 z = Inr r2 \<and> zwf r1 \<and> zwf r2 \<and> (\<forall>k. cnt r1 k = cnt r2 k)"
proof -
  obtain r1 where "run1 z = Inr r1" "zknown dk r1"
      "\<And>k. cnt r1 k = wsum (cnt z) (\<lambda>k0. occ (imgs f (dk k0)) k)"
    using respondsD [OF assms(1,3)] by metis
  moreover obtain r2 where "run2 z = Inr r2" "zknown dk r2"
      "\<And>k. cnt r2 k = wsum (cnt z) (\<lambda>k0. occ (imgs f (dk k0)) k)"
    using respondsD [OF assms(2,3)] by metis
  ultimately show ?thesis by (auto intro: zknown_wf)
qed

text \<open>
  A stage is its own incremental version: its outputs on the deltas of a stream add up to its
  output on what the deltas add up to.
\<close>

lemma responds_stream:
  assumes "responds dk run f" and "\<And>z. z \<in> set zs \<Longrightarrow> zknown dk z"
    and "zknown dk s" and "\<And>k. cnt s k = total zs k"
  shows "\<exists>rs r. mapM run zs = Inr rs \<and> run s = Inr r \<and> (\<forall>r' \<in> set rs. zknown dk r') \<and> zknown dk r
    \<and> (\<forall>k. cnt r k = total rs k)"
proof -
  obtain r where r: "run s = Inr r" "zknown dk r"
      "\<And>k. cnt r k = wsum (cnt s) (\<lambda>k0. occ (imgs f (dk k0)) k)"
    using respondsD [OF assms(1,3)] by metis
  have "\<exists>rs. mapM run zs = Inr rs \<and> (\<forall>r' \<in> set rs. zknown dk r')
      \<and> (\<forall>k. total rs k = wsum (total zs) (\<lambda>k0. occ (imgs f (dk k0)) k))"
    using assms(2)
  proof (induction zs)
    case Nil
    have "total [] = (\<lambda>k. 0)" by (simp add: fun_eq_iff)
    then show ?case by simp
  next
    case (Cons z zs)
    then obtain rs where rs: "mapM run zs = Inr rs" "\<forall>r' \<in> set rs. zknown dk r'"
        "\<And>k. total rs k = wsum (total zs) (\<lambda>k0. occ (imgs f (dk k0)) k)"
      by auto
    obtain rz where rz: "run z = Inr rz" "zknown dk rz"
        "\<And>k. cnt rz k = wsum (cnt z) (\<lambda>k0. occ (imgs f (dk k0)) k)"
      using respondsD [OF assms(1)] Cons.prems by (metis list.set_intros(1))
    have "total (z # zs) = (\<lambda>k. cnt z k + total zs k)" by (simp add: fun_eq_iff)
    with rs rz show ?case by (simp add: wsum_add)
  qed
  moreover have "cnt s = total zs" using assms(4) by blast
  ultimately show ?thesis using r by auto
qed

section \<open>Stateful operators and their streams\<close>

text \<open>
  A stateful operator returns its next state with every result, also when the result is an
  error.  \<open>run_op\<close> feeds it a stream and stops at the first error.
\<close>

fun run_op :: "('s \<Rightarrow> 'i \<Rightarrow> 's \<times> 'o res) \<Rightarrow> 's \<Rightarrow> 'i list \<Rightarrow> 's \<times> 'o list res" where
  "run_op f s [] = (s, Inr [])"
| "run_op f s (x # xs) =
     (case f s x of
        (s', Inl e) \<Rightarrow> (s', Inl e)
      | (s', Inr y) \<Rightarrow>
          (case run_op f s' xs of (s'', r) \<Rightarrow> (s'', bind r (\<lambda>ys. Inr (y # ys)))))"

text \<open>
  The contract of an incremental operator.  \<open>st s a\<close> says that state \<open>s\<close> represents the
  accumulated input \<open>a\<close>; the output of a step is the change of the snapshot \<open>snap\<close> of the
  accumulated input.
\<close>

locale incremental =
  fixes step :: "'s \<Rightarrow> 'i \<Rightarrow> 's \<times> zset res"
    and okay :: "'i \<Rightarrow> bool"
    and st :: "'s \<Rightarrow> 'a \<Rightarrow> bool"
    and accum :: "'a \<Rightarrow> 'i \<Rightarrow> 'a"
    and snap :: "'a \<Rightarrow> string \<Rightarrow> gint"
  assumes step_delta: "st s a \<Longrightarrow> okay x \<Longrightarrow>
    \<exists>s' r. step s x = (s', Inr r) \<and> zwf r \<and> st s' (accum a x) \<and>
      (\<forall>k. cnt r k = snap (accum a x) k - snap a k)"
begin

text \<open>The outputs telescope: they add up to the change of the snapshot over the whole stream.\<close>

lemma telescopes:
  assumes "st s a" and "\<And>x. x \<in> set xs \<Longrightarrow> okay x"
  shows "\<exists>s' rs. run_op step s xs = (s', Inr rs) \<and> length rs = length xs \<and> (\<forall>r \<in> set rs. zwf r)
    \<and> st s' (foldl accum a xs) \<and> (\<forall>k. total rs k = snap (foldl accum a xs) k - snap a k)"
  using assms
proof (induction xs arbitrary: s a)
  case (Cons x xs)
  from step_delta [OF Cons.prems(1), of x] Cons.prems(2) obtain s1 r where r: "step s x = (s1, Inr r)"
      "zwf r" "st s1 (accum a x)" "\<And>k. cnt r k = snap (accum a x) k - snap a k"
    by auto
  from Cons.IH [OF r(3)] Cons.prems(2) obtain s' rs where "run_op step s1 xs = (s', Inr rs)"
      "length rs = length xs" "\<forall>r \<in> set rs. zwf r" "st s' (foldl accum (accum a x) xs)"
      "\<And>k. total rs k = snap (foldl accum (accum a x) xs) k - snap (accum a x) k"
    by auto
  with r show ?case by auto
qed simp

end

end
