(* ===== verification/Samples.thy ===== *)
theory Samples
  imports Op_Base
begin

text \<open>
  Concrete documents, Z-sets and evaluators on which the theorems of the development are
  instantiated.  The two documents are known to the dictionary \<open>dk_ab\<close>.
\<close>

definition doc_a :: doc where
  "doc_a = [(''name'', VStr ''a'')]"

definition doc_b :: doc where
  "doc_b = [(''name'', VStr ''b''), (''xs'', VList [VInt 1, VInt 2])]"

definition key_a :: string where
  "key_a = (case computeJSONKey doc_a of Inr k \<Rightarrow> k | Inl _ \<Rightarrow> [])"

definition key_b :: string where
  "key_b = (case computeJSONKey doc_b of Inr k \<Rightarrow> k | Inl _ \<Rightarrow> [])"

definition dk_ab :: "string \<Rightarrow> doc" where
  "dk_ab k = (if k = key_b then doc_b else doc_a)"

text \<open>The Z-set with multiplicity \<open>m\<close> for the first and \<open>n\<close> for the second document.\<close>

definition zset_ab :: "gint \<Rightarrow> gint \<Rightarrow> zset" where
  "zset_ab m n =
     (case bind (AddDocumentMutate NewDocumentZSet doc_a m) (\<lambda>z. AddDocumentMutate z doc_b n) of
        Inr z \<Rightarrow> z | Inl _ \<Rightarrow> NewDocumentZSet)"

lemma key_a: "computeJSONKey doc_a = Inr key_a"
  by code_simp

lemma key_b: "computeJSONKey doc_b = Inr key_b"
  by code_simp

lemma key_ab: "key_a \<noteq> key_b"
  by code_simp

lemma known_a: "known dk_ab doc_a"
  using key_a key_ab by (simp add: known_def dk_ab_def)

lemma known_b: "known dk_ab doc_b"
  using key_b by (simp add: known_def dk_ab_def)

lemma known_ab: "known dk_ab d \<longleftrightarrow> d = doc_a \<or> d = doc_b"
  using known_a known_b by (auto simp: known_def dk_ab_def split: if_splits)

lemma zset_ab_adds:
  "adds zwf cnt zdocs NewDocumentZSet (\<lambda>k. m * hit doc_a k + n * hit doc_b k) {doc_a, doc_b}
    (bind (AddDocumentMutate NewDocumentZSet doc_a m) (\<lambda>z. AddDocumentMutate z doc_b n))"
  by (rule adds_mono [OF adds_bind [OF AddDocumentMutate_adds [OF zwf_New key_a] AddDocumentMutate_adds [OF _ key_b]]])
    auto

lemma zset_ab_known [simp]: "zknown dk_ab (zset_ab m n)"
proof -
  obtain z where "bind (AddDocumentMutate NewDocumentZSet doc_a m) (\<lambda>z. AddDocumentMutate z doc_b n) = Inr z"
      "zknown dk_ab z"
    using zknown_adds [OF zset_ab_adds [of m n] zknown_New, of dk_ab] known_a known_b by blast
  then show ?thesis by (simp add: zset_ab_def)
qed

lemma zset_ab_cnt: "cnt (zset_ab m n) k = m * hit doc_a k + n * hit doc_b k"
  using zset_ab_adds [of m n] by (auto simp: adds_def zset_ab_def)

lemma zset_ab_wf [simp]: "zwf (zset_ab m n)"
  by (rule zknown_wf [OF zset_ab_known])

lemma zset_ab_docs: "zdocs (zset_ab m n) \<subseteq> {doc_a, doc_b}"
  using zset_ab_adds [of m n] by (auto simp: adds_def zset_ab_def)

lemma zset_ab_total: "cnt (zset_ab (m + m') (n + n')) k = cnt (zset_ab m n) k + cnt (zset_ab m' n') k"
  by (simp add: zset_ab_cnt algebra_simps)

text \<open>Evaluators: every document unchanged; only the first document passes; the left part of a pair.\<close>

definition ev_same :: evaluator where
  "ev_same d = Inr [d]"

definition ev_only_a :: evaluator where
  "ev_only_a d = Inr (if d = doc_a then [d] else [])"

definition ev_left :: evaluator where
  "ev_left d = (case map_of d ''l'' of Some (VMap x) \<Rightarrow> Inr [x] | _ \<Rightarrow> Inr [])"

lemma ev_same_known: "maps_known dk_ab ev_same"
  by (simp add: maps_known_def ev_same_def)

lemma ev_only_a_known: "maps_known dk_ab ev_only_a"
  by (simp add: maps_known_def ev_only_a_def)

lemma ev_known_evaluates: "d \<in> {doc_a, doc_b} \<Longrightarrow> evaluates ev_same d" "d \<in> {doc_a, doc_b} \<Longrightarrow> evaluates ev_only_a d"
  using maps_known_evaluates [OF ev_same_known] maps_known_evaluates [OF ev_only_a_known] by (auto simp: known_ab)

end
