(* ===== verification/ZSet_Properties.thy ===== *)
theory ZSet_Properties
  imports Samples
begin

text \<open>What the Z-set layer guarantees: the properties of \<^verbatim>\<open>document.go\<close> and \<^verbatim>\<open>zset.go\<close>.\<close>

text \<open>
  C28. A document has a key exactly when its JSON text exists, that is, when it contains
  no NaN and no infinity.
\<close>

theorem document_keys:
  "(\<exists>k. computeJSONKey d = Inr k) \<longleftrightarrow> jsonable (VMap d)"
  using computeJSONKey_ok [of d] by (simp only: is_ok_iff)

text \<open>
  C25. \<^verbatim>\<open>AddDocumentMutate\<close> keeps the invariant of the two maps (same keys, no zero
  count, every document stored under its own key) and adds the count, modulo \<open>2\<^sup>6\<^sup>4\<close>, to the
  multiplicity of the document's key and to no other; it fails exactly when the document has no
  key and the count is not zero.
\<close>

theorem add_document_mutate:
  assumes "zwf z"
  shows "(case AddDocumentMutate z d n of
      Inr z' \<Rightarrow> zwf z' \<and> (n = 0 \<or> jsonable (VMap d)) \<and>
        (\<forall>k. cnt z' k = cnt z k + (if computeJSONKey d = Inr k then n else 0))
    | Inl _ \<Rightarrow> n \<noteq> 0 \<and> \<not> jsonable (VMap d))"
proof (cases "computeJSONKey d")
  case (Inl e)
  with assms computeJSONKey_ok [of d] show ?thesis
    by (simp add: AddDocumentMutate_def del: jsonable.simps)
next
  case (Inr k)
  with AddDocumentMutate_adds [OF assms, of d k n] computeJSONKey_ok [of d] show ?thesis
    by (auto simp: adds_def hit_def simp del: jsonable.simps)
qed

theorem add_document_mutate_witness:
  "zwf (zset_ab 2 1) \<and> (case AddDocumentMutate (zset_ab 2 1) doc_a (- 2) of
      Inr z' \<Rightarrow> zwf z' \<and> ((- 2 :: gint) = 0 \<or> jsonable (VMap doc_a)) \<and>
        (\<forall>k. cnt z' k = cnt (zset_ab 2 1) k + (if computeJSONKey doc_a = Inr k then - 2 else 0))
    | Inl _ \<Rightarrow> (- 2 :: gint) \<noteq> 0 \<and> \<not> jsonable (VMap doc_a))"
  using add_document_mutate [OF zset_ab_wf [of 2 1], where d = doc_a and n = "- 2"] zset_ab_wf [of 2 1] by blast

text \<open>
  Addition and subtraction of Z-sets never fail and act on multiplicities
  pointwise; subtracting what was added gives the original multiplicities back.
\<close>

theorem add_subtract:
  assumes "zwf a" and "zwf b"
  shows "\<exists>s d r. Add a (Some b) = Inr s \<and> Subtract a (Some b) = Inr d \<and> Subtract s (Some b) = Inr r
    \<and> zwf s \<and> zwf d \<and> zwf r \<and> (\<forall>k. cnt s k = cnt a k + cnt b k) \<and> (\<forall>k. cnt d k = cnt a k - cnt b k)
    \<and> (\<forall>k. cnt r k = cnt a k)"
proof -
  obtain s where s: "Add a (Some b) = Inr s" "zwf s" "\<And>k. cnt s k = cnt a k + cnt b k"
    using Add_ok [OF assms] by metis
  obtain d where d: "Subtract a (Some b) = Inr d" "zwf d" "\<And>k. cnt d k = cnt a k - cnt b k"
    using Subtract_ok [OF assms] by metis
  obtain r where r: "Subtract s (Some b) = Inr r" "zwf r" "\<And>k. cnt r k = cnt s k - cnt b k"
    using Subtract_ok [OF s(2) assms(2)] by metis
  have "cnt r k = cnt a k" for k by (simp add: r(3) s(3))
  with s d r show ?thesis by blast
qed

theorem add_subtract_witness:
  "\<exists>s d r. Add (zset_ab 2 1) (Some (zset_ab 1 3)) = Inr s \<and> Subtract (zset_ab 2 1) (Some (zset_ab 1 3)) = Inr d
    \<and> Subtract s (Some (zset_ab 1 3)) = Inr r \<and> zwf s \<and> zwf d \<and> zwf r
    \<and> (\<forall>k. cnt s k = cnt (zset_ab 2 1) k + cnt (zset_ab 1 3) k)
    \<and> (\<forall>k. cnt d k = cnt (zset_ab 2 1) k - cnt (zset_ab 1 3) k) \<and> (\<forall>k. cnt r k = cnt (zset_ab 2 1) k)"
  by (rule add_subtract [OF zset_ab_wf zset_ab_wf])

text \<open>
  \<^verbatim>\<open>Distinct\<close> and \<^verbatim>\<open>Unique\<close> never fail: the first maps every positive
  multiplicity to 1 and every other to 0, the second maps every multiplicity to its sign.
\<close>

theorem distinct_unique:
  assumes "zwf z"
  shows "\<exists>d u. Distinct z = Inr d \<and> Unique z = Inr u \<and> zwf d \<and> zwf u
    \<and> (\<forall>k. cnt d k = (if 0 < sint (cnt z k) then 1 else 0))
    \<and> (\<forall>k. cnt u k = (if sint (cnt z k) = 0 then 0 else if sint (cnt z k) < 0 then - 1 else 1))"
  using Distinct_adds [OF assms] Unique_adds [OF assms] by (auto simp: adds_def)

theorem distinct_unique_witness:
  "\<exists>d u. Distinct (zset_ab 3 (- 2)) = Inr d \<and> Unique (zset_ab 3 (- 2)) = Inr u \<and> zwf d \<and> zwf u
    \<and> (\<forall>k. cnt d k = (if 0 < sint (cnt (zset_ab 3 (- 2)) k) then 1 else 0))
    \<and> (\<forall>k. cnt u k = (if sint (cnt (zset_ab 3 (- 2)) k) = 0 then 0
        else if sint (cnt (zset_ab 3 (- 2)) k) < 0 then - 1 else 1))"
  by (rule distinct_unique [OF zset_ab_wf])

text \<open>
  \<^verbatim>\<open>GetDocuments\<close> lists every document as often as its multiplicity says when
  that is positive, and not at all otherwise, whatever the iteration order; hence building a
  Z-set from the list with \<^verbatim>\<open>FromDocuments\<close> restores the positive part of the multiplicities.
\<close>

theorem documents_roundtrip:
  assumes "zwf z"
  shows "\<exists>ds z'. GetDocuments z = Inr ds \<and> FromDocuments ds = Inr z' \<and> zwf z'
    \<and> (\<forall>k. cnt z' k = (if 0 < sint (cnt z k) then cnt z k else 0))"
proof -
  define img where "img = (\<lambda>(k, m :: gint). if sint m \<le> 0 then [] else replicate (nat (sint m)) (zdoc z k))"
  let ?ds = "concat (map img (counts z))"
  have ds: "GetDocuments z = Inr ?ds"
    unfolding GetDocuments_def DeepCopyDocument_id img_def by simp
  have rep: "occ (replicate n d) k = of_nat n * hit d k" for n d k
    by (induction n) (simp_all add: algebra_simps)
  have img: "occ (img (k0, m)) k = (if 0 < sint m then m else 0) * hit (zdoc z k0) k" for k0 m k
  proof (cases "0 < sint m")
    case True
    then have "(of_nat (nat (sint m)) :: gint) = m" by simp
    with True show ?thesis by (simp add: img_def rep)
  qed (simp add: img_def)
  have key: "is_ok (computeJSONKey d)" if d: "d \<in> set ?ds" for d
  proof -
    from d obtain k m where "(k, m) \<in> set (counts z)" "d = zdoc z k"
      by (auto simp: img_def split: if_splits)
    then show ?thesis using zdoc_key [OF assms, of k] by (force simp: is_ok_iff)
  qed
  have "adds zwf cnt zdocs NewDocumentZSet (\<lambda>k. \<Sum>d \<leftarrow> ?ds. 1 * hit d k) (\<Union>d \<in> set ?ds. {d}) (FromDocuments ?ds)"
    unfolding FromDocuments_def
  proof (rule adds_foldM)
    show "zwf NewDocumentZSet" by simp
  next
    fix r d assume d: "d \<in> set ?ds" and r: "zwf r"
    from key [OF d] obtain k where "computeJSONKey d = Inr k" by (auto simp: is_ok_iff)
    from AddDocumentMutate_adds [OF r this, of 1]
    show "adds zwf cnt zdocs r (\<lambda>k. 1 * hit d k) {d} (rewrap ''failed to add document at index'' (AddDocument r d 1))"
      by simp
  qed
  then have "adds zwf cnt zdocs NewDocumentZSet (occ ?ds) (set ?ds) (FromDocuments ?ds)"
    by (rule adds_mono) (auto simp: occ_def)
  moreover have "occ ?ds k = (if 0 < sint (cnt z k) then cnt z k else 0)" for k
  proof -
    have "occ ?ds k = (\<Sum>(k0, m) \<leftarrow> counts z. (if 0 < sint m then m else 0) * hit (zdoc z k0) k)"
      by (simp add: occ_concat_map img case_prod_unfold [abs_def] flip: img)
    also have "\<dots> = (if 0 < sint (cnt z k) then cnt z k else 0)"
      using pick_counts [OF assms, of "\<lambda>m. if 0 < sint m then m else 0" k] by auto
    finally show ?thesis .
  qed
  ultimately show ?thesis using ds by (auto simp: adds_def)
qed

theorem documents_roundtrip_witness:
  "\<exists>ds z'. GetDocuments (zset_ab 2 (- 1)) = Inr ds \<and> FromDocuments ds = Inr z' \<and> zwf z'
    \<and> (\<forall>k. cnt z' k = (if 0 < sint (cnt (zset_ab 2 (- 1)) k) then cnt (zset_ab 2 (- 1)) k else 0))"
  by (rule documents_roundtrip [OF zset_ab_wf])

end
