(* ===== verification/Ops_Linear.thy ===== *)
theory Ops_Linear
  imports Op_Base
begin

text \<open>
  Package \<^verbatim>\<open>dbsp\<close>, files \<^verbatim>\<open>op_linear.go\<close> and (its per-document part) \<^verbatim>\<open>fused_op.go\<close>:
  projection, selection, unwind, and the two fused forms.  Each is shown to be a per-document
  operator by an interpretation of \<open>linear_op\<close>, which says which documents each document of
  the input is replaced with.
\<close>

section \<open>Projection and selection\<close>

definition ProjectionOp_Process :: "evaluator \<Rightarrow> zset list \<Rightarrow> zset res" where
  "ProjectionOp_Process eval inputs =
     bind (validateInputs 1 inputs) (\<lambda>_.
       let input = inputs ! 0 in
       foldM (\<lambda>result (key, multiplicity).
           bind (eval (DeepCopyDocument (zdoc input key))) (\<lambda>projectedDocs.
             foldM (\<lambda>result projectedDoc. AddDocumentMutate result projectedDoc multiplicity)
               result projectedDocs))
         NewDocumentZSet (counts input))"

definition SelectionOp_Process :: "evaluator \<Rightarrow> zset list \<Rightarrow> zset res" where
  "SelectionOp_Process eval inputs =
     bind (validateInputs 1 inputs) (\<lambda>_.
       let input = inputs ! 0 in
       foldM (\<lambda>result (key, multiplicity).
           bind (eval (zdoc input key)) (\<lambda>selectedDocs.
             foldM (\<lambda>result selectedDoc. AddDocumentMutate result selectedDoc multiplicity)
               result selectedDocs))
         NewDocumentZSet (counts input))"

interpretation proj: linear_op "\<lambda>z. ProjectionOp_Process eval [z]" eval for eval
  by (rule linear_opI [where body = "\<lambda>z r (k, m). bind (eval (zdoc z k)) (\<lambda>ds.
        foldM (\<lambda>r x. AddDocumentMutate r x m) r ds)"])
    (auto simp: ProjectionOp_Process_def eval_add_adds dest: eval_add_fails)

interpretation sel: linear_op "\<lambda>z. SelectionOp_Process eval [z]" eval for eval
  by (rule linear_opI [where body = "\<lambda>z r (k, m). bind (eval (zdoc z k)) (\<lambda>ds.
        foldM (\<lambda>r x. AddDocumentMutate r x m) r ds)"])
    (auto simp: SelectionOp_Process_def eval_add_adds dest: eval_add_fails)

section \<open>Unwind\<close>

text \<open>The loop body: one entry of the input.\<close>

fun unwind_entry :: "extractor \<Rightarrow> transformer \<Rightarrow> zset \<Rightarrow> zset \<Rightarrow> string \<times> gint \<Rightarrow> zset res" where
  "unwind_entry arrayExtractor tr input result (key, multiplicity) =
     bind (rewrap ''array extraction failed'' (arrayExtractor (zdoc input key))) (\<lambda>arrayValue.
       case arrayValue of
         VNil \<Rightarrow> Inr result
       | VList arraySlice \<Rightarrow>
           foldM (\<lambda>result element.
               bind (rewrap ''document transformation failed''
                      (tr (DeepCopyDocument (zdoc input key)) (DeepCopyAny element)))
                 (\<lambda>transformedDoc.
                   rewrap ''failed to add unwound document''
                     (AddDocumentMutate result transformedDoc multiplicity)))
             result arraySlice
       | _ \<Rightarrow> Inr result)"

definition UnwindOp_Process :: "extractor \<Rightarrow> transformer \<Rightarrow> zset list \<Rightarrow> zset res" where
  "UnwindOp_Process arrayExtractor tr inputs =
     bind (validateInputs 1 inputs) (\<lambda>_.
       let input = inputs ! 0 in
       foldM (unwind_entry arrayExtractor tr input) NewDocumentZSet (counts input))"

text \<open>The documents one document unwinds to.\<close>

definition unwind_img :: "extractor \<Rightarrow> transformer \<Rightarrow> evaluator" where
  "unwind_img ext tr d =
     bind (ext d) (\<lambda>v. case v of VList xs \<Rightarrow> mapM (tr d) xs | _ \<Rightarrow> Inr [])"

lemma transform_add_adds:
  assumes "zwf r" and "mapM f xs = Inr ds" and "\<forall>d \<in> set ds. is_ok (computeJSONKey d)"
  shows "adds zwf cnt zdocs r (\<lambda>k. m * occ ds k) (set ds)
    (foldM (\<lambda>r e. bind (rewrap s (f e)) (\<lambda>d. rewrap t (AddDocumentMutate r d m))) r xs)"
  using assms
proof (induction xs arbitrary: r ds)
  case Nil
  then show ?case by (simp add: adds_def)
next
  case (Cons x xs)
  from Cons.prems(2) obtain d ds' where d: "f x = Inr d" "mapM f xs = Inr ds'" "ds = d # ds'"
    by (auto simp: bind_Inr_iff)
  with Cons.prems(3) obtain k where k: "computeJSONKey d = Inr k" by (auto simp: is_ok_iff)
  have "adds zwf cnt zdocs r (\<lambda>k. m * hit d k + m * occ ds' k) ({d} \<union> set ds')
      (bind (rewrap t (AddDocumentMutate r d m))
        (\<lambda>r. foldM (\<lambda>r e. bind (rewrap s (f e)) (\<lambda>d. rewrap t (AddDocumentMutate r d m))) r xs))"
    using Cons d k by (intro adds_bind) (auto intro: AddDocumentMutate_adds)
  then show ?case by (simp add: d distrib_left)
qed

lemma transform_add_fails:
  assumes "foldM (\<lambda>r e. bind (rewrap s (f e)) (\<lambda>d. rewrap t (AddDocumentMutate r d m))) r xs = Inr r'"
    and "m \<noteq> 0"
  shows "\<exists>ds. mapM f xs = Inr ds \<and> (\<forall>d \<in> set ds. is_ok (computeJSONKey d))"
  using assms
proof (induction xs arbitrary: r)
  case (Cons x xs)
  then obtain d r1 where d: "f x = Inr d" "AddDocumentMutate r d m = Inr r1"
      "foldM (\<lambda>r e. bind (rewrap s (f e)) (\<lambda>d. rewrap t (AddDocumentMutate r d m))) r1 xs = Inr r'"
    by (auto simp: bind_Inr_iff)
  from d(2) Cons.prems(2) have "is_ok (computeJSONKey d)"
    by (cases "computeJSONKey d") (auto simp: AddDocumentMutate_def)
  with Cons.IH [OF d(3) Cons.prems(2)] d(1) show ?case by auto
qed simp

interpretation unw: linear_op "\<lambda>z. UnwindOp_Process ext tr [z]" "unwind_img ext tr" for ext tr
proof (rule linear_opI [where body = "unwind_entry ext tr"])
  show "UnwindOp_Process ext tr [z] = foldM (unwind_entry ext tr z) NewDocumentZSet (counts z)" for z
    by (simp add: UnwindOp_Process_def)
next
  fix z r k m assume wf: "zwf r" and ev: "evaluates (unwind_img ext tr) (zdoc z k)"
  from ev obtain v where v: "ext (zdoc z k) = Inr v"
    by (auto simp: evaluates_def unwind_img_def bind_Inr_iff)
  show "adds zwf cnt zdocs r (\<lambda>k'. m * occ (imgs (unwind_img ext tr) (zdoc z k)) k')
      (set (imgs (unwind_img ext tr) (zdoc z k))) (unwind_entry ext tr z r (k, m))"
  proof (cases "\<exists>xs. v = VList xs")
    case True
    then obtain xs where xs: "v = VList xs" by blast
    with ev v obtain ds where "mapM (tr (zdoc z k)) xs = Inr ds"
        "\<forall>d \<in> set ds. is_ok (computeJSONKey d)"
      by (auto simp: evaluates_def unwind_img_def)
    with v xs transform_add_adds [OF wf, of "tr (zdoc z k)" xs ds] show ?thesis
      by (simp add: imgs_def unwind_img_def)
  next
    case False
    with v wf show ?thesis
      by (auto simp: imgs_def unwind_img_def adds_def split: gval.splits)
  qed
next
  fix z r k m r' assume m: "(m :: gint) \<noteq> 0" and run: "unwind_entry ext tr z r (k, m) = Inr r'"
  then obtain v where v: "ext (zdoc z k) = Inr v" by (auto simp: bind_Inr_iff)
  show "evaluates (unwind_img ext tr) (zdoc z k)"
  proof (cases "\<exists>xs. v = VList xs")
    case True
    then obtain xs where xs: "v = VList xs" by blast
    with run v have "foldM (\<lambda>r e. bind (rewrap ''document transformation failed'' (tr (zdoc z k) e))
        (\<lambda>d. rewrap ''failed to add unwound document'' (AddDocumentMutate r d m))) r xs = Inr r'"
      by simp
    from transform_add_fails [OF this m] v xs show ?thesis
      by (auto simp: evaluates_def unwind_img_def)
  next
    case False
    with v show ?thesis by (auto simp: evaluates_def unwind_img_def split: gval.splits)
  qed
qed

section \<open>Fused operators\<close>

fun project_select_entry :: "evaluator \<Rightarrow> evaluator \<Rightarrow> zset \<Rightarrow> zset \<Rightarrow> string \<times> gint \<Rightarrow> zset res" where
  "project_select_entry projEval selEval input result (key, multiplicity) =
     bind (projEval (zdoc input key)) (\<lambda>projectedDocs.
       foldM (\<lambda>result projDoc.
           bind (selEval projDoc) (\<lambda>selectedDocs.
             foldM (\<lambda>result finalDoc. AddDocumentMutate result finalDoc multiplicity)
               result selectedDocs))
         result projectedDocs)"

definition ProjectThenSelectOp_Process :: "evaluator \<Rightarrow> evaluator \<Rightarrow> zset list \<Rightarrow> zset res" where
  "ProjectThenSelectOp_Process projEval selEval inputs =
     bind (validateInputs 1 inputs) (\<lambda>_.
       let input = inputs ! 0 in
       foldM (project_select_entry projEval selEval input) NewDocumentZSet (counts input))"

text \<open>The chain of projections applied to one document: each stage yields exactly one document.\<close>

definition project_chain :: "evaluator list \<Rightarrow> doc \<Rightarrow> doc res" where
  "project_chain projEvals d =
     foldM (\<lambda>currentDoc projEval.
         bind (projEval currentDoc) (\<lambda>projectedDocs.
           if length projectedDocs \<noteq> 1
           then Inl (Error ''projection evaluator produced more or less than one document'')
           else Inr (projectedDocs ! 0)))
       d projEvals"

fun select_project_entry ::
    "evaluator option \<Rightarrow> evaluator list \<Rightarrow> zset \<Rightarrow> zset \<Rightarrow> string \<times> gint \<Rightarrow> zset res" where
  "select_project_entry selEval projEvals input result (key, multiplicity) =
     bind (case selEval of Some sel \<Rightarrow> sel (zdoc input key) | None \<Rightarrow> Inr [zdoc input key])
       (\<lambda>docsToProcess.
         foldM (\<lambda>result docToProcess.
             bind (project_chain projEvals docToProcess) (\<lambda>currentDoc.
               AddDocumentMutate result currentDoc multiplicity))
           result docsToProcess)"

definition SelectThenProjectionsOp_Process ::
    "evaluator option \<Rightarrow> evaluator list \<Rightarrow> zset list \<Rightarrow> zset res" where
  "SelectThenProjectionsOp_Process selEval projEvals inputs =
     bind (validateInputs 1 inputs) (\<lambda>_.
       let input = inputs ! 0 in
       foldM (select_project_entry selEval projEvals input) NewDocumentZSet (counts input))"

text \<open>The images of one document under the fused operators.\<close>

definition select_img :: "evaluator option \<Rightarrow> evaluator" where
  "select_img sel d = (case sel of Some f \<Rightarrow> f d | None \<Rightarrow> Inr [d])"

definition project_img :: "evaluator list \<Rightarrow> evaluator" where
  "project_img ps d = bind (project_chain ps d) (\<lambda>x. Inr [x])"

lemma nested_add_adds:
  assumes "zwf r" and "mapM f xs = Inr dss" and "\<forall>d \<in> set (concat dss). is_ok (computeJSONKey d)"
  shows "adds zwf cnt zdocs r (\<lambda>k. m * occ (concat dss) k) (set (concat dss))
    (foldM (\<lambda>r x. bind (f x) (\<lambda>ds. foldM (\<lambda>r d. AddDocumentMutate r d m) r ds)) r xs)"
  using assms
proof (induction xs arbitrary: r dss)
  case Nil
  then show ?case by (simp add: adds_def)
next
  case (Cons x xs)
  from Cons.prems(2) obtain ds dss' where d: "f x = Inr ds" "mapM f xs = Inr dss'" "dss = ds # dss'"
    by (auto simp: bind_Inr_iff)
  have "adds zwf cnt zdocs r (\<lambda>k. m * occ ds k + m * occ (concat dss') k) (set ds \<union> set (concat dss'))
      (bind (foldM (\<lambda>r d. AddDocumentMutate r d m) r ds)
        (\<lambda>r. foldM (\<lambda>r x. bind (f x) (\<lambda>ds. foldM (\<lambda>r d. AddDocumentMutate r d m) r ds)) r xs))"
    using Cons d by (intro adds_bind) (auto intro: zs.add_list)
  then show ?case by (simp add: d distrib_left)
qed

lemma nested_add_fails:
  assumes "foldM (\<lambda>r x. bind (f x) (\<lambda>ds. foldM (\<lambda>r d. AddDocumentMutate r d m) r ds)) r xs = Inr r'"
    and "m \<noteq> 0"
  shows "\<exists>dss. mapM f xs = Inr dss \<and> (\<forall>d \<in> set (concat dss). is_ok (computeJSONKey d))"
  using assms
proof (induction xs arbitrary: r)
  case (Cons x xs)
  then obtain ds r1 where d: "f x = Inr ds" "foldM (\<lambda>r d. AddDocumentMutate r d m) r ds = Inr r1"
      "foldM (\<lambda>r x. bind (f x) (\<lambda>ds. foldM (\<lambda>r d. AddDocumentMutate r d m) r ds)) r1 xs = Inr r'"
    by (auto simp: bind_Inr_iff)
  with add_list_stored [OF d(2) Cons.prems(2)] Cons.IH [OF d(3) Cons.prems(2)] show ?case
    by auto
qed simp

text \<open>Both fused loop bodies have the same shape: a first stage, then a second one per document.\<close>

lemma two_stage_adds:
  assumes "zwf r" and "evaluates (chain_img f g) d"
  shows "adds zwf cnt zdocs r (\<lambda>k. m * occ (imgs (chain_img f g) d) k) (set (imgs (chain_img f g) d))
    (bind (f d) (\<lambda>xs. foldM (\<lambda>r x. bind (g x) (\<lambda>ds. foldM (\<lambda>r d. AddDocumentMutate r d m) r ds)) r xs))"
proof -
  from assms(2) obtain xs dss where "f d = Inr xs" "mapM g xs = Inr dss"
      "\<forall>x \<in> set (concat dss). is_ok (computeJSONKey x)"
    by (auto simp: evaluates_def chain_img_def bind_Inr_iff)
  with nested_add_adds [OF assms(1), of g xs dss] show ?thesis
    by (simp add: imgs_def chain_img_def)
qed

lemma two_stage_fails:
  assumes "(m :: gint) \<noteq> 0"
    and "bind (f d) (\<lambda>xs. foldM (\<lambda>r x. bind (g x) (\<lambda>ds. foldM (\<lambda>r d. AddDocumentMutate r d m) r ds)) r xs) = Inr r'"
  shows "evaluates (chain_img f g) d"
  using assms(2)
  by (auto simp: evaluates_def chain_img_def bind_Inr_iff dest!: nested_add_fails [OF _ assms(1)])

interpretation pts: linear_op "\<lambda>z. ProjectThenSelectOp_Process p s [z]" "chain_img p s" for p s
proof (rule linear_opI [where body = "project_select_entry p s"])
  show "ProjectThenSelectOp_Process p s [z] = foldM (project_select_entry p s z) NewDocumentZSet (counts z)" for z
    by (simp add: ProjectThenSelectOp_Process_def)
qed (simp_all only: project_select_entry.simps two_stage_adds two_stage_fails)

lemma select_project_entry_stages:
  "select_project_entry sel ps z r (k, m) =
     bind (select_img sel (zdoc z k)) (\<lambda>xs.
       foldM (\<lambda>r x. bind (project_img ps x) (\<lambda>ds. foldM (\<lambda>r d. AddDocumentMutate r d m) r ds)) r xs)"
  by (simp add: select_img_def project_img_def bind_assoc)

interpretation stp: linear_op "\<lambda>z. SelectThenProjectionsOp_Process sel ps [z]"
    "chain_img (select_img sel) (project_img ps)" for sel ps
proof (rule linear_opI [where body = "select_project_entry sel ps"])
  show "SelectThenProjectionsOp_Process sel ps [z] =
      foldM (select_project_entry sel ps z) NewDocumentZSet (counts z)" for z
    by (simp add: SelectThenProjectionsOp_Process_def)
qed (simp_all only: select_project_entry_stages two_stage_adds two_stage_fails)

section \<open>Fusion computes what the separate operators compute\<close>

text \<open>A one-to-one evaluator: what \<^verbatim>\<open>@project\<close> of a pipeline is.\<close>

definition one_to_one :: "evaluator \<Rightarrow> bool" where
  "one_to_one p \<longleftrightarrow> (\<forall>d ds. p d = Inr ds \<longrightarrow> length ds = 1)"

text \<open>Running the projections of a list one after the other, each over the whole Z-set.\<close>

definition projections :: "evaluator list \<Rightarrow> zset \<Rightarrow> zset res" where
  "projections ps z = foldM (\<lambda>z p. ProjectionOp_Process p [z]) z ps"

lemma projections_Cons: "projections (p # ps) z = bind (ProjectionOp_Process p [z]) (projections ps)"
  by (simp add: projections_def [abs_def])

lemma project_img_Cons:
  assumes "one_to_one p"
  shows "project_img (p # ps) d = chain_img p (project_img ps) d"
proof (cases "p d")
  case (Inr ds)
  with assms obtain x where x: "ds = [x]" by (auto simp: one_to_one_def length_Suc_conv)
  have "mapM (project_img ps) [x] = bind (project_img ps x) (\<lambda>y. Inr [y])" by simp
  moreover have "bind (bind (project_img ps x) (\<lambda>y. Inr [y])) (\<lambda>dss. Inr (concat dss)) = project_img ps x"
    by (cases "project_img ps x") auto
  ultimately show ?thesis using Inr x
    by (simp add: chain_img_def project_img_def [of "p # ps"] project_chain_def project_img_def [of ps])
qed (simp add: project_img_def project_chain_def chain_img_def)

lemma projections_responds:
  assumes "\<And>p. p \<in> set ps \<Longrightarrow> one_to_one p \<and> maps_known dk p"
  shows "responds dk (projections ps) (project_img ps)"
  using assms
proof (induction ps)
  case Nil
  have "projections [] = Inr" and "project_img [] = (\<lambda>d. Inr [d])"
    by (simp_all add: projections_def project_img_def project_chain_def fun_eq_iff)
  then show ?case using responds_id by simp
next
  case (Cons p ps)
  then have p: "one_to_one p" "maps_known dk p" and IH: "responds dk (projections ps) (project_img ps)"
    by auto
  have "responds dk (\<lambda>z. bind (ProjectionOp_Process p [z]) (projections ps)) (chain_img p (project_img ps))"
    by (rule responds_compose [OF linear_responds [OF proj.linear_op_axioms p(2)] IH])
  moreover have "projections (p # ps) = (\<lambda>z. bind (ProjectionOp_Process p [z]) (projections ps))"
    by (simp add: projections_Cons fun_eq_iff)
  ultimately show ?case using responds_cong project_img_Cons [OF p(1)] by metis
qed

definition select_stage :: "evaluator option \<Rightarrow> zset \<Rightarrow> zset res" where
  "select_stage sel z = (case sel of Some f \<Rightarrow> SelectionOp_Process f [z] | None \<Rightarrow> Inr z)"

lemma select_stage_responds:
  assumes "\<And>f. sel = Some f \<Longrightarrow> maps_known dk f"
  shows "responds dk (select_stage sel) (select_img sel)"
proof (cases sel)
  case None
  then have "select_stage sel = Inr" "select_img sel = (\<lambda>d. Inr [d])"
    by (simp_all add: select_stage_def select_img_def fun_eq_iff)
  then show ?thesis using responds_id by simp
next
  case (Some f)
  then have "select_stage sel = (\<lambda>z. SelectionOp_Process f [z])" "select_img sel = f"
    by (simp_all add: select_stage_def select_img_def fun_eq_iff)
  then show ?thesis using linear_responds [OF sel.linear_op_axioms assms [OF Some]] by simp
qed

text \<open>The fused operators respond like the stages they replace.\<close>

lemma SelectThenProjections_responds:
  assumes "\<And>f. sel = Some f \<Longrightarrow> maps_known dk f" and "\<And>p. p \<in> set ps \<Longrightarrow> one_to_one p \<and> maps_known dk p"
  shows "responds dk (\<lambda>z. SelectThenProjectionsOp_Process sel ps [z]) (chain_img (select_img sel) (project_img ps))"
proof -
  have "maps_known dk (select_img sel)" "maps_known dk (project_img ps)"
    using select_stage_responds [of sel dk] projections_responds [of ps dk] assms
    by (auto simp: responds_def)
  then show ?thesis by (intro linear_responds [OF stp.linear_op_axioms] maps_known_chain)
qed

lemma ProjectThenSelect_responds:
  assumes "maps_known dk p" and "maps_known dk s"
  shows "responds dk (\<lambda>z. ProjectThenSelectOp_Process p s [z]) (chain_img p s)"
  using assms by (intro linear_responds [OF pts.linear_op_axioms] maps_known_chain)

end
