(* ===== verification/Ops_Misc.thy ===== *)
theory Ops_Misc
  imports Op_Base
begin

text \<open>
  Package \<^verbatim>\<open>dbsp\<close>, file \<^verbatim>\<open>op_misc.go\<close>: distinct, the stream operators (integrator,
  differentiator, delay), sources and the arithmetic nodes.  The stream operators take their
  state as first argument and return the next state.
\<close>

section \<open>Operations\<close>

definition DistinctOp_Process :: "zset list \<Rightarrow> zset res" where
  "DistinctOp_Process inputs = bind (validateInputs 1 inputs) (\<lambda>_. Distinct (inputs ! 0))"

definition IntegratorOp_Process :: "zset \<Rightarrow> zset list \<Rightarrow> zset \<times> zset res" where
  "IntegratorOp_Process state inputs =
     (case validateInputs 1 inputs of
        Inl e \<Rightarrow> (state, Inl e)
      | Inr _ \<Rightarrow>
          (case Add state (Some (inputs ! 0)) of
             Inl e \<Rightarrow> (state, Inl e)
           | Inr s \<Rightarrow> (s, Inr (DeepCopy s))))"

definition DifferentiatorOp_Process :: "zset \<Rightarrow> zset list \<Rightarrow> zset \<times> zset res" where
  "DifferentiatorOp_Process prevState inputs =
     (case validateInputs 1 inputs of
        Inl e \<Rightarrow> (prevState, Inl e)
      | Inr _ \<Rightarrow>
          (let snapshot = inputs ! 0 in
           case Subtract snapshot (Some prevState) of
             Inl e \<Rightarrow> (prevState, Inl e)
           | Inr delta \<Rightarrow> (DeepCopy snapshot, Inr delta)))"

definition DelayOp_Process :: "zset \<Rightarrow> zset list \<Rightarrow> zset \<times> zset res" where
  "DelayOp_Process buffer inputs =
     (case validateInputs 1 inputs of
        Inl e \<Rightarrow> (buffer, Inl e)
      | Inr _ \<Rightarrow> (DeepCopy (inputs ! 0), Inr (DeepCopy buffer)))"

text \<open>The state \<^verbatim>\<open>Reset\<close> of each of the three stream operators installs.\<close>

definition stream_op_Reset :: zset where
  "stream_op_Reset = NewDocumentZSet"

definition InputOp_Process :: "zset \<Rightarrow> zset list \<Rightarrow> zset res" where
  "InputOp_Process data inputs = bind (validateInputs 0 inputs) (\<lambda>_. Inr (DeepCopy data))"

definition ConstantOp_Process :: "zset \<Rightarrow> zset list \<Rightarrow> zset res" where
  "ConstantOp_Process val inputs = bind (validateInputs 0 inputs) (\<lambda>_. Inr (DeepCopy val))"

definition AddOp_Process :: "zset list \<Rightarrow> zset res" where
  "AddOp_Process inputs = bind (validateInputs 2 inputs) (\<lambda>_. Add (inputs ! 0) (Some (inputs ! 1)))"

definition SubtractOp_Process :: "zset list \<Rightarrow> zset res" where
  "SubtractOp_Process inputs =
     bind (validateInputs 2 inputs) (\<lambda>_. Subtract (inputs ! 0) (Some (inputs ! 1)))"

definition NegateOp_Process :: "zset list \<Rightarrow> zset res" where
  "NegateOp_Process inputs =
     bind (validateInputs 1 inputs) (\<lambda>_. Subtract NewDocumentZSet (Some (inputs ! 0)))"

section \<open>What a step does\<close>

lemma Integrator_step:
  assumes "zwf s" and "zwf z"
  obtains s' r where "IntegratorOp_Process s [z] = (s', Inr r)" "zwf s'" "zwf r"
    "\<And>k. cnt s' k = cnt s k + cnt z k" "\<And>k. cnt r k = cnt s' k"
proof -
  obtain c where c: "Add s (Some z) = Inr c" "zwf c" "\<And>k. cnt c k = cnt s k + cnt z k"
    using Add_ok [OF assms] by metis
  with that [of c "DeepCopy c"] show ?thesis by (simp add: IntegratorOp_Process_def)
qed

lemma Differentiator_step:
  assumes "zwf p" and "zwf z"
  obtains p' r where "DifferentiatorOp_Process p [z] = (p', Inr r)" "zwf p'" "zwf r"
    "\<And>k. cnt p' k = cnt z k" "\<And>k. cnt r k = cnt z k - cnt p k"
proof -
  obtain c where c: "Subtract z (Some p) = Inr c" "zwf c" "\<And>k. cnt c k = cnt z k - cnt p k"
    using Subtract_ok [OF assms(2,1)] by metis
  with that [of "DeepCopy z" c] assms(2) show ?thesis by (simp add: DifferentiatorOp_Process_def)
qed

lemma Delay_step:
  assumes "zwf b" and "zwf z"
  obtains b' r where "DelayOp_Process b [z] = (b', Inr r)" "zwf b'" "zwf r"
    "\<And>k. cnt b' k = cnt z k" "\<And>k. cnt r k = cnt b k"
  using assms by (auto simp: DelayOp_Process_def)

text \<open>The differentiator is incremental over the last snapshot it has seen.\<close>

interpretation diffr: incremental "\<lambda>p z. DifferentiatorOp_Process p [z]" zwf
    "\<lambda>p a. zwf p \<and> (\<forall>k. cnt p k = a k)" "\<lambda>_. cnt" "\<lambda>a. a"
proof
  fix p a x assume "zwf p \<and> (\<forall>k. cnt p k = (a :: string \<Rightarrow> gint) k)" and "zwf x"
  then show "\<exists>s' r. DifferentiatorOp_Process p [x] = (s', Inr r) \<and> zwf r \<and>
      (zwf s' \<and> (\<forall>k. cnt s' k = cnt x k)) \<and> (\<forall>k. cnt r k = cnt x k - a k)"
    using Differentiator_step [of p x] by metis
qed

section \<open>Integration and differentiation cancel\<close>

text \<open>Both operators in a row, over a stream of deltas: the pair the rewriter removes.\<close>

fun integrate_diff :: "zset \<times> zset \<Rightarrow> zset \<Rightarrow> (zset \<times> zset) \<times> zset res" where
  "integrate_diff (i, d) z =
     (case IntegratorOp_Process i [z] of
        (i', Inl e) \<Rightarrow> ((i', d), Inl e)
      | (i', Inr s) \<Rightarrow> (case DifferentiatorOp_Process d [s] of (d', r) \<Rightarrow> ((i', d'), r)))"

lemma integrate_diff_step:
  assumes "zwf i" and "zwf d" and "\<And>k. cnt i k = cnt d k" and "zwf z"
  shows "\<exists>i' d' r. integrate_diff (i, d) z = ((i', d'), Inr r) \<and> zwf i' \<and> zwf d' \<and> zwf r
    \<and> (\<forall>k. cnt i' k = cnt d' k) \<and> (\<forall>k. cnt r k = cnt z k)"
proof -
  obtain i' s where s: "IntegratorOp_Process i [z] = (i', Inr s)" "zwf i'" "zwf s"
      "\<And>k. cnt i' k = cnt i k + cnt z k" "\<And>k. cnt s k = cnt i' k"
    using Integrator_step [OF assms(1,4)] by metis
  obtain d' r where r: "DifferentiatorOp_Process d [s] = (d', Inr r)" "zwf d'" "zwf r"
      "\<And>k. cnt d' k = cnt s k" "\<And>k. cnt r k = cnt s k - cnt d k"
    using Differentiator_step [OF assms(2) s(3)] by metis
  have "cnt r k = cnt z k" and "cnt i' k = cnt d' k" for k
    using r(4,5) s(4,5) assms(3) [of k] by simp_all
  with r s show ?thesis by auto
qed

lemma integrate_diff_run:
  assumes "zwf i" and "zwf d" and "\<And>k. cnt i k = cnt d k" and "\<And>z. z \<in> set zs \<Longrightarrow> zwf z"
  shows "\<exists>s rs. run_op integrate_diff (i, d) zs = (s, Inr rs)
    \<and> list_all2 (\<lambda>z r. zwf r \<and> (\<forall>k. cnt r k = cnt z k)) zs rs"
  using assms
proof (induction zs arbitrary: i d)
  case (Cons z zs)
  have "zwf z" using Cons.prems(4) by simp
  from integrate_diff_step [OF Cons.prems(1-3) this] obtain i' d' r where
    r: "integrate_diff (i, d) z = ((i', d'), Inr r)" "zwf i'" "zwf d'" "zwf r"
      "\<And>k. cnt i' k = cnt d' k" "\<And>k. cnt r k = cnt z k"
    by metis
  from Cons.IH [OF r(2,3,5)] Cons.prems(4) r show ?case by auto
qed simp

section \<open>Distinct\<close>

lemma Distinct_ok:
  assumes "zwf z"
  obtains r where "Distinct z = Inr r" "zwf r" "\<And>k. cnt r k = (if ipos (cnt z k) then 1 else 0)"
    "zdocs r \<subseteq> zdocs z"
  using Distinct_adds [OF assms] by (auto simp: adds_def)

lemma Distinct_twice:
  assumes "zwf z"
  obtains r r' where "Distinct z = Inr r" "Distinct r = Inr r'" "zwf r" "zwf r'" "\<And>k. cnt r' k = cnt r k"
proof -
  obtain r where r: "Distinct z = Inr r" "zwf r" "\<And>k. cnt r k = (if ipos (cnt z k) then 1 else 0)"
    using Distinct_ok [OF assms] by metis
  obtain r' where r': "Distinct r = Inr r'" "zwf r'" "\<And>k. cnt r' k = (if ipos (cnt r k) then 1 else 0)"
    using Distinct_ok [OF r(2)] by metis
  have "cnt r' k = cnt r k" for k using r'(3) r(3) by simp
  with r r' that show ?thesis by blast
qed

end
