(* ===== verification/Ops_Bilinear.thy ===== *)
theory Ops_Bilinear
  imports Op_Base
begin

text \<open>
  Package \<^verbatim>\<open>dbsp\<close>, file \<^verbatim>\<open>op_bilinear.go\<close>: the n-ary and the binary join, each as a snapshot
  operator and as an incremental operator that keeps the previous snapshots of its inputs.
  The incremental joins are shown to be \<open>incremental\<close> over the multilinear response of the
  snapshot join: the \<open>2\<^sup>n - 1\<close> terms the code enumerates by bit masks are exactly the
  expansion of a product of sums without its constant term.
\<close>

section \<open>Operations\<close>

text \<open>\<^verbatim>\<open>joinInput\<close>: the documents of a tuple under the names of the inputs.\<close>

definition join_input :: "string list \<Rightarrow> doc list \<Rightarrow> doc" where
  "join_input names ds = foldl (\<lambda>m (name, d). sm_set name (VMap d) m) [] (zip names ds)"

text \<open>
  The third argument is what the source calls \<^verbatim>\<open>inputs[inputIndex:]\<close>; the tuple built so far,
  \<open>cur\<close>, is the filled prefix of the arrays \<^verbatim>\<open>currentDocs\<close> and \<^verbatim>\<open>currentMults\<close>.
\<close>

fun cartesianJoin :: "evaluator \<Rightarrow> string list \<Rightarrow> zset list \<Rightarrow> (doc \<times> gint) list \<Rightarrow> zset res" where
  "cartesianJoin eval names [] cur =
     (let totalMult = foldl (\<lambda>t m. t * m) 1 (map snd cur) in
      bind (eval (join_input names (map fst cur))) (\<lambda>joinedDocs.
        foldM (\<lambda>result joinedDoc. AddDocumentMutate result (DeepCopyDocument joinedDoc) totalMult)
          NewDocumentZSet joinedDocs))"
| "cartesianJoin eval names (input # rest) cur =
     foldM (\<lambda>result (key, mult).
         bind (cartesianJoin eval names rest (cur @ [(zdoc input key, mult)])) (\<lambda>termResult.
           Add result (Some termResult)))
       NewDocumentZSet (counts input)"

definition JoinOp_Process :: "evaluator \<Rightarrow> string list \<Rightarrow> zset list \<Rightarrow> zset res" where
  "JoinOp_Process eval names inputs =
     bind (validateInputs (length names) inputs) (\<lambda>_. cartesianJoin eval names inputs [])"

definition computeTerm :: "evaluator \<Rightarrow> string list \<Rightarrow> zset list \<Rightarrow> zset list \<Rightarrow> nat \<Rightarrow> zset res" where
  "computeTerm eval names prevStates inputs term_mask =
     (let termInputs = map (\<lambda>i. if bit term_mask i then inputs ! i else prevStates ! i) [0..<length names]
      in cartesianJoin eval names termInputs [])"

text \<open>The bound \<^verbatim>\<open>1 << op.n\<close> of the mask loop as a 64-bit integer: it is not positive from 63 on.\<close>

definition mask_bound :: "nat \<Rightarrow> nat" where
  "mask_bound n = (if n < 63 then 2 ^ n else 0)"

text \<open>
  The update of \<^verbatim>\<open>prevStates\<close>.  A failing addition stores the \<^verbatim>\<open>nil\<close> it returns and leaves
  the remaining states as they were.
\<close>

fun update_states :: "zset list \<Rightarrow> zset list \<Rightarrow> zset option list \<times> unit res" where
  "update_states (p # ps) (delta # ds) =
     (case Add p (Some delta) of
        Inl e \<Rightarrow> (None # map Some ps, Inl e)
      | Inr s \<Rightarrow> (case update_states ps ds of (ss, r) \<Rightarrow> (Some s # ss, r)))"
| "update_states ps _ = (map Some ps, Inr ())"

definition init_state :: "zset option \<Rightarrow> zset" where
  "init_state p = (case p of None \<Rightarrow> NewDocumentZSet | Some z \<Rightarrow> z)"

definition IncrementalJoinOp_Process ::
    "evaluator \<Rightarrow> string list \<Rightarrow> zset option list \<Rightarrow> zset list \<Rightarrow> zset option list \<times> zset res" where
  "IncrementalJoinOp_Process eval names prevStates inputs =
     (case validateInputs (length names) inputs of
        Inl e \<Rightarrow> (prevStates, Inl e)
      | Inr _ \<Rightarrow>
          (let prev = map init_state prevStates in
           case foldM (\<lambda>result term_mask.
                  bind (computeTerm eval names prev inputs term_mask) (\<lambda>t. Add result (Some t)))
                NewDocumentZSet [1..<mask_bound (length names)] of
             Inl e \<Rightarrow> (map Some prev, Inl e)
           | Inr result \<Rightarrow>
               (case update_states prev inputs of (ss, r) \<Rightarrow> (ss, bind r (\<lambda>_. Inr result)))))"

text \<open>The state \<^verbatim>\<open>NewIncrementalJoin\<close> creates.\<close>

definition NewIncrementalJoin_state :: "string list \<Rightarrow> zset option list" where
  "NewIncrementalJoin_state names = replicate (length names) None"

text \<open>The binary join indexes the names of its inputs without a check.\<close>

definition join_pair :: "string list \<Rightarrow> doc \<Rightarrow> doc \<Rightarrow> doc res" where
  "join_pair names l r =
     (case names of
        n0 # n1 # _ \<Rightarrow> Inr (sm_set n1 (VMap r) (sm_set n0 (VMap l) []))
      | _ \<Rightarrow> Inl (Panic ''index out of range''))"

definition BinaryJoinOp_Process :: "evaluator \<Rightarrow> string list \<Rightarrow> zset list \<Rightarrow> zset res" where
  "BinaryJoinOp_Process eval names inputs =
     bind (validateInputs 2 inputs) (\<lambda>_.
       let left = inputs ! 0; right = inputs ! 1 in
       foldM (\<lambda>result (leftKey, leftMult).
           foldM (\<lambda>result (rightKey, rightMult).
               bind (join_pair names (zdoc left leftKey) (zdoc right rightKey)) (\<lambda>joinInput.
               bind (eval joinInput) (\<lambda>joinedDocs.
                 foldM (\<lambda>result joinedDoc.
                     AddDocument result (DeepCopyDocument joinedDoc) (leftMult * rightMult))
                   result joinedDocs)))
             result (counts right))
         NewDocumentZSet (counts left))"

text \<open>
  State of the incremental binary join.  As in the n-ary case a failing addition stores
  \<^verbatim>\<open>nil\<close>, and the joins dereference it.
\<close>

record binary_join_state =
  prevLeft :: "zset option"
  prevRight :: "zset option"

definition NewIncrementalBinaryJoin_state :: binary_join_state where
  "NewIncrementalBinaryJoin_state = \<lparr>prevLeft = Some NewDocumentZSet, prevRight = Some NewDocumentZSet\<rparr>"

definition nil_dereference :: error where
  "nil_dereference = Panic ''invalid memory address or nil pointer dereference''"

definition incremental_binary_terms ::
    "evaluator \<Rightarrow> string list \<Rightarrow> binary_join_state \<Rightarrow> zset \<Rightarrow> zset \<Rightarrow> zset res" where
  "incremental_binary_terms eval names s deltaL deltaR =
     bind (rewrap ''dL x dR failed'' (BinaryJoinOp_Process eval names [deltaL, deltaR])) (\<lambda>term1.
     bind (rewrap ''prev_L x dR failed''
        (case prevLeft s of
           None \<Rightarrow> Inl nil_dereference
         | Some l \<Rightarrow> BinaryJoinOp_Process eval names [l, deltaR])) (\<lambda>term2.
     bind (rewrap ''dL x prev_R failed''
        (case prevRight s of
           None \<Rightarrow> (if counts deltaL = [] then Inr NewDocumentZSet else Inl nil_dereference)
         | Some r \<Rightarrow> BinaryJoinOp_Process eval names [deltaL, r])) (\<lambda>term3.
     bind (Add term1 (Some term2)) (\<lambda>result. Add result (Some term3)))))"

definition IncrementalBinaryJoinOp_Process ::
    "evaluator \<Rightarrow> string list \<Rightarrow> binary_join_state \<Rightarrow> zset list \<Rightarrow> binary_join_state \<times> zset res" where
  "IncrementalBinaryJoinOp_Process eval names s inputs =
     (case validateInputs 2 inputs of
        Inl e \<Rightarrow> (s, Inl e)
      | Inr _ \<Rightarrow>
          (let deltaL = inputs ! 0; deltaR = inputs ! 1 in
           case incremental_binary_terms eval names s deltaL deltaR of
             Inl e \<Rightarrow> (s, Inl e)
           | Inr result \<Rightarrow>
               (case prevLeft s of
                  None \<Rightarrow> (s, Inl nil_dereference)
                | Some l \<Rightarrow>
                    (case Add l (Some deltaL) of
                       Inl e \<Rightarrow> (s\<lparr>prevLeft := None\<rparr>, Inl e)
                     | Inr l' \<Rightarrow>
                         (let s1 = s\<lparr>prevLeft := Some l'\<rparr> in
                          case prevRight s of
                            None \<Rightarrow> (s1, Inl nil_dereference)
                          | Some r \<Rightarrow>
                              (case Add r (Some deltaR) of
                                 Inl e \<Rightarrow> (s1\<lparr>prevRight := None\<rparr>, Inl e)
                               | Inr r' \<Rightarrow> (s1\<lparr>prevRight := Some r'\<rparr>, Inr result)))))))"

section \<open>Sums over tuples\<close>

fun msum :: "(string \<Rightarrow> gint) list \<Rightarrow> (string list \<Rightarrow> gint) \<Rightarrow> gint" where
  "msum [] h = h []"
| "msum (f # fs) h = wsum f (\<lambda>k. msum fs (\<lambda>ks. h (k # ks)))"

abbreviation finite_support :: "(string \<Rightarrow> gint) \<Rightarrow> bool" where
  "finite_support f \<equiv> finite {k. f k \<noteq> 0}"

lemma wsum_scale: "wsum f (\<lambda>k. c * g k) = c * wsum f g"
  by (simp add: wsum_def sum_distrib_left algebra_simps)

lemma wsum_sum: "wsum f (\<lambda>k. \<Sum>i \<in> I. g i k) = (\<Sum>i \<in> I. wsum f (g i))"
  unfolding wsum_def by (simp add: sum_distrib_left) (rule sum.swap)

text \<open>The choice a mask makes between two lists: bit \<open>i\<close> set takes the second at \<open>i\<close>.\<close>

fun choose_by :: "nat \<Rightarrow> 'a list \<Rightarrow> 'a list \<Rightarrow> 'a list" where
  "choose_by m (f # fs) (g # gs) = (if odd m then g else f) # choose_by (m div 2) fs gs"
| "choose_by m _ _ = []"

lemma choose_by_nth:
  "length fs = n \<Longrightarrow> length gs = n \<Longrightarrow>
   map (\<lambda>i. if bit m i then gs ! i else fs ! i) [0..<n] = choose_by m fs gs"
proof (induction fs arbitrary: n m gs)
  case (Cons f fs)
  then obtain g gs' n' where gs: "gs = g # gs'" "n = Suc n'" "length fs = n'" "length gs' = n'"
    by (metis length_Suc_conv)
  have "map (\<lambda>i. if bit m i then gs ! i else (f # fs) ! i) [0..<n]
      = (if odd m then g else f) # map (\<lambda>i. if bit (m div 2) i then gs' ! i else fs ! i) [0..<n']"
    unfolding gs upt_conv_Cons [OF zero_less_Suc] list.map map_Suc_upt [symmetric] map_map
    by (simp add: comp_def bit_0 bit_Suc)
  with Cons.IH [OF gs(3,4)] gs show ?case by simp
qed simp

lemma map_choose_by: "map h (choose_by m fs gs) = choose_by m (map h fs) (map h gs)"
  by (induction m fs gs rule: choose_by.induct) auto

lemma set_choose_by: "set (choose_by m fs gs) \<subseteq> set fs \<union> set gs"
  by (induction m fs gs rule: choose_by.induct) auto

lemma length_choose_by [simp]: "length (choose_by m fs gs) = min (length fs) (length gs)"
  by (induction m fs gs rule: choose_by.induct) auto

lemma choose_by_0: "length fs = length gs \<Longrightarrow> choose_by 0 fs gs = fs"
  by (induction "0 :: nat" fs gs rule: choose_by.induct) auto

lemma sum_even_odd: "(\<Sum>m < 2 * N. F m) = (\<Sum>m < N. F (2 * m) + F (Suc (2 * m)))" for N :: nat
  by (induction N) (auto simp: algebra_simps)

text \<open>A multilinear sum over sums is the sum over all choices of summands.\<close>

lemma msum_expand:
  assumes "length fs = length gs" and "\<forall>f \<in> set fs \<union> set gs. finite_support f"
  shows "msum (map2 (\<lambda>f g k. f k + g k) fs gs) h = (\<Sum>m < 2 ^ length fs. msum (choose_by m fs gs) h)"
  using assms
proof (induction fs arbitrary: gs h)
  case (Cons f fs)
  then obtain g gs' where gs: "gs = g # gs'" by (cases gs) auto
  have IH: "msum (map2 (\<lambda>f g k. f k + g k) fs gs') h' = (\<Sum>m < 2 ^ length fs. msum (choose_by m fs gs') h')" for h'
    using Cons.prems gs by (intro Cons.IH) auto
  have "msum (map2 (\<lambda>f g k. f k + g k) (f # fs) gs) h =
      wsum f (\<lambda>k. \<Sum>m < 2 ^ length fs. msum (choose_by m fs gs') (\<lambda>ks. h (k # ks)))
      + wsum g (\<lambda>k. \<Sum>m < 2 ^ length fs. msum (choose_by m fs gs') (\<lambda>ks. h (k # ks)))"
    using Cons.prems gs by (simp add: IH wsum_add)
  also have "\<dots> = (\<Sum>m < 2 ^ length fs. msum (choose_by (2 * m) (f # fs) gs) h
      + msum (choose_by (Suc (2 * m)) (f # fs) gs) h)"
    by (simp add: gs wsum_sum sum.distrib)
  also have "\<dots> = (\<Sum>m < 2 ^ length (f # fs). msum (choose_by m (f # fs) gs) h)"
    by (simp add: sum_even_odd)
  finally show ?case .
qed simp

section \<open>The response of the snapshot joins\<close>

text \<open>The join succeeds on every tuple of known documents and yields known documents.\<close>

definition joins_known :: "(string \<Rightarrow> doc) \<Rightarrow> evaluator \<Rightarrow> string list \<Rightarrow> bool" where
  "joins_known dk eval names \<longleftrightarrow> (\<forall>ds. length ds = length names \<longrightarrow> (\<forall>d \<in> set ds. known dk d) \<longrightarrow>
     (\<exists>out. eval (join_input names ds) = Inr out \<and> (\<forall>x \<in> set out. known dk x)))"

text \<open>How often the tuple of documents with keys \<open>ks\<close> contributes to the key \<open>k\<close>.\<close>

definition join_hits :: "(string \<Rightarrow> doc) \<Rightarrow> evaluator \<Rightarrow> string list \<Rightarrow> string list \<Rightarrow> string \<Rightarrow> gint" where
  "join_hits dk eval names ks k = occ (imgs eval (join_input names (map dk ks))) k"

definition join_snap :: "(string \<Rightarrow> doc) \<Rightarrow> evaluator \<Rightarrow> string list \<Rightarrow> (string \<Rightarrow> gint) list \<Rightarrow> string \<Rightarrow> gint" where
  "join_snap dk eval names fs k = msum fs (\<lambda>ks. join_hits dk eval names ks k)"

lemma adds_counts:
  assumes "zwf z" and "zwf r0"
    and "\<And>r k m. (k, m) \<in> set (counts z) \<Longrightarrow> zwf r \<Longrightarrow> adds zwf cnt zdocs r (\<lambda>k'. m * g k k') H (f r (k, m))"
  shows "adds zwf cnt zdocs r0 (\<lambda>k'. wsum (cnt z) (\<lambda>k. g k k')) H (foldM f r0 (counts z))"
proof -
  have "adds zwf cnt zdocs r (\<lambda>k'. snd e * g (fst e) k') H (f r e)"
    if "e \<in> set (counts z)" "zwf r" for r e
    using assms(3) [of "fst e" "snd e" r] that by simp
  from adds_foldM [of zwf r0 "counts z", OF assms(2) this] show ?thesis
    by (rule adds_mono) (use sum_counts_wsum [OF assms(1)] in \<open>auto simp: case_prod_unfold\<close>)
qed

abbreviation known_docs :: "(string \<Rightarrow> doc) \<Rightarrow> doc set" where
  "known_docs dk \<equiv> Collect (known dk)"

lemma adds_known:
  assumes "adds zwf cnt zdocs NewDocumentZSet g (known_docs dk) r"
  obtains z where "r = Inr z" "zknown dk z" "\<And>k. cnt z k = g k"
  using zknown_adds [OF assms zknown_New] by auto

lemma bind_Add_adds:
  assumes "adds zwf cnt zdocs NewDocumentZSet g (known_docs dk) t" and "zwf r"
  shows "adds zwf cnt zdocs r g (known_docs dk) (bind t (\<lambda>t. Add r (Some t)))"
proof -
  obtain z where z: "t = Inr z" "zknown dk z" "\<And>k. cnt z k = g k"
    using adds_known [OF assms(1)] by metis
  have "adds zwf cnt zdocs r (cnt z) (zdocs z) (Add r (Some z))"
    using assms(2) z(2) by (intro Add_adds) auto
  then have "adds zwf cnt zdocs r g (known_docs dk) (Add r (Some z))"
    by (rule adds_mono) (use z in \<open>auto simp: zknown_def\<close>)
  with z(1) show ?thesis by simp
qed

lemma cartesianJoin_adds:
  assumes "joins_known dk eval names" and "\<And>z. z \<in> set zs \<Longrightarrow> zknown dk z"
    and "\<And>d. d \<in> fst ` set cur \<Longrightarrow> known dk d" and "length cur + length zs = length names"
  shows "adds zwf cnt zdocs NewDocumentZSet
    (\<lambda>k. foldl (*) 1 (map snd cur) *
       msum (map cnt zs) (\<lambda>ks. occ (imgs eval (join_input names (map fst cur @ map dk ks))) k))
    (known_docs dk) (cartesianJoin eval names zs cur)"
  using assms
proof (induction zs arbitrary: cur)
  case Nil
  from Nil.prems(1,3,4) obtain out where out: "eval (join_input names (map fst cur)) = Inr out"
      "\<forall>x \<in> set out. known dk x"
    unfolding joins_known_def by (metis (no_types, lifting) add_0_right length_map list.set_map list.size(3))
  then have "\<And>d. d \<in> set out \<Longrightarrow> is_ok (computeJSONKey d)" by (auto intro: known_ok)
  then have "adds zwf cnt zdocs NewDocumentZSet (\<lambda>k. foldl (*) 1 (map snd cur) * occ out k) (set out)
      (foldM (\<lambda>r d. AddDocumentMutate r d (foldl (*) 1 (map snd cur))) NewDocumentZSet out)"
    by (intro zs.add_list) auto
  then show ?case unfolding cartesianJoin.simps Let_def out(1) bind_simps DeepCopyDocument_id
    by (rule adds_mono) (use out in \<open>auto simp: imgs_def\<close>)
next
  case (Cons z zs)
  let ?P = "foldl (*) 1 (map snd cur)"
  let ?g = "\<lambda>k0 k. ?P * msum (map cnt zs)
    (\<lambda>ks. occ (imgs eval (join_input names (map fst cur @ dk k0 # map dk ks))) k)"
  have "adds zwf cnt zdocs NewDocumentZSet (\<lambda>k. wsum (cnt z) (\<lambda>k0. ?g k0 k)) (known_docs dk)
      (cartesianJoin eval names (z # zs) cur)"
    unfolding cartesianJoin.simps
  proof (rule adds_counts)
    show "zwf z" using Cons.prems(2) [of z] by simp
    show "zwf NewDocumentZSet" by simp
    fix r k0 m assume km: "(k0, m) \<in> set (counts z)" and r: "zwf r"
    have zk: "zknown dk z" using Cons.prems(2) by simp
    have k0: "k0 \<in> keys (counts z)" using km by force
    note d = zknown_zdoc [OF zk k0] zknown_zdoc_known [OF zk k0]
    have "adds zwf cnt zdocs NewDocumentZSet (\<lambda>k. foldl (*) 1 (map snd (cur @ [(zdoc z k0, m)])) *
         msum (map cnt zs) (\<lambda>ks. occ (imgs eval (join_input names
           (map fst (cur @ [(zdoc z k0, m)]) @ map dk ks))) k))
      (known_docs dk) (cartesianJoin eval names zs (cur @ [(zdoc z k0, m)]))"
      using Cons.prems d by (intro Cons.IH) auto
    then have "adds zwf cnt zdocs NewDocumentZSet (\<lambda>k. m * ?g k0 k)
      (known_docs dk) (cartesianJoin eval names zs (cur @ [(zdoc z k0, m)]))"
      by (rule adds_mono) (auto simp: d algebra_simps)
    from bind_Add_adds [OF this r]
    show "adds zwf cnt zdocs r (\<lambda>k. m * ?g k0 k) (known_docs dk)
      ((\<lambda>(key, mult). bind (cartesianJoin eval names zs (cur @ [(zdoc z key, mult)]))
          (\<lambda>t. Add r (Some t))) (k0, m))"
      by simp
  qed
  then show ?case by (rule adds_mono) (auto simp: wsum_scale)
qed

lemma cartesianJoin_known:
  assumes "joins_known dk eval names" and "\<And>z. z \<in> set zs \<Longrightarrow> zknown dk z" and "length zs = length names"
  shows "adds zwf cnt zdocs NewDocumentZSet (join_snap dk eval names (map cnt zs)) (known_docs dk)
    (cartesianJoin eval names zs [])"
  using cartesianJoin_adds [of dk eval names zs "[]"] assms
  by (auto simp: join_snap_def join_hits_def elim!: adds_mono)

lemma JoinOp_known:
  assumes "joins_known dk eval names" and "\<And>z. z \<in> set zs \<Longrightarrow> zknown dk z" and "length zs = length names"
  obtains r where "JoinOp_Process eval names zs = Inr r" "zknown dk r"
    "\<And>k. cnt r k = join_snap dk eval names (map cnt zs) k"
  using adds_known [OF cartesianJoin_known [OF assms]] assms(3)
  by (auto simp: JoinOp_Process_def validateInputs_def)

section \<open>The incremental n-ary join\<close>

definition join_st :: "(string \<Rightarrow> doc) \<Rightarrow> evaluator \<Rightarrow> string list \<Rightarrow> zset option list \<Rightarrow> (string \<Rightarrow> gint) list \<Rightarrow> bool" where
  "join_st dk eval names ss fs \<longleftrightarrow> joins_known dk eval names \<and> length names < 63 \<and>
     length ss = length names \<and> (\<forall>s \<in> set ss. zknown dk (init_state s)) \<and> fs = map (\<lambda>s. cnt (init_state s)) ss"

definition join_okay :: "(string \<Rightarrow> doc) \<Rightarrow> string list \<Rightarrow> zset list \<Rightarrow> bool" where
  "join_okay dk names zs \<longleftrightarrow> length zs = length names \<and> (\<forall>z \<in> set zs. zknown dk z)"

text \<open>Componentwise accumulation of the deltas of the inputs.\<close>

definition join_accum :: "(string \<Rightarrow> gint) list \<Rightarrow> zset list \<Rightarrow> (string \<Rightarrow> gint) list" where
  "join_accum fs zs = map2 (\<lambda>f z k. f k + cnt z k) fs zs"

lemma update_states_ok:
  assumes "length ps = length ds" and "\<forall>z \<in> set ps \<union> set ds. zknown dk z"
  shows "\<exists>ss. update_states ps ds = (ss, Inr ()) \<and> length ss = length ps
    \<and> (\<forall>s \<in> set ss. zknown dk (init_state s))
    \<and> map (\<lambda>s. cnt (init_state s)) ss = join_accum (map cnt ps) ds"
  using assms
proof (induction ps ds rule: update_states.induct)
  case (1 p ps d ds)
  obtain c where c: "Add p (Some d) = Inr c" "zknown dk c" "\<And>k. cnt c k = cnt p k + cnt d k"
    using zknown_Add [of dk p d] 1(3) by auto
  from 1(1) [OF c(1)] 1(2,3) obtain ss where "update_states ps ds = (ss, Inr ())"
      "length ss = length ps" "\<forall>s \<in> set ss. zknown dk (init_state s)"
      "map (\<lambda>s. cnt (init_state s)) ss = join_accum (map cnt ps) ds"
    by auto
  with c show ?case by (auto simp: join_accum_def init_state_def fun_eq_iff)
qed (auto simp: join_accum_def init_state_def)

lemma mask_loop:
  assumes "joins_known dk eval names" and "\<forall>z \<in> set ps \<union> set ds. zknown dk z"
    and "length ps = length names" and "length ds = length names"
  shows "adds zwf cnt zdocs NewDocumentZSet
    (\<lambda>k. \<Sum>m \<leftarrow> ms. join_snap dk eval names (choose_by m (map cnt ps) (map cnt ds)) k) (known_docs dk)
    (foldM (\<lambda>result m. bind (computeTerm eval names ps ds m) (\<lambda>t. Add result (Some t))) NewDocumentZSet ms)"
proof -
  have term_adds: "adds zwf cnt zdocs NewDocumentZSet
      (join_snap dk eval names (choose_by m (map cnt ps) (map cnt ds))) (known_docs dk)
      (computeTerm eval names ps ds m)" for m
  proof -
    have "\<And>z. z \<in> set (choose_by m ps ds) \<Longrightarrow> zknown dk z"
      using set_choose_by [of m ps ds] assms(2) by blast
    then have "adds zwf cnt zdocs NewDocumentZSet (join_snap dk eval names (map cnt (choose_by m ps ds)))
        (known_docs dk) (cartesianJoin eval names (choose_by m ps ds) [])"
      using assms by (intro cartesianJoin_known) auto
    with assms(3,4) show ?thesis
      by (simp add: computeTerm_def choose_by_nth map_choose_by)
  qed
  have "adds zwf cnt zdocs r (join_snap dk eval names (choose_by m (map cnt ps) (map cnt ds))) (known_docs dk)
      (bind (computeTerm eval names ps ds m) (\<lambda>t. Add r (Some t)))" if "zwf r" for r m
    by (rule bind_Add_adds [OF term_adds that])
  from adds_foldM [of zwf NewDocumentZSet ms, OF zwf_New this] show ?thesis
    by (rule adds_mono) auto
qed

text \<open>The terms of all non-zero masks add up to the change of the snapshot.\<close>

lemma masks_delta:
  assumes "length fs = length ds" and "length fs < 63" and "\<forall>f \<in> set fs. finite_support f"
  shows "(\<Sum>m \<leftarrow> [1..<mask_bound (length fs)]. join_snap dk eval names (choose_by m fs (map cnt ds)) k)
    = join_snap dk eval names (join_accum fs ds) k - join_snap dk eval names fs k"
proof -
  let ?F = "\<lambda>m. join_snap dk eval names (choose_by m fs (map cnt ds)) k"
  have sup: "\<forall>f \<in> set fs \<union> set (map cnt ds). finite_support f"
    using assms(3) by auto
  have "join_accum fs ds = map2 (\<lambda>f g k. f k + g k) fs (map cnt ds)"
    by (simp add: join_accum_def zip_map2 comp_def case_prod_unfold)
  then have "join_snap dk eval names (join_accum fs ds) k = (\<Sum>m < 2 ^ length fs. ?F m)"
    using msum_expand [of fs "map cnt ds" "\<lambda>ks. join_hits dk eval names ks k"] assms(1) sup
    by (simp add: join_snap_def)
  also have "\<dots> = ?F 0 + (\<Sum>m = 1..<2 ^ length fs. ?F m)"
    by (simp add: lessThan_atLeast0 sum.atLeast_Suc_lessThan)
  also have "(\<Sum>m = 1..<2 ^ length fs. ?F m) = (\<Sum>m \<leftarrow> [1..<mask_bound (length fs)]. ?F m)"
    using assms(2) by (simp add: mask_bound_def interv_sum_list_conv_sum_set_nat)
  finally show ?thesis using assms(1) by (simp add: choose_by_0)
qed

lemma IncrementalJoin_step:
  assumes "join_st dk eval names ss fs" and "join_okay dk names ds"
  shows "\<exists>ss' r. IncrementalJoinOp_Process eval names ss ds = (ss', Inr r) \<and> zknown dk r
    \<and> join_st dk eval names ss' (join_accum fs ds)
    \<and> (\<forall>k. cnt r k = join_snap dk eval names (join_accum fs ds) k - join_snap dk eval names fs k)"
proof -
  let ?ps = "map init_state ss"
  from assms have st: "joins_known dk eval names" "length names < 63" "length ss = length names"
      "\<forall>z \<in> set ?ps \<union> set ds. zknown dk z" "map cnt ?ps = fs" "length ds = length names"
    by (auto simp: join_st_def join_okay_def)
  have loop: "adds zwf cnt zdocs NewDocumentZSet (\<lambda>k. \<Sum>m \<leftarrow> [1..<mask_bound (length names)].
         join_snap dk eval names (choose_by m (map cnt ?ps) (map cnt ds)) k) (known_docs dk)
      (foldM (\<lambda>result m. bind (computeTerm eval names ?ps ds m) (\<lambda>t. Add result (Some t)))
          NewDocumentZSet [1..<mask_bound (length names)])"
    using st(3,6) by (intro mask_loop [OF st(1,4)]) simp_all
  obtain r where
    r: "foldM (\<lambda>result m. bind (computeTerm eval names ?ps ds m) (\<lambda>t. Add result (Some t)))
          NewDocumentZSet [1..<mask_bound (length names)] = Inr r" "zknown dk r"
      "\<And>k. cnt r k = (\<Sum>m \<leftarrow> [1..<mask_bound (length names)].
         join_snap dk eval names (choose_by m (map cnt ?ps) (map cnt ds)) k)"
    using adds_known [OF loop] by blast
  obtain ss' where ss': "update_states ?ps ds = (ss', Inr ())" "length ss' = length names"
      "\<forall>s \<in> set ss'. zknown dk (init_state s)" "map (\<lambda>s. cnt (init_state s)) ss' = join_accum fs ds"
    using update_states_ok [of ?ps ds dk] st by auto
  have len: "length fs = length names" "\<forall>f \<in> set fs. finite_support f"
    using st(3,5) by auto
  have "cnt r k = join_snap dk eval names (join_accum fs ds) k - join_snap dk eval names fs k" for k
    using r(3) [of k] masks_delta [of fs ds dk eval names k] st(2,5,6) len by simp
  moreover have "join_st dk eval names ss' (join_accum fs ds)"
    using st(1,2) ss' by (simp add: join_st_def)
  moreover have "IncrementalJoinOp_Process eval names ss ds = (ss', Inr r)"
    using r(1) ss'(1) st(6) by (simp add: IncrementalJoinOp_Process_def validateInputs_def)
  ultimately show ?thesis using r(2) by blast
qed

interpretation ijoin: incremental "IncrementalJoinOp_Process eval names" "join_okay dk names"
    "join_st dk eval names" join_accum "join_snap dk eval names" for dk eval names
  using IncrementalJoin_step zknown_wf by unfold_locales blast

section \<open>The binary joins\<close>

text \<open>On two names the binary join evaluates the same tuples as the n-ary one.\<close>

lemma join_pair_eq: "join_pair [n0, n1] l r = Inr (join_input [n0, n1] [l, r])"
  by (simp add: join_pair_def join_input_def)

lemma BinaryJoin_adds:
  assumes "joins_known dk eval [n0, n1]" and "zknown dk a" and "zknown dk b"
  shows "adds zwf cnt zdocs NewDocumentZSet (join_snap dk eval [n0, n1] [cnt a, cnt b]) (known_docs dk)
    (BinaryJoinOp_Process eval [n0, n1] [a, b])"
proof -
  let ?h = "\<lambda>k0 k1 k. join_hits dk eval [n0, n1] [k0, k1] k"
  have pair: "adds zwf cnt zdocs r (\<lambda>k. m1 * (m0 * ?h k0 k1 k)) (known_docs dk)
      (bind (join_pair [n0, n1] (zdoc a k0) (zdoc b k1)) (\<lambda>j. bind (eval j) (\<lambda>ds.
         foldM (\<lambda>r d. AddDocument r (DeepCopyDocument d) (m0 * m1)) r ds)))"
    if r: "zwf r" and k0: "k0 \<in> keys (counts a)" and k1: "k1 \<in> keys (counts b)" for r k0 k1 m0 m1
  proof -
    note d = zknown_zdoc [OF assms(2) k0] zknown_zdoc_known [OF assms(2) k0]
      zknown_zdoc [OF assms(3) k1] zknown_zdoc_known [OF assms(3) k1]
    from assms(1) [unfolded joins_known_def, rule_format, of "[dk k0, dk k1]"] d
    obtain out where out: "eval (join_input [n0, n1] [dk k0, dk k1]) = Inr out" "\<forall>x \<in> set out. known dk x"
      by auto
    then have "adds zwf cnt zdocs r (\<lambda>k. m0 * m1 * occ out k) (set out)
        (foldM (\<lambda>r d. AddDocumentMutate r d (m0 * m1)) r out)"
      using r by (intro zs.add_list) (auto intro: known_ok)
    then have "adds zwf cnt zdocs r (\<lambda>k. m1 * (m0 * ?h k0 k1 k)) (known_docs dk)
        (foldM (\<lambda>r d. AddDocumentMutate r d (m0 * m1)) r out)"
      by (rule adds_mono) (use out in \<open>auto simp: join_hits_def imgs_def\<close>)
    with out(1) d show ?thesis by (simp add: join_pair_eq)
  qed
  have row: "adds zwf cnt zdocs r (\<lambda>k. m0 * wsum (cnt b) (\<lambda>k1. ?h k0 k1 k)) (known_docs dk)
      (foldM (\<lambda>r (k1, m1). bind (join_pair [n0, n1] (zdoc a k0) (zdoc b k1)) (\<lambda>j. bind (eval j) (\<lambda>ds.
         foldM (\<lambda>r d. AddDocument r (DeepCopyDocument d) (m0 * m1)) r ds))) r (counts b))"
    if "zwf r" "k0 \<in> keys (counts a)" for r k0 m0
  proof (rule adds_mono)
    show "adds zwf cnt zdocs r (\<lambda>k. wsum (cnt b) (\<lambda>k1. m0 * ?h k0 k1 k)) (known_docs dk)
      (foldM (\<lambda>r (k1, m1). bind (join_pair [n0, n1] (zdoc a k0) (zdoc b k1)) (\<lambda>j. bind (eval j) (\<lambda>ds.
         foldM (\<lambda>r d. AddDocument r (DeepCopyDocument d) (m0 * m1)) r ds))) r (counts b))"
      using that assms(3) pair by (intro adds_counts) (auto simp: rev_image_eqI)
  qed (simp_all add: wsum_scale)
  have "adds zwf cnt zdocs NewDocumentZSet (\<lambda>k. wsum (cnt a) (\<lambda>k0. wsum (cnt b) (\<lambda>k1. ?h k0 k1 k)))
      (known_docs dk) (BinaryJoinOp_Process eval [n0, n1] [a, b])"
    unfolding BinaryJoinOp_Process_def using assms(2) row
    by (auto simp: rev_image_eqI intro!: adds_counts)
  then show ?thesis by (rule adds_mono) (simp_all add: join_snap_def)
qed

text \<open>The binary join computes what the n-ary join of two inputs computes.\<close>

lemma BinaryJoin_is_join:
  assumes "joins_known dk eval [n0, n1]" and "zknown dk a" and "zknown dk b"
  shows "\<exists>r r'. BinaryJoinOp_Process eval [n0, n1] [a, b] = Inr r \<and> JoinOp_Process eval [n0, n1] [a, b] = Inr r'
    \<and> zknown dk r \<and> zknown dk r' \<and> (\<forall>k. cnt r k = cnt r' k)"
proof -
  obtain r where "BinaryJoinOp_Process eval [n0, n1] [a, b] = Inr r" "zknown dk r"
      "\<And>k. cnt r k = join_snap dk eval [n0, n1] [cnt a, cnt b] k"
    using adds_known [OF BinaryJoin_adds [OF assms]] by blast
  moreover obtain r' where "JoinOp_Process eval [n0, n1] [a, b] = Inr r'" "zknown dk r'"
      "\<And>k. cnt r' k = join_snap dk eval [n0, n1] (map cnt [a, b]) k"
    using JoinOp_known [OF assms(1), of "[a, b]"] assms(2,3) by force
  ultimately show ?thesis by auto
qed

definition binary_join_st ::
    "(string \<Rightarrow> doc) \<Rightarrow> evaluator \<Rightarrow> string list \<Rightarrow> binary_join_state \<Rightarrow> (string \<Rightarrow> gint) list \<Rightarrow> bool" where
  "binary_join_st dk eval names s fs \<longleftrightarrow> joins_known dk eval names \<and> length names = 2 \<and>
     (\<exists>l r. prevLeft s = Some l \<and> prevRight s = Some r \<and> zknown dk l \<and> zknown dk r \<and> fs = [cnt l, cnt r])"

lemma join_snap_2:
  assumes "finite_support f" "finite_support f'" "finite_support g" "finite_support g'"
  shows "join_snap dk eval names [\<lambda>k. f k + f' k, \<lambda>k. g k + g' k] k =
    join_snap dk eval names [f', g'] k + join_snap dk eval names [f, g'] k
    + join_snap dk eval names [f', g] k + join_snap dk eval names [f, g] k"
  using assms by (simp add: join_snap_def wsum_add wsum_right_add algebra_simps)

lemma incremental_binary_terms_ok:
  assumes "joins_known dk eval [n0, n1]" and "prevLeft s = Some l" and "prevRight s = Some r"
    and known: "zknown dk l" "zknown dk r" "zknown dk dl" "zknown dk dr"
  obtains t where "incremental_binary_terms eval [n0, n1] s dl dr = Inr t" "zknown dk t"
    "\<And>k. cnt t k = join_snap dk eval [n0, n1] [\<lambda>k. cnt l k + cnt dl k, \<lambda>k. cnt r k + cnt dr k] k
      - join_snap dk eval [n0, n1] [cnt l, cnt r] k"
proof -
  note J = adds_known [OF BinaryJoin_adds [OF assms(1)]]
  obtain t1 where t1: "BinaryJoinOp_Process eval [n0, n1] [dl, dr] = Inr t1" "zknown dk t1"
      "\<And>k. cnt t1 k = join_snap dk eval [n0, n1] [cnt dl, cnt dr] k"
    using J [OF known(3,4)] by blast
  obtain t2 where t2: "BinaryJoinOp_Process eval [n0, n1] [l, dr] = Inr t2" "zknown dk t2"
      "\<And>k. cnt t2 k = join_snap dk eval [n0, n1] [cnt l, cnt dr] k"
    using J [OF known(1,4)] by blast
  obtain t3 where t3: "BinaryJoinOp_Process eval [n0, n1] [dl, r] = Inr t3" "zknown dk t3"
      "\<And>k. cnt t3 k = join_snap dk eval [n0, n1] [cnt dl, cnt r] k"
    using J [OF known(3,2)] by blast
  obtain u where u: "Add t1 (Some t2) = Inr u" "zknown dk u" "\<And>k. cnt u k = cnt t1 k + cnt t2 k"
    using zknown_Add [OF t1(2) t2(2)] by blast
  obtain t where t: "Add u (Some t3) = Inr t" "zknown dk t" "\<And>k. cnt t k = cnt u k + cnt t3 k"
    using zknown_Add [OF u(2) t3(2)] by blast
  show thesis
  proof (rule that)
    show "incremental_binary_terms eval [n0, n1] s dl dr = Inr t"
      using t1(1) t2(1) t3(1) u(1) t(1) assms(2,3) by (simp add: incremental_binary_terms_def)
  qed (simp_all add: t u t1 t2 t3 join_snap_2)
qed

lemma IncrementalBinaryJoin_step:
  assumes "binary_join_st dk eval names s fs" and "join_okay dk names ds"
  shows "\<exists>s' r. IncrementalBinaryJoinOp_Process eval names s ds = (s', Inr r) \<and> zknown dk r
    \<and> binary_join_st dk eval names s' (join_accum fs ds)
    \<and> (\<forall>k. cnt r k = join_snap dk eval names (join_accum fs ds) k - join_snap dk eval names fs k)"
proof -
  from assms obtain n0 n1 dl dr l r where names: "names = [n0, n1]" and ds: "ds = [dl, dr]"
    and s: "prevLeft s = Some l" "prevRight s = Some r" and fs: "fs = [cnt l, cnt r]"
    and j: "joins_known dk eval [n0, n1]"
    and known: "zknown dk l" "zknown dk r" "zknown dk dl" "zknown dk dr"
    by (auto simp: binary_join_st_def join_okay_def length_Suc_conv numeral_2_eq_2)
  obtain t where t: "incremental_binary_terms eval [n0, n1] s dl dr = Inr t" "zknown dk t"
      "\<And>k. cnt t k = join_snap dk eval [n0, n1] [\<lambda>k. cnt l k + cnt dl k, \<lambda>k. cnt r k + cnt dr k] k
        - join_snap dk eval [n0, n1] [cnt l, cnt r] k"
    using incremental_binary_terms_ok [OF j s known] by blast
  obtain l' where l': "Add l (Some dl) = Inr l'" "zknown dk l'" "\<And>k. cnt l' k = cnt l k + cnt dl k"
    using zknown_Add [OF known(1,3)] by blast
  obtain r' where r': "Add r (Some dr) = Inr r'" "zknown dk r'" "\<And>k. cnt r' k = cnt r k + cnt dr k"
    using zknown_Add [OF known(2,4)] by blast
  have acc: "join_accum fs ds = [cnt l', cnt r']"
    by (simp add: join_accum_def fs ds l'(3) r'(3) fun_eq_iff)
  have "IncrementalBinaryJoinOp_Process eval names s ds =
      (s\<lparr>prevLeft := Some l', prevRight := Some r'\<rparr>, Inr t)"
    using t(1) l'(1) r'(1) s by (simp add: IncrementalBinaryJoinOp_Process_def names ds)
  moreover have "binary_join_st dk eval names (s\<lparr>prevLeft := Some l', prevRight := Some r'\<rparr>) (join_accum fs ds)"
    using j l'(2) r'(2) by (simp add: binary_join_st_def names acc)
  moreover have "cnt l' = (\<lambda>k. cnt l k + cnt dl k)" "cnt r' = (\<lambda>k. cnt r k + cnt dr k)"
    using l'(3) r'(3) by blast+
  ultimately show ?thesis using t(2,3) by (auto simp: names fs acc [unfolded fs])
qed

interpretation ibjoin: incremental "IncrementalBinaryJoinOp_Process eval names" "join_okay dk names"
    "binary_join_st dk eval names" join_accum "join_snap dk eval names" for dk eval names
  using IncrementalBinaryJoin_step zknown_wf by unfold_locales blast

text \<open>The join of empty inputs.\<close>

lemma join_snap_zero: "fs \<noteq> [] \<Longrightarrow> (\<And>f. f \<in> set fs \<Longrightarrow> f = (\<lambda>_. 0)) \<Longrightarrow> join_snap dk eval names fs k = 0"
proof (cases fs)
  case (Cons f fs')
  assume "\<And>f. f \<in> set fs \<Longrightarrow> f = (\<lambda>_. 0)"
  from this [of f] Cons show ?thesis by (simp add: join_snap_def)
qed simp

end
