(* ===== verification/Ops_Nonlinear.thy ===== *)
theory Ops_Nonlinear
  imports Op_Base
begin

text \<open>
  Package \<^verbatim>\<open>dbsp\<close>, file \<^verbatim>\<open>op_nonlinear.go\<close>: the gather operator, which groups documents by an
  extracted key, collects an extracted value per document and aggregates each group into one
  document.  The snapshot operator regroups its whole input; the incremental one keeps the
  groups as state and retracts and re-emits the documents of the groups a delta touches.
\<close>

section \<open>Operations\<close>

record GroupData =
  gd_Key :: gval
  gd_Values :: "gval list"
  gd_Document :: doc

record AggregateInput =
  ai_Key :: gval
  ai_Values :: "gval list"

type_synonym aggregator = "doc \<Rightarrow> AggregateInput \<Rightarrow> doc res"
type_synonym groups = "(string \<times> GroupData) list"

definition abs_int :: "gint \<Rightarrow> gint" where
  "abs_int x = (if ineg x then - x else x)"

text \<open>\<^verbatim>\<open>for i := 0; i < n; i++\<close>: no iteration for a negative bound.\<close>

definition times :: "gint \<Rightarrow> nat" where
  "times n = nat (sint n)"

text \<open>Errors of the two key computations are ignored; the key is then the empty string.\<close>

definition match_key :: "gval \<Rightarrow> string" where
  "match_key v = (case computeJSONAny v of Inl _ \<Rightarrow> [] | Inr k \<Rightarrow> k)"

fun removeFirstMatch :: "gval list \<Rightarrow> gval \<Rightarrow> gval list" where
  "removeFirstMatch [] item = []"
| "removeFirstMatch (v # rest) item =
     (if match_key v = match_key item then rest else v # removeFirstMatch rest item)"

text \<open>Key and value of a document; \<^term>\<open>None\<close> when the document is skipped.\<close>

definition gather_extract :: "extractor \<Rightarrow> extractor \<Rightarrow> doc \<Rightarrow> (gval \<times> gval) option res" where
  "gather_extract ke ve d =
     bind (rewrap ''key extraction failed'' (ke d)) (\<lambda>groupKey.
       if groupKey = VNil then Inr None
       else bind (rewrap ''value extraction failed'' (ve d)) (\<lambda>val.
         if val = VNil then Inr None else Inr (Some (groupKey, val))))"

fun gather_entry :: "extractor \<Rightarrow> extractor \<Rightarrow> zset \<Rightarrow> groups \<Rightarrow> string \<times> gint \<Rightarrow> groups res" where
  "gather_entry ke ve input groups (key, multiplicity) =
     bind (gather_extract ke ve (zdoc input key)) (\<lambda>kv.
       case kv of None \<Rightarrow> Inr groups
       | Some (groupKey, val) \<Rightarrow>
           bind (computeJSONAny groupKey) (\<lambda>keyForMap.
             let group = (case map_of groups keyForMap of
                   Some g \<Rightarrow> g
                 | None \<Rightarrow> \<lparr>gd_Key = groupKey, gd_Values = [], gd_Document = zdoc input key\<rparr>);
                 vals = (if ipos multiplicity then gd_Values group @ replicate (times multiplicity) val
                   else if ineg multiplicity
                   then ((\<lambda>vs. removeFirstMatch vs val) ^^ times (- multiplicity)) (gd_Values group)
                   else gd_Values group)
             in Inr (AList.update keyForMap (group\<lparr>gd_Values := vals\<rparr>) groups)))"

text \<open>Step 2: one document per group, whatever order the map is iterated in.\<close>

definition aggregate_groups :: "aggregator \<Rightarrow> groups \<Rightarrow> zset res" where
  "aggregate_groups ag groups =
     foldM (\<lambda>result (_, groupData).
         bind (rewrap ''aggregation failed''
             (ag (DeepCopyDocument (gd_Document groupData))
                \<lparr>ai_Key = gd_Key groupData, ai_Values = gd_Values groupData\<rparr>)) (\<lambda>resultDoc.
           rewrap ''failed to add result document'' (AddDocumentMutate result resultDoc 1)))
       NewDocumentZSet groups"

definition GatherOp_Process :: "extractor \<Rightarrow> extractor \<Rightarrow> aggregator \<Rightarrow> zset list \<Rightarrow> zset res" where
  "GatherOp_Process ke ve ag inputs =
     bind (validateInputs 1 inputs) (\<lambda>_.
       let input = inputs ! 0 in
       bind (foldM (gather_entry ke ve input) [] (counts input)) (aggregate_groups ag))"

text \<open>The values of a group after \<open>multiplicity\<close> additions or removals of \<open>val\<close>.\<close>

definition change_values :: "gint \<Rightarrow> gval \<Rightarrow> gval list \<Rightarrow> gval list" where
  "change_values multiplicity val vs =
     (let n = times (abs_int multiplicity) in
      if ipos multiplicity then vs @ replicate n val
      else ((\<lambda>vs. removeFirstMatch vs val) ^^ n) vs)"

text \<open>
  One document of a delta: retract the old aggregate of its group, emit the new one, update
  the group or remove it when no value is left.
\<close>

definition inc_gather_doc ::
    "aggregator \<Rightarrow> groups \<Rightarrow> zset \<Rightarrow> doc \<Rightarrow> gint \<Rightarrow> gval \<Rightarrow> gval \<Rightarrow> string \<Rightarrow> (groups \<times> zset) res" where
  "inc_gather_doc ag groups result d multiplicity groupKey val groupKeyStr =
     (let oldValues = (case map_of groups groupKeyStr of Some g \<Rightarrow> gd_Values g | None \<Rightarrow> []);
          rep = (case map_of groups groupKeyStr of Some g \<Rightarrow> gd_Document g | None \<Rightarrow> DeepCopyDocument d)
      in bind (if oldValues \<noteq> []
           then rewrap ''old aggregation failed''
             (ag (DeepCopyDocument rep) \<lparr>ai_Key = groupKey, ai_Values = oldValues\<rparr>)
           else Inr []) (\<lambda>oldResultDoc.
         let newValues = change_values multiplicity val oldValues
         in bind (if newValues \<noteq> []
              then rewrap ''new aggregation failed''
                (ag (DeepCopyDocument rep) \<lparr>ai_Key = groupKey, ai_Values = newValues\<rparr>)
              else Inr []) (\<lambda>newResultDoc.
            bind (if oldValues \<noteq> [] then AddDocumentMutate result oldResultDoc (- 1) else Inr result) (\<lambda>result.
            bind (if newValues \<noteq> [] then AddDocumentMutate result newResultDoc 1 else Inr result) (\<lambda>result.
              Inr (if newValues \<noteq> []
                   then AList.update groupKeyStr
                     \<lparr>gd_Key = groupKey, gd_Values = newValues, gd_Document = rep\<rparr> groups
                   else AList.delete groupKeyStr groups, result))))))"

definition inc_gather_entry ::
    "extractor \<Rightarrow> extractor \<Rightarrow> aggregator \<Rightarrow> groups \<Rightarrow> zset \<Rightarrow> doc \<Rightarrow> gint \<Rightarrow> (groups \<times> zset) res" where
  "inc_gather_entry ke ve ag groups result d multiplicity =
     bind (gather_extract ke ve d) (\<lambda>kv.
       case kv of None \<Rightarrow> Inr (groups, result)
       | Some (groupKey, val) \<Rightarrow>
           bind (rewrap ''failed to compute group key'' (computeJSONAny groupKey)) (\<lambda>groupKeyStr.
             inc_gather_doc ag groups result d multiplicity groupKey val groupKeyStr))"

text \<open>The loop over the delta; on an error the groups updated so far stay updated.\<close>

fun inc_gather_loop ::
    "extractor \<Rightarrow> extractor \<Rightarrow> aggregator \<Rightarrow> zset \<Rightarrow> groups \<Rightarrow> zset \<Rightarrow> (string \<times> gint) list \<Rightarrow> groups \<times> zset res" where
  "inc_gather_loop ke ve ag input groups result [] = (groups, Inr result)"
| "inc_gather_loop ke ve ag input groups result ((key, multiplicity) # rest) =
     (case inc_gather_entry ke ve ag groups result (zdoc input key) multiplicity of
        Inl e \<Rightarrow> (groups, Inl e)
      | Inr (groups', result') \<Rightarrow> inc_gather_loop ke ve ag input groups' result' rest)"

definition IncrementalGatherOp_Process ::
    "extractor \<Rightarrow> extractor \<Rightarrow> aggregator \<Rightarrow> groups \<Rightarrow> zset list \<Rightarrow> groups \<times> zset res" where
  "IncrementalGatherOp_Process ke ve ag currentGroups inputs =
     (case validateInputs 1 inputs of
        Inl e \<Rightarrow> (currentGroups, Inl e)
      | Inr _ \<Rightarrow> inc_gather_loop ke ve ag (inputs ! 0) currentGroups NewDocumentZSet (counts (inputs ! 0)))"

section \<open>Removing values\<close>

lemma removeFirstMatch_count:
  "length (filter (\<lambda>v. match_key v = k) (removeFirstMatch vs x)) =
     length (filter (\<lambda>v. match_key v = k) vs) - (if match_key x = k then 1 else 0)"
  by (induction vs) auto

lemma removeFirstMatch_times_count:
  "length (filter (\<lambda>v. match_key v = k) (((\<lambda>vs. removeFirstMatch vs x) ^^ n) vs)) =
     length (filter (\<lambda>v. match_key v = k) vs) - (if match_key x = k then n else 0)"
  by (induction n) (auto simp: removeFirstMatch_count)

lemma removeFirstMatch_set: "set (removeFirstMatch vs x) \<subseteq> set vs"
  by (induction vs) auto

lemma removeFirstMatch_times_set: "set (((\<lambda>vs. removeFirstMatch vs x) ^^ n) vs) \<subseteq> set vs"
  by (induction n) (use removeFirstMatch_set in fastforce)+

section \<open>The incremental output maintains the aggregates\<close>

text \<open>
  Documents the operator can process: skipped, or with a key and a value that can be printed;
  \<open>kk\<close> gives the one key in use for each printed key (the integer 1 and the float 1.0 print
  alike).
\<close>

definition gatherable :: "(string \<Rightarrow> gval) \<Rightarrow> extractor \<Rightarrow> extractor \<Rightarrow> doc \<Rightarrow> bool" where
  "gatherable kk ke ve d \<longleftrightarrow> jsonable (VMap d) \<and>
     (gather_extract ke ve d = Inr None \<or>
      (\<exists>g v s. gather_extract ke ve d = Inr (Some (g, v)) \<and> computeJSONAny g = Inr s \<and> kk s = g \<and> jsonable v))"

definition aggregates :: "aggregator \<Rightarrow> bool" where
  "aggregates ag \<longleftrightarrow> (\<forall>d g vs. jsonable (VMap d) \<longrightarrow> jsonable g \<longrightarrow> (\<forall>v \<in> set vs. jsonable v) \<longrightarrow>
     (\<exists>x. ag d \<lparr>ai_Key = g, ai_Values = vs\<rparr> = Inr x \<and> jsonable (VMap x)))"

text \<open>The state invariant: no empty group, keys agree with the dictionary.\<close>

definition group_ok :: "(string \<Rightarrow> gval) \<Rightarrow> string \<Rightarrow> GroupData \<Rightarrow> bool" where
  "group_ok kk s g \<longleftrightarrow> gd_Key g = kk s \<and> jsonable (kk s) \<and> jsonable (VMap (gd_Document g)) \<and>
     gd_Values g \<noteq> [] \<and> (\<forall>v \<in> set (gd_Values g). jsonable v)"

definition groups_ok :: "(string \<Rightarrow> gval) \<Rightarrow> groups \<Rightarrow> bool" where
  "groups_ok kk gs \<longleftrightarrow> distinct (map fst gs) \<and> (\<forall>s g. (s, g) \<in> set gs \<longrightarrow> group_ok kk s g)"

text \<open>What a group contributes to the aggregated output under the key \<open>k\<close>.\<close>

definition group_hit :: "aggregator \<Rightarrow> GroupData \<Rightarrow> string \<Rightarrow> gint" where
  "group_hit ag g k = (case ag (gd_Document g) \<lparr>ai_Key = gd_Key g, ai_Values = gd_Values g\<rparr> of
     Inl _ \<Rightarrow> 0 | Inr x \<Rightarrow> hit x k)"

definition gather_snap :: "aggregator \<Rightarrow> groups \<Rightarrow> string \<Rightarrow> gint" where
  "gather_snap ag gs k = (\<Sum>(s, g) \<leftarrow> gs. group_hit ag g k)"

definition group_snap :: "aggregator \<Rightarrow> groups \<Rightarrow> string \<Rightarrow> string \<Rightarrow> gint" where
  "group_snap ag gs s k = (case map_of gs s of None \<Rightarrow> 0 | Some g \<Rightarrow> group_hit ag g k)"

lemma gather_snap_delete:
  "distinct (map fst gs) \<Longrightarrow> gather_snap ag (AList.delete s gs) k = gather_snap ag gs k - group_snap ag gs s k"
proof (induction gs)
  case (Cons e gs)
  obtain s' g where e: "e = (s', g)" by (cases e)
  have "s \<notin> keys gs \<Longrightarrow> AList.delete s gs = gs" by (rule delete_id)
  with Cons e show ?case by (auto simp: gather_snap_def group_snap_def)
qed (simp add: gather_snap_def group_snap_def)

lemma gather_snap_update:
  "distinct (map fst gs) \<Longrightarrow>
   gather_snap ag (AList.update s g gs) k = gather_snap ag gs k - group_snap ag gs s k + group_hit ag g k"
proof (induction gs)
  case (Cons e gs)
  obtain s' g' where e: "e = (s', g')" by (cases e)
  with Cons show ?case by (auto simp: gather_snap_def group_snap_def)
qed (simp add: gather_snap_def group_snap_def)

lemma jsonable_key: "jsonable (VMap x) \<Longrightarrow> \<exists>k. computeJSONKey x = Inr k"
  using computeJSONKey_ok [of x] by (auto simp: is_ok_iff)

lemma computeJSONAny_ok: "computeJSONAny g = Inr s \<Longrightarrow> jsonable g"
  using json_val_ok [of g] by (auto simp: computeJSONAny_def simp del: jsonable.simps)

lemma groups_okD:
  "groups_ok kk gs \<Longrightarrow> map_of gs s = Some g \<Longrightarrow> group_ok kk s g"
  by (auto simp: groups_ok_def dest: map_of_SomeD)

lemma groups_ok_update: "groups_ok kk gs \<Longrightarrow> group_ok kk s g \<Longrightarrow> groups_ok kk (AList.update s g gs)"
  by (auto simp: groups_ok_def distinct_update set_update)

lemma groups_ok_delete: "groups_ok kk gs \<Longrightarrow> groups_ok kk (AList.delete s gs)"
  by (auto simp: groups_ok_def distinct_delete set_delete)

text \<open>Retracting or emitting the aggregate of a possibly empty group.\<close>

lemma emit_adds:
  assumes "aggregates ag" and "zwf r" and "jsonable (VMap d)" and "jsonable g" and "\<forall>v \<in> set vs. jsonable v"
  shows "\<exists>x. (if vs \<noteq> [] then rewrap m (ag d \<lparr>ai_Key = g, ai_Values = vs\<rparr>) else Inr []) = Inr x \<and>
    (\<forall>r. zwf r \<longrightarrow> adds zwf cnt zdocs r
      (\<lambda>k. if vs = [] then 0 else n * group_hit ag \<lparr>gd_Key = g, gd_Values = vs, gd_Document = d\<rparr> k) UNIV
      (if vs \<noteq> [] then AddDocumentMutate r x n else Inr r))"
proof (cases "vs = []")
  case False
  from assms(1,3-5) obtain x where x: "ag d \<lparr>ai_Key = g, ai_Values = vs\<rparr> = Inr x" "jsonable (VMap x)"
    unfolding aggregates_def by blast
  from jsonable_key [OF x(2)] obtain k where k: "computeJSONKey x = Inr k" ..
  have "adds zwf cnt zdocs r (\<lambda>k. n * hit x k) UNIV (AddDocumentMutate r x n)" if "zwf r" for r
    by (rule adds_mono [OF AddDocumentMutate_adds [OF that k]]) auto
  with x False show ?thesis by (simp add: group_hit_def)
qed (simp add: adds_def)

text \<open>The values of a group, and how many of them print as \<open>vk\<close>.\<close>

definition vals :: "groups \<Rightarrow> string \<Rightarrow> gval list" where
  "vals gs s = (case map_of gs s of None \<Rightarrow> [] | Some g \<Rightarrow> gd_Values g)"

definition vcount :: "groups \<Rightarrow> string \<Rightarrow> string \<Rightarrow> nat" where
  "vcount gs s vk = length (filter (\<lambda>v. match_key v = vk) (vals gs s))"

lemma change_values_jsonable:
  "jsonable v \<Longrightarrow> \<forall>x \<in> set vs. jsonable x \<Longrightarrow> \<forall>x \<in> set (change_values m v vs). jsonable x"
  using removeFirstMatch_times_set [where x = v and vs = vs] by (auto simp: change_values_def Let_def)

lemma inc_gather_doc_step:
  assumes "aggregates ag" and gs: "groups_ok kk gs" and "zwf r" and d: "jsonable (VMap d)"
    and s: "computeJSONAny g = Inr s" "kk s = g" and v: "jsonable v"
  shows "\<exists>gs' r'. inc_gather_doc ag gs r d m g v s = Inr (gs', r') \<and> groups_ok kk gs' \<and> zwf r'
    \<and> (\<forall>k. cnt r' k = cnt r k + (gather_snap ag gs' k - gather_snap ag gs k))
    \<and> (\<forall>t. vals gs' t = (if t = s then change_values m v (vals gs s) else vals gs t))"
proof -
  let ?old = "vals gs s" and ?new = "change_values m v (vals gs s)"
  let ?rep = "case map_of gs s of Some g \<Rightarrow> gd_Document g | None \<Rightarrow> d"
  let ?gd = "\<lambda>vs. \<lparr>gd_Key = g, gd_Values = vs, gd_Document = ?rep\<rparr>"
  have jg: "jsonable g" using s(1) by (rule computeJSONAny_ok)
  have ok: "jsonable (VMap ?rep)" "\<forall>x \<in> set ?old. jsonable x"
    using groups_okD [OF gs, of s] d
    by (cases "map_of gs s"; auto simp: vals_def group_ok_def simp del: jsonable.simps)+
  note okn = change_values_jsonable [OF v ok(2), of m]
  have dist: "distinct (map fst gs)" using gs by (simp add: groups_ok_def)
  have old: "group_snap ag gs s k = (if ?old = [] then 0 else group_hit ag (?gd ?old) k)" for k
    using groups_okD [OF gs, of s] s(2)
    by (auto simp: group_snap_def vals_def group_ok_def group_hit_def split: option.splits)
  obtain x where x: "(if ?old \<noteq> [] then rewrap ''old aggregation failed''
        (ag ?rep \<lparr>ai_Key = g, ai_Values = ?old\<rparr>) else Inr []) = Inr x"
      "\<And>r. zwf r \<Longrightarrow> adds zwf cnt zdocs r
      (\<lambda>k. if ?old = [] then 0 else - 1 * group_hit ag (?gd ?old) k) UNIV
      (if ?old \<noteq> [] then AddDocumentMutate r x (- 1) else Inr r)"
    using emit_adds [OF assms(1,3) ok(1) jg ok(2)] by metis
  obtain y where y: "(if ?new \<noteq> [] then rewrap ''new aggregation failed''
        (ag ?rep \<lparr>ai_Key = g, ai_Values = ?new\<rparr>) else Inr []) = Inr y"
      "\<And>r. zwf r \<Longrightarrow> adds zwf cnt zdocs r
      (\<lambda>k. if ?new = [] then 0 else 1 * group_hit ag (?gd ?new) k) UNIV
      (if ?new \<noteq> [] then AddDocumentMutate r y 1 else Inr r)"
    using emit_adds [OF assms(1,3) ok(1) jg okn] by metis
  obtain r1 where r1: "(if ?old \<noteq> [] then AddDocumentMutate r x (- 1) else Inr r) = Inr r1" "zwf r1"
      "\<And>k. cnt r1 k = cnt r k - group_snap ag gs s k"
    using x(2) [OF assms(3)] by (auto simp: adds_def old)
  obtain r2 where r2: "(if ?new \<noteq> [] then AddDocumentMutate r1 y 1 else Inr r1) = Inr r2" "zwf r2"
      "\<And>k. cnt r2 k = cnt r1 k + (if ?new = [] then 0 else group_hit ag (?gd ?new) k)"
    using y(2) [OF r1(2)] by (auto simp: adds_def)
  let ?gs' = "if ?new \<noteq> [] then AList.update s (?gd ?new) gs else AList.delete s gs"
  have "inc_gather_doc ag gs r d m g v s = Inr (?gs', r2)"
    using x(1) y(1) r1(1) r2(1)
    unfolding inc_gather_doc_def Let_def vals_def [symmetric] DeepCopyDocument_id
    by simp
  moreover have "groups_ok kk ?gs'"
    using gs ok(1) okn jg s(2) by (auto simp: group_ok_def intro: groups_ok_update groups_ok_delete)
  moreover have "cnt r2 k = cnt r k + (gather_snap ag ?gs' k - gather_snap ag gs k)" for k
    using r1(3) [of k] r2(3) [of k] by (simp add: gather_snap_update gather_snap_delete dist)
  moreover have "vals ?gs' t = (if t = s then ?new else vals gs t)" for t
    by (auto simp: vals_def update_conv' delete_conv')
  ultimately show ?thesis using r2(2) by blast
qed

section \<open>A whole delta\<close>

definition gather_st :: "(string \<Rightarrow> gval) \<Rightarrow> aggregator \<Rightarrow> groups \<Rightarrow> groups \<Rightarrow> bool" where
  "gather_st kk ag gs a \<longleftrightarrow> aggregates ag \<and> groups_ok kk gs \<and> a = gs"

definition gather_okay :: "(string \<Rightarrow> gval) \<Rightarrow> extractor \<Rightarrow> extractor \<Rightarrow> zset \<Rightarrow> bool" where
  "gather_okay kk ke ve z \<longleftrightarrow> zwf z \<and> (\<forall>d \<in> zdocs z. gatherable kk ke ve d)"

text \<open>The group and the printed value a document counts for.\<close>

definition slot :: "extractor \<Rightarrow> extractor \<Rightarrow> doc \<Rightarrow> (string \<times> string) option" where
  "slot ke ve d = (case gather_extract ke ve d of
     Inr (Some (g, v)) \<Rightarrow> (case computeJSONAny g of Inr s \<Rightarrow> Some (s, match_key v) | Inl _ \<Rightarrow> None)
   | _ \<Rightarrow> None)"

lemma sint_minus: "- (2 ^ 63) < sint m \<Longrightarrow> sint (- m) = - sint m" for m :: gint
  using sint_lt [of m] by (subst sint_word_ariths) (auto intro: signed_take_bit_int_eq_self)

lemma change_values_count:
  assumes "- (2 ^ 63) < sint m"
  shows "length (filter (\<lambda>x. match_key x = k) (change_values m v vs)) =
    (if match_key v = k then nat (int (length (filter (\<lambda>x. match_key x = k) vs)) + sint m)
     else length (filter (\<lambda>x. match_key x = k) vs))"
  using sint_minus [OF assms]
  by (auto simp: change_values_def Let_def removeFirstMatch_times_count times_def abs_int_def filter_replicate)

lemma inc_gather_entry_step:
  assumes "aggregates ag" and "groups_ok kk gs" and "zwf r" and d: "gatherable kk ke ve d"
  shows "\<exists>gs' r'. inc_gather_entry ke ve ag gs r d m = Inr (gs', r') \<and> groups_ok kk gs' \<and> zwf r'
    \<and> (\<forall>k. cnt r' k = cnt r k + (gather_snap ag gs' k - gather_snap ag gs k))
    \<and> (- (2 ^ 63) < sint m \<longrightarrow> (\<forall>s vk. vcount gs' s vk =
        (if slot ke ve d = Some (s, vk) then nat (int (vcount gs s vk) + sint m) else vcount gs s vk)))"
proof (cases "gather_extract ke ve d = Inr None")
  case True
  with assms(2,3) show ?thesis by (simp add: inc_gather_entry_def slot_def)
next
  case False
  with d obtain g v s where g: "gather_extract ke ve d = Inr (Some (g, v))" "computeJSONAny g = Inr s"
      "kk s = g" "jsonable v" "jsonable (VMap d)"
    by (auto simp: gatherable_def simp del: jsonable.simps)
  from inc_gather_doc_step [OF assms(1-3) g(5,2,3,4), of m] obtain gs' r' where
    s: "inc_gather_doc ag gs r d m g v s = Inr (gs', r')" "groups_ok kk gs'" "zwf r'"
      "\<forall>k. cnt r' k = cnt r k + (gather_snap ag gs' k - gather_snap ag gs k)"
      "\<forall>t. vals gs' t = (if t = s then change_values m v (vals gs s) else vals gs t)"
    by blast
  have "inc_gather_entry ke ve ag gs r d m = Inr (gs', r')"
    using g(1,2) s(1) by (simp add: inc_gather_entry_def)
  moreover have "vcount gs' t vk =
      (if slot ke ve d = Some (t, vk) then nat (int (vcount gs t vk) + sint m) else vcount gs t vk)"
    if "- (2 ^ 63) < sint m" for t vk
    using change_values_count [OF that, of vk v "vals gs s"] s(5) g(1,2) by (auto simp: vcount_def slot_def)
  ultimately show ?thesis using s(2-4) by blast
qed

text \<open>What the entries \<open>es\<close> of a delta add to a slot, and what they take out of it at most.\<close>

definition slot_sum :: "(int \<Rightarrow> int) \<Rightarrow> extractor \<Rightarrow> extractor \<Rightarrow> zset \<Rightarrow> (string \<times> gint) list \<Rightarrow> string \<Rightarrow> string \<Rightarrow> int" where
  "slot_sum h ke ve z es s vk =
     (\<Sum>(k, m) \<leftarrow> es. if slot ke ve (zdoc z k) = Some (s, vk) then h (sint m) else 0)"

lemma slot_sum_Cons [simp]: "slot_sum h ke ve z ((k, m) # es) s vk =
    (if slot ke ve (zdoc z k) = Some (s, vk) then h (sint m) else 0) + slot_sum h ke ve z es s vk"
  and slot_sum_Nil [simp]: "slot_sum h ke ve z [] s vk = 0"
  by (simp_all add: slot_sum_def)

lemma slot_sum_nonpos: "(\<And>x. h x \<le> 0) \<Longrightarrow> slot_sum h ke ve z es s vk \<le> 0"
  by (induction es) (auto simp: add_nonpos_nonpos)

text \<open>Every value the delta removes is there.\<close>

definition covers :: "extractor \<Rightarrow> extractor \<Rightarrow> groups \<Rightarrow> zset \<Rightarrow> (string \<times> gint) list \<Rightarrow> bool" where
  "covers ke ve gs z es \<longleftrightarrow> (\<forall>(k, m) \<in> set es. - (2 ^ 63) < sint m) \<and>
     (\<forall>s vk. 0 \<le> int (vcount gs s vk) + slot_sum (min 0) ke ve z es s vk)"

lemma inc_gather_loop_steps:
  assumes "aggregates ag" and "groups_ok kk gs" and "zwf r"
    and "\<And>k m. (k, m) \<in> set es \<Longrightarrow> gatherable kk ke ve (zdoc z k)"
  shows "\<exists>gs' r'. inc_gather_loop ke ve ag z gs r es = (gs', Inr r') \<and> groups_ok kk gs' \<and> zwf r'
    \<and> (\<forall>k. cnt r' k = cnt r k + (gather_snap ag gs' k - gather_snap ag gs k))
    \<and> (covers ke ve gs z es \<longrightarrow>
        (\<forall>s vk. int (vcount gs' s vk) = int (vcount gs s vk) + slot_sum (\<lambda>i. i) ke ve z es s vk))"
  using assms(2-4)
proof (induction es arbitrary: gs r)
  case (Cons e es)
  obtain k m where e: "e = (k, m)" by (cases e)
  have "gatherable kk ke ve (zdoc z k)" using Cons.prems(3) [of k m] e by simp
  from inc_gather_entry_step [OF assms(1) Cons.prems(1,2) this, of m] obtain g1 r1 where
    s: "inc_gather_entry ke ve ag gs r (zdoc z k) m = Inr (g1, r1)" "groups_ok kk g1" "zwf r1"
      "\<And>k. cnt r1 k = cnt r k + (gather_snap ag g1 k - gather_snap ag gs k)"
      "- (2 ^ 63) < sint m \<longrightarrow> (\<forall>s vk. vcount g1 s vk =
        (if slot ke ve (zdoc z k) = Some (s, vk) then nat (int (vcount gs s vk) + sint m) else vcount gs s vk))"
    by blast
  from Cons.IH [OF s(2,3)] Cons.prems(3) obtain gs' r' where
    l: "inc_gather_loop ke ve ag z g1 r1 es = (gs', Inr r')" "groups_ok kk gs'" "zwf r'"
      "\<And>k. cnt r' k = cnt r1 k + (gather_snap ag gs' k - gather_snap ag g1 k)"
      "covers ke ve g1 z es \<longrightarrow>
        (\<forall>s vk. int (vcount gs' s vk) = int (vcount g1 s vk) + slot_sum (\<lambda>i. i) ke ve z es s vk)"
    by (metis list.set_intros(2))
  have "int (vcount gs' s' vk) = int (vcount gs s' vk) + slot_sum (\<lambda>i. i) ke ve z (e # es) s' vk"
    if c: "covers ke ve gs z (e # es)" for s' vk
  proof -
    from c have m: "- (2 ^ 63) < sint m" by (auto simp: covers_def e)
    have room: "0 \<le> int (vcount gs t w) + ((if slot ke ve (zdoc z k) = Some (t, w) then min 0 (sint m) else 0)
        + slot_sum (min 0) ke ve z es t w)" for t w
      using c by (simp add: covers_def e)
    have "slot_sum (min 0) ke ve z es t w \<le> 0" for t w by (rule slot_sum_nonpos) simp
    with room have "slot ke ve (zdoc z k) = Some (t, w) \<Longrightarrow> 0 \<le> int (vcount gs t w) + sint m" for t w
      by (smt (verit, best))
    with s(5) m have one: "int (vcount g1 t w) = int (vcount gs t w) +
        (if slot ke ve (zdoc z k) = Some (t, w) then sint m else 0)" for t w by simp
    have "0 \<le> int (vcount g1 t w) + slot_sum (min 0) ke ve z es t w" for t w
      using room [of t w] by (auto simp: one split: if_splits)
    with c have "covers ke ve g1 z es" by (simp add: covers_def e)
    with l(5) one show ?thesis by (simp add: e)
  qed
  moreover have "inc_gather_loop ke ve ag z gs r (e # es) = (gs', Inr r')" using l(1) s(1) by (simp add: e)
  moreover have "\<forall>k. cnt r' k = cnt r k + (gather_snap ag gs' k - gather_snap ag gs k)"
    using l(4) s(4) by simp
  ultimately show ?case using l(2,3) by blast
qed simp

lemma IncrementalGather_step:
  assumes "aggregates ag" and "groups_ok kk gs" and "gather_okay kk ke ve z"
  shows "\<exists>gs' r. IncrementalGatherOp_Process ke ve ag gs [z] = (gs', Inr r) \<and> groups_ok kk gs' \<and> zwf r
    \<and> (\<forall>k. cnt r k = gather_snap ag gs' k - gather_snap ag gs k)
    \<and> (covers ke ve gs z (counts z) \<longrightarrow>
        (\<forall>s vk. int (vcount gs' s vk) = int (vcount gs s vk) + slot_sum (\<lambda>i. i) ke ve z (counts z) s vk))"
proof -
  have "gatherable kk ke ve (zdoc z k)" if "(k, m) \<in> set (counts z)" for k m
    using assms(3) that zdoc_in_zdocs [of z k] by (force simp: gather_okay_def)
  from inc_gather_loop_steps [OF assms(1,2) zwf_New this] show ?thesis
    by (simp add: IncrementalGatherOp_Process_def)
qed

interpretation igather: incremental "\<lambda>gs z. IncrementalGatherOp_Process ke ve ag gs [z]" "gather_okay kk ke ve"
    "gather_st kk ag" "\<lambda>gs z. fst (IncrementalGatherOp_Process ke ve ag gs [z])" "gather_snap ag"
  for kk ke ve ag
proof
  fix gs a z assume st: "gather_st kk ag gs a" and z: "gather_okay kk ke ve z"
  from st have "aggregates ag" "groups_ok kk gs" "a = gs" by (simp_all add: gather_st_def)
  with IncrementalGather_step [OF _ _ z, of ag gs] show "\<exists>s' r.
      IncrementalGatherOp_Process ke ve ag gs [z] = (s', Inr r) \<and> zwf r \<and>
      gather_st kk ag s' (fst (IncrementalGatherOp_Process ke ve ag a [z])) \<and>
      (\<forall>k. cnt r k = gather_snap ag (fst (IncrementalGatherOp_Process ke ve ag a [z])) k - gather_snap ag a k)"
    by (auto simp: gather_st_def)
qed

end
