(* ===== verification/Operators.thy ===== *)
theory Operators
  imports Ops_Linear Ops_Misc Ops_Bilinear Ops_Nonlinear
begin

text \<open>
  Package \<^verbatim>\<open>dbsp\<close>: the interface \<^verbatim>\<open>Operator\<close> of \<^verbatim>\<open>op.go\<close> as a datatype with one
  constructor per implementing struct, carrying the fields of the struct; the methods of the
  interface by dispatch on the constructor; \<^verbatim>\<open>FusedOp\<close> of \<^verbatim>\<open>fused_op.go\<close>; and
  \<^verbatim>\<open>IncrementalizeOp\<close>.  \<open>op_Process\<close> returns the operator with its updated state.  The
  constructors' display names are not modelled.  The second half is the behavioural
  equivalence of chains of operators used to justify rewriting.
\<close>

section \<open>The operator interface\<close>

datatype operator =
    ProjectionOp evaluator
  | SelectionOp evaluator
  | UnwindOp extractor transformer
  | GatherOp extractor extractor aggregator
  | IncrementalGatherOp extractor extractor aggregator groups
  | JoinOp evaluator "string list"
  | IncrementalJoinOp evaluator "string list" "zset option list"
  | BinaryJoinOp evaluator "string list"
  | IncrementalBinaryJoinOp evaluator "string list" binary_join_state
  | DistinctOp
  | IntegratorOp zset
  | DifferentiatorOp zset
  | DelayOp zset
  | InputOp string zset
  | ProjectThenSelectOp evaluator evaluator
  | SelectThenProjectionsOp "evaluator option" "evaluator list"
  | FusedOp nat "operator list"

datatype OperatorType = OpTypeLinear | OpTypeBilinear | OpTypeNonLinear | OpTypeStructural

fun Arity :: "operator \<Rightarrow> nat" where
  "Arity (JoinOp _ names) = length names"
| "Arity (IncrementalJoinOp _ names _) = length names"
| "Arity (BinaryJoinOp _ _) = 2"
| "Arity (IncrementalBinaryJoinOp _ _ _) = 2"
| "Arity (InputOp _ _) = 0"
| "Arity (FusedOp arity _) = arity"
| "Arity _ = 1"

fun OpType :: "operator \<Rightarrow> OperatorType" where
  "OpType (JoinOp _ _) = OpTypeBilinear"
| "OpType (IncrementalJoinOp _ _ _) = OpTypeBilinear"
| "OpType (BinaryJoinOp _ _) = OpTypeBilinear"
| "OpType (IncrementalBinaryJoinOp _ _ _) = OpTypeBilinear"
| "OpType (GatherOp _ _ _) = OpTypeNonLinear"
| "OpType (IncrementalGatherOp _ _ _ _) = OpTypeNonLinear"
| "OpType DistinctOp = OpTypeNonLinear"
| "OpType _ = OpTypeLinear"

text \<open>Constructors that set up state or check their arguments.\<close>

definition NewIncrementalGather :: "extractor \<Rightarrow> extractor \<Rightarrow> aggregator \<Rightarrow> operator" where
  "NewIncrementalGather ke ve ag = IncrementalGatherOp ke ve ag []"

definition NewIncrementalJoin :: "evaluator \<Rightarrow> string list \<Rightarrow> operator" where
  "NewIncrementalJoin eval names = IncrementalJoinOp eval names (NewIncrementalJoin_state names)"

definition NewIncrementalBinaryJoin :: "evaluator \<Rightarrow> string list \<Rightarrow> operator" where
  "NewIncrementalBinaryJoin eval names = IncrementalBinaryJoinOp eval names NewIncrementalBinaryJoin_state"

definition NewSelectThenProjections :: "evaluator option \<Rightarrow> evaluator list \<Rightarrow> operator res" where
  "NewSelectThenProjections selEval projEvals =
     (if projEvals = [] then Inl (Panic ''requires at least one projection evaluator'')
      else Inr (SelectThenProjectionsOp selEval projEvals))"

definition NewFusedOp :: "operator list \<Rightarrow> operator res" where
  "NewFusedOp nodes =
     (case nodes of [] \<Rightarrow> Inl (Error ''cannot create empty fused node'')
      | n # _ \<Rightarrow> Inr (FusedOp (Arity n) nodes))"

definition FuseFilterProject :: "operator \<Rightarrow> operator \<Rightarrow> operator res" where
  "FuseFilterProject selection project = NewFusedOp [selection, project]"

text \<open>\<^verbatim>\<open>Process\<close>; the second function is the loop of \<^verbatim>\<open>FusedOp.Process\<close> over its nodes.\<close>

fun op_Process :: "operator \<Rightarrow> zset list \<Rightarrow> operator \<times> zset res"
and run_chain :: "operator list \<Rightarrow> zset \<Rightarrow> operator list \<times> zset res" where
  "op_Process (ProjectionOp f) inputs = (ProjectionOp f, ProjectionOp_Process f inputs)"
| "op_Process (SelectionOp f) inputs = (SelectionOp f, SelectionOp_Process f inputs)"
| "op_Process (UnwindOp ext tr) inputs = (UnwindOp ext tr, UnwindOp_Process ext tr inputs)"
| "op_Process (GatherOp ke ve ag) inputs = (GatherOp ke ve ag, GatherOp_Process ke ve ag inputs)"
| "op_Process (IncrementalGatherOp ke ve ag gs) inputs =
     (case IncrementalGatherOp_Process ke ve ag gs inputs of
        (gs', r) \<Rightarrow> (IncrementalGatherOp ke ve ag gs', r))"
| "op_Process (JoinOp eval names) inputs = (JoinOp eval names, JoinOp_Process eval names inputs)"
| "op_Process (IncrementalJoinOp eval names ss) inputs =
     (case IncrementalJoinOp_Process eval names ss inputs of
        (ss', r) \<Rightarrow> (IncrementalJoinOp eval names ss', r))"
| "op_Process (BinaryJoinOp eval names) inputs =
     (BinaryJoinOp eval names, BinaryJoinOp_Process eval names inputs)"
| "op_Process (IncrementalBinaryJoinOp eval names s) inputs =
     (case IncrementalBinaryJoinOp_Process eval names s inputs of
        (s', r) \<Rightarrow> (IncrementalBinaryJoinOp eval names s', r))"
| "op_Process DistinctOp inputs = (DistinctOp, DistinctOp_Process inputs)"
| "op_Process (IntegratorOp s) inputs =
     (case IntegratorOp_Process s inputs of (s', r) \<Rightarrow> (IntegratorOp s', r))"
| "op_Process (DifferentiatorOp s) inputs =
     (case DifferentiatorOp_Process s inputs of (s', r) \<Rightarrow> (DifferentiatorOp s', r))"
| "op_Process (DelayOp s) inputs =
     (case DelayOp_Process s inputs of (s', r) \<Rightarrow> (DelayOp s', r))"
| "op_Process (InputOp name d) inputs = (InputOp name d, InputOp_Process d inputs)"
| "op_Process (ProjectThenSelectOp p s) inputs =
     (ProjectThenSelectOp p s, ProjectThenSelectOp_Process p s inputs)"
| "op_Process (SelectThenProjectionsOp s ps) inputs =
     (SelectThenProjectionsOp s ps, SelectThenProjectionsOp_Process s ps inputs)"
| "op_Process (FusedOp arity nodes) inputs =
     (case validateInputs arity inputs of
        Inl e \<Rightarrow> (FusedOp arity nodes, Inl e)
      | Inr _ \<Rightarrow>
          (case inputs of
             [] \<Rightarrow> (FusedOp arity nodes, Inl (Panic ''index out of range''))
           | z # _ \<Rightarrow>
               (case run_chain nodes z of
                  (nodes', r) \<Rightarrow> (FusedOp arity nodes', rewrap ''error in fused node'' r))))"
| "run_chain [] z = ([], Inr z)"
| "run_chain (node # nodes) z =
     (case op_Process node [z] of
        (node', Inl e) \<Rightarrow> (node' # nodes, Inl e)
      | (node', Inr result) \<Rightarrow> (case run_chain nodes result of (nodes', r) \<Rightarrow> (node' # nodes', r)))"

definition IncrementalizeOp :: "operator \<Rightarrow> operator \<times> bool" where
  "IncrementalizeOp oper =
     (case oper of
        ProjectionOp _ \<Rightarrow> (oper, False)
      | SelectionOp _ \<Rightarrow> (oper, False)
      | UnwindOp _ _ \<Rightarrow> (oper, False)
      | GatherOp ke ve ag \<Rightarrow> (NewIncrementalGather ke ve ag, True)
      | BinaryJoinOp eval names \<Rightarrow> (NewIncrementalBinaryJoin eval names, True)
      | JoinOp eval names \<Rightarrow> (NewIncrementalJoin eval names, True)
      | _ \<Rightarrow> (oper, False))"

text \<open>\<^verbatim>\<open>resetOperator\<close> of \<^verbatim>\<open>executor.go\<close>.  The n-ary incremental join is not among the cases.\<close>

fun resetOperator :: "operator \<Rightarrow> operator" where
  "resetOperator (IntegratorOp _) = IntegratorOp stream_op_Reset"
| "resetOperator (DifferentiatorOp _) = DifferentiatorOp stream_op_Reset"
| "resetOperator (DelayOp _) = DelayOp stream_op_Reset"
| "resetOperator (IncrementalBinaryJoinOp eval names _) =
     IncrementalBinaryJoinOp eval names NewIncrementalBinaryJoin_state"
| "resetOperator (IncrementalGatherOp ke ve ag _) = IncrementalGatherOp ke ve ag []"
| "resetOperator oper = oper"

section \<open>Chains\<close>

lemma run_chain_append:
  "run_chain (as @ bs) z =
     (case run_chain as z of
        (as', Inl e) \<Rightarrow> (as' @ bs, Inl e)
      | (as', Inr r) \<Rightarrow> (case run_chain bs r of (bs', x) \<Rightarrow> (as' @ bs', x)))"
  by (induction as arbitrary: z) (auto split: prod.splits sum.splits)

lemma length_run_chain: "run_chain as z = (as', r) \<Longrightarrow> length as' = length as"
  by (induction as arbitrary: z as' r) (auto split: prod.splits sum.splits)

lemma IncrementalizeOp_idem: "IncrementalizeOp (fst (IncrementalizeOp oper)) = (fst (IncrementalizeOp oper), False)"
  by (cases oper)
    (simp_all add: IncrementalizeOp_def NewIncrementalGather_def NewIncrementalJoin_def NewIncrementalBinaryJoin_def)

section \<open>Behavioural equivalence of chains\<close>

text \<open>Z-sets with the same multiplicities over documents of the dictionary.\<close>

definition zeq :: "(string \<Rightarrow> doc) \<Rightarrow> zset \<Rightarrow> zset \<Rightarrow> bool" where
  "zeq dk z z' \<longleftrightarrow> zknown dk z \<and> zknown dk z' \<and> (\<forall>k. cnt z k = cnt z' k)"

text \<open>
  Two chains are similar when on inputs with equal multiplicities both succeed with outputs of
  equal multiplicities and are similar again.
\<close>

coinductive chain_sim :: "(string \<Rightarrow> doc) \<Rightarrow> operator list \<Rightarrow> operator list \<Rightarrow> bool" for dk where
  step: "(\<And>z z'. zeq dk z z' \<Longrightarrow> \<exists>as' bs' r r'. run_chain as z = (as', Inr r) \<and> run_chain bs z' = (bs', Inr r')
      \<and> zeq dk r r' \<and> chain_sim dk as' bs') \<Longrightarrow> chain_sim dk as bs"

inductive_simps chain_sim_iff: "chain_sim dk as bs"

lemma chain_simD:
  assumes "chain_sim dk as bs" and "zeq dk z z'"
  obtains as' bs' r r' where "run_chain as z = (as', Inr r)" "run_chain bs z' = (bs', Inr r')"
    "zeq dk r r'" "chain_sim dk as' bs'"
  using assms chain_sim_iff by metis

lemma chain_sim_Nil: "chain_sim dk [] []"
  by (coinduction rule: chain_sim.coinduct) auto

lemma zeq_sym: "zeq dk z z' \<Longrightarrow> zeq dk z' z"
  by (auto simp: zeq_def)

lemma zeq_trans: "zeq dk x y \<Longrightarrow> zeq dk y z \<Longrightarrow> zeq dk x z"
  by (auto simp: zeq_def)

lemma zeq_refl_left: "zeq dk x y \<Longrightarrow> zeq dk x x" and zeq_refl_right: "zeq dk x y \<Longrightarrow> zeq dk y y"
  by (auto simp: zeq_def)

lemma chain_sim_append:
  assumes "chain_sim dk as bs" and "chain_sim dk cs ds"
  shows "chain_sim dk (as @ cs) (bs @ ds)"
proof (rule chain_sim.coinduct [where X = "\<lambda>x y. \<exists>as bs cs ds. x = as @ cs \<and> y = bs @ ds \<and>
    chain_sim dk as bs \<and> chain_sim dk cs ds"])
  show "\<exists>as' bs' cs' ds'. as @ cs = as' @ cs' \<and> bs @ ds = bs' @ ds' \<and> chain_sim dk as' bs' \<and> chain_sim dk cs' ds'"
    using assms by blast
next
  fix x y assume "\<exists>as bs cs ds. x = as @ cs \<and> y = bs @ ds \<and> chain_sim dk as bs \<and> chain_sim dk cs ds"
  then obtain as bs cs ds where xy: "x = as @ cs" "y = bs @ ds" "chain_sim dk as bs" "chain_sim dk cs ds"
    by blast
  have "\<exists>x' y' r r'. run_chain x z = (x', Inr r) \<and> run_chain y z' = (y', Inr r') \<and> zeq dk r r' \<and>
      (\<exists>as bs cs ds. x' = as @ cs \<and> y' = bs @ ds \<and> chain_sim dk as bs \<and> chain_sim dk cs ds)"
    if z: "zeq dk z z'" for z z'
  proof -
    obtain as' bs' r r' where 1: "run_chain as z = (as', Inr r)" "run_chain bs z' = (bs', Inr r')"
        "zeq dk r r'" "chain_sim dk as' bs'"
      using chain_simD [OF xy(3) z] by metis
    obtain cs' ds' s s' where 2: "run_chain cs r = (cs', Inr s)" "run_chain ds r' = (ds', Inr s')"
        "zeq dk s s'" "chain_sim dk cs' ds'"
      using chain_simD [OF xy(4) 1(3)] by metis
    have "run_chain x z = (as' @ cs', Inr s)" "run_chain y z' = (bs' @ ds', Inr s')"
      using 1 2 by (simp_all add: xy run_chain_append)
    with 1 2 show ?thesis by blast
  qed
  then show "\<exists>as bs. x = as \<and> y = bs \<and> (\<forall>z z'. zeq dk z z' \<longrightarrow> (\<exists>as' bs' r r'.
      run_chain as z = (as', Inr r) \<and> run_chain bs z' = (bs', Inr r') \<and> zeq dk r r' \<and>
      ((\<exists>as bs cs ds. as' = as @ cs \<and> bs' = bs @ ds \<and> chain_sim dk as bs \<and> chain_sim dk cs ds) \<or>
       chain_sim dk as' bs')))"
    by (metis (no_types, lifting))
qed

lemma chain_sim_Cons:
  "chain_sim dk [a] [b] \<Longrightarrow> chain_sim dk cs ds \<Longrightarrow> chain_sim dk (a # cs) (b # ds)"
  using chain_sim_append [of dk "[a]" "[b]" cs ds] by simp

lemma chain_sim_trans:
  assumes "chain_sim dk as bs" and "chain_sim dk bs cs"
  shows "chain_sim dk as cs"
proof (rule chain_sim.coinduct [where X = "\<lambda>x y. \<exists>m. chain_sim dk x m \<and> chain_sim dk m y"])
  show "\<exists>m. chain_sim dk as m \<and> chain_sim dk m cs" using assms by blast
next
  fix x y assume "\<exists>m. chain_sim dk x m \<and> chain_sim dk m y"
  then obtain m where m: "chain_sim dk x m" "chain_sim dk m y" by blast
  have "\<exists>x' y' r r'. run_chain x z = (x', Inr r) \<and> run_chain y z' = (y', Inr r') \<and> zeq dk r r' \<and>
      (\<exists>m. chain_sim dk x' m \<and> chain_sim dk m y')" if z: "zeq dk z z'" for z z'
  proof -
    obtain x' m' r s where 1: "run_chain x z = (x', Inr r)" "run_chain m z' = (m', Inr s)"
        "zeq dk r s" "chain_sim dk x' m'"
      using chain_simD [OF m(1) z] by metis
    obtain m2 y' s2 r' where 2: "run_chain m z' = (m2, Inr s2)" "run_chain y z' = (y', Inr r')"
        "zeq dk s2 r'" "chain_sim dk m2 y'"
      using chain_simD [OF m(2) zeq_refl_right [OF z]] by metis
    from 1(2) 2(1) have "m2 = m'" "s2 = s" by simp_all
    with 1 2 zeq_trans show ?thesis by blast
  qed
  then show "\<exists>as bs. x = as \<and> y = bs \<and> (\<forall>z z'. zeq dk z z' \<longrightarrow> (\<exists>as' bs' r r'.
      run_chain as z = (as', Inr r) \<and> run_chain bs z' = (bs', Inr r') \<and> zeq dk r r' \<and>
      ((\<exists>m. chain_sim dk as' m \<and> chain_sim dk m bs') \<or> chain_sim dk as' bs')))"
    by (metis (no_types, lifting))
qed

text \<open>Chains without state are similar when they respond alike.\<close>

lemma responds_zeq:
  assumes "responds dk run1 f" and "responds dk run2 f" and z: "zeq dk z z'"
  shows "\<exists>r r'. run1 z = Inr r \<and> run2 z' = Inr r' \<and> zeq dk r r'"
proof -
  have k: "zknown dk z" "zknown dk z'" "cnt z = cnt z'" using z by (auto simp: zeq_def)
  obtain r where r: "run1 z = Inr r" "zknown dk r"
      "\<And>k. cnt r k = wsum (cnt z) (\<lambda>k0. occ (imgs f (dk k0)) k)"
    using respondsD [OF assms(1) k(1)] by metis
  obtain r' where r': "run2 z' = Inr r'" "zknown dk r'"
      "\<And>k. cnt r' k = wsum (cnt z') (\<lambda>k0. occ (imgs f (dk k0)) k)"
    using respondsD [OF assms(2) k(2)] by metis
  from r r' k(3) show ?thesis by (auto simp: zeq_def)
qed

lemma stateless_sim:
  assumes "\<And>z. run_chain as z = (as, run1 z)" and "\<And>z. run_chain bs z = (bs, run2 z)"
    and "responds dk run1 f" and "responds dk run2 f"
  shows "chain_sim dk as bs"
proof (rule chain_sim.coinduct [where X = "\<lambda>x y. x = as \<and> y = bs"])
  fix x y assume xy: "x = as \<and> y = bs"
  show "\<exists>as' bs'. x = as' \<and> y = bs' \<and> (\<forall>z z'. zeq dk z z' \<longrightarrow> (\<exists>as'' bs'' r r'.
      run_chain as' z = (as'', Inr r) \<and> run_chain bs' z' = (bs'', Inr r') \<and> zeq dk r r' \<and>
      (as'' = as \<and> bs'' = bs \<or> chain_sim dk as'' bs'')))"
    using xy responds_zeq [OF assms(3,4)] by (simp add: assms(1,2))
qed simp

lemma run_chain_single: "run_chain [oper] z = (case op_Process oper [z] of (o', r) \<Rightarrow> ([o'], r))"
  by (auto split: prod.splits sum.splits)

lemma run_chain_projections:
  "run_chain (map ProjectionOp ps) z = (map ProjectionOp ps, projections ps z)"
proof (induction ps arbitrary: z)
  case Nil
  then show ?case by (simp add: projections_def)
next
  case (Cons p ps)
  then show ?case by (cases "ProjectionOp_Process p [z]") (simp_all add: projections_Cons)
qed

lemma run_chain_select:
  "run_chain (case sel of None \<Rightarrow> [] | Some f \<Rightarrow> [SelectionOp f]) z =
     (case sel of None \<Rightarrow> [] | Some f \<Rightarrow> [SelectionOp f], select_stage sel z)"
  by (auto simp: select_stage_def split: option.splits sum.splits)

text \<open>Selection (if any) and projections against the fused operator.\<close>

lemma sim_select_projections:
  assumes sel: "\<And>f. sel = Some f \<Longrightarrow> maps_known dk f"
    and ps: "\<And>p. p \<in> set ps \<Longrightarrow> one_to_one p \<and> maps_known dk p"
  shows "chain_sim dk ((case sel of None \<Rightarrow> [] | Some f \<Rightarrow> [SelectionOp f]) @ map ProjectionOp ps)
    [SelectThenProjectionsOp sel ps]"
proof (rule stateless_sim)
  show "run_chain ((case sel of None \<Rightarrow> [] | Some f \<Rightarrow> [SelectionOp f]) @ map ProjectionOp ps) z =
      ((case sel of None \<Rightarrow> [] | Some f \<Rightarrow> [SelectionOp f]) @ map ProjectionOp ps,
       bind (select_stage sel z) (projections ps))" for z
    by (cases "select_stage sel z") (simp_all add: run_chain_append run_chain_select run_chain_projections)
  show "run_chain [SelectThenProjectionsOp sel ps] z =
      ([SelectThenProjectionsOp sel ps], SelectThenProjectionsOp_Process sel ps [z])" for z
    by (simp add: run_chain_single del: run_chain.simps)
  show "responds dk (\<lambda>z. bind (select_stage sel z) (projections ps)) (chain_img (select_img sel) (project_img ps))"
    using select_stage_responds [of sel dk] projections_responds [of ps dk] assms
    by (intro responds_compose) blast+
  show "responds dk (\<lambda>z. SelectThenProjectionsOp_Process sel ps [z])
      (chain_img (select_img sel) (project_img ps))"
    using assms by (rule SelectThenProjections_responds)
qed

lemma sim_project_select:
  assumes "maps_known dk p" and "maps_known dk s"
  shows "chain_sim dk [ProjectionOp p, SelectionOp s] [ProjectThenSelectOp p s]"
proof (rule stateless_sim)
  show "run_chain [ProjectionOp p, SelectionOp s] z =
      ([ProjectionOp p, SelectionOp s], bind (ProjectionOp_Process p [z]) (\<lambda>z. SelectionOp_Process s [z]))" for z
    by (auto split: sum.splits)
  show "run_chain [ProjectThenSelectOp p s] z = ([ProjectThenSelectOp p s], ProjectThenSelectOp_Process p s [z])" for z
    by (simp add: run_chain_single del: run_chain.simps)
  show "responds dk (\<lambda>z. bind (ProjectionOp_Process p [z]) (\<lambda>z. SelectionOp_Process s [z])) (chain_img p s)"
    using assms by (intro responds_compose linear_responds [OF proj.linear_op_axioms]
        linear_responds [OF sel.linear_op_axioms])
qed (rule ProjectThenSelect_responds [OF assms])

text \<open>Operators whose output multiplicities are determined by the input multiplicities.\<close>

fun plain :: "(string \<Rightarrow> doc) \<Rightarrow> operator \<Rightarrow> bool" where
  "plain dk (ProjectionOp f) = (one_to_one f \<and> maps_known dk f)"
| "plain dk (SelectionOp f) = maps_known dk f"
| "plain dk (UnwindOp ext tr) = maps_known dk (unwind_img ext tr)"
| "plain dk DistinctOp = True"
| "plain dk (IntegratorOp s) = (s = NewDocumentZSet)"
| "plain dk (DifferentiatorOp s) = (s = NewDocumentZSet)"
| "plain dk (DelayOp s) = (s = NewDocumentZSet)"
| "plain dk (ProjectThenSelectOp p s) = (maps_known dk p \<and> maps_known dk s)"
| "plain dk (SelectThenProjectionsOp s ps) =
     ((\<forall>f \<in> set_option s. maps_known dk f) \<and> (\<forall>p \<in> set ps. one_to_one p \<and> maps_known dk p))"
| "plain dk _ = False"

text \<open>Linear stages: an operator without state and the images of one document under it.\<close>

fun stage_img :: "operator \<Rightarrow> evaluator" where
  "stage_img (ProjectionOp f) = f"
| "stage_img (SelectionOp f) = f"
| "stage_img (UnwindOp ext tr) = unwind_img ext tr"
| "stage_img (ProjectThenSelectOp p s) = chain_img p s"
| "stage_img (SelectThenProjectionsOp s ps) = chain_img (select_img s) (project_img ps)"
| "stage_img _ = (\<lambda>d. Inr [d])"

fun linear_stage :: "operator \<Rightarrow> bool" where
  "linear_stage (ProjectionOp f) = True"
| "linear_stage (SelectionOp f) = True"
| "linear_stage (UnwindOp ext tr) = True"
| "linear_stage (ProjectThenSelectOp p s) = True"
| "linear_stage (SelectThenProjectionsOp s ps) = True"
| "linear_stage _ = False"

lemma stage_stateless: "linear_stage oper \<Longrightarrow> run_chain [oper] z = ([oper], snd (op_Process oper [z]))"
  by (cases oper) (simp_all add: run_chain_single del: run_chain.simps)

lemma stage_responds:
  assumes "linear_stage oper" and "plain dk oper"
  shows "responds dk (\<lambda>z. snd (op_Process oper [z])) (stage_img oper)"
proof (cases oper)
  case (SelectThenProjectionsOp s ps)
  with assms show ?thesis by (auto intro!: SelectThenProjections_responds)
qed (use assms in \<open>auto intro: linear_responds [OF proj.linear_op_axioms] linear_responds [OF sel.linear_op_axioms]
    linear_responds [OF unw.linear_op_axioms] ProjectThenSelect_responds\<close>)

lemma zeq_known: "zknown dk z \<Longrightarrow> zeq dk z z"
  by (simp add: zeq_def)

lemma zknown_Distinct:
  assumes "zknown dk z"
  obtains r where "Distinct z = Inr r" "zknown dk r" "\<And>k. cnt r k = (if ipos (cnt z k) then 1 else 0)"
  using zknown_adds [OF Distinct_adds zknown_New, of z dk] assms by (auto simp: zknown_def)

lemma Distinct_zeq:
  assumes "zeq dk z z'"
  shows "\<exists>r r'. Distinct z = Inr r \<and> Distinct z' = Inr r' \<and> zeq dk r r'"
proof -
  have k: "zknown dk z" "zknown dk z'" "\<forall>k. cnt z k = cnt z' k" using assms by (auto simp: zeq_def)
  obtain r where "Distinct z = Inr r" "zknown dk r" "\<And>k. cnt r k = (if ipos (cnt z k) then 1 else 0)"
    using zknown_Distinct [OF k(1)] by metis
  moreover obtain r' where "Distinct z' = Inr r'" "zknown dk r'"
      "\<And>k. cnt r' k = (if ipos (cnt z' k) then 1 else 0)"
    using zknown_Distinct [OF k(2)] by metis
  ultimately show ?thesis using k(3) by (simp add: zeq_def)
qed

text \<open>
  A step of similar chains that keep their shape: the family \<open>R\<close> relates the states.
\<close>

lemma sim_by_states:
  assumes "R as bs"
    and "\<And>as bs z z'. R as bs \<Longrightarrow> zeq dk z z' \<Longrightarrow> \<exists>as' bs' r r'. run_chain as z = (as', Inr r) \<and>
      run_chain bs z' = (bs', Inr r') \<and> zeq dk r r' \<and> R as' bs'"
  shows "chain_sim dk as bs"
  using assms(1)
proof (coinduction arbitrary: as bs rule: chain_sim.coinduct)
  case chain_sim
  then show ?case using assms(2) by (metis (no_types, lifting))
qed

lemma sim_distinct: "chain_sim dk [DistinctOp] [DistinctOp]"
proof (rule sim_by_states [where R = "\<lambda>as bs. as = [DistinctOp] \<and> bs = [DistinctOp]"])
  fix as bs z z' assume "as = [DistinctOp] \<and> bs = [DistinctOp]" and "zeq dk z z'"
  with Distinct_zeq [of dk z z'] show "\<exists>as' bs' r r'. run_chain as z = (as', Inr r) \<and>
      run_chain bs z' = (bs', Inr r') \<and> zeq dk r r' \<and> as' = [DistinctOp] \<and> bs' = [DistinctOp]"
    by (auto simp: DistinctOp_Process_def)
qed simp

text \<open>Distinct is idempotent.\<close>

lemma sim_distinct_distinct: "chain_sim dk [DistinctOp, DistinctOp] [DistinctOp]"
proof (rule sim_by_states [where R = "\<lambda>as bs. as = [DistinctOp, DistinctOp] \<and> bs = [DistinctOp]"])
  fix as bs z z' assume R: "as = [DistinctOp, DistinctOp] \<and> bs = [DistinctOp]" and z: "zeq dk z z'"
  have zk0: "zknown dk z" using z by (simp add: zeq_def)
  obtain r where r0: "Distinct z = Inr r" "zknown dk r" "\<And>k. cnt r k = (if ipos (cnt z k) then 1 else 0)"
    using zknown_Distinct [OF zk0] by metis
  then obtain r' where r: "Distinct z = Inr r" "Distinct z' = Inr r'" "zeq dk r r'"
    using Distinct_zeq [OF z] by auto
  note zk = zk0 r0(2)
  obtain r2 where r2: "Distinct r = Inr r2" "zknown dk r2" "\<And>k. cnt r2 k = (if ipos (cnt r k) then 1 else 0)"
    using zknown_Distinct [OF zk(2)] by metis
  have "cnt r2 k = cnt r k" for k using r2(3) [of k] r0(3) [of k] by simp
  with zk r r2 have "zeq dk r2 r'" by (simp add: zeq_def)
  with r r2 R show "\<exists>as' bs' s s'. run_chain as z = (as', Inr s) \<and>
      run_chain bs z' = (bs', Inr s') \<and> zeq dk s s' \<and> as' = [DistinctOp, DistinctOp] \<and> bs' = [DistinctOp]"
    by (simp add: DistinctOp_Process_def)
qed simp

lemma Integrator_known:
  assumes "zknown dk s" and "zknown dk z"
  obtains s' where "IntegratorOp_Process s [z] = (s', Inr (DeepCopy s'))" "zknown dk s'"
    "\<And>k. cnt s' k = cnt s k + cnt z k"
proof -
  obtain c where "Add s (Some z) = Inr c" "zknown dk c" "\<And>k. cnt c k = cnt s k + cnt z k"
    using zknown_Add [OF assms] by blast
  with that [of c] show ?thesis by (simp add: IntegratorOp_Process_def)
qed

lemma Differentiator_known:
  assumes "zknown dk p" and "zknown dk z"
  obtains r where "DifferentiatorOp_Process p [z] = (DeepCopy z, Inr r)" "zknown dk r"
    "\<And>k. cnt r k = cnt z k - cnt p k"
proof -
  obtain c where "Subtract z (Some p) = Inr c" "zknown dk c" "\<And>k. cnt c k = cnt z k - cnt p k"
    using zknown_Subtract [OF assms(2,1)] by blast
  with that [of c] show ?thesis by (simp add: DifferentiatorOp_Process_def)
qed

lemma cnt_DeepCopy_known [simp]: "zknown dk z \<Longrightarrow> cnt (DeepCopy z) k = cnt z k"
  by (simp add: zknown_def)

lemma sim_integrator: "zeq dk s s' \<Longrightarrow> chain_sim dk [IntegratorOp s] [IntegratorOp s']"
proof (rule sim_by_states [where R = "\<lambda>as bs. \<exists>s s'. as = [IntegratorOp s] \<and> bs = [IntegratorOp s'] \<and> zeq dk s s'"])
  fix as bs z z' assume "\<exists>s s'. as = [IntegratorOp s] \<and> bs = [IntegratorOp s'] \<and> zeq dk s s'" and z: "zeq dk z z'"
  then obtain s s' where s: "as = [IntegratorOp s]" "bs = [IntegratorOp s']" "zeq dk s s'" by blast
  have k: "zknown dk s" "zknown dk s'" "zknown dk z" "zknown dk z'" using s(3) z by (auto simp: zeq_def)
  obtain t where t: "IntegratorOp_Process s [z] = (t, Inr (DeepCopy t))" "zknown dk t"
      "\<And>k. cnt t k = cnt s k + cnt z k"
    using Integrator_known [OF k(1,3)] by metis
  obtain t' where t': "IntegratorOp_Process s' [z'] = (t', Inr (DeepCopy t'))" "zknown dk t'"
      "\<And>k. cnt t' k = cnt s' k + cnt z' k"
    using Integrator_known [OF k(2,4)] by metis
  have "zeq dk t t'" "zeq dk (DeepCopy t) (DeepCopy t')" using t t' s(3) z by (auto simp: zeq_def)
  with t t' s show "\<exists>as' bs' r r'. run_chain as z = (as', Inr r) \<and> run_chain bs z' = (bs', Inr r') \<and>
      zeq dk r r' \<and> (\<exists>s s'. as' = [IntegratorOp s] \<and> bs' = [IntegratorOp s'] \<and> zeq dk s s')"
    by auto
qed blast

lemma sim_differentiator: "zeq dk s s' \<Longrightarrow> chain_sim dk [DifferentiatorOp s] [DifferentiatorOp s']"
proof (rule sim_by_states [where R = "\<lambda>as bs. \<exists>s s'. as = [DifferentiatorOp s] \<and> bs = [DifferentiatorOp s'] \<and> zeq dk s s'"])
  fix as bs z z' assume "\<exists>s s'. as = [DifferentiatorOp s] \<and> bs = [DifferentiatorOp s'] \<and> zeq dk s s'"
    and z: "zeq dk z z'"
  then obtain s s' where s: "as = [DifferentiatorOp s]" "bs = [DifferentiatorOp s']" "zeq dk s s'" by blast
  have k: "zknown dk s" "zknown dk s'" "zknown dk z" "zknown dk z'" using s(3) z by (auto simp: zeq_def)
  obtain r where r: "DifferentiatorOp_Process s [z] = (DeepCopy z, Inr r)" "zknown dk r"
      "\<And>k. cnt r k = cnt z k - cnt s k"
    using Differentiator_known [OF k(1,3)] by metis
  obtain r' where r': "DifferentiatorOp_Process s' [z'] = (DeepCopy z', Inr r')" "zknown dk r'"
      "\<And>k. cnt r' k = cnt z' k - cnt s' k"
    using Differentiator_known [OF k(2,4)] by metis
  have "zeq dk r r'" "zeq dk (DeepCopy z) (DeepCopy z')" using r r' s(3) z by (auto simp: zeq_def)
  with r r' s show "\<exists>as' bs' r r'. run_chain as z = (as', Inr r) \<and> run_chain bs z' = (bs', Inr r') \<and>
      zeq dk r r' \<and> (\<exists>s s'. as' = [DifferentiatorOp s] \<and> bs' = [DifferentiatorOp s'] \<and> zeq dk s s')"
    by auto
qed blast

lemma sim_delay: "zeq dk s s' \<Longrightarrow> chain_sim dk [DelayOp s] [DelayOp s']"
proof (rule sim_by_states [where R = "\<lambda>as bs. \<exists>s s'. as = [DelayOp s] \<and> bs = [DelayOp s'] \<and> zeq dk s s'"])
  fix as bs z z' assume "\<exists>s s'. as = [DelayOp s] \<and> bs = [DelayOp s'] \<and> zeq dk s s'" and z: "zeq dk z z'"
  then obtain s s' where s: "as = [DelayOp s]" "bs = [DelayOp s']" "zeq dk s s'" by blast
  then have "zeq dk (DeepCopy s) (DeepCopy s')" "zeq dk (DeepCopy z) (DeepCopy z')"
    using z by (auto simp: zeq_def)
  with s show "\<exists>as' bs' r r'. run_chain as z = (as', Inr r) \<and> run_chain bs z' = (bs', Inr r') \<and>
      zeq dk r r' \<and> (\<exists>s s'. as' = [DelayOp s] \<and> bs' = [DelayOp s'] \<and> zeq dk s s')"
    by (auto simp: DelayOp_Process_def)
qed blast

text \<open>An integrator followed by a differentiator does nothing.\<close>

lemma sim_integrate_differentiate:
  "zeq dk i d \<Longrightarrow> chain_sim dk [IntegratorOp i, DifferentiatorOp d] []"
proof (rule sim_by_states [where R = "\<lambda>as bs. \<exists>i d. as = [IntegratorOp i, DifferentiatorOp d] \<and> bs = [] \<and> zeq dk i d"])
  fix as bs :: "operator list" and z z' assume "\<exists>i d. as = [IntegratorOp i, DifferentiatorOp d] \<and> bs = [] \<and> zeq dk i d"
    and z: "zeq dk z z'"
  then obtain i d where s: "as = [IntegratorOp i, DifferentiatorOp d]" "bs = []" "zeq dk i d" by blast
  have k: "zknown dk i" "zknown dk d" "zknown dk z" using s(3) z by (auto simp: zeq_def)
  obtain t where t: "IntegratorOp_Process i [z] = (t, Inr (DeepCopy t))" "zknown dk t"
      "\<And>k. cnt t k = cnt i k + cnt z k"
    using Integrator_known [OF k(1,3)] by metis
  obtain r where r: "DifferentiatorOp_Process d [DeepCopy t] = (DeepCopy (DeepCopy t), Inr r)" "zknown dk r"
      "\<And>k. cnt r k = cnt (DeepCopy t) k - cnt d k"
    using Differentiator_known [OF k(2) zknown_DeepCopy [OF t(2)]] by metis
  have "zeq dk r z'" "zeq dk t (DeepCopy (DeepCopy t))" using r t s(3) z by (auto simp: zeq_def)
  with t(1) r(1) s show "\<exists>as' bs' r r'. run_chain as z = (as', Inr r) \<and> run_chain bs z' = (bs', Inr r') \<and>
      zeq dk r r' \<and> (\<exists>i d. as' = [IntegratorOp i, DifferentiatorOp d] \<and> bs' = [] \<and> zeq dk i d)"
    by auto
qed blast

lemma plain_sim: "plain dk oper \<Longrightarrow> chain_sim dk [oper] [oper]"
proof (cases "linear_stage oper")
  case True
  assume "plain dk oper"
  with True show ?thesis
    by (intro stateless_sim [OF stage_stateless stage_stateless stage_responds stage_responds])
next
  case False
  assume "plain dk oper"
  with False show ?thesis
    by (cases oper) (simp_all add: sim_distinct sim_integrator sim_differentiator sim_delay zeq_known)
qed

lemma plain_chain_sim: "\<forall>oper \<in> set ops. plain dk oper \<Longrightarrow> chain_sim dk ops ops"
  by (induction ops) (auto intro: chain_sim_Nil chain_sim_Cons plain_sim)

end
