(* ===== verification/Operator_Properties.thy ===== *)
theory Operator_Properties
  imports Operators Samples
begin

text \<open>What the operators of package \<^verbatim>\<open>dbsp\<close> guarantee, one by one and in streams.\<close>

section \<open>Per-document operators\<close>

text \<open>
  Projection, selection and unwind succeed exactly when every document of their
  input evaluates to documents that can be stored; otherwise they return an error.
\<close>

theorem per_document_errors:
  assumes "zwf z"
  shows "((\<exists>r. ProjectionOp_Process f [z] = Inr r) \<longleftrightarrow> (\<forall>d \<in> zdocs z. evaluates f d)) \<and>
    ((\<exists>r. SelectionOp_Process f [z] = Inr r) \<longleftrightarrow> (\<forall>d \<in> zdocs z. evaluates f d)) \<and>
    ((\<exists>r. UnwindOp_Process ext tr [z] = Inr r) \<longleftrightarrow> (\<forall>d \<in> zdocs z. evaluates (unwind_img ext tr) d))"
  using proj.run_ok_iff [OF assms, of f] sel.run_ok_iff [OF assms, of f] unw.run_ok_iff [OF assms, of ext tr]
  by (simp only: is_ok_iff)

theorem per_document_errors_witness:
  "((\<exists>r. ProjectionOp_Process ev_same [zset_ab 1 1] = Inr r) \<longleftrightarrow> (\<forall>d \<in> zdocs (zset_ab 1 1). evaluates ev_same d)) \<and>
    ((\<exists>r. SelectionOp_Process ev_same [zset_ab 1 1] = Inr r) \<longleftrightarrow> (\<forall>d \<in> zdocs (zset_ab 1 1). evaluates ev_same d)) \<and>
    ((\<exists>r. UnwindOp_Process (\<lambda>d. Inr VNil) (\<lambda>d v. Inr d) [zset_ab 1 1] = Inr r) \<longleftrightarrow>
      (\<forall>d \<in> zdocs (zset_ab 1 1). evaluates (unwind_img (\<lambda>d. Inr VNil) (\<lambda>d v. Inr d)) d))"
  by (rule per_document_errors [OF zset_ab_wf])

text \<open>
  C21. A linear operator (projection, selection, unwind or a fused one) is its own
  incremental version: run on the deltas of a stream it produces outputs that add up to its
  output on the accumulated snapshot.
\<close>

theorem linear_operator_incremental:
  assumes "linear_stage oper" and "plain dk oper" and "\<forall>z \<in> set zs. zknown dk z"
    and "zknown dk s" and "\<forall>k. cnt s k = total zs k"
  shows "\<exists>rs r. mapM (\<lambda>z. snd (op_Process oper [z])) zs = Inr rs \<and> snd (op_Process oper [s]) = Inr r
    \<and> zwf r \<and> (\<forall>k. cnt r k = total rs k)"
  using responds_stream [OF stage_responds [OF assms(1,2)], of zs s] assms(3-5) by auto

theorem linear_operator_incremental_witness:
  "\<exists>rs r. mapM (\<lambda>z. snd (op_Process (SelectionOp ev_only_a) [z])) [zset_ab 1 2, zset_ab 2 (- 1)] = Inr rs \<and>
    snd (op_Process (SelectionOp ev_only_a) [zset_ab 3 1]) = Inr r \<and> zwf r \<and> (\<forall>k. cnt r k = total rs k)"
proof (rule linear_operator_incremental [where dk = dk_ab])
  show "\<forall>k. cnt (zset_ab 3 1) k = total [zset_ab 1 2, zset_ab 2 (- 1)] k"
    by (simp add: zset_ab_cnt algebra_simps)
qed (simp_all add: ev_only_a_known)

text \<open>
  C22. The fused operators compute, over Z-sets of known documents, the multiplicities
  of the operators they replace: an optional selection followed by one-to-one projections, and
  a projection followed by a selection.
\<close>

theorem fusion_is_equivalent:
  assumes "\<forall>f. sel = Some f \<longrightarrow> maps_known dk f" and "\<forall>p \<in> set ps. one_to_one p \<and> maps_known dk p"
    and "maps_known dk p1" and "maps_known dk s1" and "zknown dk z"
  shows "(\<exists>r r'. SelectThenProjectionsOp_Process sel ps [z] = Inr r \<and>
      bind (select_stage sel z) (projections ps) = Inr r' \<and> (\<forall>k. cnt r k = cnt r' k)) \<and>
    (\<exists>r r'. ProjectThenSelectOp_Process p1 s1 [z] = Inr r \<and>
      bind (ProjectionOp_Process p1 [z]) (\<lambda>y. SelectionOp_Process s1 [y]) = Inr r' \<and> (\<forall>k. cnt r k = cnt r' k))"
proof -
  have "responds dk (\<lambda>z. bind (select_stage sel z) (projections ps)) (chain_img (select_img sel) (project_img ps))"
    using assms(1,2) by (intro responds_compose select_stage_responds projections_responds) blast+
  moreover have "responds dk (\<lambda>z. SelectThenProjectionsOp_Process sel ps [z]) (chain_img (select_img sel) (project_img ps))"
    using assms(1,2) by (intro SelectThenProjections_responds) blast+
  moreover have "responds dk (\<lambda>z. bind (ProjectionOp_Process p1 [z]) (\<lambda>y. SelectionOp_Process s1 [y])) (chain_img p1 s1)"
    using assms(3,4) by (intro responds_compose linear_responds [OF proj.linear_op_axioms]
        linear_responds [OF sel.linear_op_axioms])
  moreover have "responds dk (\<lambda>z. ProjectThenSelectOp_Process p1 s1 [z]) (chain_img p1 s1)"
    using assms(3,4) by (rule ProjectThenSelect_responds)
  ultimately show ?thesis using responds_same [OF _ _ assms(5)] by blast
qed

theorem fusion_is_equivalent_witness:
  "(\<exists>r r'. SelectThenProjectionsOp_Process (Some ev_only_a) [ev_same, ev_same] [zset_ab 2 3] = Inr r \<and>
      bind (select_stage (Some ev_only_a) (zset_ab 2 3)) (projections [ev_same, ev_same]) = Inr r' \<and>
      (\<forall>k. cnt r k = cnt r' k)) \<and>
    (\<exists>r r'. ProjectThenSelectOp_Process ev_same ev_only_a [zset_ab 2 3] = Inr r \<and>
      bind (ProjectionOp_Process ev_same [zset_ab 2 3]) (\<lambda>y. SelectionOp_Process ev_only_a [y]) = Inr r' \<and>
      (\<forall>k. cnt r k = cnt r' k))"
  by (rule fusion_is_equivalent [where dk = dk_ab])
    (simp_all add: ev_only_a_known ev_same_known, simp add: one_to_one_def ev_same_def)

section \<open>Stream operators\<close>

text \<open>
  An integrator followed by a differentiator, both fresh, copies a stream: every
  output has the multiplicities of the delta it was fed.  The rewriter removes such pairs.
\<close>

theorem integrate_differentiate_cancel:
  assumes "\<forall>z \<in> set zs. zwf z"
  shows "\<exists>s rs. run_op integrate_diff (NewDocumentZSet, NewDocumentZSet) zs = (s, Inr rs)
    \<and> list_all2 (\<lambda>z r. zwf r \<and> (\<forall>k. cnt r k = cnt z k)) zs rs"
  using assms by (intro integrate_diff_run) auto

theorem integrate_differentiate_cancel_witness:
  "\<exists>s rs. run_op integrate_diff (NewDocumentZSet, NewDocumentZSet) [zset_ab 1 2, zset_ab (- 1) 5] = (s, Inr rs)
    \<and> list_all2 (\<lambda>z r. zwf r \<and> (\<forall>k. cnt r k = cnt z k)) [zset_ab 1 2, zset_ab (- 1) 5] rs"
  by (rule integrate_differentiate_cancel) simp

text \<open>
  The differentiator turns snapshots into deltas: its outputs add up to the
  last snapshot it was given, and the first is that snapshot itself.
\<close>

theorem differentiator_telescopes:
  assumes "\<forall>z \<in> set zs. zwf z" and "zs \<noteq> []"
  shows "\<exists>p rs. run_op (\<lambda>p z. DifferentiatorOp_Process p [z]) NewDocumentZSet zs = (p, Inr rs)
    \<and> length rs = length zs \<and> (\<forall>k. total rs k = cnt (last zs) k)"
proof -
  have "foldl (\<lambda>_. cnt) a zs = cnt (last zs)" for a
    using assms(2) by (induction zs rule: rev_induct) auto
  with diffr.telescopes [of NewDocumentZSet "\<lambda>_. 0" zs] assms(1) show ?thesis by auto
qed

theorem differentiator_telescopes_witness:
  "\<exists>p rs. run_op (\<lambda>p z. DifferentiatorOp_Process p [z]) NewDocumentZSet [zset_ab 1 2, zset_ab 4 0] = (p, Inr rs)
    \<and> length rs = length [zset_ab 1 2, zset_ab 4 0] \<and> (\<forall>k. total rs k = cnt (last [zset_ab 1 2, zset_ab 4 0]) k)"
  by (rule differentiator_telescopes) simp_all

section \<open>Joins\<close>

lemma join_accum_nth:
  assumes "\<forall>ds \<in> set dss. length ds = n"
  shows "foldl join_accum (map F [0..<n]) dss = map (\<lambda>i k. F i k + total (map (\<lambda>ds. ds ! i) dss) k) [0..<n]"
  using assms
proof (induction dss arbitrary: F)
  case (Cons ds dss)
  then have "join_accum (map F [0..<n]) ds = map (\<lambda>i k. F i k + cnt (ds ! i) k) [0..<n]"
    by (intro nth_equalityI) (simp_all add: join_accum_def)
  with Cons.IH [of "\<lambda>i k. F i k + cnt (ds ! i) k"] Cons.prems show ?case by (simp add: add.assoc)
qed (simp add: fun_eq_iff)

text \<open>The accumulated inputs of a stream of join deltas.\<close>

definition accumulates :: "zset list list \<Rightarrow> zset list \<Rightarrow> bool" where
  "accumulates dss zs \<longleftrightarrow> (\<forall>i < length zs. \<forall>k. cnt (zs ! i) k = total (map (\<lambda>ds. ds ! i) dss) k)"

lemma accumulates_foldl:
  assumes "accumulates dss zs" and "\<forall>ds \<in> set dss. length ds = length zs"
  shows "foldl join_accum (map (\<lambda>_ _. 0) [0..<length zs]) dss = map cnt zs"
proof (rule nth_equalityI)
  show "length (foldl join_accum (map (\<lambda>_ _. 0) [0..<length zs]) dss) = length (map cnt zs)"
    using join_accum_nth [OF assms(2), of "\<lambda>_ _. 0"] by simp
  fix i assume "i < length (foldl join_accum (map (\<lambda>_ _. 0) [0..<length zs]) dss)"
  then show "foldl join_accum (map (\<lambda>_ _. 0) [0..<length zs]) dss ! i = map cnt zs ! i"
    using join_accum_nth [OF assms(2), of "\<lambda>_ _. 0"] assms(1) by (simp add: accumulates_def fun_eq_iff)
qed

text \<open>
  C4. The incremental n-ary join is correct: fed the deltas of its inputs, it
  produces outputs that add up to what the snapshot join computes on the accumulated inputs.
  The code enumerates the \<open>2\<^sup>n - 1\<close> combinations of deltas and previous states.
\<close>

theorem incremental_join_correct:
  assumes "joins_known dk eval names" and "names \<noteq> []" and "length names < 63"
    and "\<forall>ds \<in> set dss. join_okay dk names ds" and "join_okay dk names zs" and "accumulates dss zs"
  shows "\<exists>ss rs r. run_op (IncrementalJoinOp_Process eval names) (NewIncrementalJoin_state names) dss = (ss, Inr rs)
    \<and> JoinOp_Process eval names zs = Inr r \<and> length rs = length dss \<and> (\<forall>k. cnt r k = total rs k)"
proof -
  let ?zero = "map (\<lambda>_ _. 0) [0..<length zs]"
  have len: "length zs = length names" "\<forall>ds \<in> set dss. length ds = length zs"
    using assms(4,5) by (auto simp: join_okay_def)
  have zk: "\<And>z. z \<in> set zs \<Longrightarrow> zknown dk z" using assms(5) by (auto simp: join_okay_def)
  have st: "join_st dk eval names (NewIncrementalJoin_state names) ?zero"
    using assms(1,3) len by (simp add: join_st_def NewIncrementalJoin_state_def init_state_def map_replicate_const fun_eq_iff)
  from ijoin.telescopes [OF st, of dss] assms(4) obtain ss rs where
    t: "run_op (IncrementalJoinOp_Process eval names) (NewIncrementalJoin_state names) dss = (ss, Inr rs)"
      "length rs = length dss"
      "\<And>k. total rs k = join_snap dk eval names (foldl join_accum ?zero dss) k - join_snap dk eval names ?zero k"
    by auto
  obtain r where r: "JoinOp_Process eval names zs = Inr r" "\<And>k. cnt r k = join_snap dk eval names (map cnt zs) k"
    using JoinOp_known [OF assms(1) zk len(1)] by blast
  have "join_snap dk eval names ?zero k = 0" for k
    using assms(2) len(1) by (intro join_snap_zero) auto
  with t r accumulates_foldl [OF assms(6) len(2)] show ?thesis by auto
qed

lemma ev_left_joins: "joins_known dk_ab ev_left [''l'', ''r'']"
  unfolding joins_known_def
proof (intro allI impI)
  fix ds assume "length ds = length [''l'', ''r'']" "\<forall>d \<in> set ds. known dk_ab d"
  then obtain x y where "ds = [x, y]" "known dk_ab x" by (auto simp: length_Suc_conv)
  then show "\<exists>out. ev_left (join_input [''l'', ''r''] ds) = Inr out \<and> (\<forall>z \<in> set out. known dk_ab z)"
    by (simp add: ev_left_def join_input_def)
qed

text \<open>Two steps of deltas of two inputs, and the inputs they add up to.\<close>

definition join_deltas :: "zset list list" where
  "join_deltas = [[zset_ab 1 2, zset_ab 1 0], [zset_ab 0 (- 1), zset_ab 2 1]]"

definition join_snapshot :: "zset list" where
  "join_snapshot = [zset_ab 1 1, zset_ab 3 1]"

lemma join_samples: "\<forall>ds \<in> set join_deltas. join_okay dk_ab [''l'', ''r''] ds" "join_okay dk_ab [''l'', ''r''] join_snapshot"
  "accumulates join_deltas join_snapshot"
  by (auto simp: join_deltas_def join_snapshot_def join_okay_def accumulates_def less_Suc_eq zset_ab_cnt algebra_simps)

theorem incremental_join_correct_witness:
  "\<exists>ss rs r. run_op (IncrementalJoinOp_Process ev_left [''l'', ''r'']) (NewIncrementalJoin_state [''l'', ''r'']) join_deltas
      = (ss, Inr rs) \<and> JoinOp_Process ev_left [''l'', ''r''] join_snapshot = Inr r
    \<and> length rs = length join_deltas \<and> (\<forall>k. cnt r k = total rs k)"
  by (rule incremental_join_correct [OF ev_left_joins _ _ join_samples]) simp_all

text \<open>
  The incremental binary join is correct in the same sense, with the three
  terms of the bilinear expansion, and the binary snapshot join computes what the n-ary join
  of two inputs computes.
\<close>

theorem incremental_binary_join_correct:
  assumes "joins_known dk eval [n0, n1]" and "\<forall>ds \<in> set dss. join_okay dk [n0, n1] ds"
    and "join_okay dk [n0, n1] zs" and "accumulates dss zs"
  shows "\<exists>s rs r r'. run_op (IncrementalBinaryJoinOp_Process eval [n0, n1]) NewIncrementalBinaryJoin_state dss = (s, Inr rs)
    \<and> BinaryJoinOp_Process eval [n0, n1] zs = Inr r \<and> JoinOp_Process eval [n0, n1] zs = Inr r'
    \<and> length rs = length dss \<and> (\<forall>k. cnt r k = total rs k) \<and> (\<forall>k. cnt r k = cnt r' k)"
proof -
  have len: "length zs = 2" "\<forall>ds \<in> set dss. length ds = length zs"
    using assms(2,3) by (auto simp: join_okay_def)
  then obtain a b where zs: "zs = [a, b]" by (auto simp: length_Suc_conv numeral_2_eq_2)
  then have ab: "zknown dk a" "zknown dk b" using assms(3) by (auto simp: join_okay_def)
  have st: "binary_join_st dk eval [n0, n1] NewIncrementalBinaryJoin_state (map (\<lambda>_ _. 0) [0..<length zs])"
    using assms(1) by (simp add: binary_join_st_def NewIncrementalBinaryJoin_state_def zs fun_eq_iff)
  from ibjoin.telescopes [OF st, of dss] assms(2) obtain s rs where
    t: "run_op (IncrementalBinaryJoinOp_Process eval [n0, n1]) NewIncrementalBinaryJoin_state dss = (s, Inr rs)"
      "length rs = length dss"
      "\<And>k. total rs k = join_snap dk eval [n0, n1] (foldl join_accum (map (\<lambda>_ _. 0) [0..<length zs]) dss) k
        - join_snap dk eval [n0, n1] (map (\<lambda>_ _. 0) [0..<length zs]) k"
    by auto
  have zero: "join_snap dk eval [n0, n1] (map (\<lambda>_ _. 0) [0..<length zs]) k = 0" for k
    by (intro join_snap_zero) (auto simp: zs)
  obtain r where r: "BinaryJoinOp_Process eval [n0, n1] [a, b] = Inr r"
      "\<And>k. cnt r k = join_snap dk eval [n0, n1] [cnt a, cnt b] k"
    using adds_known [OF BinaryJoin_adds [OF assms(1) ab]] by blast
  obtain r' where r': "JoinOp_Process eval [n0, n1] [a, b] = Inr r'" "\<forall>k. cnt r k = cnt r' k"
    using BinaryJoin_is_join [OF assms(1) ab] r(1) by auto
  have "cnt r k = total rs k" for k
    using t(3) zero r(2) accumulates_foldl [OF assms(4) len(2)] by (simp add: zs)
  with t(1,2) r(1) r' show ?thesis unfolding zs by blast
qed

theorem incremental_binary_join_correct_witness:
  "\<exists>s rs r r'. run_op (IncrementalBinaryJoinOp_Process ev_left [''l'', ''r'']) NewIncrementalBinaryJoin_state join_deltas
      = (s, Inr rs) \<and> BinaryJoinOp_Process ev_left [''l'', ''r''] join_snapshot = Inr r
    \<and> JoinOp_Process ev_left [''l'', ''r''] join_snapshot = Inr r'
    \<and> length rs = length join_deltas \<and> (\<forall>k. cnt r k = total rs k) \<and> (\<forall>k. cnt r k = cnt r' k)"
  by (rule incremental_binary_join_correct [OF ev_left_joins join_samples])

section \<open>Gather\<close>

text \<open>
  C19. The incremental gather maintains its view: whatever deltas it is fed, in
  whatever iteration order, its outputs add up to exactly one aggregated document per group it
  currently holds, and no group it holds is empty.
\<close>

theorem incremental_gather_maintains:
  assumes "aggregates ag" and "\<forall>z \<in> set zs. gather_okay kk ke ve z"
  shows "\<exists>gs rs. run_op (\<lambda>gs z. IncrementalGatherOp_Process ke ve ag gs [z]) [] zs = (gs, Inr rs)
    \<and> length rs = length zs \<and> groups_ok kk gs \<and> (\<forall>k. total rs k = gather_snap ag gs k)"
proof -
  have st: "gather_st kk ag [] []" using assms(1) by (simp add: gather_st_def groups_ok_def)
  from igather.telescopes [OF st, of zs ke ve] assms(2) obtain gs rs where
    t: "run_op (\<lambda>gs z. IncrementalGatherOp_Process ke ve ag gs [z]) [] zs = (gs, Inr rs)" "length rs = length zs"
      "gather_st kk ag gs (foldl (\<lambda>gs z. fst (IncrementalGatherOp_Process ke ve ag gs [z])) [] zs)"
      "\<And>k. total rs k = gather_snap ag (foldl (\<lambda>gs z. fst (IncrementalGatherOp_Process ke ve ag gs [z])) [] zs) k
        - gather_snap ag [] k"
    by blast
  then have "groups_ok kk gs" "\<forall>k. total rs k = gather_snap ag gs k"
    by (auto simp: gather_st_def gather_snap_def)
  with t(1,2) show ?thesis by blast
qed

text \<open>Group by the field \<open>name\<close>, collect the field \<open>xs\<close> (or true), store the values in the document.\<close>

definition name_of :: extractor where
  "name_of d = Inr (case map_of d ''name'' of Some v \<Rightarrow> v | None \<Rightarrow> VNil)"

definition has_xs :: extractor where
  "has_xs d = Inr (VBool (map_of d ''xs'' \<noteq> None))"

definition collect :: aggregator where
  "collect d a = Inr [(''key'', ai_Key a), (''values'', VList (ai_Values a))]"

definition key_of_text :: "string \<Rightarrow> gval" where
  "key_of_text s = (if computeJSONAny (VStr ''b'') = Inr s then VStr ''b'' else VStr ''a'')"

lemma collect_aggregates: "aggregates collect"
  by (auto simp: aggregates_def collect_def list_all_iff)

lemma json_str_ab: "json_str ''b'' \<noteq> json_str ''a''"
  by code_simp

lemma gatherable_ab: "gatherable key_of_text name_of has_xs doc_a" "gatherable key_of_text name_of has_xs doc_b"
  unfolding gatherable_def using json_str_ab
  by (auto intro!: exI [of _ "VStr ''a''"] exI [of _ "VStr ''b''"] exI
      simp: gather_extract_def name_of_def has_xs_def key_of_text_def doc_a_def doc_b_def computeJSONAny_def)

lemma gather_okay_ab: "gather_okay key_of_text name_of has_xs (zset_ab m n)"
  using zset_ab_docs [of m n] gatherable_ab by (auto simp: gather_okay_def)

theorem incremental_gather_maintains_witness:
  "\<exists>gs rs. run_op (\<lambda>gs z. IncrementalGatherOp_Process name_of has_xs collect gs [z]) [] [zset_ab 1 2, zset_ab 1 (- 1)] = (gs, Inr rs)
    \<and> length rs = length [zset_ab 1 2, zset_ab 1 (- 1)] \<and> groups_ok key_of_text gs
    \<and> (\<forall>k. total rs k = gather_snap collect gs k)"
  by (rule incremental_gather_maintains [OF collect_aggregates]) (simp add: gather_okay_ab)

text \<open>
  C17. The values a group collects are exact: when every value a delta removes
  is present, then after the delta every group holds every value as often as before plus the
  signed multiplicities of the documents that carry it, whatever the iteration order.
\<close>

theorem gather_values_exact:
  assumes "aggregates ag" and "groups_ok kk gs" and "gather_okay kk ke ve z" and "covers ke ve gs z (counts z)"
  shows "\<exists>gs' r. IncrementalGatherOp_Process ke ve ag gs [z] = (gs', Inr r) \<and>
    (\<forall>s vk. int (vcount gs' s vk) = int (vcount gs s vk) +
      (\<Sum>(k, m) \<leftarrow> counts z. if slot ke ve (zdoc z k) = Some (s, vk) then sint m else 0))"
  using IncrementalGather_step [OF assms(1-3)] assms(4) unfolding slot_sum_def by blast

theorem gather_values_exact_witness:
  "\<exists>gs1 r1 gs2 r2. IncrementalGatherOp_Process name_of has_xs collect [] [zset_ab 1 2] = (gs1, Inr r1)
    \<and> IncrementalGatherOp_Process name_of has_xs collect gs1 [zset_ab 1 (- 1)] = (gs2, Inr r2)
    \<and> (case slot name_of has_xs doc_b of Some (s, vk) \<Rightarrow> vcount gs1 s vk = 2 \<and> vcount gs2 s vk = 1 | None \<Rightarrow> False)"
proof -
  have z: "counts (zset_ab 1 2) = [(key_a, 1), (key_b, 2)]" "counts (zset_ab 1 (- 1)) = [(key_a, 1), (key_b, - 1)]"
    "zdoc (zset_ab 1 2) key_a = doc_a" "zdoc (zset_ab 1 2) key_b = doc_b"
    "zdoc (zset_ab 1 (- 1)) key_a = doc_a" "zdoc (zset_ab 1 (- 1)) key_b = doc_b" by code_simp+
  have slots: "slot name_of has_xs doc_a \<noteq> slot name_of has_xs doc_b" "slot name_of has_xs doc_b \<noteq> None" by code_simp+
  have empty: "vcount [] s vk = 0" for s vk by (simp add: vcount_def vals_def)
  have "covers name_of has_xs [] (zset_ab 1 2) (counts (zset_ab 1 2))" by (simp add: covers_def z)
  moreover have "groups_ok key_of_text []" by (simp add: groups_ok_def)
  moreover note first = IncrementalGather_step [OF collect_aggregates this gather_okay_ab [of 1 2]]
  ultimately obtain gs1 r1 where gs1: "IncrementalGatherOp_Process name_of has_xs collect [] [zset_ab 1 2] = (gs1, Inr r1)"
    and ok: "groups_ok key_of_text gs1"
    and count1: "\<And>s vk. int (vcount gs1 s vk) = (\<Sum>(k, m) \<leftarrow> counts (zset_ab 1 2). if slot name_of has_xs (zdoc (zset_ab 1 2) k) = Some (s, vk) then sint m else 0)"
    using gather_values_exact [OF collect_aggregates, of key_of_text "[]" name_of has_xs "zset_ab 1 2", OF _ gather_okay_ab] empty by auto
  have "covers name_of has_xs gs1 (zset_ab 1 (- 1)) (counts (zset_ab 1 (- 1)))"
    by (simp add: covers_def z count1)
  then obtain gs2 r2 where gs2: "IncrementalGatherOp_Process name_of has_xs collect gs1 [zset_ab 1 (- 1)] = (gs2, Inr r2)"
    and count2: "\<And>s vk. int (vcount gs2 s vk) = int (vcount gs1 s vk) +
      (\<Sum>(k, m) \<leftarrow> counts (zset_ab 1 (- 1)). if slot name_of has_xs (zdoc (zset_ab 1 (- 1)) k) = Some (s, vk) then sint m else 0)"
    using gather_values_exact [OF collect_aggregates ok gather_okay_ab] by blast
  obtain s vk where s: "slot name_of has_xs doc_b = Some (s, vk)" using slots(2) by force
  have "int (vcount gs1 s vk) = 2" "int (vcount gs2 s vk) = 1" using slots(1) s by (simp_all add: count2 count1 z)
  with gs1 gs2 s show ?thesis by auto
qed

section \<open>Reset\<close>

text \<open>
  \<^verbatim>\<open>resetOperator\<close> restores the initial state of a stream operator, a binary
  incremental join or an incremental gather after any call, but leaves the state of an n-ary
  incremental join as it is: the case is missing from the switch.
\<close>

theorem reset_operator:
  "resetOperator (fst (op_Process (IntegratorOp NewDocumentZSet) zs)) = IntegratorOp NewDocumentZSet \<and>
   resetOperator (fst (op_Process (DifferentiatorOp NewDocumentZSet) zs)) = DifferentiatorOp NewDocumentZSet \<and>
   resetOperator (fst (op_Process (DelayOp NewDocumentZSet) zs)) = DelayOp NewDocumentZSet \<and>
   resetOperator (fst (op_Process (NewIncrementalBinaryJoin eval names) zs)) = NewIncrementalBinaryJoin eval names \<and>
   resetOperator (fst (op_Process (NewIncrementalGather ke ve ag) zs)) = NewIncrementalGather ke ve ag \<and>
   resetOperator (IncrementalJoinOp eval names ss) = IncrementalJoinOp eval names ss"
  by (auto simp: NewIncrementalBinaryJoin_def NewIncrementalGather_def stream_op_Reset_def split: prod.splits)

end
