(* ===== verification/Chain.thy ===== *)
theory Chain
  imports Operators
begin

text \<open>
  Package \<^verbatim>\<open>dbsp\<close>, file \<^verbatim>\<open>chain.go\<close>: the query graph, inputs followed by an optional join and
  a chain of operators.  Node identifiers are generated from a counter; the invariant
  \<open>graph_wf\<close> says that they are unique, that every node referred to exists and that the inputs
  have distinct external names.
\<close>

section \<open>The graph and its operations\<close>

record ChainGraph =
  g_inputs :: "string list"
  g_inputIdx :: "(string \<times> string) list"
  g_joinNode :: string
  g_chain :: "string list"
  g_output :: string
  g_nodes :: "(string \<times> operator) list"
  g_nextID :: nat

definition NewChainGraph :: ChainGraph where
  "NewChainGraph = \<lparr>g_inputs = [], g_inputIdx = [], g_joinNode = [], g_chain = [], g_output = [],
     g_nodes = [], g_nextID = 0\<rparr>"

text \<open>\<^verbatim>\<open>graph.nodes[id].Op\<close>: a missing node is a nil dereference.\<close>

definition get_op :: "ChainGraph \<Rightarrow> string \<Rightarrow> operator res" where
  "get_op g nid = (case map_of (g_nodes g) nid of None \<Rightarrow> Inl nil_dereference | Some oper \<Rightarrow> Inr oper)"

definition set_op :: "string \<Rightarrow> operator \<Rightarrow> ChainGraph \<Rightarrow> ChainGraph" where
  "set_op nid oper g = g\<lparr>g_nodes := AList.update nid oper (g_nodes g)\<rparr>"

text \<open>Generated identifiers: \<^verbatim>\<open>fmt.Sprintf("input_%d", g.nextID)\<close> and alike.\<close>

definition input_id :: "nat \<Rightarrow> string" where
  "input_id n = ''input_'' @ nat_str n"

definition join_id :: "nat \<Rightarrow> string" where
  "join_id n = ''join_'' @ nat_str n"

definition op_id :: "nat \<Rightarrow> string" where
  "op_id n = ''op_'' @ nat_str n"

text \<open>\<^verbatim>\<open>AddInput\<close> of an \<^verbatim>\<open>InputOp\<close> with the given name and data.\<close>

definition AddInput :: "ChainGraph \<Rightarrow> string \<Rightarrow> zset \<Rightarrow> ChainGraph \<times> string" where
  "AddInput g name data =
     (if name \<in> snd ` set (g_inputIdx g) then (g, [])
      else let nid = input_id (g_nextID g) in
        (g\<lparr>g_nextID := Suc (g_nextID g), g_inputs := g_inputs g @ [nid],
           g_inputIdx := AList.update nid name (g_inputIdx g),
           g_nodes := AList.update nid (InputOp name data) (g_nodes g)\<rparr>, nid))"

definition graph_Arity :: "ChainGraph \<Rightarrow> nat" where
  "graph_Arity g = length (g_inputs g)"

text \<open>The result is \<^term>\<open>None\<close> for \<^verbatim>\<open>nil\<close>; a node that is not an input fails the type assertion.\<close>

definition GetInput :: "ChainGraph \<Rightarrow> string \<Rightarrow> operator option res" where
  "GetInput g name =
     (case find (\<lambda>nid. map_of (g_inputIdx g) nid = Some name) (g_inputs g) of
        None \<Rightarrow> Inr None
      | Some nid \<Rightarrow> bind (get_op g nid) (\<lambda>oper.
          case oper of InputOp _ _ \<Rightarrow> Inr (Some oper) | _ \<Rightarrow> Inl (Panic ''interface conversion'')))"

definition SetJoin :: "ChainGraph \<Rightarrow> operator \<Rightarrow> ChainGraph \<times> string" where
  "SetJoin g oper =
     (let nid = join_id (g_nextID g) in
      (g\<lparr>g_nextID := Suc (g_nextID g), g_nodes := AList.update nid oper (g_nodes g), g_joinNode := nid,
         g_output := (if g_chain g = [] then nid else g_output g)\<rparr>, nid))"

definition GetChain :: "ChainGraph \<Rightarrow> operator list res" where
  "GetChain g = mapM (get_op g) (g_chain g)"

definition AddToChain :: "ChainGraph \<Rightarrow> operator \<Rightarrow> ChainGraph \<times> string" where
  "AddToChain g oper =
     (let nid = op_id (g_nextID g) in
      (g\<lparr>g_nextID := Suc (g_nextID g), g_nodes := AList.update nid oper (g_nodes g),
         g_chain := g_chain g @ [nid], g_output := nid\<rparr>, nid))"

definition GetStartNode :: "ChainGraph \<Rightarrow> string" where
  "GetStartNode g =
     (if g_joinNode g \<noteq> [] then g_joinNode g
      else case g_inputs g of i # _ \<Rightarrow> i | [] \<Rightarrow> [])"

definition Validate :: "ChainGraph \<Rightarrow> ChainGraph \<times> unit res" where
  "Validate g =
     (if length (g_inputs g) = 0 then (g, Inl (Error ''no input nodes''))
      else if length (g_inputs g) > 1 \<and> g_joinNode g = []
      then (g, Inl (Error ''multiple inputs require a join node''))
      else if g_output g = [] then
        (if g_chain g \<noteq> [] then (g\<lparr>g_output := last (g_chain g)\<rparr>, Inr ())
         else if g_joinNode g \<noteq> [] then (g\<lparr>g_output := g_joinNode g\<rparr>, Inr ())
         else if length (g_inputs g) = 1 then (g\<lparr>g_output := g_inputs g ! 0\<rparr>, Inr ())
         else (g, Inl (Error ''no output node and cannot infer one'')))
      else (g, Inr ()))"

section \<open>Invariant\<close>

text \<open>The identifiers generated while the counter was below \<open>n\<close>.\<close>

definition ids_below :: "nat \<Rightarrow> string set" where
  "ids_below n = (\<Union>i < n. {input_id i, join_id i, op_id i})"

definition join_ids :: "ChainGraph \<Rightarrow> string list" where
  "join_ids g = (if g_joinNode g = [] then [] else [g_joinNode g])"

text \<open>Every input node carries the name under which the index lists it.\<close>

definition inputs_named :: "(string \<times> operator) list \<Rightarrow> (string \<times> string) list \<Rightarrow> bool" where
  "inputs_named ns idx \<longleftrightarrow> (\<forall>(nid, name) \<in> set idx. \<exists>data. map_of ns nid = Some (InputOp name data))"

definition graph_wf :: "ChainGraph \<Rightarrow> bool" where
  "graph_wf g \<longleftrightarrow>
     distinct (map fst (g_nodes g)) \<and> keys (g_nodes g) \<subseteq> ids_below (g_nextID g) \<and>
     distinct (g_inputs g @ join_ids g @ g_chain g) \<and>
     set (g_inputs g @ join_ids g @ g_chain g) \<subseteq> keys (g_nodes g) \<and>
     map fst (g_inputIdx g) = g_inputs g \<and> distinct (map snd (g_inputIdx g)) \<and>
     inputs_named (g_nodes g) (g_inputIdx g)"

lemma inputs_named_update:
  "nid \<notin> fst ` set idx \<Longrightarrow> inputs_named (AList.update nid oper ns) idx = inputs_named ns idx"
  by (force simp: inputs_named_def update_conv')

lemma inputs_named_new:
  "inputs_named ns idx \<Longrightarrow> nid \<notin> fst ` set idx \<Longrightarrow>
   inputs_named (AList.update nid (InputOp name data) ns) (idx @ [(nid, name)])"
  by (force simp: inputs_named_def update_conv')

lemma ids_fresh:
  "input_id n \<notin> ids_below n" "join_id n \<notin> ids_below n" "op_id n \<notin> ids_below n"
  by (auto simp: ids_below_def input_id_def join_id_def op_id_def dest: nat_str_inj)

lemma ids_below_Suc: "ids_below n \<subseteq> ids_below (Suc n)"
  "input_id n \<in> ids_below (Suc n)" "join_id n \<in> ids_below (Suc n)"
  "op_id n \<in> ids_below (Suc n)"
  by (auto simp: ids_below_def less_Suc_eq)

lemma ids_nonempty: "[] \<notin> ids_below n"
  by (auto simp: ids_below_def input_id_def join_id_def op_id_def)

lemma generated_nonempty [simp]: "input_id n \<noteq> []" "join_id n \<noteq> []" "op_id n \<noteq> []"
  by (simp_all add: input_id_def join_id_def op_id_def)

lemma get_op_set_op: "get_op (set_op nid oper g) i = (if i = nid then Inr oper else get_op g i)"
  by (simp add: get_op_def set_op_def update_conv')

lemma set_op_fields [simp]:
  "g_inputs (set_op i oper g) = g_inputs g" "g_inputIdx (set_op i oper g) = g_inputIdx g"
  "g_joinNode (set_op i oper g) = g_joinNode g" "g_chain (set_op i oper g) = g_chain g"
  "g_output (set_op i oper g) = g_output g" "g_nextID (set_op i oper g) = g_nextID g"
  "join_ids (set_op i oper g) = join_ids g"
  by (simp_all add: set_op_def join_ids_def)

lemma graph_wf_New: "graph_wf NewChainGraph"
  by (simp add: graph_wf_def NewChainGraph_def join_ids_def inputs_named_def)

text \<open>Identifiers about to be generated are new.\<close>

lemma graph_wf_fresh:
  assumes "graph_wf g" and "nid \<notin> ids_below (g_nextID g)"
  shows "nid \<notin> keys (g_nodes g)" "nid \<notin> set (g_inputs g)" "nid \<notin> set (join_ids g)" "nid \<notin> set (g_chain g)"
    "nid \<notin> fst ` set (g_inputIdx g)"
  using assms unfolding graph_wf_def set_append by (auto simp flip: set_map)

lemma graph_wf_AddInput:
  assumes "graph_wf g"
  shows "graph_wf (fst (AddInput g name data))"
proof (cases "name \<in> snd ` set (g_inputIdx g)")
  case False
  let ?nid = "input_id (g_nextID g)"
  note fresh = graph_wf_fresh [OF assms ids_fresh(1)]
  have idx: "AList.update ?nid name (g_inputIdx g) = g_inputIdx g @ [(?nid, name)]"
    using fresh(5) by (rule set_update_new)
  from assms False fresh ids_below_Suc [of "g_nextID g"] show ?thesis
    unfolding AddInput_def graph_wf_def Let_def
    by (auto simp: idx join_ids_def distinct_update inputs_named_new split: if_splits)
qed (use assms in \<open>simp add: AddInput_def\<close>)

lemma graph_wf_SetJoin:
  assumes "graph_wf g"
  shows "graph_wf (fst (SetJoin g oper))"
proof -
  let ?nid = "join_id (g_nextID g)"
  note fresh = graph_wf_fresh [OF assms ids_fresh(2)]
  from assms fresh ids_below_Suc [of "g_nextID g"] show ?thesis
    unfolding SetJoin_def graph_wf_def Let_def
    by (auto simp: join_ids_def distinct_update inputs_named_update split: if_splits)
qed

lemma graph_wf_AddToChain:
  assumes "graph_wf g"
  shows "graph_wf (fst (AddToChain g oper))"
proof -
  let ?nid = "op_id (g_nextID g)"
  note fresh = graph_wf_fresh [OF assms ids_fresh(3)]
  from assms fresh ids_below_Suc [of "g_nextID g"] show ?thesis
    unfolding AddToChain_def graph_wf_def Let_def
    by (auto simp: join_ids_def distinct_update inputs_named_update split: if_splits)
qed

lemma graph_wf_output [simp]: "graph_wf (g\<lparr>g_output := x\<rparr>) = graph_wf g"
  by (simp add: graph_wf_def join_ids_def)

lemma graph_wf_Validate: "graph_wf g \<Longrightarrow> graph_wf (fst (Validate g))"
  by (auto simp: Validate_def)

end
