(* ===== verification/Executor.thy ===== *)
theory Executor
  imports Chain
begin

text \<open>
  Package \<^verbatim>\<open>dbsp\<close>, file \<^verbatim>\<open>executor.go\<close>: executing a graph on one set of named inputs.
  The specification is a pure query, the join operator (if any) and the list of chain
  operators, and the executor is shown to refine it: one call of \<^verbatim>\<open>Process\<close> on the graph is
  one step of the query the graph denotes.  Logging and the textual execution plan are not
  modelled.
\<close>

section \<open>Operations\<close>

definition NewExecutor :: "ChainGraph \<Rightarrow> ChainGraph \<times> unit res" where
  "NewExecutor g = (case Validate g of (g', r) \<Rightarrow> (g', rewrap ''invalid graph'' r))"

definition NewSnapshotExecutor :: "ChainGraph \<Rightarrow> ChainGraph \<times> unit res" where
  "NewSnapshotExecutor g = NewExecutor g"

text \<open>Step 1 of \<^verbatim>\<open>Process\<close>: the inputs in the order of the graph.\<close>

definition select_inputs :: "ChainGraph \<Rightarrow> (string \<times> zset) list \<Rightarrow> zset list res" where
  "select_inputs g ins =
     (if length ins \<noteq> length (g_inputs g) then Inl (Error ''expected a different number of inputs'')
      else mapM (\<lambda>inputID.
        case map_of (g_inputIdx g) inputID of
          None \<Rightarrow> Inl (Error ''internal error: no input for ID'')
        | Some inputName \<Rightarrow>
            (case map_of ins inputName of
               None \<Rightarrow> Inl (Error ''missing input for node'')
             | Some z \<Rightarrow> Inr z)) (g_inputs g))"

text \<open>Step 3: the loop over the chain.  Operators update their state in the graph.\<close>

fun chain_loop :: "ChainGraph \<Rightarrow> string list \<Rightarrow> zset \<Rightarrow> ChainGraph \<times> zset res" where
  "chain_loop g [] z = (g, Inr z)"
| "chain_loop g (nodeID # rest) z =
     (case get_op g nodeID of
        Inl e \<Rightarrow> (g, Inl e)
      | Inr oper \<Rightarrow>
          (case op_Process oper [z] of
             (oper', Inl e) \<Rightarrow> (set_op nodeID oper' g, Inl (wrap ''operation failed'' e))
           | (oper', Inr r) \<Rightarrow> chain_loop (set_op nodeID oper' g) rest r))"

text \<open>Step 2: the join, or the only input.\<close>

definition join_step :: "ChainGraph \<Rightarrow> zset list \<Rightarrow> ChainGraph \<times> zset res" where
  "join_step g zs =
     (if g_joinNode g \<noteq> [] then
        (case get_op g (g_joinNode g) of
           Inl e \<Rightarrow> (g, Inl e)
         | Inr oper \<Rightarrow>
             (case op_Process oper zs of
                (oper', r) \<Rightarrow> (set_op (g_joinNode g) oper' g, rewrap ''join operation failed'' r)))
      else case zs of z # _ \<Rightarrow> (g, Inr z) | [] \<Rightarrow> (g, Inl (Panic ''index out of range'')))"

definition Executor_Process :: "ChainGraph \<Rightarrow> (string \<times> zset) list \<Rightarrow> ChainGraph \<times> zset res" where
  "Executor_Process g ins =
     (case select_inputs g ins of
        Inl e \<Rightarrow> (g, Inl e)
      | Inr zs \<Rightarrow>
          (case join_step g zs of
             (g1, Inl e) \<Rightarrow> (g1, Inl e)
           | (g1, Inr z) \<Rightarrow> chain_loop g1 (g_chain g1) z))"

text \<open>Resetting a node that is missing from the graph would dereference nil.\<close>

definition reset_node :: "ChainGraph \<Rightarrow> string \<Rightarrow> ChainGraph res" where
  "reset_node g nid = bind (get_op g nid) (\<lambda>oper. Inr (set_op nid (resetOperator oper) g))"

definition Executor_Reset :: "ChainGraph \<Rightarrow> ChainGraph res" where
  "Executor_Reset g =
     bind (if g_joinNode g \<noteq> [] then reset_node g (g_joinNode g) else Inr g) (\<lambda>g1.
       foldM reset_node g1 (g_chain g1))"

definition SnapshotExecutor_Reset :: "ChainGraph \<Rightarrow> ChainGraph" where
  "SnapshotExecutor_Reset g = g"

text \<open>
  \<^verbatim>\<open>GetNodeResult\<close>, for debugging.  It looks the inputs up by node identifier where \<^verbatim>\<open>Process\<close>
  uses the external name; \<open>ins\<close> is the content of a map with an entry for every identifier.
\<close>

definition debug_join :: "ChainGraph \<Rightarrow> (string \<Rightarrow> zset) \<Rightarrow> ChainGraph \<times> zset res" where
  "debug_join g ins =
     (case get_op g (g_joinNode g) of
        Inl e \<Rightarrow> (g, Inl e)
      | Inr oper \<Rightarrow>
          (case op_Process oper (map ins (g_inputs g)) of
             (oper', r) \<Rightarrow> (set_op (g_joinNode g) oper' g, r)))"

definition GetNodeResult :: "ChainGraph \<Rightarrow> string \<Rightarrow> (string \<Rightarrow> zset) \<Rightarrow> ChainGraph \<times> zset res" where
  "GetNodeResult g nodeID ins =
     (if nodeID \<notin> keys (g_nodes g) then (g, Inl (Error ''node not found''))
      else if nodeID = g_joinNode g then debug_join g ins
      else if nodeID \<notin> set (g_chain g) then (g, Inl (Error ''node not found in chain''))
      else
        (case (if g_joinNode g \<noteq> [] then debug_join g ins
               else case g_inputs g of
                   [] \<Rightarrow> (g, Inl (Panic ''index out of range''))
                 | i # _ \<Rightarrow> (g, Inr (ins i))) of
           (g1, Inl e) \<Rightarrow> (g1, Inl e)
         | (g1, Inr z) \<Rightarrow>
             chain_loop g1 (takeWhile (\<lambda>i. i \<noteq> nodeID) (g_chain g1) @ [nodeID]) z))"

section \<open>The query a graph denotes\<close>

type_synonym query = "operator option \<times> operator list"

fun query_step :: "query \<Rightarrow> zset list \<Rightarrow> query \<times> zset res" where
  "query_step (Some j, ops) zs =
     (case op_Process j zs of
        (j', Inl e) \<Rightarrow> ((Some j', ops), Inl e)
      | (j', Inr z) \<Rightarrow> (case run_chain ops z of (ops', r) \<Rightarrow> ((Some j', ops'), r)))"
| "query_step (None, ops) zs =
     (case zs of
        [] \<Rightarrow> ((None, ops), Inl (Panic ''index out of range''))
      | z # _ \<Rightarrow> (case run_chain ops z of (ops', r) \<Rightarrow> ((None, ops'), r)))"

definition graph_query :: "ChainGraph \<Rightarrow> query res" where
  "graph_query g =
     bind (if g_joinNode g \<noteq> [] then bind (get_op g (g_joinNode g)) (\<lambda>j. Inr (Some j)) else Inr None) (\<lambda>j.
       bind (GetChain g) (\<lambda>ops. Inr (j, ops)))"

text \<open>The graph differs from \<open>g\<close> in the operators of the nodes \<open>ids\<close> only.\<close>

definition same_but :: "string set \<Rightarrow> ChainGraph \<Rightarrow> ChainGraph \<Rightarrow> bool" where
  "same_but ids g g' \<longleftrightarrow> g' = g\<lparr>g_nodes := g_nodes g'\<rparr> \<and> map fst (g_nodes g') = map fst (g_nodes g)
     \<and> (\<forall>i. i \<notin> ids \<longrightarrow> map_of (g_nodes g') i = map_of (g_nodes g) i)"

lemma same_but_refl [simp]: "same_but ids g g"
  by (simp add: same_but_def)

lemma same_but_fields:
  assumes "same_but ids g g'"
  shows "g_inputs g' = g_inputs g" "g_inputIdx g' = g_inputIdx g" "g_joinNode g' = g_joinNode g"
    "g_chain g' = g_chain g" "g_output g' = g_output g" "g_nextID g' = g_nextID g"
  using assms by (metis (no_types, lifting) ChainGraph.select_convs ChainGraph.surjective
      ChainGraph.update_convs(6) same_but_def)+

lemma same_but_trans:
  "same_but A g g1 \<Longrightarrow> same_but B g1 g2 \<Longrightarrow> same_but (A \<union> B) g g2"
  unfolding same_but_def by (metis (no_types, lifting) ChainGraph.surjective ChainGraph.update_convs(6) UnCI)

lemma update_fst: "k \<in> keys m \<Longrightarrow> map fst (AList.update k v m) = map fst m"
  by (induction m) auto

lemma same_but_set_op: "get_op g i = Inr oper \<Longrightarrow> same_but {i} g (set_op i oper' g)"
  by (auto simp: same_but_def set_op_def get_op_def update_conv' rev_image_eqI
      split: option.splits dest!: map_of_SomeD intro!: update_fst)

lemma mapM_get_op_set_op: "i \<notin> set ids \<Longrightarrow> mapM (get_op (set_op i oper g)) ids = mapM (get_op g) ids"
  by (rule mapM_cong) (auto simp: get_op_set_op)

lemma same_but_get_op: "same_but ids g g' \<Longrightarrow> i \<notin> ids \<Longrightarrow> get_op g' i = get_op g i"
  by (simp add: same_but_def get_op_def)

lemma same_but_wf:
  assumes "same_but ids g g'" and "graph_wf g" and "ids \<inter> set (g_inputs g) = {}"
  shows "graph_wf g'"
proof -
  note f = same_but_fields [OF assms(1)]
  have n: "map fst (g_nodes g') = map fst (g_nodes g)" using assms(1) by (simp add: same_but_def)
  then have k: "keys (g_nodes g') = keys (g_nodes g)" by (metis list.set_map)
  have "inputs_named (g_nodes g') (g_inputIdx g)"
    unfolding inputs_named_def
  proof (intro ballI, clarify)
    fix i name assume "(i, name) \<in> set (g_inputIdx g)"
    with assms(2) have "i \<in> set (g_inputs g)" "\<exists>data. map_of (g_nodes g) i = Some (InputOp name data)"
      unfolding graph_wf_def inputs_named_def by (metis fst_conv image_eqI list.set_map, blast)
    with assms(1,3) show "\<exists>data. map_of (g_nodes g') i = Some (InputOp name data)"
      by (auto simp: same_but_def)
  qed
  moreover have "join_ids g' = join_ids g" using f by (simp add: join_ids_def)
  ultimately show ?thesis using assms(2) n k f by (simp add: graph_wf_def)
qed

section \<open>The executor refines the query\<close>

lemma chain_loop_ok:
  assumes "distinct ids" and "mapM (get_op g) ids = Inr ops" and "run_chain ops z = (ops', Inr r)"
  shows "\<exists>g'. chain_loop g ids z = (g', Inr r) \<and> mapM (get_op g') ids = Inr ops' \<and> same_but (set ids) g g'"
  using assms
proof (induction ids arbitrary: g ops z ops')
  case (Cons i ids)
  from Cons.prems(2) obtain oper ops1 where o: "get_op g i = Inr oper" "mapM (get_op g) ids = Inr ops1"
      "ops = oper # ops1"
    by (auto simp: bind_Inr_iff)
  from Cons.prems(3) o(3) obtain oper' y ops1' where p: "op_Process oper [z] = (oper', Inr y)"
      "run_chain ops1 y = (ops1', Inr r)" "ops' = oper' # ops1'"
    by (auto split: prod.splits sum.splits)
  let ?g = "set_op i oper' g"
  have i: "i \<notin> set ids" using Cons.prems(1) by simp
  have "mapM (get_op ?g) ids = Inr ops1"
    using o(2) i by (simp add: mapM_get_op_set_op)
  from Cons.IH [OF _ this p(2)] Cons.prems(1) obtain g' where
    g': "chain_loop ?g ids y = (g', Inr r)" "mapM (get_op g') ids = Inr ops1'" "same_but (set ids) ?g g'"
    by auto
  have "same_but (set (i # ids)) g g'"
    using same_but_trans [OF same_but_set_op [OF o(1)] g'(3)] by simp
  moreover have "get_op g' i = Inr oper'"
    using same_but_get_op [OF g'(3) i] by (simp add: get_op_set_op)
  ultimately show ?case using g' p o(1) by simp
qed simp

lemma chain_loop_fails:
  assumes "distinct ids" and "mapM (get_op g) ids = Inr ops" and "run_chain ops z = (ops', Inl e)"
  shows "\<exists>g' e'. chain_loop g ids z = (g', Inl e')"
  using assms
proof (induction ids arbitrary: g ops z ops')
  case (Cons i ids)
  from Cons.prems(2) obtain oper ops1 where o: "get_op g i = Inr oper" "mapM (get_op g) ids = Inr ops1"
      "ops = oper # ops1"
    by (auto simp: bind_Inr_iff)
  obtain oper' p where p: "op_Process oper [z] = (oper', p)" by (cases "op_Process oper [z]")
  show ?case
  proof (cases p)
    case (Inr y)
    with Cons.prems(3) o(3) p obtain ops1' where "run_chain ops1 y = (ops1', Inl e)"
      by (auto split: prod.splits sum.splits)
    moreover have "mapM (get_op (set_op i oper' g)) ids = Inr ops1"
      using o(2) Cons.prems(1) by (simp add: mapM_get_op_set_op)
    ultimately have "\<exists>g' e'. chain_loop (set_op i oper' g) ids y = (g', Inl e')"
      using Cons.IH Cons.prems(1) by simp
    with o(1) p Inr show ?thesis by simp
  qed (simp add: o(1) p)
qed simp

lemma graph_wf_chain:
  assumes "graph_wf g"
  shows "distinct (g_chain g)" "g_joinNode g \<noteq> [] \<Longrightarrow> g_joinNode g \<notin> set (g_chain g)"
    "set (g_inputs g) \<inter> set (join_ids g @ g_chain g) = {}"
  using assms by (auto simp: graph_wf_def join_ids_def)

lemma graph_query_Inr:
  "graph_query g = Inr (j, ops) \<longleftrightarrow> GetChain g = Inr ops \<and>
     (case j of None \<Rightarrow> g_joinNode g = [] | Some oper \<Rightarrow> g_joinNode g \<noteq> [] \<and> get_op g (g_joinNode g) = Inr oper)"
  by (auto simp: graph_query_def bind_Inr_iff split: option.splits if_splits)

text \<open>A well-formed graph denotes a query: no node it refers to is missing.\<close>

lemma get_op_ok: "i \<in> keys (g_nodes g) \<Longrightarrow> \<exists>oper. get_op g i = Inr oper"
  using map_of_eq_None_iff [of "g_nodes g" i] by (auto simp: get_op_def split: option.splits)

lemma GetChain_ok:
  assumes "graph_wf g"
  shows "\<exists>ops. GetChain g = Inr ops"
proof -
  have "i \<in> keys (g_nodes g)" if "i \<in> set (g_chain g)" for i
    using assms that unfolding graph_wf_def set_append by blast
  then have "\<forall>i \<in> set (g_chain g). is_ok (get_op g i)" by (simp add: is_ok_iff get_op_ok)
  then have "is_ok (mapM (get_op g) (g_chain g))" by (simp add: mapM_is_ok)
  then show ?thesis by (simp add: GetChain_def is_ok_iff)
qed

lemma graph_query_ok:
  assumes "graph_wf g"
  shows "\<exists>q. graph_query g = Inr q"
proof -
  have "g_joinNode g \<noteq> [] \<Longrightarrow> g_joinNode g \<in> keys (g_nodes g)"
    using assms by (auto simp: graph_wf_def join_ids_def)
  then have "g_joinNode g \<noteq> [] \<Longrightarrow> \<exists>oper. get_op g (g_joinNode g) = Inr oper" by (blast intro: get_op_ok)
  then show ?thesis using GetChain_ok [OF assms] by (cases "g_joinNode g = []") (auto simp: graph_query_def)
qed

text \<open>The join step, seen from the query.\<close>

lemma join_step_refines:
  assumes "graph_wf g" and "graph_query g = Inr (j, ops)"
    and "(case j of Some oper \<Rightarrow> op_Process oper zs = (oper', Inr z) \<and> j' = Some oper'
       | None \<Rightarrow> (\<exists>rest. zs = z # rest) \<and> j' = None)"
  shows "\<exists>g'. join_step g zs = (g', Inr z) \<and> graph_query g' = Inr (j', ops) \<and> graph_wf g'
    \<and> same_but (set (join_ids g)) g g'"
proof (cases j)
  case None
  with assms show ?thesis by (auto simp: join_step_def graph_query_Inr)
next
  case (Some oper)
  let ?g = "set_op (g_joinNode g) oper' g"
  from assms(2,3) Some have j: "g_joinNode g \<noteq> []" "get_op g (g_joinNode g) = Inr oper" "GetChain g = Inr ops"
      "op_Process oper zs = (oper', Inr z)" "j' = Some oper'"
    by (auto simp: graph_query_Inr)
  have same: "same_but (set (join_ids g)) g ?g"
    using same_but_set_op [OF j(2)] j(1) by (simp add: join_ids_def)
  have "graph_query ?g = Inr (j', ops)"
    using j graph_wf_chain(2) [OF assms(1)]
    by (simp add: graph_query_Inr GetChain_def mapM_get_op_set_op get_op_set_op)
  moreover have "graph_wf ?g"
    using same_but_wf [OF same assms(1)] graph_wf_chain(3) [OF assms(1)] by auto
  ultimately show ?thesis using j same by (simp add: join_step_def)
qed

theorem executor_refines:
  assumes wf: "graph_wf g" and q: "graph_query g = Inr q" and ins: "select_inputs g ins = Inr zs"
    and step: "query_step q zs = (q', Inr r)"
  shows "\<exists>g'. Executor_Process g ins = (g', Inr r) \<and> graph_wf g' \<and> graph_query g' = Inr q'
    \<and> same_but (set (join_ids g @ g_chain g)) g g'"
proof -
  obtain j ops where jq: "q = (j, ops)" by (cases q)
  obtain z oper' j' ops' where st: "q' = (j', ops')" "run_chain ops z = (ops', Inr r)"
      "(case j of Some oper \<Rightarrow> op_Process oper zs = (oper', Inr z) \<and> j' = Some oper'
       | None \<Rightarrow> (\<exists>rest. zs = z # rest) \<and> j' = None)"
    using step jq by (cases j; cases zs) (auto split: prod.splits sum.splits)
  obtain g1 where g1: "join_step g zs = (g1, Inr z)" "graph_query g1 = Inr (j', ops)" "graph_wf g1"
      "same_but (set (join_ids g)) g g1"
    using join_step_refines [OF wf q [unfolded jq] st(3)] by blast
  note f = same_but_fields [OF g1(4)]
  have d: "distinct (g_chain g1)" "mapM (get_op g1) (g_chain g1) = Inr ops"
    using g1(2) graph_wf_chain(1) [OF g1(3)] by (auto simp: graph_query_Inr GetChain_def)
  obtain g' where g': "chain_loop g1 (g_chain g1) z = (g', Inr r)" "mapM (get_op g') (g_chain g1) = Inr ops'"
      "same_but (set (g_chain g1)) g1 g'"
    using chain_loop_ok [OF d st(2)] by blast
  note f' = same_but_fields [OF g'(3)]
  have wf': "graph_wf g'"
    using same_but_wf [OF g'(3) g1(3)] graph_wf_chain(3) [OF g1(3)] by auto
  have "get_op g' (g_joinNode g1) = get_op g1 (g_joinNode g1)" if "g_joinNode g1 \<noteq> []"
    using same_but_get_op [OF g'(3)] graph_wf_chain(2) [OF g1(3) that] by blast
  with g1(2) g'(2) f' st(1) have q': "graph_query g' = Inr q'"
    by (auto simp: graph_query_Inr GetChain_def split: option.splits)
  have "same_but (set (join_ids g @ g_chain g)) g g'"
    using same_but_trans [OF g1(4) g'(3)] f(4) by simp
  with wf' q' g1(1) g'(1) ins show ?thesis by (simp add: Executor_Process_def)
qed

end
