(* ===== verification/Rewrite.thy ===== *)
theory Rewrite
  imports Executor
begin

text \<open>
  Package \<^verbatim>\<open>dbsp\<close>, file \<^verbatim>\<open>rewrite_engine.go\<close>: the optimizer that turns a snapshot graph into
  an incremental one and simplifies its chain.  Every rule is modelled on the graph with its
  node table, and shown to act on the list of chain operators as a function on lists; the
  functions on lists are shown to preserve behaviour.
\<close>

section \<open>Operations\<close>

text \<open>Type assertions: \<^verbatim>\<open>op.(*SelectionOp)\<close> and \<^verbatim>\<open>op.(*ProjectionOp)\<close>, with the evaluator.\<close>

fun asSelection :: "operator \<Rightarrow> evaluator option" where
  "asSelection (SelectionOp f) = Some f" | "asSelection _ = None"

fun asProjection :: "operator \<Rightarrow> evaluator option" where
  "asProjection (ProjectionOp f) = Some f" | "asProjection _ = None"

abbreviation isSelection :: "operator \<Rightarrow> bool" where
  "isSelection oper \<equiv> asSelection oper \<noteq> None"

abbreviation isProjection :: "operator \<Rightarrow> bool" where
  "isProjection oper \<equiv> asProjection oper \<noteq> None"

lemma asSelection_Some [simp]: "asSelection oper = Some f \<longleftrightarrow> oper = SelectionOp f"
  by (cases oper) auto

lemma asProjection_Some [simp]: "asProjection oper = Some f \<longleftrightarrow> oper = ProjectionOp f"
  by (cases oper) auto

fun isIntegrator :: "operator \<Rightarrow> bool" where
  "isIntegrator (IntegratorOp _) = True" | "isIntegrator _ = False"

fun isDifferentiator :: "operator \<Rightarrow> bool" where
  "isDifferentiator (DifferentiatorOp _) = True" | "isDifferentiator _ = False"

fun isDistinct :: "operator \<Rightarrow> bool" where
  "isDistinct DistinctOp = True" | "isDistinct _ = False"

definition del_node :: "string \<Rightarrow> ChainGraph \<Rightarrow> ChainGraph" where
  "del_node nid g = g\<lparr>g_nodes := AList.delete nid (g_nodes g)\<rparr>"

text \<open>Looking for two adjacent operators of the chain.\<close>

fun has_pair :: "(operator \<Rightarrow> operator \<Rightarrow> bool) \<Rightarrow> ChainGraph \<Rightarrow> string list \<Rightarrow> bool res" where
  "has_pair P g (a # b # rest) =
     bind (get_op g a) (\<lambda>op1. bind (get_op g b) (\<lambda>op2.
       if P op1 op2 then Inr True else has_pair P g (b # rest)))"
| "has_pair P g _ = Inr False"

text \<open>
  The loop shared by rules 3, 4 and the second half of rule 5: at a matching pair delete both
  nodes, or delete the first and keep the second with the given operator, and go on after the
  pair; otherwise keep the operation.
\<close>

fun pair_loop ::
    "(operator \<Rightarrow> operator \<Rightarrow> operator option option) \<Rightarrow> ChainGraph \<Rightarrow> string list \<Rightarrow> (ChainGraph \<times> string list) res" where
  "pair_loop act g (a # b # rest) =
     bind (get_op g a) (\<lambda>op1. bind (get_op g b) (\<lambda>op2.
       case act op1 op2 of
         None \<Rightarrow> bind (pair_loop act g (b # rest)) (\<lambda>(g', newChain). Inr (g', a # newChain))
       | Some None \<Rightarrow> pair_loop act (del_node b (del_node a g)) rest
       | Some (Some kept) \<Rightarrow>
           bind (pair_loop act (del_node a (set_op b kept g)) rest) (\<lambda>(g', newChain). Inr (g', b # newChain))))"
| "pair_loop act g ids = Inr (g, ids)"

definition act_integrate_differentiate :: "operator \<Rightarrow> operator \<Rightarrow> operator option option" where
  "act_integrate_differentiate op1 op2 = (if isIntegrator op1 \<and> isDifferentiator op2 then Some None else None)"

definition act_distinct :: "operator \<Rightarrow> operator \<Rightarrow> operator option option" where
  "act_distinct op1 op2 = (if isDistinct op1 \<and> isDistinct op2 then Some (Some op2) else None)"

definition act_project_select :: "operator \<Rightarrow> operator \<Rightarrow> operator option option" where
  "act_project_select op1 op2 =
     (case (asProjection op1, asSelection op2) of
        (Some p, Some s) \<Rightarrow> Some (Some (ProjectThenSelectOp p s))
      | _ \<Rightarrow> None)"

text \<open>Rule 1.\<close>

definition JoinIncrementalization_CanApply :: "ChainGraph \<Rightarrow> bool res" where
  "JoinIncrementalization_CanApply g =
     (if g_joinNode g = [] then Inr False
      else bind (get_op g (g_joinNode g)) (\<lambda>joinOp.
        Inr (snd (IncrementalizeOp joinOp) \<and> OpType joinOp = OpTypeBilinear)))"

definition JoinIncrementalization_Apply :: "ChainGraph \<Rightarrow> ChainGraph res" where
  "JoinIncrementalization_Apply g =
     bind (get_op g (g_joinNode g)) (\<lambda>joinOp.
       Inr (set_op (g_joinNode g) (fst (IncrementalizeOp joinOp)) g))"

text \<open>Rule 2.\<close>

fun some_incrementalizable :: "ChainGraph \<Rightarrow> string list \<Rightarrow> bool res" where
  "some_incrementalizable g [] = Inr False"
| "some_incrementalizable g (nodeID # rest) =
     bind (get_op g nodeID) (\<lambda>oper.
       if snd (IncrementalizeOp oper) then Inr True else some_incrementalizable g rest)"

definition LinearChainIncrementalization_CanApply :: "ChainGraph \<Rightarrow> bool res" where
  "LinearChainIncrementalization_CanApply g = some_incrementalizable g (g_chain g)"

definition LinearChainIncrementalization_Apply :: "ChainGraph \<Rightarrow> ChainGraph res" where
  "LinearChainIncrementalization_Apply g =
     foldM (\<lambda>g nodeID. bind (get_op g nodeID) (\<lambda>oper.
         case IncrementalizeOp oper of
           (incOp, True) \<Rightarrow> Inr (set_op nodeID incOp g)
         | (_, False) \<Rightarrow> Inr g))
       g (g_chain g)"

text \<open>Rule 3.\<close>

definition IntegrationDifferentiationElimination_CanApply :: "ChainGraph \<Rightarrow> bool res" where
  "IntegrationDifferentiationElimination_CanApply g =
     has_pair (\<lambda>op1 op2. isIntegrator op1 \<and> isDifferentiator op2) g (g_chain g)"

definition IntegrationDifferentiationElimination_Apply :: "ChainGraph \<Rightarrow> ChainGraph res" where
  "IntegrationDifferentiationElimination_Apply g =
     bind (pair_loop act_integrate_differentiate g (g_chain g)) (\<lambda>(g1, newChain).
       Inr (g1\<lparr>g_chain := newChain,
               g_output := (if newChain \<noteq> [] then last newChain
                 else if g_joinNode g \<noteq> [] then g_joinNode g
                 else case g_inputs g of i # _ \<Rightarrow> i | [] \<Rightarrow> g_output g)\<rparr>))"

text \<open>Rule 4.\<close>

definition DistinctOptimization_CanApply :: "ChainGraph \<Rightarrow> bool res" where
  "DistinctOptimization_CanApply g = has_pair (\<lambda>op1 op2. isDistinct op1 \<and> isDistinct op2) g (g_chain g)"

definition DistinctOptimization_Apply :: "ChainGraph \<Rightarrow> ChainGraph res" where
  "DistinctOptimization_Apply g =
     bind (pair_loop act_distinct g (g_chain g)) (\<lambda>(g1, newChain).
       Inr (g1\<lparr>g_chain := newChain, g_output := (if newChain \<noteq> [] then last newChain else g_output g)\<rparr>))"

text \<open>Rule 5.  The run of projections at the head of the chain: evaluators, their nodes, the rest.\<close>

fun take_projections :: "ChainGraph \<Rightarrow> string list \<Rightarrow> (evaluator list \<times> string list \<times> string list) res" where
  "take_projections g [] = Inr ([], [], [])"
| "take_projections g (i # ids) =
     bind (get_op g i) (\<lambda>oper.
       case asProjection oper of
         Some f \<Rightarrow> bind (take_projections g ids) (\<lambda>(evals, used, rest). Inr (f # evals, i # used, rest))
       | None \<Rightarrow> Inr ([], [], i # ids))"

lemma take_projections_split:
  "take_projections g ids = Inr (evals, used, rest) \<Longrightarrow> ids = used @ rest \<and> length used = length evals"
  by (induction ids arbitrary: evals used rest) (auto simp: bind_Inr_iff split: option.splits)

fun hasSelectionThenProjections :: "ChainGraph \<Rightarrow> string list \<Rightarrow> bool res" where
  "hasSelectionThenProjections g (i # j # ids) =
     bind (get_op g i) (\<lambda>oper.
       if isSelection oper
       then bind (take_projections g (j # ids)) (\<lambda>(evals, _).
         if length evals > 0 then Inr True else hasSelectionThenProjections g (j # ids))
       else hasSelectionThenProjections g (j # ids))"
| "hasSelectionThenProjections g _ = Inr False"

fun consecutive_loop :: "ChainGraph \<Rightarrow> nat \<Rightarrow> string list \<Rightarrow> bool res" where
  "consecutive_loop g consecutiveCount [] = Inr False"
| "consecutive_loop g consecutiveCount (nodeID # rest) =
     bind (get_op g nodeID) (\<lambda>oper.
       if isProjection oper
       then (if consecutiveCount + 1 \<ge> 2 then Inr True else consecutive_loop g (consecutiveCount + 1) rest)
       else consecutive_loop g 0 rest)"

definition hasConsecutiveProjections :: "ChainGraph \<Rightarrow> bool res" where
  "hasConsecutiveProjections g = consecutive_loop g 0 (g_chain g)"

definition hasProjectThenSelect :: "ChainGraph \<Rightarrow> bool res" where
  "hasProjectThenSelect g = has_pair (\<lambda>op1 op2. isProjection op1 \<and> isSelection op2) g (g_chain g)"

definition del_nodes :: "string list \<Rightarrow> ChainGraph \<Rightarrow> ChainGraph" where
  "del_nodes ids g = fold del_node ids g"

function fuse_loop :: "ChainGraph \<Rightarrow> string list \<Rightarrow> (ChainGraph \<times> string list) res" where
  "fuse_loop g [] = Inr (g, [])"
| "fuse_loop g (i # ids) =
     bind (get_op g i) (\<lambda>oper.
       case asSelection oper of
         Some sel \<Rightarrow>
           bind (take_projections g ids) (\<lambda>(projEvals, used, rest).
             if length projEvals > 0 then
               bind (NewSelectThenProjections (Some sel) projEvals) (\<lambda>fusedOp.
                 bind (fuse_loop (del_nodes used (set_op i fusedOp g)) rest) (\<lambda>(g', newChain). Inr (g', i # newChain)))
             else bind (fuse_loop g ids) (\<lambda>(g', newChain). Inr (g', i # newChain)))
       | None \<Rightarrow> (case asProjection oper of
         Some proj \<Rightarrow>
           bind (take_projections g ids) (\<lambda>(projEvals, used, rest).
             let evals = proj # projEvals in
             if length evals > 1 then
               bind (NewSelectThenProjections None evals) (\<lambda>fusedOp.
                 bind (fuse_loop (del_nodes used (set_op i fusedOp g)) rest) (\<lambda>(g', newChain). Inr (g', i # newChain)))
             else bind (fuse_loop g ids) (\<lambda>(g', newChain). Inr (g', i # newChain)))
       | None \<Rightarrow> bind (fuse_loop g ids) (\<lambda>(g', newChain). Inr (g', i # newChain))))"
  by pat_completeness auto
termination
  by (relation "measure (\<lambda>(g, ids). length ids)") (auto dest!: take_projections_split)

definition updateOutput :: "ChainGraph \<Rightarrow> ChainGraph" where
  "updateOutput g =
     (if g_chain g \<noteq> [] then g\<lparr>g_output := last (g_chain g)\<rparr>
      else if g_joinNode g \<noteq> [] then g\<lparr>g_output := g_joinNode g\<rparr> else g)"

definition fuseSelectionThenProjections :: "ChainGraph \<Rightarrow> ChainGraph res" where
  "fuseSelectionThenProjections g =
     bind (fuse_loop g (g_chain g)) (\<lambda>(g1, newChain). Inr (updateOutput (g1\<lparr>g_chain := newChain\<rparr>)))"

definition fuseProjectThenSelect :: "ChainGraph \<Rightarrow> ChainGraph res" where
  "fuseProjectThenSelect g =
     bind (pair_loop act_project_select g (g_chain g)) (\<lambda>(g1, newChain).
       Inr (updateOutput (g1\<lparr>g_chain := newChain\<rparr>)))"

definition LinearOperatorFusion_CanApply :: "ChainGraph \<Rightarrow> bool res" where
  "LinearOperatorFusion_CanApply g =
     bind (hasSelectionThenProjections g (g_chain g)) (\<lambda>b1. if b1 then Inr True else
     bind (hasConsecutiveProjections g) (\<lambda>b2. if b2 then Inr True else
     hasProjectThenSelect g))"

definition LinearOperatorFusion_Apply :: "ChainGraph \<Rightarrow> ChainGraph res" where
  "LinearOperatorFusion_Apply g =
     bind (bind (hasSelectionThenProjections g (g_chain g)) (\<lambda>b1. if b1 then Inr True else
        hasConsecutiveProjections g)) (\<lambda>b.
       if b then fuseSelectionThenProjections g
       else bind (hasProjectThenSelect g) (\<lambda>b3. if b3 then fuseProjectThenSelect g else Inr g))"

text \<open>The rule table of the engine, in order of priority.\<close>

datatype rule =
    JoinIncrementalizationRule
  | LinearChainIncrementalizationRule
  | IntegrationDifferentiationEliminationRule
  | DistinctOptimizationRule
  | LinearOperatorFusionRule

fun CanApply :: "rule \<Rightarrow> ChainGraph \<Rightarrow> bool res" where
  "CanApply JoinIncrementalizationRule = JoinIncrementalization_CanApply"
| "CanApply LinearChainIncrementalizationRule = LinearChainIncrementalization_CanApply"
| "CanApply IntegrationDifferentiationEliminationRule = IntegrationDifferentiationElimination_CanApply"
| "CanApply DistinctOptimizationRule = DistinctOptimization_CanApply"
| "CanApply LinearOperatorFusionRule = LinearOperatorFusion_CanApply"

fun Apply :: "rule \<Rightarrow> ChainGraph \<Rightarrow> ChainGraph res" where
  "Apply JoinIncrementalizationRule = JoinIncrementalization_Apply"
| "Apply LinearChainIncrementalizationRule = LinearChainIncrementalization_Apply"
| "Apply IntegrationDifferentiationEliminationRule = IntegrationDifferentiationElimination_Apply"
| "Apply DistinctOptimizationRule = DistinctOptimization_Apply"
| "Apply LinearOperatorFusionRule = LinearOperatorFusion_Apply"

definition engine_rules :: "rule list" where
  "engine_rules = [JoinIncrementalizationRule, LinearChainIncrementalizationRule,
     IntegrationDifferentiationEliminationRule, DistinctOptimizationRule, LinearOperatorFusionRule]"

text \<open>One iteration: the first rule that applies; \<^term>\<open>None\<close> when none does.\<close>

fun apply_first :: "rule list \<Rightarrow> ChainGraph \<Rightarrow> ChainGraph option res" where
  "apply_first [] g = Inr None"
| "apply_first (rule # rules) g =
     bind (CanApply rule g) (\<lambda>can.
       if can then bind (rewrap ''rule failed'' (Apply rule g)) (\<lambda>g'. Inr (Some g'))
       else apply_first rules g)"

definition maxIterations :: nat where
  "maxIterations = 20"

function optimize_loop :: "nat \<Rightarrow> ChainGraph \<Rightarrow> ChainGraph \<times> unit res" where
  "optimize_loop iterations g =
     (if iterations \<ge> maxIterations then (g, Inl (Error ''rewrite engine did not converge''))
      else
        (case apply_first engine_rules g of
           Inl e \<Rightarrow> (g, Inl e)
         | Inr (Some g') \<Rightarrow> optimize_loop (iterations + 1) g'
         | Inr None \<Rightarrow>
             (if iterations + 1 \<ge> maxIterations
              then (g, Inl (Error ''rewrite engine did not converge'')) else (g, Inr ()))))"
  by pat_completeness auto
termination
  by (relation "measure (\<lambda>(iterations, g). maxIterations - iterations)") auto

declare optimize_loop.simps [simp del]

definition Optimize :: "ChainGraph \<Rightarrow> ChainGraph \<times> unit res" where
  "Optimize g =
     (case Validate g of
        (g', Inl e) \<Rightarrow> (g', Inl (wrap ''invalid graph'' e))
      | (g', Inr _) \<Rightarrow> optimize_loop 0 g')"

end
