(* ===== verification/Rewrite_Correct.thy ===== *)
theory Rewrite_Correct
  imports Rewrite
begin

text \<open>
  Correctness of the rewrite engine.  First, what every rule does to the query a graph denotes
  (\<open>rule_query\<close>), that it keeps the graph well-formed and that it decreases a measure, which
  bounds the iterations of \<^verbatim>\<open>Optimize\<close>; then, that the rules on chains preserve behaviour.
\<close>

section \<open>The rules on lists of operators\<close>

fun ex_pair :: "(operator \<Rightarrow> operator \<Rightarrow> bool) \<Rightarrow> operator list \<Rightarrow> bool" where
  "ex_pair P (x # y # ops) = (P x y \<or> ex_pair P (y # ops))"
| "ex_pair P _ = False"

fun pair_ops :: "(operator \<Rightarrow> operator \<Rightarrow> operator option option) \<Rightarrow> operator list \<Rightarrow> operator list" where
  "pair_ops act (x # y # ops) =
     (case act x y of
        None \<Rightarrow> x # pair_ops act (y # ops)
      | Some None \<Rightarrow> pair_ops act ops
      | Some (Some kept) \<Rightarrow> kept # pair_ops act ops)"
| "pair_ops act ops = ops"

definition proj_evals :: "operator list \<Rightarrow> evaluator list" where
  "proj_evals ops = map (\<lambda>x. the (asProjection x)) (takeWhile isProjection ops)"

function fuse_ops :: "operator list \<Rightarrow> operator list" where
  "fuse_ops [] = []"
| "fuse_ops (x # ops) =
     (case asSelection x of
        Some s \<Rightarrow> (if proj_evals ops \<noteq> []
          then SelectThenProjectionsOp (Some s) (proj_evals ops) # fuse_ops (dropWhile isProjection ops)
          else x # fuse_ops ops)
      | None \<Rightarrow> (case asProjection x of
          Some p \<Rightarrow> (if proj_evals ops \<noteq> []
            then SelectThenProjectionsOp None (p # proj_evals ops) # fuse_ops (dropWhile isProjection ops)
            else x # fuse_ops ops)
        | None \<Rightarrow> x # fuse_ops ops))"
  by pat_completeness auto
termination
  by (relation "measure length") (auto simp: less_Suc_eq_le length_dropWhile_le)

definition incrementalizable :: "operator \<Rightarrow> bool" where
  "incrementalizable oper = snd (IncrementalizeOp oper)"

definition fusable :: "operator list \<Rightarrow> bool" where
  "fusable ops \<longleftrightarrow> ex_pair (\<lambda>x y. isSelection x \<and> isProjection y) ops \<or> ex_pair (\<lambda>x y. isProjection x \<and> isProjection y) ops"

fun rule_enabled :: "rule \<Rightarrow> query \<Rightarrow> bool" where
  "rule_enabled JoinIncrementalizationRule (j, ops) =
     (case j of None \<Rightarrow> False | Some oper \<Rightarrow> incrementalizable oper \<and> OpType oper = OpTypeBilinear)"
| "rule_enabled LinearChainIncrementalizationRule (j, ops) = (\<exists>oper \<in> set ops. incrementalizable oper)"
| "rule_enabled IntegrationDifferentiationEliminationRule (j, ops) =
     ex_pair (\<lambda>x y. isIntegrator x \<and> isDifferentiator y) ops"
| "rule_enabled DistinctOptimizationRule (j, ops) = ex_pair (\<lambda>x y. isDistinct x \<and> isDistinct y) ops"
| "rule_enabled LinearOperatorFusionRule (j, ops) =
     (fusable ops \<or> ex_pair (\<lambda>x y. isProjection x \<and> isSelection y) ops)"

fun rule_query :: "rule \<Rightarrow> query \<Rightarrow> query" where
  "rule_query JoinIncrementalizationRule (j, ops) = (map_option (\<lambda>oper. fst (IncrementalizeOp oper)) j, ops)"
| "rule_query LinearChainIncrementalizationRule (j, ops) = (j, map (\<lambda>oper. fst (IncrementalizeOp oper)) ops)"
| "rule_query IntegrationDifferentiationEliminationRule (j, ops) = (j, pair_ops act_integrate_differentiate ops)"
| "rule_query DistinctOptimizationRule (j, ops) = (j, pair_ops act_distinct ops)"
| "rule_query LinearOperatorFusionRule (j, ops) =
     (j, if fusable ops then fuse_ops ops else pair_ops act_project_select ops)"

section \<open>What the loops do to the node table\<close>

definition touch :: "string set \<Rightarrow> ChainGraph \<Rightarrow> ChainGraph \<Rightarrow> bool" where
  "touch ids g g' \<longleftrightarrow> g' = g\<lparr>g_nodes := g_nodes g'\<rparr> \<and>
     (distinct (map fst (g_nodes g)) \<longrightarrow> distinct (map fst (g_nodes g'))) \<and>
     keys (g_nodes g') \<subseteq> keys (g_nodes g) \<and> (\<forall>i. i \<notin> ids \<longrightarrow> map_of (g_nodes g') i = map_of (g_nodes g) i)"

lemma touch_refl [simp]: "touch ids g g"
  by (simp add: touch_def)

lemma touch_trans: "touch A g g1 \<Longrightarrow> touch B g1 g2 \<Longrightarrow> A \<subseteq> C \<Longrightarrow> B \<subseteq> C \<Longrightarrow> touch C g g2"
  unfolding touch_def
  by (metis (no_types, lifting) ChainGraph.surjective ChainGraph.update_convs(6) order_trans subset_iff)

lemma touch_fields:
  assumes "touch ids g g'"
  shows "g_inputs g' = g_inputs g" "g_inputIdx g' = g_inputIdx g" "g_joinNode g' = g_joinNode g"
    "g_chain g' = g_chain g" "g_output g' = g_output g" "g_nextID g' = g_nextID g"
  using assms by (metis (no_types, lifting) ChainGraph.select_convs ChainGraph.surjective
      ChainGraph.update_convs(6) touch_def)+

lemma touch_get_op: "touch ids g g' \<Longrightarrow> i \<notin> ids \<Longrightarrow> get_op g' i = get_op g i"
  by (simp add: touch_def get_op_def)

lemma touch_mapM: "touch ids g g' \<Longrightarrow> ids \<inter> set c = {} \<Longrightarrow> mapM (get_op g') c = mapM (get_op g) c"
  by (rule mapM_cong) (auto intro: touch_get_op)

lemma touch_set_op: "get_op g i = Inr oper \<Longrightarrow> touch {i} g (set_op i oper' g)"
  by (auto simp: touch_def set_op_def get_op_def update_conv' distinct_update rev_image_eqI
      split: option.splits dest!: map_of_SomeD)

lemma touch_del_node: "touch {i} g (del_node i g)"
  by (auto simp: touch_def del_node_def delete_conv' distinct_delete)

lemma touch_del_nodes: "touch (set ids) g (del_nodes ids g)"
proof (induction ids arbitrary: g)
  case (Cons i ids)
  from touch_trans [OF touch_del_node Cons.IH, of i "set (i # ids)" g] show ?case
    by (simp add: del_nodes_def subset_insertI)
qed (simp add: del_nodes_def)

lemma mapM_get_op_Cons:
  "mapM (get_op g) (i # ids) = Inr ops \<longleftrightarrow> (\<exists>x xs. ops = x # xs \<and> get_op g i = Inr x \<and> mapM (get_op g) ids = Inr xs)"
  by (auto simp: bind_Inr_iff)

definition rewritten :: "string list \<Rightarrow> ChainGraph \<Rightarrow> operator list \<Rightarrow> (ChainGraph \<times> string list) res \<Rightarrow> bool" where
  "rewritten ids g ops r \<longleftrightarrow> (\<exists>g' c. r = Inr (g', c) \<and> mapM (get_op g') c = Inr ops \<and> touch (set ids) g g'
     \<and> set c \<subseteq> set ids \<and> distinct c)"

text \<open>Keeping a node in front of a rewritten rest.\<close>

lemma rewritten_keep:
  assumes "rewritten rest g1 ops r" and "touch A g g1" and "get_op g1 i = Inr x"
    and "i \<notin> set rest" and "A \<subseteq> set ids" and "set (i # rest) \<subseteq> set ids"
  shows "rewritten ids g (x # ops) (bind r (\<lambda>(g', c). Inr (g', i # c)))"
proof -
  from assms(1) obtain g' c where r: "r = Inr (g', c)" "mapM (get_op g') c = Inr ops"
      "touch (set rest) g1 g'" "set c \<subseteq> set rest" "distinct c"
    by (auto simp: rewritten_def)
  have "get_op g' i = Inr x" using touch_get_op [OF r(3) assms(4)] assms(3) by simp
  moreover have "touch (set ids) g g'"
    using touch_trans [OF assms(2) r(3)] assms(5,6) by auto
  ultimately show ?thesis using r assms(4,6) by (auto simp: rewritten_def)
qed

lemma rewritten_skip:
  assumes "rewritten rest g1 ops r" and "touch A g g1" and "A \<subseteq> set ids" and "set rest \<subseteq> set ids"
  shows "rewritten ids g ops r"
  using assms touch_trans [of A g g1 "set rest" _ "set ids"] by (fastforce simp: rewritten_def)

lemma pair_loop_rewrites:
  assumes "distinct ids" and "mapM (get_op g) ids = Inr ops"
  shows "rewritten ids g (pair_ops act ops) (pair_loop act g ids)"
  using assms
proof (induction act g ids arbitrary: ops rule: pair_loop.induct)
  case (1 act g a b rest)
  from "1.prems"(2) obtain x y xs where o: "ops = x # y # xs" "get_op g a = Inr x" "get_op g b = Inr y"
      "mapM (get_op g) rest = Inr xs"
    by (auto simp: bind_Inr_iff)
  from "1.prems"(1) have d: "distinct rest" "a \<notin> set rest" "b \<notin> set rest" "a \<noteq> b" by auto
  show ?case
  proof (cases "act x y")
    case None
    have "rewritten (b # rest) g (pair_ops act (y # xs)) (pair_loop act g (b # rest))"
      using "1.IH"(1) [OF o(2,3) None] "1.prems" o by auto
    from rewritten_keep [OF this touch_refl [of "{}"] o(2), of "a # b # rest"] d o None show ?thesis by auto
  next
    case (Some k)
    show ?thesis
    proof (cases k)
      case None
      let ?g = "del_node b (del_node a g)"
      have t: "touch {a, b} g ?g"
        by (rule touch_trans [OF touch_del_node touch_del_node]) auto
      have "mapM (get_op ?g) rest = Inr xs" using touch_mapM [OF t] d o(4) by auto
      with "1.IH"(2) [OF o(2,3) Some None] d have "rewritten rest ?g (pair_ops act xs) (pair_loop act ?g rest)"
        by auto
      from rewritten_skip [OF this t, of "a # b # rest"] Some None o show ?thesis by auto
    next
      case (Some kept)
      let ?g = "del_node a (set_op b kept g)"
      have t: "touch {a, b} g ?g"
        by (rule touch_trans [OF touch_set_op [OF o(3)] touch_del_node]) auto
      have m: "mapM (get_op ?g) rest = Inr xs" using touch_mapM [OF t] d o(4) by auto
      have b: "get_op ?g b = Inr kept"
        using touch_get_op [OF touch_del_node, of b a] d(4) by (simp add: get_op_set_op)
      from "1.IH"(3) [OF o(2,3) \<open>act x y = Some k\<close> Some d(1) m]
      have "rewritten rest ?g (pair_ops act xs) (pair_loop act ?g rest)" .
      from rewritten_keep [OF this t b d(3), of "a # b # rest"] \<open>act x y = Some k\<close> Some o show ?thesis by auto
    qed
  qed
qed (auto simp: rewritten_def bind_Inr_iff)

lemma take_projections_ok:
  assumes "mapM (get_op g) ids = Inr ops"
  shows "\<exists>used rest. take_projections g ids = Inr (proj_evals ops, used, rest) \<and> ids = used @ rest
    \<and> mapM (get_op g) rest = Inr (dropWhile isProjection ops)"
  using assms
proof (induction ids arbitrary: ops)
  case (Cons i ids)
  then obtain x xs where x: "ops = x # xs" "get_op g i = Inr x" "mapM (get_op g) ids = Inr xs"
    by (auto simp: bind_Inr_iff)
  from Cons.IH [OF x(3)] x Cons.prems show ?case
    by (cases "asProjection x") (auto simp: proj_evals_def)
qed (simp add: proj_evals_def)

lemma fuse_step:
  assumes "distinct (i # ids)" and "ids = used @ rest" and "get_op g i = Inr x"
    and IH: "rewritten rest (del_nodes used (set_op i fused g)) ops r"
  shows "rewritten (i # ids) g (fused # ops) (bind r (\<lambda>(g', c). Inr (g', i # c)))"
proof -
  let ?g = "del_nodes used (set_op i fused g)"
  have t: "touch (set (i # used)) g ?g"
    by (rule touch_trans [OF touch_set_op [OF assms(3)] touch_del_nodes]) auto
  have "get_op ?g i = Inr fused"
    using touch_get_op [OF touch_del_nodes, of i used] assms(1,2) by (simp add: get_op_set_op)
  from rewritten_keep [OF IH t this, of "i # ids"] assms(1,2) show ?thesis by auto
qed

lemma fuse_rest:
  assumes "distinct (i # ids)" and "ids = used @ rest" and "get_op g i = Inr x"
    and "mapM (get_op g) rest = Inr ops"
  shows "distinct rest" "mapM (get_op (del_nodes used (set_op i fused g))) rest = Inr ops"
proof -
  show "distinct rest" using assms(1,2) by simp
  have "touch (set (i # used)) g (del_nodes used (set_op i fused g))"
    by (rule touch_trans [OF touch_set_op [OF assms(3)] touch_del_nodes]) auto
  from touch_mapM [OF this, of rest] assms show "mapM (get_op (del_nodes used (set_op i fused g))) rest = Inr ops"
    by auto
qed

lemma fuse_loop_rewrites:
  assumes "distinct ids" and "mapM (get_op g) ids = Inr ops"
  shows "rewritten ids g (fuse_ops ops) (fuse_loop g ids)"
  using assms
proof (induction "length ids" arbitrary: g ids ops rule: less_induct)
  case less
  show ?case
  proof (cases ids)
    case Nil
    with less.prems show ?thesis by (auto simp: rewritten_def)
  next
    case (Cons i rest)
    from less.prems(2) Cons obtain x xs where x: "ops = x # xs" "get_op g i = Inr x" "mapM (get_op g) rest = Inr xs"
      by (auto simp: bind_Inr_iff)
    obtain used tl where tp: "take_projections g rest = Inr (proj_evals xs, used, tl)" "rest = used @ tl"
        "mapM (get_op g) tl = Inr (dropWhile isProjection xs)"
      using take_projections_ok [OF x(3)] by blast
    have d: "distinct (i # rest)" using less.prems(1) Cons by simp
    have len: "length tl < length ids" "length rest < length ids" using Cons tp(2) by simp_all
    have keep: "rewritten (i # rest) g (x # fuse_ops xs) (bind (fuse_loop g rest) (\<lambda>(g', c). Inr (g', i # c)))"
      using rewritten_keep [OF less.hyps [OF len(2) _ x(3)] touch_refl [of "{}"] x(2), of "i # rest"] d by auto
    have fused: "rewritten (i # rest) g (f # fuse_ops (dropWhile isProjection xs))
        (bind (fuse_loop (del_nodes used (set_op i f g)) tl) (\<lambda>(g', c). Inr (g', i # c)))" for f
      by (rule fuse_step [OF d tp(2) x(2) less.hyps [OF len(1) fuse_rest [OF d tp(2) x(2) tp(3)]]])
    show ?thesis
      using keep fused tp(1) x(1,2) unfolding Cons
      by (auto simp: NewSelectThenProjections_def split: option.splits)
  qed
qed

section \<open>Tests and results of the rules\<close>

lemma has_pair_ok: "mapM (get_op g) ids = Inr ops \<Longrightarrow> has_pair P g ids = Inr (ex_pair P ops)"
proof (induction P g ids arbitrary: ops rule: has_pair.induct)
  case (1 P g a b rest)
  then obtain x y xs where "ops = x # y # xs" "get_op g a = Inr x" "get_op g b = Inr y"
      "mapM (get_op g) (b # rest) = Inr (y # xs)"
    by (auto simp: bind_Inr_iff)
  with "1.IH" show ?case by auto
qed (auto simp: bind_Inr_iff)

lemma some_incrementalizable_ok:
  "mapM (get_op g) ids = Inr ops \<Longrightarrow> some_incrementalizable g ids = Inr (\<exists>oper \<in> set ops. incrementalizable oper)"
  by (induction ids arbitrary: ops) (auto simp: bind_Inr_iff incrementalizable_def)

lemma hasSelectionThenProjections_ok:
  "mapM (get_op g) ids = Inr ops \<Longrightarrow>
   hasSelectionThenProjections g ids = Inr (ex_pair (\<lambda>x y. isSelection x \<and> isProjection y) ops)"
proof (induction ids arbitrary: ops)
  case (Cons i ids)
  then obtain x xs where o: "ops = x # xs" "get_op g i = Inr x" "mapM (get_op g) ids = Inr xs"
    by (auto simp: bind_Inr_iff)
  note IH = Cons.IH [OF o(3)]
  show ?case
  proof (cases ids)
    case Nil
    with o show ?thesis by auto
  next
    case (Cons j rest)
    with o(3) obtain y ys where xs: "xs = y # ys" by (auto simp: bind_Inr_iff)
    from take_projections_ok [OF o(3)] obtain r where r: "take_projections g ids = Inr (proj_evals xs, r)"
      by auto
    have "length (proj_evals xs) > 0 \<longleftrightarrow> isProjection y" by (auto simp: proj_evals_def xs)
    with IH r o(2) Cons show ?thesis by (simp add: o(1) xs del: take_projections.simps)
  qed
qed simp

lemma consecutive_loop_ok:
  "mapM (get_op g) ids = Inr ops \<Longrightarrow> n \<le> 1 \<Longrightarrow>
   consecutive_loop g n ids = Inr (ex_pair (\<lambda>x y. isProjection x \<and> isProjection y) ops
     \<or> n = 1 \<and> (case ops of x # _ \<Rightarrow> isProjection x | [] \<Rightarrow> False))"
proof (induction g n ids arbitrary: ops rule: consecutive_loop.induct)
  case (2 g n i rest)
  then obtain x xs where "ops = x # xs" "get_op g i = Inr x" "mapM (get_op g) rest = Inr xs"
    by (auto simp: bind_Inr_iff)
  with 2 show ?case by (cases xs) (auto simp: le_Suc_eq)
qed simp

text \<open>Installing the new chain.\<close>

lemma install_chain:
  assumes wf: "graph_wf g" and q: "graph_query g = Inr (j, ops)"
    and rw: "rewritten (g_chain g) g ops' (Inr (g1, c))"
  shows "graph_wf (g1\<lparr>g_chain := c, g_output := out\<rparr>)"
    and "graph_query (g1\<lparr>g_chain := c, g_output := out\<rparr>) = Inr (j, ops')"
    and "g_inputs g1 = g_inputs g" and "g_inputIdx g1 = g_inputIdx g" and "g_joinNode g1 = g_joinNode g"
proof -
  let ?g = "g1\<lparr>g_chain := c, g_output := out\<rparr>"
  from rw have m: "mapM (get_op g1) c = Inr ops'" and t: "touch (set (g_chain g)) g g1"
    and c: "set c \<subseteq> set (g_chain g)" "distinct c"
    by (auto simp: rewritten_def)
  note f = touch_fields [OF t]
  show "g_inputs g1 = g_inputs g" "g_inputIdx g1 = g_inputIdx g" "g_joinNode g1 = g_joinNode g"
    using f by simp_all
  have get: "get_op ?g = get_op g1" by (simp add: fun_eq_iff get_op_def)
  have ij: "set (g_inputs g @ join_ids g) \<inter> set (g_chain g) = {}"
    using wf by (auto simp: graph_wf_def)
  have "i \<in> keys (g_nodes g1)" if "i \<in> set (g_inputs g @ join_ids g)" for i
  proof -
    have "i \<in> keys (g_nodes g)" "map_of (g_nodes g1) i = map_of (g_nodes g) i"
      using that wf ij t by (auto simp: graph_wf_def touch_def)
    then show ?thesis using map_of_eq_None_iff by metis
  qed
  moreover have "i \<in> keys (g_nodes g1)" if "i \<in> set c" for i
  proof -
    have "is_ok (get_op g1 i)" using m that by (metis is_ok_simps(1) mapM_is_ok)
    then show ?thesis using map_of_eq_None_iff [of "g_nodes g1" i] by (auto simp: get_op_def split: option.splits)
  qed
  ultimately have k: "set (g_inputs g @ join_ids g @ c) \<subseteq> keys (g_nodes g1)" by auto
  have "inputs_named (g_nodes g1) (g_inputIdx g)"
    unfolding inputs_named_def
  proof (intro ballI, clarify)
    fix i name assume i: "(i, name) \<in> set (g_inputIdx g)"
    with wf have "i \<in> set (g_inputs g)" unfolding graph_wf_def by (metis fst_conv image_eqI list.set_map)
    with ij t have "map_of (g_nodes g1) i = map_of (g_nodes g) i" by (auto simp: touch_def)
    with wf i show "\<exists>data. map_of (g_nodes g1) i = Some (InputOp name data)"
      by (auto simp: graph_wf_def inputs_named_def)
  qed
  moreover have "join_ids ?g = join_ids g" using f by (simp add: join_ids_def)
  moreover have "distinct (map fst (g_nodes g1))" "keys (g_nodes g1) \<subseteq> ids_below (g_nextID g)"
    using t wf unfolding touch_def graph_wf_def by (blast, blast)
  ultimately show "graph_wf ?g" using wf k c f by (simp add: graph_wf_def) blast
  have "get_op g1 (g_joinNode g) = get_op g (g_joinNode g)" if "g_joinNode g \<noteq> []"
    using touch_get_op [OF t] graph_wf_chain(2) [OF wf that] by blast
  with q m f show "graph_query ?g = Inr (j, ops')"
    by (auto simp: graph_query_Inr GetChain_def get split: option.splits)
qed

definition same_inputs :: "ChainGraph \<Rightarrow> ChainGraph \<Rightarrow> bool" where
  "same_inputs g g' \<longleftrightarrow> g_inputs g' = g_inputs g \<and> g_inputIdx g' = g_inputIdx g"

lemma updateOutput_eq: "\<exists>out. updateOutput g = g\<lparr>g_output := out\<rparr>"
proof (cases "g_chain g \<noteq> [] \<or> g_joinNode g \<noteq> []")
  case False
  then have "updateOutput g = g\<lparr>g_output := g_output g\<rparr>" by (simp add: updateOutput_def)
  then show ?thesis ..
qed (auto simp: updateOutput_def)

text \<open>A rule whose loop rewrites the chain and that then installs it.\<close>

lemma chain_rule_ok:
  assumes wf: "graph_wf g" and q: "graph_query g = Inr (j, ops)"
    and loop: "rewritten (g_chain g) g ops' r"
    and res: "\<And>g1 c. \<exists>out. fin g1 c = g1\<lparr>g_chain := c, g_output := out\<rparr>"
  shows "\<exists>g'. bind r (\<lambda>(g1, c). Inr (fin g1 c)) = Inr g' \<and> graph_wf g' \<and> graph_query g' = Inr (j, ops')
    \<and> same_inputs g g'"
proof -
  from loop obtain g1 c where r: "r = Inr (g1, c)" by (auto simp: rewritten_def)
  obtain out where out: "fin g1 c = g1\<lparr>g_chain := c, g_output := out\<rparr>" using res by blast
  note inst = install_chain [OF wf q loop [unfolded r]]
  from inst(1,2) [of out] inst(3,4) r out show ?thesis by (simp add: same_inputs_def)
qed

lemma rewritten_chain:
  assumes "graph_wf g" and "graph_query g = Inr (j, ops)"
  shows "rewritten (g_chain g) g (pair_ops act ops) (pair_loop act g (g_chain g))"
    and "rewritten (g_chain g) g (fuse_ops ops) (fuse_loop g (g_chain g))"
  using pair_loop_rewrites fuse_loop_rewrites graph_wf_chain(1) [OF assms(1)] assms(2)
  by (auto simp: graph_query_Inr GetChain_def)

text \<open>Rule 2 rewrites the nodes in place.\<close>

lemma incrementalize_loop:
  assumes "distinct ids" and "mapM (get_op g) ids = Inr ops"
  shows "\<exists>g'. foldM (\<lambda>g nodeID. bind (get_op g nodeID) (\<lambda>oper.
         case IncrementalizeOp oper of (incOp, True) \<Rightarrow> Inr (set_op nodeID incOp g) | (_, False) \<Rightarrow> Inr g)) g ids = Inr g'
    \<and> mapM (get_op g') ids = Inr (map (\<lambda>oper. fst (IncrementalizeOp oper)) ops) \<and> touch (set ids) g g'"
  using assms
proof (induction ids arbitrary: g ops)
  case (Cons i ids)
  then obtain x xs where x: "ops = x # xs" "get_op g i = Inr x" "mapM (get_op g) ids = Inr xs"
    by (auto simp: bind_Inr_iff)
  obtain y b where y: "IncrementalizeOp x = (y, b)" by (cases "IncrementalizeOp x")
  have same: "\<not> b \<Longrightarrow> y = x" using y by (cases x) (auto simp: IncrementalizeOp_def)
  let ?g = "if b then set_op i y g else g"
  have t: "touch {i} g ?g" using touch_set_op [OF x(2)] by simp
  have i: "i \<notin> set ids" "distinct ids" using Cons.prems(1) by simp_all
  have "mapM (get_op ?g) ids = Inr xs" using touch_mapM [OF t] i x(3) by auto
  from Cons.IH [OF i(2) this] obtain g' where
    g': "foldM (\<lambda>g nodeID. bind (get_op g nodeID) (\<lambda>oper.
         case IncrementalizeOp oper of (incOp, True) \<Rightarrow> Inr (set_op nodeID incOp g) | (_, False) \<Rightarrow> Inr g)) ?g ids = Inr g'"
      "mapM (get_op g') ids = Inr (map (\<lambda>oper. fst (IncrementalizeOp oper)) xs)" "touch (set ids) ?g g'"
    by blast
  have "get_op g' i = Inr y"
    using touch_get_op [OF g'(3) i(1)] same x(2) by (auto simp: get_op_set_op)
  moreover have "touch (set (i # ids)) g g'" by (rule touch_trans [OF t g'(3)]) auto
  ultimately show ?case using g'(1,2) x y by (cases b) auto
qed simp

section \<open>Every rule is sound on the graph\<close>

lemma act_enabled:
  "act_integrate_differentiate x y \<noteq> None \<longleftrightarrow> isIntegrator x \<and> isDifferentiator y"
  "act_distinct x y \<noteq> None \<longleftrightarrow> isDistinct x \<and> isDistinct y"
  "act_project_select x y \<noteq> None \<longleftrightarrow> isProjection x \<and> isSelection y"
  by (auto simp: act_integrate_differentiate_def act_distinct_def act_project_select_def split: option.splits)

theorem rule_tests:
  assumes "graph_wf g" and "graph_query g = Inr q"
  shows "CanApply r g = Inr (rule_enabled r q)"
proof -
  obtain j ops where q: "q = (j, ops)" by (cases q)
  have m: "mapM (get_op g) (g_chain g) = Inr ops" using assms(2) q by (simp add: graph_query_Inr GetChain_def)
  show ?thesis
  proof (cases r)
    case JoinIncrementalizationRule
    then show ?thesis using assms(2) q
      by (cases j) (auto simp: JoinIncrementalization_CanApply_def graph_query_Inr incrementalizable_def)
  next
    case LinearOperatorFusionRule
    then show ?thesis
      by (simp add: q LinearOperatorFusion_CanApply_def hasSelectionThenProjections_ok [OF m]
          hasConsecutiveProjections_def consecutive_loop_ok [OF m] hasProjectThenSelect_def has_pair_ok [OF m]
          fusable_def)
  qed (simp_all add: q LinearChainIncrementalization_CanApply_def some_incrementalizable_ok [OF m]
      IntegrationDifferentiationElimination_CanApply_def DistinctOptimization_CanApply_def has_pair_ok [OF m])
qed

definition rule_result :: "rule \<Rightarrow> ChainGraph \<Rightarrow> query \<Rightarrow> bool" where
  "rule_result r g q \<longleftrightarrow> (\<exists>g'. Apply r g = Inr g' \<and> graph_wf g' \<and> graph_query g' = Inr (rule_query r q) \<and> same_inputs g g')"

lemma rule_apply_join:
  assumes wf: "graph_wf g" and q: "graph_query g = Inr (Some oper, ops)"
  shows "rule_result JoinIncrementalizationRule g (Some oper, ops)"
proof -
  let ?g = "set_op (g_joinNode g) (fst (IncrementalizeOp oper)) g"
  from q have j: "g_joinNode g \<noteq> []" "get_op g (g_joinNode g) = Inr oper" "GetChain g = Inr ops"
    by (auto simp: graph_query_Inr)
  have same: "same_but {g_joinNode g} g ?g" by (rule same_but_set_op [OF j(2)])
  have "graph_wf ?g"
    by (rule same_but_wf [OF same wf]) (use wf j(1) in \<open>auto simp: graph_wf_def join_ids_def\<close>)
  moreover have "graph_query ?g = Inr (Some (fst (IncrementalizeOp oper)), ops)"
    using j graph_wf_chain(2) [OF wf]
    by (simp add: graph_query_Inr GetChain_def mapM_get_op_set_op get_op_set_op)
  ultimately show ?thesis using j by (simp add: rule_result_def JoinIncrementalization_Apply_def same_inputs_def)
qed

lemma rule_apply_chain:
  assumes wf: "graph_wf g" and q: "graph_query g = Inr (j, ops)"
  shows "rule_result LinearChainIncrementalizationRule g (j, ops)"
proof -
  have m: "mapM (get_op g) (g_chain g) = Inr ops" using q by (simp add: graph_query_Inr GetChain_def)
  obtain g' where g': "LinearChainIncrementalization_Apply g = Inr g'"
      "mapM (get_op g') (g_chain g) = Inr (map (\<lambda>oper. fst (IncrementalizeOp oper)) ops)"
      "touch (set (g_chain g)) g g'"
    using incrementalize_loop [OF graph_wf_chain(1) [OF wf] m]
    unfolding LinearChainIncrementalization_Apply_def by blast
  have "rewritten (g_chain g) g (map (\<lambda>oper. fst (IncrementalizeOp oper)) ops) (Inr (g', g_chain g))"
    using g' graph_wf_chain(1) [OF wf] by (simp add: rewritten_def)
  note inst = install_chain [OF wf q this]
  have "g'\<lparr>g_chain := g_chain g, g_output := g_output g'\<rparr> = g'"
    using touch_fields(4) [OF g'(3)] by simp
  with inst(1,2) [of "g_output g'"] inst(3,4) g'(1) show ?thesis
    by (simp add: rule_result_def same_inputs_def)
qed

theorem rule_applies:
  assumes wf: "graph_wf g" and q: "graph_query g = Inr q" and en: "rule_enabled r q"
  shows "rule_result r g q"
proof -
  obtain j ops where jq: "q = (j, ops)" by (cases q)
  note q' = q [unfolded jq]
  have m: "mapM (get_op g) (g_chain g) = Inr ops" using q' by (simp add: graph_query_Inr GetChain_def)
  note rw = rewritten_chain [OF wf q']
  have upd: "\<exists>out. updateOutput (g1\<lparr>g_chain := c\<rparr>) = g1\<lparr>g_chain := c, g_output := out\<rparr>" for g1 c
    by (rule updateOutput_eq)
  show ?thesis
  proof (cases r)
    case JoinIncrementalizationRule
    with en jq obtain oper where "j = Some oper" by (auto split: option.splits)
    with rule_apply_join [OF wf] q' jq JoinIncrementalizationRule show ?thesis by simp
  next
    case LinearChainIncrementalizationRule
    with rule_apply_chain [OF wf q'] jq show ?thesis by simp
  next
    case IntegrationDifferentiationEliminationRule
    have "\<exists>g'. IntegrationDifferentiationElimination_Apply g = Inr g' \<and> graph_wf g' \<and>
        graph_query g' = Inr (j, pair_ops act_integrate_differentiate ops) \<and> same_inputs g g'"
      unfolding IntegrationDifferentiationElimination_Apply_def by (rule chain_rule_ok [OF wf q' rw(1)]) blast
    with IntegrationDifferentiationEliminationRule show ?thesis by (simp add: rule_result_def jq)
  next
    case DistinctOptimizationRule
    have "\<exists>g'. DistinctOptimization_Apply g = Inr g' \<and> graph_wf g' \<and>
        graph_query g' = Inr (j, pair_ops act_distinct ops) \<and> same_inputs g g'"
      unfolding DistinctOptimization_Apply_def by (rule chain_rule_ok [OF wf q' rw(1)]) blast
    with DistinctOptimizationRule show ?thesis by (simp add: rule_result_def jq)
  next
    case LinearOperatorFusionRule
    have test: "bind (hasSelectionThenProjections g (g_chain g)) (\<lambda>b1. if b1 then Inr True else
        hasConsecutiveProjections g) = Inr (fusable ops)"
      by (simp add: hasSelectionThenProjections_ok [OF m] hasConsecutiveProjections_def
          consecutive_loop_ok [OF m] fusable_def)
    have pts: "hasProjectThenSelect g = Inr (ex_pair (\<lambda>x y. isProjection x \<and> isSelection y) ops)"
      by (simp add: hasProjectThenSelect_def has_pair_ok [OF m])
    show ?thesis
    proof (cases "fusable ops")
      case True
      with chain_rule_ok [OF wf q' rw(2) upd] LinearOperatorFusionRule test show ?thesis
        by (simp add: rule_result_def jq LinearOperatorFusion_Apply_def fuseSelectionThenProjections_def)
    next
      case False
      with chain_rule_ok [OF wf q' rw(1) upd] LinearOperatorFusionRule test pts en jq show ?thesis
        by (simp add: rule_result_def LinearOperatorFusion_Apply_def fuseProjectThenSelect_def)
    qed
  qed
qed

section \<open>Convergence\<close>

fun qmeasure :: "query \<Rightarrow> nat" where
  "qmeasure (j, ops) =
     (case j of Some oper \<Rightarrow> (if incrementalizable oper then 1 else 0) | None \<Rightarrow> 0)
     + (if \<exists>oper \<in> set ops. incrementalizable oper then 1 else 0) + length ops"

lemma length_pair_ops: "length (pair_ops act ops) \<le> length ops"
  by (induction act ops rule: pair_ops.induct) (auto split: option.splits)

lemma pair_ops_shrinks: "ex_pair (\<lambda>x y. act x y \<noteq> None) ops \<Longrightarrow> length (pair_ops act ops) < length ops"
proof (induction act ops rule: pair_ops.induct)
  case (1 act x y ops)
  have "length (pair_ops act ops) \<le> length ops" by (rule length_pair_ops)
  with 1 show ?case by (auto split: option.splits)
qed auto

lemma pair_ops_set:
  "(\<And>x y k. act x y = Some (Some k) \<Longrightarrow> P k) \<Longrightarrow> \<forall>oper \<in> set ops. P oper \<Longrightarrow> \<forall>oper \<in> set (pair_ops act ops). P oper"
  by (induction act ops rule: pair_ops.induct) (auto split: option.splits)

lemma length_fuse_ops: "length (fuse_ops ops) \<le> length ops"
proof (induction ops rule: fuse_ops.induct)
  case (2 x ops)
  have "length (dropWhile isProjection ops) \<le> length ops" by (rule length_dropWhile_le)
  with 2 show ?case by (auto split: option.splits)
qed simp

lemma proj_evals_shrinks: "proj_evals ops \<noteq> [] \<Longrightarrow> length (dropWhile isProjection ops) < length ops"
  using length_dropWhile_le [of isProjection "tl ops"] by (cases ops) (auto simp: proj_evals_def split: if_splits)

lemma fuse_ops_shrinks: "fusable ops \<Longrightarrow> length (fuse_ops ops) < length ops"
proof (induction ops rule: fuse_ops.induct)
  case (2 x ops)
  have le: "length (fuse_ops ys) \<le> length ys" for ys by (rule length_fuse_ops)
  show ?case
  proof (cases "proj_evals ops \<noteq> [] \<and> (isSelection x \<or> isProjection x)")
    case True
    with proj_evals_shrinks [of ops] le [of "dropWhile isProjection ops"] show ?thesis
      by (auto split: option.splits)
  next
    case False
    then have "fuse_ops (x # ops) = x # fuse_ops ops" by (auto split: option.splits)
    moreover have "fusable ops"
      using "2.prems" False by (cases ops) (auto simp: fusable_def proj_evals_def)
    moreover have "length (fuse_ops ops) < length ops"
      using \<open>fusable ops\<close> False "2.IH" by (cases "asSelection x"; cases "asProjection x") auto
    ultimately show ?thesis by simp
  qed
qed (simp add: fusable_def)

lemma fuse_ops_shape:
  "fuse_ops (x # ops) = x # fuse_ops ops \<or>
   (\<exists>s ps. fuse_ops (x # ops) = SelectThenProjectionsOp s ps # fuse_ops (dropWhile isProjection ops))"
  by (cases "asSelection x"; cases "asProjection x"; cases "proj_evals ops = []") auto

lemma fuse_ops_set:
  assumes "\<And>s ps. P (SelectThenProjectionsOp s ps)"
  shows "\<forall>oper \<in> set ops. P oper \<Longrightarrow> \<forall>oper \<in> set (fuse_ops ops). P oper"
proof (induction ops rule: length_induct)
  case (1 ops)
  show ?case
  proof (cases ops)
    case (Cons x xs)
    have IH: "\<forall>oper \<in> set (fuse_ops ys). P oper" if "length ys < length ops" "set ys \<subseteq> set ops" for ys
      using 1 that by blast
    have "\<forall>oper \<in> set (fuse_ops xs). P oper" using IH [of xs] Cons by auto
    moreover have "\<forall>oper \<in> set (fuse_ops (dropWhile isProjection xs)). P oper"
      using IH [of "dropWhile isProjection xs"] length_dropWhile_le [of isProjection xs]
        set_dropWhileD [of _ isProjection xs] unfolding Cons by fastforce
    ultimately show ?thesis
      using fuse_ops_shape [of x xs] "1.prems" assms unfolding Cons by auto
  qed simp
qed

lemma not_incrementalizable:
  "\<not> incrementalizable DistinctOp" "\<not> incrementalizable (SelectThenProjectionsOp s ps)"
  "\<not> incrementalizable (ProjectThenSelectOp p f)" "\<not> incrementalizable (fst (IncrementalizeOp oper))"
  by (simp_all add: incrementalizable_def IncrementalizeOp_idem) (simp_all add: IncrementalizeOp_def)

lemma isDistinct_iff: "isDistinct x \<longleftrightarrow> x = DistinctOp"
  and isIntegrator_iff: "isIntegrator x \<longleftrightarrow> (\<exists>s. x = IntegratorOp s)"
  and isDifferentiator_iff: "isDifferentiator x \<longleftrightarrow> (\<exists>s. x = DifferentiatorOp s)"
  by (cases x; simp; fail)+

lemma act_kept: "act_distinct x y = Some (Some k) \<Longrightarrow> k = DistinctOp"
  "act_project_select x y = Some (Some k) \<Longrightarrow> \<exists>p s. k = ProjectThenSelectOp p s"
  "act_integrate_differentiate x y \<noteq> Some (Some k)"
  by (auto simp: act_distinct_def act_project_select_def act_integrate_differentiate_def isDistinct_iff
      split: option.splits if_splits)

text \<open>Replacing the chain by a shorter one without new snapshot operators decreases the measure.\<close>

lemma qmeasure_shrinks:
  assumes "length ops' < length ops"
    and "\<forall>oper \<in> set ops. \<not> incrementalizable oper \<Longrightarrow> \<forall>oper \<in> set ops'. \<not> incrementalizable oper"
  shows "qmeasure (j, ops') < qmeasure (j, ops)"
  using assms by auto

declare qmeasure.simps [simp del]

lemma rule_decreases: "rule_enabled r q \<Longrightarrow> qmeasure (rule_query r q) < qmeasure q"
proof (cases q)
  case (Pair j ops)
  assume en: "rule_enabled r q"
  have pair: "qmeasure (j, pair_ops act ops) < qmeasure (j, ops)"
    if "ex_pair Q ops" "\<And>x y. Q x y = (act x y \<noteq> None)"
      "\<And>x y k. act x y = Some (Some k) \<Longrightarrow> \<not> incrementalizable k" for act Q
  proof (rule qmeasure_shrinks)
    have "Q = (\<lambda>x y. act x y \<noteq> None)" by (intro ext that(2))
    with that(1) show "length (pair_ops act ops) < length ops" by (auto intro: pair_ops_shrinks)
  qed (rule pair_ops_set [OF that(3)])
  show ?thesis
  proof (cases r)
    case JoinIncrementalizationRule
    with en Pair show ?thesis by (auto simp: not_incrementalizable qmeasure.simps split: option.splits)
  next
    case LinearChainIncrementalizationRule
    with en Pair show ?thesis by (auto simp: not_incrementalizable qmeasure.simps)
  next
    case IntegrationDifferentiationEliminationRule
    have "qmeasure (j, pair_ops act_integrate_differentiate ops) < qmeasure (j, ops)"
      using en IntegrationDifferentiationEliminationRule Pair
      by (intro pair [where Q = "\<lambda>x y. isIntegrator x \<and> isDifferentiator y"])
        (simp_all only: rule_enabled.simps act_enabled act_kept)
    with IntegrationDifferentiationEliminationRule Pair show ?thesis by simp
  next
    case DistinctOptimizationRule
    have "qmeasure (j, pair_ops act_distinct ops) < qmeasure (j, ops)"
      using en DistinctOptimizationRule Pair
      by (intro pair [where Q = "\<lambda>x y. isDistinct x \<and> isDistinct y"])
        (simp_all only: rule_enabled.simps act_enabled, metis act_kept(1) not_incrementalizable(1))
    with DistinctOptimizationRule Pair show ?thesis by simp
  next
    case LinearOperatorFusionRule
    have "qmeasure (j, fuse_ops ops) < qmeasure (j, ops)" if "fusable ops"
      by (rule qmeasure_shrinks [OF fuse_ops_shrinks [OF that] fuse_ops_set]) (rule not_incrementalizable(2))
    moreover have "qmeasure (j, pair_ops act_project_select ops) < qmeasure (j, ops)"
      if "ex_pair (\<lambda>x y. isProjection x \<and> isSelection y) ops"
      by (rule pair [OF that]) (simp only: act_enabled, metis act_kept(2) not_incrementalizable(3))
    ultimately show ?thesis using en Pair LinearOperatorFusionRule by auto
  qed
qed

lemma rule_length: "rule_query r (j, ops) = (j', ops') \<Longrightarrow> length ops' \<le> length ops"
  using length_pair_ops length_fuse_ops by (cases r) (auto split: if_splits)

section \<open>The engine\<close>

text \<open>One application of the engine to a query: some enabled rule.\<close>

inductive rule_step :: "query \<Rightarrow> query \<Rightarrow> bool" where
  "rule_enabled r q \<Longrightarrow> rule_step q (rule_query r q)"

lemma rule_steps_length: "rule_step\<^sup>*\<^sup>* (j, ops) (j', ops') \<Longrightarrow> length ops' \<le> length ops"
proof (induction "(j', ops')" arbitrary: j' ops' rule: rtranclp_induct)
  case (step q)
  obtain j1 ops1 where q: "q = (j1, ops1)" by (cases q)
  from step(2) q obtain r where "rule_query r (j1, ops1) = (j', ops')" by (auto elim: rule_step.cases)
  from rule_length [OF this] step(3) [OF q] show ?case by simp
qed simp

lemma apply_first_ok:
  assumes "graph_wf g" and "graph_query g = Inr q"
  shows "(\<forall>r \<in> set rs. \<not> rule_enabled r q) \<and> apply_first rs g = Inr None \<or>
    (\<exists>r g'. r \<in> set rs \<and> rule_enabled r q \<and> apply_first rs g = Inr (Some g') \<and> graph_wf g' \<and>
      graph_query g' = Inr (rule_query r q) \<and> same_inputs g g')"
proof (induction rs)
  case (Cons r rs)
  show ?case
  proof (cases "rule_enabled r q")
    case True
    with rule_applies [OF assms True] rule_tests [OF assms, of r] show ?thesis
      by (auto simp: rule_result_def)
  next
    case False
    with rule_tests [OF assms, of r] Cons show ?thesis by auto
  qed
qed simp

lemma engine_rules_all: "set engine_rules = UNIV"
  unfolding engine_rules_def using rule.exhaust by auto

text \<open>With enough iterations left the engine reaches a query no rule applies to.\<close>

lemma optimize_loop_converges:
  assumes "graph_wf g" and "graph_query g = Inr q" and "iterations + qmeasure q + 1 < maxIterations"
  shows "\<exists>g' q'. optimize_loop iterations g = (g', Inr ()) \<and> graph_wf g' \<and> graph_query g' = Inr q'
    \<and> same_inputs g g' \<and> rule_step\<^sup>*\<^sup>* q q' \<and> (\<forall>r. \<not> rule_enabled r q')"
  using assms
proof (induction "qmeasure q" arbitrary: g q iterations rule: less_induct)
  case less
  have it: "\<not> maxIterations \<le> iterations" "\<not> maxIterations \<le> iterations + 1" using less.prems(3) by simp_all
  from apply_first_ok [OF less.prems(1,2), of engine_rules]
  consider (stop) "\<forall>r. \<not> rule_enabled r q" "apply_first engine_rules g = Inr None"
    | (go) r g1 where "rule_enabled r q" "apply_first engine_rules g = Inr (Some g1)" "graph_wf g1"
        "graph_query g1 = Inr (rule_query r q)" "same_inputs g g1"
    by (auto simp: engine_rules_all)
  then show ?case
  proof cases
    case stop
    with it have "optimize_loop iterations g = (g, Inr ())" by (simp add: optimize_loop.simps [of iterations])
    with stop(1) less.prems show ?thesis by (intro exI [of _ g] exI [of _ q]) (simp add: same_inputs_def)
  next
    case go
    have dec: "qmeasure (rule_query r q) < qmeasure q" by (rule rule_decreases [OF go(1)])
    then have "iterations + 1 + qmeasure (rule_query r q) + 1 < maxIterations" using less.prems(3) by simp
    from less.hyps [OF dec go(3,4) this] obtain g' q' where
      r: "optimize_loop (iterations + 1) g1 = (g', Inr ())" "graph_wf g'" "graph_query g' = Inr q'"
        "same_inputs g1 g'" "rule_step\<^sup>*\<^sup>* (rule_query r q) q'" "\<forall>r. \<not> rule_enabled r q'"
      by blast
    have "rule_step\<^sup>*\<^sup>* q q'"
      using r(5) rule_step.intros [OF go(1)] by (rule converse_rtranclp_into_rtranclp [rotated])
    with r go it show ?thesis
      by (intro exI [of _ g'] exI [of _ q']) (simp add: optimize_loop.simps [of iterations] same_inputs_def)
  qed
qed

lemma Validate_same: "Validate g = (g', Inr ()) \<Longrightarrow> \<exists>out. g' = g\<lparr>g_output := out\<rparr>"
proof -
  have "g = g\<lparr>g_output := g_output g\<rparr>" by simp
  then show "Validate g = (g', Inr ()) \<Longrightarrow> \<exists>out. g' = g\<lparr>g_output := out\<rparr>"
    unfolding Validate_def by (auto split: if_splits intro: exI [of _ "g_output g'"])
qed

lemma graph_query_output [simp]: "graph_query (g\<lparr>g_output := out\<rparr>) = graph_query g"
proof -
  have "get_op (g\<lparr>g_output := out\<rparr>) = get_op g" by (simp add: get_op_def fun_eq_iff)
  then show ?thesis by (simp add: graph_query_def GetChain_def)
qed

lemma Optimize_converges:
  assumes "graph_wf g" and "graph_query g = Inr q" and "qmeasure q \<le> 18"
    and "g_inputs g \<noteq> []" and "length (g_inputs g) = 1 \<or> g_joinNode g \<noteq> []"
  shows "\<exists>g' q'. Optimize g = (g', Inr ()) \<and> graph_wf g' \<and> graph_query g' = Inr q'
    \<and> same_inputs g g' \<and> rule_step\<^sup>*\<^sup>* q q' \<and> (\<forall>r. \<not> rule_enabled r q')"
proof -
  have "\<exists>g1. Validate g = (g1, Inr ())"
    using assms(4,5) by (auto simp: Validate_def)
  then obtain g1 where v: "Validate g = (g1, Inr ())" ..
  from Validate_same [OF v] obtain out where g1: "g1 = g\<lparr>g_output := out\<rparr>" ..
  have "\<exists>g' q'. optimize_loop 0 g1 = (g', Inr ()) \<and> graph_wf g' \<and> graph_query g' = Inr q'
    \<and> same_inputs g1 g' \<and> rule_step\<^sup>*\<^sup>* q q' \<and> (\<forall>r. \<not> rule_enabled r q')"
    using assms(1-3) by (intro optimize_loop_converges) (simp_all add: g1 maxIterations_def)
  then show ?thesis by (simp add: Optimize_def v same_inputs_def g1)
qed

section \<open>Behaviour is preserved\<close>

text \<open>Rewriting pairs: a matching pair behaves like what replaces it.\<close>

lemma pair_ops_sim:
  assumes "\<And>x y. act x y = Some None \<Longrightarrow> plain dk x \<Longrightarrow> plain dk y \<Longrightarrow> chain_sim dk [x, y] []"
    and "\<And>x y k. act x y = Some (Some k) \<Longrightarrow> plain dk x \<Longrightarrow> plain dk y \<Longrightarrow> plain dk k \<and> chain_sim dk [x, y] [k]"
    and "\<forall>oper \<in> set ops. plain dk oper"
  shows "chain_sim dk ops (pair_ops act ops) \<and> (\<forall>oper \<in> set (pair_ops act ops). plain dk oper)"
  using assms
proof (induction act ops rule: pair_ops.induct)
  case (1 act x y ops)
  show ?case
  proof (cases "act x y")
    case None
    with "1.IH"(1) [OF None "1.prems"(1,2)] "1.prems"(3) show ?thesis
      by (auto intro: chain_sim_Cons plain_sim)
  next
    case (Some k)
    show ?thesis
    proof (cases k)
      case None
      with "1.IH"(2) [OF Some None "1.prems"(1,2)] "1.prems"(3)
      have "chain_sim dk ops (pair_ops act ops)" "\<forall>oper \<in> set (pair_ops act ops). plain dk oper" by auto
      with chain_sim_append [OF "1.prems"(1), of x y] Some None "1.prems"(3) show ?thesis by auto
    next
      case (Some f)
      with "1.IH"(3) [OF \<open>act x y = Some k\<close> Some "1.prems"(1,2)] "1.prems"(3)
      have "chain_sim dk ops (pair_ops act ops)" "\<forall>oper \<in> set (pair_ops act ops). plain dk oper" by auto
      with chain_sim_append [of dk "[x, y]" "[f]"] "1.prems"(2) [of x y f] \<open>act x y = Some k\<close> Some "1.prems"(3)
      show ?thesis by auto
    qed
  qed
qed (auto intro: plain_sim chain_sim_Nil)

lemma takeWhile_projections: "takeWhile isProjection ops = map ProjectionOp (proj_evals ops)"
  by (induction ops) (auto simp: proj_evals_def)

lemma fuse_ops_sim:
  "\<forall>oper \<in> set ops. plain dk oper \<Longrightarrow>
   chain_sim dk ops (fuse_ops ops) \<and> (\<forall>oper \<in> set (fuse_ops ops). plain dk oper)"
proof (induction ops rule: length_induct)
  case (1 ops)
  show ?case
  proof (cases ops)
    case Nil
    then show ?thesis by (simp add: chain_sim_Nil)
  next
    case (Cons x xs)
    let ?ps = "proj_evals xs" and ?rest = "dropWhile isProjection xs"
    have split: "xs = map ProjectionOp ?ps @ ?rest"
      by (metis takeWhile_dropWhile_id takeWhile_projections)
    then have sub: "set (map ProjectionOp ?ps) \<subseteq> set ops" "set ?rest \<subseteq> set ops"
      unfolding Cons by (metis Un_subset_iff set_append set_subset_Cons)+
    with "1.prems" have plain: "\<forall>oper \<in> set (map ProjectionOp ?ps). plain dk oper" "\<forall>oper \<in> set ?rest. plain dk oper"
      by blast+
    then have ps: "\<And>p. p \<in> set ?ps \<Longrightarrow> one_to_one p \<and> maps_known dk p" by simp
    have IH: "chain_sim dk ?rest (fuse_ops ?rest) \<and> (\<forall>oper \<in> set (fuse_ops ?rest). plain dk oper)"
      by (rule "1.IH" [rule_format, OF _ plain(2) [rule_format]])
        (use length_dropWhile_le [of isProjection xs] Cons in simp_all)
    have keep: "chain_sim dk ops (x # fuse_ops xs) \<and> (\<forall>oper \<in> set (x # fuse_ops xs). plain dk oper)"
      using "1.IH" "1.prems" Cons by (auto intro: chain_sim_Cons plain_sim)
    have fused: "chain_sim dk ops (f # fuse_ops ?rest) \<and> (\<forall>oper \<in> set (f # fuse_ops ?rest). plain dk oper)"
      if "chain_sim dk (x # map ProjectionOp ?ps) [f]" "plain dk f" for f
      using chain_sim_append [OF that(1) conjunct1 [OF IH]] that(2) IH split Cons by simp
    show ?thesis
    proof (cases "?ps = [] \<or> \<not> isSelection x \<and> \<not> isProjection x")
      case True
      then have "fuse_ops ops = x # fuse_ops xs" unfolding Cons by (auto split: option.splits)
      with keep show ?thesis by simp
    next
      case False
      then consider s where "x = SelectionOp s" | p where "x = ProjectionOp p" by auto
      then show ?thesis
      proof cases
        case 1
        with \<open>\<forall>oper \<in> set ops. plain dk oper\<close> Cons have s: "maps_known dk s" by simp
        with sim_select_projections [of "Some s" dk ?ps] ps 1
        have "chain_sim dk (x # map ProjectionOp ?ps) [SelectThenProjectionsOp (Some s) ?ps]" by simp
        from fused [OF this] s ps False 1 show ?thesis unfolding Cons by simp
      next
        case 2
        have p: "one_to_one p \<and> maps_known dk p" using \<open>\<forall>oper \<in> set ops. plain dk oper\<close> Cons 2 by simp
        with sim_select_projections [of None dk "p # ?ps"] ps 2
        have "chain_sim dk (x # map ProjectionOp ?ps) [SelectThenProjectionsOp None (p # ?ps)]" by auto
        from fused [OF this] p ps False 2 show ?thesis unfolding Cons by simp
      qed
    qed
  qed
qed

text \<open>The chain rules (3 to 5) preserve the behaviour of the chain.\<close>

lemma rule_preserves_chain:
  assumes "\<forall>oper \<in> set ops. plain dk oper" and "rule_query r (j, ops) = (j', ops')"
  shows "chain_sim dk ops ops' \<and> (\<forall>oper \<in> set ops'. plain dk oper)"
proof (cases r)
  case JoinIncrementalizationRule
  with assms show ?thesis by (auto intro: plain_chain_sim)
next
  case LinearChainIncrementalizationRule
  have "map (\<lambda>oper. fst (IncrementalizeOp oper)) ops = ops"
  proof (rule map_idI)
    fix oper assume "oper \<in> set ops"
    with assms(1) have "plain dk oper" by blast
    then show "fst (IncrementalizeOp oper) = oper" by (cases oper) (simp_all add: IncrementalizeOp_def)
  qed
  with LinearChainIncrementalizationRule assms show ?thesis by (auto intro: plain_chain_sim)
next
  case IntegrationDifferentiationEliminationRule
  have "chain_sim dk ops (pair_ops act_integrate_differentiate ops) \<and>
      (\<forall>oper \<in> set (pair_ops act_integrate_differentiate ops). plain dk oper)"
    using assms(1)
    by (intro pair_ops_sim) (auto simp: act_integrate_differentiate_def isIntegrator_iff isDifferentiator_iff
        intro!: sim_integrate_differentiate zeq_known zknown_New split: if_splits)
  with IntegrationDifferentiationEliminationRule assms show ?thesis by auto
next
  case DistinctOptimizationRule
  have "chain_sim dk ops (pair_ops act_distinct ops) \<and> (\<forall>oper \<in> set (pair_ops act_distinct ops). plain dk oper)"
    using assms(1)
    by (intro pair_ops_sim) (auto simp: act_distinct_def isDistinct_iff intro: sim_distinct_distinct split: if_splits)
  with DistinctOptimizationRule assms show ?thesis by auto
next
  case LinearOperatorFusionRule
  have "chain_sim dk ops (pair_ops act_project_select ops) \<and>
      (\<forall>oper \<in> set (pair_ops act_project_select ops). plain dk oper)"
    using assms(1)
    by (intro pair_ops_sim) (auto simp: act_project_select_def intro: sim_project_select split: option.splits)
  with fuse_ops_sim [OF assms(1)] LinearOperatorFusionRule assms show ?thesis by (auto split: if_splits)
qed

lemma rule_steps_preserve_chain:
  assumes "rule_step\<^sup>*\<^sup>* (j, ops) (j', ops')" and "\<forall>oper \<in> set ops. plain dk oper"
  shows "chain_sim dk ops ops' \<and> (\<forall>oper \<in> set ops'. plain dk oper)"
  using assms(1)
proof (induction "(j', ops')" arbitrary: j' ops' rule: rtranclp_induct)
  case base
  then show ?case using assms(2) by (auto intro: plain_chain_sim)
next
  case (step q)
  obtain j1 ops1 where q: "q = (j1, ops1)" by (cases q)
  have IH: "chain_sim dk ops ops1" "\<forall>oper \<in> set ops1. plain dk oper" using step(3) [OF q] by auto
  from step(2) q obtain r where "rule_query r (j1, ops1) = (j', ops')" by (auto elim: rule_step.cases)
  from rule_preserves_chain [OF IH(2) this] IH(1) show ?case by (auto intro: chain_sim_trans)
qed

end
