(* ===== verification/Converter.thy ===== *)
theory Converter
  imports Rewrite_Correct
begin

text \<open>
  Package \<^verbatim>\<open>dbsp\<close>, file \<^verbatim>\<open>graph_converter.go\<close>: rebuilding a graph in snapshot or in
  incremental mode.  A conversion is shown to succeed exactly when the operators convert, to
  denote the converted query over the same inputs, and converting a snapshot graph to
  incremental mode and back to give the query it started from.  Operators the source returns
  as they are share their state with the original graph; the model copies it.
\<close>

section \<open>Operations\<close>

definition convertToSnapshotJoin :: "operator \<Rightarrow> operator res" where
  "convertToSnapshotJoin oper =
     (case oper of
        IncrementalJoinOp eval names _ \<Rightarrow> Inr (JoinOp eval names)
      | IncrementalBinaryJoinOp eval names _ \<Rightarrow> Inr (BinaryJoinOp eval names)
      | JoinOp _ _ \<Rightarrow> Inr oper
      | BinaryJoinOp _ _ \<Rightarrow> Inr oper
      | _ \<Rightarrow> Inl (Error ''unsupported join operator type''))"

definition convertToIncrementalJoin :: "operator \<Rightarrow> operator res" where
  "convertToIncrementalJoin oper =
     (case oper of
        JoinOp eval names \<Rightarrow> Inr (NewIncrementalJoin eval names)
      | BinaryJoinOp eval names \<Rightarrow> Inr (NewIncrementalBinaryJoin eval names)
      | IncrementalJoinOp _ _ _ \<Rightarrow> Inr oper
      | IncrementalBinaryJoinOp _ _ _ \<Rightarrow> Inr oper
      | _ \<Rightarrow> Inl (Error ''unsupported join operator type''))"

definition convertToSnapshotOperator :: "operator \<Rightarrow> operator res" where
  "convertToSnapshotOperator oper =
     (case oper of
        IncrementalGatherOp ke ve ag _ \<Rightarrow> Inr (GatherOp ke ve ag)
      | ProjectionOp _ \<Rightarrow> Inr oper
      | SelectionOp _ \<Rightarrow> Inr oper
      | DistinctOp \<Rightarrow> Inr oper
      | ProjectThenSelectOp _ _ \<Rightarrow> Inr oper
      | SelectThenProjectionsOp _ _ \<Rightarrow> Inr oper
      | IntegratorOp _ \<Rightarrow> Inl (Error ''IntegratorOp cannot be converted to snapshot'')
      | DifferentiatorOp _ \<Rightarrow> Inl (Error ''DifferentiatorOp cannot be converted to snapshot'')
      | DelayOp _ \<Rightarrow> Inl (Error ''DelayOp cannot be converted to snapshot'')
      | GatherOp _ _ _ \<Rightarrow> Inr oper
      | _ \<Rightarrow> Inl (Error ''unsupported operator type for snapshot conversion''))"

definition convertToIncrementalOperator :: "operator \<Rightarrow> operator res" where
  "convertToIncrementalOperator oper =
     (case oper of
        GatherOp ke ve ag \<Rightarrow> Inr (NewIncrementalGather ke ve ag)
      | ProjectionOp _ \<Rightarrow> Inr oper
      | SelectionOp _ \<Rightarrow> Inr oper
      | DistinctOp \<Rightarrow> Inr oper
      | ProjectThenSelectOp _ _ \<Rightarrow> Inr oper
      | SelectThenProjectionsOp _ _ \<Rightarrow> Inr oper
      | IncrementalGatherOp _ _ _ _ \<Rightarrow> Inr oper
      | IntegratorOp _ \<Rightarrow> Inr oper
      | DifferentiatorOp _ \<Rightarrow> Inr oper
      | DelayOp _ \<Rightarrow> Inr oper
      | _ \<Rightarrow> Inl (Error ''unsupported operator type for incremental conversion''))"

text \<open>\<^verbatim>\<open>inputNode.Op.(*InputOp)\<close>, which panics on another operator.\<close>

fun asInput :: "operator \<Rightarrow> (string \<times> zset) res" where
  "asInput (InputOp name data) = Inr (name, data)"
| "asInput _ = Inl (Panic ''interface conversion'')"

definition convert_inputs :: "ChainGraph \<Rightarrow> ChainGraph res" where
  "convert_inputs source =
     foldM (\<lambda>t inputID. bind (get_op source inputID) (\<lambda>oper. bind (asInput oper) (\<lambda>(name, data).
       Inr (fst (AddInput t name data))))) NewChainGraph (g_inputs source)"

definition convert_chain :: "(operator \<Rightarrow> operator res) \<Rightarrow> ChainGraph \<Rightarrow> ChainGraph \<Rightarrow> string list \<Rightarrow> ChainGraph res" where
  "convert_chain opConverter source t ids =
     foldM (\<lambda>t nodeID. bind (get_op source nodeID) (\<lambda>oper.
       bind (rewrap ''failed to convert operator'' (opConverter oper)) (\<lambda>convertedOp.
         Inr (fst (AddToChain t convertedOp))))) t ids"

text \<open>The first component is the source graph, whose output \<^verbatim>\<open>Validate\<close> may have filled in.\<close>

definition convertGraph ::
    "(operator \<Rightarrow> operator res) \<Rightarrow> (operator \<Rightarrow> operator res) \<Rightarrow> ChainGraph \<Rightarrow> ChainGraph \<times> ChainGraph res" where
  "convertGraph joinConverter opConverter source0 =
     (case Validate source0 of
        (source, Inl e) \<Rightarrow> (source, Inl (wrap ''invalid graph'' e))
      | (source, Inr _) \<Rightarrow> (source,
          bind (convert_inputs source) (\<lambda>t1.
          bind (if g_joinNode source \<noteq> []
                then bind (get_op source (g_joinNode source)) (\<lambda>oper.
                  bind (rewrap ''failed to convert join'' (joinConverter oper)) (\<lambda>convertedJoinOp.
                    Inr (fst (SetJoin t1 convertedJoinOp))))
                else Inr t1) (\<lambda>t2.
          convert_chain opConverter source t2 (g_chain source)))))"

definition ToSnapshotGraph :: "ChainGraph \<Rightarrow> ChainGraph \<times> ChainGraph res" where
  "ToSnapshotGraph g = convertGraph convertToSnapshotJoin convertToSnapshotOperator g"

definition ToIncrementalGraph :: "ChainGraph \<Rightarrow> ChainGraph \<times> ChainGraph res" where
  "ToIncrementalGraph g = convertGraph convertToIncrementalJoin convertToIncrementalOperator g"

section \<open>Building a graph\<close>

text \<open>Names of the inputs in the order of the graph.\<close>

definition input_names :: "ChainGraph \<Rightarrow> string list" where
  "input_names g = map snd (g_inputIdx g)"

lemma get_op_new_node:
  assumes "graph_wf g" and "nid \<notin> ids_below (g_nextID g)" and "g_nodes g' = AList.update nid oper (g_nodes g)"
  shows "get_op g' nid = Inr oper" and "i \<in> keys (g_nodes g) \<Longrightarrow> get_op g' i = get_op g i"
proof -
  have "nid \<notin> keys (g_nodes g)" by (rule graph_wf_fresh(1) [OF assms(1,2)])
  then show "get_op g' nid = Inr oper" "i \<in> keys (g_nodes g) \<Longrightarrow> get_op g' i = get_op g i"
    by (auto simp: get_op_def assms(3) update_conv')
qed

lemma graph_wf_keys:
  assumes "graph_wf g"
  shows "set (g_chain g) \<subseteq> keys (g_nodes g)" "g_joinNode g \<noteq> [] \<Longrightarrow> g_joinNode g \<in> keys (g_nodes g)"
    "set (g_inputs g) \<subseteq> keys (g_nodes g)"
  using assms by (auto simp: graph_wf_def join_ids_def)

lemma mapM_get_op_keys:
  "(\<And>i. i \<in> keys (g_nodes g) \<Longrightarrow> get_op g' i = get_op g i) \<Longrightarrow> set ids \<subseteq> keys (g_nodes g) \<Longrightarrow>
   mapM (get_op g') ids = mapM (get_op g) ids"
  by (rule mapM_cong [OF refl]) blast

lemma AddToChain_query:
  assumes wf: "graph_wf g" and q: "graph_query g = Inr (j, ops)"
  shows "graph_query (fst (AddToChain g oper)) = Inr (j, ops @ [oper])"
    and "input_names (fst (AddToChain g oper)) = input_names g"
proof -
  let ?g = "fst (AddToChain g oper)"
  have n: "g_nodes ?g = AList.update (op_id (g_nextID g)) oper (g_nodes g)"
    by (simp add: AddToChain_def Let_def)
  note get = get_op_new_node [OF wf ids_fresh(3) n]
  have "mapM (get_op ?g) (g_chain g) = mapM (get_op g) (g_chain g)"
    using get(2) graph_wf_keys(1) [OF wf] by (rule mapM_get_op_keys)
  moreover have "g_joinNode g \<noteq> [] \<Longrightarrow> get_op ?g (g_joinNode g) = get_op g (g_joinNode g)"
    using get(2) graph_wf_keys(2) [OF wf] by blast
  moreover have "mapM f (xs @ [x]) = bind (mapM f xs) (\<lambda>ys. bind (f x) (\<lambda>y. Inr (ys @ [y])))"
    for f :: "string \<Rightarrow> operator res" and xs x
    by (induction xs) (auto simp: bind_assoc)
  moreover have "g_chain ?g = g_chain g @ [op_id (g_nextID g)]" "g_joinNode ?g = g_joinNode g"
    by (simp_all add: AddToChain_def Let_def)
  ultimately show "graph_query ?g = Inr (j, ops @ [oper])"
    using q get(1) by (auto simp: graph_query_Inr GetChain_def split: option.splits)
qed (simp add: AddToChain_def Let_def input_names_def)

lemma SetJoin_query:
  assumes wf: "graph_wf g" and q: "graph_query g = Inr (j, ops)"
  shows "graph_query (fst (SetJoin g oper)) = Inr (Some oper, ops)"
    and "input_names (fst (SetJoin g oper)) = input_names g"
proof -
  let ?g = "fst (SetJoin g oper)"
  have n: "g_nodes ?g = AList.update (join_id (g_nextID g)) oper (g_nodes g)"
    by (simp add: SetJoin_def Let_def)
  note get = get_op_new_node [OF wf ids_fresh(2) n]
  have "mapM (get_op ?g) (g_chain g) = mapM (get_op g) (g_chain g)"
    using get(2) graph_wf_keys(1) [OF wf] by (rule mapM_get_op_keys)
  moreover have "g_chain ?g = g_chain g" "g_joinNode ?g = join_id (g_nextID g)"
    by (simp_all add: SetJoin_def Let_def)
  ultimately show "graph_query ?g = Inr (Some oper, ops)"
    using q get(1) by (auto simp: graph_query_Inr GetChain_def split: option.splits)
qed (simp add: SetJoin_def Let_def input_names_def)

lemma AddInput_query:
  assumes wf: "graph_wf g" and q: "graph_query g = Inr (j, ops)" and name: "name \<notin> set (input_names g)"
  shows "graph_query (fst (AddInput g name data)) = Inr (j, ops)"
    and "input_names (fst (AddInput g name data)) = input_names g @ [name]"
proof -
  let ?g = "fst (AddInput g name data)"
  have new: "name \<notin> snd ` set (g_inputIdx g)" using name by (simp add: input_names_def)
  have n: "g_nodes ?g = AList.update (input_id (g_nextID g)) (InputOp name data) (g_nodes g)"
    using new by (simp add: AddInput_def Let_def)
  note get = get_op_new_node [OF wf ids_fresh(1) n]
  have "mapM (get_op ?g) (g_chain g) = mapM (get_op g) (g_chain g)"
    using get(2) graph_wf_keys(1) [OF wf] by (rule mapM_get_op_keys)
  moreover have "g_joinNode g \<noteq> [] \<Longrightarrow> get_op ?g (g_joinNode g) = get_op g (g_joinNode g)"
    using get(2) graph_wf_keys(2) [OF wf] by blast
  moreover have "g_chain ?g = g_chain g" "g_joinNode ?g = g_joinNode g"
    using new by (simp_all add: AddInput_def Let_def)
  ultimately show "graph_query ?g = Inr (j, ops)"
    using q by (auto simp: graph_query_Inr GetChain_def split: option.splits)
  show "input_names ?g = input_names g @ [name]"
    using new set_update_new [OF graph_wf_fresh(5) [OF wf ids_fresh(1)]]
    by (simp add: AddInput_def Let_def input_names_def)
qed

lemma graph_query_New: "graph_query NewChainGraph = Inr (None, [])"
  by (simp add: graph_query_def GetChain_def NewChainGraph_def)

section \<open>Conversions are faithful\<close>

lemma convert_inputs_loop:
  assumes "\<And>i name. (i, name) \<in> set idx \<Longrightarrow> \<exists>data. get_op g i = Inr (InputOp name data)"
    and "graph_wf t" and "graph_query t = Inr (None, [])" and "distinct (input_names t @ map snd idx)"
  shows "\<exists>t'. foldM (\<lambda>t inputID. bind (get_op g inputID) (\<lambda>oper. bind (asInput oper) (\<lambda>(name, data).
       Inr (fst (AddInput t name data))))) t (map fst idx) = Inr t' \<and> graph_wf t'
     \<and> graph_query t' = Inr (None, []) \<and> input_names t' = input_names t @ map snd idx"
  using assms
proof (induction idx arbitrary: t)
  case (Cons e idx)
  obtain i name where e: "e = (i, name)" by (cases e)
  with Cons.prems(1) obtain data where d: "get_op g i = Inr (InputOp name data)" by force
  let ?t = "fst (AddInput t name data)"
  have name: "name \<notin> set (input_names t)" using Cons.prems(4) e by auto
  note q = AddInput_query [OF Cons.prems(2,3) name, of data]
  have "distinct (input_names ?t @ map snd idx)" using Cons.prems(4) e q(2) by auto
  from Cons.IH [OF _ graph_wf_AddInput [OF Cons.prems(2)] q(1) this] Cons.prems(1) d e q(2) show ?case
    by auto
qed simp

lemma convert_inputs_ok:
  assumes "graph_wf g"
  shows "\<exists>t. convert_inputs g = Inr t \<and> graph_wf t \<and> graph_query t = Inr (None, []) \<and> input_names t = input_names g"
proof -
  have "\<exists>data. get_op g i = Inr (InputOp name data)" if "(i, name) \<in> set (g_inputIdx g)" for i name
  proof -
    have "\<exists>data. map_of (g_nodes g) i = Some (InputOp name data)"
      using assms that by (auto simp: graph_wf_def inputs_named_def)
    then show ?thesis by (auto simp: get_op_def)
  qed
  moreover have "distinct (input_names NewChainGraph @ map snd (g_inputIdx g))"
    using assms by (simp add: graph_wf_def input_names_def NewChainGraph_def)
  ultimately show ?thesis
    using convert_inputs_loop [of "g_inputIdx g" g NewChainGraph, OF _ graph_wf_New graph_query_New] assms
    unfolding convert_inputs_def by (auto simp: graph_wf_def input_names_def NewChainGraph_def)
qed

lemma convert_chain_ok:
  assumes "mapM (get_op g) ids = Inr ops" and "mapM conv ops = Inr ops'"
    and "graph_wf t" and "graph_query t = Inr (j, base)"
  shows "\<exists>t'. convert_chain conv g t ids = Inr t' \<and> graph_wf t' \<and> graph_query t' = Inr (j, base @ ops')
     \<and> input_names t' = input_names t"
  using assms
proof (induction ids arbitrary: t base ops ops')
  case (Cons i ids)
  then obtain x xs where x: "ops = x # xs" "get_op g i = Inr x" "mapM (get_op g) ids = Inr xs"
    by (auto simp: bind_Inr_iff)
  with Cons.prems(2) obtain y ys where y: "ops' = y # ys" "conv x = Inr y" "mapM conv xs = Inr ys"
    by (auto simp: bind_Inr_iff)
  note q = AddToChain_query [OF Cons.prems(3,4), of y]
  from Cons.IH [OF x(3) y(3) graph_wf_AddToChain [OF Cons.prems(3)] q(1)] x y q(2) show ?case
    by (auto simp: convert_chain_def)
qed (simp add: convert_chain_def)

lemma convertGraph_ok:
  assumes wf: "graph_wf g" and q: "graph_query g = Inr (j, ops)"
    and valid: "snd (Validate g) = Inr ()"
    and j: "(case j of None \<Rightarrow> j' = None | Some oper \<Rightarrow> \<exists>oper'. jc oper = Inr oper' \<and> j' = Some oper')"
    and ops: "mapM oc ops = Inr ops'"
  shows "\<exists>g0 t. convertGraph jc oc g = (g0, Inr t) \<and> graph_wf t \<and> graph_query t = Inr (j', ops')
    \<and> input_names t = input_names g"
proof -
  obtain g0 where v: "Validate g = (g0, Inr ())" using valid by (cases "Validate g") auto
  from Validate_same [OF v] obtain out where g0: "g0 = g\<lparr>g_output := out\<rparr>" ..
  have q0: "graph_query g0 = Inr (j, ops)" and wf0: "graph_wf g0" and n0: "input_names g0 = input_names g"
    using q wf by (simp_all add: g0 input_names_def)
  obtain t1 where t1: "convert_inputs g0 = Inr t1" "graph_wf t1" "graph_query t1 = Inr (None, [])"
      "input_names t1 = input_names g0"
    using convert_inputs_ok [OF wf0] by blast
  obtain t2 where t2: "(if g_joinNode g0 \<noteq> [] then bind (get_op g0 (g_joinNode g0)) (\<lambda>oper.
        bind (rewrap ''failed to convert join'' (jc oper)) (\<lambda>c. Inr (fst (SetJoin t1 c)))) else Inr t1) = Inr t2"
      "graph_wf t2" "graph_query t2 = Inr (j', [])" "input_names t2 = input_names g0"
  proof (cases j)
    case None
    with q0 j t1 that [of t1] show ?thesis by (simp add: graph_query_Inr)
  next
    case (Some oper)
    with j obtain oper' where "jc oper = Inr oper'" "j' = Some oper'" by auto
    with Some q0 t1 SetJoin_query [OF t1(2,3)] graph_wf_SetJoin [OF t1(2)] that [of "fst (SetJoin t1 oper')"]
    show ?thesis by (simp add: graph_query_Inr)
  qed
  have m: "mapM (get_op g0) (g_chain g0) = Inr ops" using q0 by (simp add: graph_query_Inr GetChain_def)
  from convert_chain_ok [OF m ops t2(2,3)] t1(1) t2(1,4) v n0 show ?thesis
    by (auto simp: convertGraph_def simp del: bind_simps) (auto simp: t1(1) t2(1))
qed

text \<open>Snapshot operators: those a query has before incrementalization.\<close>

fun snapshot_op :: "operator \<Rightarrow> bool" where
  "snapshot_op (ProjectionOp _) = True"
| "snapshot_op (SelectionOp _) = True"
| "snapshot_op (GatherOp _ _ _) = True"
| "snapshot_op DistinctOp = True"
| "snapshot_op (ProjectThenSelectOp _ _) = True"
| "snapshot_op (SelectThenProjectionsOp _ _) = True"
| "snapshot_op _ = False"

fun snapshot_join :: "operator \<Rightarrow> bool" where
  "snapshot_join (JoinOp _ _) = True"
| "snapshot_join (BinaryJoinOp _ _) = True"
| "snapshot_join _ = False"

lemma snapshot_op_roundtrip:
  "snapshot_op oper \<Longrightarrow> \<exists>oper'. convertToIncrementalOperator oper = Inr oper' \<and> convertToSnapshotOperator oper' = Inr oper"
  by (cases oper) (simp_all add: convertToIncrementalOperator_def convertToSnapshotOperator_def NewIncrementalGather_def)

lemma snapshot_join_roundtrip:
  "snapshot_join oper \<Longrightarrow> \<exists>oper'. convertToIncrementalJoin oper = Inr oper' \<and> convertToSnapshotJoin oper' = Inr oper"
  by (cases oper) (simp_all add: convertToIncrementalJoin_def convertToSnapshotJoin_def NewIncrementalJoin_def
      NewIncrementalBinaryJoin_def)

text \<open>On snapshot operators the converter agrees with the rewriter's \<^verbatim>\<open>IncrementalizeOp\<close>.\<close>

lemma convert_is_incrementalize:
  "snapshot_op oper \<Longrightarrow> convertToIncrementalOperator oper = Inr (fst (IncrementalizeOp oper))"
  "snapshot_join oper \<Longrightarrow> convertToIncrementalJoin oper = Inr (fst (IncrementalizeOp oper))"
  by (cases oper; simp add: convertToIncrementalOperator_def convertToIncrementalJoin_def IncrementalizeOp_def)+

lemma mapM_roundtrip:
  assumes "\<And>x. x \<in> set xs \<Longrightarrow> \<exists>y. f x = Inr y \<and> h y = Inr x"
  shows "\<exists>ys. mapM f xs = Inr ys \<and> mapM h ys = Inr xs"
  using assms
proof (induction xs)
  case (Cons x xs)
  then obtain y ys where "f x = Inr y" "h y = Inr x" "mapM f xs = Inr ys" "mapM h ys = Inr xs"
    by (metis list.set_intros)
  then show ?case by (intro exI [of _ "y # ys"]) simp
qed simp

lemma Validate_ok_iff:
  "snd (Validate g) = Inr () \<longleftrightarrow> g_inputs g \<noteq> [] \<and> (length (g_inputs g) = 1 \<or> g_joinNode g \<noteq> [])"
  by (cases "g_inputs g") (auto simp: Validate_def)

lemma input_names_length: "graph_wf g \<Longrightarrow> length (input_names g) = length (g_inputs g)"
  by (metis graph_wf_def input_names_def length_map)

text \<open>Whether a graph is valid depends on the query and the names only.\<close>

lemma valid_by_query:
  assumes "graph_wf g" and "graph_query g = Inr (j, ops)"
  shows "snd (Validate g) = Inr () \<longleftrightarrow> input_names g \<noteq> [] \<and> (length (input_names g) = 1 \<or> j \<noteq> None)"
proof -
  have "(j \<noteq> None) = (g_joinNode g \<noteq> [])" using assms(2) by (auto simp: graph_query_Inr split: option.splits)
  moreover have "(input_names g = []) = (g_inputs g = [])"
    using input_names_length [OF assms(1)] by (metis length_0_conv)
  ultimately show ?thesis using input_names_length [OF assms(1)] by (simp add: Validate_ok_iff)
qed

lemma convert_roundtrip:
  assumes wf: "graph_wf g" and q: "graph_query g = Inr (j, ops)" and v: "snd (Validate g) = Inr ()"
    and j: "\<And>oper. j = Some oper \<Longrightarrow> snapshot_join oper" and ops: "\<And>oper. oper \<in> set ops \<Longrightarrow> snapshot_op oper"
  shows "\<exists>g0 gi g1 gs. ToIncrementalGraph g = (g0, Inr gi) \<and> ToSnapshotGraph gi = (g1, Inr gs) \<and>
    graph_wf gs \<and> graph_query gs = Inr (j, ops) \<and> input_names gs = input_names g"
proof -
  obtain ops' where o: "mapM convertToIncrementalOperator ops = Inr ops'" "mapM convertToSnapshotOperator ops' = Inr ops"
    using mapM_roundtrip [of ops convertToIncrementalOperator convertToSnapshotOperator, OF snapshot_op_roundtrip [OF ops]]
    by blast
  obtain j' where jj: "case j of None \<Rightarrow> j' = None | Some oper \<Rightarrow> \<exists>oper'. convertToIncrementalJoin oper = Inr oper' \<and> j' = Some oper'"
      "case j' of None \<Rightarrow> j = None | Some oper \<Rightarrow> \<exists>oper'. convertToSnapshotJoin oper = Inr oper' \<and> j = Some oper'"
  proof (cases j)
    case None
    with that [of None] show ?thesis by simp
  next
    case (Some oper)
    from snapshot_join_roundtrip [OF j [OF Some]] obtain oper' where "convertToIncrementalJoin oper = Inr oper'"
        "convertToSnapshotJoin oper' = Inr oper" by blast
    with that [of "Some oper'"] Some show ?thesis by simp
  qed
  obtain g0 gi where gi: "convertGraph convertToIncrementalJoin convertToIncrementalOperator g = (g0, Inr gi)"
      "graph_wf gi" "graph_query gi = Inr (j', ops')" "input_names gi = input_names g"
    using convertGraph_ok [OF wf q v jj(1) o(1)] by blast
  have "(j' \<noteq> None) = (j \<noteq> None)" using jj by (auto split: option.splits)
  then have "snd (Validate gi) = Inr ()"
    using v valid_by_query [OF wf q] valid_by_query [OF gi(2,3)] gi(4) by simp
  from convertGraph_ok [OF gi(2,3) this jj(2) o(2)] gi(1,4) show ?thesis
    by (auto simp: ToIncrementalGraph_def ToSnapshotGraph_def)
qed

end
