(* ===== verification/Incremental.thy ===== *)
theory Incremental
  imports Converter
begin

text \<open>
  What the whole of package \<^verbatim>\<open>dbsp\<close> is for: a graph built in snapshot mode and optimized by
  the rewrite engine, executed on the deltas of its inputs, produces outputs that add up to
  what the snapshot graph produces on the accumulated inputs.
\<close>

section \<open>A linear chain after an incremental operator\<close>

text \<open>An incremental operator whose outputs consist of documents of a dictionary.\<close>

locale incremental_known = incremental step okay st accum snap
  for step :: "'s \<Rightarrow> 'i \<Rightarrow> 's \<times> zset res" and okay and st :: "'s \<Rightarrow> 'a \<Rightarrow> bool" and accum and snap +
  fixes dk :: "string \<Rightarrow> doc"
  assumes step_known: "st s a \<Longrightarrow> okay x \<Longrightarrow> step s x = (s', Inr r) \<Longrightarrow> zknown dk r"
    and snap_finite: "st s a \<Longrightarrow> finite_support (snap a)"
begin

text \<open>The operator followed by a chain; the response of the chain to a snapshot.\<close>

definition then_step :: "'s \<times> operator list \<Rightarrow> 'i \<Rightarrow> ('s \<times> operator list) \<times> zset res" where
  "then_step s x = (case step (fst s) x of
     (s', Inl e) \<Rightarrow> ((s', snd s), Inl e)
   | (s', Inr z) \<Rightarrow> (case run_chain (snd s) z of (ops', r) \<Rightarrow> ((s', ops'), r)))"

definition then_snap :: "evaluator \<Rightarrow> 'a \<Rightarrow> string \<Rightarrow> gint" where
  "then_snap f a k = wsum (snap a) (\<lambda>k0. occ (imgs f (dk k0)) k)"

lemma then_chain:
  assumes stateless: "\<And>z. run_chain ops z = (ops, run z)" and resp: "responds dk run f"
    and st: "st s a" and sim: "chain_sim dk ops ops'" and x: "okay x"
  shows "\<exists>s' ops'' r. then_step (s, ops') x = ((s', ops''), Inr r) \<and> zknown dk r \<and> st s' (accum a x) \<and>
    chain_sim dk ops ops'' \<and> (\<forall>k. cnt r k = then_snap f (accum a x) k - then_snap f a k)"
proof -
  from step_delta [OF st x] obtain s' z where z: "step s x = (s', Inr z)" "zwf z" "st s' (accum a x)"
      "\<And>k. cnt z k = snap (accum a x) k - snap a k"
    by blast
  have zk: "zknown dk z" by (rule step_known [OF st x z(1)])
  obtain bs r r' where r: "run_chain ops z = (bs, Inr r)" "zeq dk r r'" "\<exists>ops''. run_chain ops' z = (ops'', Inr r') \<and> chain_sim dk bs ops''"
    using chain_simD [OF sim] zk by (metis zeq_known)
  then obtain ops'' where ops'': "run_chain ops' z = (ops'', Inr r')" "chain_sim dk ops ops''"
    using stateless by auto
  have run: "run z = Inr r" using r(1) stateless [of z] by simp
  have "cnt r' k = then_snap f (accum a x) k - then_snap f a k" for k
  proof -
    let ?h = "\<lambda>k0. occ (imgs f (dk k0)) k"
    have "cnt r' k = wsum (cnt z) ?h"
      using respondsD [OF resp zk] run r(2) by (metis (no_types, lifting) old.sum.inject(2) zeq_def)
    also have "cnt z = (\<lambda>k. snap (accum a x) k + - snap a k)" using z(4) by (simp add: fun_eq_iff)
    also have "wsum \<dots> ?h = wsum (snap (accum a x)) ?h + wsum (\<lambda>k. - snap a k) ?h"
      using snap_finite [OF z(3)] snap_finite [OF st] by (intro wsum_add) simp_all
    finally show ?thesis by (simp add: then_snap_def wsum_uminus)
  qed
  moreover have "zknown dk r'" using r(2) by (simp add: zeq_def)
  ultimately show ?thesis using z(1,3) ops'' by (auto simp: then_step_def)
qed

end

section \<open>The heads of a query\<close>

text \<open>An n-ary incremental join, and a single input without a join.\<close>

lemma join_snap_finite:
  assumes "join_st dk eval names ss fs"
  shows "finite_support (join_snap dk eval names fs)"
proof -
  let ?zs = "map init_state ss"
  from assms have st: "joins_known dk eval names" "\<And>z. z \<in> set ?zs \<Longrightarrow> zknown dk z" "length ?zs = length names"
      "map cnt ?zs = fs"
    by (auto simp: join_st_def)
  obtain r where "\<And>k. cnt r k = join_snap dk eval names (map cnt ?zs) k"
    using JoinOp_known [OF st(1-3)] by blast
  then have "cnt r = join_snap dk eval names fs" unfolding st(4) by blast
  with finite_cnt [of r] show ?thesis by simp
qed

interpretation ijoin_known: incremental_known "IncrementalJoinOp_Process eval names" "join_okay dk names"
    "join_st dk eval names" join_accum "join_snap dk eval names" dk for dk eval names
proof
  fix ss a ds ss' r assume "join_st dk eval names ss a" "join_okay dk names ds"
    "IncrementalJoinOp_Process eval names ss ds = (ss', Inr r)"
  with IncrementalJoin_step show "zknown dk r" by fastforce
qed (rule join_snap_finite)

definition src_step :: "unit \<Rightarrow> zset list \<Rightarrow> unit \<times> zset res" where
  "src_step s zs = (s, case zs of z # _ \<Rightarrow> Inr z | [] \<Rightarrow> Inl (Panic ''index out of range''))"

interpretation src: incremental_known src_step "\<lambda>zs. \<exists>z. zs = [z] \<and> zknown dk z"
    "\<lambda>_. finite_support" "\<lambda>a zs k. a k + cnt (hd zs) k" "\<lambda>a. a" dk for dk
proof
  fix s :: unit and a zs assume "finite_support a" and "\<exists>z. zs = [z] \<and> zknown dk z"
  then obtain z where z: "zs = [z]" "zknown dk z" by blast
  have "finite_support (\<lambda>k. a k + cnt z k)"
    by (rule finite_subset [of _ "{k. a k \<noteq> 0} \<union> {k. cnt z k \<noteq> 0}"]) (use \<open>finite_support a\<close> in auto)
  with z show "\<exists>s' r. src_step s zs = (s', Inr r) \<and> zwf r \<and> finite_support (\<lambda>k. a k + cnt (hd zs) k) \<and>
      (\<forall>k. cnt r k = a k + cnt (hd zs) k - a k)"
    by (auto simp: src_step_def)
qed (auto simp: src_step_def)

section \<open>Linear chains\<close>

text \<open>A chain of linear stages is one stage.\<close>

lemma linear_chain_responds:
  assumes "\<forall>oper \<in> set ops. linear_stage oper \<and> plain dk oper"
  obtains run f where "\<And>z. run_chain ops z = (ops, run z)" "responds dk run f"
  using assms
proof (induction ops arbitrary: thesis)
  case Nil
  show ?case by (rule Nil.prems(1) [OF _ responds_id]) simp
next
  case (Cons oper ops)
  then obtain run f where rf: "\<And>z. run_chain ops z = (ops, run z)" "responds dk run f" by auto
  have oper: "linear_stage oper" "plain dk oper" using Cons.prems(2) by auto
  show ?case
  proof (rule Cons.prems(1))
    show "run_chain (oper # ops) z = (oper # ops, bind (snd (op_Process oper [z])) run)" for z
      using stage_stateless [OF oper(1), of z] rf(1) run_chain_append [of "[oper]" ops z]
      by (auto split: sum.splits simp del: run_chain.simps)
    show "responds dk (\<lambda>z. bind (snd (op_Process oper [z])) run) (chain_img (stage_img oper) f)"
      by (rule responds_compose [OF stage_responds [OF oper] rf(2)])
  qed
qed

section \<open>The executor as an incremental operator\<close>

definition delta_inputs :: "(string \<Rightarrow> doc) \<Rightarrow> string list \<Rightarrow> (string \<times> zset) list \<Rightarrow> bool" where
  "delta_inputs dk ns ins \<longleftrightarrow> length ins = length ns \<and> (\<forall>n \<in> set ns. \<exists>z. map_of ins n = Some z \<and> zknown dk z)"

definition input_of :: "(string \<times> zset) list \<Rightarrow> string \<Rightarrow> zset" where
  "input_of ins n = (case map_of ins n of Some z \<Rightarrow> z | None \<Rightarrow> NewDocumentZSet)"

lemma select_inputs_names:
  assumes "graph_wf g" and "delta_inputs dk (input_names g) ins"
  shows "select_inputs g ins = Inr (map (input_of ins) (input_names g))"
proof -
  have d: "distinct (map fst (g_inputIdx g))" "g_inputs g = map fst (g_inputIdx g)"
    using assms(1) by (auto simp: graph_wf_def)
  have "mapM (\<lambda>inputID. case map_of (g_inputIdx g) inputID of
          None \<Rightarrow> Inl (Error ''internal error: no input for ID'')
        | Some inputName \<Rightarrow> (case map_of ins inputName of
               None \<Rightarrow> Inl (Error ''missing input for node'') | Some z \<Rightarrow> Inr z)) (map fst (g_inputIdx g))
      = mapM (\<lambda>e. Inr (input_of ins (snd e))) (g_inputIdx g)"
    unfolding mapM_map
  proof (rule mapM_cong [OF refl])
    fix e assume e: "e \<in> set (g_inputIdx g)"
    with d(1) have "map_of (g_inputIdx g) (fst e) = Some (snd e)" by simp
    moreover have "snd e \<in> set (input_names g)" using e by (simp add: input_names_def)
    then obtain z where "map_of ins (snd e) = Some z" using assms(2) by (auto simp: delta_inputs_def)
    ultimately show "(case map_of (g_inputIdx g) (fst e) of
          None \<Rightarrow> Inl (Error ''internal error: no input for ID'')
        | Some inputName \<Rightarrow> (case map_of ins inputName of
               None \<Rightarrow> Inl (Error ''missing input for node'') | Some z \<Rightarrow> Inr z)) = Inr (input_of ins (snd e))"
      by (simp add: input_of_def)
  qed
  then show ?thesis
    using assms(2) d(2) by (simp add: select_inputs_def delta_inputs_def input_names_def comp_def)
qed

text \<open>The chain \<open>ops\<close> responds to snapshots with \<open>f\<close>, the graph's chain behaves like \<open>ops\<close>.\<close>

definition linear_view :: "(string \<Rightarrow> doc) \<Rightarrow> operator list \<Rightarrow> evaluator \<Rightarrow> bool" where
  "linear_view dk ops f \<longleftrightarrow> (\<exists>run. (\<forall>z. run_chain ops z = (ops, run z)) \<and> responds dk run f)"

definition join_view_st ::
    "(string \<Rightarrow> doc) \<Rightarrow> evaluator \<Rightarrow> string list \<Rightarrow> string list \<Rightarrow> operator list \<Rightarrow> evaluator \<Rightarrow>
     ChainGraph \<Rightarrow> (string \<Rightarrow> gint) list \<Rightarrow> bool" where
  "join_view_st dk eval names ns ops f g a \<longleftrightarrow> linear_view dk ops f \<and> graph_wf g \<and> input_names g = ns \<and>
     length ns = length names \<and>
     (\<exists>ss ops'. graph_query g = Inr (Some (IncrementalJoinOp eval names ss), ops') \<and>
        join_st dk eval names ss a \<and> chain_sim dk ops ops')"

definition view_accum :: "string list \<Rightarrow> (string \<Rightarrow> gint) list \<Rightarrow> (string \<times> zset) list \<Rightarrow> (string \<Rightarrow> gint) list" where
  "view_accum ns a ins = join_accum a (map (input_of ins) ns)"

lemma same_but_names: "same_but ids g g' \<Longrightarrow> input_names g' = input_names g"
  by (simp add: input_names_def same_but_fields)

lemma view_join_step:
  assumes st: "join_view_st dk eval names ns ops f g a" and ins: "delta_inputs dk ns ins"
  shows "\<exists>g' r. Executor_Process g ins = (g', Inr r) \<and> zknown dk r \<and>
      join_view_st dk eval names ns ops f g' (view_accum ns a ins) \<and>
      (\<forall>k. cnt r k = wsum (join_snap dk eval names (view_accum ns a ins)) (\<lambda>k0. occ (imgs f (dk k0)) k) -
        wsum (join_snap dk eval names a) (\<lambda>k0. occ (imgs f (dk k0)) k))"
proof -
  let ?zs = "map (input_of ins) ns"
  from st obtain ss ops' run where g: "graph_wf g" "input_names g = ns" "length ns = length names"
      "graph_query g = Inr (Some (IncrementalJoinOp eval names ss), ops')" "join_st dk eval names ss a"
      "chain_sim dk ops ops'" "\<And>z. run_chain ops z = (ops, run z)" "responds dk run f"
    and view: "linear_view dk ops f"
    by (auto simp: join_view_st_def linear_view_def)
  have ok: "join_okay dk names ?zs"
    using ins g(3) by (auto simp: join_okay_def delta_inputs_def input_of_def)
  obtain ss' ops'' r where r: "ijoin_known.then_step eval names (ss, ops') ?zs = ((ss', ops''), Inr r)" "zknown dk r"
      "join_st dk eval names ss' (join_accum a ?zs)" "chain_sim dk ops ops''"
      "\<And>k. cnt r k = ijoin_known.then_snap dk eval names f (join_accum a ?zs) k - ijoin_known.then_snap dk eval names f a k"
    using ijoin_known.then_chain [OF g(7,8,5,6) ok] by blast
  have sel: "select_inputs g ins = Inr ?zs" using select_inputs_names [of g dk ins] g(1,2) ins by simp
  have "query_step (Some (IncrementalJoinOp eval names ss), ops') ?zs =
      ((Some (IncrementalJoinOp eval names ss'), ops''), Inr r)"
    using r(1) by (auto simp: ijoin_known.then_step_def split: prod.splits sum.splits)
  from executor_refines [OF g(1,4) sel this] obtain g' where g': "Executor_Process g ins = (g', Inr r)"
      "graph_wf g'" "graph_query g' = Inr (Some (IncrementalJoinOp eval names ss'), ops'')"
      "same_but (set (join_ids g @ g_chain g)) g g'"
    by blast
  have "join_view_st dk eval names ns ops f g' (view_accum ns a ins)"
    using g' r(3,4) view g(2,3) same_but_names [OF g'(4)] by (auto simp: join_view_st_def view_accum_def)
  with g'(1) r(2,5) show ?thesis
    by (auto simp: ijoin_known.then_snap_def view_accum_def)
qed

interpretation view_join: incremental Executor_Process "delta_inputs dk ns" "join_view_st dk eval names ns ops f"
    "view_accum ns" "\<lambda>a k. wsum (join_snap dk eval names a) (\<lambda>k0. occ (imgs f (dk k0)) k)"
  for dk eval names ns ops f
  by unfold_locales (use view_join_step zknown_wf in fast)

text \<open>Accumulated deltas, input by input.\<close>

lemma view_accum_total:
  "foldl (view_accum ns) (map F ns) inss = map (\<lambda>n k. F n k + total (map (\<lambda>ins. input_of ins n) inss) k) ns"
proof (induction inss arbitrary: F)
  case (Cons ins inss)
  have "view_accum ns (map F ns) ins = map (\<lambda>n k. F n k + cnt (input_of ins n) k) ns"
    by (simp add: view_accum_def join_accum_def zip_map1 zip_map2 zip_same_conv_map comp_def)
  then show ?case using Cons [of "\<lambda>n k. F n k + cnt (input_of ins n) k"] by (simp add: add.assoc)
qed (simp add: fun_eq_iff)

definition single_view_st ::
    "(string \<Rightarrow> doc) \<Rightarrow> string \<Rightarrow> operator list \<Rightarrow> evaluator \<Rightarrow> ChainGraph \<Rightarrow> (string \<Rightarrow> gint) \<Rightarrow> bool" where
  "single_view_st dk n ops f g a \<longleftrightarrow> linear_view dk ops f \<and> graph_wf g \<and> input_names g = [n] \<and> finite_support a \<and>
     (\<exists>ops'. graph_query g = Inr (None, ops') \<and> chain_sim dk ops ops')"

lemma view_single_step:
  assumes st: "single_view_st dk n ops f g a" and ins: "delta_inputs dk [n] ins"
  shows "\<exists>g' r. Executor_Process g ins = (g', Inr r) \<and> zknown dk r \<and>
      single_view_st dk n ops f g' (\<lambda>k. a k + cnt (input_of ins n) k) \<and>
      (\<forall>k. cnt r k = wsum (\<lambda>k. a k + cnt (input_of ins n) k) (\<lambda>k0. occ (imgs f (dk k0)) k) -
        wsum a (\<lambda>k0. occ (imgs f (dk k0)) k))"
proof -
  let ?z = "input_of ins n"
  from st obtain ops' run where g: "graph_wf g" "input_names g = [n]" "graph_query g = Inr (None, ops')"
      "finite_support a" "chain_sim dk ops ops'" "\<And>z. run_chain ops z = (ops, run z)" "responds dk run f"
    and view: "linear_view dk ops f"
    by (auto simp: single_view_st_def linear_view_def)
  have ok: "\<exists>z. [?z] = [z] \<and> zknown dk z"
    using ins by (auto simp: delta_inputs_def input_of_def)
  obtain ops'' r where r: "src.then_step ((), ops') [?z] = (((), ops''), Inr r)" "zknown dk r"
      "finite_support (\<lambda>k. a k + cnt (hd [?z]) k)" "chain_sim dk ops ops''"
      "\<And>k. cnt r k = src.then_snap dk f (\<lambda>k. a k + cnt (hd [?z]) k) k - src.then_snap dk f a k"
    using src.then_chain [OF g(6,7,4,5) ok, where s = "()"] by (metis old.unit.exhaust)
  have sel: "select_inputs g ins = Inr [?z]" using select_inputs_names [of g dk ins] g(1,2) ins by simp
  have "query_step (None, ops') [?z] = ((None, ops''), Inr r)"
    using r(1) by (auto simp: src.then_step_def src_step_def split: prod.splits)
  from executor_refines [OF g(1,3) sel this] obtain g' where g': "Executor_Process g ins = (g', Inr r)"
      "graph_wf g'" "graph_query g' = Inr (None, ops'')" "same_but (set (join_ids g @ g_chain g)) g g'"
    by blast
  have "single_view_st dk n ops f g' (\<lambda>k. a k + cnt ?z k)"
    using g' r(3,4) view g(2) same_but_names [OF g'(4)] by (auto simp: single_view_st_def)
  with g'(1) r(2,5) show ?thesis
    by (auto simp: src.then_snap_def)
qed

interpretation view_single: incremental Executor_Process "delta_inputs dk [n]" "single_view_st dk n ops f"
    "\<lambda>a ins k. a k + cnt (input_of ins n) k" "\<lambda>a k. wsum a (\<lambda>k0. occ (imgs f (dk k0)) k)"
  for dk n ops f
  by unfold_locales (use view_single_step zknown_wf in fast)

section \<open>What optimizing does to a query\<close>

lemma rule_steps_join:
  assumes "rule_step\<^sup>*\<^sup>* (Some j, ops) (j', ops')" and "j = JoinOp eval names \<or> j = NewIncrementalJoin eval names"
  shows "j' = Some (JoinOp eval names) \<or> j' = Some (NewIncrementalJoin eval names)"
  using assms(1)
proof (induction "(j', ops')" arbitrary: j' ops' rule: rtranclp_induct)
  case (step q)
  obtain j1 ops1 where q: "q = (j1, ops1)" by (cases q)
  from step(2) q obtain r where r: "rule_query r (j1, ops1) = (j', ops')" by (auto elim: rule_step.cases)
  have "fst (IncrementalizeOp (JoinOp eval names)) = NewIncrementalJoin eval names"
    "fst (IncrementalizeOp (NewIncrementalJoin eval names)) = NewIncrementalJoin eval names"
    by (simp_all add: IncrementalizeOp_def NewIncrementalJoin_def)
  with step(3) [OF q] r show ?case by (cases r) auto
qed (use assms(2) in auto)

lemma rule_steps_no_join:
  assumes "rule_step\<^sup>*\<^sup>* (None, ops) (j', ops')"
  shows "j' = None"
  using assms
proof (induction "(j', ops')" arbitrary: j' ops' rule: rtranclp_induct)
  case (step q)
  obtain j1 ops1 where q: "q = (j1, ops1)" by (cases q)
  from step(2) q obtain r where "rule_query r (j1, ops1) = (j', ops')" by (auto elim: rule_step.cases)
  with step(3) [OF q] show ?case by (cases r) auto
qed simp

lemma linear_stage_not_incrementalizable: "linear_stage oper \<Longrightarrow> \<not> incrementalizable oper"
  by (cases oper) (simp_all add: incrementalizable_def IncrementalizeOp_def)

lemma linear_view_exists:
  "\<forall>oper \<in> set ops. linear_stage oper \<and> plain dk oper \<Longrightarrow> \<exists>f. linear_view dk ops f"
  by (metis linear_chain_responds linear_view_def)

lemma same_inputs_names: "same_inputs g g' \<Longrightarrow> input_names g' = input_names g"
  by (simp add: same_inputs_def input_names_def)

lemma optimize_join_view:
  assumes wf: "graph_wf g" and q: "graph_query g = Inr (Some jo, ops)"
    and jo: "jo = JoinOp eval names \<or> jo = NewIncrementalJoin eval names"
    and ns: "length (input_names g) = length names" "names \<noteq> []"
    and lin: "\<forall>oper \<in> set ops. linear_stage oper \<and> plain dk oper" and len: "length ops \<le> 17"
    and jk: "joins_known dk eval names" "length names < 63" and view: "linear_view dk ops f"
  shows "\<exists>g'. Optimize g = (g', Inr ()) \<and>
    join_view_st dk eval names (input_names g) ops f g' (map (\<lambda>_ _. 0) (input_names g))"
proof -
  have m: "qmeasure (Some jo, ops) \<le> 18"
    using lin len jo by (auto simp: qmeasure.simps dest: linear_stage_not_incrementalizable)
  have i: "g_inputs g \<noteq> []" using ns input_names_length [OF wf] by auto
  have j: "g_joinNode g \<noteq> []" using q by (simp add: graph_query_Inr)
  from Optimize_converges [OF wf q m i] j obtain g' j' ops' where o: "Optimize g = (g', Inr ())" "graph_wf g'"
      "graph_query g' = Inr (j', ops')" "same_inputs g g'"
      "rule_step\<^sup>*\<^sup>* (Some jo, ops) (j', ops')" "\<forall>r. \<not> rule_enabled r (j', ops')"
    by force
  have "j' \<noteq> Some (JoinOp eval names)"
    using o(6) [rule_format, of JoinIncrementalizationRule]
    by (auto simp: incrementalizable_def IncrementalizeOp_def)
  with rule_steps_join [OF o(5) jo] have j': "j' = Some (NewIncrementalJoin eval names)" by simp
  have "join_st dk eval names (NewIncrementalJoin_state names) (map (\<lambda>_ _. 0) (input_names g))"
    using jk ns(1) by (simp add: join_st_def NewIncrementalJoin_state_def init_state_def map_replicate_const fun_eq_iff)
  moreover have "chain_sim dk ops ops'"
    using rule_steps_preserve_chain [OF o(5)] lin by blast
  ultimately have "join_view_st dk eval names (input_names g) ops f g' (map (\<lambda>_ _. 0) (input_names g))"
    using o(2,3) j' view ns(1) same_inputs_names [OF o(4)]
    by (auto simp: join_view_st_def NewIncrementalJoin_def)
  with o(1) show ?thesis by blast
qed

lemma optimize_single_view:
  assumes wf: "graph_wf g" and q: "graph_query g = Inr (None, ops)" and ns: "input_names g = [n]"
    and lin: "\<forall>oper \<in> set ops. linear_stage oper \<and> plain dk oper" and len: "length ops \<le> 18"
    and view: "linear_view dk ops f"
  shows "\<exists>g'. Optimize g = (g', Inr ()) \<and> single_view_st dk n ops f g' (\<lambda>_. 0)"
proof -
  have m: "qmeasure (None, ops) \<le> 18"
    using lin len by (auto simp: qmeasure.simps dest: linear_stage_not_incrementalizable)
  have i: "length (g_inputs g) = 1" using ns input_names_length [OF wf] by simp
  then have i': "g_inputs g \<noteq> []" by auto
  from Optimize_converges [OF wf q m i'] i obtain g' j' ops' where o: "Optimize g = (g', Inr ())" "graph_wf g'"
      "graph_query g' = Inr (j', ops')" "same_inputs g g'" "rule_step\<^sup>*\<^sup>* (None, ops) (j', ops')"
    by force
  have "chain_sim dk ops ops'" using rule_steps_preserve_chain [OF o(5)] lin by blast
  with rule_steps_no_join [OF o(5)] o(2,3) view ns same_inputs_names [OF o(4)]
  have "single_view_st dk n ops f g' (\<lambda>_. 0)" by (simp add: single_view_st_def)
  with o(1) show ?thesis by blast
qed

text \<open>The snapshot graph on its inputs.\<close>

lemma snapshot_join_query:
  assumes jk: "joins_known dk eval names" and view: "linear_view dk ops f"
    and zs: "\<And>z. z \<in> set zs \<Longrightarrow> zknown dk z" "length zs = length names"
  shows "\<exists>r. query_step (Some (JoinOp eval names), ops) zs = ((Some (JoinOp eval names), ops), Inr r) \<and> zknown dk r \<and>
    (\<forall>k. cnt r k = wsum (join_snap dk eval names (map cnt zs)) (\<lambda>k0. occ (imgs f (dk k0)) k))"
proof -
  from view obtain run where run: "\<And>z. run_chain ops z = (ops, run z)" "responds dk run f"
    by (auto simp: linear_view_def)
  obtain t where t: "JoinOp_Process eval names zs = Inr t" "zknown dk t"
      "\<And>k. cnt t k = join_snap dk eval names (map cnt zs) k"
    using JoinOp_known [OF jk zs] by blast
  obtain r where r: "run t = Inr r" "zknown dk r" "\<And>k. cnt r k = wsum (cnt t) (\<lambda>k0. occ (imgs f (dk k0)) k)"
    using respondsD [OF run(2) t(2)] by blast
  have "cnt t = join_snap dk eval names (map cnt zs)" using t(3) by (simp add: fun_eq_iff)
  with t(1) r run(1) show ?thesis by auto
qed

lemma snapshot_single_query:
  assumes view: "linear_view dk ops f" and z: "zknown dk z"
  shows "\<exists>r. query_step (None, ops) [z] = ((None, ops), Inr r) \<and> zknown dk r \<and>
    (\<forall>k. cnt r k = wsum (cnt z) (\<lambda>k0. occ (imgs f (dk k0)) k))"
proof -
  from view obtain run where run: "\<And>z. run_chain ops z = (ops, run z)" "responds dk run f"
    by (auto simp: linear_view_def)
  obtain r where "run z = Inr r" "zknown dk r" "\<And>k. cnt r k = wsum (cnt z) (\<lambda>k0. occ (imgs f (dk k0)) k)"
    using respondsD [OF run(2) z] by blast
  with run(1) show ?thesis by auto
qed

lemma snapshot_join_view:
  assumes wf: "graph_wf g" and q: "graph_query g = Inr (Some (JoinOp eval names), ops)"
    and ns: "length (input_names g) = length names" and jk: "joins_known dk eval names"
    and view: "linear_view dk ops f" and ins: "delta_inputs dk (input_names g) ins"
  shows "\<exists>g' r. Executor_Process g ins = (g', Inr r) \<and> zknown dk r \<and> (\<forall>k. cnt r k =
    wsum (join_snap dk eval names (map (\<lambda>n. cnt (input_of ins n)) (input_names g))) (\<lambda>k0. occ (imgs f (dk k0)) k))"
proof -
  have zs: "\<And>z. z \<in> set (map (input_of ins) (input_names g)) \<Longrightarrow> zknown dk z"
      "length (map (input_of ins) (input_names g)) = length names"
    using ins ns by (auto simp: delta_inputs_def input_of_def)
  from snapshot_join_query [OF jk view zs] executor_refines [OF wf q select_inputs_names [OF wf ins]]
  show ?thesis by (fastforce simp: comp_def)
qed

lemma snapshot_single_view:
  assumes wf: "graph_wf g" and q: "graph_query g = Inr (None, ops)" and ns: "input_names g = [n]"
    and view: "linear_view dk ops f" and ins: "delta_inputs dk [n] ins"
  shows "\<exists>g' r. Executor_Process g ins = (g', Inr r) \<and> zknown dk r \<and>
    (\<forall>k. cnt r k = wsum (cnt (input_of ins n)) (\<lambda>k0. occ (imgs f (dk k0)) k))"
proof -
  have z: "zknown dk (input_of ins n)" using ins by (auto simp: delta_inputs_def input_of_def)
  have "select_inputs g ins = Inr [input_of ins n]"
    using select_inputs_names [OF wf, of dk ins] ins ns by simp
  with snapshot_single_query [OF view z] executor_refines [OF wf q] show ?thesis by metis
qed

end
