(* ===== verification/Graph_Properties.thy ===== *)
theory Graph_Properties
  imports Incremental Operator_Properties
begin

text \<open>What query graphs, the executor, the rewriter and the converter guarantee.\<close>

section \<open>Sample graphs\<close>

text \<open>A join of two inputs followed by a selection and two projections, and a chain on one input.\<close>

definition join_graph :: ChainGraph where
  "join_graph =
     (let g1 = fst (AddInput NewChainGraph ''A'' NewDocumentZSet);
          g2 = fst (AddInput g1 ''B'' NewDocumentZSet);
          g3 = fst (SetJoin g2 (JoinOp ev_left [''l'', ''r'']));
          g4 = fst (AddToChain g3 (SelectionOp ev_only_a));
          g5 = fst (AddToChain g4 (ProjectionOp ev_same))
      in fst (AddToChain g5 (ProjectionOp ev_same)))"

definition single_graph :: ChainGraph where
  "single_graph =
     (let g1 = fst (AddInput NewChainGraph ''A'' NewDocumentZSet);
          g2 = fst (AddToChain g1 (ProjectionOp ev_same))
      in fst (AddToChain g2 (SelectionOp ev_only_a)))"

lemma join_graph_wf: "graph_wf join_graph"
  unfolding join_graph_def Let_def
  by (intro graph_wf_AddToChain graph_wf_SetJoin graph_wf_AddInput graph_wf_New)

lemma single_graph_wf: "graph_wf single_graph"
  unfolding single_graph_def Let_def
  by (intro graph_wf_AddToChain graph_wf_AddInput graph_wf_New)

lemma input_A:
  "graph_wf (fst (AddInput NewChainGraph ''A'' NewDocumentZSet))"
  "graph_query (fst (AddInput NewChainGraph ''A'' NewDocumentZSet)) = Inr (None, [])"
  "input_names (fst (AddInput NewChainGraph ''A'' NewDocumentZSet)) = [''A'']"
proof -
  have "input_names NewChainGraph = []" by (simp add: input_names_def NewChainGraph_def)
  with AddInput_query [OF graph_wf_New graph_query_New, of "''A''" NewDocumentZSet]
  show "graph_query (fst (AddInput NewChainGraph ''A'' NewDocumentZSet)) = Inr (None, [])"
    "input_names (fst (AddInput NewChainGraph ''A'' NewDocumentZSet)) = [''A'']" by simp_all
qed (rule graph_wf_AddInput [OF graph_wf_New])

lemma join_graph_query:
  "graph_query join_graph = Inr (Some (JoinOp ev_left [''l'', ''r'']), [SelectionOp ev_only_a, ProjectionOp ev_same, ProjectionOp ev_same])"
  "input_names join_graph = [''A'', ''B'']"
proof -
  let ?g2 = "fst (AddInput (fst (AddInput NewChainGraph ''A'' NewDocumentZSet)) ''B'' NewDocumentZSet)"
  let ?g3 = "fst (SetJoin ?g2 (JoinOp ev_left [''l'', ''r'']))"
  let ?g4 = "fst (AddToChain ?g3 (SelectionOp ev_only_a))"
  let ?g5 = "fst (AddToChain ?g4 (ProjectionOp ev_same))"
  have 2: "graph_wf ?g2" "graph_query ?g2 = Inr (None, [])" "input_names ?g2 = [''A'', ''B'']"
    using AddInput_query [OF input_A(1,2), of "''B''" NewDocumentZSet] graph_wf_AddInput [OF input_A(1)] input_A(3)
    by simp_all
  note 3 = graph_wf_SetJoin [OF 2(1)] SetJoin_query [OF 2(1,2), of "JoinOp ev_left [''l'', ''r'']"]
  note 4 = graph_wf_AddToChain [OF 3(1)] AddToChain_query [OF 3(1,2), of "SelectionOp ev_only_a"]
  note 5 = graph_wf_AddToChain [OF 4(1)] AddToChain_query [OF 4(1,2), of "ProjectionOp ev_same"]
  note 6 = AddToChain_query [OF 5(1,2), of "ProjectionOp ev_same"]
  from 6 5(3) 4(3) 3(3) 2(3) show
    "graph_query join_graph = Inr (Some (JoinOp ev_left [''l'', ''r'']), [SelectionOp ev_only_a, ProjectionOp ev_same, ProjectionOp ev_same])"
    "input_names join_graph = [''A'', ''B'']"
    by (simp_all add: join_graph_def Let_def)
qed

lemma single_graph_query:
  "graph_query single_graph = Inr (None, [ProjectionOp ev_same, SelectionOp ev_only_a])"
  "input_names single_graph = [''A'']"
proof -
  let ?g1 = "fst (AddInput NewChainGraph ''A'' NewDocumentZSet)"
  note 2 = graph_wf_AddToChain [OF input_A(1)] AddToChain_query [OF input_A(1,2), of "ProjectionOp ev_same"]
  note 3 = AddToChain_query [OF 2(1,2), of "SelectionOp ev_only_a"]
  from 3 2(3) input_A(3) show "graph_query single_graph = Inr (None, [ProjectionOp ev_same, SelectionOp ev_only_a])"
    "input_names single_graph = [''A'']" by (simp_all add: single_graph_def Let_def)
qed

lemma ev_same_one_to_one: "one_to_one ev_same"
  by (simp add: one_to_one_def ev_same_def)

lemmas ev_facts = ev_same_known ev_only_a_known ev_same_one_to_one ev_left_joins

section \<open>Building graphs\<close>

inductive built :: "ChainGraph \<Rightarrow> bool" where
  built_New: "built NewChainGraph"
| built_AddInput: "built g \<Longrightarrow> built (fst (AddInput g name data))"
| built_SetJoin: "built g \<Longrightarrow> built (fst (SetJoin g oper))"
| built_AddToChain: "built g \<Longrightarrow> built (fst (AddToChain g oper))"

text \<open>
  Every graph built from the empty one by adding inputs, a join and operators is
  well-formed (unique node identifiers, no dangling reference, distinct input names) and
  denotes a query, so that neither the executor nor the rewriter hits a missing node.
\<close>

theorem built_graphs_wf:
  assumes "built g"
  shows "graph_wf g \<and> (\<exists>q. graph_query g = Inr q)"
proof -
  from assms have "graph_wf g"
    by induction (auto intro: graph_wf_New graph_wf_AddInput graph_wf_SetJoin graph_wf_AddToChain)
  then show ?thesis using graph_query_ok by blast
qed

lemma join_graph_built: "built join_graph"
  unfolding join_graph_def Let_def by (intro built.intros)

theorem built_graphs_wf_witness: "graph_wf join_graph \<and> (\<exists>q. graph_query join_graph = Inr q)"
  by (rule built_graphs_wf [OF join_graph_built])

section \<open>The executor\<close>

text \<open>
  C24. Running the executor on a well-formed graph refines one step of the query the
  graph denotes: same result, the graph afterwards is well-formed, denotes the query with the
  updated operator states, and differs from the graph before in the states of its join and
  chain operators only.
\<close>

theorem executor_step_refines_query:
  assumes "graph_wf g" and "graph_query g = Inr q" and "select_inputs g ins = Inr zs"
    and "query_step q zs = (q', Inr r)"
  shows "\<exists>g'. Executor_Process g ins = (g', Inr r) \<and> graph_wf g' \<and> graph_query g' = Inr q'
    \<and> same_but (set (join_ids g @ g_chain g)) g g'"
  by (rule executor_refines [OF assms])

theorem executor_step_refines_query_witness:
  "\<exists>r q' g'. Executor_Process single_graph [(''A'', zset_ab 1 2)] = (g', Inr r) \<and> graph_wf g' \<and> graph_query g' = Inr q'
    \<and> same_but (set (join_ids single_graph @ g_chain single_graph)) single_graph g'"
proof -
  have sel: "select_inputs single_graph [(''A'', zset_ab 1 2)] = Inr [zset_ab 1 2]"
    using select_inputs_names [OF single_graph_wf, of dk_ab "[(''A'', zset_ab 1 2)]"]
    by (simp add: single_graph_query delta_inputs_def input_of_def)
  obtain run f where rf: "\<And>z. run_chain [ProjectionOp ev_same, SelectionOp ev_only_a] z = ([ProjectionOp ev_same, SelectionOp ev_only_a], run z)"
      "responds dk_ab run f"
    by (rule linear_chain_responds [of "[ProjectionOp ev_same, SelectionOp ev_only_a]" dk_ab]) (simp_all add: ev_facts)
  obtain r where "run (zset_ab 1 2) = Inr r" using respondsD [OF rf(2) zset_ab_known] by metis
  then have "query_step (None, [ProjectionOp ev_same, SelectionOp ev_only_a]) [zset_ab 1 2] =
      ((None, [ProjectionOp ev_same, SelectionOp ev_only_a]), Inr r)"
    by (simp del: run_chain.simps add: rf(1))
  from executor_step_refines_query [OF single_graph_wf single_graph_query(1) sel this] show ?thesis by blast
qed

section \<open>The rewriter\<close>

text \<open>
  C20. Every rule of the rewrite engine does on the graph exactly what its description
  on lists of operators says: its test is decided by the query, and when it applies it succeeds,
  keeps the graph well-formed, leaves the inputs alone and yields the rewritten query.
\<close>

theorem rewrite_rules_sound:
  assumes "graph_wf g" and "graph_query g = Inr q"
  shows "CanApply r g = Inr (rule_enabled r q) \<and>
    (rule_enabled r q \<longrightarrow> (\<exists>g'. Apply r g = Inr g' \<and> graph_wf g' \<and> graph_query g' = Inr (rule_query r q)
      \<and> input_names g' = input_names g))"
proof (intro conjI impI)
  show "CanApply r g = Inr (rule_enabled r q)" by (rule rule_tests [OF assms])
  assume "rule_enabled r q"
  from rule_applies [OF assms this] same_inputs_names show "\<exists>g'. Apply r g = Inr g' \<and> graph_wf g' \<and>
      graph_query g' = Inr (rule_query r q) \<and> input_names g' = input_names g"
    unfolding rule_result_def by blast
qed

theorem rewrite_rules_sound_witness:
  "CanApply LinearOperatorFusionRule join_graph = Inr True \<and>
    (\<exists>g'. Apply LinearOperatorFusionRule join_graph = Inr g' \<and> graph_wf g' \<and>
      graph_query g' = Inr (Some (JoinOp ev_left [''l'', ''r'']), [SelectThenProjectionsOp (Some ev_only_a) [ev_same, ev_same]])
      \<and> input_names g' = input_names join_graph)"
  using rewrite_rules_sound [OF join_graph_wf join_graph_query(1), of LinearOperatorFusionRule]
  by (simp add: fusable_def proj_evals_def)

text \<open>
  C18. The optimizer converges: the number of rule applications is bounded by the
  length of the chain plus two, so on a valid graph with a chain of at most 16 operators
  \<^verbatim>\<open>Optimize\<close> succeeds within its 20 iterations, reaching by rule applications a query to
  which no rule applies any more.
\<close>

theorem optimizer_converges:
  assumes "graph_wf g" and "graph_query g = Inr (j, ops)" and "length ops \<le> 16" and "snd (Validate g) = Inr ()"
  shows "\<exists>g' q'. Optimize g = (g', Inr ()) \<and> graph_wf g' \<and> graph_query g' = Inr q' \<and> input_names g' = input_names g
    \<and> rule_step\<^sup>*\<^sup>* (j, ops) q' \<and> (\<forall>r. \<not> rule_enabled r q')"
proof -
  have "qmeasure (j, ops) \<le> 18" using assms(3) by (auto simp: qmeasure.simps split: option.splits)
  moreover have "g_inputs g \<noteq> []" "length (g_inputs g) = 1 \<or> g_joinNode g \<noteq> []"
    using assms(4) by (auto simp: Validate_ok_iff)
  ultimately show ?thesis
    using Optimize_converges [OF assms(1,2)] same_inputs_names by blast
qed

lemma join_graph_valid: "snd (Validate join_graph) = Inr ()"
  using valid_by_query [OF join_graph_wf join_graph_query(1)] by (simp add: join_graph_query)

theorem optimizer_converges_witness:
  "\<exists>g' q'. Optimize join_graph = (g', Inr ()) \<and> graph_wf g' \<and> graph_query g' = Inr q' \<and> input_names g' = input_names join_graph
    \<and> rule_step\<^sup>*\<^sup>* (Some (JoinOp ev_left [''l'', ''r'']), [SelectionOp ev_only_a, ProjectionOp ev_same, ProjectionOp ev_same]) q'
    \<and> (\<forall>r. \<not> rule_enabled r q')"
  by (rule optimizer_converges [OF join_graph_wf join_graph_query(1) _ join_graph_valid]) simp

text \<open>Running a chain on a stream.\<close>

lemma chain_sim_stream:
  assumes "chain_sim dk as bs" and "\<And>z. z \<in> set zs \<Longrightarrow> zknown dk z"
  shows "\<exists>as' bs' rs rs'. run_op run_chain as zs = (as', Inr rs) \<and> run_op run_chain bs zs = (bs', Inr rs')
    \<and> list_all2 (\<lambda>r r'. \<forall>k. cnt r k = cnt r' k) rs rs'"
  using assms
proof (induction zs arbitrary: as bs)
  case (Cons z zs)
  have "zeq dk z z" using Cons.prems(2) by (simp add: zeq_known)
  from chain_simD [OF Cons.prems(1) this] obtain as' bs' r r' where
    r: "run_chain as z = (as', Inr r)" "run_chain bs z = (bs', Inr r')" "zeq dk r r'" "chain_sim dk as' bs'" by metis
  have "\<And>x. x \<in> set zs \<Longrightarrow> zknown dk x" using Cons.prems(2) by simp
  from Cons.IH [OF r(4) this] obtain as'' bs'' rs rs' where
    "run_op run_chain as' zs = (as'', Inr rs)" "run_op run_chain bs' zs = (bs'', Inr rs')"
    "list_all2 (\<lambda>r r'. \<forall>k. cnt r k = cnt r' k) rs rs'"
    by blast
  with r show ?case by (auto simp: zeq_def)
qed simp

text \<open>
  C16. Optimizing does not change what a chain computes: for a graph whose
  chain consists of projections, selections, unwinds, distincts and fresh stream operators, the
  chain of the optimized graph produces on every stream of Z-sets, step by step, outputs with
  the same multiplicities as the original chain.
\<close>

theorem optimized_chain_equivalent:
  assumes "graph_wf g" and "graph_query g = Inr (j, ops)" and "length ops \<le> 16" and "snd (Validate g) = Inr ()"
    and "\<forall>oper \<in> set ops. plain dk oper" and "\<forall>z \<in> set zs. zknown dk z"
  shows "\<exists>g' j' ops' s s' rs rs'. Optimize g = (g', Inr ()) \<and> graph_query g' = Inr (j', ops') \<and> length ops' \<le> length ops
    \<and> run_op run_chain ops zs = (s, Inr rs) \<and> run_op run_chain ops' zs = (s', Inr rs')
    \<and> list_all2 (\<lambda>r r'. \<forall>k. cnt r k = cnt r' k) rs rs'"
proof -
  have m: "qmeasure (j, ops) \<le> 18" using assms(3) by (auto simp: qmeasure.simps split: option.splits)
  have i: "g_inputs g \<noteq> []" "length (g_inputs g) = 1 \<or> g_joinNode g \<noteq> []"
    using assms(4) by (auto simp: Validate_ok_iff)
  from Optimize_converges [OF assms(1,2) m i] obtain g' q' where q': "Optimize g = (g', Inr ())"
      "graph_query g' = Inr q'" "rule_step\<^sup>*\<^sup>* (j, ops) q'" by blast
  obtain j' ops' where "q' = (j', ops')" by (cases q')
  note o = q' [unfolded this]
  have "chain_sim dk ops ops'" using rule_steps_preserve_chain [OF o(3) assms(5)] by blast
  moreover have "length ops' \<le> length ops" using rule_steps_length [OF o(3)] .
  ultimately show ?thesis using chain_sim_stream [of dk ops ops' zs] assms(6) o(1,2) by blast
qed

theorem optimized_chain_equivalent_witness:
  "\<exists>g' j' ops' s s' rs rs'. Optimize join_graph = (g', Inr ()) \<and> graph_query g' = Inr (j', ops') \<and>
      length ops' \<le> length [SelectionOp ev_only_a, ProjectionOp ev_same, ProjectionOp ev_same]
    \<and> run_op run_chain [SelectionOp ev_only_a, ProjectionOp ev_same, ProjectionOp ev_same] [zset_ab 1 2, zset_ab 3 4] = (s, Inr rs)
    \<and> run_op run_chain ops' [zset_ab 1 2, zset_ab 3 4] = (s', Inr rs') \<and> list_all2 (\<lambda>r r'. \<forall>k. cnt r k = cnt r' k) rs rs'"
  by (rule optimized_chain_equivalent [OF join_graph_wf join_graph_query(1) _ join_graph_valid, where dk = dk_ab])
    (simp_all add: ev_facts)

section \<open>The converter\<close>

text \<open>
  Converting a snapshot graph to incremental mode and the result back to snapshot
  mode succeeds and gives a well-formed graph with the same inputs that denotes the query the
  graph started from.
\<close>

theorem converter_roundtrip:
  assumes "graph_wf g" and "graph_query g = Inr (j, ops)" and "snd (Validate g) = Inr ()"
    and "\<forall>oper \<in> set_option j. snapshot_join oper" and "\<forall>oper \<in> set ops. snapshot_op oper"
  shows "\<exists>g0 gi g1 gs. ToIncrementalGraph g = (g0, Inr gi) \<and> ToSnapshotGraph gi = (g1, Inr gs) \<and>
    graph_wf gs \<and> graph_query gs = Inr (j, ops) \<and> input_names gs = input_names g"
  using assms(4,5) by (intro convert_roundtrip [OF assms(1-3)]) auto

theorem converter_roundtrip_witness:
  "\<exists>g0 gi g1 gs. ToIncrementalGraph join_graph = (g0, Inr gi) \<and> ToSnapshotGraph gi = (g1, Inr gs) \<and> graph_wf gs \<and>
    graph_query gs = Inr (Some (JoinOp ev_left [''l'', ''r'']), [SelectionOp ev_only_a, ProjectionOp ev_same, ProjectionOp ev_same])
    \<and> input_names gs = input_names join_graph"
  by (rule converter_roundtrip [OF join_graph_wf join_graph_query(1) join_graph_valid]) simp_all

text \<open>
  Neither conversion accepts an unwind operator, although it is linear and
  its own incremental version: a graph with one cannot be run in snapshot mode.
\<close>

theorem converter_rejects_unwind:
  "(\<exists>e. convertToSnapshotOperator (UnwindOp ext tr) = Inl e) \<and> (\<exists>e. convertToIncrementalOperator (UnwindOp ext tr) = Inl e)
    \<and> IncrementalizeOp (UnwindOp ext tr) = (UnwindOp ext tr, False)"
  by (simp add: convertToSnapshotOperator_def convertToIncrementalOperator_def IncrementalizeOp_def)

end
