(* ===== verification/Go_Values.thy ===== *)
theory Go_Values
  imports Documents
begin

text \<open>
  The parts of Go's standard library on values that the expression language and the pipeline
  use: parsing numbers (\<^verbatim>\<open>strconv.ParseInt\<close>, \<^verbatim>\<open>strconv.ParseFloat\<close>), formatting values
  (\<^verbatim>\<open>fmt.Sprintf\<close> with the verbs \<^verbatim>\<open>%v\<close>, \<^verbatim>\<open>%d\<close> and \<^verbatim>\<open>%s\<close>), \<^verbatim>\<open>reflect.DeepEqual\<close>, and
  \<^verbatim>\<open>slices.Min\<close>, \<^verbatim>\<open>slices.Max\<close> on floats, and splitting strings.
\<close>

section \<open>Parsing integers\<close>

definition digit_val :: "char \<Rightarrow> nat option" where
  "digit_val c =
     (let b = of_char c :: nat in
      if 48 \<le> b \<and> b \<le> 57 then Some (b - 48) else None)"

fun digits_val :: "nat \<Rightarrow> string \<Rightarrow> nat option" where
  "digits_val acc [] = Some acc"
| "digits_val acc (c # cs) =
     (case digit_val c of None \<Rightarrow> None | Some d \<Rightarrow> digits_val (10 * acc + d) cs)"

definition read_sign :: "string \<Rightarrow> bool \<times> string" where
  "read_sign s =
     (case s of [] \<Rightarrow> (False, [])
      | c # cs \<Rightarrow> if c = CHR ''-'' then (True, cs) else if c = CHR ''+'' then (False, cs) else (False, s))"

text \<open>\<^verbatim>\<open>strconv.ParseInt(s, 10, 64)\<close>: \<^term>\<open>None\<close> is a syntax or range error.\<close>

definition ParseInt :: "string \<Rightarrow> gint option" where
  "ParseInt s =
     (case read_sign s of (neg, ds) \<Rightarrow>
        if ds = [] then None
        else case digits_val 0 ds of
          None \<Rightarrow> None
        | Some n \<Rightarrow>
            if neg then (if n \<le> 2 ^ 63 then Some (- of_nat n) else None)
            else if n < 2 ^ 63 then Some (of_nat n) else None)"

section \<open>Parsing floats\<close>

definition lower :: "char \<Rightarrow> char" where
  "lower c = (let b = of_char c :: nat in if 65 \<le> b \<and> b \<le> 90 then char_of (b + 32) else c)"

definition hex_val :: "nat \<Rightarrow> char \<Rightarrow> nat option" where
  "hex_val base c =
     (case digit_val c of
        Some d \<Rightarrow> Some d
      | None \<Rightarrow>
          (let b = of_char (lower c) :: nat in
           if base = 16 \<and> 97 \<le> b \<and> b \<le> 102 then Some (b - 87) else None))"

text \<open>The state of \<^verbatim>\<open>readFloat\<close>: the mantissa read so far, its digits after the point.\<close>

record mantissa =
  m_val :: nat
  m_frac :: nat
  m_dot :: bool
  m_digits :: bool

fun scan_mantissa :: "nat \<Rightarrow> mantissa \<Rightarrow> string \<Rightarrow> mantissa \<times> string" where
  "scan_mantissa base m [] = (m, [])"
| "scan_mantissa base m (c # cs) =
     (if c = CHR ''_'' then scan_mantissa base m cs
      else if c = CHR ''.'' then
        (if m_dot m then (m, c # cs) else scan_mantissa base (m\<lparr>m_dot := True\<rparr>) cs)
      else case hex_val base c of
        None \<Rightarrow> (m, c # cs)
      | Some d \<Rightarrow>
          scan_mantissa base
            (m\<lparr>m_val := base * m_val m + d, m_frac := (if m_dot m then Suc (m_frac m) else m_frac m),
               m_digits := True\<rparr>) cs)"

fun scan_exponent :: "nat \<Rightarrow> string \<Rightarrow> nat \<times> string" where
  "scan_exponent e [] = (e, [])"
| "scan_exponent e (c # cs) =
     (if c = CHR ''_'' then scan_exponent e cs
      else case digit_val c of
        None \<Rightarrow> (e, c # cs)
      | Some d \<Rightarrow> scan_exponent (if e < 10000 then 10 * e + d else e) cs)"

text \<open>\<^verbatim>\<open>underscoreOK\<close>: underscores separate digits; a base prefix counts as a digit.\<close>

fun underscores_from :: "bool \<Rightarrow> char \<Rightarrow> string \<Rightarrow> bool" where
  "underscores_from hex seen [] = (seen \<noteq> CHR ''_'')"
| "underscores_from hex seen (c # cs) =
     (if hex_val (if hex then 16 else 10) c \<noteq> None then underscores_from hex CHR ''0'' cs
      else if c = CHR ''_'' then seen = CHR ''0'' \<and> underscores_from hex CHR ''_'' cs
      else seen \<noteq> CHR ''_'' \<and> underscores_from hex CHR ''!'' cs)"

definition base_prefix :: "string \<Rightarrow> char option" where
  "base_prefix s =
     (case s of c # d # _ \<Rightarrow>
        if c = CHR ''0'' \<and> lower d \<in> {CHR ''b'', CHR ''o'', CHR ''x''} then Some (lower d) else None
      | _ \<Rightarrow> None)"

definition underscoreOK :: "string \<Rightarrow> bool" where
  "underscoreOK s =
     (let t = snd (read_sign s) in
      case base_prefix t of
        Some p \<Rightarrow> underscores_from (p = CHR ''x'') CHR ''0'' (drop 2 t)
      | None \<Rightarrow> underscores_from False CHR ''^'' t)"

text \<open>The special names, without regard to case.\<close>

definition special_float :: "string \<Rightarrow> f64 option" where
  "special_float s =
     (case read_sign s of (neg, t) \<Rightarrow>
        if map lower t \<in> {''inf'', ''infinity''} then Some (mk_float neg (2047 * 2 ^ 52))
        else if map lower s = ''nan'' then Some (f_quiet_nan) else None)"

text \<open>
  The exponent part: \<^term>\<open>None\<close> when it is malformed.  A hexadecimal mantissa needs one.
\<close>

definition read_exponent :: "nat \<Rightarrow> string \<Rightarrow> (int \<times> string) option" where
  "read_exponent base s =
     (case s of
        c # cs \<Rightarrow>
          (if lower c = (if base = 16 then CHR ''p'' else CHR ''e'') then
             (case read_sign cs of (neg, ds) \<Rightarrow>
                if ds = [] \<or> digit_val (hd ds) = None then None
                else (case scan_exponent 0 ds of (e, rest) \<Rightarrow> Some (if neg then - int e else int e, rest)))
           else if base = 16 then None else Some (0, s))
      | [] \<Rightarrow> (if base = 16 then None else Some (0, [])))"

text \<open>
  \<^verbatim>\<open>strconv.ParseFloat(s, 64)\<close>: the float nearest to the number denoted; \<^term>\<open>None\<close> is a syntax
  error or a number out of range.
\<close>

definition ParseFloat :: "string \<Rightarrow> f64 option" where
  "ParseFloat s =
     (case special_float s of Some f \<Rightarrow> Some f | None \<Rightarrow>
       (case read_sign s of (neg, t) \<Rightarrow>
        let hex = (base_prefix t = Some CHR ''x''); base = (if hex then 16 else 10);
            (m, rest) = scan_mantissa base \<lparr>m_val = 0, m_frac = 0, m_dot = False, m_digits = False\<rparr>
              (if hex then drop 2 t else t)
        in if \<not> m_digits m then None
           else case read_exponent base rest of
             None \<Rightarrow> None
           | Some (e, rest') \<Rightarrow>
               if rest' \<noteq> [] \<or> (CHR ''_'' \<in> set s \<and> \<not> underscoreOK s) then None
               else
                 let k = (if hex then e - 4 * int (m_frac m) else e - int (m_frac m));
                     b = (if hex then 2 else 10);
                     bits = round_pos (m_val m * b ^ nat k) (b ^ nat (- k))
                 in if bits = 2047 * 2 ^ 52 then None else Some (mk_float neg bits)))"

section \<open>Formatting\<close>

text \<open>The shortest decimal digits of a finite non-zero float and the position of its point.\<close>

definition float_digits :: "f64 \<Rightarrow> string \<times> int" where
  "float_digits x =
     (let n = f_num x; d = f_den x; k = dec_point n d;
          (m, w) = shortest n d (unat (f_abs x)) k [1..<18];
          s = nat_str m
      in (strip_zeros s, k + int (length s) - int w))"

text \<open>The verb \<^verbatim>\<open>%v\<close> (\<^verbatim>\<open>%g\<close>) on a float.\<close>

definition float_g :: "f64 \<Rightarrow> string" where
  "float_g x =
     (let sg = (if f_sign x then ''-'' else []) in
      if f_nan x then ''NaN''
      else if f_inf x then (if f_sign x then ''-Inf'' else ''+Inf'')
      else if f_mant x = 0 then sg @ ''0''
      else
        let (ds, p) = float_digits x; e = p - 1
        in if e < - 4 \<or> 6 \<le> e
           then sg @ take 1 ds @ (if length ds > 1 then ''.'' @ drop 1 ds else []) @ ''e'' @
             (if e < 0 then ''-'' else ''+'') @ (if \<bar>e\<bar> < 10 then ''0'' else []) @ nat_str (nat \<bar>e\<bar>)
           else sg @ fixed_text ds p)"

definition bool_str :: "bool \<Rightarrow> string" where
  "bool_str b = (if b then ''true'' else ''false'')"

primrec sprint_v :: "gval \<Rightarrow> string" where
  "sprint_v VNil = ''<nil>''"
| "sprint_v (VBool b) = bool_str b"
| "sprint_v (VInt i) = int_str (sint i)"
| "sprint_v (VFloat f) = float_g f"
| "sprint_v (VStr s) = s"
| "sprint_v (VList xs) = ''['' @ join '' '' (map sprint_v xs) @ '']''"
| "sprint_v (VMap m) = ''map['' @ join '' '' (map (\<lambda>(k, t). k @ '':'' @ t) (map (map_prod id sprint_v) m)) @ '']''"
| "sprint_v (VListElem i v) = ''{'' @ int_str (sint i) @ '' '' @ sprint_v v @ ''}''"

text \<open>
  The verb \<^verbatim>\<open>%s\<close> applied to an operand of any type: a value that is not a string is reported
  as a bad verb.  A nil operand prints differently from a nil inside a list or map.
\<close>

definition bad_verb :: "string \<Rightarrow> string \<Rightarrow> string" where
  "bad_verb verb t = ''%!'' @ verb @ ''('' @ t @ '')''"

primrec print_s :: "gval \<Rightarrow> string" where
  "print_s VNil = ''<nil>''"
| "print_s (VBool b) = bad_verb ''s'' (''bool='' @ bool_str b)"
| "print_s (VInt i) = bad_verb ''s'' (''int64='' @ int_str (sint i))"
| "print_s (VFloat f) = bad_verb ''s'' (''float64='' @ float_g f)"
| "print_s (VStr s) = s"
| "print_s (VList xs) = ''['' @ join '' '' (map print_s xs) @ '']''"
| "print_s (VMap m) = ''map['' @ join '' '' (map (\<lambda>(k, t). k @ '':'' @ t) (map (map_prod id print_s) m)) @ '']''"
| "print_s (VListElem i v) = ''{'' @ bad_verb ''s'' (''int='' @ int_str (sint i)) @ '' '' @ print_s v @ ''}''"

definition sprint_s :: "gval \<Rightarrow> string" where
  "sprint_s v = (if v = VNil then bad_verb ''s'' ''<nil>'' else print_s v)"

section \<open>Equality, minimum and maximum\<close>

text \<open>
  \<^verbatim>\<open>reflect.DeepEqual\<close>: structural, with floats compared as numbers, so that NaN differs from
  itself and the two zeros are equal.
\<close>

primrec deep_equal :: "gval \<Rightarrow> gval \<Rightarrow> bool" where
  "deep_equal VNil w = (w = VNil)"
| "deep_equal (VBool b) w = (w = VBool b)"
| "deep_equal (VInt i) w = (w = VInt i)"
| "deep_equal (VFloat f) w = (case w of VFloat g \<Rightarrow> f_eq f g | _ \<Rightarrow> False)"
| "deep_equal (VStr s) w = (w = VStr s)"
| "deep_equal (VList xs) w =
     (case w of VList ys \<Rightarrow> list_all2 (\<lambda>f y. f y) (map deep_equal xs) ys | _ \<Rightarrow> False)"
| "deep_equal (VMap m) w =
     (case w of VMap n \<Rightarrow> list_all2 (\<lambda>(k, f) (l, y). k = l \<and> f y) (map (map_prod id deep_equal) m) n
      | _ \<Rightarrow> False)"
| "deep_equal (VListElem i v) w = (case w of VListElem j u \<Rightarrow> i = j \<and> deep_equal v u | _ \<Rightarrow> False)"

definition f_min :: "f64 \<Rightarrow> f64 \<Rightarrow> f64" where
  "f_min a b =
     (if f_nan a then a else if f_nan b then b else if f_lt a b then a else if f_lt b a then b
      else if f_sign a then a else b)"

definition f_max :: "f64 \<Rightarrow> f64 \<Rightarrow> f64" where
  "f_max a b =
     (if f_nan a then a else if f_nan b then b else if f_lt a b then b else if f_lt b a then a
      else if f_sign a then b else a)"

text \<open>On values without floats \<^const>\<open>deep_equal\<close> is equality.\<close>

primrec no_float :: "gval \<Rightarrow> bool" where
  "no_float VNil = True"
| "no_float (VBool b) = True"
| "no_float (VInt i) = True"
| "no_float (VFloat f) = False"
| "no_float (VStr s) = True"
| "no_float (VList xs) = list_all id (map no_float xs)"
| "no_float (VMap m) = list_all snd (map (map_prod id no_float) m)"
| "no_float (VListElem i v) = no_float v"

lemma list_all2_pointwise:
  assumes "\<And>x. x \<in> set xs \<Longrightarrow> (\<lambda>y. P x y) = (\<lambda>y. x = y)"
  shows "list_all2 P xs ys \<longleftrightarrow> xs = ys"
proof -
  have "list_all2 P xs ys = list_all2 (=) xs ys"
    using assms by (intro list.rel_cong) (auto simp: fun_eq_iff)
  then show ?thesis by (simp add: list.rel_eq)
qed

lemma deep_equal_iff: "no_float v \<Longrightarrow> deep_equal v w \<longleftrightarrow> v = w"
proof (induction v arbitrary: w)
  case (VList xs)
  have "list_all2 (\<lambda>x y. deep_equal x y) xs ys \<longleftrightarrow> xs = ys" for ys
    using VList.prems by (intro list_all2_pointwise) (simp add: fun_eq_iff list_all_iff VList.IH)
  then show ?case by (cases w) (simp_all add: list.rel_map)
next
  case (VMap m)
  have "list_all2 (\<lambda>x y. fst x = fst y \<and> deep_equal (snd x) (snd y)) m n \<longleftrightarrow> m = n" for n
    using VMap.prems by (intro list_all2_pointwise) (force simp: fun_eq_iff list_all_iff VMap.IH split: prod.splits)
  then show ?case by (cases w) (simp_all add: list.rel_map case_prod_unfold)
qed (auto split: gval.splits)

section \<open>Splitting strings\<close>

text \<open>\<^verbatim>\<open>strings.Split\<close> and \<^verbatim>\<open>strings.SplitN\<close> with a one-character separator.\<close>

fun split_on :: "char \<Rightarrow> string \<Rightarrow> string list" where
  "split_on c [] = [[]]"
| "split_on c (d # ds) =
     (if c = d then [] # split_on c ds
      else (case split_on c ds of w # ws \<Rightarrow> (d # w) # ws | [] \<Rightarrow> [[d]]))"

fun splitN :: "nat \<Rightarrow> char \<Rightarrow> string \<Rightarrow> string list" where
  "splitN n c s =
     (if n \<le> 1 \<or> c \<notin> set s then [s]
      else takeWhile (\<lambda>d. d \<noteq> c) s # splitN (n - 1) c (tl (dropWhile (\<lambda>d. d \<noteq> c) s)))"

declare splitN.simps [simp del]

lemma split_on_nonempty [simp]: "split_on c s \<noteq> []"
  by (induction s) (auto split: list.splits)

lemma split_on_none: "c \<notin> set s \<Longrightarrow> split_on c s = [s]"
  by (induction s) auto

lemma split_on_append: "c \<notin> set t \<Longrightarrow> split_on c (s @ c # t) = split_on c s @ [t]"
proof (induction s)
  case (Cons d s)
  then show ?case using split_on_nonempty [of c s] by (auto simp: split_on_none split: list.splits)
qed (simp add: split_on_none)

lemma splitN_first:
  assumes "1 < n" and "c \<notin> set s"
  shows "splitN n c (s @ c # t) = s # splitN (n - 1) c t"
proof -
  have "takeWhile (\<lambda>d. d \<noteq> c) (s @ c # t) = s @ takeWhile (\<lambda>d. d \<noteq> c) (c # t)"
    using assms(2) by (intro takeWhile_append2) auto
  moreover have "dropWhile (\<lambda>d. d \<noteq> c) (s @ c # t) = dropWhile (\<lambda>d. d \<noteq> c) (c # t)"
    using assms(2) by (intro dropWhile_append2) auto
  ultimately show ?thesis using assms(1) by (simp add: splitN.simps [of n])
qed

lemma splitN_last: "n \<le> 1 \<or> c \<notin> set s \<Longrightarrow> splitN n c s = [s]"
  by (auto simp: splitN.simps [of n])

end
