(* ===== verification/Expr_Base.thy ===== *)
theory Expr_Base
  imports Go_Values
begin

text \<open>
  The data of the expression language (package \<^verbatim>\<open>expression\<close>): expressions, the evaluation
  context, the conversions of \<^verbatim>\<open>converter.go\<close>, the literals of \<^verbatim>\<open>literal.go\<close>, the JSONPath
  access of \<^verbatim>\<open>jsonpath.go\<close> and the label selectors of \<^verbatim>\<open>selector.go\<close>.

  Code outside the repository is a parameter, the record \<open>libs\<close>: the JSONPath library
  (\<open>jp_Get\<close> lists the matches of a path in a value, \<open>jp_Set\<close> is the value after setting a
  path; both fail when the path does not parse), the matcher of Kubernetes label selectors, the
  hash \<^verbatim>\<open>base36.Md5Base36\<close>, the clock and the random number generator.  The generator is a
  function of the context and of the expression that draws: two draws of the same expression in
  the same context have the same outcome.  Values are immutable, so a setter returns the new
  value; writes through a sub-object that a result shares with the input object are not
  reflected in the input.
\<close>

section \<open>Expressions and contexts\<close>

datatype Expression = Expression (e_Op: string) (e_Arg: "Expression option") (e_Literal: literal)
and literal =
    LVal gval
  | LExps "Expression list"
  | LDict "(string \<times> Expression) list"

record EvalCtx =
  ctx_Object :: gval
  ctx_Subject :: gval

record LabelSelectorRequirement =
  req_Key :: string
  req_Operator :: string
  req_Values :: "string list"

record LabelSelector =
  sel_MatchLabels :: "(string \<times> string) list"
  sel_MatchExpressions :: "LabelSelectorRequirement list"

record libs =
  jp_Get :: "string \<Rightarrow> gval \<Rightarrow> gval list res"
  jp_Set :: "string \<Rightarrow> gval \<Rightarrow> gval \<Rightarrow> gval res"
  selector_Matches :: "LabelSelector \<Rightarrow> (string \<times> string) list \<Rightarrow> bool res"
  Md5Base36 :: "string \<Rightarrow> string"
  now_text :: string
  Intn :: "EvalCtx \<Rightarrow> Expression \<Rightarrow> gint \<Rightarrow> gint"

definition nil_panic :: error where
  "nil_panic = Panic ''invalid memory address or nil pointer dereference''"

definition index_panic :: error where
  "index_panic = Panic ''index out of range''"

section \<open>Conversions (\<^verbatim>\<open>converter.go\<close>)\<close>

definition IsList :: "gval \<Rightarrow> bool" where
  "IsList d = (case d of VList _ \<Rightarrow> True | _ \<Rightarrow> False)"

definition AsList :: "gval \<Rightarrow> gval list res" where
  "AsList d = (case d of VList xs \<Rightarrow> Inr xs | _ \<Rightarrow> Inl (Error ''argument is not a list''))"

definition AsBool :: "gval \<Rightarrow> bool res" where
  "AsBool d =
     (case d of
        VNil \<Rightarrow> Inl (Error ''argument is nil'')
      | VBool b \<Rightarrow> Inr b
      | _ \<Rightarrow> Inl (Error ''argument is not a boolean''))"

definition AsString :: "gval \<Rightarrow> string res" where
  "AsString d =
     (case d of
        VNil \<Rightarrow> Inl (Error ''argument is nil'')
      | VStr s \<Rightarrow> Inr s
      | VInt i \<Rightarrow> Inr (int_str (sint i))
      | VFloat f \<Rightarrow> Inr (bad_verb ''d'' (''float64='' @ float_g f))
      | _ \<Rightarrow> Inl (Error ''argument is not a string''))"

definition AsInt :: "gval \<Rightarrow> gint res" where
  "AsInt d =
     (case d of
        VNil \<Rightarrow> Inl (Error ''argument is nil'')
      | VInt i \<Rightarrow> Inr i
      | VStr s \<Rightarrow>
          (case ParseInt s of Some i \<Rightarrow> Inr i | None \<Rightarrow> Inl (Error ''argument is not an int''))
      | _ \<Rightarrow> Inl (Error ''argument is not an int''))"

definition AsFloat :: "gval \<Rightarrow> f64 res" where
  "AsFloat d =
     (case d of
        VNil \<Rightarrow> Inl (Error ''argument is nil'')
      | VFloat f \<Rightarrow> Inr f
      | VInt i \<Rightarrow> Inr (f_of_int (sint i))
      | VStr s \<Rightarrow>
          (case ParseFloat s of Some f \<Rightarrow> Inr f | None \<Rightarrow> Inl (Error ''argument is not a float''))
      | _ \<Rightarrow> Inl (Error ''argument is not a float''))"

text \<open>The list conversions stop at the first element that does not convert.\<close>

definition AsBoolList :: "gval \<Rightarrow> bool list res" where
  "AsBoolList d = bind (AsList d) (mapM AsBool)"

definition AsStringList :: "gval \<Rightarrow> string list res" where
  "AsStringList d = bind (AsList d) (mapM AsString)"

definition AsIntList :: "gval \<Rightarrow> gint list res" where
  "AsIntList d = bind (AsList d) (mapM AsInt)"

definition AsFloatList :: "gval \<Rightarrow> f64 list res" where
  "AsFloatList d = bind (AsList d) (mapM AsFloat)"

definition binary :: "'a list \<Rightarrow> 'a list res" where
  "binary vs =
     (if length vs \<noteq> 2 then Inl (Error ''invalid number of arguments for a binary operator'') else Inr vs)"

definition AsBinaryBoolList :: "gval \<Rightarrow> bool list res" where
  "AsBinaryBoolList d = bind (AsBoolList d) binary"

definition AsBinaryStringList :: "gval \<Rightarrow> string list res" where
  "AsBinaryStringList d = bind (AsStringList d) binary"

definition AsBinaryIntList :: "gval \<Rightarrow> gint list res" where
  "AsBinaryIntList d = bind (AsIntList d) binary"

definition AsBinaryFloatList :: "gval \<Rightarrow> f64 list res" where
  "AsBinaryFloatList d = bind (AsFloatList d) binary"

text \<open>The kind \<^verbatim>\<open>reflect.Int64\<close> or \<^verbatim>\<open>reflect.Float64\<close> of a number or of a list of numbers.\<close>

datatype ('i, 'f) numbers = Ints 'i | Floats 'f

definition AsIntOrFloat :: "gval \<Rightarrow> (gint, f64) numbers res" where
  "AsIntOrFloat d =
     (case AsInt d of
        Inr i \<Rightarrow> Inr (Ints i)
      | Inl _ \<Rightarrow>
          (case AsFloat d of
             Inr f \<Rightarrow> Inr (Floats f)
           | Inl _ \<Rightarrow> Inl (Error ''argument is not an int or float'')))"

definition AsIntOrFloatList :: "gval \<Rightarrow> (gint list, f64 list) numbers res" where
  "AsIntOrFloatList d =
     (case AsIntList d of
        Inr is \<Rightarrow> Inr (Ints is)
      | Inl _ \<Rightarrow>
          (case AsFloatList d of
             Inr fs \<Rightarrow> Inr (Floats fs)
           | Inl _ \<Rightarrow> Inl (Error ''incompatible elems in numeric list'')))"

definition AsBinaryIntOrFloatList :: "gval \<Rightarrow> (gint list, f64 list) numbers res" where
  "AsBinaryIntOrFloatList d =
     bind (AsIntOrFloatList d) (\<lambda>ns.
       let n = (case ns of Ints is \<Rightarrow> length is | Floats fs \<Rightarrow> length fs) in
       if n \<noteq> 2 then Inl (Error ''invalid number of arguments in binary numeric list'') else Inr ns)"

definition AsMap :: "gval \<Rightarrow> doc res" where
  "AsMap d = (case d of VMap m \<Rightarrow> Inr m | _ \<Rightarrow> Inl (Error ''failed to convert argument into a map''))"

definition AsObject :: "gval \<Rightarrow> doc res" where
  "AsObject d = (case d of VMap m \<Rightarrow> Inr m | _ \<Rightarrow> Inl (Error ''argument is not an object''))"

definition AsObjectList :: "gval \<Rightarrow> doc list res" where
  "AsObjectList d = bind (AsList d) (mapM AsObject)"

definition AsObjectOrObjectList :: "gval \<Rightarrow> doc list res" where
  "AsObjectOrObjectList d =
     (case AsObject d of
        Inr v \<Rightarrow> Inr [v]
      | Inl err \<Rightarrow>
          (case AsObjectList d of
             Inr vs \<Rightarrow> Inr vs
           | Inl _ \<Rightarrow> Inl (wrap ''argument is not an object or an object list'' err)))"

text \<open>
  The argument is a pointer: a nil pointer is dereferenced.  A \<^verbatim>\<open>@list\<close> expression whose
  elements come from an argument instead of a literal is rejected.
\<close>

definition lit_exps :: "literal \<Rightarrow> Expression list option" where
  "lit_exps l = (case l of LExps es \<Rightarrow> Some es | _ \<Rightarrow> None)"

definition lit_dict :: "literal \<Rightarrow> (string \<times> Expression) list option" where
  "lit_dict l = (case l of LDict m \<Rightarrow> Some m | _ \<Rightarrow> None)"

fun AsExpOrExpList :: "Expression option \<Rightarrow> Expression list res" where
  "AsExpOrExpList None = Inl nil_panic"
| "AsExpOrExpList (Some (Expression op arg lit)) =
     (if op = ''@list'' then
        (case lit_exps lit of
           Some es \<Rightarrow> Inr es
         | None \<Rightarrow> Inl (Error ''internal error: list expression should contain a literal list''))
      else Inr [Expression op arg lit])"

section \<open>Literals (\<^verbatim>\<open>literal.go\<close>)\<close>

text \<open>A conversion of \<^verbatim>\<open>e.Literal\<close>: a literal list or map of expressions converts to nothing.\<close>

definition lit_as :: "(gval \<Rightarrow> 'a res) \<Rightarrow> literal \<Rightarrow> 'a res" where
  "lit_as conv l = (case l of LVal v \<Rightarrow> conv v | _ \<Rightarrow> Inl (Error ''argument has the wrong type''))"

definition NewLiteralExpression :: "gval \<Rightarrow> Expression res" where
  "NewLiteralExpression v =
     (case v of
        VBool _ \<Rightarrow> Inr (Expression ''@bool'' None (LVal v))
      | VInt _ \<Rightarrow> Inr (Expression ''@int'' None (LVal v))
      | VStr _ \<Rightarrow> Inr (Expression ''@string'' None (LVal v))
      | VFloat _ \<Rightarrow> Inr (Expression ''float'' None (LVal v))
      | _ \<Rightarrow> Inl (Error ''cannot create a literal expression from an argument''))"

definition NewJSONPathGetExpression :: "string \<Rightarrow> Expression" where
  "NewJSONPathGetExpression key = Expression ''@string'' None (LVal (VStr key))"

definition NewJSONPathSetExpression :: "string \<Rightarrow> gval \<Rightarrow> Expression res" where
  "NewJSONPathSetExpression key v =
     bind (NewLiteralExpression v) (\<lambda>lit. Inr (Expression ''@dict'' None (LDict [(key, lit)])))"

definition GetLiteralBool :: "Expression \<Rightarrow> bool res" where
  "GetLiteralBool e = lit_as AsBool (e_Literal e)"

definition GetLiteralInt :: "Expression \<Rightarrow> gint res" where
  "GetLiteralInt e = lit_as AsInt (e_Literal e)"

definition GetLiteralString :: "Expression \<Rightarrow> string res" where
  "GetLiteralString e = lit_as AsString (e_Literal e)"

definition GetLiteralFloat :: "Expression \<Rightarrow> f64 res" where
  "GetLiteralFloat e = lit_as AsFloat (e_Literal e)"

definition GetLiteralList :: "Expression \<Rightarrow> gval list res" where
  "GetLiteralList e = lit_as AsList (e_Literal e)"

definition GetLiteralMap :: "Expression \<Rightarrow> doc res" where
  "GetLiteralMap e = lit_as AsMap (e_Literal e)"

section \<open>JSONPath access (\<^verbatim>\<open>jsonpath.go\<close>)\<close>

definition GetJSONPathRaw :: "libs \<Rightarrow> string \<Rightarrow> gval \<Rightarrow> gval res" where
  "GetJSONPathRaw L query obj =
     bind (jp_Get L query obj) (\<lambda>values. Inr (case values of [] \<Rightarrow> VNil | v # _ \<Rightarrow> v))"

definition SetJSONPathRaw :: "libs \<Rightarrow> string \<Rightarrow> gval \<Rightarrow> gval \<Rightarrow> gval res" where
  "SetJSONPathRaw L key v target = jp_Set L key v target"

definition GetJSONPath :: "libs \<Rightarrow> EvalCtx \<Rightarrow> string \<Rightarrow> gval res" where
  "GetJSONPath L ctx key =
     (if key = [] \<or> hd key \<noteq> CHR ''$'' then Inr (VStr key)
      else
        let key1 = (if key = ''$.'' then ''$'' else if key = ''$$.'' then ''$$'' else key)
        in if take 2 key1 = ''$$'' \<and> ctx_Subject ctx \<noteq> VNil
           then GetJSONPathRaw L (tl key1) (ctx_Subject ctx)
           else GetJSONPathRaw L key1 (ctx_Object ctx))"

text \<open>
  \<^verbatim>\<open>SetJSONPath\<close> writes into a map and returns it.  A value that is a string is looked up once
  more.  With the key \<^verbatim>\<open>"$."\<close> the entries of the value replace those of the same key.
\<close>

definition SetJSONPath :: "libs \<Rightarrow> EvalCtx \<Rightarrow> string \<Rightarrow> gval \<Rightarrow> gval \<Rightarrow> gval res" where
  "SetJSONPath L ctx key v data =
     (if key = [] then Inl (Error ''empty key'')
      else
        bind (case v of VStr str \<Rightarrow> GetJSONPath L ctx str | _ \<Rightarrow> Inr v) (\<lambda>val.
          if key = ''$.'' then
            (case (data, val) of
               (VMap d, VMap m) \<Rightarrow>
                 Inr (VMap (foldl (\<lambda>d (k, x). sm_set k x d) (foldl (\<lambda>d (k, x). sm_del k d) d m) m))
             | _ \<Rightarrow> Inl (Error ''JSONPath expression error: cannot set root object''))
          else
            (case (data, hd key = CHR ''$'') of
               (VMap d, False) \<Rightarrow> Inr (VMap (sm_set key val d))
             | _ \<Rightarrow> rewrap ''JSONPath expression error: cannot set key'' (SetJSONPathRaw L key val data))))"

definition SetJSONPathRawExp :: "libs \<Rightarrow> Expression \<Rightarrow> gval \<Rightarrow> gval \<Rightarrow> gval res" where
  "SetJSONPathRawExp L keyExp v data =
     bind (GetLiteralString keyExp) (\<lambda>key. SetJSONPathRaw L key v data)"

section \<open>Label selectors (\<^verbatim>\<open>selector.go\<close>)\<close>

definition requirement :: "gval \<Rightarrow> LabelSelectorRequirement option res" where
  "requirement expr =
     (case expr of
        VMap m \<Rightarrow>
          (let key = (case map_of m ''key'' of Some (VStr s) \<Rightarrow> s | _ \<Rightarrow> []);
               oper = (case map_of m ''operator'' of Some (VStr s) \<Rightarrow> s | _ \<Rightarrow> []);
               values = (case map_of m ''values'' of Some (VList vs) \<Rightarrow> vs | _ \<Rightarrow> [])
           in if oper \<in> {''In'', ''NotIn'', ''Exists'', ''DoesNotExist''}
              then Inr (Some \<lparr>req_Key = key, req_Operator = oper, req_Values = map sprint_v values\<rparr>)
              else Inl (Error ''unknown label selector operator''))
      | _ \<Rightarrow> Inr None)"

definition convertToLabelSelector :: "doc \<Rightarrow> LabelSelector res" where
  "convertToLabelSelector selectorMap =
     (let labels = (case map_of selectorMap ''matchLabels'' of Some (VMap m) \<Rightarrow> Some m | _ \<Rightarrow> None);
          exprs = (case map_of selectorMap ''matchExpressions'' of Some (VList es) \<Rightarrow> Some es | _ \<Rightarrow> None);
          text_labels = map (\<lambda>(k, v). (k, sprint_v v))
      in if labels = None \<and> exprs = None
         then Inr \<lparr>sel_MatchLabels = text_labels selectorMap, sel_MatchExpressions = []\<rparr>
         else bind (mapM requirement (case exprs of Some es \<Rightarrow> es | None \<Rightarrow> [])) (\<lambda>rs.
           Inr \<lparr>sel_MatchLabels = text_labels (case labels of Some m \<Rightarrow> m | None \<Rightarrow> []),
                sel_MatchExpressions = List.map_filter id rs\<rparr>))"

definition MatchLabels :: "libs \<Rightarrow> doc \<Rightarrow> doc \<Rightarrow> bool res" where
  "MatchLabels L labelMap selectorMap =
     bind (convertToLabelSelector selectorMap) (\<lambda>labelSelector.
       selector_Matches L labelSelector (map (\<lambda>(k, v). (k, sprint_v v)) labelMap))"

section \<open>Sizes, for the recursion over expressions\<close>

lemma lit_exps_size: "lit_exps l = Some es \<Longrightarrow> e \<in> set es \<Longrightarrow> size e < size l"
  by (auto simp: lit_exps_def split: literal.splits dest: size_list_estimation' [OF _ order_refl, of _ _ size])

lemma lit_dict_size: "lit_dict l = Some m \<Longrightarrow> (k, e) \<in> set m \<Longrightarrow> size e < size l"
proof -
  assume "lit_dict l = Some m" and km: "(k, e) \<in> set m"
  then have l: "l = LDict m" by (auto simp: lit_dict_def split: literal.splits)
  have "size e \<le> size_list (size_prod (\<lambda>_. 0) size) m"
    by (rule size_list_estimation' [OF km]) simp
  with l show ?thesis by simp
qed

lemma AsExpOrExpList_size:
  assumes "AsExpOrExpList a = Inr es" and "e \<in> set es"
  shows "size e \<le> size_option size a - 1"
  using assms
proof (induction a rule: AsExpOrExpList.induct)
  case (2 op arg lit)
  then show ?case
    by (auto split: if_splits option.splits dest: lit_exps_size)
qed simp

end
