(* ===== verification/Marshaler.thy ===== *)
theory Marshaler
  imports Expr_Base
begin

text \<open>
  Serialization of expressions (\<^verbatim>\<open>marshaler.go\<close>).  A JSON text is represented by its syntax
  tree, in which a number is its literal text and the members of an object come in the order of
  the text.  \<open>MarshalJSON\<close> is the tree the encoder prints for an expression, \<open>UnmarshalJSON\<close>
  what the decoder makes of a tree, with the order of attempts of the code: bool, int, float,
  non-empty string, list, map.  A JSON \<^verbatim>\<open>null\<close> decodes into a Go bool without error, which
  leaves it false.
\<close>

datatype json =
    JNull
  | JBool bool
  | JNum string
  | JStr string
  | JList "json list"
  | JObj "(string \<times> json) list"

section \<open>Encoding\<close>

text \<open>The encoder replaces bytes that are not UTF-8 by the replacement character.\<close>

fun utf8_fix :: "string \<Rightarrow> string" where
  "utf8_fix [] = []"
| "utf8_fix (c # cs) =
     (let b = of_char c :: nat in
      if b < 128 then c # utf8_fix cs
      else case utf8_len b cs of
        0 \<Rightarrow> [CHR 0xEF, CHR 0xBF, CHR 0xBD] @ utf8_fix cs
      | Suc n \<Rightarrow> c # take n cs @ utf8_fix (drop n cs))"

definition json_member_of :: "string \<times> json res \<Rightarrow> (string \<times> json) res" where
  "json_member_of e = bind (snd e) (\<lambda>j. Inr (utf8_fix (fst e), j))"

primrec gval_json :: "gval \<Rightarrow> json res" where
  "gval_json VNil = Inr JNull"
| "gval_json (VBool b) = Inr (JBool b)"
| "gval_json (VInt i) = Inr (JNum (int_str (sint i)))"
| "gval_json (VFloat f) = bind (json_float f) (\<lambda>t. Inr (JNum t))"
| "gval_json (VStr s) = Inr (JStr (utf8_fix s))"
| "gval_json (VList xs) = bind (mapM id (map gval_json xs)) (\<lambda>js. Inr (JList js))"
| "gval_json (VMap m) = bind (mapM json_member_of (map (map_prod id gval_json) m)) (\<lambda>js. Inr (JObj js))"
| "gval_json (VListElem i v) = Inr (JObj [])"

text \<open>The object with the operator as its only key; a nil argument prints as \<^verbatim>\<open>null\<close>.\<close>

definition op_object :: "string \<Rightarrow> json res option \<Rightarrow> json res" where
  "op_object op arg =
     bind (case arg of None \<Rightarrow> Inr JNull | Some r \<Rightarrow> r) (\<lambda>j. Inr (JObj [(utf8_fix op, j)]))"

definition json_object :: "(string \<times> json res) list \<Rightarrow> json res" where
  "json_object ms = bind (mapM json_member_of (sort_key fst ms)) (\<lambda>js. Inr (JObj js))"

text \<open>
  \<^verbatim>\<open>json.Marshal(e.Literal)\<close>, used for \<^verbatim>\<open>@any\<close> only.  The values of a
  \<^verbatim>\<open>map[string]Expression\<close> are not addressable, so they print as plain structs.
\<close>

fun MarshalJSON :: "Expression \<Rightarrow> json res"
and marshal_literal :: "literal \<Rightarrow> json res" where
  "MarshalJSON (Expression op arg lit) =
     (let converted = (\<lambda>conv.
            case arg of Some a \<Rightarrow> op_object op (Some (MarshalJSON a)) | None \<Rightarrow> bind (lit_as conv lit) gval_json)
      in if op = ''@any'' then marshal_literal lit
         else if op = ''@bool'' then converted (\<lambda>v. bind (AsBool v) (\<lambda>b. Inr (VBool b)))
         else if op = ''@int'' then converted (\<lambda>v. bind (AsInt v) (\<lambda>i. Inr (VInt i)))
         else if op = ''@float'' then converted (\<lambda>v. bind (AsFloat v) (\<lambda>f. Inr (VFloat f)))
         else if op = ''@string'' then converted (\<lambda>v. bind (AsString v) (\<lambda>s. Inr (VStr s)))
         else if op = ''@list'' then
           (case arg of
              Some a \<Rightarrow> MarshalJSON a
            | None \<Rightarrow>
                (case lit of
                   LExps es \<Rightarrow> bind (mapM id (map MarshalJSON es)) (\<lambda>js. Inr (JList js))
                 | _ \<Rightarrow> Inl (Error ''invalid expression list'')))
         else if op = ''@dict'' then
           (case arg of
              Some a \<Rightarrow> MarshalJSON a
            | None \<Rightarrow>
                (case lit of
                   LDict m \<Rightarrow> json_object (map (\<lambda>(k, e). (k, MarshalJSON e)) m)
                 | _ \<Rightarrow> Inl (Error ''invalid expression map'')))
         else if op = [] then Inl index_panic
         else if hd op \<noteq> CHR ''@'' then Inl (Error ''expected an op starting with @'')
         else op_object op (map_option MarshalJSON arg))"
| "marshal_literal (LVal v) = gval_json v"
| "marshal_literal (LExps es) = bind (mapM id (map MarshalJSON es)) (\<lambda>js. Inr (JList js))"
| "marshal_literal (LDict m) =
     json_object (map (\<lambda>(k, e). case e of Expression op arg lit \<Rightarrow>
       (k, bind (case arg of None \<Rightarrow> Inr JNull | Some a \<Rightarrow> MarshalJSON a) (\<lambda>ja.
           bind (marshal_literal lit) (\<lambda>jl.
             Inr (JObj [(''Op'', JStr (utf8_fix op)), (''Arg'', ja), (''Literal'', jl)]))))) m)"

text \<open>\<^verbatim>\<open>String\<close> hides an encoding error but not a panic of the encoder.\<close>

definition ExprString :: "Expression \<Rightarrow> json option res" where
  "ExprString e =
     (case MarshalJSON e of Inr j \<Rightarrow> Inr (Some j) | Inl (Panic p) \<Rightarrow> Inl (Panic p) | Inl _ \<Rightarrow> Inr None)"

section \<open>Decoding\<close>

text \<open>A failure inside a list or map is reported for the whole text; a panic is not caught.\<close>

definition unmarshal_failed :: "error \<Rightarrow> error" where
  "unmarshal_failed e =
     (case e of Panic p \<Rightarrow> Panic p | _ \<Rightarrow> Error ''JSON parsing error in expression'')"

definition unmarshal_map :: "(string \<times> Expression) list \<Rightarrow> Expression res" where
  "unmarshal_map cv =
     (case cv of
        [(op, x)] \<Rightarrow>
          (if op = [] then Inl index_panic
           else if hd op = CHR ''@'' then Inr (Expression op (Some x) (LVal VNil))
           else Inr (Expression ''@dict'' None (LDict cv)))
      | _ \<Rightarrow> Inr (Expression ''@dict'' None (LDict cv)))"

fun UnmarshalJSON :: "json \<Rightarrow> Expression res" where
  "UnmarshalJSON JNull = Inr (Expression ''@bool'' None (LVal (VBool False)))"
| "UnmarshalJSON (JBool b) = Inr (Expression ''@bool'' None (LVal (VBool b)))"
| "UnmarshalJSON (JNum t) =
     (case ParseInt t of
        Some i \<Rightarrow> Inr (Expression ''@int'' None (LVal (VInt i)))
      | None \<Rightarrow>
          (case ParseFloat t of
             Some f \<Rightarrow> Inr (Expression ''@float'' None (LVal (VFloat f)))
           | None \<Rightarrow> Inl (Error ''JSON parsing error in expression'')))"
| "UnmarshalJSON (JStr s) =
     (if s \<noteq> [] then Inr (Expression ''@string'' None (LVal (VStr s)))
      else Inl (Error ''JSON parsing error in expression''))"
| "UnmarshalJSON (JList js) =
     (case mapM id (map UnmarshalJSON js) of
        Inr es \<Rightarrow> Inr (Expression ''@list'' None (LExps es))
      | Inl e \<Rightarrow> Inl (unmarshal_failed e))"
| "UnmarshalJSON (JObj ms) =
     (case mapM (\<lambda>(k, r). bind r (\<lambda>x. Inr (k, x))) (map (\<lambda>(k, j). (k, UnmarshalJSON j)) ms) of
        Inr kes \<Rightarrow> unmarshal_map (foldl (\<lambda>m (k, x). sm_set k x m) [] kes)
      | Inl e \<Rightarrow> Inl (unmarshal_failed e))"

text \<open>\<^verbatim>\<open>DeepCopyInto\<close> copies through JSON and falls back to the shallow copy.\<close>

definition DeepCopyInto :: "Expression \<Rightarrow> Expression res" where
  "DeepCopyInto e =
     (case MarshalJSON e of
        Inl (Panic p) \<Rightarrow> Inl (Panic p)
      | Inl _ \<Rightarrow> Inr e
      | Inr j \<Rightarrow>
          (case UnmarshalJSON j of
             Inl (Panic p) \<Rightarrow> Inl (Panic p)
           | Inl _ \<Rightarrow> Inr e
           | Inr out \<Rightarrow> Inr out))"

text \<open>\<^verbatim>\<open>unpackList\<close> on a list of values: a list inside a list is taken out.\<close>

definition unpackList :: "gval list \<Rightarrow> gval list" where
  "unpackList a = (case a of VList vs # _ \<Rightarrow> vs | _ \<Rightarrow> a)"

end
