(* ===== verification/Evaluator.thy ===== *)
theory Evaluator
  imports Marshaler
begin

text \<open>
  The evaluator of the expression language (\<^verbatim>\<open>Expression.Evaluate\<close> of \<^verbatim>\<open>expression.go\<close>).
  Every case of the code's switch statements is a definition of its own.  The cases that
  evaluate sub-expressions take the evaluator as an argument; \<open>Evaluate\<close> ties the knot.  The
  code prints the expression for its log and for its error messages even when nothing is
  logged, so a panic of the printer is a panic of the evaluator: \<open>logged\<close> and
  \<open>NewExpressionError\<close> keep that effect.
\<close>

type_synonym evaluation = "EvalCtx \<Rightarrow> Expression \<Rightarrow> gval res"

section \<open>Errors and log lines\<close>

definition NewExpressionError :: "Expression \<Rightarrow> error \<Rightarrow> error" where
  "NewExpressionError e err =
     (case ExprString e of Inl p \<Rightarrow> p | Inr _ \<Rightarrow> wrap ''failed to evaluate expression'' err)"

definition expr_error :: "Expression \<Rightarrow> string \<Rightarrow> 'a res" where
  "expr_error e m = Inl (NewExpressionError e (Error m))"

text \<open>\<^verbatim>\<open>if err != nil { return nil, NewExpressionError(e, err) }\<close>\<close>

definition failed :: "Expression \<Rightarrow> 'a res \<Rightarrow> 'a res" where
  "failed e r =
     (case r of
        Inr x \<Rightarrow> Inr x
      | Inl (Panic p) \<Rightarrow> Inl (Panic p)
      | Inl err \<Rightarrow> Inl (NewExpressionError e err))"

text \<open>\<^verbatim>\<open>if err != nil { return nil, errors.New(m) }\<close>\<close>

definition replaced :: "string \<Rightarrow> 'a res \<Rightarrow> 'a res" where
  "replaced m r =
     (case r of Inr x \<Rightarrow> Inr x | Inl (Panic p) \<Rightarrow> Inl (Panic p) | Inl _ \<Rightarrow> Inl (Error m))"

definition logged :: "Expression \<Rightarrow> 'a \<Rightarrow> 'a res" where
  "logged e v = bind (ExprString e) (\<lambda>_. Inr v)"

section \<open>Literals and constructors\<close>

definition stacked :: "evaluation \<Rightarrow> EvalCtx \<Rightarrow> Expression \<Rightarrow> literal res" where
  "stacked ev ctx e =
     (case e_Arg e of None \<Rightarrow> Inr (e_Literal e) | Some a \<Rightarrow> bind (ev ctx a) (\<lambda>v. Inr (LVal v)))"

definition op_bool :: "evaluation \<Rightarrow> EvalCtx \<Rightarrow> Expression \<Rightarrow> gval res" where
  "op_bool ev ctx e =
     bind (stacked ev ctx e) (\<lambda>lit. bind (failed e (lit_as AsBool lit)) (\<lambda>v. logged e (VBool v)))"

definition op_int :: "evaluation \<Rightarrow> EvalCtx \<Rightarrow> Expression \<Rightarrow> gval res" where
  "op_int ev ctx e =
     bind (stacked ev ctx e) (\<lambda>lit. bind (failed e (lit_as AsInt lit)) (\<lambda>v. logged e (VInt v)))"

definition op_float :: "evaluation \<Rightarrow> EvalCtx \<Rightarrow> Expression \<Rightarrow> gval res" where
  "op_float ev ctx e =
     bind (stacked ev ctx e) (\<lambda>lit. bind (failed e (lit_as AsFloat lit)) (\<lambda>v. logged e (VFloat v)))"

definition op_string :: "libs \<Rightarrow> evaluation \<Rightarrow> EvalCtx \<Rightarrow> Expression \<Rightarrow> gval res" where
  "op_string L ev ctx e =
     bind (stacked ev ctx e) (\<lambda>lit.
     bind (failed e (lit_as AsString lit)) (\<lambda>str.
     bind (GetJSONPath L ctx str) (\<lambda>ret.
       logged e (if ret = VStr ''@now'' then VStr (now_text L) else ret))))"

definition op_list :: "evaluation \<Rightarrow> EvalCtx \<Rightarrow> Expression \<Rightarrow> gval res" where
  "op_list ev ctx e =
     bind (case e_Arg e of
             Some a \<Rightarrow>
               bind (ev ctx a) (\<lambda>v. case v of VList vs \<Rightarrow> Inr vs | _ \<Rightarrow> expr_error e ''argument must be a list'')
           | None \<Rightarrow>
               (case lit_exps (e_Literal e) of
                  None \<Rightarrow> expr_error e ''argument must be an expression list''
                | Some es \<Rightarrow> mapM (ev ctx) es))
       (\<lambda>ret. logged e (VList (unpackList ret)))"

definition dict_entry :: "libs \<Rightarrow> evaluation \<Rightarrow> EvalCtx \<Rightarrow> Expression \<Rightarrow> gval \<Rightarrow> string \<times> Expression \<Rightarrow> gval res" where
  "dict_entry L ev ctx e ret kx =
     bind (ev ctx (snd kx)) (\<lambda>r.
       failed e (rewrap ''could not deference JSON set expression'' (SetJSONPath L ctx (fst kx) r ret)))"

definition op_dict :: "libs \<Rightarrow> evaluation \<Rightarrow> EvalCtx \<Rightarrow> Expression \<Rightarrow> gval res" where
  "op_dict L ev ctx e =
     bind (case e_Arg e of
             Some a \<Rightarrow>
               bind (ev ctx a) (\<lambda>v. case v of VMap vs \<Rightarrow> Inr (VMap vs) | _ \<Rightarrow> expr_error e ''argument must be a map'')
           | None \<Rightarrow>
               (case lit_dict (e_Literal e) of
                  None \<Rightarrow> expr_error e ''argument must be a map literal''
                | Some vm \<Rightarrow> foldM (dict_entry L ev ctx e) (VMap []) vm))
       (\<lambda>ret. logged e ret)"

section \<open>Conditionals\<close>

definition op_cond :: "evaluation \<Rightarrow> EvalCtx \<Rightarrow> Expression \<Rightarrow> gval res" where
  "op_cond ev ctx e =
     bind (failed e (AsExpOrExpList (e_Arg e))) (\<lambda>args.
       if length args \<noteq> 2 \<and> length args \<noteq> 3 then expr_error e ''invalid arguments: expected 2 or 3 arguments''
       else
         bind (rewrap ''failed to evaluate conditional'' (ev ctx (args ! 0))) (\<lambda>ce.
         bind (failed e (rewrap ''expected conditional to evaluate to boolean'' (AsBool ce))) (\<lambda>c.
         bind (if c then rewrap ''failed to evaluate true branch'' (ev ctx (args ! 1))
               else if length args = 3 then rewrap ''failed to evaluate false branch'' (ev ctx (args ! 2))
               else Inr VNil) (\<lambda>v. logged e v))))"

definition op_definedOr :: "evaluation \<Rightarrow> EvalCtx \<Rightarrow> Expression \<Rightarrow> gval res" where
  "op_definedOr ev ctx e =
     bind (failed e (AsExpOrExpList (e_Arg e))) (\<lambda>args.
       if length args \<noteq> 2 then expr_error e ''invalid arguments: expected 2 arguments''
       else
         bind (ev ctx (args ! 0)) (\<lambda>v.
         bind (if v = VNil then ev ctx (args ! 1) else Inr v) (\<lambda>v. logged e v)))"

fun switch_loop :: "evaluation \<Rightarrow> EvalCtx \<Rightarrow> Expression \<Rightarrow> Expression list \<Rightarrow> gval res" where
  "switch_loop ev ctx e [] = logged e VNil"
| "switch_loop ev ctx e (pairExpr # pairExprs) =
     bind (failed e (rewrap ''invalid pair'' (AsExpOrExpList (Some pairExpr)))) (\<lambda>elements.
       if length elements \<noteq> 2 then expr_error e ''invalid pair: expected exactly 2 elements''
       else
         bind (rewrap ''failed to evaluate case'' (ev ctx (elements ! 0))) (\<lambda>ce.
         bind (failed e (rewrap ''case must evaluate to boolean'' (AsBool ce))) (\<lambda>c.
           if c then bind (rewrap ''failed to evaluate action'' (ev ctx (elements ! 1))) (\<lambda>v. logged e v)
           else switch_loop ev ctx e pairExprs)))"

definition op_switch :: "evaluation \<Rightarrow> EvalCtx \<Rightarrow> Expression \<Rightarrow> gval res" where
  "op_switch ev ctx e =
     bind (failed e (AsExpOrExpList (e_Arg e))) (\<lambda>pairExprs.
       if pairExprs = [] then expr_error e ''invalid arguments: expected at least one pair''
       else switch_loop ev ctx e pairExprs)"

section \<open>List commands\<close>

text \<open>
  The loops over booleans that stop early: \<open>stop_at b\<close> yields \<open>b\<close> at the first element whose
  condition is \<open>b\<close> and \<open>\<not> b\<close> when there is none.
\<close>

fun stop_at :: "bool \<Rightarrow> ('x \<Rightarrow> bool res) \<Rightarrow> 'x list \<Rightarrow> bool res" where
  "stop_at b f [] = Inr (\<not> b)"
| "stop_at b f (x # xs) = bind (f x) (\<lambda>c. if c = b then Inr b else stop_at b f xs)"

definition bool_arg :: "evaluation \<Rightarrow> EvalCtx \<Rightarrow> Expression \<Rightarrow> Expression \<Rightarrow> bool res" where
  "bool_arg ev ctx e arg =
     bind (rewrap ''failed to evaluate argument'' (ev ctx arg)) (\<lambda>r. failed e (AsBool r))"

definition op_and :: "evaluation \<Rightarrow> EvalCtx \<Rightarrow> Expression \<Rightarrow> gval res" where
  "op_and ev ctx e =
     bind (failed e (AsExpOrExpList (e_Arg e))) (\<lambda>args.
     bind (stop_at False (bool_arg ev ctx e) args) (\<lambda>v. logged e (VBool v)))"

definition op_or :: "evaluation \<Rightarrow> EvalCtx \<Rightarrow> Expression \<Rightarrow> gval res" where
  "op_or ev ctx e =
     bind (failed e (AsExpOrExpList (e_Arg e))) (\<lambda>args.
     bind (stop_at True (bool_arg ev ctx e) args) (\<lambda>v. logged e (VBool v)))"

text \<open>The arguments \<^verbatim>\<open>[expression, list]\<close> of the list commands.\<close>

definition list_arg :: "evaluation \<Rightarrow> EvalCtx \<Rightarrow> Expression \<Rightarrow> gval list res" where
  "list_arg ev ctx arg =
     bind (replaced ''failed to evaluate arguments'' (ev ctx arg)) (\<lambda>rawArg.
       replaced ''invalid arguments: expected a list'' (AsList rawArg))"

definition list_args :: "evaluation \<Rightarrow> EvalCtx \<Rightarrow> Expression \<Rightarrow> (Expression \<times> gval list) res" where
  "list_args ev ctx e =
     bind (failed e (AsExpOrExpList (e_Arg e))) (\<lambda>args.
       if length args \<noteq> 2 then expr_error e ''invalid arguments: expected 2 arguments''
       else bind (list_arg ev ctx (args ! 1)) (\<lambda>list. Inr (args ! 0, list)))"

definition item_cond :: "evaluation \<Rightarrow> EvalCtx \<Rightarrow> Expression \<Rightarrow> Expression \<Rightarrow> gval \<Rightarrow> bool res" where
  "item_cond ev ctx e cond input =
     bind (ev (ctx\<lparr>ctx_Subject := input\<rparr>) cond) (\<lambda>r.
       failed e (rewrap ''expected conditional expression to evaluate to boolean'' (AsBool r)))"

fun filter_loop :: "('x \<Rightarrow> bool res) \<Rightarrow> 'x list \<Rightarrow> 'x list res" where
  "filter_loop f [] = Inr []"
| "filter_loop f (x # xs) =
     bind (f x) (\<lambda>b. bind (filter_loop f xs) (\<lambda>ys. Inr (if b then x # ys else ys)))"

definition op_filter :: "evaluation \<Rightarrow> EvalCtx \<Rightarrow> Expression \<Rightarrow> gval res" where
  "op_filter ev ctx e =
     bind (list_args ev ctx e) (\<lambda>(cond, list).
     bind (filter_loop (item_cond ev ctx e cond) list) (\<lambda>vs. logged e (VList vs)))"

definition op_any :: "evaluation \<Rightarrow> EvalCtx \<Rightarrow> Expression \<Rightarrow> gval res" where
  "op_any ev ctx e =
     bind (list_args ev ctx e) (\<lambda>(cond, list).
     bind (stop_at True (item_cond ev ctx e cond) list) (\<lambda>v. logged e (VBool v)))"

text \<open>
  \<^verbatim>\<open>@none\<close> starts from false and sets false when an element satisfies the condition, so the
  loop only decides whether an error is raised.
\<close>

definition op_none :: "evaluation \<Rightarrow> EvalCtx \<Rightarrow> Expression \<Rightarrow> gval res" where
  "op_none ev ctx e =
     bind (list_args ev ctx e) (\<lambda>(cond, list).
     bind (stop_at True (item_cond ev ctx e cond) list) (\<lambda>_. logged e (VBool False)))"

definition op_all :: "evaluation \<Rightarrow> EvalCtx \<Rightarrow> Expression \<Rightarrow> gval res" where
  "op_all ev ctx e =
     bind (list_args ev ctx e) (\<lambda>(cond, list).
     bind (stop_at False (item_cond ev ctx e cond) list) (\<lambda>v. logged e (VBool v)))"

text \<open>\<^verbatim>\<open>@map\<close> does not check the number of its arguments before indexing.\<close>

definition op_map :: "evaluation \<Rightarrow> EvalCtx \<Rightarrow> Expression \<Rightarrow> gval res" where
  "op_map ev ctx e =
     bind (failed e (AsExpOrExpList (e_Arg e))) (\<lambda>args.
       if length args < 2 then Inl index_panic
       else
         bind (list_arg ev ctx (args ! 1)) (\<lambda>list.
         bind (mapM (\<lambda>input. ev (ctx\<lparr>ctx_Subject := input\<rparr>) (args ! 0)) list) (\<lambda>vs. logged e (VList vs))))"

section \<open>Operators on an evaluated argument\<close>

definition op_isnil :: "Expression \<Rightarrow> gval \<Rightarrow> gval res" where
  "op_isnil e arg = logged e (VBool (arg = VNil))"

definition op_exists :: "Expression \<Rightarrow> gval \<Rightarrow> gval res" where
  "op_exists e arg = logged e (VBool (arg \<noteq> VNil))"

definition op_not :: "Expression \<Rightarrow> gval \<Rightarrow> gval res" where
  "op_not e arg = bind (failed e (AsBool arg)) (\<lambda>b. logged e (VBool (\<not> b)))"

definition op_eq :: "Expression \<Rightarrow> gval \<Rightarrow> gval res" where
  "op_eq e arg =
     bind (failed e (AsList arg)) (\<lambda>args.
       if length args \<noteq> 2 then expr_error e ''expected 2 arguments''
       else logged e (VBool (args ! 0 \<noteq> VNil \<and> args ! 1 \<noteq> VNil \<and> deep_equal (args ! 0) (args ! 1))))"

definition op_rnd :: "libs \<Rightarrow> EvalCtx \<Rightarrow> Expression \<Rightarrow> gval \<Rightarrow> gval res" where
  "op_rnd L ctx e arg =
     bind (failed e (AsIntList arg)) (\<lambda>args.
       if length args \<noteq> 2 then expr_error e ''expected 2 arguments''
       else
         let n = args ! 1 - args ! 0 in
         if sint n \<le> 0 then Inl (Panic ''invalid argument to Intn'')
         else logged e (VInt (Intn L ctx e n + args ! 0)))"

text \<open>\<^verbatim>\<open>@lt\<close>, \<^verbatim>\<open>@lte\<close>, \<^verbatim>\<open>@gt\<close> and \<^verbatim>\<open>@gte\<close> differ in the comparison only.\<close>

definition op_compare :: "(int \<Rightarrow> int \<Rightarrow> bool) \<Rightarrow> (f64 \<Rightarrow> f64 \<Rightarrow> bool) \<Rightarrow> Expression \<Rightarrow> gval \<Rightarrow> gval res" where
  "op_compare icmp fcmp e arg =
     bind (failed e (AsBinaryIntOrFloatList arg)) (\<lambda>ns.
       logged e (VBool (case ns of
           Ints is \<Rightarrow> icmp (sint (is ! 0)) (sint (is ! 1))
         | Floats fs \<Rightarrow> fcmp (fs ! 0) (fs ! 1))))"

definition op_selector :: "libs \<Rightarrow> Expression \<Rightarrow> gval \<Rightarrow> gval res" where
  "op_selector L e arg =
     bind (failed e (AsList arg)) (\<lambda>args.
       if length args \<noteq> 2 then expr_error e ''invalid arguments: expected 2 arguments''
       else if args ! 0 = VNil \<or> args ! 1 = VNil then Inr (VBool False)
       else
         bind (failed e (rewrap ''invalid label selector'' (AsObject (args ! 0)))) (\<lambda>selector.
         bind (failed e (rewrap ''invalid label set'' (AsObject (args ! 1)))) (\<lambda>labels.
         bind (rewrap ''failed to evaluate label selector'' (MatchLabels L labels selector)) (\<lambda>v.
           logged e (VBool v)))))"

text \<open>\<^verbatim>\<open>@abs\<close>, \<^verbatim>\<open>@ceil\<close> and \<^verbatim>\<open>@floor\<close>.\<close>

definition op_unary_float :: "(f64 \<Rightarrow> f64) \<Rightarrow> Expression \<Rightarrow> gval \<Rightarrow> gval res" where
  "op_unary_float f e arg = bind (failed e (AsFloat arg)) (\<lambda>x. logged e (VFloat (f x)))"

definition op_sum :: "Expression \<Rightarrow> gval \<Rightarrow> gval res" where
  "op_sum e arg =
     bind (failed e (AsIntOrFloatList arg)) (\<lambda>ns.
       logged e (case ns of
           Ints is \<Rightarrow> VInt (foldl (+) 0 is)
         | Floats fs \<Rightarrow> VFloat (foldl f_add 0 fs)))"

definition int_min :: "gint \<Rightarrow> gint \<Rightarrow> gint" where
  "int_min a b = (if sint b < sint a then b else a)"

definition int_max :: "gint \<Rightarrow> gint \<Rightarrow> gint" where
  "int_max a b = (if sint a < sint b then b else a)"

text \<open>\<^verbatim>\<open>@min\<close> and \<^verbatim>\<open>@max\<close>: nil for an empty list.\<close>

definition op_extremum :: "(gint \<Rightarrow> gint \<Rightarrow> gint) \<Rightarrow> (f64 \<Rightarrow> f64 \<Rightarrow> f64) \<Rightarrow> Expression \<Rightarrow> gval \<Rightarrow> gval res" where
  "op_extremum iext fext e arg =
     bind (failed e (AsIntOrFloatList arg)) (\<lambda>ns.
       logged e (case ns of
           Ints (i # is) \<Rightarrow> VInt (foldl iext i is)
         | Floats (f # fs) \<Rightarrow> VFloat (foldl fext f fs)
         | _ \<Rightarrow> VNil))"

definition op_len :: "Expression \<Rightarrow> gval \<Rightarrow> gval res" where
  "op_len e arg = bind (failed e (AsList arg)) (\<lambda>args. logged e (VInt (of_nat (length args))))"

definition op_in :: "Expression \<Rightarrow> gval \<Rightarrow> gval res" where
  "op_in e arg =
     bind (failed e (AsList arg)) (\<lambda>args.
       if length args \<noteq> 2 then expr_error e ''expected 2 arguments''
       else bind (failed e (AsList (args ! 1))) (\<lambda>list.
         logged e (VBool (list_ex (\<lambda>x. deep_equal x (args ! 0)) list))))"

definition op_concat :: "Expression \<Rightarrow> gval \<Rightarrow> gval res" where
  "op_concat e arg = bind (failed e (AsStringList arg)) (\<lambda>args. logged e (VStr (concat args)))"

definition op_hash :: "libs \<Rightarrow> Expression \<Rightarrow> gval \<Rightarrow> gval res" where
  "op_hash L e arg =
     bind (rewrap ''@hash: failed to marshal value to JSON'' (json_val arg)) (\<lambda>js.
       let v = Md5Base36 L js in
       logged e (VStr (if length v < 6 then v @ replicate (6 - length v) CHR ''x'' else take 6 v)))"

definition apply_op :: "libs \<Rightarrow> EvalCtx \<Rightarrow> Expression \<Rightarrow> gval \<Rightarrow> gval res" where
  "apply_op L ctx e arg =
     (let op = e_Op e in
      if hd op \<noteq> CHR ''@'' then Inr (VMap [(op, arg)])
      else if op = ''@isnil'' then op_isnil e arg
      else if op = ''@exists'' \<or> op = ''@has'' then op_exists e arg
      else if op = ''@not'' then op_not e arg
      else if op = ''@eq'' then op_eq e arg
      else if op = ''@rnd'' then op_rnd L ctx e arg
      else if op = ''@lt'' then op_compare (<) f_lt e arg
      else if op = ''@lte'' then op_compare (\<le>) f_le e arg
      else if op = ''@gt'' then op_compare (>) (\<lambda>x y. f_lt y x) e arg
      else if op = ''@gte'' then op_compare (\<ge>) (\<lambda>x y. f_le y x) e arg
      else if op = ''@selector'' then op_selector L e arg
      else if op = ''@abs'' then op_unary_float f_abs e arg
      else if op = ''@ceil'' then op_unary_float f_ceil e arg
      else if op = ''@floor'' then op_unary_float f_floor e arg
      else if op = ''@sum'' then op_sum e arg
      else if op = ''@min'' then op_extremum int_min f_min e arg
      else if op = ''@max'' then op_extremum int_max f_max e arg
      else if op = ''@len'' then op_len e arg
      else if op = ''@in'' then op_in e arg
      else if op = ''@concat'' then op_concat e arg
      else if op = ''@hash'' then op_hash L e arg
      else expr_error e ''unknown op'')"

section \<open>The evaluator\<close>

text \<open>The recursion is on sub-expressions: each case only evaluates expressions smaller than its own.\<close>

lemma arg_size: "e_Arg e = Some a \<Longrightarrow> size a < size e"
  by (cases e) simp

lemma lit_size: "size (e_Literal e) < size e"
  by (cases e) simp

lemma exp_list_size: "AsExpOrExpList (e_Arg e) = Inr es \<Longrightarrow> x \<in> set es \<Longrightarrow> size x < size e"
  by (cases e) (auto dest: AsExpOrExpList_size)

lemma exp_nth_size: "AsExpOrExpList (e_Arg e) = Inr es \<Longrightarrow> i < length es \<Longrightarrow> size (es ! i) < size e"
  by (simp add: exp_list_size)

lemma failed_Inr_iff [simp]: "failed e r = Inr x \<longleftrightarrow> r = Inr x"
  by (auto simp: failed_def split: sum.splits error.splits)

lemma replaced_Inr_iff [simp]: "replaced m r = Inr x \<longleftrightarrow> r = Inr x"
  by (auto simp: replaced_def split: sum.splits error.splits)

lemma stacked_cong [fundef_cong]:
  assumes "ctx = ctx'" and "e = e'" and "\<And>c x. size x < size e' \<Longrightarrow> ev c x = ev' c x"
  shows "stacked ev ctx e = stacked ev' ctx' e'"
  using assms arg_size [of e'] by (auto simp: stacked_def split: option.splits)

lemma stop_at_cong [fundef_cong]:
  "b = b' \<Longrightarrow> xs = ys \<Longrightarrow> (\<And>x. x \<in> set ys \<Longrightarrow> f x = g x) \<Longrightarrow> stop_at b f xs = stop_at b' g ys"
  by (induction xs arbitrary: ys) (auto intro!: bind_cong)

lemma filter_loop_cong [fundef_cong]:
  "xs = ys \<Longrightarrow> (\<And>x. x \<in> set ys \<Longrightarrow> f x = g x) \<Longrightarrow> filter_loop f xs = filter_loop g ys"
  by (induction xs arbitrary: ys) auto

text \<open>
  The congruence rules for the function package: a case of the evaluator depends on the values
  of the evaluator at smaller expressions only.
\<close>

lemma smaller_exps:
  "lit_exps (e_Literal e) = Some es \<Longrightarrow> x \<in> set es \<Longrightarrow> size x < size e"
  "lit_dict (e_Literal e) = Some m \<Longrightarrow> (k, x) \<in> set m \<Longrightarrow> size x < size e"
  using lit_exps_size lit_dict_size lit_size [of e] by (meson less_trans)+

lemma op_list_cong [fundef_cong]:
  assumes "ctx = ctx'" and "e = e'" and "\<And>c x. size x < size e' \<Longrightarrow> ev c x = ev' c x"
  shows "op_list ev ctx e = op_list ev' ctx' e'"
  unfolding op_list_def assms(1,2)
  by (intro bind_cong option.case_cong mapM_cong refl) (auto simp: assms(3) arg_size smaller_exps)

lemma op_dict_cong [fundef_cong]:
  assumes "L = L'" and "ctx = ctx'" and "e = e'" and "\<And>c x. size x < size e' \<Longrightarrow> ev c x = ev' c x"
  shows "op_dict L ev ctx e = op_dict L' ev' ctx' e'"
  unfolding op_dict_def dict_entry_def assms(1-3)
  by (intro bind_cong option.case_cong foldM_cong refl) (auto simp: assms(4) arg_size smaller_exps)

lemma op_cond_cong [fundef_cong]:
  assumes "ctx = ctx'" and "e = e'" and "\<And>c x. size x < size e' \<Longrightarrow> ev c x = ev' c x"
  shows "op_cond ev ctx e = op_cond ev' ctx' e'"
  unfolding op_cond_def assms(1,2)
  by (intro bind_cong if_cong refl arg_cong [of _ _ "rewrap _"] assms(3)) (auto intro!: exp_nth_size)

lemma op_definedOr_cong [fundef_cong]:
  assumes "ctx = ctx'" and "e = e'" and "\<And>c x. size x < size e' \<Longrightarrow> ev c x = ev' c x"
  shows "op_definedOr ev ctx e = op_definedOr ev' ctx' e'"
  unfolding op_definedOr_def assms(1,2)
  by (intro bind_cong if_cong refl assms(3)) (auto intro!: exp_nth_size)

lemma switch_loop_cong:
  assumes "\<And>c x p. p \<in> set ps \<Longrightarrow> size x \<le> size p \<Longrightarrow> ev c x = ev' c x"
  shows "switch_loop ev ctx e ps = switch_loop ev' ctx e ps"
  using assms
proof (induction ps)
  case (Cons p ps)
  have "ev c (xs ! i) = ev' c (xs ! i)" if "AsExpOrExpList (Some p) = Inr xs" "i < length xs" for c xs i
    using AsExpOrExpList_size [OF that(1), of "xs ! i"] that(2) Cons.prems [of p "xs ! i" c] by simp
  moreover have "switch_loop ev ctx e ps = switch_loop ev' ctx e ps"
    by (rule Cons.IH) (meson Cons.prems list.set_intros(2))
  ultimately show ?case
    by (auto intro!: bind_cong)
qed simp

lemma op_switch_cong [fundef_cong]:
  assumes "ctx = ctx'" and "e = e'" and "\<And>c x. size x < size e' \<Longrightarrow> ev c x = ev' c x"
  shows "op_switch ev ctx e = op_switch ev' ctx' e'"
  unfolding op_switch_def assms(1,2)
  by (intro bind_cong if_cong refl switch_loop_cong assms(3)) (auto dest!: exp_list_size)

lemma bool_args_cong:
  assumes "AsExpOrExpList (e_Arg e) = Inr args" and "\<And>c x. size x < size e \<Longrightarrow> ev c x = ev' c x"
  shows "stop_at b (bool_arg ev ctx e) args = stop_at b (bool_arg ev' ctx e) args"
  using assms by (intro stop_at_cong refl) (auto simp: bool_arg_def dest: exp_list_size)

lemma op_and_cong [fundef_cong]:
  assumes "ctx = ctx'" and "e = e'" and "\<And>c x. size x < size e' \<Longrightarrow> ev c x = ev' c x"
  shows "op_and ev ctx e = op_and ev' ctx' e'"
  unfolding op_and_def assms(1,2) by (intro bind_cong bool_args_cong refl assms(3)) auto

lemma op_or_cong [fundef_cong]:
  assumes "ctx = ctx'" and "e = e'" and "\<And>c x. size x < size e' \<Longrightarrow> ev c x = ev' c x"
  shows "op_or ev ctx e = op_or ev' ctx' e'"
  unfolding op_or_def assms(1,2) by (intro bind_cong bool_args_cong refl assms(3)) auto

lemma list_args_cong:
  assumes "\<And>c x. size x < size e \<Longrightarrow> ev c x = ev' c x"
  shows "list_args ev ctx e = list_args ev' ctx e"
  unfolding list_args_def list_arg_def
  by (intro bind_cong if_cong refl arg_cong [of _ _ "replaced _"] assms) (auto intro!: exp_nth_size)

lemma list_args_size: "list_args ev ctx e = Inr (cond, list) \<Longrightarrow> size cond < size e"
  by (auto simp: list_args_def bind_Inr_iff expr_error_def split: if_splits intro!: exp_nth_size)

lemma item_cond_cong:
  assumes "list_args ev0 ctx0 e = Inr (cond, list)" and "\<And>c x. size x < size e \<Longrightarrow> ev c x = ev' c x"
  shows "item_cond ev ctx e cond = item_cond ev' ctx e cond"
  using assms(2) list_args_size [OF assms(1)] by (auto simp: item_cond_def)

lemma list_command_cong:
  assumes "\<And>c x. size x < size e \<Longrightarrow> ev c x = ev' c x"
    and "\<And>cond list. item_cond ev ctx e cond = item_cond ev' ctx e cond \<Longrightarrow> f ev cond list = f ev' cond list"
  shows "bind (list_args ev ctx e) (\<lambda>(cond, list). f ev cond list)
    = bind (list_args ev' ctx e) (\<lambda>(cond, list). f ev' cond list)"
proof (rule bind_cong)
  show "list_args ev ctx e = list_args ev' ctx e"
    by (rule list_args_cong) (rule assms(1))
  fix x
  assume "list_args ev' ctx e = Inr x"
  moreover obtain cond list where "x = (cond, list)" by fastforce
  ultimately show "(\<lambda>(cond, list). f ev cond list) x = (\<lambda>(cond, list). f ev' cond list) x"
    using assms(2) item_cond_cong [OF _ assms(1)] by auto
qed

lemma op_filter_cong [fundef_cong]:
  assumes "ctx = ctx'" and "e = e'" and "\<And>c x. size x < size e' \<Longrightarrow> ev c x = ev' c x"
  shows "op_filter ev ctx e = op_filter ev' ctx' e'"
  unfolding op_filter_def assms(1,2) by (rule list_command_cong [OF assms(3)]) simp_all

lemma op_any_cong [fundef_cong]:
  assumes "ctx = ctx'" and "e = e'" and "\<And>c x. size x < size e' \<Longrightarrow> ev c x = ev' c x"
  shows "op_any ev ctx e = op_any ev' ctx' e'"
  unfolding op_any_def assms(1,2) by (rule list_command_cong [OF assms(3)]) simp_all

lemma op_none_cong [fundef_cong]:
  assumes "ctx = ctx'" and "e = e'" and "\<And>c x. size x < size e' \<Longrightarrow> ev c x = ev' c x"
  shows "op_none ev ctx e = op_none ev' ctx' e'"
  unfolding op_none_def assms(1,2) by (rule list_command_cong [OF assms(3)]) simp_all

lemma op_all_cong [fundef_cong]:
  assumes "ctx = ctx'" and "e = e'" and "\<And>c x. size x < size e' \<Longrightarrow> ev c x = ev' c x"
  shows "op_all ev ctx e = op_all ev' ctx' e'"
  unfolding op_all_def assms(1,2) by (rule list_command_cong [OF assms(3)]) simp_all

lemma op_map_cong [fundef_cong]:
  assumes "ctx = ctx'" and "e = e'" and "\<And>c x. size x < size e' \<Longrightarrow> ev c x = ev' c x"
  shows "op_map ev ctx e = op_map ev' ctx' e'"
  unfolding op_map_def list_arg_def assms(1,2)
  by (intro bind_cong if_cong mapM_cong refl arg_cong [of _ _ "replaced _"] assms(3)) (auto intro!: exp_nth_size)

text \<open>The literal constructors evaluate their argument through \<^const>\<open>stacked\<close>.\<close>

lemma op_literal_cong [fundef_cong]:
  assumes "ctx = ctx'" and "e = e'" and "\<And>c x. size x < size e' \<Longrightarrow> ev c x = ev' c x"
  shows "op_bool ev ctx e = op_bool ev' ctx' e'" "op_int ev ctx e = op_int ev' ctx' e'"
    "op_float ev ctx e = op_float ev' ctx' e'" "L = L' \<Longrightarrow> op_string L ev ctx e = op_string L' ev' ctx' e'"
  using stacked_cong [OF assms] by (simp_all add: op_bool_def op_int_def op_float_def op_string_def assms(1,2))

text \<open>Operators that are not special evaluate their argument first.\<close>

definition op_default :: "libs \<Rightarrow> evaluation \<Rightarrow> EvalCtx \<Rightarrow> Expression \<Rightarrow> gval res" where
  "op_default L ev ctx e =
     (case e_Arg e of
        None \<Rightarrow> expr_error e ''empty argument list''
      | Some a \<Rightarrow> bind (ev ctx a) (apply_op L ctx e))"

lemma op_default_cong [fundef_cong]:
  assumes "L = L'" and "ctx = ctx'" and "e = e'" and "\<And>c x. size x < size e' \<Longrightarrow> ev c x = ev' c x"
  shows "op_default L ev ctx e = op_default L' ev' ctx' e'"
  unfolding op_default_def assms(1-3)
  by (intro option.case_cong bind_cong refl) (auto simp: assms(4) arg_size)

function Evaluate :: "libs \<Rightarrow> EvalCtx \<Rightarrow> Expression \<Rightarrow> gval res" where
  "Evaluate L ctx e =
     (let op = e_Op e in
      if op = [] then Inl (case ExprString e of Inl p \<Rightarrow> p | Inr _ \<Rightarrow> Error ''invalid arguments: empty operator'')
      else if op = ''@bool'' then op_bool (Evaluate L) ctx e
      else if op = ''@int'' then op_int (Evaluate L) ctx e
      else if op = ''@float'' then op_float (Evaluate L) ctx e
      else if op = ''@string'' then op_string L (Evaluate L) ctx e
      else if op = ''@list'' then op_list (Evaluate L) ctx e
      else if op = ''@dict'' then op_dict L (Evaluate L) ctx e
      else if op = ''@noop'' then logged e VNil
      else if op = ''@cond'' then op_cond (Evaluate L) ctx e
      else if op = ''@definedOr'' then op_definedOr (Evaluate L) ctx e
      else if op = ''@switch'' then op_switch (Evaluate L) ctx e
      else if op = ''@and'' then op_and (Evaluate L) ctx e
      else if op = ''@or'' then op_or (Evaluate L) ctx e
      else if op = ''@filter'' then op_filter (Evaluate L) ctx e
      else if op = ''@any'' then op_any (Evaluate L) ctx e
      else if op = ''@none'' then op_none (Evaluate L) ctx e
      else if op = ''@all'' then op_all (Evaluate L) ctx e
      else if op = ''@map'' then op_map (Evaluate L) ctx e
      else op_default L (Evaluate L) ctx e)"
  by pat_completeness auto
termination
  by (relation "measure (\<lambda>(L, ctx, e). size e)") auto

declare Evaluate.simps [simp del]

end
