(* ===== verification/Expr_Safe.thy ===== *)
theory Expr_Safe
  imports Evaluator
begin

text \<open>
  When the evaluator cannot panic.  A panic needs an empty operator name, a missing argument, an
  argument list that is too short for \<^verbatim>\<open>@map\<close>, or an empty range for \<^verbatim>\<open>@rnd\<close>; the first two
  cannot come out of \<^verbatim>\<open>UnmarshalJSON\<close>.  The rules that a computation does not panic are
  collected under the name \<open>calm\<close>.
\<close>

named_theorems calm

definition no_panic :: "'a res \<Rightarrow> bool" where
  "no_panic r \<longleftrightarrow> (\<forall>p. r \<noteq> Inl (Panic p))"

lemma no_panic_Inr [calm, simp]: "no_panic (Inr x)"
  by (simp add: no_panic_def)

lemma no_panic_Error [calm, simp]: "no_panic (Inl (Error m))" "no_panic (Inl (Wrapped m e))"
  by (simp_all add: no_panic_def)

lemma no_panic_wrap [simp]: "wrap m e = Panic p \<longleftrightarrow> e = Panic p"
  by (cases e) auto

lemma no_panic_bind [calm]: "no_panic r \<Longrightarrow> (\<And>x. r = Inr x \<Longrightarrow> no_panic (f x)) \<Longrightarrow> no_panic (bind r f)"
  by (cases r) (auto simp: no_panic_def)

lemma no_panic_rewrap [calm]: "no_panic r \<Longrightarrow> no_panic (rewrap m r)"
  by (cases r) (auto simp: no_panic_def)

lemma no_panic_replaced [calm]: "no_panic r \<Longrightarrow> no_panic (replaced m r)"
  by (auto simp: no_panic_def replaced_def split: sum.splits error.splits)

lemma no_panic_if [calm]: "(b \<Longrightarrow> no_panic r) \<Longrightarrow> (\<not> b \<Longrightarrow> no_panic s) \<Longrightarrow> no_panic (if b then r else s)"
  by simp

lemma no_panic_foldM [calm]:
  "(\<And>s x. x \<in> set xs \<Longrightarrow> no_panic (f s x)) \<Longrightarrow> no_panic (foldM f s xs)"
  by (induction xs arbitrary: s) (auto intro!: no_panic_bind)

lemma no_panic_mapM [calm]: "(\<And>x. x \<in> set xs \<Longrightarrow> no_panic (f x)) \<Longrightarrow> no_panic (mapM f xs)"
  by (induction xs) (auto intro!: no_panic_bind)

lemma no_panic_stop_at [calm]: "(\<And>x. x \<in> set xs \<Longrightarrow> no_panic (f x)) \<Longrightarrow> no_panic (stop_at b f xs)"
  by (induction xs) (auto intro!: no_panic_bind)

lemma no_panic_filter_loop [calm]: "(\<And>x. x \<in> set xs \<Longrightarrow> no_panic (f x)) \<Longrightarrow> no_panic (filter_loop f xs)"
  by (induction xs) (auto intro!: no_panic_bind)

section \<open>Printing\<close>

text \<open>No operator of the expression, at any depth, is the empty string.\<close>

primrec named :: "Expression \<Rightarrow> bool" and named_lit :: "literal \<Rightarrow> bool" where
  "named (Expression op arg lit) \<longleftrightarrow> op \<noteq> [] \<and> pred_option id (map_option named arg) \<and> named_lit lit"
| "named_lit (LVal v) = True"
| "named_lit (LExps es) = list_all id (map named es)"
| "named_lit (LDict m) = list_all snd (map (map_prod id named) m)"

lemma no_panic_gval_json [calm]: "no_panic (gval_json v)"
proof (induction v)
  case (VMap m)
  then show ?case by (auto intro!: calm simp: json_member_of_def)
qed (auto intro!: calm simp: json_float_def)

lemma no_panic_lit_as [calm]: "(\<And>v. no_panic (conv v)) \<Longrightarrow> no_panic (lit_as conv l)"
  by (auto simp: lit_as_def split: literal.splits)

lemma no_panic_conversions [calm]:
  "no_panic (AsBool v)" "no_panic (AsInt v)" "no_panic (AsFloat v)" "no_panic (AsString v)"
  "no_panic (AsList v)" "no_panic (AsObject v)"
  by (auto simp: AsBool_def AsInt_def AsFloat_def AsString_def AsList_def AsObject_def
      split: gval.splits option.splits)

lemma no_panic_op_object [calm]:
  "(\<And>r. arg = Some r \<Longrightarrow> no_panic r) \<Longrightarrow> no_panic (op_object op arg)"
  by (auto simp: op_object_def intro!: calm split: option.splits)

lemma no_panic_json_object [calm]:
  "(\<And>k r. (k, r) \<in> set ms \<Longrightarrow> no_panic r) \<Longrightarrow> no_panic (json_object ms)"
  by (auto simp: json_object_def json_member_of_def intro!: calm)

lemma no_panic_case_option [calm]:
  "(a = None \<Longrightarrow> no_panic r) \<Longrightarrow> (\<And>x. a = Some x \<Longrightarrow> no_panic (f x)) \<Longrightarrow>
   no_panic (case a of None \<Rightarrow> r | Some x \<Rightarrow> f x)"
  by (cases a) auto

lemma no_panic_case_literal [calm]:
  "(\<And>v. l = LVal v \<Longrightarrow> no_panic (f v)) \<Longrightarrow> (\<And>es. l = LExps es \<Longrightarrow> no_panic (g es)) \<Longrightarrow>
   (\<And>m. l = LDict m \<Longrightarrow> no_panic (h m)) \<Longrightarrow> no_panic (case l of LVal v \<Rightarrow> f v | LExps es \<Rightarrow> g es | LDict m \<Rightarrow> h m)"
  by (cases l) auto

lemma no_panic_marshal:
  "named e \<Longrightarrow> no_panic (MarshalJSON e) \<and> (\<forall>a. e_Arg e = Some a \<longrightarrow> no_panic (MarshalJSON a))
     \<and> no_panic (marshal_literal (e_Literal e))"
  "named_lit l \<Longrightarrow> no_panic (marshal_literal l) \<and> (\<forall>es. l = LExps es \<longrightarrow> (\<forall>x \<in> set es. no_panic (MarshalJSON x)))
     \<and> (\<forall>m. l = LDict m \<longrightarrow> (\<forall>(k, x) \<in> set m. no_panic (MarshalJSON x)))"
proof (induction e and l)
  case (Expression op arg lit)
  have arg: "no_panic (MarshalJSON a)" if "arg = Some a" for a
    using Expression that by simp
  have lit: "no_panic (marshal_literal lit)"
    "lit = LExps es \<Longrightarrow> x \<in> set es \<Longrightarrow> no_panic (MarshalJSON x)"
    "lit = LDict m \<Longrightarrow> (k, x) \<in> set m \<Longrightarrow> no_panic (MarshalJSON x)" for es m k x
    using Expression by auto
  have "no_panic (MarshalJSON (Expression op arg lit))"
    unfolding MarshalJSON.simps Let_def
    by (intro calm) (use Expression.prems in \<open>auto simp: arg lit index_panic_def\<close>)
  with arg lit(1) show ?case by simp
next
  case (LExps es)
  then show ?case by (auto intro!: calm simp: list_all_iff)
next
  case (LDict m)
  then have IH: "no_panic (MarshalJSON x) \<and> (\<forall>a. e_Arg x = Some a \<longrightarrow> no_panic (MarshalJSON a))
      \<and> no_panic (marshal_literal (e_Literal x))" if "(k, x) \<in> set m" for k x
    using that by (force simp: list_all_iff)
  have "no_panic (marshal_literal (LDict m))"
    unfolding marshal_literal.simps by (intro calm) (auto split: Expression.splits dest!: IH intro!: calm)
  with IH show ?case by auto
qed (auto intro: calm)

lemma ExprString_ok: "named e \<Longrightarrow> \<exists>s. ExprString e = Inr s"
  using no_panic_marshal(1) [of e]
  by (auto simp: ExprString_def no_panic_def split: sum.splits error.splits)

lemma logged_named [simp]: "named e \<Longrightarrow> logged e v = Inr v"
  using ExprString_ok by (fastforce simp: logged_def)

lemma NewExpressionError_named:
  assumes "named e"
  shows "NewExpressionError e err = wrap ''failed to evaluate expression'' err"
  using ExprString_ok [OF assms] by (auto simp: NewExpressionError_def)

lemma no_panic_failed [calm]: "named e \<Longrightarrow> no_panic r \<Longrightarrow> no_panic (failed e r)"
  by (auto simp: failed_def no_panic_def NewExpressionError_named split: sum.splits error.splits)

lemma no_panic_expr_error [calm]: "named e \<Longrightarrow> no_panic (expr_error e m)"
  by (simp add: expr_error_def NewExpressionError_named)

section \<open>Evaluation\<close>

definition needs_arg :: "string \<Rightarrow> bool" where
  "needs_arg op \<longleftrightarrow>
     op \<in> {''@cond'', ''@definedOr'', ''@switch'', ''@and'', ''@or'', ''@filter'', ''@any'', ''@none'', ''@all''}"

text \<open>
  The arguments of \<^verbatim>\<open>@map\<close> and \<^verbatim>\<open>@rnd\<close> that cannot make them panic: a list of at least two
  expressions, and a list of two integer literals with a positive difference.
\<close>

definition exp_list :: "Expression option \<Rightarrow> Expression list option" where
  "exp_list arg = (case arg of Some (Expression op None (LExps es)) \<Rightarrow> if op = ''@list'' then Some es else None | _ \<Rightarrow> None)"

definition int_literal :: "Expression \<Rightarrow> gint option" where
  "int_literal e = (case e of Expression op None (LVal (VInt i)) \<Rightarrow> if op = ''@int'' then Some i else None | _ \<Rightarrow> None)"

definition usable :: "string \<Rightarrow> Expression option \<Rightarrow> bool" where
  "usable op arg \<longleftrightarrow>
     (op = ''@map'' \<longrightarrow> (case exp_list arg of Some es \<Rightarrow> 2 \<le> length es | None \<Rightarrow> False))
     \<and> (op = ''@rnd'' \<longrightarrow> (case exp_list arg of
          Some [lo, hi] \<Rightarrow> (case (int_literal lo, int_literal hi) of (Some x, Some y) \<Rightarrow> 0 < sint (y - x) | _ \<Rightarrow> False)
        | _ \<Rightarrow> False))"

text \<open>
  Operators are named, have the argument they dereference, and an argument that \<open>fits\<close> them.
\<close>

primrec safe_exp :: "(string \<Rightarrow> Expression option \<Rightarrow> bool) \<Rightarrow> Expression \<Rightarrow> bool" and safe_lit :: "(string \<Rightarrow> Expression option \<Rightarrow> bool) \<Rightarrow> literal \<Rightarrow> bool" where
  "safe_exp fits (Expression op arg lit) \<longleftrightarrow> op \<noteq> [] \<and> fits op arg \<and> (needs_arg op \<longrightarrow> arg \<noteq> None)
     \<and> pred_option id (map_option (safe_exp fits) arg) \<and> safe_lit fits lit"
| "safe_lit fits (LVal v) = True"
| "safe_lit fits (LExps es) = list_all id (map (safe_exp fits) es)"
| "safe_lit fits (LDict m) = list_all snd (map (map_prod id (safe_exp fits)) m)"

lemma safe_named: "safe_exp fits e \<Longrightarrow> named e" "safe_lit fits l \<Longrightarrow> named_lit l"
proof (induction e and l)
  case (Expression op arg lit)
  then show ?case by (cases arg) auto
qed (force simp: list_all_iff)+

lemma safe_parts:
  assumes "safe_exp fits e"
  shows "e_Arg e = Some a \<Longrightarrow> safe_exp fits a"
    and "lit_exps (e_Literal e) = Some es \<Longrightarrow> x \<in> set es \<Longrightarrow> safe_exp fits x"
    and "lit_dict (e_Literal e) = Some m \<Longrightarrow> (k, x) \<in> set m \<Longrightarrow> safe_exp fits x"
  using assms by (cases e, force simp: lit_exps_def lit_dict_def list_all_iff split: literal.splits)+

lemma AsExpOrExpList_safe:
  assumes "AsExpOrExpList a = Inr es" and "\<And>e. a = Some e \<Longrightarrow> safe_exp fits e" and "x \<in> set es"
  shows "safe_exp fits x"
proof -
  obtain e where e: "a = Some e" "safe_exp fits e" using assms by (cases a) auto
  show ?thesis
    using assms(1,3) e safe_parts(2) [OF e(2)]
    by (cases e) (auto split: if_splits option.splits)
qed

lemma no_panic_AsExpOrExpList [calm]: "a \<noteq> None \<Longrightarrow> no_panic (AsExpOrExpList a)"
  by (induction a rule: AsExpOrExpList.induct) (auto split: option.splits)

definition quiet :: "libs \<Rightarrow> bool" where
  "quiet L \<longleftrightarrow> (\<forall>q v. no_panic (jp_Get L q v)) \<and> (\<forall>q x v. no_panic (jp_Set L q x v))
     \<and> (\<forall>s ls. no_panic (selector_Matches L s ls))"

lemma no_panic_GetJSONPath [calm]: "quiet L \<Longrightarrow> no_panic (GetJSONPath L ctx key)"
  by (auto simp: GetJSONPath_def GetJSONPathRaw_def Let_def quiet_def intro!: calm)

lemma no_panic_SetJSONPath [calm]: "quiet L \<Longrightarrow> no_panic (SetJSONPath L ctx key v data)"
  by (auto simp: SetJSONPath_def SetJSONPathRaw_def intro!: calm split: gval.splits bool.splits)
    (auto simp: quiet_def)

lemma no_panic_MatchLabels [calm]: "quiet L \<Longrightarrow> no_panic (MatchLabels L ls sel)"
  by (auto simp: MatchLabels_def convertToLabelSelector_def requirement_def Let_def quiet_def
      intro!: calm split: gval.splits)

lemma no_panic_json_val [calm]: "no_panic (json_val v)"
proof (induction v)
  case (VMap m)
  then show ?case by (auto intro!: calm simp: json_member_def)
qed (auto intro!: calm simp: json_float_def)

lemma no_panic_number_lists [calm]:
  "no_panic (AsIntOrFloatList v)" "no_panic (AsBinaryIntOrFloatList v)" "no_panic (AsStringList v)"
  by (auto simp: AsIntOrFloatList_def AsBinaryIntOrFloatList_def AsStringList_def Let_def
      intro!: calm split: sum.splits)

lemma no_panic_apply_op:
  assumes "named e" and "e_Op e \<noteq> ''@rnd''" and "quiet L"
  shows "no_panic (apply_op L ctx e v)"
  unfolding apply_op_def Let_def
  by (intro no_panic_if)
    (auto simp: assms op_isnil_def op_exists_def op_not_def op_eq_def op_compare_def op_selector_def
      op_unary_float_def op_sum_def op_extremum_def op_len_def op_in_def op_concat_def op_hash_def Let_def
      intro!: calm)

text \<open>The cases that evaluate sub-expressions, given an evaluator that is safe on them.\<close>

definition calm_below :: "(string \<Rightarrow> Expression option \<Rightarrow> bool) \<Rightarrow> evaluation \<Rightarrow> Expression \<Rightarrow> bool" where
  "calm_below fits ev e \<longleftrightarrow> safe_exp fits e \<and> (\<forall>c x. size x < size e \<longrightarrow> safe_exp fits x \<longrightarrow> no_panic (ev c x))"

lemma calm_belowD:
  assumes "calm_below fits ev e"
  shows "named e" "e_Arg e = Some a \<Longrightarrow> no_panic (ev c a)"
    "lit_exps (e_Literal e) = Some es \<Longrightarrow> x \<in> set es \<Longrightarrow> no_panic (ev c x)"
    "lit_dict (e_Literal e) = Some m \<Longrightarrow> (k, x) \<in> set m \<Longrightarrow> no_panic (ev c x)"
    "AsExpOrExpList (e_Arg e) = Inr es \<Longrightarrow> x \<in> set es \<Longrightarrow> no_panic (ev c x)"
    "AsExpOrExpList (e_Arg e) = Inr es \<Longrightarrow> i < length es \<Longrightarrow> no_panic (ev c (es ! i))"
    "AsExpOrExpList (e_Arg e) = Inr es \<Longrightarrow> p \<in> set es \<Longrightarrow> AsExpOrExpList (Some p) = Inr xs \<Longrightarrow> i < length xs
      \<Longrightarrow> no_panic (ev c (xs ! i))"
proof -
  from assms have safe: "safe_exp fits e" and ev: "\<And>c x. size x < size e \<Longrightarrow> safe_exp fits x \<Longrightarrow> no_panic (ev c x)"
    by (auto simp: calm_below_def)
  show "named e" using safe by (rule safe_named)
  show "e_Arg e = Some a \<Longrightarrow> no_panic (ev c a)"
    using safe_parts(1) [OF safe] arg_size ev by blast
  show "lit_exps (e_Literal e) = Some es \<Longrightarrow> x \<in> set es \<Longrightarrow> no_panic (ev c x)"
    using safe_parts(2) [OF safe] smaller_exps(1) ev by blast
  show "lit_dict (e_Literal e) = Some m \<Longrightarrow> (k, x) \<in> set m \<Longrightarrow> no_panic (ev c x)"
    using safe_parts(3) [OF safe] smaller_exps(2) ev by blast
  have exps: "safe_exp fits x \<and> size x < size e" if "AsExpOrExpList (e_Arg e) = Inr es" "x \<in> set es" for es x
    using AsExpOrExpList_safe [OF that(1) safe_parts(1) [OF safe] that(2)] exp_list_size [OF that] by blast
  show "AsExpOrExpList (e_Arg e) = Inr es \<Longrightarrow> x \<in> set es \<Longrightarrow> no_panic (ev c x)"
    using exps ev by blast
  show "AsExpOrExpList (e_Arg e) = Inr es \<Longrightarrow> i < length es \<Longrightarrow> no_panic (ev c (es ! i))"
    using exps ev nth_mem by blast
  assume "AsExpOrExpList (e_Arg e) = Inr es" "p \<in> set es" and xs: "AsExpOrExpList (Some p) = Inr xs" "i < length xs"
  then have p: "safe_exp fits p" "size p < size e" using exps by auto
  have "safe_exp fits (xs ! i)" using AsExpOrExpList_safe [OF xs(1) _ nth_mem [OF xs(2)]] p(1) by blast
  moreover have "size (xs ! i) \<le> size p" using AsExpOrExpList_size [OF xs(1) nth_mem [OF xs(2)]] by simp
  ultimately show "no_panic (ev c (xs ! i))" using ev p(2) by simp
qed

lemma calm_below_arg: "calm_below fits ev e \<Longrightarrow> needs_arg (e_Op e) \<Longrightarrow> e_Arg e \<noteq> None"
  by (cases e) (auto simp: calm_below_def)

lemma no_panic_literals:
  assumes "calm_below fits ev e" and "quiet L"
  shows "no_panic (op_bool ev ctx e)" "no_panic (op_int ev ctx e)" "no_panic (op_float ev ctx e)"
    "no_panic (op_string L ev ctx e)"
  using calm_belowD(1,2) [OF assms(1)] assms(2)
  by (auto simp: op_bool_def op_int_def op_float_def op_string_def stacked_def intro!: calm)

lemma no_panic_constructors:
  assumes "calm_below fits ev e" and "quiet L"
  shows "no_panic (op_list ev ctx e)" "no_panic (op_dict L ev ctx e)"
  using calm_belowD(1-4) [OF assms(1)] assms(2)
  by (auto simp: op_list_def op_dict_def dict_entry_def intro!: calm split: gval.splits)

lemma no_panic_conditionals:
  assumes "calm_below fits ev e" and "e_Arg e \<noteq> None"
  shows "no_panic (op_cond ev ctx e)" "no_panic (op_definedOr ev ctx e)"
  using calm_belowD(1,6) [OF assms(1)] assms(2)
  by (auto simp: op_cond_def op_definedOr_def intro!: calm)

lemma no_panic_switch_loop:
  assumes "named e" and "\<And>p xs i. p \<in> set ps \<Longrightarrow> AsExpOrExpList (Some p) = Inr xs \<Longrightarrow> i < length xs \<Longrightarrow> no_panic (ev ctx (xs ! i))"
  shows "no_panic (switch_loop ev ctx e ps)"
  using assms(2)
proof (induction ps)
  case (Cons p ps)
  have "no_panic (switch_loop ev ctx e ps)" by (rule Cons.IH) (meson Cons.prems list.set_intros(2))
  moreover have "no_panic (ev ctx (xs ! i))" if "AsExpOrExpList (Some p) = Inr xs" "i < length xs" for xs i
    by (rule Cons.prems [OF _ that]) simp
  ultimately show ?case by (auto simp: assms(1) intro!: calm)
qed (simp add: assms(1))

lemma no_panic_switch:
  assumes "calm_below fits ev e" and "e_Arg e \<noteq> None"
  shows "no_panic (op_switch ev ctx e)"
  using calm_belowD(1,7) [OF assms(1)] assms(2)
  by (auto simp: op_switch_def intro!: calm no_panic_switch_loop)

lemma no_panic_connectives:
  assumes "calm_below fits ev e" and "e_Arg e \<noteq> None"
  shows "no_panic (op_and ev ctx e)" "no_panic (op_or ev ctx e)"
  using calm_belowD(1,5) [OF assms(1)] assms(2)
  by (auto simp: op_and_def op_or_def bool_arg_def intro!: calm)

lemma no_panic_list_args:
  assumes "calm_below fits ev e" and "e_Arg e \<noteq> None"
  shows "no_panic (list_args ev ctx e)"
  using calm_belowD(1,6) [OF assms(1)] assms(2)
  by (auto simp: list_args_def list_arg_def intro!: calm)

lemma no_panic_list_cond:
  assumes "calm_below fits ev e" and "list_args ev ctx e = Inr (cond, list)"
  shows "no_panic (item_cond ev ctx' e cond input)"
  using calm_belowD(1,6) [OF assms(1)] assms(2)
  by (auto simp: list_args_def item_cond_def bind_Inr_iff expr_error_def split: if_splits intro!: calm)

lemma no_panic_list_commands:
  assumes "calm_below fits ev e" and "e_Arg e \<noteq> None"
  shows "no_panic (op_filter ev ctx e)" "no_panic (op_any ev ctx e)" "no_panic (op_none ev ctx e)" "no_panic (op_all ev ctx e)"
  using calm_belowD(1) [OF assms(1)] no_panic_list_cond [OF assms(1)] no_panic_list_args [OF assms]
  by (auto simp: op_filter_def op_any_def op_none_def op_all_def intro!: calm)

lemma exp_list_Some: "exp_list arg = Some es \<Longrightarrow> arg = Some (Expression ''@list'' None (LExps es))"
  by (auto simp: exp_list_def split: option.splits Expression.splits literal.splits if_splits)

lemma int_literal_Some: "int_literal e = Some i \<Longrightarrow> e = Expression ''@int'' None (LVal (VInt i))"
  by (auto simp: int_literal_def split: Expression.splits option.splits literal.splits gval.splits if_splits)

lemma no_panic_map:
  assumes "calm_below fits ev e" and "exp_list (e_Arg e) = Some es" and "2 \<le> length es"
  shows "no_panic (op_map ev ctx e)"
proof -
  have arg: "AsExpOrExpList (e_Arg e) = Inr es" using exp_list_Some [OF assms(2)] by (simp add: lit_exps_def)
  have "no_panic (ev c (es ! 0))" "no_panic (ev c (es ! 1))" for c
    using calm_belowD(6) [OF assms(1) arg, of 0] calm_belowD(6) [OF assms(1) arg, of 1] assms(3) by (auto simp: neq_Nil_conv Suc_le_length_iff numeral_2_eq_2)
  then show ?thesis using calm_belowD(1) [OF assms(1)] assms(3)
    by (auto simp: op_map_def arg list_arg_def intro!: calm)
qed

lemma Evaluate_int: "Evaluate L ctx (Expression ''@int'' None (LVal (VInt i))) = Inr (VInt i)"
  by (simp add: Evaluate.simps op_int_def stacked_def lit_as_def AsInt_def failed_def)

lemma Evaluate_ints:
  "Evaluate L ctx (Expression ''@list'' None (LExps [Expression ''@int'' None (LVal (VInt x)), Expression ''@int'' None (LVal (VInt y))]))
    = Inr (VList [VInt x, VInt y])"
  by (simp add: Evaluate.simps [of L ctx "Expression ''@list'' _ _"] op_list_def lit_exps_def Evaluate_int unpackList_def)

lemma usable_rnd:
  assumes "usable ''@rnd'' arg"
  obtains x y where "arg = Some (Expression ''@list'' None (LExps [Expression ''@int'' None (LVal (VInt x)), Expression ''@int'' None (LVal (VInt y))]))"
    "0 < sint (y - x)"
proof -
  from assms obtain lo hi x y where "exp_list arg = Some [lo, hi]" "int_literal lo = Some x" "int_literal hi = Some y" "0 < sint (y - x)"
    by (auto simp: usable_def split: option.splits list.splits)
  then show ?thesis using that exp_list_Some int_literal_Some by blast
qed

lemma no_panic_rnd:
  assumes "named e" and "e_Op e = ''@rnd''" and "usable ''@rnd'' (e_Arg e)"
  shows "no_panic (op_default L (Evaluate L) ctx e)"
proof -
  obtain x y where arg: "e_Arg e = Some (Expression ''@list'' None (LExps [Expression ''@int'' None (LVal (VInt x)), Expression ''@int'' None (LVal (VInt y))]))"
    and less: "0 < sint (y - x)"
    using usable_rnd [OF assms(3)] .
  have "AsIntList (VList [VInt x, VInt y]) = Inr [x, y]" by (simp add: AsIntList_def AsList_def AsInt_def)
  then have "no_panic (op_rnd L ctx e (VList [VInt x, VInt y]))" using less assms(1) by (simp add: op_rnd_def failed_def)
  moreover have "apply_op L ctx e v = op_rnd L ctx e v" for v by (simp add: apply_op_def assms(2))
  ultimately show ?thesis by (simp add: op_default_def arg Evaluate_ints)
qed

theorem Evaluate_no_panic:
  assumes "quiet L" and "safe_exp usable e"
  shows "no_panic (Evaluate L ctx e)"
  using assms(2)
proof (induction "size e" arbitrary: e ctx rule: less_induct)
  case less
  let ?ev = "Evaluate L"
  have below: "calm_below usable ?ev e"
    using less by (auto simp: calm_below_def)
  then have named: "named e" by (rule calm_belowD)
  have ops: "e_Op e \<noteq> []" "usable (e_Op e) (e_Arg e)"
    using less.prems by (cases e; simp)+
  note cases = no_panic_literals [OF below assms(1)] no_panic_constructors [OF below assms(1)]
    no_panic_conditionals [OF below] no_panic_switch [OF below] no_panic_connectives [OF below]
    no_panic_list_commands [OF below]
  have map: "no_panic (op_map ?ev ctx e)" if "e_Op e = ''@map''"
    using ops(2) that no_panic_map [OF below] by (auto simp: usable_def split: option.splits)
  have default: "no_panic (op_default L ?ev ctx e)"
  proof (cases "e_Op e = ''@rnd''")
    case True
    then show ?thesis using no_panic_rnd [OF named True] ops(2) by simp
  next
    case False
    then show ?thesis
      unfolding op_default_def using calm_belowD(2) [OF below] no_panic_apply_op [OF named False assms(1)] named
      by (auto intro!: calm)
  qed
  show ?case
    unfolding Evaluate.simps [of L ctx e] Let_def
    by (intro no_panic_if cases default map calm_below_arg [OF below]) (simp_all add: ops named needs_arg_def)
qed

end
