(* ===== verification/Expr_Samples.thy ===== *)
theory Expr_Samples
  imports Evaluator
begin

text \<open>
  A concrete instance of the library parameters, on which the hypotheses about them are
  discharged: JSONPath restricted to chains of field names (\<^verbatim>\<open>$.a.b\<close>), label selectors that
  match equal labels, an identity hash, a fixed clock and a generator that draws 0.  Also a few
  shorthands for expressions.
\<close>

definition parse_path :: "string \<Rightarrow> string list res" where
  "parse_path s =
     (case split_on CHR ''.'' s of
        root # ks \<Rightarrow> (if root = ''$'' \<and> [] \<notin> set ks then Inr ks else Inl (Error ''invalid path''))
      | [] \<Rightarrow> Inl (Error ''invalid path''))"

fun get_path :: "string list \<Rightarrow> gval \<Rightarrow> gval list" where
  "get_path [] v = [v]"
| "get_path (k # ks) v =
     (case v of VMap m \<Rightarrow> (case map_of m k of Some w \<Rightarrow> get_path ks w | None \<Rightarrow> []) | _ \<Rightarrow> [])"

fun set_path :: "string list \<Rightarrow> gval \<Rightarrow> gval \<Rightarrow> gval res" where
  "set_path [] x v = Inl (Error ''cannot set the root'')"
| "set_path (k # ks) x v =
     (case v of
        VMap m \<Rightarrow>
          (if ks = [] then Inr (VMap (sm_set k x m))
           else bind (set_path ks x (case map_of m k of Some w \<Rightarrow> w | None \<Rightarrow> VMap [])) (\<lambda>w.
             Inr (VMap (sm_set k w m))))
      | _ \<Rightarrow> Inl (Error ''not a map''))"

definition path_libs :: libs where
  "path_libs = \<lparr>
     jp_Get = (\<lambda>q v. bind (parse_path q) (\<lambda>ks. Inr (get_path ks v))),
     jp_Set = (\<lambda>q x v. bind (parse_path q) (\<lambda>ks. set_path ks x v)),
     selector_Matches = (\<lambda>s ls. Inr (list_all (\<lambda>(k, v). map_of ls k = Some v) (sel_MatchLabels s))),
     Md5Base36 = id,
     now_text = ''2025-01-01T00:00:00Z'',
     Intn = (\<lambda>_ _ _. 0)\<rparr>"

abbreviation lit_exp :: "string \<Rightarrow> gval \<Rightarrow> Expression" where
  "lit_exp op v \<equiv> Expression op None (LVal v)"

abbreviation str_exp :: "string \<Rightarrow> Expression" where
  "str_exp s \<equiv> lit_exp ''@string'' (VStr s)"

abbreviation op_exp :: "string \<Rightarrow> Expression \<Rightarrow> Expression" where
  "op_exp op a \<equiv> Expression op (Some a) (LVal VNil)"

abbreviation list_exp :: "Expression list \<Rightarrow> Expression" where
  "list_exp es \<equiv> Expression ''@list'' None (LExps es)"

abbreviation dict_exp :: "(string \<times> Expression) list \<Rightarrow> Expression" where
  "dict_exp m \<equiv> Expression ''@dict'' None (LDict m)"

end
