(* ===== verification/Expr_Laws.thy ===== *)
theory Expr_Laws
  imports Expr_Safe Expr_Samples "HOL-Library.Multiset"
begin

text \<open>
  Laws of the evaluator: one equation per operator, the loops over booleans, the conditionals
  and the literal maps.
\<close>

section \<open>Dispatch\<close>

lemmas Evaluate_op = Evaluate.simps [of _ _ "Expression _ _ _", simplified Let_def Expression.sel]

lemma Evaluate_ops:
  "Evaluate L ctx (Expression ''@and'' a l) = op_and (Evaluate L) ctx (Expression ''@and'' a l)"
  "Evaluate L ctx (Expression ''@or'' a l) = op_or (Evaluate L) ctx (Expression ''@or'' a l)"
  "Evaluate L ctx (Expression ''@cond'' a l) = op_cond (Evaluate L) ctx (Expression ''@cond'' a l)"
  "Evaluate L ctx (Expression ''@switch'' a l) = op_switch (Evaluate L) ctx (Expression ''@switch'' a l)"
  "Evaluate L ctx (Expression ''@filter'' a l) = op_filter (Evaluate L) ctx (Expression ''@filter'' a l)"
  "Evaluate L ctx (Expression ''@any'' a l) = op_any (Evaluate L) ctx (Expression ''@any'' a l)"
  "Evaluate L ctx (Expression ''@none'' a l) = op_none (Evaluate L) ctx (Expression ''@none'' a l)"
  "Evaluate L ctx (Expression ''@all'' a l) = op_all (Evaluate L) ctx (Expression ''@all'' a l)"
  "Evaluate L ctx (Expression ''@map'' a l) = op_map (Evaluate L) ctx (Expression ''@map'' a l)"
  "Evaluate L ctx (Expression ''@dict'' a l) = op_dict L (Evaluate L) ctx (Expression ''@dict'' a l)"
  by (simp_all add: Evaluate_op)

lemma named_list_exp [simp]: "named (list_exp es) \<longleftrightarrow> (\<forall>x \<in> set es. named x)"
  by (simp add: list_all_iff)

lemma AsExpOrExpList_list [simp]: "AsExpOrExpList (Some (list_exp es)) = Inr es"
  by (simp add: lit_exps_def)

lemma failed_simps [simp]: "failed e (Inr x) = Inr x"
  by (simp add: failed_def)

lemma replaced_simps [simp]: "replaced m (Inr x) = Inr x"
  by (simp add: replaced_def)

lemma AsBool_Inr_iff [simp]: "AsBool v = Inr b \<longleftrightarrow> v = VBool b"
  by (auto simp: AsBool_def split: gval.splits)

section \<open>Boolean loops\<close>

lemma stop_at_none: "stop_at b f xs = Inr (\<not> b) \<longleftrightarrow> (\<forall>x \<in> set xs. f x = Inr (\<not> b))"
  by (induction xs) (auto simp: bind_Inr_iff)

lemma stop_at_some:
  "stop_at b f xs = Inr b \<longleftrightarrow> (\<exists>i < length xs. f (xs ! i) = Inr b \<and> (\<forall>j < i. f (xs ! j) = Inr (\<not> b)))"
proof (induction xs)
  case (Cons x xs)
  have "(\<exists>i < length (x # xs). f ((x # xs) ! i) = Inr b \<and> (\<forall>j < i. f ((x # xs) ! j) = Inr (\<not> b)))
    \<longleftrightarrow> f x = Inr b \<or> (f x = Inr (\<not> b) \<and> (\<exists>i < length xs. f (xs ! i) = Inr b \<and> (\<forall>j < i. f (xs ! j) = Inr (\<not> b))))"
    by (auto simp: Ex_less_Suc2 All_less_Suc2)
  then show ?case unfolding Cons.IH [symmetric] by (cases "f x") auto
qed simp

lemma stop_at_pure: "\<forall>x \<in> set xs. f x = Inr (P x) \<Longrightarrow> stop_at b f xs = Inr ((\<exists>x \<in> set xs. P x = b) = b)"
  by (induction xs) auto

lemma filter_loop_pure: "\<forall>x \<in> set xs. f x = Inr (P x) \<Longrightarrow> filter_loop f xs = Inr (filter P xs)"
  by (induction xs) auto

lemma bool_arg_Inr_iff: "bool_arg ev ctx e x = Inr b \<longleftrightarrow> ev ctx x = Inr (VBool b)"
  by (auto simp: bool_arg_def bind_Inr_iff)

lemma item_cond_Inr_iff: "item_cond ev ctx e c v = Inr b \<longleftrightarrow> ev (ctx\<lparr>ctx_Subject := v\<rparr>) c = Inr (VBool b)"
  by (auto simp: item_cond_def bind_Inr_iff)

lemma list_args_ok:
  assumes "ev ctx xs = Inr (VList vs)"
  shows "list_args ev ctx (op_exp op (list_exp [c, xs])) = Inr (c, vs)"
  using assms by (simp add: list_args_def list_arg_def AsList_def del: AsExpOrExpList.simps)

section \<open>Conditionals\<close>

lemma cond_Inr_iff:
  assumes "named (list_exp (c # a # bs))" and "length bs \<le> 1"
  shows "op_cond ev ctx (op_exp ''@cond'' (list_exp (c # a # bs))) = Inr v \<longleftrightarrow>
    (\<exists>b. ev ctx c = Inr (VBool b) \<and>
      (if b then ev ctx a = Inr v else if bs = [] then v = VNil else ev ctx (hd bs) = Inr v))"
  using assms by (cases bs) (auto simp: op_cond_def bind_Inr_iff list_all_iff simp del: AsExpOrExpList.simps)

lemma switch_Cons_iff:
  assumes "named e"
  shows "switch_loop ev ctx e (list_exp [c, a] # ps) = Inr v \<longleftrightarrow>
    (\<exists>b. ev ctx c = Inr (VBool b) \<and> (if b then ev ctx a = Inr v else switch_loop ev ctx e ps = Inr v))"
  using assms by (auto simp: bind_Inr_iff simp del: AsExpOrExpList.simps)

text \<open>Successful results do not depend on the expression the errors are reported for.\<close>

lemma switch_loop_subject:
  assumes "named e" and "named e'"
  shows "switch_loop ev ctx e ps = Inr v \<longleftrightarrow> switch_loop ev ctx e' ps = Inr v"
proof (induction ps)
  case (Cons p ps)
  then show ?case
    using assms by (auto simp: bind_Inr_iff expr_error_def split: if_splits)
qed (simp add: assms)

section \<open>Literal maps\<close>

definition plain_key :: "string \<Rightarrow> bool" where
  "plain_key k \<longleftrightarrow> k \<noteq> [] \<and> hd k \<noteq> CHR ''$''"

definition plain_value :: "gval \<Rightarrow> bool" where
  "plain_value v = (case v of VStr s \<Rightarrow> s = [] \<or> hd s \<noteq> CHR ''$'' | _ \<Rightarrow> True)"

lemma SetJSONPath_plain:
  assumes "plain_key k" and "plain_value v"
  shows "SetJSONPath L ctx k v (VMap d) = Inr (VMap (sm_set k v d))"
  using assms by (auto simp: SetJSONPath_def plain_key_def plain_value_def GetJSONPath_def split: gval.splits)

lemma dict_loop:
  assumes "\<forall>(k, x) \<in> set m. plain_key k \<and> ev ctx x = Inr (f k x) \<and> plain_value (f k x)"
  shows "foldM (dict_entry L ev ctx e) (VMap d) m = Inr (VMap (foldl (\<lambda>d (k, x). sm_set k (f k x) d) d m))"
  using assms by (induction m arbitrary: d) (auto simp: dict_entry_def SetJSONPath_plain)

lemma map_of_foldl_sm_set:
  "distinct (map fst m) \<Longrightarrow>
   map_of (foldl (\<lambda>d (k, x). sm_set k (f k x) d) d m) = map_of d ++ map_of (map (\<lambda>(k, x). (k, f k x)) m)"
proof (induction m arbitrary: d)
  case (Cons kx m)
  obtain k x where kx: "kx = (k, x)" by fastforce
  have "map_of (map (\<lambda>(k, x). (k, f k x)) m) k = None"
    using Cons.prems by (force simp: kx map_of_eq_None_iff)
  with Cons show ?case by (auto simp: kx fun_eq_iff map_add_def split: option.splits)
qed simp

lemma sm_wf_foldl_sm_set: "sm_wf d \<Longrightarrow> sm_wf (foldl (\<lambda>d (k, x). sm_set k (f k x) d) d m)"
  by (induction m arbitrary: d) (auto simp: case_prod_beta)

end
