(* ===== verification/Marshal_Laws.thy ===== *)
theory Marshal_Laws
  imports Expr_Safe
begin

text \<open>
  Laws of the serialization of expressions: decimal numbers read back, the expressions that
  \<^verbatim>\<open>UnmarshalJSON\<close> produces have the arguments their operators dereference, and an expression
  in the form \<open>clean\<close> survives the round trip through JSON, hence \<^verbatim>\<open>DeepCopyInto\<close>.
\<close>

section \<open>Reading printed integers\<close>

lemma digit_val_digit_char [simp]: "d < 10 \<Longrightarrow> digit_val (digit_char d) = Some d"
  by (simp add: digit_val_def of_char_digit Let_def)

lemma digits_val_append:
  "digits_val acc (xs @ ys) = (case digits_val acc xs of None \<Rightarrow> None | Some a \<Rightarrow> digits_val a ys)"
  by (induction xs arbitrary: acc) (auto split: option.splits)

lemma digits_val_nat_str [simp]: "digits_val 0 (nat_str n) = Some n"
proof (induction n rule: nat_str.induct)
  case (1 n)
  then show ?case
    by (cases "n < 10") (simp_all add: nat_str.simps [of n] digits_val_append mult.commute)
qed

lemma read_sign_nat_str [simp]: "read_sign (nat_str n) = (False, nat_str n)"
proof (cases "nat_str n")
  case (Cons c cs)
  then have "48 \<le> (of_char c :: nat)" using nat_str_digits [of c n] by simp
  then have "c \<noteq> CHR ''-''" "c \<noteq> CHR ''+''" by auto
  with Cons show ?thesis by (simp add: read_sign_def)
qed (simp add: read_sign_def)

lemma ParseInt_int_str [simp]: "ParseInt (int_str (sint i)) = Some (i :: gint)"
proof -
  have bounds: "- (2 ^ 63) \<le> sint i" "sint i < 2 ^ 63"
    using sint_ge [of i] sint_lt [of i] by simp_all
  have neg: "(- of_nat (nat (- sint i)) :: gint) = i" if "sint i < 0"
  proof -
    have "(of_nat (nat (- sint i)) :: gint) = of_int (- sint i)"
      using that by (simp only: of_nat_nat)
    then show ?thesis by simp
  qed
  have pos: "(of_nat (nat (sint i)) :: gint) = i" if "\<not> sint i < 0"
    using that by (simp only: of_nat_nat) simp
  show ?thesis
  proof (cases "sint i < 0")
    case True
    then have "nat (- sint i) \<le> 2 ^ 63" using bounds(1) by (simp add: nat_le_iff)
    with True show ?thesis by (simp add: ParseInt_def int_str_def read_sign_def neg)
  next
    case False
    then have "nat (sint i) < 2 ^ 63" using bounds(2) by (simp add: nat_less_iff)
    with False show ?thesis by (simp add: ParseInt_def int_str_def pos)
  qed
qed

section \<open>What decoding produces\<close>

text \<open>Every operator of the expression has an argument that fits it.\<close>

primrec uses :: "(string \<Rightarrow> Expression option \<Rightarrow> bool) \<Rightarrow> Expression \<Rightarrow> bool"
  and uses_lit :: "(string \<Rightarrow> Expression option \<Rightarrow> bool) \<Rightarrow> literal \<Rightarrow> bool" where
  "uses fits (Expression op arg lit) \<longleftrightarrow>
     fits op arg \<and> pred_option id (map_option (uses fits) arg) \<and> uses_lit fits lit"
| "uses_lit fits (LVal v) = True"
| "uses_lit fits (LExps es) = list_all id (map (uses fits) es)"
| "uses_lit fits (LDict m) = list_all snd (map (map_prod id (uses fits)) m)"

lemma safe_uses:
  "safe_exp (\<lambda>_ _. True) e \<Longrightarrow> uses fits e \<Longrightarrow> safe_exp fits e"
  "safe_lit (\<lambda>_ _. True) l \<Longrightarrow> uses_lit fits l \<Longrightarrow> safe_lit fits l"
proof (induction e and l)
  case (Expression op arg lit)
  then show ?case by (cases arg) auto
qed (force simp: list_all_iff)+

lemma mapM_Inr_in: "mapM f xs = Inr ys \<Longrightarrow> y \<in> set ys \<Longrightarrow> \<exists>x \<in> set xs. f x = Inr y"
  by (induction xs arbitrary: ys) (auto simp: bind_Inr_iff)

lemma sm_set_entries: "(k, x) \<in> set (sm_set k' x' m) \<Longrightarrow> (k, x) = (k', x') \<or> (k, x) \<in> set m"
  by (induction k' x' m rule: sm_set.induct) (auto split: if_splits)

lemma foldl_sm_set_entries:
  "(k, x) \<in> set (foldl (\<lambda>m (k, x). sm_set k x m) m kes) \<Longrightarrow> (k, x) \<in> set kes \<union> set m"
  by (induction kes arbitrary: m) (fastforce dest: sm_set_entries)+

lemma unmarshal_map_safe:
  assumes "unmarshal_map m = Inr e" and "\<And>k x. (k, x) \<in> set m \<Longrightarrow> safe_exp (\<lambda>_ _. True) x"
  shows "safe_exp (\<lambda>_ _. True) e"
  using assms by (auto simp: unmarshal_map_def list_all_iff needs_arg_def split: list.splits if_splits prod.splits) force+

lemma UnmarshalJSON_safe: "UnmarshalJSON j = Inr e \<Longrightarrow> safe_exp (\<lambda>_ _. True) e"
proof (induction j arbitrary: e rule: UnmarshalJSON.induct)
  case (5 js)
  then obtain es where es: "mapM id (map UnmarshalJSON js) = Inr es" "e = Expression ''@list'' None (LExps es)"
    by (auto split: sum.splits)
  have "safe_exp (\<lambda>_ _. True) x" if "x \<in> set es" for x
    using mapM_Inr_in [OF es(1) that] 5(1) by auto
  with es(2) show ?case by (simp add: list_all_iff needs_arg_def)
next
  case (6 ms)
  then obtain kes where kes: "mapM (\<lambda>(k, r). bind r (\<lambda>x. Inr (k, x))) (map (\<lambda>(k, j). (k, UnmarshalJSON j)) ms) = Inr kes"
    and e: "unmarshal_map (foldl (\<lambda>m (k, x). sm_set k x m) [] kes) = Inr e"
    by (auto split: sum.splits)
  have "(\<lambda>(k, x). safe_exp (\<lambda>_ _. True) x) y" if "y \<in> set kes" for y
    using mapM_Inr_in [OF kes that] 6(1) by (auto simp: bind_Inr_iff)
  then show ?case
    by (intro unmarshal_map_safe [OF e]) (use foldl_sm_set_entries in fastforce)
qed (auto simp: needs_arg_def split: option.splits if_splits)

section \<open>The round trip\<close>

definition float_reads_back :: "f64 \<Rightarrow> bool" where
  "float_reads_back f =
     (case json_float f of Inr t \<Rightarrow> ParseInt t = None \<and> ParseFloat t = Some f | Inl _ \<Rightarrow> False)"

text \<open>
  The expressions in the form \<^verbatim>\<open>UnmarshalJSON\<close> gives them: literals under the operator of their
  type, operators with an argument and no literal.  The exceptions are those for which the code
  does not print what it reads: \<^verbatim>\<open>@any\<close>, and \<^verbatim>\<open>@list\<close> or \<^verbatim>\<open>@dict\<close> with an argument, lose
  their operator; a float with an integral value prints like an integer; the empty string does
  not read; a map with a single key that starts like an operator reads as that operator.
\<close>

definition operator_key :: "(string \<times> 'a) list \<Rightarrow> bool" where
  "operator_key m = (case m of [(k, _)] \<Rightarrow> k = [] \<or> hd k = CHR ''@'' | _ \<Rightarrow> False)"

definition clean_value :: "string \<Rightarrow> gval \<Rightarrow> bool" where
  "clean_value op v =
     (case v of
        VBool b \<Rightarrow> op = ''@bool''
      | VInt i \<Rightarrow> op = ''@int''
      | VFloat f \<Rightarrow> op = ''@float'' \<and> float_reads_back f
      | VStr s \<Rightarrow> op = ''@string'' \<and> s \<noteq> [] \<and> utf8_fix s = s
      | _ \<Rightarrow> False)"

definition clean_shape :: "string \<Rightarrow> bool \<Rightarrow> literal \<Rightarrow> bool" where
  "clean_shape op has_arg lit =
     (if has_arg then lit = LVal VNil \<and> op \<noteq> [] \<and> hd op = CHR ''@'' \<and> op \<notin> {''@any'', ''@list'', ''@dict''} \<and> utf8_fix op = op
      else case lit of
        LVal v \<Rightarrow> clean_value op v
      | LExps es \<Rightarrow> op = ''@list''
      | LDict m \<Rightarrow> op = ''@dict'' \<and> sm_wf m \<and> list_all (\<lambda>(k, _). utf8_fix k = k) m \<and> \<not> operator_key m)"

primrec clean :: "Expression \<Rightarrow> bool" and clean_lit :: "literal \<Rightarrow> bool" where
  "clean (Expression op arg lit) \<longleftrightarrow>
     clean_shape op (arg \<noteq> None) lit \<and> pred_option id (map_option clean arg) \<and> clean_lit lit"
| "clean_lit (LVal v) = True"
| "clean_lit (LExps es) = list_all id (map clean es)"
| "clean_lit (LDict m) = list_all snd (map (map_prod id clean) m)"

lemma sm_set_last: "\<forall>k' \<in> keys m. k' < k \<Longrightarrow> sm_set k x m = m @ [(k, x)]"
  by (induction m) auto

lemma foldl_sm_set_sorted: "sm_wf (a @ m) \<Longrightarrow> foldl (\<lambda>m (k, x). sm_set k x m) a m = a @ m"
proof (induction m arbitrary: a)
  case (Cons kx m)
  obtain k x where kx: "kx = (k, x)" by fastforce
  have "\<forall>k' \<in> keys a. k' < k" using Cons.prems by (auto simp: kx sm_wf_def sorted_wrt_append)
  then have "sm_set k x a = a @ [(k, x)]" by (rule sm_set_last)
  with Cons.IH [of "a @ [(k, x)]"] Cons.prems show ?case by (simp add: kx)
qed simp

lemma sort_sm_wf: "sm_wf m \<Longrightarrow> sort_key fst m = m"
  by (simp add: sm_wf_def sort_key_id_if_sorted strict_sorted_iff)

definition survives :: "Expression \<Rightarrow> bool" where
  "survives e \<longleftrightarrow> (\<exists>j. MarshalJSON e = Inr j \<and> UnmarshalJSON j = Inr e)"

lemma clean_value_survives: "clean_value op v \<Longrightarrow> survives (Expression op None (LVal v))"
  by (auto simp: clean_value_def survives_def lit_as_def AsBool_def AsInt_def AsFloat_def AsString_def
      float_reads_back_def split: gval.splits sum.splits)

lemma op_object_survives:
  assumes "survives a" and "op \<noteq> []" "hd op = CHR ''@''" "utf8_fix op = op"
  shows "\<exists>j. op_object op (Some (MarshalJSON a)) = Inr j \<and> UnmarshalJSON j = Inr (Expression op (Some a) (LVal VNil))"
  using assms by (auto simp: survives_def op_object_def unmarshal_map_def)

lemma MarshalJSON_op:
  assumes "op \<noteq> []" "hd op = CHR ''@''" "op \<noteq> ''@any''" "op \<noteq> ''@list''" "op \<noteq> ''@dict''"
  shows "MarshalJSON (Expression op (Some a) lit) = op_object op (Some (MarshalJSON a))"
  unfolding MarshalJSON.simps Let_def using assms by simp

lemma clean_op_survives:
  assumes "clean_shape op True lit" and "survives a"
  shows "survives (Expression op (Some a) lit)"
proof -
  from assms(1) have op: "op \<noteq> []" "hd op = CHR ''@''" "op \<noteq> ''@any''" "op \<noteq> ''@list''" "op \<noteq> ''@dict''"
    "utf8_fix op = op" and lit: "lit = LVal VNil"
    by (simp_all add: clean_shape_def)
  show ?thesis
    unfolding survives_def MarshalJSON_op [OF op(1-5)] lit
    by (rule op_object_survives [OF assms(2) op(1,2,6)])
qed

lemma mapM_survives:
  assumes "\<forall>x \<in> set es. survives x"
  shows "\<exists>js. mapM id (map MarshalJSON es) = Inr js \<and> mapM id (map UnmarshalJSON js) = Inr es"
  using assms by (induction es) (auto simp: survives_def)

lemma list_survives: "\<forall>x \<in> set es. survives x \<Longrightarrow> survives (Expression ''@list'' None (LExps es))"
  using mapM_survives [of es] by (auto simp: survives_def)

lemma members_survive:
  assumes "\<forall>(k, x) \<in> set m. survives x \<and> utf8_fix k = k"
  shows "\<exists>js. mapM json_member_of (map (\<lambda>(k, e). (k, MarshalJSON e)) m) = Inr js
    \<and> mapM (\<lambda>(k, r). bind r (\<lambda>x. Inr (k, x))) (map (\<lambda>(k, j). (k, UnmarshalJSON j)) js) = Inr m"
  using assms by (induction m) (auto simp: survives_def json_member_of_def)

lemma dict_survives:
  assumes "\<forall>(k, x) \<in> set m. survives x \<and> utf8_fix k = k" and "sm_wf m" and "\<not> operator_key m"
  shows "survives (Expression ''@dict'' None (LDict m))"
proof -
  have "sm_wf (map (\<lambda>(k, e). (k, MarshalJSON e)) m)" using assms(2) by (simp add: sm_wf_def case_prod_beta o_def)
  then have "json_object (map (\<lambda>(k, e). (k, MarshalJSON e)) m)
      = bind (mapM json_member_of (map (\<lambda>(k, e). (k, MarshalJSON e)) m)) (\<lambda>js. Inr (JObj js))"
    by (simp only: json_object_def sort_sm_wf)
  moreover have "unmarshal_map m = Inr (Expression ''@dict'' None (LDict m))"
    using assms(3) by (auto simp: unmarshal_map_def operator_key_def split: list.splits)
  ultimately show ?thesis
    using members_survive [OF assms(1)] foldl_sm_set_sorted [of "[]" m] assms(2)
    by (auto simp: survives_def)
qed

lemma clean_survives:
  "clean e \<Longrightarrow> survives e"
  "clean_lit l \<Longrightarrow> (\<forall>es. l = LExps es \<longrightarrow> (\<forall>x \<in> set es. survives x)) \<and> (\<forall>m. l = LDict m \<longrightarrow> (\<forall>(k, x) \<in> set m. survives x))"
proof (induction e and l)
  case (Expression op arg lit)
  show ?case
  proof (cases arg)
    case (Some a)
    with Expression have "clean_shape op True lit" "survives a" by auto
    then show ?thesis using Some clean_op_survives by simp
  next
    case None
    with Expression have shape: "clean_shape op False lit" and lit: "clean_lit lit" by auto
    show ?thesis
    proof (cases lit)
      case (LVal v)
      with shape None show ?thesis by (simp add: clean_shape_def clean_value_survives)
    next
      case (LExps es)
      with shape None Expression(2) [OF lit] show ?thesis by (simp add: clean_shape_def list_survives)
    next
      case (LDict m)
      with shape have m: "op = ''@dict''" "sm_wf m" "\<forall>(k, x) \<in> set m. utf8_fix k = k" "\<not> operator_key m"
        by (auto simp: clean_shape_def list_all_iff)
      moreover have "\<forall>(k, x) \<in> set m. survives x \<and> utf8_fix k = k"
        using Expression(2) [OF lit] LDict m(3) by auto
      ultimately show ?thesis using None LDict dict_survives by simp
    qed
  qed
next
  case (LDict m)
  then show ?case by (force simp: list_all_iff)
qed (auto simp: list_all_iff)

end
