(* ===== verification/Expr_Properties.thy ===== *)
theory Expr_Properties
  imports Expr_Laws Marshal_Laws
begin

text \<open>The properties of the expression language, package \<^verbatim>\<open>expression\<close>.\<close>

section \<open>Safety and serialization\<close>



definition sample_json :: json where
  "sample_json = JObj [(''@gt'', JList [JStr ''$.spec.x'', JNum ''3''])]"

definition sample_ctx :: EvalCtx where
  "sample_ctx = \<lparr>ctx_Object = VMap [(''spec'', VMap [(''x'', VInt 5), (''xs'', VList [VInt 1, VInt 5])])], ctx_Subject = VNil\<rparr>"

definition sample_gt :: "string \<Rightarrow> Expression" where
  "sample_gt path = op_exp ''@gt'' (list_exp [str_exp path, lit_exp ''@int'' (VInt 3)])"






text \<open>
  C31. An expression in the form the decoder produces, with the exceptions listed at
  \<open>clean\<close>, is printed to JSON and read back unchanged; hence \<^verbatim>\<open>DeepCopyInto\<close> copies it.
\<close>

theorem expression_json_roundtrip:
  assumes "clean e"
  shows "(\<exists>j. MarshalJSON e = Inr j \<and> UnmarshalJSON j = Inr e) \<and> DeepCopyInto e = Inr e"
proof -
  from clean_survives(1) [OF assms] obtain j where "MarshalJSON e = Inr j" "UnmarshalJSON j = Inr e"
    by (auto simp: survives_def)
  then show ?thesis by (simp add: DeepCopyInto_def)
qed

theorem expression_json_roundtrip_witness:
  "clean (sample_gt ''$.spec.x'') \<and> MarshalJSON (sample_gt ''$.spec.x'') = Inr sample_json
    \<and> DeepCopyInto (sample_gt ''$.spec.x'') = Inr (sample_gt ''$.spec.x'')"
proof -
  have "clean (sample_gt ''$.spec.x'')" by (simp add: sample_gt_def clean_shape_def clean_value_def)
  moreover from expression_json_roundtrip [OF this]
  have "DeepCopyInto (sample_gt ''$.spec.x'') = Inr (sample_gt ''$.spec.x'')" by simp
  moreover have "MarshalJSON (sample_gt ''$.spec.x'') = Inr sample_json" by code_simp
  ultimately show ?thesis by simp
qed

text \<open>
  The printer has a case for \<^verbatim>\<open>@any\<close> that prints the literal, which a decoded
  \<^verbatim>\<open>@any\<close> expression does not have: copying it yields the literal false.
\<close>

theorem copying_any_loses_it:
  "UnmarshalJSON (JObj [(''@any'', j)]) = Inr e \<Longrightarrow> DeepCopyInto e = Inr (lit_exp ''@bool'' (VBool False))"
  by (cases "UnmarshalJSON j") (auto simp: unmarshal_map_def DeepCopyInto_def)

theorem copying_any_loses_it_witness:
  "DeepCopyInto (op_exp ''@any'' (str_exp ''$.spec.xs'')) = Inr (lit_exp ''@bool'' (VBool False))"
proof -
  have "UnmarshalJSON (JObj [(''@any'', JStr ''$.spec.xs'')]) = Inr (op_exp ''@any'' (str_exp ''$.spec.xs''))"
    by code_simp
  then show ?thesis by (rule copying_any_loses_it)
qed

section \<open>Operators\<close>

text \<open>
  \<^verbatim>\<open>@and\<close> and \<^verbatim>\<open>@or\<close> evaluate from left to right and stop early: the
  conjunction is true when every argument is, and false exactly when some argument is false and
  all before it are true; later arguments are not evaluated, so their errors do not matter.
  Dually for the disjunction.
\<close>

theorem connectives_short_circuit:
  assumes "\<forall>x \<in> set es. named x"
  shows "(Evaluate L ctx (op_exp ''@and'' (list_exp es)) = Inr (VBool True) \<longleftrightarrow>
      (\<forall>x \<in> set es. Evaluate L ctx x = Inr (VBool True))) \<and>
    (Evaluate L ctx (op_exp ''@and'' (list_exp es)) = Inr (VBool False) \<longleftrightarrow>
      (\<exists>i < length es. Evaluate L ctx (es ! i) = Inr (VBool False) \<and> (\<forall>j < i. Evaluate L ctx (es ! j) = Inr (VBool True)))) \<and>
    (Evaluate L ctx (op_exp ''@or'' (list_exp es)) = Inr (VBool False) \<longleftrightarrow>
      (\<forall>x \<in> set es. Evaluate L ctx x = Inr (VBool False))) \<and>
    (Evaluate L ctx (op_exp ''@or'' (list_exp es)) = Inr (VBool True) \<longleftrightarrow>
      (\<exists>i < length es. Evaluate L ctx (es ! i) = Inr (VBool True) \<and> (\<forall>j < i. Evaluate L ctx (es ! j) = Inr (VBool False))))"
  using assms stop_at_none [of False "bool_arg (Evaluate L) ctx (op_exp ''@and'' (list_exp es))" es]
    stop_at_some [of False "bool_arg (Evaluate L) ctx (op_exp ''@and'' (list_exp es))" es]
    stop_at_none [of True "bool_arg (Evaluate L) ctx (op_exp ''@or'' (list_exp es))" es]
    stop_at_some [of True "bool_arg (Evaluate L) ctx (op_exp ''@or'' (list_exp es))" es]
  by (simp add: Evaluate_ops op_and_def op_or_def bind_Inr_iff bool_arg_Inr_iff list_all_iff ex_bool_eq del: AsExpOrExpList.simps)

theorem connectives_short_circuit_witness:
  "Evaluate path_libs sample_ctx
     (op_exp ''@or'' (list_exp [sample_gt ''$.spec.x'', op_exp ''@unknown'' (str_exp ''x'')])) = Inr (VBool True)"
proof -
  have "Evaluate path_libs sample_ctx (sample_gt ''$.spec.x'') = Inr (VBool True)" by code_simp
  moreover have "\<forall>x \<in> set [sample_gt ''$.spec.x'', op_exp ''@unknown'' (str_exp ''x'')]. named x"
    by (simp add: sample_gt_def)
  ultimately show ?thesis
    using connectives_short_circuit [of "[sample_gt ''$.spec.x'', op_exp ''@unknown'' (str_exp ''x'')]" path_libs sample_ctx]
    by force
qed

text \<open>
  \<^verbatim>\<open>@switch\<close> is a chain of \<^verbatim>\<open>@cond\<close>: it yields exactly the results of the
  conditional on its first pair with the remaining pairs in the else branch.
\<close>

theorem switch_is_nested_cond:
  assumes "named c" and "named a" and "\<forall>p \<in> set ps. named p"
  shows "Evaluate L ctx (op_exp ''@switch'' (list_exp (list_exp [c, a] # ps))) = Inr v \<longleftrightarrow>
    Evaluate L ctx (op_exp ''@cond'' (list_exp (c # a #
      (if ps = [] then [] else [op_exp ''@switch'' (list_exp ps)])))) = Inr v"
proof -
  let ?sw = "\<lambda>ps. op_exp ''@switch'' (list_exp ps)"
  let ?bs = "if ps = [] then [] else [?sw ps]"
  have named: "named (?sw ps')" if "\<forall>p \<in> set ps'. named p" for ps' using that by (simp add: list_all_iff)
  have sw: "op_switch (Evaluate L) ctx (?sw ps') = switch_loop (Evaluate L) ctx (?sw ps') ps'" if "ps' \<noteq> []" for ps'
    using that by (simp add: op_switch_def del: AsExpOrExpList.simps)
  have rest: "switch_loop (Evaluate L) ctx (?sw (list_exp [c, a] # ps)) ps = Inr v \<longleftrightarrow>
      (if ?bs = [] then v = VNil else Evaluate L ctx (hd ?bs) = Inr v)"
    using switch_loop_subject [of "?sw (list_exp [c, a] # ps)" "?sw ps" "Evaluate L" ctx ps v] assms
    by (auto simp: Evaluate_ops sw named list_all_iff)
  have first: "named (?sw (list_exp [c, a] # ps))" using assms by (intro named) simp
  have "named (list_exp (c # a # ?bs))" using assms named [of ps] by simp
  then have "Evaluate L ctx (op_exp ''@cond'' (list_exp (c # a # ?bs))) = Inr v \<longleftrightarrow>
      (\<exists>b. Evaluate L ctx c = Inr (VBool b) \<and>
        (if b then Evaluate L ctx a = Inr v else if ?bs = [] then v = VNil else Evaluate L ctx (hd ?bs) = Inr v))"
    unfolding Evaluate_ops(3) by (rule cond_Inr_iff) simp
  then show ?thesis
    by (simp only: Evaluate_ops(4) sw [OF list.distinct(2)] switch_Cons_iff [OF first] rest)
qed

theorem switch_is_nested_cond_witness:
  "Evaluate path_libs sample_ctx (op_exp ''@switch'' (list_exp [list_exp [sample_gt ''$.spec.x'', str_exp ''big'']])) = Inr (VStr ''big'')"
proof -
  have "Evaluate path_libs sample_ctx (op_exp ''@cond'' (list_exp [sample_gt ''$.spec.x'', str_exp ''big''])) = Inr (VStr ''big'')"
    by code_simp
  then show ?thesis
    using switch_is_nested_cond [of "sample_gt ''$.spec.x''" "str_exp ''big''" "[]" path_libs sample_ctx "VStr ''big''"]
    by (simp add: sample_gt_def)
qed

text \<open>
  C32. The list commands bind the subject \<^verbatim>\<open>$$\<close> to each element in turn: \<^verbatim>\<open>@filter\<close>
  keeps the elements that satisfy the condition in their order, \<^verbatim>\<open>@any\<close> and \<^verbatim>\<open>@all\<close> are the
  quantifiers, \<^verbatim>\<open>@map\<close> applies its body to every element.
\<close>

theorem list_commands:
  assumes "named c" and "named b" and "named xs" and "Evaluate L ctx xs = Inr (VList vs)"
    and "\<forall>v \<in> set vs. Evaluate L (ctx\<lparr>ctx_Subject := v\<rparr>) c = Inr (VBool (P v))"
    and "\<forall>v \<in> set vs. Evaluate L (ctx\<lparr>ctx_Subject := v\<rparr>) b = Inr (f v)"
  shows "Evaluate L ctx (op_exp ''@filter'' (list_exp [c, xs])) = Inr (VList (filter P vs)) \<and>
    Evaluate L ctx (op_exp ''@any'' (list_exp [c, xs])) = Inr (VBool (\<exists>v \<in> set vs. P v)) \<and>
    Evaluate L ctx (op_exp ''@all'' (list_exp [c, xs])) = Inr (VBool (\<forall>v \<in> set vs. P v)) \<and>
    Evaluate L ctx (op_exp ''@map'' (list_exp [b, xs])) = Inr (VList (map f vs))"
proof -
  have cond: "\<forall>v \<in> set vs. item_cond (Evaluate L) ctx e c v = Inr (P v)" for e
    using assms(5) by (simp add: item_cond_Inr_iff)
  have map: "mapM (\<lambda>v. Evaluate L (ctx\<lparr>ctx_Subject := v\<rparr>) b) vs = Inr (map f vs)"
    using assms(6) by (simp add: mapM_pointwise)
  show ?thesis
    using assms(1-3)
    by (simp add: Evaluate_ops op_filter_def op_any_def op_all_def op_map_def list_arg_def AsList_def
        list_args_ok [of "Evaluate L", OF assms(4)] assms(4) filter_loop_pure [OF cond] stop_at_pure [OF cond] map list_all_iff
        del: AsExpOrExpList.simps)
qed

theorem list_commands_witness:
  "Evaluate path_libs sample_ctx (op_exp ''@filter'' (list_exp [sample_gt ''$$.'', str_exp ''$.spec.xs''])) = Inr (VList [VInt 5])"
proof -
  let ?P = "\<lambda>v. v = VInt 5" and ?f = "\<lambda>v. VBool (v = VInt 5)"
  have "Evaluate path_libs (sample_ctx\<lparr>ctx_Subject := VInt 1\<rparr>) (sample_gt ''$$.'') = Inr (VBool False)"
    "Evaluate path_libs (sample_ctx\<lparr>ctx_Subject := VInt 5\<rparr>) (sample_gt ''$$.'') = Inr (VBool True)" by code_simp+
  then have "\<forall>v \<in> set [VInt 1, VInt 5]. Evaluate path_libs (sample_ctx\<lparr>ctx_Subject := v\<rparr>) (sample_gt ''$$.'') = Inr (VBool (?P v))"
    by simp
  moreover have "Evaluate path_libs sample_ctx (str_exp ''$.spec.xs'') = Inr (VList [VInt 1, VInt 5])" by code_simp
  moreover have "named (sample_gt ''$$.'')" "named (str_exp ''$.spec.xs'')" by (simp_all add: sample_gt_def)
  ultimately show ?thesis
    using list_commands [of "sample_gt ''$$.''" "sample_gt ''$$.''" "str_exp ''$.spec.xs''" path_libs sample_ctx
        "[VInt 1, VInt 5]" ?P ?f] by simp
qed

text \<open>
  \<^verbatim>\<open>@none\<close> never yields true: its result variable starts as false and is only ever
  set to false, so on success it is false also when no element satisfies the condition.
\<close>

theorem none_is_never_true:
  "Evaluate L ctx (Expression ''@none'' a l) = Inr v \<Longrightarrow> v = VBool False"
  by (auto simp: Evaluate_ops op_none_def bind_Inr_iff logged_def)

theorem none_is_never_true_witness:
  "Evaluate path_libs sample_ctx (op_exp ''@none'' (list_exp [sample_gt ''$$.'', list_exp []])) = Inr (VBool False)"
proof -
  obtain v where v: "Evaluate path_libs sample_ctx (op_exp ''@none'' (list_exp [sample_gt ''$$.'', list_exp []])) = Inr v"
    by (rule that [of "VBool False"]) code_simp
  with none_is_never_true [OF this] show ?thesis by simp
qed

text \<open>
  A literal map with plain keys builds the map of the values of its entries, and the
  iteration order of Go's map does not matter.
\<close>

theorem dict_builds_map:
  assumes "\<forall>(k, x) \<in> set m. plain_key k \<and> named x \<and> Evaluate L ctx x = Inr (f k x) \<and> plain_value (f k x)"
    and "distinct (map fst m)" and "mset m' = mset m"
  shows "\<exists>d. Evaluate L ctx (dict_exp m') = Inr (VMap d) \<and> sm_wf d \<and> map_of d = map_of (map (\<lambda>(k, x). (k, f k x)) m)"
proof -
  have set: "set m' = set m" using assms(3) by (metis set_mset_mset)
  have dist: "distinct (map fst m')" 
  proof -
    have "mset (map fst m') = mset (map fst m)" using assms(3) by simp
    then show ?thesis using assms(2) by (metis mset_eq_imp_distinct_iff)
  qed
  let ?d = "foldl (\<lambda>d (k, x). sm_set k (f k x) d) [] m'"
  have "foldM (dict_entry L (Evaluate L) ctx (dict_exp m')) (VMap []) m' = Inr (VMap ?d)"
    using assms(1) by (intro dict_loop) (auto simp: set)
  moreover have "named (dict_exp m')" using assms(1) by (auto simp: set list_all_iff)
  ultimately have "Evaluate L ctx (dict_exp m') = Inr (VMap ?d)"
    by (simp add: Evaluate_ops op_dict_def lit_dict_def)
  moreover have "map_of (map (\<lambda>(k, x). (k, f k x)) m') = map_of (map (\<lambda>(k, x). (k, f k x)) m)"
    using dist assms(2) set by (intro map_of_inject_set [THEN iffD2]) (simp_all add: case_prod_beta o_def)
  ultimately show ?thesis
    using map_of_foldl_sm_set [OF dist, of f "[]"] sm_wf_foldl_sm_set [of "[]" f m'] by auto
qed

theorem dict_builds_map_witness:
  "\<exists>d. Evaluate path_libs sample_ctx (dict_exp [(''b'', str_exp ''y''), (''a'', str_exp ''$.spec.x'')]) = Inr (VMap d)
    \<and> sm_wf d \<and> map_of d ''a'' = Some (VInt 5) \<and> map_of d ''b'' = Some (VStr ''y'')"
proof -
  let ?f = "\<lambda>(k :: string) (x :: Expression). if k = ''a'' then VInt 5 else VStr ''y''"
  have "Evaluate path_libs sample_ctx (str_exp ''$.spec.x'') = Inr (VInt 5)"
    "Evaluate path_libs sample_ctx (str_exp ''y'') = Inr (VStr ''y'')" by code_simp+
  then show ?thesis
    using dict_builds_map [of "[(''a'', str_exp ''$.spec.x''), (''b'', str_exp ''y'')]" path_libs sample_ctx ?f
        "[(''b'', str_exp ''y''), (''a'', str_exp ''$.spec.x'')]"]
    by (auto simp: plain_key_def plain_value_def)
qed

text \<open>
  With path keys the order does matter: when one key sets the whole object and
  another a field of it, the result depends on the iteration order of Go's map, which the
  runtime chooses at random.
\<close>

theorem dict_order_matters:
  "\<exists>m m'. mset m = mset m' \<and> distinct (map fst m) \<and>
    Evaluate path_libs sample_ctx (dict_exp m) \<noteq> Evaluate path_libs sample_ctx (dict_exp m')"
proof (intro exI conjI)
  let ?m = "[(''$.'', str_exp ''$.''), (''$.spec.x'', lit_exp ''@bool'' (VBool True))]"
  show "mset ?m = mset (rev ?m)" and "distinct (map fst ?m)" by simp_all
  have "Evaluate path_libs sample_ctx (dict_exp ?m)
      = Inr (VMap [(''spec'', VMap [(''x'', VBool True), (''xs'', VList [VInt 1, VInt 5])])])" by code_simp
  moreover have "Evaluate path_libs sample_ctx (dict_exp (rev ?m))
      = Inr (VMap [(''spec'', VMap [(''x'', VInt 5), (''xs'', VList [VInt 1, VInt 5])])])" by code_simp
  ultimately show "Evaluate path_libs sample_ctx (dict_exp ?m) \<noteq> Evaluate path_libs sample_ctx (dict_exp (rev ?m))"
    by simp
qed

end
