(* ===== verification/View_Group.thy ===== *)
theory View_Group
  imports Go_Values
begin

text \<open>
  Group-version-kinds of view resources (\<^verbatim>\<open>pkg/api/view/v1alpha1/group_version.go\<close>): the group
  of the views of an operator, the embedding of native kinds into an operator's views, and the
  tests that recognise view kinds.
\<close>

record GroupVersionKind =
  gvk_Group :: string
  gvk_Version :: string
  gvk_Kind :: string

definition GroupSuffix :: string where
  "GroupSuffix = ''view.dcontroller.io''"

definition fullGroupSuffix :: string where
  "fullGroupSuffix = ''.'' @ GroupSuffix"

definition ViewVersion :: string where
  "ViewVersion = ''v1alpha1''"

definition Group :: "string \<Rightarrow> string" where
  "Group oper = oper @ ''.'' @ GroupSuffix"

record GroupVersion =
  gv_Group :: string
  gv_Version :: string

definition ViewGroupVersion :: "string \<Rightarrow> GroupVersion" where
  "ViewGroupVersion oper = \<lparr>gv_Group = Group oper, gv_Version = ViewVersion\<rparr>"

definition gvk_GroupVersion :: "GroupVersionKind \<Rightarrow> GroupVersion" where
  "gvk_GroupVersion gvk = \<lparr>gv_Group = gvk_Group gvk, gv_Version = gvk_Version gvk\<rparr>"

definition ViewGroupVersionKind :: "string \<Rightarrow> string \<Rightarrow> GroupVersionKind" where
  "ViewGroupVersionKind oper view =
     (let gv = ViewGroupVersion oper in \<lparr>gvk_Group = gv_Group gv, gvk_Version = gv_Version gv, gvk_Kind = view\<rparr>)"

definition HasSuffix :: "string \<Rightarrow> string \<Rightarrow> bool" where
  "HasSuffix s suf \<longleftrightarrow> length suf \<le> length s \<and> drop (length s - length suf) s = suf"

definition IsViewGroup :: "string \<Rightarrow> bool" where
  "IsViewGroup g = HasSuffix g GroupSuffix"

definition IsViewGroupVersion :: "GroupVersion \<Rightarrow> bool" where
  "IsViewGroupVersion gv \<longleftrightarrow> IsViewGroup (gv_Group gv) \<and> gv_Version gv = ViewVersion"

definition IsViewKind :: "GroupVersionKind \<Rightarrow> bool" where
  "IsViewKind gvk = IsViewGroupVersion (gvk_GroupVersion gvk)"

definition HasViewGroupVersion :: "string \<Rightarrow> GroupVersion \<Rightarrow> bool" where
  "HasViewGroupVersion g gv \<longleftrightarrow> gv_Group gv = g \<and> gv_Version gv = ViewVersion"

definition HasViewGroupVersionKind :: "string \<Rightarrow> GroupVersionKind \<Rightarrow> bool" where
  "HasViewGroupVersionKind g gvk = HasViewGroupVersion g (gvk_GroupVersion gvk)"

definition MapIntoView :: "string \<Rightarrow> GroupVersionKind \<Rightarrow> GroupVersionKind" where
  "MapIntoView oper gvk =
     (let g = (if gvk_Group gvk = [] then ''core'' else gvk_Group gvk) in
      \<lparr>gvk_Group = g @ ''.'' @ gvk_Version gvk @ ''.'' @ Group oper,
       gvk_Version = ViewVersion, gvk_Kind = gvk_Kind gvk\<rparr>)"

definition MapFromView :: "GroupVersionKind \<Rightarrow> GroupVersionKind res" where
  "MapFromView gvk =
     (if \<not> IsViewGroup (gvk_Group gvk) then Inl (Error ''not a view resource'')
      else
        let ps = splitN 3 CHR ''.'' (gvk_Group gvk) in
        if length ps \<noteq> 3 then Inl (Error ''invalid view resource'')
        else Inr \<lparr>gvk_Group = (if ps ! 0 = ''core'' then [] else ps ! 0), gvk_Version = ps ! 1,
                  gvk_Kind = gvk_Kind gvk\<rparr>)"

definition GetOperator :: "GroupVersionKind \<Rightarrow> string" where
  "GetOperator gvk =
     (let s = gvk_Group gvk in
      if HasSuffix s fullGroupSuffix
      then last (split_on CHR ''.'' (take (length s - length fullGroupSuffix) s))
      else [])"

section \<open>Laws\<close>

lemma IsViewKind_iff: "IsViewKind gvk \<longleftrightarrow> IsViewGroup (gvk_Group gvk) \<and> gvk_Version gvk = ViewVersion"
  by (simp add: IsViewKind_def IsViewGroupVersion_def gvk_GroupVersion_def)

lemma HasSuffix_append [simp]: "HasSuffix (s @ suf) suf"
  by (simp add: HasSuffix_def)

lemma IsViewGroup_Group [simp]: "IsViewGroup (Group oper)" "IsViewGroup (s @ Group oper)"
  using HasSuffix_append [of "oper @ ''.''" GroupSuffix] HasSuffix_append [of "s @ oper @ ''.''" GroupSuffix]
  by (simp_all add: IsViewGroup_def Group_def)

lemma GetOperator_prefix: "GetOperator \<lparr>gvk_Group = s @ fullGroupSuffix, gvk_Version = v, gvk_Kind = k\<rparr>
    = last (split_on CHR ''.'' s)"
  by (simp add: GetOperator_def)

lemma Group_full: "Group oper = oper @ fullGroupSuffix"
  by (simp add: Group_def fullGroupSuffix_def)

lemma last_split_on: "CHR ''.'' \<notin> set t \<Longrightarrow> last (split_on CHR ''.'' (s @ CHR ''.'' # t)) = t"
  by (simp add: split_on_append)

lemma MapFromView_group:
  assumes "CHR ''.'' \<notin> set g"
  shows "MapFromView \<lparr>gvk_Group = g @ ''.'' @ rest, gvk_Version = w, gvk_Kind = k\<rparr> = Inr gvk
    \<Longrightarrow> gvk_Group gvk = (if g = ''core'' then [] else g)"
  using assms by (auto simp: MapFromView_def Let_def splitN_first split: if_splits)

end
