(* ===== verification/Objects.thy ===== *)
theory Objects
  imports View_Group Sha256
begin

text \<open>
  Objects and their utilities (package \<^verbatim>\<open>object\<close>) and the object store of \<^verbatim>\<open>pkg/cache/store.go\<close>.
  An object is a Kubernetes \<^verbatim>\<open>Unstructured\<close>, represented by its content map.  The accessors of
  \<^verbatim>\<open>Unstructured\<close> and the key-value store of client-go are not part of the repository: they are
  the record \<open>k8s\<close>, and what the code relies on is the predicate \<open>k8s_laws\<close>.  Deep copies of
  values (\<^verbatim>\<open>runtime.DeepCopyJSON\<close>) are the values themselves.
\<close>

type_synonym object = doc

section \<open>Kubernetes accessors and stores\<close>

record 's k8s =
  u_gvk :: "object \<Rightarrow> GroupVersionKind"
  u_kind :: "object \<Rightarrow> string"
  u_namespace :: "object \<Rightarrow> string"
  u_name :: "object \<Rightarrow> string"
  u_uid :: "object \<Rightarrow> string"
  u_set_gvk :: "GroupVersionKind \<Rightarrow> object \<Rightarrow> object"
  u_set_namespace :: "string \<Rightarrow> object \<Rightarrow> object"
  u_set_name :: "string \<Rightarrow> object \<Rightarrow> object"
  u_set_uid :: "string \<Rightarrow> object \<Rightarrow> object"
  u_remove_uid :: "object \<Rightarrow> object"
  ObjectKey :: "object \<Rightarrow> string"
  ts_new :: "'s"
  ts_add :: "object \<Rightarrow> 's \<Rightarrow> 's res"
  ts_update :: "object \<Rightarrow> 's \<Rightarrow> 's res"
  ts_delete :: "object \<Rightarrow> 's \<Rightarrow> 's res"
  ts_get :: "object \<Rightarrow> 's \<Rightarrow> object option res"
  ts_getByKey :: "string \<Rightarrow> 's \<Rightarrow> object option res"
  ts_list :: "'s \<Rightarrow> object list"
  ts_listKeys :: "'s \<Rightarrow> string list"
  ts_replace :: "object list \<Rightarrow> 's \<Rightarrow> 's res"

section \<open>Deltas (\<^verbatim>\<open>delta.go\<close>)\<close>

datatype DeltaType = Added | Deleted | Updated | Replaced | Sync | Upserted | OtherType string

record Delta =
  d_Object :: object
  d_Type :: DeltaType

section \<open>Objects (\<^verbatim>\<open>object.go\<close>, \<^verbatim>\<open>uid.go\<close>)\<close>

definition New_object :: object where
  "New_object = []"

definition NewViewObject :: "'s k8s \<Rightarrow> string \<Rightarrow> string \<Rightarrow> object" where
  "NewViewObject K oper view = u_set_gvk K (ViewGroupVersionKind oper view) []"

definition SetName :: "'s k8s \<Rightarrow> object \<Rightarrow> string \<Rightarrow> string \<Rightarrow> object" where
  "SetName K obj ns name = u_set_name K name (u_set_namespace K ns obj)"

definition SetContent :: "'s k8s \<Rightarrow> object \<Rightarrow> doc \<Rightarrow> object" where
  "SetContent K obj content = SetName K (u_set_gvk K (u_gvk K obj) content) (u_namespace K obj) (u_name K obj)"

text \<open>
  The conversion of a native object to its content (\<^verbatim>\<open>DefaultUnstructuredConverter\<close>) is a
  parameter; \<open>ns\<close> and \<open>name\<close> are what the accessors of the native object return.
\<close>

definition NewViewObjectFromNativeObject :: "'s k8s \<Rightarrow> string \<Rightarrow> string \<Rightarrow> doc res \<Rightarrow> string \<Rightarrow> string \<Rightarrow> object res" where
  "NewViewObjectFromNativeObject K oper view unstructuredObj ns name =
     bind unstructuredObj (\<lambda>content. Inr (SetContent K (SetName K (NewViewObject K oper view) ns name) content))"

definition Object_GetOperator :: "'s k8s \<Rightarrow> object \<Rightarrow> string" where
  "Object_GetOperator K obj = GetOperator (u_gvk K obj)"

definition Object_DeepCopy :: "'s k8s \<Rightarrow> object \<Rightarrow> object" where
  "Object_DeepCopy K obj = u_set_gvk K (u_gvk K obj) obj"

definition NewUID :: "GroupVersionKind \<Rightarrow> string \<Rightarrow> string \<Rightarrow> string" where
  "NewUID gvk ns name =
     (let key = gvk_Group gvk @ ''/'' @ gvk_Version gvk @ ''/'' @ gvk_Kind gvk @ ''/'' @ ns @ ''/'' @ name;
          hash = Sum256 key
      in hex (take 4 hash) @ ''-'' @ hex (take 2 (drop 4 hash)) @ ''-'' @ hex (take 2 (drop 6 hash)) @ ''-''
         @ hex (take 2 (drop 8 hash)) @ ''-'' @ hex (take 6 (drop 10 hash)))"

definition WithUID :: "'s k8s \<Rightarrow> object \<Rightarrow> object" where
  "WithUID K obj =
     (let gvk = u_gvk K obj in
      if \<not> IsViewKind gvk \<or> u_uid K obj \<noteq> [] then obj
      else u_set_uid K (NewUID gvk (u_namespace K obj) (u_name K obj)) obj)"

definition RemoveUID :: "'s k8s \<Rightarrow> object \<Rightarrow> object" where
  "RemoveUID K obj =
     (let gvk = u_gvk K obj in
      if \<not> IsViewKind gvk \<or> u_uid K obj = [] then obj else u_remove_uid K obj)"

section \<open>The store (\<^verbatim>\<open>store.go\<close>)\<close>

definition Store_New :: "'s k8s \<Rightarrow> 's" where
  "Store_New K = ts_new K"

definition Store_Add :: "'s k8s \<Rightarrow> object \<Rightarrow> 's \<Rightarrow> 's res" where
  "Store_Add K obj s = ts_add K (Object_DeepCopy K obj) s"

definition Store_Update :: "'s k8s \<Rightarrow> object \<Rightarrow> 's \<Rightarrow> 's res" where
  "Store_Update K obj s = ts_update K (Object_DeepCopy K obj) s"

definition Store_Delete :: "'s k8s \<Rightarrow> object \<Rightarrow> 's \<Rightarrow> 's res" where
  "Store_Delete K obj s = ts_delete K obj s"

definition Store_List :: "'s k8s \<Rightarrow> 's \<Rightarrow> object list" where
  "Store_List K s = map (Object_DeepCopy K) (ts_list K s)"

definition Store_Get :: "'s k8s \<Rightarrow> object \<Rightarrow> 's \<Rightarrow> object option res" where
  "Store_Get K obj s = bind (ts_get K obj s) (\<lambda>item. Inr (map_option (Object_DeepCopy K) item))"

definition Store_GetByKey :: "'s k8s \<Rightarrow> string \<Rightarrow> 's \<Rightarrow> object option res" where
  "Store_GetByKey K key s = bind (ts_getByKey K key s) (\<lambda>item. Inr (map_option (Object_DeepCopy K) item))"

definition Store_ListKeys :: "'s k8s \<Rightarrow> 's \<Rightarrow> string list" where
  "Store_ListKeys K s = ts_listKeys K s"

text \<open>\<^verbatim>\<open>Replace\<close> hands the objects over without copying them.\<close>

definition Store_Replace :: "'s k8s \<Rightarrow> object list \<Rightarrow> 's \<Rightarrow> 's res" where
  "Store_Replace K objs s = ts_replace K objs s"

section \<open>Patching (\<^verbatim>\<open>patch.go\<close>)\<close>

text \<open>The elements the patch has in common with the original, then the longer tail of the two.\<close>

function patch :: "gval \<Rightarrow> gval \<Rightarrow> gval" where
  "patch orig m =
     (if deep_equal orig m then m
      else if orig = VNil then m
      else case m of
        VBool _ \<Rightarrow> m
      | VInt _ \<Rightarrow> m
      | VFloat _ \<Rightarrow> m
      | VStr _ \<Rightarrow> m
      | VList litlm \<Rightarrow>
          (case orig of
             VList litlo \<Rightarrow>
               VList (map (\<lambda>(vo, v). if deep_equal vo v then v else patch vo v) (zip litlo litlm)
                 @ drop (length litlm) litlo @ drop (length litlo) litlm)
           | _ \<Rightarrow> m)
      | VMap litmm \<Rightarrow>
          (case orig of
             VMap litmo \<Rightarrow>
               VMap (foldl (\<lambda>retm (k, v).
                   if v = VNil then sm_del k retm
                   else case map_of litmo k of
                     None \<Rightarrow> sm_set k v retm
                   | Some vo \<Rightarrow> sm_set k (if deep_equal vo v then v else patch vo v) retm) litmo litmm)
           | _ \<Rightarrow> m)
      | _ \<Rightarrow> VNil)"
  by pat_completeness auto
termination
proof (relation "measure (\<lambda>(orig, m). size m)", goal_cases)
  case (2 orig m litlm litlo vv vo v)
  then show ?case by (auto dest!: set_zip_rightD dest: size_list_estimation' [OF _ order_refl, of _ _ size])
next
  case (3 orig m litmm litmo retm kv k v vo)
  then have "size v \<le> size_list (size_prod (\<lambda>_. 0) size) litmm"
    by (intro size_list_estimation' [of "(k, v)"]) auto
  with 3 show ?case by simp
qed simp

declare patch.simps [simp del]

definition Patch :: "object \<Rightarrow> doc \<Rightarrow> object res" where
  "Patch obj m =
     (case patch (VMap obj) (VMap m) of
        VMap r \<Rightarrow> Inr r
      | _ \<Rightarrow> Inl (Error ''patch result: expected map[string]any''))"

section \<open>Merging (\<^verbatim>\<open>utils.go\<close>)\<close>

function MergeAny :: "gval \<Rightarrow> gval \<Rightarrow> gval res" where
  "MergeAny a b =
     (if a = VNil then Inr b
      else case b of
        VBool _ \<Rightarrow> Inr b
      | VInt _ \<Rightarrow> Inr b
      | VFloat _ \<Rightarrow> Inr b
      | VStr _ \<Rightarrow> Inr b
      | VList vb \<Rightarrow> (case a of VList va \<Rightarrow> Inr (VList (va @ vb)) | _ \<Rightarrow> Inr b)
      | VMap vb \<Rightarrow>
          (case a of
             VMap va \<Rightarrow>
               bind (mapM (\<lambda>(k, mva).
                   case map_of vb k of
                     Some mvb \<Rightarrow> bind (MergeAny mva mvb) (\<lambda>x. Inr (k, x))
                   | None \<Rightarrow> Inr (k, mva)) va) (\<lambda>merged.
                 Inr (VMap (foldl (\<lambda>ret (k, mvb). if k \<in> fst ` set va then ret else sm_set k mvb ret) merged vb)))
           | _ \<Rightarrow> Inr b)
      | _ \<Rightarrow> Inl (Error ''could not merge argument''))"
  by pat_completeness auto
termination
proof (relation "measure (\<lambda>(a, b). size a)", goal_cases)
  case (2 a b vb va kv k mva mvb)
  then have "size mva \<le> size_list (size_prod (\<lambda>_. 0) size) va"
    by (intro size_list_estimation' [of "(k, mva)"]) auto
  with 2 show ?case by simp
qed simp

declare MergeAny.simps [simp del]

end
