(* ===== verification/Pipeline_Ops.thy ===== *)
theory Pipeline_Ops
  imports Operators Evaluator Objects
begin

text \<open>
  The pipeline operations as DBSP operators (\<^verbatim>\<open>pkg/pipeline/op.go\<close>) and the pipeline
  configuration (\<^verbatim>\<open>pkg/api/operator/v1alpha1/pipeline_types.go\<close>).  The structs that implement
  the interfaces \<^verbatim>\<open>Evaluator\<close>, \<^verbatim>\<open>Extractor\<close> and \<^verbatim>\<open>Transformer\<close> of package \<^verbatim>\<open>dbsp\<close> are the
  functions their methods compute.
\<close>

section \<open>Evaluators, extractors and transformers\<close>

definition doc_ctx :: "doc \<Rightarrow> EvalCtx" where
  "doc_ctx d = \<lparr>ctx_Object = VMap d, ctx_Subject = VNil\<rparr>"

text \<open>The error messages of the evaluators print the expression.\<close>

definition stage_failed :: "Expression \<Rightarrow> string \<Rightarrow> 'a res \<Rightarrow> 'a res" where
  "stage_failed e m r =
     (case r of
        Inr x \<Rightarrow> Inr x
      | Inl (Panic p) \<Rightarrow> Inl (Panic p)
      | Inl err \<Rightarrow> Inl (case ExprString e of Inl p \<Rightarrow> p | Inr _ \<Rightarrow> wrap m err))"

definition Selection_Evaluate :: "libs \<Rightarrow> Expression \<Rightarrow> evaluator" where
  "Selection_Evaluate L e d =
     bind (stage_failed e ''failed to evaluate expression'' (Evaluate L (doc_ctx d) e)) (\<lambda>r.
     bind (stage_failed e ''failed to evaluate pipeline stage'' (AsBool r)) (\<lambda>b.
       Inr (if b then [d] else [])))"

definition Projection_Evaluate :: "libs \<Rightarrow> Expression \<Rightarrow> evaluator" where
  "Projection_Evaluate L e d =
     bind (stage_failed e ''failed to evaluate expression'' (Evaluate L (doc_ctx d) e)) (\<lambda>r.
     bind (stage_failed e ''failed to evaluate pipeline stage'' (AsObjectOrObjectList r)) (\<lambda>us.
     bind (foldM (\<lambda>v u. MergeAny v (VMap u)) VNil us) (\<lambda>v.
     bind (AsObject v) (\<lambda>ret. Inr [ret]))))"

definition metadata_name :: string where
  "metadata_name = ''$.metadata.name''"

definition Unwind_Extract :: "libs \<Rightarrow> Expression \<Rightarrow> extractor" where
  "Unwind_Extract L e d =
     bind (replaced ''valid .metadata.name required'' (GetJSONPathRaw L metadata_name (VMap d))) (\<lambda>_.
     bind (Evaluate L (doc_ctx d) e) (\<lambda>arg.
     bind (if arg = VNil then Inr [] else AsList arg) (\<lambda>list.
       Inr (VList (map (\<lambda>(i, v). VListElem (of_nat i) v) (List.enumerate 0 list))))))"

text \<open>A setter applied to a document: the root stays a map.\<close>

definition set_in_doc :: "libs \<Rightarrow> string \<Rightarrow> gval \<Rightarrow> doc \<Rightarrow> doc res" where
  "set_in_doc L path v d =
     bind (SetJSONPathRaw L path v (VMap d)) (\<lambda>t.
       case t of VMap d' \<Rightarrow> Inr d' | _ \<Rightarrow> Inl (Error ''cannot set the root''))"

definition Unwind_Transform :: "libs \<Rightarrow> Expression \<Rightarrow> transformer" where
  "Unwind_Transform L e d v =
     (case v of
        VListElem idx val \<Rightarrow>
          bind (stage_failed e ''failed to evaluate JSON expression'' (GetLiteralString e)) (\<lambda>jp.
          bind (rewrap ''failed to set JSONpath'' (set_in_doc L jp val d)) (\<lambda>d1.
          bind (replaced ''valid .metadata.name required'' (GetJSONPathRaw L metadata_name (VMap d1))) (\<lambda>name.
            replaced ''could not add index to .metadata.name''
              (set_in_doc L metadata_name (VStr (sprint_s name @ ''-'' @ int_str (sint idx))) d1))))
      | _ \<Rightarrow> stage_failed e ''list item not found'' (Inl (Error ''expected list-elem'')))"

definition Gather_Extract :: "libs \<Rightarrow> Expression \<Rightarrow> extractor" where
  "Gather_Extract L e d = stage_failed e ''failed to evaluate pipeline stage'' (Evaluate L (doc_ctx d) e)"

definition Gather_Transform :: "libs \<Rightarrow> Expression \<Rightarrow> aggregator" where
  "Gather_Transform L e d aggrData =
     stage_failed e ''failed to set elem at JSONpath''
       (bind (GetLiteralString e) (\<lambda>key. set_in_doc L key (VList (ai_Values aggrData)) d))"

definition Join_Evaluate :: "libs \<Rightarrow> Expression \<Rightarrow> evaluator" where
  "Join_Evaluate L e d =
     bind (stage_failed e ''failed to evaluate join expression'' (Evaluate L (doc_ctx d) e)) (\<lambda>r.
     bind (stage_failed e ''expected boolean result'' (AsBool r)) (\<lambda>b.
       Inr (if b then [d] else [])))"

section \<open>Operators\<close>

definition NewSelectionOp :: "libs \<Rightarrow> Expression \<Rightarrow> operator" where
  "NewSelectionOp L e = SelectionOp (Selection_Evaluate L e)"

definition NewProjectionOp :: "libs \<Rightarrow> Expression \<Rightarrow> operator" where
  "NewProjectionOp L e = ProjectionOp (Projection_Evaluate L e)"

definition NewUnwindOp :: "libs \<Rightarrow> Expression \<Rightarrow> operator res" where
  "NewUnwindOp L e =
     bind (replaced ''expected a JSONpath expression'' (GetLiteralString e)) (\<lambda>_.
       Inr (UnwindOp (Unwind_Extract L e) (Unwind_Transform L e)))"

definition NewGatherOp :: "libs \<Rightarrow> Expression \<Rightarrow> operator res" where
  "NewGatherOp L e =
     bind (AsExpOrExpList (Some e)) (\<lambda>args.
       if length args \<noteq> 2 then Inl (Error ''expected two expressions'')
       else Inr (NewIncrementalGather (Gather_Extract L (args ! 0)) (Gather_Extract L (args ! 1))
                  (Gather_Transform L (args ! 1))))"

definition NewJoinOp :: "libs \<Rightarrow> Expression \<Rightarrow> GroupVersionKind list \<Rightarrow> operator" where
  "NewJoinOp L e sources = NewIncrementalJoin (Join_Evaluate L e) (map gvk_Kind sources)"

section \<open>Configuration (\<^verbatim>\<open>pipeline_types.go\<close>)\<close>

datatype PipelineOp =
    PJoinOp Expression
  | PSelectionOp Expression
  | PProjectionOp Expression
  | PUnwindOp Expression
  | PGatherOp Expression

fun GetExpression :: "PipelineOp \<Rightarrow> Expression" where
  "GetExpression (PJoinOp e) = e"
| "GetExpression (PSelectionOp e) = e"
| "GetExpression (PProjectionOp e) = e"
| "GetExpression (PUnwindOp e) = e"
| "GetExpression (PGatherOp e) = e"

fun PipelineOp_OpType :: "PipelineOp \<Rightarrow> string" where
  "PipelineOp_OpType (PJoinOp e) = ''@join''"
| "PipelineOp_OpType (PSelectionOp e) = ''@select''"
| "PipelineOp_OpType (PProjectionOp e) = ''@project''"
| "PipelineOp_OpType (PUnwindOp e) = ''@unwind''"
| "PipelineOp_OpType (PGatherOp e) = ''@gather''"

definition pipeline_op :: "string \<Rightarrow> Expression \<Rightarrow> PipelineOp res" where
  "pipeline_op opName expr =
     (if opName = ''@join'' then Inr (PJoinOp expr)
      else if opName = ''@select'' then Inr (PSelectionOp expr)
      else if opName = ''@project'' then Inr (PProjectionOp expr)
      else if opName = ''@unwind'' \<or> opName = ''@demux'' then Inr (PUnwindOp expr)
      else if opName = ''@gather'' \<or> opName = ''@mux'' then Inr (PGatherOp expr)
      else Inl (Error ''unknown pipeline op''))"

text \<open>Decoding an object into \<^verbatim>\<open>map[string]expression.Expression\<close>; \<^verbatim>\<open>null\<close> is the empty map.\<close>

definition unmarshal_exp_map :: "json \<Rightarrow> (string \<times> Expression) list res" where
  "unmarshal_exp_map j =
     (case j of
        JObj ms \<Rightarrow>
          bind (mapM (\<lambda>(k, x). bind (UnmarshalJSON x) (\<lambda>e. Inr (k, e))) ms) (\<lambda>kes.
            Inr (foldl (\<lambda>m (k, e). sm_set k e m) [] kes))
      | JNull \<Rightarrow> Inr []
      | _ \<Rightarrow> Inl (Error ''json: cannot unmarshal into map''))"

definition unmarshalPipelineOp :: "json \<Rightarrow> PipelineOp res" where
  "unmarshalPipelineOp j =
     bind (unmarshal_exp_map j) (\<lambda>m.
       case m of
         [(opName, expr)] \<Rightarrow> pipeline_op opName expr
       | _ \<Rightarrow> Inl (Error ''invalid pipeline op: expected a single op''))"

definition Pipeline_UnmarshalJSON :: "json \<Rightarrow> PipelineOp list res" where
  "Pipeline_UnmarshalJSON j =
     (case j of
        JList js \<Rightarrow> mapM unmarshalPipelineOp js
      | JNull \<Rightarrow> Inr []
      | _ \<Rightarrow> bind (unmarshalPipelineOp j) (\<lambda>oper. Inr [oper]))"

definition marshalPipelineOp :: "PipelineOp \<Rightarrow> json res" where
  "marshalPipelineOp oper = op_object (PipelineOp_OpType oper) (Some (MarshalJSON (GetExpression oper)))"

definition Pipeline_MarshalJSON :: "PipelineOp list \<Rightarrow> json res" where
  "Pipeline_MarshalJSON ops =
     (case ops of
        [oper] \<Rightarrow> marshalPipelineOp oper
      | _ \<Rightarrow> bind (mapM marshalPipelineOp ops) (\<lambda>js. Inr (JList js)))"

text \<open>Deep copies; expressions are values.\<close>

fun deepCopyPipelineOp :: "PipelineOp \<Rightarrow> PipelineOp" where
  "deepCopyPipelineOp (PJoinOp e) = PJoinOp e"
| "deepCopyPipelineOp (PSelectionOp e) = PSelectionOp e"
| "deepCopyPipelineOp (PProjectionOp e) = PProjectionOp e"
| "deepCopyPipelineOp (PUnwindOp e) = PUnwindOp e"
| "deepCopyPipelineOp (PGatherOp e) = PGatherOp e"

definition Pipeline_DeepCopy :: "PipelineOp list \<Rightarrow> PipelineOp list" where
  "Pipeline_DeepCopy ops = map deepCopyPipelineOp ops"

end
