(* ===== verification/Adaptor.thy ===== *)
theory Adaptor
  imports ZSet_Laws Objects
begin

text \<open>
  The conversions between object deltas and Z-sets and the reconciliation of the target cache
  (\<^verbatim>\<open>pkg/pipeline/zset_adaptor.go\<close>).  \<open>sched\<close> is the iteration order of Go's maps: \<open>sched i ks\<close>
  lists the keys \<open>ks\<close> of the map of the \<open>i\<close>-th loop in the order the runtime chooses.
\<close>

section \<open>From a delta to a Z-set\<close>

text \<open>
  The source caches are a map from kinds to stores.  The result is the store after the call
  and the Z-set; a failure leaves the changes made before it.
\<close>

type_synonym 's source_cache = "(GroupVersionKind \<times> 's) list"

definition source_store :: "'s k8s \<Rightarrow> 's source_cache \<Rightarrow> GroupVersionKind \<Rightarrow> 's" where
  "source_store K sc gvk = (case map_of sc gvk of Some s \<Rightarrow> s | None \<Rightarrow> Store_New K)"

definition delta_add :: "'s k8s \<Rightarrow> object \<Rightarrow> 's \<Rightarrow> 's \<times> zset res" where
  "delta_add K obj s =
     (case AddDocumentMutate NewDocumentZSet obj 1 of
        Inl e \<Rightarrow> (s, Inl (wrap ''could not add object to zset'' e))
      | Inr z \<Rightarrow>
          (case Store_Add K obj s of
             Inl e \<Rightarrow> (s, Inl (wrap ''could not add object to store'' e))
           | Inr s' \<Rightarrow> (s', Inr z)))"

definition delta_update :: "'s k8s \<Rightarrow> object option \<Rightarrow> object \<Rightarrow> 's \<Rightarrow> 's \<times> zset res" where
  "delta_update K old obj s =
     (case bind (case old of None \<Rightarrow> Inr NewDocumentZSet | Some ob \<Rightarrow> AddDocumentMutate NewDocumentZSet ob (- 1))
             (\<lambda>z. AddDocumentMutate z obj 1) of
        Inl e \<Rightarrow> (s, Inl (wrap ''could not add object to zset'' e))
      | Inr z \<Rightarrow>
          (case Store_Update K obj s of
             Inl e \<Rightarrow> (s, Inl (wrap ''could not add object to store'' e))
           | Inr s' \<Rightarrow> (s', Inr z)))"

definition delta_delete :: "'s k8s \<Rightarrow> object option \<Rightarrow> object \<Rightarrow> 's \<Rightarrow> 's \<times> zset res" where
  "delta_delete K old obj s =
     (case old of
        None \<Rightarrow> (s, Inl (Error ''got delete for a nonexistent object''))
      | Some ob \<Rightarrow>
          (case AddDocumentMutate NewDocumentZSet obj (- 1) of
             Inl e \<Rightarrow> (s, Inl (wrap ''could not add object to zset'' e))
           | Inr z \<Rightarrow>
               (case Store_Delete K ob s of
                  Inl e \<Rightarrow> (s, Inl (wrap ''could not delete object from store'' e))
                | Inr s' \<Rightarrow> (s', Inr z))))"

definition ConvertDeltaToZSet :: "'s k8s \<Rightarrow> 's source_cache \<Rightarrow> Delta \<Rightarrow> 's source_cache \<times> zset res" where
  "ConvertDeltaToZSet K sc delta =
     (let deltaObj = Object_DeepCopy K (d_Object delta);
          gvk = u_gvk K deltaObj;
          s = source_store K sc gvk;
          old = (case Store_Get K deltaObj s of Inr o' \<Rightarrow> o' | Inl _ \<Rightarrow> None);
          obj = RemoveUID K deltaObj;
          (s', r) = (case d_Type delta of
              Added \<Rightarrow> delta_add K obj s
            | Updated \<Rightarrow> delta_update K old obj s
            | Replaced \<Rightarrow> delta_update K old obj s
            | Upserted \<Rightarrow> delta_update K old obj s
            | Deleted \<Rightarrow> delta_delete K old obj s
            | _ \<Rightarrow> (s, Inl (Error ''unknown event'')))
      in (AList.update gvk s' sc, r))"

section \<open>From a Z-set to deltas\<close>

definition metadata_map :: "doc \<Rightarrow> doc res" where
  "metadata_map d =
     (case map_of d ''metadata'' of
        None \<Rightarrow> Inl (Error ''no metadata in object'')
      | Some (VMap m) \<Rightarrow> Inr m
      | Some _ \<Rightarrow> Inl (Error ''invalid metadata in object''))"

definition metadata_namespace :: "doc \<Rightarrow> string res" where
  "metadata_namespace m =
     (case map_of m ''namespace'' of
        None \<Rightarrow> Inr []
      | Some (VStr s) \<Rightarrow> Inr s
      | Some _ \<Rightarrow> Inl (Error ''metadata/namespace must be a string''))"

definition metadata_name_of :: "doc \<Rightarrow> string res" where
  "metadata_name_of m =
     (case map_of m ''name'' of
        None \<Rightarrow> Inl (Error ''missing metadata/name'')
      | Some (VStr s) \<Rightarrow> (if s = [] then Inl (Error ''empty metadata/name in result'') else Inr s)
      | Some _ \<Rightarrow> Inl (Error ''metadata/name must be a string''))"

definition target_object :: "'s k8s \<Rightarrow> GroupVersionKind \<Rightarrow> doc \<Rightarrow> object res" where
  "target_object K target d =
     bind (metadata_map d) (\<lambda>m.
     bind (metadata_namespace m) (\<lambda>ns.
     bind (metadata_name_of m) (\<lambda>name.
       Inr (u_set_namespace K ns (u_set_name K name (u_set_gvk K target (SetContent K New_object d)))))))"

definition delta_entry :: "'s k8s \<Rightarrow> GroupVersionKind \<Rightarrow> Delta list \<Rightarrow> DocumentEntry \<Rightarrow> Delta list res" where
  "delta_entry K target ds entry =
     (let n = Multiplicity entry in
      if ipos n then bind (target_object K target (Document entry)) (\<lambda>obj. Inr (ds @ [\<lparr>d_Object = obj, d_Type = Added\<rparr>]))
      else if ineg n then bind (target_object K target (Document entry)) (\<lambda>obj. Inr (ds @ [\<lparr>d_Object = obj, d_Type = Deleted\<rparr>]))
      else Inr ds)"

definition ConvertZSetToDelta :: "'s k8s \<Rightarrow> zset \<Rightarrow> GroupVersionKind \<Rightarrow> Delta list res" where
  "ConvertZSetToDelta K z target =
     bind (ListEntries z) (\<lambda>entries. foldM (delta_entry K target) [] entries)"

section \<open>Reconciliation\<close>

record keyOps =
  ko_adds :: "Delta list"
  ko_deletes :: "Delta list"
  ko_existedBefore :: bool

definition group_delta :: "'s k8s \<Rightarrow> 's \<Rightarrow> (string \<times> keyOps) list \<Rightarrow> Delta \<Rightarrow> (string \<times> keyOps) list res" where
  "group_delta K cache grouped d =
     (let key = ObjectKey K (d_Object d);
          ops = (case map_of grouped key of
              Some ops \<Rightarrow> ops
            | None \<Rightarrow> \<lparr>ko_adds = [], ko_deletes = [],
                ko_existedBefore = (case Store_Get K (d_Object d) cache of Inr (Some _) \<Rightarrow> True | _ \<Rightarrow> False)\<rparr>)
      in case d_Type d of
           Added \<Rightarrow> Inr (AList.update key (ops\<lparr>ko_adds := ko_adds ops @ [d]\<rparr>) grouped)
         | Deleted \<Rightarrow> Inr (AList.update key (ops\<lparr>ko_deletes := ko_deletes ops @ [d]\<rparr>) grouped)
         | _ \<Rightarrow> Inl (Error ''unexpected delta type in z-set''))"

text \<open>Step 2 for one key: the new cache and the delta to emit, if any.\<close>

definition reconcile_key :: "'s k8s \<Rightarrow> keyOps \<Rightarrow> 's \<Rightarrow> ('s \<times> Delta option) res" where
  "reconcile_key K ops cache =
     (let hasAdds = (ko_adds ops \<noteq> []); hasDeletes = (ko_deletes ops \<noteq> []);
          upsert = (let d = last (ko_adds ops) in
            bind (Store_Add K (d_Object d) cache) (\<lambda>c.
              Inr (c, Some \<lparr>d_Object = d_Object d, d_Type = Upserted\<rparr>)))
      in if hasAdds \<and> \<not> hasDeletes then upsert
         else if \<not> hasAdds \<and> hasDeletes then
           (if ko_existedBefore ops then
              (let d = hd (ko_deletes ops) in
               bind (Store_Delete K (d_Object d) cache) (\<lambda>c.
                 Inr (c, Some \<lparr>d_Object = d_Object d, d_Type = Deleted\<rparr>)))
            else Inr (cache, None))
         else if hasAdds \<and> hasDeletes \<and> ko_existedBefore ops then upsert
         else Inr (cache, None))"

fun reconcile_loop ::
    "'s k8s \<Rightarrow> (string \<times> keyOps) list \<Rightarrow> 's \<Rightarrow> (string \<times> Delta) list \<Rightarrow> string list \<Rightarrow> 's \<times> (string \<times> Delta) list res" where
  "reconcile_loop K grouped cache out [] = (cache, Inr out)"
| "reconcile_loop K grouped cache out (key # ks) =
     (case map_of grouped key of
        None \<Rightarrow> reconcile_loop K grouped cache out ks
      | Some ops \<Rightarrow>
          (case reconcile_key K ops cache of
             Inl e \<Rightarrow> (cache, Inl e)
           | Inr (cache', d) \<Rightarrow>
               reconcile_loop K grouped cache'
                 (case d of None \<Rightarrow> out | Some d \<Rightarrow> AList.update key d out) ks))"

definition deltas_of :: "DeltaType \<Rightarrow> (string \<times> Delta) list \<Rightarrow> string list \<Rightarrow> Delta list" where
  "deltas_of t deltaCache ks = filter (\<lambda>d. d_Type d = t) (List.map_filter (map_of deltaCache) ks)"

definition Reconcile ::
    "'s k8s \<Rightarrow> (nat \<Rightarrow> string list \<Rightarrow> string list) \<Rightarrow> 's \<Rightarrow> Delta list \<Rightarrow> 's \<times> Delta list res" where
  "Reconcile K sched cache ds =
     (case foldM (group_delta K cache) [] ds of
        Inl e \<Rightarrow> (cache, Inl e)
      | Inr grouped \<Rightarrow>
          (case reconcile_loop K grouped cache [] (sched 0 (map fst grouped)) of
             (cache', Inl e) \<Rightarrow> (cache', Inl e)
           | (cache', Inr deltaCache) \<Rightarrow>
               (cache', Inr (deltas_of Deleted deltaCache (sched 1 (map fst deltaCache))
                 @ deltas_of Upserted deltaCache (sched 2 (map fst deltaCache))))))"

end
