(* ===== verification/Pipelines.thy ===== *)
theory Pipelines
  imports Incremental Pipeline_Ops Adaptor
begin

text \<open>
  The pipeline engine (\<^verbatim>\<open>pkg/pipeline/pipeline.go\<close>): building a pipeline from its configuration,
  evaluating it on a delta of a source and synchronizing the target with the state of the
  sources.  The executor works on the pipeline's own graph, so its state is the graph; the
  snapshot executor's state is the snapshot graph.  The mutex that serializes \<^verbatim>\<open>Evaluate\<close> and
  \<^verbatim>\<open>Sync\<close> makes every call one step.
\<close>

record 's Pipeline =
  p_operator :: string
  p_config :: "PipelineOp list"
  p_graph :: ChainGraph
  p_sources :: "GroupVersionKind list"
  p_sourceCache :: "'s source_cache"
  p_target :: GroupVersionKind
  p_targetCache :: 's
  p_snapshotGraph :: "ChainGraph option"
  p_snapshotExecutor :: bool

section \<open>Construction\<close>

text \<open>The operators of the chain; a join is only legal as the first operation.\<close>

definition chain_op :: "libs \<Rightarrow> PipelineOp \<Rightarrow> operator res" where
  "chain_op L pipelineOp =
     (let expr = GetExpression pipelineOp; opType = PipelineOp_OpType pipelineOp in
      if opType = ''@select'' then Inr (NewSelectionOp L expr)
      else if opType = ''@project'' then Inr (NewProjectionOp L expr)
      else if opType = ''@unwind'' \<or> opType = ''@demux''
        then rewrap ''failed to instantiate unwind op'' (NewUnwindOp L expr)
      else if opType = ''@gather'' \<or> opType = ''@mux''
        then rewrap ''failed to instantiate gather op'' (NewGatherOp L expr)
      else Inl (Error ''unknown pipeline op''))"

definition add_sources :: "GroupVersionKind list \<Rightarrow> ChainGraph" where
  "add_sources sources = foldl (\<lambda>g src. fst (AddInput g (gvk_Kind src) NewDocumentZSet)) NewChainGraph sources"

definition add_ops :: "libs \<Rightarrow> ChainGraph \<Rightarrow> PipelineOp list \<Rightarrow> ChainGraph res" where
  "add_ops L g ops = foldM (\<lambda>g oper. bind (chain_op L oper) (\<lambda>o'. Inr (fst (AddToChain g o')))) g ops"

definition build_graph :: "libs \<Rightarrow> GroupVersionKind list \<Rightarrow> PipelineOp list \<Rightarrow> ChainGraph res" where
  "build_graph L sources config =
     (let hasJoin = (config \<noteq> [] \<and> PipelineOp_OpType (hd config) = ''@join'');
          g = add_sources sources
      in if hasJoin
         then add_ops L (fst (SetJoin g (NewJoinOp L (GetExpression (hd config)) sources))) (tl config)
         else add_ops L g config)"

definition Pipeline_New ::
    "'s k8s \<Rightarrow> libs \<Rightarrow> string \<Rightarrow> GroupVersionKind \<Rightarrow> GroupVersionKind list \<Rightarrow> PipelineOp list \<Rightarrow> 's Pipeline res" where
  "Pipeline_New K L oper target sources config =
     (let hasJoin = (config \<noteq> [] \<and> PipelineOp_OpType (hd config) = ''@join'') in
      if length sources > 1 \<and> \<not> hasJoin
      then Inl (Error ''invalid controller configuration: @join must be the first operation'')
      else
        bind (build_graph L sources config) (\<lambda>g.
        case Optimize g of
          (_, Inl e) \<Rightarrow> Inl (wrap ''failed to optimize pipeline'' e)
        | (g1, Inr _) \<Rightarrow>
            (case NewExecutor g1 of
               (_, Inl e) \<Rightarrow> Inl (wrap ''failed to create chain executor'' e)
             | (g2, Inr _) \<Rightarrow>
                 Inr \<lparr>p_operator = oper, p_config = config, p_graph = g2, p_sources = sources, p_sourceCache = [],
                      p_target = target, p_targetCache = Store_New K, p_snapshotGraph = None,
                      p_snapshotExecutor = False\<rparr>)))"

definition GetTargetCache :: "'s Pipeline \<Rightarrow> 's" where
  "GetTargetCache p = p_targetCache p"

definition GetSourceCache :: "'s Pipeline \<Rightarrow> GroupVersionKind \<Rightarrow> 's option" where
  "GetSourceCache p gvk = map_of (p_sourceCache p) gvk"

section \<open>Evaluation\<close>

text \<open>The last steps of both entry points: the Z-set becomes deltas that update the target cache.\<close>

definition reconcile_zset ::
    "'s k8s \<Rightarrow> (nat \<Rightarrow> string list \<Rightarrow> string list) \<Rightarrow> 's Pipeline \<Rightarrow> zset \<Rightarrow> 's Pipeline \<times> Delta list res" where
  "reconcile_zset K sched p res =
     (case ConvertZSetToDelta K res (p_target p) of
        Inl e \<Rightarrow> (p, Inl (wrap ''failed to convert DBSP zset to delta'' e))
      | Inr rawDeltas \<Rightarrow>
          (case Reconcile K sched (p_targetCache p) rawDeltas of
             (cache, r) \<Rightarrow> (p\<lparr>p_targetCache := cache\<rparr>, rewrap ''failed to update target cache from delta'' r)))"

definition input_deltas :: "'s k8s \<Rightarrow> 's Pipeline \<Rightarrow> Delta \<Rightarrow> zset \<Rightarrow> (string \<times> zset) list" where
  "input_deltas K p delta z =
     AList.update (u_kind K (d_Object delta)) z
       (foldl (\<lambda>m src. AList.update (gvk_Kind src) NewDocumentZSet m) [] (p_sources p))"

definition Pipeline_Evaluate ::
    "'s k8s \<Rightarrow> (nat \<Rightarrow> string list \<Rightarrow> string list) \<Rightarrow> 's Pipeline \<Rightarrow> Delta \<Rightarrow> 's Pipeline \<times> Delta list res" where
  "Pipeline_Evaluate K sched p delta =
     (case ConvertDeltaToZSet K (p_sourceCache p) delta of
        (sc, Inl e) \<Rightarrow> (p\<lparr>p_sourceCache := sc\<rparr>, Inl (wrap ''failed to convert delta to DBSP zset'' e))
      | (sc, Inr z) \<Rightarrow>
          (case Executor_Process (p_graph p) (input_deltas K p delta z) of
             (g, Inl e) \<Rightarrow>
               (p\<lparr>p_sourceCache := sc, p_graph := g\<rparr>, Inl (wrap ''failed to evaluate the DBSP graph'' e))
           | (g, Inr res) \<Rightarrow> reconcile_zset K sched (p\<lparr>p_sourceCache := sc, p_graph := g\<rparr>) res))"

section \<open>Synchronization\<close>

definition init_snapshot :: "'s Pipeline \<Rightarrow> 's Pipeline \<times> unit res" where
  "init_snapshot p =
     (if p_snapshotGraph p \<noteq> None then (p, Inr ())
      else case ToSnapshotGraph (p_graph p) of
        (g, Inl e) \<Rightarrow> (p\<lparr>p_graph := g\<rparr>, Inl (wrap ''failed to convert pipeline to snapshot mode'' e))
      | (g, Inr sg) \<Rightarrow>
          (case NewSnapshotExecutor sg of
             (sg', Inl e) \<Rightarrow>
               (p\<lparr>p_graph := g, p_snapshotGraph := Some sg'\<rparr>, Inl (wrap ''failed to create snapshot executor'' e))
           | (sg', Inr _) \<Rightarrow>
               (p\<lparr>p_graph := g, p_snapshotGraph := Some sg', p_snapshotExecutor := True\<rparr>, Inr ())))"

definition cache_zset :: "'s k8s \<Rightarrow> 's \<Rightarrow> zset res" where
  "cache_zset K s =
     foldM (\<lambda>z obj. AddDocumentMutate z (RemoveUID K (Object_DeepCopy K obj)) 1) NewDocumentZSet (Store_List K s)"

text \<open>\<^verbatim>\<open>p.snapshotGraph.GetInput(gvk.Kind).Name()\<close>, which dereferences nil for an unknown kind.\<close>

definition input_name :: "ChainGraph \<Rightarrow> string \<Rightarrow> string res" where
  "input_name g kind =
     bind (GetInput g kind) (\<lambda>i. case i of Some (InputOp name _) \<Rightarrow> Inr name | _ \<Rightarrow> Inl nil_dereference)"

definition source_zset ::
    "'s k8s \<Rightarrow> 's source_cache \<Rightarrow> ChainGraph \<Rightarrow> (string \<times> zset) list \<Rightarrow> GroupVersionKind \<Rightarrow> (string \<times> zset) list res" where
  "source_zset K sc g zsets gvk =
     bind (case map_of sc gvk of
             None \<Rightarrow> Inr NewDocumentZSet
           | Some s \<Rightarrow> rewrap ''failed to convert source cache to zset'' (cache_zset K s)) (\<lambda>z.
     bind (input_name g (gvk_Kind gvk)) (\<lambda>name. Inr (AList.update name z zsets)))"

definition snapshot_Process :: "'s Pipeline \<Rightarrow> ChainGraph \<Rightarrow> (string \<times> zset) list \<Rightarrow> ChainGraph \<times> zset res" where
  "snapshot_Process p g zsets =
     (if p_snapshotExecutor p then Executor_Process g zsets else (g, Inl nil_dereference))"

definition Pipeline_Sync ::
    "'s k8s \<Rightarrow> (nat \<Rightarrow> string list \<Rightarrow> string list) \<Rightarrow> 's Pipeline \<Rightarrow> 's Pipeline \<times> Delta list res" where
  "Pipeline_Sync K sched p0 =
     (case init_snapshot p0 of
        (p, Inl e) \<Rightarrow> (p, Inl e)
      | (p, Inr _) \<Rightarrow>
          (case p_snapshotGraph p of
             None \<Rightarrow> (p, Inl nil_dereference)
           | Some sg \<Rightarrow>
               (case foldM (source_zset K (p_sourceCache p) sg) [] (p_sources p) of
                  Inl e \<Rightarrow> (p, Inl e)
                | Inr zsets \<Rightarrow>
                    (case snapshot_Process p sg zsets of
                       (sg', Inl e) \<Rightarrow>
                         (p\<lparr>p_snapshotGraph := Some sg'\<rparr>, Inl (wrap ''failed to execute snapshot pipeline'' e))
                     | (sg', Inr requiredState) \<Rightarrow>
                         (let p' = p\<lparr>p_snapshotGraph := Some sg'\<rparr> in
                          case bind (rewrap ''failed to convert target cache to zset'' (cache_zset K (p_targetCache p)))
                              (\<lambda>currentState. rewrap ''failed to compute state diff''
                                 (Subtract requiredState (Some currentState))) of
                            Inl e \<Rightarrow> (p', Inl e)
                          | Inr diff \<Rightarrow> reconcile_zset K sched p' diff)))))"

end
