(* ===== verification/Store_Laws.thy ===== *)
theory Store_Laws
  imports ZSet_Laws Objects
begin

text \<open>
  What the development relies on of the Kubernetes libraries: the documented behaviour of the
  key-value store of client-go (\<open>store_laws\<close>) and of the accessors of \<^verbatim>\<open>Unstructured\<close>
  (\<open>accessor_laws\<close>).  The content of a store is the finite map from keys to objects that its
  list of objects describes.
\<close>

section \<open>The store\<close>

text \<open>\<^verbatim>\<open>MetaNamespaceKeyFunc\<close>: the namespace and the name, the name alone without a namespace.\<close>

definition store_key :: "'s k8s \<Rightarrow> object \<Rightarrow> string" where
  "store_key K obj =
     (if u_namespace K obj = [] then u_name K obj else u_namespace K obj @ ''/'' @ u_name K obj)"

definition contents :: "'s k8s \<Rightarrow> 's \<Rightarrow> string \<rightharpoonup> object" where
  "contents K s = map_of (map (\<lambda>obj. (store_key K obj, obj)) (ts_list K s))"

definition store_laws :: "'s k8s \<Rightarrow> bool" where
  "store_laws K \<longleftrightarrow>
     ts_list K (ts_new K) = [] \<and>
     (\<forall>s. distinct (map (store_key K) (ts_list K s))) \<and>
     (\<forall>s obj. ts_get K obj s = Inr (contents K s (store_key K obj))) \<and>
     (\<forall>s obj. \<exists>s'. ts_add K obj s = Inr s' \<and> contents K s' = (contents K s)(store_key K obj \<mapsto> obj)) \<and>
     (\<forall>s obj. \<exists>s'. ts_update K obj s = Inr s' \<and> contents K s' = (contents K s)(store_key K obj \<mapsto> obj)) \<and>
     (\<forall>s obj. \<exists>s'. ts_delete K obj s = Inr s' \<and> contents K s' = (contents K s)(store_key K obj := None))"

section \<open>Accessors\<close>

definition has_metadata :: "object \<Rightarrow> bool" where
  "has_metadata obj \<longleftrightarrow> (case map_of obj ''metadata'' of Some (VMap _) \<Rightarrow> True | _ \<Rightarrow> False)"

text \<open>
  Reading a field after setting it, for objects whose metadata is a map, and the string form of
  an object key.
\<close>

definition accessor_laws :: "'s k8s \<Rightarrow> bool" where
  "accessor_laws K \<longleftrightarrow>
     (\<forall>obj. ObjectKey K obj = u_namespace K obj @ ''/'' @ u_name K obj) \<and>
     (\<forall>obj gvk. u_name K (u_set_gvk K gvk obj) = u_name K obj \<and> u_namespace K (u_set_gvk K gvk obj) = u_namespace K obj
        \<and> (has_metadata obj \<longrightarrow> has_metadata (u_set_gvk K gvk obj))) \<and>
     (\<forall>obj n. has_metadata obj \<longrightarrow> u_name K (u_set_name K n obj) = n \<and>
        u_namespace K (u_set_name K n obj) = u_namespace K obj \<and> has_metadata (u_set_name K n obj)) \<and>
     (\<forall>obj n. has_metadata obj \<longrightarrow> u_namespace K (u_set_namespace K n obj) = n \<and>
        u_name K (u_set_namespace K n obj) = u_name K obj \<and> has_metadata (u_set_namespace K n obj)) \<and>
     (\<forall>obj. u_name K (u_remove_uid K obj) = u_name K obj \<and> u_namespace K (u_remove_uid K obj) = u_namespace K obj
        \<and> u_gvk K (u_remove_uid K obj) = u_gvk K obj)"

definition k8s_laws :: "'s k8s \<Rightarrow> bool" where
  "k8s_laws K \<longleftrightarrow> store_laws K \<and> accessor_laws K"

section \<open>Consequences\<close>

lemma accessor_lawsD:
  assumes "accessor_laws K"
  shows "ObjectKey K obj = u_namespace K obj @ ''/'' @ u_name K obj"
    and "u_name K (u_set_gvk K gvk obj) = u_name K obj" "u_namespace K (u_set_gvk K gvk obj) = u_namespace K obj"
    and "has_metadata obj \<Longrightarrow> has_metadata (u_set_gvk K gvk obj)"
    and "has_metadata obj \<Longrightarrow> u_name K (u_set_name K n obj) = n"
      "has_metadata obj \<Longrightarrow> u_namespace K (u_set_name K n obj) = u_namespace K obj"
      "has_metadata obj \<Longrightarrow> has_metadata (u_set_name K n obj)"
    and "has_metadata obj \<Longrightarrow> u_namespace K (u_set_namespace K n obj) = n"
      "has_metadata obj \<Longrightarrow> u_name K (u_set_namespace K n obj) = u_name K obj"
      "has_metadata obj \<Longrightarrow> has_metadata (u_set_namespace K n obj)"
    and "u_name K (u_remove_uid K obj) = u_name K obj" "u_namespace K (u_remove_uid K obj) = u_namespace K obj"
      "u_gvk K (u_remove_uid K obj) = u_gvk K obj"
  using assms unfolding accessor_laws_def by simp_all

lemma copy_key [simp]: "accessor_laws K \<Longrightarrow> store_key K (Object_DeepCopy K obj) = store_key K obj"
  by (simp add: store_key_def Object_DeepCopy_def accessor_lawsD)

lemma copy_ObjectKey [simp]: "accessor_laws K \<Longrightarrow> ObjectKey K (Object_DeepCopy K obj) = ObjectKey K obj"
  by (simp add: Object_DeepCopy_def accessor_lawsD)

lemma RemoveUID_accessors:
  assumes "accessor_laws K"
  shows "u_name K (RemoveUID K obj) = u_name K obj" "u_namespace K (RemoveUID K obj) = u_namespace K obj"
    "u_gvk K (RemoveUID K obj) = u_gvk K obj" "store_key K (RemoveUID K obj) = store_key K obj"
  using accessor_lawsD(11-13) [OF assms] by (simp_all add: RemoveUID_def Let_def store_key_def)

text \<open>Without slashes in names and namespaces the two kinds of keys identify the same objects.\<close>

definition slash_free :: "'s k8s \<Rightarrow> object \<Rightarrow> bool" where
  "slash_free K obj \<longleftrightarrow> CHR ''/'' \<notin> set (u_namespace K obj) \<and> CHR ''/'' \<notin> set (u_name K obj)"

lemma slash_unique:
  "CHR ''/'' \<notin> set a \<Longrightarrow> CHR ''/'' \<notin> set a' \<Longrightarrow> a @ CHR ''/'' # b = a' @ CHR ''/'' # b' \<longleftrightarrow> a = a' \<and> b = b'"
proof (induction a arbitrary: a')
  case Nil
  then show ?case by (cases a') auto
next
  case (Cons x a)
  then show ?case by (cases a') auto
qed

lemma no_slash: "CHR ''/'' \<notin> set c \<Longrightarrow> a @ CHR ''/'' # b \<noteq> c" "CHR ''/'' \<notin> set c \<Longrightarrow> c \<noteq> a @ CHR ''/'' # b"
  by auto

lemma keys_agree:
  assumes "accessor_laws K" and "slash_free K a" and "slash_free K b"
  shows "ObjectKey K a = ObjectKey K b \<longleftrightarrow> store_key K a = store_key K b"
proof -
  have "ObjectKey K a = ObjectKey K b \<longleftrightarrow> u_namespace K a = u_namespace K b \<and> u_name K a = u_name K b"
    using assms by (simp add: accessor_lawsD(1) slash_free_def slash_unique)
  also have "\<dots> \<longleftrightarrow> store_key K a = store_key K b"
    using assms(2,3) by (auto simp: store_key_def slash_free_def slash_unique no_slash)
  finally show ?thesis .
qed

text \<open>The operations of the repository's store on the content.\<close>

lemma contents_key: "contents K s key = Some obj \<Longrightarrow> store_key K obj = key"
  by (auto simp: contents_def dest: map_of_SomeD)

lemma contents_list: "store_laws K \<Longrightarrow> obj \<in> set (ts_list K s) \<longleftrightarrow> contents K s (store_key K obj) = Some obj"
  unfolding contents_def by (subst map_of_in [symmetric]) (auto simp: store_laws_def comp_def)

lemma Store_Get_contents: "store_laws K \<Longrightarrow>
    Store_Get K obj s = Inr (map_option (Object_DeepCopy K) (contents K s (store_key K obj)))"
  by (simp add: Store_Get_def store_laws_def)

lemma Store_New_contents: "store_laws K \<Longrightarrow> contents K (Store_New K) = Map.empty"
  by (simp add: Store_New_def contents_def store_laws_def)

lemma Store_Add_contents:
  assumes "k8s_laws K"
  shows "\<exists>s'. Store_Add K obj s = Inr s' \<and> contents K s' = (contents K s)(store_key K obj \<mapsto> Object_DeepCopy K obj)"
  using assms copy_key [of K obj] unfolding Store_Add_def k8s_laws_def store_laws_def by metis

lemma Store_Update_contents:
  assumes "k8s_laws K"
  shows "\<exists>s'. Store_Update K obj s = Inr s' \<and> contents K s' = (contents K s)(store_key K obj \<mapsto> Object_DeepCopy K obj)"
  using assms copy_key [of K obj] unfolding Store_Update_def k8s_laws_def store_laws_def by metis

lemma Store_Delete_contents:
  assumes "k8s_laws K"
  shows "\<exists>s'. Store_Delete K obj s = Inr s' \<and> contents K s' = (contents K s)(store_key K obj := None)"
  using assms by (auto simp: Store_Delete_def k8s_laws_def store_laws_def)

section \<open>Occurrences\<close>

text \<open>The multiplicities of the Z-set of the objects of a store.\<close>

definition store_occ :: "'s k8s \<Rightarrow> 's \<Rightarrow> string \<Rightarrow> gint" where
  "store_occ K s k = occ (ts_list K s) k"

definition hit_opt :: "object option \<Rightarrow> string \<Rightarrow> gint" where
  "hit_opt x k = (case x of None \<Rightarrow> 0 | Some obj \<Rightarrow> hit obj k)"

lemma hit_opt_simps [simp]: "hit_opt None k = 0" "hit_opt (Some obj) k = hit obj k"
  by (simp_all add: hit_opt_def)

lemma finite_dom_contents [simp]: "finite (dom (contents K s))"
  by (simp add: contents_def finite_dom_map_of)

lemma store_occ_sum:
  assumes "store_laws K"
  shows "store_occ K s k = (\<Sum>key \<in> dom (contents K s). hit_opt (contents K s key) k)"
proof -
  let ?xs = "map (\<lambda>obj. (store_key K obj, obj)) (ts_list K s)"
  have d: "distinct (map fst ?xs)" using assms by (simp add: store_laws_def comp_def)
  have "(\<Sum>key \<in> dom (map_of ?xs). hit_opt (map_of ?xs key) k) = (\<Sum>key \<in> set (map fst ?xs). hit_opt (map_of ?xs key) k)"
    by (simp only: dom_map_of_conv_image_fst set_map)
  also have "\<dots> = (\<Sum>key \<leftarrow> map fst ?xs. hit_opt (map_of ?xs key) k)"
    using d by (simp only: sum_list_distinct_conv_sum_set)
  also have "\<dots> = (\<Sum>e \<leftarrow> ?xs. hit_opt (map_of ?xs (fst e)) k)"
    by (simp only: map_map comp_def)
  also have "\<dots> = (\<Sum>e \<leftarrow> ?xs. hit (snd e) k)"
  proof (intro arg_cong [of _ _ sum_list] map_cong refl)
    fix e assume "e \<in> set ?xs"
    then have "map_of ?xs (fst e) = Some (snd e)" using d by (simp only: map_of_is_SomeI surjective_pairing [symmetric])
    then show "hit_opt (map_of ?xs (fst e)) k = hit (snd e) k" by simp
  qed
  also have "\<dots> = occ (ts_list K s) k"
    by (simp add: occ_def comp_def)
  finally show ?thesis by (simp add: store_occ_def contents_def)
qed

lemma store_occ_update:
  assumes "store_laws K" and "contents K s' = (contents K s)(key := x)"
  shows "store_occ K s' k = store_occ K s k - hit_opt (contents K s key) k + hit_opt x k"
proof -
  let ?D = "insert key (dom (contents K s))"
  have ext: "(\<Sum>key' \<in> dom m. hit_opt (m key') k) = (\<Sum>key' \<in> ?D. hit_opt (m key') k)" if "dom m \<subseteq> ?D" for m
    using that by (intro sum.mono_neutral_left) (auto simp: hit_opt_def split: option.splits)
  have "store_occ K s' k = (\<Sum>key' \<in> ?D. hit_opt (((contents K s)(key := x)) key') k)"
    using store_occ_sum [OF assms(1), of s' k] unfolding assms(2) by (rule trans) (rule ext, auto split: if_splits)
  also have "\<dots> = hit_opt x k + (\<Sum>key' \<in> ?D - {key}. hit_opt (contents K s key') k)"
    by (subst sum.remove [of _ key]) auto
  also have "(\<Sum>key' \<in> ?D - {key}. hit_opt (contents K s key') k) = store_occ K s k - hit_opt (contents K s key) k"
    using store_occ_sum [OF assms(1), of s k] ext [of "contents K s"]
    by (auto simp: sum_diff1 hit_opt_def domIff)
  finally show ?thesis by simp
qed

end
