(* ===== verification/Source_View.thy ===== *)
theory Source_View
  imports Adaptor Store_Laws Op_Base
begin

text \<open>
  The source caches as Z-sets.  For deltas that fit the cache, \<^verbatim>\<open>ConvertDeltaToZSet\<close> returns exactly
  the change of the multiplicities of the cached objects.
\<close>

text \<open>An object with a type, no generated identifier, and a document of the dictionary.\<close>

definition settled :: "'s k8s \<Rightarrow> (string \<Rightarrow> doc) \<Rightarrow> object \<Rightarrow> bool" where
  "settled K dk obj \<longleftrightarrow> Object_DeepCopy K obj = obj \<and> RemoveUID K obj = obj \<and> known dk obj"

definition sources_ok :: "'s k8s \<Rightarrow> (string \<Rightarrow> doc) \<Rightarrow> 's source_cache \<Rightarrow> bool" where
  "sources_ok K dk sc \<longleftrightarrow> (\<forall>gvk. \<forall>obj \<in> set (ts_list K (source_store K sc gvk)). settled K dk obj)"

text \<open>
  A delta that fits the cache: additions are new, deletions carry the cached object.  The other
  event types carry anything.
\<close>

definition fits :: "'s k8s \<Rightarrow> (string \<Rightarrow> doc) \<Rightarrow> 's source_cache \<Rightarrow> Delta \<Rightarrow> bool" where
  "fits K dk sc delta \<longleftrightarrow>
     (let obj = d_Object delta; old = contents K (source_store K sc (u_gvk K obj)) (store_key K obj) in
      Object_DeepCopy K obj = obj \<and> u_kind K obj = gvk_Kind (u_gvk K obj) \<and> settled K dk (RemoveUID K obj) \<and>
      (case d_Type delta of
         Added \<Rightarrow> old = None
       | Updated \<Rightarrow> True | Replaced \<Rightarrow> True | Upserted \<Rightarrow> True
       | Deleted \<Rightarrow> old = Some (RemoveUID K obj)
       | _ \<Rightarrow> False))"

lemma source_store_update:
  "source_store K (AList.update gvk s sc) gvk' = (if gvk' = gvk then s else source_store K sc gvk')"
  by (simp add: source_store_def update_conv')

lemma settled_contents:
  assumes "store_laws K" and "sources_ok K dk sc" and "contents K (source_store K sc gvk) x = Some obj"
  shows "settled K dk obj"
  using assms contents_list [OF assms(1), of obj "source_store K sc gvk"] contents_key [OF assms(3)]
  by (auto simp: sources_ok_def)

lemma sources_ok_update:
  assumes "store_laws K" and "sources_ok K dk sc" and "\<And>x obj. contents K s x = Some obj \<Longrightarrow> settled K dk obj"
  shows "sources_ok K dk (AList.update gvk s sc)"
  using assms contents_list [OF assms(1)] by (auto simp: sources_ok_def source_store_update)

lemma known_AddDocumentMutate:
  assumes "zknown dk z" and "known dk d"
  shows "\<exists>z'. AddDocumentMutate z d n = Inr z' \<and> zknown dk z' \<and> (\<forall>k. cnt z' k = cnt z k + n * hit d k)"
proof -
  from assms(2) obtain k where k: "computeJSONKey d = Inr k" by (auto simp: known_def)
  from zknown_adds [OF AddDocumentMutate_adds [OF zknown_wf [OF assms(1)] k] assms(1)] assms(2)
  show ?thesis by blast
qed

lemma known_opt_AddDocumentMutate:
  assumes "\<And>obj. old = Some obj \<Longrightarrow> known dk obj" and "known dk d"
  shows "\<exists>z. bind (case old of None \<Rightarrow> Inr NewDocumentZSet | Some ob \<Rightarrow> AddDocumentMutate NewDocumentZSet ob (- 1))
      (\<lambda>z. AddDocumentMutate z d 1) = Inr z \<and> zknown dk z \<and> (\<forall>k. cnt z k = hit d k - hit_opt old k)"
proof (cases old)
  case None
  then show ?thesis using known_AddDocumentMutate [OF zknown_New assms(2), of 1] by auto
next
  case (Some ob)
  from known_AddDocumentMutate [OF zknown_New assms(1) [OF Some], of "- 1"] obtain z1 where
    z1: "AddDocumentMutate NewDocumentZSet ob (- 1) = Inr z1" "zknown dk z1" "\<And>k. cnt z1 k = - hit ob k"
    by auto
  from known_AddDocumentMutate [OF z1(2) assms(2), of 1] Some z1(1,3) show ?thesis by auto
qed

text \<open>The three kinds of changes to one store: the Z-set is the change of the multiplicities.\<close>

definition changes :: "'s k8s \<Rightarrow> (string \<Rightarrow> doc) \<Rightarrow> 's \<Rightarrow> string \<Rightarrow> object option \<Rightarrow> 's \<times> zset res \<Rightarrow> bool" where
  "changes K dk s key x r \<longleftrightarrow>
     (\<exists>s' z. r = (s', Inr z) \<and> zknown dk z \<and> contents K s' = (contents K s)(key := x) \<and>
        (\<forall>k. cnt z k = hit_opt x k - hit_opt (contents K s key) k))"

lemma delta_add_changes:
  assumes "k8s_laws K" and "settled K dk obj" and "contents K s (store_key K obj) = None"
  shows "changes K dk s (store_key K obj) (Some obj) (delta_add K obj s)"
  using known_AddDocumentMutate [of dk NewDocumentZSet obj 1] Store_Add_contents [OF assms(1), of obj s] assms(2,3)
  by (auto simp: changes_def delta_add_def settled_def)

lemma delta_update_changes:
  assumes "k8s_laws K" and "settled K dk obj" and "\<And>ob. contents K s (store_key K obj) = Some ob \<Longrightarrow> known dk ob"
  shows "changes K dk s (store_key K obj) (Some obj) (delta_update K (contents K s (store_key K obj)) obj s)"
  using known_opt_AddDocumentMutate [of "contents K s (store_key K obj)" dk obj]
    Store_Update_contents [OF assms(1), of obj s] assms(2,3)
  by (auto simp: changes_def delta_update_def settled_def)

lemma delta_delete_changes:
  assumes "k8s_laws K" and "settled K dk obj" and "contents K s (store_key K obj) = Some obj"
  shows "changes K dk s (store_key K obj) None (delta_delete K (Some obj) obj s)"
  using known_AddDocumentMutate [of dk NewDocumentZSet obj "- 1"] Store_Delete_contents [OF assms(1), of obj s] assms(2,3)
  by (auto simp: changes_def delta_delete_def settled_def)

definition step_delta :: "'s k8s \<Rightarrow> DeltaType \<Rightarrow> object option \<Rightarrow> object \<Rightarrow> 's \<Rightarrow> 's \<times> zset res" where
  "step_delta K t old obj s =
     (case t of
        Added \<Rightarrow> delta_add K obj s
      | Updated \<Rightarrow> delta_update K old obj s
      | Replaced \<Rightarrow> delta_update K old obj s
      | Upserted \<Rightarrow> delta_update K old obj s
      | Deleted \<Rightarrow> delta_delete K old obj s
      | _ \<Rightarrow> (s, Inl (Error ''unknown event'')))"

lemma step_delta_changes:
  assumes "k8s_laws K" and "settled K dk obj" and "\<And>ob. contents K s (store_key K obj) = Some ob \<Longrightarrow> known dk ob"
    and "case t of Added \<Rightarrow> contents K s (store_key K obj) = None
       | Updated \<Rightarrow> True | Replaced \<Rightarrow> True | Upserted \<Rightarrow> True
       | Deleted \<Rightarrow> contents K s (store_key K obj) = Some obj
       | _ \<Rightarrow> False"
  shows "\<exists>x. changes K dk s (store_key K obj) x (step_delta K t (contents K s (store_key K obj)) obj s) \<and> (x = None \<or> x = Some obj)"
  using delta_add_changes [OF assms(1,2), of s] delta_update_changes [OF assms(1-3)] delta_delete_changes [OF assms(1,2), of s] assms(4)
  by (auto simp: step_delta_def split: DeltaType.splits)

theorem ConvertDeltaToZSet_change:
  assumes laws: "k8s_laws K" and ok: "sources_ok K dk sc" and fits: "fits K dk sc delta"
  defines "gvk \<equiv> u_gvk K (d_Object delta)"
  shows "\<exists>sc' z. ConvertDeltaToZSet K sc delta = (sc', Inr z) \<and> zknown dk z \<and> sources_ok K dk sc' \<and>
    (\<forall>gvk'. gvk' \<noteq> gvk \<longrightarrow> source_store K sc' gvk' = source_store K sc gvk') \<and>
    (\<forall>k. store_occ K (source_store K sc' gvk) k = store_occ K (source_store K sc gvk) k + cnt z k)"
proof -
  let ?obj = "RemoveUID K (d_Object delta)" and ?s = "source_store K sc gvk"
  let ?old = "contents K ?s (store_key K ?obj)"
  have sl: "store_laws K" "accessor_laws K" using laws by (auto simp: k8s_laws_def)
  have key: "store_key K ?obj = store_key K (d_Object delta)" by (rule RemoveUID_accessors [OF sl(2)])
  from fits have f: "Object_DeepCopy K (d_Object delta) = d_Object delta" "settled K dk ?obj"
    by (auto simp: fits_def Let_def)
  have guard: "case d_Type delta of Added \<Rightarrow> ?old = None | Updated \<Rightarrow> True | Replaced \<Rightarrow> True | Upserted \<Rightarrow> True
      | Deleted \<Rightarrow> ?old = Some ?obj | _ \<Rightarrow> False"
    using fits unfolding fits_def Let_def gvk_def key by blast
  have old_ok: "settled K dk ob" if "?old = Some ob" for ob
    using settled_contents [OF sl(1) ok that] .
  then have get: "Store_Get K (d_Object delta) ?s = Inr ?old"
    using Store_Get_contents [OF sl(1)] key by (cases ?old) (auto simp: settled_def)
  have conv: "ConvertDeltaToZSet K sc delta = (AList.update gvk (fst (step_delta K (d_Type delta) ?old ?obj ?s)) sc,
      snd (step_delta K (d_Type delta) ?old ?obj ?s))"
    unfolding ConvertDeltaToZSet_def Let_def f(1) gvk_def [symmetric] get sum.case by (simp add: step_delta_def case_prod_unfold)
  obtain x where r: "changes K dk ?s (store_key K ?obj) x (step_delta K (d_Type delta) ?old ?obj ?s)" "x = None \<or> x = Some ?obj"
    using step_delta_changes [OF laws f(2) _ guard] old_ok by (auto simp: settled_def)
  from r(1) obtain s' z where s': "step_delta K (d_Type delta) ?old ?obj ?s = (s', Inr z)" "zknown dk z" "contents K s' = (contents K ?s)(store_key K ?obj := x)"
      "\<And>k. cnt z k = hit_opt x k - hit_opt ?old k"
    by (auto simp: changes_def)
  have "sources_ok K dk (AList.update gvk s' sc)"
    using s'(3) r(2) f(2) settled_contents [OF sl(1) ok]
    by (intro sources_ok_update [OF sl(1) ok]) (auto split: if_splits)
  moreover have "store_occ K s' k = store_occ K ?s k + cnt z k" for k
    using store_occ_update [OF sl(1) s'(3), of k] s'(4) by simp
  ultimately show ?thesis using conv s'(1,2) by (auto simp: source_store_update)
qed

end
