(* ===== verification/Reconcile_Laws.thy ===== *)
theory Reconcile_Laws
  imports Adaptor Store_Laws
begin

text \<open>
  What \<^verbatim>\<open>Reconcile\<close> does to one key: the scenario table of its comment is the function \<open>verdict\<close>,
  and the grouping, the loop in an arbitrary order of keys and the final ordering of the
  output are shown to apply the verdict of every key to the target cache.
\<close>

section \<open>The scenario table\<close>

definition of_key :: "'s k8s \<Rightarrow> DeltaType \<Rightarrow> Delta list \<Rightarrow> string \<Rightarrow> Delta list" where
  "of_key K t ds key = filter (\<lambda>d. ObjectKey K (d_Object d) = key \<and> d_Type d = t) ds"

definition cached :: "'s k8s \<Rightarrow> 's \<Rightarrow> object \<Rightarrow> bool" where
  "cached K cache obj = (case Store_Get K obj cache of Inr (Some _) \<Rightarrow> True | _ \<Rightarrow> False)"

text \<open>Whether the object of a key is in the cache, asked for the first delta with that key.\<close>

definition prior :: "'s k8s \<Rightarrow> 's \<Rightarrow> Delta list \<Rightarrow> string \<Rightarrow> bool" where
  "prior K cache ds key =
     (case find (\<lambda>d. ObjectKey K (d_Object d) = key) ds of Some d \<Rightarrow> cached K cache (d_Object d) | None \<Rightarrow> False)"

definition verdict :: "Delta list \<Rightarrow> Delta list \<Rightarrow> bool \<Rightarrow> Delta option" where
  "verdict as dels existed =
     (if as \<noteq> [] \<and> (dels = [] \<or> existed) then Some \<lparr>d_Object = d_Object (last as), d_Type = Upserted\<rparr>
      else if as = [] \<and> dels \<noteq> [] \<and> existed then Some \<lparr>d_Object = d_Object (hd dels), d_Type = Deleted\<rparr>
      else None)"

definition key_verdict :: "'s k8s \<Rightarrow> 's \<Rightarrow> Delta list \<Rightarrow> string \<Rightarrow> Delta option" where
  "key_verdict K cache ds key = verdict (of_key K Added ds key) (of_key K Deleted ds key) (prior K cache ds key)"

definition apply_delta :: "'s k8s \<Rightarrow> (string \<rightharpoonup> object) \<Rightarrow> Delta \<Rightarrow> string \<rightharpoonup> object" where
  "apply_delta K m d =
     m(store_key K (d_Object d) := (if d_Type d = Upserted then Some (Object_DeepCopy K (d_Object d)) else None))"

text \<open>The order in which Go's runtime iterates over a map.\<close>

definition iteration_order :: "(nat \<Rightarrow> string list \<Rightarrow> string list) \<Rightarrow> bool" where
  "iteration_order sched \<longleftrightarrow> (\<forall>i ks. distinct ks \<longrightarrow> distinct (sched i ks) \<and> set (sched i ks) = set ks)"

section \<open>Grouping\<close>

definition key_ops :: "'s k8s \<Rightarrow> 's \<Rightarrow> Delta list \<Rightarrow> string \<Rightarrow> keyOps" where
  "key_ops K cache ds key =
     \<lparr>ko_adds = of_key K Added ds key, ko_deletes = of_key K Deleted ds key, ko_existedBefore = prior K cache ds key\<rparr>"

definition delta_keys :: "'s k8s \<Rightarrow> Delta list \<Rightarrow> string set" where
  "delta_keys K ds = (\<lambda>d. ObjectKey K (d_Object d)) ` set ds"

lemma find_append: "find P (xs @ ys) = (case find P xs of None \<Rightarrow> find P ys | Some x \<Rightarrow> Some x)"
  by (induction xs) simp_all

lemma key_ops_other: "ObjectKey K (d_Object d) \<noteq> key \<Longrightarrow> key_ops K cache (ds @ [d]) key = key_ops K cache ds key"
  by (simp add: key_ops_def of_key_def prior_def find_append split: option.splits)

lemma key_ops_none: "key \<notin> delta_keys K ds \<Longrightarrow> of_key K t ds key = []" "key \<notin> delta_keys K ds \<Longrightarrow> find (\<lambda>d. ObjectKey K (d_Object d) = key) ds = None"
  by (auto simp: of_key_def delta_keys_def filter_empty_conv find_None_iff)

lemma prior_seen: "key \<in> delta_keys K ds \<Longrightarrow> prior K cache (ds @ [d]) key = prior K cache ds key"
  by (auto simp: prior_def find_append delta_keys_def find_None_iff split: option.splits)

lemma grouped_deltas:
  assumes "\<forall>d \<in> set ds. d_Type d \<in> {Added, Deleted}"
  shows "\<exists>grouped. foldM (group_delta K cache) [] ds = Inr grouped \<and> distinct (map fst grouped) \<and>
    map_of grouped = (\<lambda>key. if key \<in> delta_keys K ds then Some (key_ops K cache ds key) else None)"
  using assms
proof (induction ds rule: rev_induct)
  case (snoc d ds)
  then obtain g where g: "foldM (group_delta K cache) [] ds = Inr g" "distinct (map fst g)"
      "map_of g = (\<lambda>key. if key \<in> delta_keys K ds then Some (key_ops K cache ds key) else None)"
    by auto
  let ?k = "ObjectKey K (d_Object d)"
  have ks: "delta_keys K (ds @ [d]) = insert ?k (delta_keys K ds)" by (simp add: delta_keys_def)
  have "group_delta K cache g d = Inr (AList.update ?k (key_ops K cache (ds @ [d]) ?k) g)"
  proof (cases "?k \<in> delta_keys K ds")
    case True
    then show ?thesis
      using snoc.prems g(3) prior_seen [OF True]
      by (auto simp: group_delta_def key_ops_def of_key_def Let_def split: DeltaType.splits)
  next
    case False
    then show ?thesis
      using snoc.prems g(3) key_ops_none [OF False]
      by (auto simp: group_delta_def key_ops_def of_key_def Let_def prior_def find_append cached_def split: DeltaType.splits)
  qed
  moreover have "map_of (AList.update ?k (key_ops K cache (ds @ [d]) ?k) g)
      = (\<lambda>key. if key \<in> delta_keys K (ds @ [d]) then Some (key_ops K cache (ds @ [d]) key) else None)"
    unfolding update_conv' g(3) ks by (auto simp: fun_eq_iff key_ops_other)
  ultimately show ?case
    using g(1,2) by (simp add: foldM_append distinct_update)
qed (simp add: delta_keys_def)

section \<open>The loop over the keys\<close>

lemma reconcile_key_verdict:
  assumes "k8s_laws K" and "v = verdict (ko_adds ops) (ko_deletes ops) (ko_existedBefore ops)"
  shows "\<exists>c. reconcile_key K ops cache = Inr (c, v) \<and>
    contents K c = (case v of None \<Rightarrow> contents K cache | Some d \<Rightarrow> apply_delta K (contents K cache) d)"
proof -
  obtain c1 where c1: "Store_Add K (d_Object (last (ko_adds ops))) cache = Inr c1"
      "contents K c1 = (contents K cache)(store_key K (d_Object (last (ko_adds ops))) \<mapsto> Object_DeepCopy K (d_Object (last (ko_adds ops))))"
    using Store_Add_contents [OF assms(1)] by blast
  obtain c2 where c2: "Store_Delete K (d_Object (hd (ko_deletes ops))) cache = Inr c2"
      "contents K c2 = (contents K cache)(store_key K (d_Object (hd (ko_deletes ops))) := None)"
    using Store_Delete_contents [OF assms(1)] by blast
  show ?thesis
    unfolding assms(2) reconcile_key_def verdict_def Let_def apply_delta_def
    using c1 c2 by (cases "ko_adds ops = []"; cases "ko_deletes ops = []"; cases "ko_existedBefore ops") simp_all
qed

definition verdict_of :: "(string \<times> keyOps) list \<Rightarrow> string \<Rightarrow> Delta option" where
  "verdict_of grouped key =
     (case map_of grouped key of
        None \<Rightarrow> None | Some ops \<Rightarrow> verdict (ko_adds ops) (ko_deletes ops) (ko_existedBefore ops))"

lemma reconcile_loop_verdicts:
  assumes "k8s_laws K" and "distinct ks" and "distinct (map fst out)" and "set ks \<inter> keys out = {}"
  shows "\<exists>c out'. reconcile_loop K grouped cache out ks = (c, Inr out') \<and> distinct (map fst out') \<and>
    contents K c = foldl (\<lambda>m key. case verdict_of grouped key of None \<Rightarrow> m | Some d \<Rightarrow> apply_delta K m d) (contents K cache) ks \<and>
    map_of out' = (\<lambda>key. if key \<in> set ks then verdict_of grouped key else map_of out key)"
  using assms(2-)
proof (induction ks arbitrary: cache out)
  case (Cons key ks)
  have fresh: "map_of out key = None" using Cons.prems(3) by (auto simp: map_of_eq_None_iff)
  show ?case
  proof (cases "map_of grouped key")
    case None
    then have "verdict_of grouped key = None" by (simp add: verdict_of_def)
    with Cons.IH [of out cache] Cons.prems None fresh show ?thesis by (auto simp: fun_eq_iff)
  next
    case (Some ops)
    then have v: "verdict_of grouped key = verdict (ko_adds ops) (ko_deletes ops) (ko_existedBefore ops)"
      by (simp add: verdict_of_def)
    from reconcile_key_verdict [OF assms(1) v] obtain c where c: "reconcile_key K ops cache = Inr (c, verdict_of grouped key)"
        "contents K c = (case verdict_of grouped key of None \<Rightarrow> contents K cache | Some d \<Rightarrow> apply_delta K (contents K cache) d)"
      by blast
    let ?out = "case verdict_of grouped key of None \<Rightarrow> out | Some d \<Rightarrow> AList.update key d out"
    have out: "distinct (map fst ?out)" "set ks \<inter> keys ?out = {}"
      "map_of ?out = (map_of out)(key := verdict_of grouped key)"
      using Cons.prems fresh by (auto simp: distinct_update update_conv' split: option.splits)
    from Cons.IH [OF _ out(1,2), of c] Cons.prems(1) obtain c' out' where
      c': "reconcile_loop K grouped c ?out ks = (c', Inr out')" "distinct (map fst out')"
      "contents K c' = foldl (\<lambda>m key. case verdict_of grouped key of None \<Rightarrow> m | Some d \<Rightarrow> apply_delta K m d) (contents K c) ks"
      "map_of out' = (\<lambda>key. if key \<in> set ks then verdict_of grouped key else map_of ?out key)"
      by auto
    have "map_of out' = (\<lambda>k. if k \<in> set (key # ks) then verdict_of grouped k else map_of out k)"
      unfolding c'(4) out(3) by auto
    with Some c c'(1-3) show ?thesis by (cases "verdict_of grouped key") simp_all
  qed
qed simp

section \<open>Reconcile\<close>

lemma key_verdictD:
  assumes "key_verdict K cache ds key = Some d"
  shows "ObjectKey K (d_Object d) = key" "d_Object d \<in> d_Object ` set ds" "d_Type d = Upserted \<or> d_Type d = Deleted"
proof -
  have mem: "ObjectKey K (d_Object e) = key \<and> d_Object e \<in> d_Object ` set ds" if "e \<in> set (of_key K t ds key)" for e t
    using that by (auto simp: of_key_def)
  from assms mem [OF last_in_set] mem [OF hd_in_set]
  show "ObjectKey K (d_Object d) = key" "d_Object d \<in> d_Object ` set ds" "d_Type d = Upserted \<or> d_Type d = Deleted"
    by (auto simp: key_verdict_def verdict_def split: if_splits)
qed

lemma verdict_of_grouped:
  assumes "map_of grouped = (\<lambda>key. if key \<in> delta_keys K ds then Some (key_ops K cache ds key) else None)"
  shows "verdict_of grouped = key_verdict K cache ds"
  using key_ops_none(1) by (auto simp: fun_eq_iff verdict_of_def assms key_ops_def key_verdict_def verdict_def)

lemma prior_iff:
  assumes "k8s_laws K" and "d \<in> set ds" and "\<forall>d \<in> set ds. slash_free K (d_Object d)"
  shows "prior K cache ds (ObjectKey K (d_Object d)) \<longleftrightarrow> contents K cache (store_key K (d_Object d)) \<noteq> None"
proof -
  obtain e where e: "find (\<lambda>e. ObjectKey K (d_Object e) = ObjectKey K (d_Object d)) ds = Some e"
      "e \<in> set ds" "ObjectKey K (d_Object e) = ObjectKey K (d_Object d)"
    using assms(2) by (metis (mono_tags, lifting) find_None_iff find_Some_iff nth_mem not_None_eq)
  have "store_key K (d_Object e) = store_key K (d_Object d)"
    using keys_agree [of K "d_Object e" "d_Object d"] assms e(2,3) by (simp add: k8s_laws_def)
  with e(1) assms(1) show ?thesis
    by (auto simp: prior_def cached_def Store_Get_contents k8s_laws_def split: option.splits)
qed

definition effect :: "'s k8s \<Rightarrow> Delta \<Rightarrow> object option" where
  "effect K d = (if d_Type d = Upserted then Some (Object_DeepCopy K (d_Object d)) else None)"

lemma apply_delta_effect: "apply_delta K m d = m(store_key K (d_Object d) := effect K d)"
  by (simp add: apply_delta_def effect_def)

lemma fold_other:
  assumes "\<And>key d. key \<in> set ks \<Longrightarrow> v key = Some d \<Longrightarrow> store_key K (d_Object d) \<noteq> x"
  shows "foldl (\<lambda>m key. case v key of None \<Rightarrow> m | Some d \<Rightarrow> apply_delta K m d) m ks x = m x"
  using assms
proof (induction ks arbitrary: m)
  case (Cons key ks)
  then have "(case v key of None \<Rightarrow> m | Some d \<Rightarrow> apply_delta K m d) x = m x"
    by (auto simp: apply_delta_effect split: option.splits)
  moreover have "foldl (\<lambda>m key. case v key of None \<Rightarrow> m | Some d \<Rightarrow> apply_delta K m d) m' ks x = m' x" for m'
    by (rule Cons.IH) (use Cons.prems in auto)
  ultimately show ?case by simp
qed simp

lemma fold_effect:
  assumes "distinct ks" and "key \<in> set ks" and "v key = Some d"
    and inj: "\<And>key' d'. key' \<in> set ks \<Longrightarrow> v key' = Some d' \<Longrightarrow> store_key K (d_Object d') = store_key K (d_Object d) \<Longrightarrow> key' = key"
  shows "foldl (\<lambda>m key. case v key of None \<Rightarrow> m | Some d \<Rightarrow> apply_delta K m d) m ks (store_key K (d_Object d)) = effect K d"
proof -
  obtain xs ys where ks: "ks = xs @ key # ys" using assms(2) by (meson split_list)
  have "foldl (\<lambda>m key. case v key of None \<Rightarrow> m | Some d \<Rightarrow> apply_delta K m d) m' ys (store_key K (d_Object d)) = m' (store_key K (d_Object d))" for m'
    by (rule fold_other) (use inj assms(1) ks in auto)
  with assms(3) ks show ?thesis by (simp add: apply_delta_effect)
qed

lemma deltas_of_all:
  assumes "iteration_order sched" and "distinct (map fst dc)" and "\<And>key d. map_of dc key = Some d \<Longrightarrow> h d = key"
  shows "set (deltas_of t dc (sched i (map fst dc))) = {d \<in> ran (map_of dc). d_Type d = t}"
    and "distinct (map h (deltas_of t dc (sched i (map fst dc))))"
proof -
  let ?ks = "sched i (map fst dc)"
  have ks: "distinct ?ks" "set ?ks = keys dc" using assms(1,2) by (auto simp: iteration_order_def)
  show "set (deltas_of t dc ?ks) = {d \<in> ran (map_of dc). d_Type d = t}"
  proof -
    have "set (List.map_filter (map_of dc) ?ks) = {d. \<exists>key \<in> keys dc. map_of dc key = Some d}"
      unfolding ks(2) [symmetric] by (force simp: map_filter_def image_iff)
    also have "\<dots> = ran (map_of dc)"
      by (auto simp: ran_def) (metis fst_conv map_of_SomeD)
    finally show ?thesis by (auto simp: deltas_of_def)
  qed
  have "map h (List.map_filter (map_of dc) ks) = filter (\<lambda>k. map_of dc k \<noteq> None) ks" for ks
    by (induction ks) (auto simp: map_filter_simps assms(3) split: option.splits)
  then have "distinct (map h (List.map_filter (map_of dc) ?ks))" using ks(1) by simp
  then show "distinct (map h (deltas_of t dc ?ks))"
    by (simp add: deltas_of_def distinct_map_filter)
qed

theorem Reconcile_verdicts:
  assumes laws: "k8s_laws K" and sched: "iteration_order sched"
    and ds: "\<forall>d \<in> set ds. d_Type d \<in> {Added, Deleted} \<and> slash_free K (d_Object d)"
  shows "\<exists>c dels ups. Reconcile K sched cache ds = (c, Inr (dels @ ups)) \<and>
    (\<forall>d. d \<in> set (dels @ ups) \<longleftrightarrow> (\<exists>key. key_verdict K cache ds key = Some d)) \<and>
    (\<forall>d \<in> set dels. d_Type d = Deleted) \<and> (\<forall>d \<in> set ups. d_Type d = Upserted) \<and>
    distinct (map (\<lambda>d. ObjectKey K (d_Object d)) (dels @ ups)) \<and>
    (\<forall>d \<in> set (dels @ ups). contents K c (store_key K (d_Object d)) = effect K d) \<and>
    (\<forall>x. x \<notin> (\<lambda>d. store_key K (d_Object d)) ` set (dels @ ups) \<longrightarrow> contents K c x = contents K cache x)"
proof -
  let ?v = "key_verdict K cache ds" and ?h = "\<lambda>d. ObjectKey K (d_Object d)"
  from grouped_deltas [of ds K cache] ds obtain g where g: "foldM (group_delta K cache) [] ds = Inr g"
      "distinct (map fst g)" "map_of g = (\<lambda>key. if key \<in> delta_keys K ds then Some (key_ops K cache ds key) else None)"
    by auto
  have v: "verdict_of g = ?v" by (rule verdict_of_grouped [OF g(3)])
  let ?ks = "sched 0 (map fst g)"
  have ks: "distinct ?ks" "set ?ks = keys g" using sched g(2) by (auto simp: iteration_order_def)
  obtain c out where c: "reconcile_loop K g cache [] ?ks = (c, Inr out)" "distinct (map fst out)"
      "contents K c = foldl (\<lambda>m key. case ?v key of None \<Rightarrow> m | Some d \<Rightarrow> apply_delta K m d) (contents K cache) ?ks"
      "map_of out = (\<lambda>key. if key \<in> set ?ks then ?v key else map_of [] key)"
    using reconcile_loop_verdicts [OF laws ks(1), of "[]" g cache] unfolding v by auto
  have "?v key = None" if "key \<notin> set ?ks" for key
    using that unfolding v [symmetric] ks(2) by (simp add: verdict_of_def map_of_eq_None_iff [symmetric])
  then have out: "map_of out = ?v" using c(4) by (auto simp: fun_eq_iff)
  have in_ks: "key \<in> set ?ks" if "?v key = Some d" for key d
    using that \<open>\<And>key. key \<notin> set ?ks \<Longrightarrow> ?v key = None\<close> by (metis option.distinct(1))
  let ?dels = "deltas_of Deleted out (sched 1 (map fst out))" and ?ups = "deltas_of Upserted out (sched 2 (map fst out))"
  have hk: "?h d = key" if "map_of out key = Some d" for key d using that out key_verdictD(1) by metis
  note all = deltas_of_all [OF sched c(2) hk]
  have mem: "d \<in> set (?dels @ ?ups) \<longleftrightarrow> (\<exists>key. ?v key = Some d)" for d
    using all(1) key_verdictD(3) [of K cache ds _ d] by (auto simp: out ran_def)
  have acc: "accessor_laws K" using laws by (simp add: k8s_laws_def)
  have sf: "slash_free K (d_Object d)" if "?v key = Some d" for key d
    using key_verdictD(2) [OF that] ds by auto
  have inj: "key' = key" if "?v key' = Some d'" "?v key = Some d" "store_key K (d_Object d') = store_key K (d_Object d)" for key' d' key d
    using keys_agree [OF acc sf [OF that(1)] sf [OF that(2)]] that(3) key_verdictD(1) that(1,2) by metis
  show ?thesis
  proof (intro exI conjI allI ballI impI)
    show "Reconcile K sched cache ds = (c, Inr (?dels @ ?ups))" using g(1) c(1) by (simp add: Reconcile_def)
    show "d \<in> set (?dels @ ?ups) \<longleftrightarrow> (\<exists>key. ?v key = Some d)" for d by (rule mem)
    show "d_Type d = Deleted" if "d \<in> set ?dels" for d using that all(1) by simp
    show "d_Type d = Upserted" if "d \<in> set ?ups" for d using that all(1) by simp
    have "False" if "d \<in> set ?dels" "e \<in> set ?ups" "?h d = ?h e" for d e
    proof -
      from that(1) obtain k1 where k1: "map_of out k1 = Some d" "d_Type d = Deleted" using all(1) by (auto simp: ran_def)
      from that(2) obtain k2 where k2: "map_of out k2 = Some e" "d_Type e = Upserted" using all(1) by (auto simp: ran_def)
      from k1 k2 that(3) hk have "k1 = k2" by metis
      with k1 k2 show False by simp
    qed
    then show "distinct (map ?h (?dels @ ?ups))"
      using all(2) [where t = Deleted and i = 1] all(2) [where t = Upserted and i = 2] by (auto simp: image_iff)
    show "contents K c (store_key K (d_Object d)) = effect K d" if "d \<in> set (?dels @ ?ups)" for d
    proof -
      from that mem obtain key where key: "?v key = Some d" by blast
      show ?thesis unfolding c(3) by (rule fold_effect [where key = key]) (use ks(1) in_ks key inj in auto)
    qed
    show "contents K c x = contents K cache x" if "x \<notin> (\<lambda>d. store_key K (d_Object d)) ` set (?dels @ ?ups)" for x
      unfolding c(3) by (rule fold_other) (use that mem in blast)
  qed
qed

end
