(* ===== verification/Target_View.thy ===== *)
theory Target_View
  imports Reconcile_Laws Op_Base
begin

text \<open>
  The target cache as a view.  A view is a multiplicity function whose documents have valid
  metadata, occur once and have different primary keys.  A cache tracks a view when it holds
  exactly the target objects of its documents; converting and reconciling the change from one
  view to another moves a cache that tracks the first to one that tracks the second.
\<close>

definition view_obj :: "'s k8s \<Rightarrow> (string \<Rightarrow> doc) \<Rightarrow> GroupVersionKind \<Rightarrow> string \<Rightarrow> object" where
  "view_obj K dk target k = (case target_object K target (dk k) of Inr obj \<Rightarrow> obj | Inl _ \<Rightarrow> [])"

definition is_view :: "'s k8s \<Rightarrow> (string \<Rightarrow> doc) \<Rightarrow> GroupVersionKind \<Rightarrow> (string \<Rightarrow> gint) \<Rightarrow> bool" where
  "is_view K dk target V \<longleftrightarrow>
     (\<forall>k. V k = 0 \<or> V k = 1) \<and>
     (\<forall>k. V k \<noteq> 0 \<longrightarrow> is_ok (target_object K target (dk k)) \<and> slash_free K (view_obj K dk target k)) \<and>
     (\<forall>k k'. V k \<noteq> 0 \<longrightarrow> V k' \<noteq> 0 \<longrightarrow>
        store_key K (view_obj K dk target k) = store_key K (view_obj K dk target k') \<longrightarrow> k = k')"

definition tracks :: "'s k8s \<Rightarrow> (string \<Rightarrow> doc) \<Rightarrow> GroupVersionKind \<Rightarrow> 's \<Rightarrow> (string \<Rightarrow> gint) \<Rightarrow> bool" where
  "tracks K dk target s V \<longleftrightarrow>
     (\<forall>x obj. contents K s x = Some obj \<longleftrightarrow>
        (\<exists>k. V k \<noteq> 0 \<and> store_key K (view_obj K dk target k) = x \<and> obj = Object_DeepCopy K (view_obj K dk target k)))"

section \<open>From the Z-set to deltas\<close>

definition change_delta :: "'s k8s \<Rightarrow> (string \<Rightarrow> doc) \<Rightarrow> GroupVersionKind \<Rightarrow> string \<times> gint \<Rightarrow> Delta" where
  "change_delta K dk target e =
     \<lparr>d_Object = view_obj K dk target (fst e), d_Type = (if ipos (snd e) then Added else Deleted)\<rparr>"

lemma view_obj_ok: "is_ok (target_object K target (dk k)) \<Longrightarrow> target_object K target (dk k) = Inr (view_obj K dk target k)"
  by (auto simp: view_obj_def is_ok_iff)

lemma ConvertZSetToDelta_known:
  assumes "zknown dk z" and "\<And>k. cnt z k \<noteq> 0 \<Longrightarrow> is_ok (target_object K target (dk k))"
  shows "ConvertZSetToDelta K z target = Inr (map (change_delta K dk target) (counts z))"
proof -
  have entry: "delta_entry K target ds \<lparr>Document = DeepCopyDocument (zdoc z (fst e)), Multiplicity = snd e\<rparr>
      = Inr (ds @ [change_delta K dk target e])" if "e \<in> set (counts z)" for ds e
  proof -
    have e: "snd e \<noteq> 0" "cnt z (fst e) = snd e" "fst e \<in> keys (counts z)"
      using that cnt_mem [of z "fst e" "snd e"] assms(1) by (auto simp: zknown_wf)
    have "target_object K target (zdoc z (fst e)) = Inr (view_obj K dk target (fst e))"
      using zknown_zdoc [OF assms(1) e(3)] view_obj_ok [of K target dk "fst e"] assms(2) [of "fst e"] e(1,2) by simp
    moreover have "\<not> ipos (snd e) \<Longrightarrow> ineg (snd e)" using e(1) by (simp add: linorder_not_less less_le)
    ultimately show ?thesis by (auto simp: delta_entry_def Let_def change_delta_def)
  qed
  have "foldM (delta_entry K target) ds (map (\<lambda>(key, mult). \<lparr>Document = DeepCopyDocument (zdoc z key), Multiplicity = mult\<rparr>) es)
      = Inr (ds @ map (change_delta K dk target) es)" if "set es \<subseteq> set (counts z)" for es ds
    using that by (induction es arbitrary: ds) (auto simp: entry [of "(_, _)", simplified])
  then show ?thesis by (simp add: ConvertZSetToDelta_def ListEntries_def)
qed

section \<open>Reconciling a change of the view\<close>

lemma is_viewD:
  assumes "is_view K dk target V"
  shows "V k = 0 \<or> V k = 1" "V k \<noteq> 0 \<Longrightarrow> is_ok (target_object K target (dk k))"
    "V k \<noteq> 0 \<Longrightarrow> slash_free K (view_obj K dk target k)"
    "V k \<noteq> 0 \<Longrightarrow> V k' \<noteq> 0 \<Longrightarrow>
      store_key K (view_obj K dk target k) = store_key K (view_obj K dk target k') \<Longrightarrow> k = k'"
  using assms by (auto simp: is_view_def)

text \<open>The deltas of a change between two views, key by key.\<close>

lemma change_deltas:
  assumes "zknown dk z" and "is_view K dk target V" and "is_view K dk target V'" and "\<And>k. cnt z k = V' k - V k"
  shows "d \<in> set (map (change_delta K dk target) (counts z)) \<longleftrightarrow>
    (\<exists>k. V' k \<noteq> 0 \<and> V k = 0 \<and> d = \<lparr>d_Object = view_obj K dk target k, d_Type = Added\<rparr>) \<or>
    (\<exists>k. V' k = 0 \<and> V k \<noteq> 0 \<and> d = \<lparr>d_Object = view_obj K dk target k, d_Type = Deleted\<rparr>)"
proof -
  have "d \<in> set (map (change_delta K dk target) (counts z)) \<longleftrightarrow> (\<exists>k. cnt z k \<noteq> 0 \<and> d = change_delta K dk target (k, cnt z k))"
    using cnt_mem [of z] assms(1) by (force simp: zknown_wf image_iff)
  also have "\<dots> \<longleftrightarrow> (\<exists>k. V' k \<noteq> V k \<and> d = change_delta K dk target (k, V' k - V k))" by (simp add: assms(4))
  also have "\<dots> \<longleftrightarrow> (\<exists>k. (V' k \<noteq> 0 \<and> V k = 0 \<and> d = \<lparr>d_Object = view_obj K dk target k, d_Type = Added\<rparr>) \<or>
      (V' k = 0 \<and> V k \<noteq> 0 \<and> d = \<lparr>d_Object = view_obj K dk target k, d_Type = Deleted\<rparr>))"
  proof (rule ex_cong1)
    fix k
    show "(V' k \<noteq> V k \<and> d = change_delta K dk target (k, V' k - V k)) \<longleftrightarrow>
      (V' k \<noteq> 0 \<and> V k = 0 \<and> d = \<lparr>d_Object = view_obj K dk target k, d_Type = Added\<rparr>) \<or>
      (V' k = 0 \<and> V k \<noteq> 0 \<and> d = \<lparr>d_Object = view_obj K dk target k, d_Type = Deleted\<rparr>)"
      using is_viewD(1) [OF assms(2), of k] is_viewD(1) [OF assms(3), of k]
      by (elim disjE) (simp_all add: change_delta_def)
  qed
  finally show ?thesis by (simp only: ex_disj_distrib)
qed

text \<open>A cache that tracks a view, and the Z-set of a change to another view.\<close>

definition view_change ::
    "'s k8s \<Rightarrow> (string \<Rightarrow> doc) \<Rightarrow> GroupVersionKind \<Rightarrow> 's \<Rightarrow> zset \<Rightarrow> (string \<Rightarrow> gint) \<Rightarrow> (string \<Rightarrow> gint) \<Rightarrow> bool" where
  "view_change K dk target cache z V V' \<longleftrightarrow> k8s_laws K \<and> zknown dk z \<and> is_view K dk target V \<and> is_view K dk target V' \<and>
     tracks K dk target cache V \<and> (\<forall>k. cnt z k = V' k - V k)"

lemma view_change_keys:
  assumes "view_change K dk target cache z V V'" and "V k \<noteq> 0 \<or> V' k \<noteq> 0" and "V k' \<noteq> 0 \<or> V' k' \<noteq> 0"
  shows "ObjectKey K (view_obj K dk target k) = ObjectKey K (view_obj K dk target k') \<longleftrightarrow>
    store_key K (view_obj K dk target k) = store_key K (view_obj K dk target k')"
  using assms by (intro keys_agree) (auto simp: view_change_def k8s_laws_def dest: is_viewD(3))

lemma view_change_mem:
  assumes "view_change K dk target cache z V V'"
  shows "e \<in> set (of_key K Added (map (change_delta K dk target) (counts z)) key) \<longleftrightarrow>
      (\<exists>k. V' k \<noteq> 0 \<and> V k = 0 \<and> ObjectKey K (view_obj K dk target k) = key \<and>
        e = \<lparr>d_Object = view_obj K dk target k, d_Type = Added\<rparr>)" (is ?adds)
    and "e \<in> set (of_key K Deleted (map (change_delta K dk target) (counts z)) key) \<longleftrightarrow>
      (\<exists>k. V' k = 0 \<and> V k \<noteq> 0 \<and> ObjectKey K (view_obj K dk target k) = key \<and>
        e = \<lparr>d_Object = view_obj K dk target k, d_Type = Deleted\<rparr>)" (is ?dels)
    and "\<forall>d \<in> set (map (change_delta K dk target) (counts z)). d_Type d \<in> {Added, Deleted} \<and> slash_free K (d_Object d)" (is ?types)
proof -
  from assms have v: "zknown dk z" "is_view K dk target V" "is_view K dk target V'" "\<And>k. cnt z k = V' k - V k"
    by (auto simp: view_change_def)
  note mem = change_deltas [OF v]
  show ?adds ?dels unfolding of_key_def by (auto simp: mem simp del: set_map)
  show ?types
    using is_viewD(3) [OF v(2)] is_viewD(3) [OF v(3)] by (fastforce simp: mem simp del: set_map)
qed

lemma view_change_prior:
  assumes "view_change K dk target cache z V V'" and "of_key K Deleted (map (change_delta K dk target) (counts z)) key \<noteq> []"
  shows "prior K cache (map (change_delta K dk target) (counts z)) key"
proof -
  let ?ds = "map (change_delta K dk target) (counts z)"
  obtain e where e: "e \<in> set (of_key K Deleted ?ds key)" using assms(2) last_in_set by blast
  then obtain k where k: "V k \<noteq> 0" "ObjectKey K (view_obj K dk target k) = key" "d_Object e = view_obj K dk target k"
    using view_change_mem(2) [OF assms(1)] by auto
  have "e \<in> set ?ds" using e by (simp add: of_key_def)
  with prior_iff [of K e ?ds cache] view_change_mem(3) [OF assms(1)] assms(1) k show ?thesis
    by (auto simp: view_change_def tracks_def)
qed

text \<open>
  The verdicts: new and changed documents are upserted, documents of which no version is left
  are deleted.
\<close>

lemma verdict_new:
  assumes c: "view_change K dk target cache z V V'" and k: "V' k \<noteq> 0" "V k = 0"
  shows "key_verdict K cache (map (change_delta K dk target) (counts z)) (ObjectKey K (view_obj K dk target k))
    = Some \<lparr>d_Object = view_obj K dk target k, d_Type = Upserted\<rparr>"
proof -
  let ?as = "of_key K Added (map (change_delta K dk target) (counts z)) (ObjectKey K (view_obj K dk target k))"
  have "\<lparr>d_Object = view_obj K dk target k, d_Type = Added\<rparr> \<in> set ?as"
    using k by (auto simp: view_change_mem(1) [OF c])
  then have ne: "?as \<noteq> []" by auto
  then obtain k' where k': "V' k' \<noteq> 0" "ObjectKey K (view_obj K dk target k') = ObjectKey K (view_obj K dk target k)"
      "d_Object (last ?as) = view_obj K dk target k'"
    using view_change_mem(1) [OF c] last_in_set [OF ne] by auto
  have "k' = k"
    using view_change_keys [OF c, of k' k] k k' c by (auto simp: view_change_def dest: is_viewD(4))
  with ne k'(3) view_change_prior [OF c] show ?thesis by (auto simp: key_verdict_def verdict_def)
qed

lemma verdict_gone:
  assumes c: "view_change K dk target cache z V V'" and k: "V k \<noteq> 0"
    and none: "\<And>k'. V' k' \<noteq> 0 \<Longrightarrow> store_key K (view_obj K dk target k') \<noteq> store_key K (view_obj K dk target k)"
  shows "key_verdict K cache (map (change_delta K dk target) (counts z)) (ObjectKey K (view_obj K dk target k))
    = Some \<lparr>d_Object = view_obj K dk target k, d_Type = Deleted\<rparr>"
proof -
  let ?ds = "of_key K Deleted (map (change_delta K dk target) (counts z)) (ObjectKey K (view_obj K dk target k))"
    and ?as = "of_key K Added (map (change_delta K dk target) (counts z)) (ObjectKey K (view_obj K dk target k))"
  have "V' k = 0" using none by blast
  with k have "\<lparr>d_Object = view_obj K dk target k, d_Type = Deleted\<rparr> \<in> set ?ds"
    by (auto simp: view_change_mem(2) [OF c])
  then have ne: "?ds \<noteq> []" by auto
  have "e \<notin> set ?as" for e
    using view_change_mem(1) [OF c, of e] view_change_keys [OF c, of _ k] k none by blast
  then have "?as = []" using last_in_set by blast
  obtain k' where k': "V k' \<noteq> 0" "ObjectKey K (view_obj K dk target k') = ObjectKey K (view_obj K dk target k)"
      "d_Object (hd ?ds) = view_obj K dk target k'"
    using view_change_mem(2) [OF c] hd_in_set [OF ne] by auto
  have "k' = k"
    using view_change_keys [OF c, of k' k] k k' c by (auto simp: view_change_def dest: is_viewD(4))
  with ne \<open>?as = []\<close> k'(3) view_change_prior [OF c] show ?thesis by (auto simp: key_verdict_def verdict_def)
qed

lemma verdict_cases:
  assumes c: "view_change K dk target cache z V V'"
    and v: "key_verdict K cache (map (change_delta K dk target) (counts z)) key = Some d"
  obtains (new) k where "V' k \<noteq> 0" "V k = 0" "d = \<lparr>d_Object = view_obj K dk target k, d_Type = Upserted\<rparr>"
  | (gone) k where "V k \<noteq> 0" "\<And>k'. V' k' \<noteq> 0 \<Longrightarrow> store_key K (view_obj K dk target k') \<noteq> store_key K (view_obj K dk target k)"
      "d = \<lparr>d_Object = view_obj K dk target k, d_Type = Deleted\<rparr>"
proof -
  let ?ds = "of_key K Deleted (map (change_delta K dk target) (counts z)) key"
    and ?as = "of_key K Added (map (change_delta K dk target) (counts z)) key"
  show ?thesis
  proof (cases "?as = []")
    case False
    then obtain k where "V' k \<noteq> 0" "V k = 0" "ObjectKey K (view_obj K dk target k) = key"
      using view_change_mem(1) [OF c] last_in_set by blast
    with verdict_new [OF c, of k] v new show ?thesis by auto
  next
    case True
    with v have "?ds \<noteq> []" by (auto simp: key_verdict_def verdict_def)
    then obtain k where k: "V' k = 0" "V k \<noteq> 0" "ObjectKey K (view_obj K dk target k) = key"
      using view_change_mem(2) [OF c] hd_in_set by blast
    have "store_key K (view_obj K dk target k') \<noteq> store_key K (view_obj K dk target k)" if k': "V' k' \<noteq> 0" for k'
    proof
      assume eq: "store_key K (view_obj K dk target k') = store_key K (view_obj K dk target k)"
      with view_change_keys [OF c, of k' k] k k' have "ObjectKey K (view_obj K dk target k') = key" by auto
      with True k' view_change_mem(1) [OF c] have "V k' \<noteq> 0" by (metis empty_iff empty_set)
      with c k k' eq show False by (auto simp: view_change_def dest: is_viewD(4))
    qed
    with verdict_gone [OF c k(2)] k v gone show ?thesis by auto
  qed
qed

lemma tracks_change:
  assumes c: "view_change K dk target cache z V V'"
    and D: "\<And>d. d \<in> D \<longleftrightarrow> (\<exists>key. key_verdict K cache (map (change_delta K dk target) (counts z)) key = Some d)"
    and eff: "\<And>d. d \<in> D \<Longrightarrow> contents K cache' (store_key K (d_Object d)) = effect K d"
    and other: "\<And>x. x \<notin> (\<lambda>d. store_key K (d_Object d)) ` D \<Longrightarrow> contents K cache' x = contents K cache x"
  shows "tracks K dk target cache' V'"
  unfolding tracks_def
proof (intro allI)
  fix x obj
  let ?vo = "view_obj K dk target"
  have V: "is_view K dk target V" "is_view K dk target V'" and tr: "tracks K dk target cache V"
    using c by (auto simp: view_change_def)
  show "contents K cache' x = Some obj \<longleftrightarrow> (\<exists>k. V' k \<noteq> 0 \<and> store_key K (?vo k) = x \<and> obj = Object_DeepCopy K (?vo k))"
  proof (cases "x \<in> (\<lambda>d. store_key K (d_Object d)) ` D")
    case True
    then obtain d key where d: "d \<in> D" "store_key K (d_Object d) = x"
        "key_verdict K cache (map (change_delta K dk target) (counts z)) key = Some d"
      using D by blast
    from c d(3) show ?thesis
    proof (cases rule: verdict_cases)
      case (new k)
      have k: "k' = k" if "V' k' \<noteq> 0" "store_key K (?vo k') = x" for k'
        using is_viewD(4) [OF V(2) that(1) new(1)] that(2) d(2) new(3) by simp
      have x: "contents K cache' x = Some (Object_DeepCopy K (?vo k))" "store_key K (?vo k) = x"
        using eff [OF d(1)] d(2) new(3) by (simp_all add: effect_def)
      show ?thesis
      proof
        assume "contents K cache' x = Some obj"
        then show "\<exists>k. V' k \<noteq> 0 \<and> store_key K (?vo k) = x \<and> obj = Object_DeepCopy K (?vo k)"
          using x new(1) by (intro exI [of _ k]) simp
      qed (use k x(1) in auto)
    next
      case (gone k)
      have "contents K cache' x = None" "store_key K (?vo k) = x"
        using eff [OF d(1)] d(2) gone(3) by (simp_all add: effect_def)
      with gone(2) show ?thesis by auto
    qed
  next
    case False
    have "V' k \<noteq> 0 \<longleftrightarrow> V k \<noteq> 0" if x: "store_key K (?vo k) = x" for k
    proof
      assume k: "V' k \<noteq> 0"
      show "V k \<noteq> 0"
      proof
        assume "V k = 0"
        with verdict_new [OF c k] D x False show False by (metis (no_types, lifting) Delta.select_convs(1) imageI)
      qed
    next
      assume k: "V k \<noteq> 0"
      show "V' k \<noteq> 0"
      proof
        assume k0: "V' k = 0"
        have "store_key K (?vo k') \<noteq> store_key K (?vo k)" if "V' k' \<noteq> 0" for k'
        proof
          assume eq: "store_key K (?vo k') = store_key K (?vo k)"
          have "V k' \<noteq> 0" using verdict_new [OF c that] D x False eq by (metis (no_types, lifting) Delta.select_convs(1) imageI)
          with is_viewD(4) [OF V(1) _ k eq] k0 that show False by simp
        qed
        with verdict_gone [OF c k] D x False show False by (metis (no_types, lifting) Delta.select_convs(1) imageI)
      qed
    qed
    with other [OF False] tr show ?thesis by (auto simp: tracks_def)
  qed
qed

theorem reconcile_view_change:
  assumes c: "view_change K dk target cache z V V'" and sched: "iteration_order sched"
  shows "\<exists>cache' dels ups. ConvertZSetToDelta K z target = Inr (map (change_delta K dk target) (counts z)) \<and>
    Reconcile K sched cache (map (change_delta K dk target) (counts z)) = (cache', Inr (dels @ ups)) \<and>
    tracks K dk target cache' V' \<and>
    (\<forall>d. d \<in> set ups \<longleftrightarrow> (\<exists>k. V' k \<noteq> 0 \<and> V k = 0 \<and> d = \<lparr>d_Object = view_obj K dk target k, d_Type = Upserted\<rparr>)) \<and>
    (\<forall>d. d \<in> set dels \<longleftrightarrow> (\<exists>k. V k \<noteq> 0 \<and> d = \<lparr>d_Object = view_obj K dk target k, d_Type = Deleted\<rparr> \<and>
       (\<forall>k'. V' k' \<noteq> 0 \<longrightarrow> store_key K (view_obj K dk target k') \<noteq> store_key K (view_obj K dk target k))))"
proof -
  let ?ds = "map (change_delta K dk target) (counts z)"
  have laws: "k8s_laws K" and tr: "tracks K dk target cache V" using c by (auto simp: view_change_def)
  obtain cache' dels ups where r: "Reconcile K sched cache ?ds = (cache', Inr (dels @ ups))"
      "\<And>d. d \<in> set (dels @ ups) \<longleftrightarrow> (\<exists>key. key_verdict K cache ?ds key = Some d)"
      "\<And>d. d \<in> set dels \<Longrightarrow> d_Type d = Deleted" "\<And>d. d \<in> set ups \<Longrightarrow> d_Type d = Upserted"
      "distinct (map (\<lambda>d. ObjectKey K (d_Object d)) (dels @ ups))"
      "\<And>d. d \<in> set (dels @ ups) \<Longrightarrow> contents K cache' (store_key K (d_Object d)) = effect K d"
      "\<And>x. x \<notin> (\<lambda>d. store_key K (d_Object d)) ` set (dels @ ups) \<Longrightarrow> contents K cache' x = contents K cache x"
    using Reconcile_verdicts [OF laws sched view_change_mem(3) [OF c], of cache] by blast
  have new: "\<lparr>d_Object = view_obj K dk target k, d_Type = Upserted\<rparr> \<in> set (dels @ ups)" if "V' k \<noteq> 0" "V k = 0" for k
    using r(2) verdict_new [OF c that] by blast
  have gone: "\<lparr>d_Object = view_obj K dk target k, d_Type = Deleted\<rparr> \<in> set (dels @ ups)"
    if "V k \<noteq> 0" "\<And>k'. V' k' \<noteq> 0 \<Longrightarrow> store_key K (view_obj K dk target k') \<noteq> store_key K (view_obj K dk target k)" for k
    using r(2) verdict_gone [OF c that] by blast
  show ?thesis
  proof (intro exI conjI allI)
    show "Reconcile K sched cache ?ds = (cache', Inr (dels @ ups))" by (rule r(1))
    show "ConvertZSetToDelta K z target = Inr ?ds"
    proof (rule ConvertZSetToDelta_known)
      fix k assume "cnt z k \<noteq> 0"
      then have "V k \<noteq> 0 \<or> V' k \<noteq> 0" using c by (auto simp: view_change_def)
      then show "is_ok (target_object K target (dk k))" using c by (auto simp: view_change_def is_view_def)
    qed (use c in \<open>simp add: view_change_def\<close>)
    show "d \<in> set ups \<longleftrightarrow> (\<exists>k. V' k \<noteq> 0 \<and> V k = 0 \<and> d = \<lparr>d_Object = view_obj K dk target k, d_Type = Upserted\<rparr>)" for d
      using r(2-4) [of d] new by (fastforce elim: verdict_cases [OF c])
    show "d \<in> set dels \<longleftrightarrow> (\<exists>k. V k \<noteq> 0 \<and> d = \<lparr>d_Object = view_obj K dk target k, d_Type = Deleted\<rparr> \<and>
       (\<forall>k'. V' k' \<noteq> 0 \<longrightarrow> store_key K (view_obj K dk target k') \<noteq> store_key K (view_obj K dk target k)))" for d
      using r(2-4) [of d] gone by (fastforce elim: verdict_cases [OF c])
    show "tracks K dk target cache' V'"
      by (rule tracks_change [OF c r(2,6,7)])
  qed
qed

text \<open>The deltas by which a change of the view is reported: deletes of what is gone, then upserts of what is new.\<close>

definition emits ::
    "'s k8s \<Rightarrow> (string \<Rightarrow> doc) \<Rightarrow> GroupVersionKind \<Rightarrow> (string \<Rightarrow> gint) \<Rightarrow> (string \<Rightarrow> gint) \<Rightarrow> Delta list \<Rightarrow> bool" where
  "emits K dk target V V' ds \<longleftrightarrow> (\<exists>dels ups. ds = dels @ ups \<and>
     (\<forall>d. d \<in> set ups \<longleftrightarrow> (\<exists>k. V' k \<noteq> 0 \<and> V k = 0 \<and> d = \<lparr>d_Object = view_obj K dk target k, d_Type = Upserted\<rparr>)) \<and>
     (\<forall>d. d \<in> set dels \<longleftrightarrow> (\<exists>k. V k \<noteq> 0 \<and> d = \<lparr>d_Object = view_obj K dk target k, d_Type = Deleted\<rparr> \<and>
        (\<forall>k'. V' k' \<noteq> 0 \<longrightarrow> store_key K (view_obj K dk target k') \<noteq> store_key K (view_obj K dk target k)))))"

end
