(* ===== verification/Pipeline_View.thy ===== *)
theory Pipeline_View
  imports Pipelines Source_View Target_View
begin

text \<open>
  The pipeline as a materialized view: the multiplicities of the source caches are the
  accumulated inputs of the query, and the target cache tracks the snapshot of the query on
  them.  The interface between the engine and the query is the locale \<open>view_query\<close>, which the
  join queries and the single-source queries of package \<^verbatim>\<open>dbsp\<close> provide.
\<close>

section \<open>The invariant of a pipeline\<close>

definition source_occs :: "'s k8s \<Rightarrow> 's source_cache \<Rightarrow> GroupVersionKind list \<Rightarrow> (string \<Rightarrow> gint) list" where
  "source_occs K sc sources = map (\<lambda>src. store_occ K (source_store K sc src)) sources"

definition maintained ::
    "'s k8s \<Rightarrow> (string \<Rightarrow> doc) \<Rightarrow> (ChainGraph \<Rightarrow> (string \<Rightarrow> gint) list \<Rightarrow> bool) \<Rightarrow>
     ((string \<Rightarrow> gint) list \<Rightarrow> string \<Rightarrow> gint) \<Rightarrow> 's Pipeline \<Rightarrow> bool" where
  "maintained K dk st snap p \<longleftrightarrow>
     (let a = source_occs K (p_sourceCache p) (p_sources p) in
      distinct (map gvk_Kind (p_sources p)) \<and> sources_ok K dk (p_sourceCache p) \<and> st (p_graph p) a \<and>
      is_view K dk (p_target p) (snap a) \<and> tracks K dk (p_target p) (p_targetCache p) (snap a))"

text \<open>
  A delta of one of the sources that fits the cache and leads to a state of the sources whose
  snapshot is a view again.
\<close>

definition acceptable ::
    "'s k8s \<Rightarrow> (string \<Rightarrow> doc) \<Rightarrow> ((string \<Rightarrow> gint) list \<Rightarrow> string \<Rightarrow> gint) \<Rightarrow> 's Pipeline \<Rightarrow> Delta \<Rightarrow> bool" where
  "acceptable K dk snap p delta \<longleftrightarrow>
     fits K dk (p_sourceCache p) delta \<and> u_gvk K (d_Object delta) \<in> set (p_sources p) \<and>
     is_view K dk (p_target p)
       (snap (source_occs K (fst (ConvertDeltaToZSet K (p_sourceCache p) delta)) (p_sources p)))"

section \<open>Inputs of the executor\<close>

lemma empty_inputs:
  assumes "distinct (map gvk_Kind sources)" and "set (map gvk_Kind sources) \<inter> keys m = {}"
  shows "foldl (\<lambda>m src. AList.update (gvk_Kind src) NewDocumentZSet m) m sources
    = m @ map (\<lambda>src. (gvk_Kind src, NewDocumentZSet)) sources"
  using assms
proof (induction sources arbitrary: m)
  case (Cons src sources)
  have "AList.update (gvk_Kind src) NewDocumentZSet m = m @ [(gvk_Kind src, NewDocumentZSet)]"
    using Cons.prems(2) by (intro set_update_new) simp
  with Cons.IH [of "m @ [(gvk_Kind src, NewDocumentZSet)]"] Cons.prems show ?case by auto
qed simp

lemma length_update_mem: "k \<in> keys m \<Longrightarrow> length (AList.update k v m) = length m"
  by (induction m) auto

lemma input_deltas_ok:
  assumes d: "distinct (map gvk_Kind (p_sources p))" and gvk: "u_gvk K (d_Object delta) \<in> set (p_sources p)"
    and kind: "u_kind K (d_Object delta) = gvk_Kind (u_gvk K (d_Object delta))" and z: "zknown dk z"
  shows "delta_inputs dk (map gvk_Kind (p_sources p)) (input_deltas K p delta z)"
    and "src \<in> set (p_sources p) \<Longrightarrow> input_of (input_deltas K p delta z) (gvk_Kind src)
      = (if src = u_gvk K (d_Object delta) then z else NewDocumentZSet)"
proof -
  let ?m = "map (\<lambda>src. (gvk_Kind src, NewDocumentZSet)) (p_sources p)"
  have ins: "input_deltas K p delta z = AList.update (gvk_Kind (u_gvk K (d_Object delta))) z ?m"
    using empty_inputs [OF d, of "[]"] by (simp add: input_deltas_def kind)
  have get: "map_of (input_deltas K p delta z) (gvk_Kind src)
      = Some (if src = u_gvk K (d_Object delta) then z else NewDocumentZSet)" if "src \<in> set (p_sources p)" for src
  proof -
    have "map_of ?m (gvk_Kind src) = Some NewDocumentZSet" using d that by (auto intro!: map_of_is_SomeI simp: comp_def)
    moreover have "gvk_Kind src = gvk_Kind (u_gvk K (d_Object delta)) \<longleftrightarrow> src = u_gvk K (d_Object delta)"
      using d gvk that by (auto simp: distinct_map dest: inj_onD)
    ultimately show ?thesis by (simp add: ins update_conv')
  qed
  have "length (input_deltas K p delta z) = length (p_sources p)"
    using gvk by (simp add: ins length_update_mem image_image)
  with get z show "delta_inputs dk (map gvk_Kind (p_sources p)) (input_deltas K p delta z)"
    by (auto simp: delta_inputs_def)
  show "src \<in> set (p_sources p) \<Longrightarrow> input_of (input_deltas K p delta z) (gvk_Kind src)
      = (if src = u_gvk K (d_Object delta) then z else NewDocumentZSet)"
    using get by (simp add: input_of_def)
qed

lemma view_accum_sources:
  "view_accum (map gvk_Kind sources) (map G sources) ins
    = map (\<lambda>src k. G src k + cnt (input_of ins (gvk_Kind src)) k) sources"
  by (simp add: view_accum_def join_accum_def zip_map1 zip_map2 zip_same_conv_map comp_def)

section \<open>The interface to the query\<close>

locale view_query = incremental Executor_Process "delta_inputs dk ns" st "view_accum ns" snap
  for dk :: "string \<Rightarrow> doc" and ns :: "string list" and st :: "ChainGraph \<Rightarrow> (string \<Rightarrow> gint) list \<Rightarrow> bool"
    and snap :: "(string \<Rightarrow> gint) list \<Rightarrow> string \<Rightarrow> gint" +
  assumes output_known: "st g a \<Longrightarrow> delta_inputs dk ns ins \<Longrightarrow> Executor_Process g ins = (g', Inr r) \<Longrightarrow> zknown dk r"
begin

lemma evaluate_maintains:
  assumes laws: "k8s_laws K" and sched: "iteration_order sched" and ns: "map gvk_Kind (p_sources p) = ns"
    and m: "maintained K dk st snap p" and acc: "acceptable K dk snap p delta"
  shows "\<exists>p' ds. Pipeline_Evaluate K sched p delta = (p', Inr ds) \<and> maintained K dk st snap p' \<and>
    p_sources p' = p_sources p \<and> p_target p' = p_target p \<and>
    emits K dk (p_target p) (snap (source_occs K (p_sourceCache p) (p_sources p)))
      (snap (source_occs K (p_sourceCache p') (p_sources p))) ds"
proof -
  let ?gvk = "u_gvk K (d_Object delta)"
  let ?a = "source_occs K (p_sourceCache p) (p_sources p)"
  from m have inv: "distinct (map gvk_Kind (p_sources p))" "sources_ok K dk (p_sourceCache p)" "st (p_graph p) ?a"
      "is_view K dk (p_target p) (snap ?a)" "tracks K dk (p_target p) (p_targetCache p) (snap ?a)"
    by (auto simp: maintained_def Let_def)
  from acc have gvk: "?gvk \<in> set (p_sources p)" and kind: "u_kind K (d_Object delta) = gvk_Kind ?gvk"
    by (auto simp: acceptable_def fits_def Let_def)
  have fits: "fits K dk (p_sourceCache p) delta" using acc by (simp add: acceptable_def)
  from ConvertDeltaToZSet_change [OF laws inv(2) fits] obtain sc z where z:
      "ConvertDeltaToZSet K (p_sourceCache p) delta = (sc, Inr z)" "zknown dk z" "sources_ok K dk sc"
      "\<And>gvk'. gvk' \<noteq> ?gvk \<Longrightarrow> source_store K sc gvk' = source_store K (p_sourceCache p) gvk'"
      "\<And>k. store_occ K (source_store K sc ?gvk) k = store_occ K (source_store K (p_sourceCache p) ?gvk) k + cnt z k"
    by blast
  note ins = input_deltas_ok [OF inv(1) gvk kind z(2)]
  let ?ins = "input_deltas K p delta z" and ?a' = "source_occs K sc (p_sources p)"
  have a': "view_accum ns ?a ?ins = ?a'"
    unfolding ns [symmetric] source_occs_def view_accum_sources using ins(2) z(4,5) by (auto simp: fun_eq_iff)
  from step_delta [OF inv(3) ins(1) [unfolded ns]] obtain g r where r: "Executor_Process (p_graph p) ?ins = (g, Inr r)"
      "st g ?a'" "\<And>k. cnt r k = snap ?a' k - snap ?a k"
    unfolding a' by blast
  have "zknown dk r" by (rule output_known [OF inv(3) ins(1) [unfolded ns] r(1)])
  moreover have view: "is_view K dk (p_target p) (snap ?a')" using acc z(1) by (simp add: acceptable_def)
  ultimately have "view_change K dk (p_target p) (p_targetCache p) r (snap ?a) (snap ?a')"
    using laws inv(4,5) r(3) by (simp add: view_change_def)
  from reconcile_view_change [OF this sched] obtain cache dels ups where
      "ConvertZSetToDelta K r (p_target p) = Inr (map (change_delta K dk (p_target p)) (counts r))"
      "Reconcile K sched (p_targetCache p) (map (change_delta K dk (p_target p)) (counts r)) = (cache, Inr (dels @ ups))"
      "tracks K dk (p_target p) cache (snap ?a')" "emits K dk (p_target p) (snap ?a) (snap ?a') (dels @ ups)"
    unfolding emits_def by blast
  then show ?thesis
    using z(1,3) r(1,2) inv(1) view by (auto simp: Pipeline_Evaluate_def reconcile_zset_def maintained_def Let_def)
qed

end

section \<open>The queries of a pipeline\<close>

text \<open>A join followed by linear stages, and linear stages on a single source.\<close>

definition join_view :: "(string \<Rightarrow> doc) \<Rightarrow> evaluator \<Rightarrow> string list \<Rightarrow> evaluator \<Rightarrow> (string \<Rightarrow> gint) list \<Rightarrow> string \<Rightarrow> gint" where
  "join_view dk eval names f a k = wsum (join_snap dk eval names a) (\<lambda>k0. occ (imgs f (dk k0)) k)"

definition source_view :: "(string \<Rightarrow> doc) \<Rightarrow> evaluator \<Rightarrow> (string \<Rightarrow> gint) list \<Rightarrow> string \<Rightarrow> gint" where
  "source_view dk f a k = wsum (hd a) (\<lambda>k0. occ (imgs f (dk k0)) k)"

definition source_view_st ::
    "(string \<Rightarrow> doc) \<Rightarrow> string list \<Rightarrow> operator list \<Rightarrow> evaluator \<Rightarrow> ChainGraph \<Rightarrow> (string \<Rightarrow> gint) list \<Rightarrow> bool" where
  "source_view_st dk ns ops f g a \<longleftrightarrow> (\<exists>n x. ns = [n] \<and> a = [x] \<and> single_view_st dk n ops f g x)"

interpretation join_query: view_query dk ns "join_view_st dk eval names ns ops f" "join_view dk eval names f"
  for dk ns eval names ops f
proof
  fix g a ins assume st: "join_view_st dk eval names ns ops f g a" and ins: "delta_inputs dk ns ins"
  show "\<exists>g' r. Executor_Process g ins = (g', Inr r) \<and> zwf r \<and> join_view_st dk eval names ns ops f g' (view_accum ns a ins) \<and>
      (\<forall>k. cnt r k = join_view dk eval names f (view_accum ns a ins) k - join_view dk eval names f a k)"
    unfolding join_view_def by (rule view_join.step_delta [OF st ins])
  fix g' r assume "Executor_Process g ins = (g', Inr r)"
  with view_join_step [OF st ins] show "zknown dk r" by auto
qed

interpretation source_query: view_query dk ns "source_view_st dk ns ops f" "source_view dk f"
  for dk ns ops f
proof
  fix g a ins assume st: "source_view_st dk ns ops f g a" and ins: "delta_inputs dk ns ins"
  then obtain n x where x: "ns = [n]" "a = [x]" "single_view_st dk n ops f g x" by (auto simp: source_view_st_def)
  from view_single_step [OF x(3)] ins x(1) obtain g' r where r: "Executor_Process g ins = (g', Inr r)" "zknown dk r"
      "single_view_st dk n ops f g' (\<lambda>k. x k + cnt (input_of ins n) k)"
      "\<And>k. cnt r k = wsum (\<lambda>k. x k + cnt (input_of ins n) k) (\<lambda>k0. occ (imgs f (dk k0)) k) - wsum x (\<lambda>k0. occ (imgs f (dk k0)) k)"
    by blast
  have acc: "view_accum ns a ins = [\<lambda>k. x k + cnt (input_of ins n) k]" by (simp add: view_accum_def join_accum_def x)
  with r x show "\<exists>g' r. Executor_Process g ins = (g', Inr r) \<and> zwf r \<and> source_view_st dk ns ops f g' (view_accum ns a ins) \<and>
      (\<forall>k. cnt r k = source_view dk f (view_accum ns a ins) k - source_view dk f a k)"
    by (auto simp: source_view_st_def source_view_def)
  fix g'' r'' assume "Executor_Process g ins = (g'', Inr r'')"
  with r show "zknown dk r''" by simp
qed

end
