(* ===== verification/Pipeline_Correct.thy ===== *)
theory Pipeline_Correct
  imports Pipeline_View
begin

text \<open>
  From the configuration to the view: a pipeline of linear operations is built with the query
  its configuration describes, and as long as it is evaluated on deltas that fit its source
  caches, its target cache tracks the result of running the configured operators on the whole
  content of the source caches.
\<close>

section \<open>The reference: the configured operators on the content of the caches\<close>

definition config_join :: "libs \<Rightarrow> GroupVersionKind list \<Rightarrow> PipelineOp list \<Rightarrow> operator option" where
  "config_join L sources config =
     (case config of PJoinOp e # _ \<Rightarrow> Some (JoinOp (Join_Evaluate L e) (map gvk_Kind sources)) | _ \<Rightarrow> None)"

definition config_ops :: "PipelineOp list \<Rightarrow> PipelineOp list" where
  "config_ops config = (case config of PJoinOp e # ops \<Rightarrow> ops | _ \<Rightarrow> config)"

definition snapshot_result ::
    "'s k8s \<Rightarrow> libs \<Rightarrow> GroupVersionKind list \<Rightarrow> PipelineOp list \<Rightarrow> 's source_cache \<Rightarrow> zset res" where
  "snapshot_result K L sources config sc =
     bind (mapM (\<lambda>src. cache_zset K (source_store K sc src)) sources) (\<lambda>zs.
     bind (mapM (chain_op L) (config_ops config)) (\<lambda>ops.
       snd (query_step (config_join L sources config, ops) zs)))"

text \<open>Deltas of a source after which the result is a view again, and runs over such deltas.\<close>

definition view_delta :: "'s k8s \<Rightarrow> libs \<Rightarrow> (string \<Rightarrow> doc) \<Rightarrow> 's Pipeline \<Rightarrow> Delta \<Rightarrow> bool" where
  "view_delta K L dk p delta \<longleftrightarrow>
     fits K dk (p_sourceCache p) delta \<and> u_gvk K (d_Object delta) \<in> set (p_sources p) \<and>
     (case snapshot_result K L (p_sources p) (p_config p) (fst (ConvertDeltaToZSet K (p_sourceCache p) delta)) of
        Inl _ \<Rightarrow> False | Inr out \<Rightarrow> is_view K dk (p_target p) (cnt out))"

inductive reaches :: "'s k8s \<Rightarrow> libs \<Rightarrow> (string \<Rightarrow> doc) \<Rightarrow> 's Pipeline \<Rightarrow> 's Pipeline \<Rightarrow> bool" for K L dk p0 where
  start: "reaches K L dk p0 p0"
| evaluate: "reaches K L dk p0 p \<Longrightarrow> view_delta K L dk p delta \<Longrightarrow> iteration_order sched \<Longrightarrow>
    Pipeline_Evaluate K sched p delta = (p', r) \<Longrightarrow> reaches K L dk p0 p'"

text \<open>A configuration of linear operations that evaluate on the documents of a dictionary.\<close>

definition linear_config :: "libs \<Rightarrow> (string \<Rightarrow> doc) \<Rightarrow> GroupVersionKind list \<Rightarrow> PipelineOp list \<Rightarrow> operator list \<Rightarrow> bool" where
  "linear_config L dk sources config ops \<longleftrightarrow>
     mapM (chain_op L) (config_ops config) = Inr ops \<and> distinct (map gvk_Kind sources) \<and>
     (\<forall>oper \<in> set ops. linear_stage oper \<and> plain dk oper) \<and>
     (case config of
        PJoinOp e # _ \<Rightarrow> sources \<noteq> [] \<and> length sources < 63 \<and> length ops \<le> 17 \<and>
          joins_known dk (Join_Evaluate L e) (map gvk_Kind sources)
      | _ \<Rightarrow> length sources = 1 \<and> length ops \<le> 18)"

section \<open>The content of the caches as Z-sets\<close>

lemma settled_zset:
  assumes "\<forall>obj \<in> set objs. settled K dk obj" and "zknown dk z"
  shows "\<exists>z'. foldM (\<lambda>z obj. AddDocumentMutate z (RemoveUID K (Object_DeepCopy K obj)) 1) z (map (Object_DeepCopy K) objs) = Inr z'
    \<and> zknown dk z' \<and> (\<forall>k. cnt z' k = cnt z k + occ objs k)"
  using assms
proof (induction objs arbitrary: z)
  case (Cons obj objs)
  then have obj: "Object_DeepCopy K obj = obj" "RemoveUID K obj = obj" "known dk obj" by (auto simp: settled_def)
  from known_AddDocumentMutate [OF Cons.prems(2) obj(3), of 1] obtain z1 where
    "AddDocumentMutate z obj 1 = Inr z1" "zknown dk z1" "\<And>k. cnt z1 k = cnt z k + hit obj k" by auto
  with Cons.IH [of z1] Cons.prems(1) obj(1,2) show ?case by (auto simp: add.assoc)
qed auto

lemma cache_zset_known:
  assumes "sources_ok K dk sc"
  shows "\<exists>z. cache_zset K (source_store K sc src) = Inr z \<and> zknown dk z \<and> cnt z = store_occ K (source_store K sc src)"
proof -
  have "\<forall>obj \<in> set (ts_list K (source_store K sc src)). settled K dk obj" using assms by (simp add: sources_ok_def)
  from settled_zset [OF this zknown_New [of dk]] show ?thesis
    by (auto simp: cache_zset_def Store_List_def store_occ_def fun_eq_iff)
qed

lemma cache_zsets_known:
  assumes "sources_ok K dk sc"
  shows "\<exists>zs. mapM (\<lambda>src. cache_zset K (source_store K sc src)) sources = Inr zs \<and> (\<forall>z \<in> set zs. zknown dk z) \<and>
    map cnt zs = source_occs K sc sources"
proof (induction sources)
  case (Cons src sources)
  then show ?case using cache_zset_known [OF assms, of src] by (auto simp: source_occs_def)
qed (simp add: source_occs_def)

section \<open>Building the graph\<close>

lemma add_sources_query:
  assumes "distinct (map gvk_Kind sources)"
  shows "graph_wf (add_sources sources) \<and> graph_query (add_sources sources) = Inr (None, []) \<and>
    input_names (add_sources sources) = map gvk_Kind sources"
  using assms
proof (induction sources rule: rev_induct)
  case Nil
  have "input_names NewChainGraph = []" by (simp add: input_names_def NewChainGraph_def)
  then show ?case by (simp add: add_sources_def graph_wf_New graph_query_New)
next
  case (snoc src sources)
  then have g: "graph_wf (add_sources sources)" "graph_query (add_sources sources) = Inr (None, [])"
      "input_names (add_sources sources) = map gvk_Kind sources" "gvk_Kind src \<notin> set (input_names (add_sources sources))"
    by auto
  from AddInput_query [OF g(1,2,4)] graph_wf_AddInput [OF g(1)] g(3) show ?case by (simp add: add_sources_def)
qed

lemma add_ops_query:
  assumes "mapM (chain_op L) ops = Inr os" and "graph_wf g" and "graph_query g = Inr (j, base)"
  shows "\<exists>g'. add_ops L g ops = Inr g' \<and> graph_wf g' \<and> graph_query g' = Inr (j, base @ os) \<and> input_names g' = input_names g"
  using assms
proof (induction ops arbitrary: g base os)
  case (Cons oper ops)
  then obtain y ys where y: "os = y # ys" "chain_op L oper = Inr y" "mapM (chain_op L) ops = Inr ys"
    by (auto simp: bind_Inr_iff)
  note q = AddToChain_query [OF Cons.prems(2,3), of y]
  from Cons.IH [OF y(3) graph_wf_AddToChain [OF Cons.prems(2)] q(1)] y q(2) show ?case
    by (auto simp: add_ops_def)
qed (simp add: add_ops_def)

lemma join_first: "config \<noteq> [] \<and> PipelineOp_OpType (hd config) = ''@join'' \<longleftrightarrow> (\<exists>e ops. config = PJoinOp e # ops)"
proof (cases config)
  case (Cons oper ops)
  then show ?thesis by (cases oper) auto
qed simp

lemma build_graph_query:
  assumes "distinct (map gvk_Kind sources)" and "mapM (chain_op L) (config_ops config) = Inr os"
  shows "\<exists>g. build_graph L sources config = Inr g \<and> graph_wf g \<and> input_names g = map gvk_Kind sources \<and>
    graph_query g = Inr (case config of PJoinOp e # _ \<Rightarrow> Some (NewJoinOp L e sources) | _ \<Rightarrow> None, os)"
proof -
  note g = add_sources_query [OF assms(1)]
  show ?thesis
  proof (cases "\<exists>e ops. config = PJoinOp e # ops")
    case True
    then obtain e ops where c: "config = PJoinOp e # ops" by blast
    let ?g = "fst (SetJoin (add_sources sources) (NewJoinOp L e sources))"
    have "graph_wf ?g" "graph_query ?g = Inr (Some (NewJoinOp L e sources), [])" "input_names ?g = map gvk_Kind sources"
      using g SetJoin_query [of "add_sources sources" None "[]" "NewJoinOp L e sources"] graph_wf_SetJoin by auto
    with add_ops_query [of L ops os ?g] assms(2) c show ?thesis
      by (auto simp: build_graph_def Let_def config_ops_def)
  next
    case False
    then have "config_ops config = config" "(case config of PJoinOp e # _ \<Rightarrow> Some (NewJoinOp L e sources) | _ \<Rightarrow> None) = None"
      by (auto simp: config_ops_def split: list.splits PipelineOp.splits)
    moreover have "build_graph L sources config = add_ops L (add_sources sources) config"
      using False join_first [of config] by (auto simp: build_graph_def Let_def)
    ultimately show ?thesis using add_ops_query [of L config os "add_sources sources" None "[]"] g assms(2) by auto
  qed
qed

section \<open>A new pipeline\<close>

lemma new_executor:
  assumes "graph_wf g" and "graph_query g = Inr (j, ops)" and "input_names g \<noteq> []" and "length (input_names g) = 1 \<or> j \<noteq> None"
  shows "\<exists>out. NewExecutor g = (g\<lparr>g_output := out\<rparr>, Inr ())"
proof -
  have "g_inputs g \<noteq> []" "length (g_inputs g) = 1 \<or> g_joinNode g \<noteq> []"
    using assms input_names_length [OF assms(1)] by (auto simp: graph_query_Inr)
  then have "snd (Validate g) = Inr ()" by (simp add: Validate_ok_iff)
  then obtain g0 where v: "Validate g = (g0, Inr ())" by (cases "Validate g") auto
  with Validate_same [OF v] show ?thesis by (auto simp: NewExecutor_def)
qed

lemma join_view_st_output: "join_view_st dk eval names ns ops f (g\<lparr>g_output := out\<rparr>) a = join_view_st dk eval names ns ops f g a"
  by (simp add: join_view_st_def input_names_def)

lemma source_view_st_output: "source_view_st dk ns ops f (g\<lparr>g_output := out\<rparr>) a = source_view_st dk ns ops f g a"
  by (simp add: source_view_st_def single_view_st_def input_names_def)

lemma empty_source_occs: "store_laws K \<Longrightarrow> source_occs K [] sources = map (\<lambda>_ _. 0) sources"
  by (simp add: source_occs_def source_store_def store_occ_def Store_New_def store_laws_def fun_eq_iff)

lemma empty_view:
  assumes "store_laws K" and "\<And>k. V k = 0"
  shows "is_view K dk target V" "tracks K dk target (Store_New K) V"
  using assms by (auto simp: is_view_def tracks_def Store_New_contents)

text \<open>What the two kinds of configurations have in common.\<close>

definition materializes ::
    "'s k8s \<Rightarrow> libs \<Rightarrow> (string \<Rightarrow> doc) \<Rightarrow> GroupVersionKind list \<Rightarrow> PipelineOp list \<Rightarrow>
     (ChainGraph \<Rightarrow> (string \<Rightarrow> gint) list \<Rightarrow> bool) \<Rightarrow> ((string \<Rightarrow> gint) list \<Rightarrow> string \<Rightarrow> gint) \<Rightarrow> bool" where
  "materializes K L dk sources config st snap \<longleftrightarrow>
     view_query dk (map gvk_Kind sources) st snap \<and>
     (\<forall>sc. sources_ok K dk sc \<longrightarrow> (\<exists>out. snapshot_result K L sources config sc = Inr out \<and> cnt out = snap (source_occs K sc sources))) \<and>
     (\<forall>k. snap (map (\<lambda>_ _. 0) sources) k = 0) \<and>
     (\<exists>g g1 g2. build_graph L sources config = Inr g \<and> Optimize g = (g1, Inr ()) \<and> NewExecutor g1 = (g2, Inr ()) \<and>
        st g2 (map (\<lambda>_ _. 0) sources))"

lemma join_materializes:
  assumes lin: "linear_config L dk sources (PJoinOp e # ops) os"
  shows "\<exists>st snap. materializes K L dk sources (PJoinOp e # ops) st snap"
proof -
  let ?ns = "map gvk_Kind sources" and ?eval = "Join_Evaluate L e"
  from lin have c: "mapM (chain_op L) ops = Inr os" "distinct ?ns" "\<forall>oper \<in> set os. linear_stage oper \<and> plain dk oper"
      "sources \<noteq> []" "length sources < 63" "length os \<le> 17" "joins_known dk ?eval ?ns"
    by (auto simp: linear_config_def config_ops_def)
  obtain f where view: "linear_view dk os f" using linear_view_exists [OF c(3)] ..
  let ?st = "join_view_st dk ?eval ?ns ?ns os f" and ?snap = "join_view dk ?eval ?ns f"
  have ops: "mapM (chain_op L) (config_ops (PJoinOp e # ops)) = Inr os" using c(1) by (simp add: config_ops_def)
  from build_graph_query [OF c(2) ops] obtain g where g: "build_graph L sources (PJoinOp e # ops) = Inr g" "graph_wf g"
      "input_names g = ?ns" "graph_query g = Inr (Some (NewIncrementalJoin ?eval ?ns), os)"
    by (auto simp: NewJoinOp_def)
  have "length (input_names g) = length ?ns" "?ns \<noteq> []" "length ?ns < 63" using g(3) c(4,5) by auto
  from optimize_join_view [OF g(2,4) disjI2 [OF refl] this(1,2) c(3,6,7) this(3) view] obtain g1 where
    g1: "Optimize g = (g1, Inr ())" "?st g1 (map (\<lambda>_ _. 0) sources)" unfolding g(3) by (auto simp: comp_def)
  then have "\<exists>out. NewExecutor g1 = (g1\<lparr>g_output := out\<rparr>, Inr ())"
    using c(4) by (auto simp: join_view_st_def intro!: new_executor)
  moreover have "\<exists>out. snapshot_result K L sources (PJoinOp e # ops) sc = Inr out \<and> cnt out = ?snap (source_occs K sc sources)"
    if ok: "sources_ok K dk sc" for sc
  proof -
    obtain zs where zs: "mapM (\<lambda>src. cache_zset K (source_store K sc src)) sources = Inr zs" "\<forall>z \<in> set zs. zknown dk z"
        "map cnt zs = source_occs K sc sources"
      using cache_zsets_known [OF ok] by blast
    have "length zs = length ?ns" using arg_cong [OF zs(3), of length] by (simp add: source_occs_def)
    with snapshot_join_query [OF c(7) view, of zs] zs ops show ?thesis
      by (auto simp: snapshot_result_def config_join_def join_view_def fun_eq_iff)
  qed
  moreover have "?snap (map (\<lambda>_ _. 0) sources) k = 0" for k
  proof -
    have "join_snap dk ?eval ?ns (map (\<lambda>_ _. 0) sources) = (\<lambda>_. 0)"
      using c(4) by (intro ext join_snap_zero) auto
    then show ?thesis by (simp add: join_view_def)
  qed
  ultimately show ?thesis
    using g(1) g1 join_query.view_query_axioms unfolding materializes_def by (metis join_view_st_output)
qed

lemma source_materializes:
  assumes lin: "linear_config L dk sources config os" and nj: "\<And>e ops. config \<noteq> PJoinOp e # ops"
  shows "\<exists>st snap. materializes K L dk sources config st snap"
proof -
  let ?ns = "map gvk_Kind sources"
  have nj': "(case config of PJoinOp e # _ \<Rightarrow> F e | _ \<Rightarrow> x) = x" for F :: "Expression \<Rightarrow> 'z" and x
    using nj by (auto split: list.splits PipelineOp.splits)
  have nb: "(case config of PJoinOp e # _ \<Rightarrow> F e | _ \<Rightarrow> x) = x" for F :: "Expression \<Rightarrow> bool" and x
    using nj by (auto split: list.splits PipelineOp.splits)
  from lin have c: "mapM (chain_op L) (config_ops config) = Inr os" "distinct ?ns"
      "\<forall>oper \<in> set os. linear_stage oper \<and> plain dk oper" "length sources = 1" "length os \<le> 18"
    unfolding linear_config_def nb by auto
  from c(4) obtain src where src: "sources = [src]" by (cases sources) auto
  obtain f where view: "linear_view dk os f" using linear_view_exists [OF c(3)] ..
  let ?st = "source_view_st dk ?ns os f" and ?snap = "source_view dk f"
  from build_graph_query [OF c(2,1)] obtain g where g: "build_graph L sources config = Inr g" "graph_wf g"
      "input_names g = [gvk_Kind src]" "graph_query g = Inr (None, os)"
    unfolding nj' src by auto
  from optimize_single_view [OF g(2,4,3) c(3,5) view] obtain g1 where
    g1: "Optimize g = (g1, Inr ())" "single_view_st dk (gvk_Kind src) os f g1 (\<lambda>_. 0)" by blast
  then have "\<exists>out. NewExecutor g1 = (g1\<lparr>g_output := out\<rparr>, Inr ())"
    by (auto simp: single_view_st_def intro!: new_executor)
  moreover have "?st g1 (map (\<lambda>_ _. 0) sources)" using g1(2) src by (simp add: source_view_st_def)
  moreover have "\<exists>out. snapshot_result K L sources config sc = Inr out \<and> cnt out = ?snap (source_occs K sc sources)"
    if ok: "sources_ok K dk sc" for sc
  proof -
    from cache_zset_known [OF ok, of src] obtain z where z: "cache_zset K (source_store K sc src) = Inr z" "zknown dk z"
        "cnt z = store_occ K (source_store K sc src)" by blast
    have "config_join L sources config = None" unfolding config_join_def by (rule nj')
    with snapshot_single_query [OF view z(2)] z c(1) src show ?thesis
      by (auto simp: snapshot_result_def source_view_def source_occs_def fun_eq_iff)
  qed
  moreover have "?snap (map (\<lambda>_ _. 0) sources) k = 0" for k by (simp add: source_view_def src)
  ultimately show ?thesis
    using g(1) g1(1) source_query.view_query_axioms unfolding materializes_def by (metis source_view_st_output)
qed

section \<open>Correctness\<close>

lemma linear_config_new:
  assumes "k8s_laws K" and "linear_config L dk sources config os"
  shows "\<exists>st snap p0. materializes K L dk sources config st snap \<and> Pipeline_New K L oper target sources config = Inr p0 \<and>
    maintained K dk st snap p0 \<and> p_sources p0 = sources \<and> p_config p0 = config \<and> p_target p0 = target"
proof -
  have sl: "store_laws K" using assms(1) by (simp add: k8s_laws_def)
  have "\<exists>st snap. materializes K L dk sources config st snap"
  proof (cases "\<exists>e ops. config = PJoinOp e # ops")
    case True
    then show ?thesis using join_materializes assms(2) by blast
  next
    case False
    then show ?thesis using source_materializes [OF assms(2)] by blast
  qed
  then obtain st snap where m: "materializes K L dk sources config st snap" by blast
  then obtain g g1 g2 where g: "build_graph L sources config = Inr g" "Optimize g = (g1, Inr ())" "NewExecutor g1 = (g2, Inr ())"
      "st g2 (map (\<lambda>_ _. 0) sources)" "\<And>k. snap (map (\<lambda>_ _. 0) sources) k = 0"
    by (auto simp: materializes_def)
  have "distinct (map gvk_Kind sources)" "\<not> (length sources > 1 \<and> \<not> (config \<noteq> [] \<and> PipelineOp_OpType (hd config) = ''@join''))"
    using assms(2) unfolding join_first by (auto simp: linear_config_def split: list.splits PipelineOp.splits)
  moreover have "snap (map (\<lambda>_ _. 0) sources) = (\<lambda>_. 0)" using g(5) by (simp add: fun_eq_iff)
  moreover have "is_view K dk target (\<lambda>_. 0)" "tracks K dk target (Store_New K) (\<lambda>_. 0)"
    using empty_view [OF sl, of "\<lambda>_. 0"] by simp_all
  moreover have "sources_ok K dk []" using sl by (simp add: sources_ok_def source_store_def Store_New_def store_laws_def)
  ultimately show ?thesis
    using g(1-4) empty_source_occs [OF sl, of sources] m
    by (intro exI [of _ st] exI [of _ snap]) (auto simp: Pipeline_New_def Let_def maintained_def)
qed

lemma evaluate_config:
  assumes "k8s_laws K" and "iteration_order sched" and mat: "materializes K L dk (p_sources p) (p_config p) st snap"
    and m: "maintained K dk st snap p" and d: "view_delta K L dk p delta"
  shows "\<exists>p' ds. Pipeline_Evaluate K sched p delta = (p', Inr ds) \<and> maintained K dk st snap p' \<and>
    p_sources p' = p_sources p \<and> p_target p' = p_target p \<and> p_config p' = p_config p \<and>
    emits K dk (p_target p) (snap (source_occs K (p_sourceCache p) (p_sources p)))
      (snap (source_occs K (p_sourceCache p') (p_sources p))) ds"
proof -
  have "sources_ok K dk (p_sourceCache p)" using m by (simp add: maintained_def Let_def)
  with d ConvertDeltaToZSet_change [OF assms(1)] have "sources_ok K dk (fst (ConvertDeltaToZSet K (p_sourceCache p) delta))"
    by (fastforce simp: view_delta_def)
  with mat d have "acceptable K dk snap p delta"
    by (fastforce simp: materializes_def view_delta_def acceptable_def split: sum.splits)
  moreover have "view_query dk (map gvk_Kind (p_sources p)) st snap" using mat by (simp add: materializes_def)
  ultimately obtain p' ds where p': "Pipeline_Evaluate K sched p delta = (p', Inr ds)" "maintained K dk st snap p'"
      "p_sources p' = p_sources p" "p_target p' = p_target p"
      "emits K dk (p_target p) (snap (source_occs K (p_sourceCache p) (p_sources p)))
        (snap (source_occs K (p_sourceCache p') (p_sources p))) ds"
    using view_query.evaluate_maintains [OF _ assms(1,2) refl m] by blast
  moreover have "p_config p' = p_config p"
    using p'(1) by (auto simp: Pipeline_Evaluate_def reconcile_zset_def split: prod.splits sum.splits)
  ultimately show ?thesis by blast
qed

lemma reaches_maintained:
  assumes "reaches K L dk p0 p" and "k8s_laws K" and "materializes K L dk (p_sources p0) (p_config p0) st snap"
    and "maintained K dk st snap p0"
  shows "maintained K dk st snap p \<and> p_sources p = p_sources p0 \<and> p_config p = p_config p0 \<and> p_target p = p_target p0"
  using assms(1)
proof (induction rule: reaches.induct)
  case (evaluate p delta sched p' r)
  from evaluate.IH assms(3) have "materializes K L dk (p_sources p) (p_config p) st snap" by simp
  from evaluate_config [OF assms(2) evaluate.hyps(3) this _ evaluate.hyps(2)] evaluate.hyps(4) evaluate.IH
  show ?case by auto
qed (simp add: assms(4))

end
