(* ===== verification/K8s_Samples.thy ===== *)
theory K8s_Samples
  imports Store_Laws Op_Base
begin

text \<open>
  A concrete instance of the Kubernetes parameters, on which their laws are discharged: the
  accessors read and write the content map the way \<^verbatim>\<open>Unstructured\<close> does, and a store is the list
  of its insertions.  Also sample objects: two pods and the dictionary of their documents.
\<close>

section \<open>Accessors\<close>

definition meta_of :: "object \<Rightarrow> doc" where
  "meta_of obj = (case map_of obj ''metadata'' of Some (VMap m) \<Rightarrow> m | _ \<Rightarrow> [])"

definition field_str :: "string \<Rightarrow> doc \<Rightarrow> string" where
  "field_str f m = (case map_of m f of Some (VStr s) \<Rightarrow> s | _ \<Rightarrow> [])"

definition set_meta :: "string \<Rightarrow> string \<Rightarrow> object \<Rightarrow> object" where
  "set_meta f v obj =
     (case map_of obj ''metadata'' of
        Some (VMap m) \<Rightarrow> sm_set ''metadata'' (VMap (if v = [] then sm_del f m else sm_set f (VStr v) m)) obj
      | None \<Rightarrow> (if v = [] then obj else sm_set ''metadata'' (VMap [(f, VStr v)]) obj)
      | Some _ \<Rightarrow> obj)"

definition api_gvk :: "object \<Rightarrow> GroupVersionKind" where
  "api_gvk obj =
     (let kind = field_str ''kind'' obj in
      case split_on CHR ''/'' (field_str ''apiVersion'' obj) of
        [v] \<Rightarrow> \<lparr>gvk_Group = [], gvk_Version = v, gvk_Kind = kind\<rparr>
      | [g, v] \<Rightarrow> \<lparr>gvk_Group = g, gvk_Version = v, gvk_Kind = kind\<rparr>
      | _ \<Rightarrow> \<lparr>gvk_Group = [], gvk_Version = [], gvk_Kind = []\<rparr>)"

definition set_api :: "GroupVersionKind \<Rightarrow> object \<Rightarrow> object" where
  "set_api gvk obj =
     sm_set ''kind'' (VStr (gvk_Kind gvk))
       (sm_set ''apiVersion'' (VStr (if gvk_Group gvk = [] then gvk_Version gvk
          else gvk_Group gvk @ ''/'' @ gvk_Version gvk)) obj)"

definition meta_key :: "object \<Rightarrow> string" where
  "meta_key obj =
     (if field_str ''namespace'' (meta_of obj) = [] then field_str ''name'' (meta_of obj)
      else field_str ''namespace'' (meta_of obj) @ ''/'' @ field_str ''name'' (meta_of obj))"

definition live :: "object list \<Rightarrow> object list" where
  "live s = map snd (AList.clearjunk (map (\<lambda>obj. (meta_key obj, obj)) s))"

definition list_k8s :: "object list k8s" where
  "list_k8s = \<lparr>
     u_gvk = api_gvk,
     u_kind = field_str ''kind'',
     u_namespace = (\<lambda>obj. field_str ''namespace'' (meta_of obj)),
     u_name = (\<lambda>obj. field_str ''name'' (meta_of obj)),
     u_uid = (\<lambda>obj. field_str ''uid'' (meta_of obj)),
     u_set_gvk = set_api,
     u_set_namespace = set_meta ''namespace'',
     u_set_name = set_meta ''name'',
     u_set_uid = set_meta ''uid'',
     u_remove_uid = set_meta ''uid'' [],
     ObjectKey = (\<lambda>obj. field_str ''namespace'' (meta_of obj) @ ''/'' @ field_str ''name'' (meta_of obj)),
     ts_new = [],
     ts_add = (\<lambda>obj s. Inr (obj # s)),
     ts_update = (\<lambda>obj s. Inr (obj # s)),
     ts_delete = (\<lambda>obj s. Inr (filter (\<lambda>x. meta_key x \<noteq> meta_key obj) s)),
     ts_get = (\<lambda>obj s. Inr (find (\<lambda>x. meta_key x = meta_key obj) s)),
     ts_getByKey = (\<lambda>key s. Inr (find (\<lambda>x. meta_key x = key) s)),
     ts_list = live,
     ts_listKeys = (\<lambda>s. map meta_key (live s)),
     ts_replace = (\<lambda>objs s. Inr objs)\<rparr>"

section \<open>The laws\<close>

lemma list_store_key: "store_key list_k8s = meta_key"
  by (simp add: fun_eq_iff store_key_def list_k8s_def meta_key_def)

lemma clearjunk_sub: "set (AList.clearjunk xs) \<subseteq> set xs"
  by (induction xs rule: AList.clearjunk.induct) (auto simp: set_delete)

lemma live_keyed: "map (\<lambda>obj. (meta_key obj, obj)) (live s) = AList.clearjunk (map (\<lambda>obj. (meta_key obj, obj)) s)"
proof -
  let ?c = "AList.clearjunk (map (\<lambda>obj. (meta_key obj, obj)) s)"
  have "set ?c \<subseteq> set (map (\<lambda>obj. (meta_key obj, obj)) s)" by (rule clearjunk_sub)
  then have "\<forall>e \<in> set ?c. fst e = meta_key (snd e)" by auto
  then have "map (\<lambda>e. (meta_key (snd e), snd e)) ?c = ?c" by (intro map_idI) auto
  then show ?thesis by (simp add: live_def comp_def)
qed

lemma list_contents: "contents list_k8s s = map_of (map (\<lambda>obj. (meta_key obj, obj)) s)"
  unfolding contents_def list_store_key
  using live_keyed [of s] by (simp add: list_k8s_def map_of_clearjunk)

lemma find_map_of: "find (\<lambda>x. meta_key x = key) s = map_of (map (\<lambda>obj. (meta_key obj, obj)) s) key"
  by (induction s) auto

lemma map_of_filter_key:
  "map_of (map (\<lambda>obj. (meta_key obj, obj)) (filter (\<lambda>x. meta_key x \<noteq> key) s)) = (map_of (map (\<lambda>obj. (meta_key obj, obj)) s))(key := None)"
  by (induction s) (auto simp: fun_eq_iff)

lemma list_store_laws: "store_laws list_k8s"
proof -
  have "distinct (map meta_key (live s))" for s
    using distinct_clearjunk [of "map (\<lambda>obj. (meta_key obj, obj)) s"] unfolding live_keyed [symmetric] by (simp add: comp_def)
  then show ?thesis
    unfolding store_laws_def list_contents list_store_key
    by (simp add: list_k8s_def find_map_of map_of_filter_key live_def)
qed

lemma set_meta_simps:
  assumes "has_metadata obj"
  shows "meta_of (set_meta f v obj) = (if v = [] then sm_del f (meta_of obj) else sm_set f (VStr v) (meta_of obj))"
    and "has_metadata (set_meta f v obj)"
  using assms by (auto simp: has_metadata_def set_meta_def meta_of_def split: option.splits gval.splits)

lemma field_str_set [simp]:
  "field_str f (sm_set g v m) = (if f = g then (case v of VStr s \<Rightarrow> s | _ \<Rightarrow> []) else field_str f m)"
  "field_str f (sm_del g m) = (if f = g then [] else field_str f m)"
  by (auto simp: field_str_def)

lemma set_meta_other: "f \<noteq> g \<Longrightarrow> field_str f (meta_of (set_meta g [] obj)) = field_str f (meta_of obj)"
  "field_str ''kind'' (set_meta g v obj) = field_str ''kind'' obj" "field_str ''apiVersion'' (set_meta g v obj) = field_str ''apiVersion'' obj"
  by (auto simp: set_meta_def meta_of_def split: option.splits gval.splits)

lemma set_api_meta: "meta_of (set_api gvk obj) = meta_of obj" "has_metadata (set_api gvk obj) = has_metadata obj"
  by (simp_all add: set_api_def meta_of_def has_metadata_def)

lemma list_accessor_laws: "accessor_laws list_k8s"
  unfolding accessor_laws_def
  by (simp add: list_k8s_def set_meta_simps set_meta_other set_api_meta api_gvk_def Let_def)

lemma list_k8s_laws: "k8s_laws list_k8s"
  by (simp add: k8s_laws_def list_store_laws list_accessor_laws)

section \<open>Sample objects\<close>

definition pod_gvk :: GroupVersionKind where
  "pod_gvk = \<lparr>gvk_Group = [], gvk_Version = ''v1'', gvk_Kind = ''Pod''\<rparr>"

definition view_gvk :: GroupVersionKind where
  "view_gvk = ViewGroupVersionKind ''op'' ''PodView''"

definition pod_a :: object where
  "pod_a = [(''apiVersion'', VStr ''v1''), (''kind'', VStr ''Pod''),
     (''metadata'', VMap [(''name'', VStr ''a''), (''namespace'', VStr ''default'')]),
     (''spec'', VMap [(''nodeName'', VStr ''n1'')])]"

definition pod_b :: object where
  "pod_b = [(''apiVersion'', VStr ''v1''), (''kind'', VStr ''Pod''),
     (''metadata'', VMap [(''name'', VStr ''b''), (''namespace'', VStr ''default'')])]"

definition pod_key :: "object \<Rightarrow> string" where
  "pod_key obj = (case computeJSONKey obj of Inr k \<Rightarrow> k | Inl _ \<Rightarrow> [])"

definition dk_pods :: "string \<Rightarrow> doc" where
  "dk_pods k = (if k = pod_key pod_b then pod_b else pod_a)"

lemma pod_keys: "computeJSONKey pod_a = Inr (pod_key pod_a)" "computeJSONKey pod_b = Inr (pod_key pod_b)" "pod_key pod_a \<noteq> pod_key pod_b"
  by code_simp+

lemma known_pods: "known dk_pods d \<longleftrightarrow> d = pod_a \<or> d = pod_b"
  using pod_keys by (auto simp: known_def dk_pods_def split: if_splits)

definition sorted_order :: "nat \<Rightarrow> string list \<Rightarrow> string list" where
  "sorted_order i ks = ks"

end
