(* ===== verification/Pipeline_Properties.thy ===== *)
theory Pipeline_Properties
  imports Pipeline_Correct K8s_Samples Expr_Samples
begin

text \<open>The properties of the pipeline engine, its adaptor and their witnesses.\<close>

section \<open>The target cache is the materialized view\<close>

text \<open>
  C2. A pipeline of linear operations (an optional join, selections, projections,
  unwinds) is created successfully.  After any sequence of evaluations on deltas that fit the
  source caches and keep the primary keys of the view unique, its target cache holds exactly the
  objects that the configured operators produce on the whole content of the source caches, and
  the next evaluation succeeds.
\<close>

theorem pipeline_maintains_target:
  assumes "k8s_laws K" and "linear_config L dk sources config ops"
  shows "\<exists>p0. Pipeline_New K L oper target sources config = Inr p0 \<and>
    (\<forall>p. reaches K L dk p0 p \<longrightarrow>
      (\<exists>out. snapshot_result K L sources config (p_sourceCache p) = Inr out \<and>
         is_view K dk target (cnt out) \<and> tracks K dk target (p_targetCache p) (cnt out)) \<and>
      (\<forall>sched delta. iteration_order sched \<longrightarrow> view_delta K L dk p delta \<longrightarrow>
         is_ok (snd (Pipeline_Evaluate K sched p delta))))"
proof -
  from linear_config_new [OF assms, of oper target] obtain st snap p0 where p0:
      "materializes K L dk sources config st snap" "Pipeline_New K L oper target sources config = Inr p0"
      "maintained K dk st snap p0" "p_sources p0 = sources" "p_config p0 = config" "p_target p0 = target"
    by blast
  show ?thesis
  proof (intro exI [of _ p0] conjI allI impI)
    show "Pipeline_New K L oper target sources config = Inr p0" by (rule p0(2))
    fix p assume r: "reaches K L dk p0 p"
    from reaches_maintained [OF r assms(1)] p0 have m: "maintained K dk st snap p" "p_sources p = sources" "p_config p = config"
        "p_target p = target"
      by auto
    then have "sources_ok K dk (p_sourceCache p)" by (simp add: maintained_def Let_def)
    with p0(1) obtain out where "snapshot_result K L sources config (p_sourceCache p) = Inr out"
        "cnt out = snap (source_occs K (p_sourceCache p) sources)"
      by (auto simp: materializes_def)
    with m show "\<exists>out. snapshot_result K L sources config (p_sourceCache p) = Inr out \<and>
         is_view K dk target (cnt out) \<and> tracks K dk target (p_targetCache p) (cnt out)"
      by (auto simp: maintained_def Let_def)
    fix sched delta assume "iteration_order sched" "view_delta K L dk p delta"
    from evaluate_config [OF assms(1) this(1) _ m(1) this(2)] p0(1) m(2,3) show "is_ok (snd (Pipeline_Evaluate K sched p delta))"
      by auto
  qed
qed

definition pod_config :: "PipelineOp list" where
  "pod_config = [PSelectionOp (op_exp ''@exists'' (str_exp ''$.spec''))]"

definition pod_pipeline :: "object list Pipeline" where
  "pod_pipeline = (case Pipeline_New list_k8s path_libs ''op'' view_gvk [pod_gvk] pod_config of Inr p \<Rightarrow> p | Inl _ \<Rightarrow> undefined)"

lemma pod_select:
  "Selection_Evaluate path_libs (op_exp ''@exists'' (str_exp ''$.spec'')) pod_a = Inr [pod_a]"
  "Selection_Evaluate path_libs (op_exp ''@exists'' (str_exp ''$.spec'')) pod_b = Inr []"
  by code_simp+

lemma pod_linear_config:
  "linear_config path_libs dk_pods [pod_gvk] pod_config
     [SelectionOp (Selection_Evaluate path_libs (op_exp ''@exists'' (str_exp ''$.spec'')))]"
proof -
  have "maps_known dk_pods (Selection_Evaluate path_libs (op_exp ''@exists'' (str_exp ''$.spec'')))"
    unfolding maps_known_def known_pods using pod_select by auto
  then show ?thesis
    by (simp add: linear_config_def pod_config_def config_ops_def chain_op_def Let_def NewSelectionOp_def)
qed

definition add_a :: Delta where
  "add_a = \<lparr>d_Object = pod_a, d_Type = Added\<rparr>"

definition zset_pod :: zset where
  "zset_pod = \<lparr>docs = [(pod_key pod_a, pod_a)], counts = [(pod_key pod_a, 1)]\<rparr>"

lemma Pipeline_New_fields:
  assumes "Pipeline_New K L oper target sources config = Inr p"
  shows "p_sources p = sources" "p_config p = config" "p_target p = target" "p_sourceCache p = []"
proof -
  from assms obtain g where "(case Optimize g of (_, Inl e) \<Rightarrow> Inl (wrap ''failed to optimize pipeline'' e)
        | (g1, Inr _) \<Rightarrow> (case NewExecutor g1 of (_, Inl e) \<Rightarrow> Inl (wrap ''failed to create chain executor'' e)
             | (g2, Inr _) \<Rightarrow> Inr \<lparr>p_operator = oper, p_config = config, p_graph = g2, p_sources = sources, p_sourceCache = [],
                      p_target = target, p_targetCache = Store_New K, p_snapshotGraph = None, p_snapshotExecutor = False\<rparr>)) = Inr p"
    by (auto simp: Pipeline_New_def Let_def bind_Inr_iff split: if_split_asm)
  then show "p_sources p = sources" "p_config p = config" "p_target p = target" "p_sourceCache p = []"
    by (auto split: prod.split_asm sum.split_asm)
qed

lemma pod_new: "Pipeline_New list_k8s path_libs ''op'' view_gvk [pod_gvk] pod_config = Inr pod_pipeline"
proof -
  have "is_ok (Pipeline_New list_k8s path_libs ''op'' view_gvk [pod_gvk] pod_config)" by code_simp
  then show ?thesis by (auto simp: pod_pipeline_def is_ok_iff)
qed

lemma pod_pipeline_fields:
  "p_sources pod_pipeline = [pod_gvk]" "p_config pod_pipeline = pod_config" "p_target pod_pipeline = view_gvk"
  "p_sourceCache pod_pipeline = []"
  using Pipeline_New_fields [OF pod_new] by simp_all

lemma zset_pod_cnt: "cnt zset_pod k = (if k = pod_key pod_a then 1 else 0)"
  by (simp add: zset_pod_def cnt_def lookup0_Cons)

lemma pod_view: "is_view list_k8s dk_pods view_gvk (cnt zset_pod)"
proof -
  have "dk_pods (pod_key pod_a) = pod_a" using pod_keys(3) by (simp add: dk_pods_def)
  moreover have "is_ok (target_object list_k8s view_gvk pod_a)"
      "slash_free list_k8s (case target_object list_k8s view_gvk pod_a of Inr obj \<Rightarrow> obj | Inl _ \<Rightarrow> [])"
    by code_simp+
  ultimately show ?thesis by (auto simp: is_view_def zset_pod_cnt view_obj_def split: if_splits)
qed

lemma pod_fits: "fits list_k8s dk_pods [] add_a"
proof -
  have "Object_DeepCopy list_k8s pod_a = pod_a" "RemoveUID list_k8s pod_a = pod_a"
      "u_kind list_k8s pod_a = gvk_Kind (u_gvk list_k8s pod_a)"
    by code_simp+
  then show ?thesis
    by (simp add: fits_def add_a_def settled_def known_pods source_store_def Store_New_contents list_store_laws)
qed

lemma pod_snapshot:
  "snapshot_result list_k8s path_libs [pod_gvk] pod_config (fst (ConvertDeltaToZSet list_k8s [] add_a)) = Inr zset_pod"
  by code_simp

lemma pod_view_delta: "view_delta list_k8s path_libs dk_pods pod_pipeline add_a"
proof -
  have "u_gvk list_k8s pod_a = pod_gvk" by code_simp
  with pod_fits pod_view pod_snapshot show ?thesis
    by (simp add: view_delta_def pod_pipeline_fields) (simp add: add_a_def)
qed

theorem pipeline_maintains_target_witness:
  "k8s_laws list_k8s \<and> iteration_order sorted_order \<and> view_delta list_k8s path_libs dk_pods pod_pipeline add_a \<and>
   is_ok (snd (Pipeline_Evaluate list_k8s sorted_order pod_pipeline add_a)) \<and>
   (\<exists>out. snapshot_result list_k8s path_libs [pod_gvk] pod_config
       (p_sourceCache (fst (Pipeline_Evaluate list_k8s sorted_order pod_pipeline add_a))) = Inr out \<and>
     is_view list_k8s dk_pods view_gvk (cnt out) \<and>
     tracks list_k8s dk_pods view_gvk (p_targetCache (fst (Pipeline_Evaluate list_k8s sorted_order pod_pipeline add_a))) (cnt out))"
proof -
  let ?p = "fst (Pipeline_Evaluate list_k8s sorted_order pod_pipeline add_a)"
  have order: "iteration_order sorted_order" by (simp add: iteration_order_def sorted_order_def)
  have r: "reaches list_k8s path_libs dk_pods pod_pipeline ?p"
    by (rule reaches.evaluate [OF reaches.start pod_view_delta order]) (rule surjective_pairing)
  show ?thesis
    using pipeline_maintains_target [OF list_k8s_laws pod_linear_config, of "''op''" view_gvk] pod_new r
      reaches.start [of list_k8s path_libs dk_pods pod_pipeline] order pod_view_delta list_k8s_laws
    by auto
qed

section \<open>Reconciliation\<close>

text \<open>
  C5. Reconciliation of additions and deletions: the operation of every key is the one
  of the scenario table of the code, decided by the additions, the deletions and the presence of
  the object in the cache before the batch.  All deletes precede all upserts, there is at most
  one delta per key, and the cache changes exactly at the keys of the emitted deltas; all that
  in whatever order the map of keys is iterated.
\<close>

theorem reconcile_scenarios:
  assumes "k8s_laws K" and "iteration_order sched"
    and "\<forall>d \<in> set ds. d_Type d \<in> {Added, Deleted} \<and> slash_free K (d_Object d)"
  shows "\<exists>cache' dels ups. Reconcile K sched cache ds = (cache', Inr (dels @ ups)) \<and>
    (\<forall>d \<in> set dels. d_Type d = Deleted) \<and> (\<forall>d \<in> set ups. d_Type d = Upserted) \<and>
    distinct (map (\<lambda>d. ObjectKey K (d_Object d)) (dels @ ups)) \<and>
    (\<forall>d. d \<in> set (dels @ ups) \<longleftrightarrow> (\<exists>key. verdict (of_key K Added ds key) (of_key K Deleted ds key) (prior K cache ds key) = Some d)) \<and>
    (\<forall>d \<in> set dels. contents K cache' (store_key K (d_Object d)) = None) \<and>
    (\<forall>d \<in> set ups. contents K cache' (store_key K (d_Object d)) = Some (Object_DeepCopy K (d_Object d))) \<and>
    (\<forall>x. x \<notin> (\<lambda>d. store_key K (d_Object d)) ` set (dels @ ups) \<longrightarrow> contents K cache' x = contents K cache x)"
proof -
  obtain c dels ups where "Reconcile K sched cache ds = (c, Inr (dels @ ups))"
    "\<forall>d. d \<in> set (dels @ ups) \<longleftrightarrow> (\<exists>key. key_verdict K cache ds key = Some d)"
    "\<forall>d \<in> set dels. d_Type d = Deleted" "\<forall>d \<in> set ups. d_Type d = Upserted"
    "distinct (map (\<lambda>d. ObjectKey K (d_Object d)) (dels @ ups))"
    "\<forall>d \<in> set (dels @ ups). contents K c (store_key K (d_Object d)) = effect K d"
    "\<forall>x. x \<notin> (\<lambda>d. store_key K (d_Object d)) ` set (dels @ ups) \<longrightarrow> contents K c x = contents K cache x"
    using Reconcile_verdicts [OF assms, of cache] by blast
  then show ?thesis
    by (intro exI [of _ c] exI [of _ dels] exI [of _ ups]) (simp add: effect_def key_verdict_def)
qed

definition del_b :: Delta where
  "del_b = \<lparr>d_Object = pod_b, d_Type = Deleted\<rparr>"

theorem reconcile_scenarios_witness:
  "\<exists>cache' dels ups. Reconcile list_k8s sorted_order [pod_b] [add_a, del_b] = (cache', Inr (dels @ ups)) \<and>
    \<lparr>d_Object = pod_b, d_Type = Deleted\<rparr> \<in> set dels \<and> \<lparr>d_Object = pod_a, d_Type = Upserted\<rparr> \<in> set ups \<and>
    contents list_k8s cache' ''default/b'' = None"
proof -
  have ds: "\<forall>d \<in> set [add_a, del_b]. d_Type d \<in> {Added, Deleted} \<and> slash_free list_k8s (d_Object d)" by code_simp
  have order: "iteration_order sorted_order" by (simp add: iteration_order_def sorted_order_def)
  have v: "verdict (of_key list_k8s Added [add_a, del_b] ''default/b'') (of_key list_k8s Deleted [add_a, del_b] ''default/b'')
      (prior list_k8s [pod_b] [add_a, del_b] ''default/b'') = Some \<lparr>d_Object = pod_b, d_Type = Deleted\<rparr>"
    "verdict (of_key list_k8s Added [add_a, del_b] ''default/a'') (of_key list_k8s Deleted [add_a, del_b] ''default/a'')
      (prior list_k8s [pod_b] [add_a, del_b] ''default/a'') = Some \<lparr>d_Object = pod_a, d_Type = Upserted\<rparr>"
    "store_key list_k8s pod_b = ''default/b''"
    by code_simp+
  from reconcile_scenarios [OF list_k8s_laws order ds, of "[pod_b]"] obtain c dels ups where
    r: "Reconcile list_k8s sorted_order [pod_b] [add_a, del_b] = (c, Inr (dels @ ups))"
      "\<forall>d \<in> set dels. d_Type d = Deleted" "\<forall>d \<in> set ups. d_Type d = Upserted"
      "\<forall>d. d \<in> set (dels @ ups) \<longleftrightarrow> (\<exists>key. verdict (of_key list_k8s Added [add_a, del_b] key)
         (of_key list_k8s Deleted [add_a, del_b] key) (prior list_k8s [pod_b] [add_a, del_b] key) = Some d)"
      "\<forall>d \<in> set dels. contents list_k8s c (store_key list_k8s (d_Object d)) = None"
    by blast
  have "\<lparr>d_Object = pod_b, d_Type = Deleted\<rparr> \<in> set (dels @ ups)" "\<lparr>d_Object = pod_a, d_Type = Upserted\<rparr> \<in> set (dels @ ups)"
    using r(4) v(1,2) by blast+
  with r(2,3) have "\<lparr>d_Object = pod_b, d_Type = Deleted\<rparr> \<in> set dels" "\<lparr>d_Object = pod_a, d_Type = Upserted\<rparr> \<in> set ups"
    by auto
  with r(1,5) v(3) show ?thesis by force
qed

section \<open>Deltas of the sources\<close>

text \<open>
  C29. For a delta that fits the source cache (an addition is new, a deletion carries the
  cached object, other events carry anything) the Z-set is exactly the change of the cache: for
  every document, its multiplicity in the Z-set is its number of occurrences in the cache
  afterwards minus that before, and the caches of the other kinds stay as they are.
\<close>

theorem delta_is_cache_change:
  assumes "k8s_laws K" and "sources_ok K dk sc" and "fits K dk sc delta"
  shows "\<exists>sc' z. ConvertDeltaToZSet K sc delta = (sc', Inr z) \<and> zwf z \<and> sources_ok K dk sc' \<and>
    (\<forall>k. cnt z k = store_occ K (source_store K sc' (u_gvk K (d_Object delta))) k
       - store_occ K (source_store K sc (u_gvk K (d_Object delta))) k) \<and>
    (\<forall>gvk. gvk \<noteq> u_gvk K (d_Object delta) \<longrightarrow> source_store K sc' gvk = source_store K sc gvk)"
proof -
  from ConvertDeltaToZSet_change [OF assms] obtain sc' z where "ConvertDeltaToZSet K sc delta = (sc', Inr z)" "zknown dk z"
      "sources_ok K dk sc'" "\<forall>gvk. gvk \<noteq> u_gvk K (d_Object delta) \<longrightarrow> source_store K sc' gvk = source_store K sc gvk"
      "\<forall>k. store_occ K (source_store K sc' (u_gvk K (d_Object delta))) k =
         store_occ K (source_store K sc (u_gvk K (d_Object delta))) k + cnt z k"
    by blast
  then show ?thesis by (intro exI [of _ sc'] exI [of _ z]) simp
qed

theorem delta_is_cache_change_witness:
  "fits list_k8s dk_pods [] add_a \<and> (\<exists>sc' z. ConvertDeltaToZSet list_k8s [] add_a = (sc', Inr z) \<and>
    cnt z (pod_key pod_a) = store_occ list_k8s (source_store list_k8s sc' pod_gvk) (pod_key pod_a))"
proof -
  have ok: "sources_ok list_k8s dk_pods []" by (simp add: sources_ok_def source_store_def Store_New_def list_k8s_def live_def)
  have gvk: "u_gvk list_k8s (d_Object add_a) = pod_gvk" by code_simp
  have "store_occ list_k8s (source_store list_k8s [] pod_gvk) k = 0" for k
    by (simp add: store_occ_def source_store_def Store_New_def list_k8s_def live_def)
  with delta_is_cache_change [OF list_k8s_laws ok pod_fits] gvk pod_fits show ?thesis by auto
qed

end
