(* ===== verification/Object_Laws.thy ===== *)
theory Object_Laws
  imports Objects
begin

text \<open>
  Laws of patching: what a patch leaves at every key of a map and every position of a list, and
  that applying it twice is applying it once.
\<close>

section \<open>Values\<close>

lemma no_float_VList [simp]: "no_float (VList xs) \<longleftrightarrow> (\<forall>v \<in> set xs. no_float v)"
  by (auto simp: list_all_iff)

lemma no_float_VMap [simp]: "no_float (VMap m) \<longleftrightarrow> (\<forall>k v. (k, v) \<in> set m \<longrightarrow> no_float v)"
  by (force simp: list_all_iff)

declare no_float.simps(6,7) [simp del]

lemma deep_equal_sym: "deep_equal v w \<Longrightarrow> no_float w \<Longrightarrow> v = w"
proof (induction v arbitrary: w)
  case (VList xs)
  then show ?case by (cases w) (auto simp: list_all2_conv_all_nth intro!: nth_equalityI)
next
  case (VMap m)
  then obtain n where w: "w = VMap n" by (cases w) auto
  have "m ! i = n ! i" if "i < length m" for i
    using VMap.prems that VMap.IH [of "fst (m ! i)" "snd (m ! i)" "snd (n ! i)"]
    by (auto simp: w list_all2_conv_all_nth case_prod_unfold prod_eq_iff)
      (metis nth_mem prod.collapse)+
  then show ?case using VMap.prems by (auto simp: w list_all2_conv_all_nth intro!: nth_equalityI)
qed (auto split: gval.splits)

lemma patch_self: "no_float m \<Longrightarrow> patch m m = m"
  by (subst patch.simps) (simp add: deep_equal_iff)

lemma patch_equal: "no_float m \<Longrightarrow> (if deep_equal orig m then m else patch orig m) = patch orig m"
  by (auto simp: patch_self dest: deep_equal_sym)

text \<open>What a patch of a map leaves at a key, from the original entry and the patch's.\<close>

definition patched :: "gval option \<Rightarrow> gval option \<Rightarrow> gval option" where
  "patched old new =
     (case new of
        None \<Rightarrow> old
      | Some v \<Rightarrow> if v = VNil then None else Some (case old of None \<Rightarrow> v | Some vo \<Rightarrow> patch vo v))"

abbreviation patch_step :: "doc \<Rightarrow> doc \<Rightarrow> string \<times> gval \<Rightarrow> doc" where
  "patch_step litmo retm kv \<equiv>
     (case kv of (k, v) \<Rightarrow>
       if v = VNil then sm_del k retm
       else case map_of litmo k of
         None \<Rightarrow> sm_set k v retm
       | Some vo \<Rightarrow> sm_set k (if deep_equal vo v then v else patch vo v) retm)"

lemma patch_map_wf: "sm_wf acc \<Longrightarrow> sm_wf (foldl (patch_step litmo) acc litmm)"
  by (induction litmm arbitrary: acc) (auto split: option.splits)

lemma patch_map_entries:
  assumes "distinct (map fst litmm)" and "\<forall>k v. (k, v) \<in> set litmm \<longrightarrow> no_float v"
  shows "map_of (foldl (patch_step litmo) acc litmm) k
    = (if k \<in> keys litmm then patched (map_of litmo k) (map_of litmm k) else map_of acc k)"
  using assms
proof (induction litmm arbitrary: acc)
  case (Cons kv litmm)
  obtain k' v where kv: "kv = (k', v)" by force
  have "no_float v" using Cons.prems(2) by (auto simp: kv)
  then show ?case using Cons by (auto simp: kv patched_def patch_equal split: option.splits)
qed simp

lemma patch_maps:
  assumes "sm_wf litmo" and "sm_wf litmm" and "no_float (VMap litmm)"
  obtains r where "patch (VMap litmo) (VMap litmm) = VMap r" and "sm_wf r"
    and "litmo \<noteq> litmm \<Longrightarrow> map_of r = (\<lambda>k. patched (map_of litmo k) (map_of litmm k))"
    and "litmo = litmm \<Longrightarrow> r = litmm"
proof (cases "litmo = litmm")
  case True
  then show ?thesis using that [of litmm] assms patch_self by simp
next
  case False
  then have "\<not> deep_equal (VMap litmo) (VMap litmm)" using deep_equal_sym [OF _ assms(3), of "VMap litmo"] by blast
  then have "patch (VMap litmo) (VMap litmm) = VMap (foldl (patch_step litmo) litmo litmm)"
    by (subst patch.simps) simp
  moreover have "map_of (foldl (patch_step litmo) litmo litmm) k = patched (map_of litmo k) (map_of litmm k)" for k
    using patch_map_entries [OF sm_wf_distinct [OF assms(2)], of litmo litmo k] assms(3)
    by (cases "k \<in> keys litmm") (simp_all add: patched_def map_of_eq_None_iff [THEN iffD2])
  ultimately show ?thesis using that patch_map_wf [OF assms(1)] False by blast
qed

text \<open>Values as they come from JSON, without the struct the unwind operator uses.\<close>

primrec json_like :: "gval \<Rightarrow> bool" where
  "json_like VNil = True"
| "json_like (VBool b) = True"
| "json_like (VInt i) = True"
| "json_like (VFloat f) = True"
| "json_like (VStr s) = True"
| "json_like (VList xs) = list_all id (map json_like xs)"
| "json_like (VMap m) = list_all snd (map (map_prod id json_like) m)"
| "json_like (VListElem i v) = False"

lemma json_like_VMap: "json_like (VMap m) \<Longrightarrow> (k, v) \<in> set m \<Longrightarrow> json_like v"
  by (force simp: list_all_iff)

lemma patch_lists:
  assumes "no_float (VList litlm)"
  shows "patch (VList litlo) (VList litlm)
    = VList (map (\<lambda>(vo, v). patch vo v) (zip litlo litlm) @ drop (length litlm) litlo @ drop (length litlo) litlm)"
proof (cases "litlo = litlm")
  case True
  have "map (\<lambda>(vo, v). patch vo v) (zip litlm litlm) = litlm"
    using assms by (intro nth_equalityI) (auto intro: patch_self)
  then show ?thesis using assms by (simp add: True patch_self)
next
  case False
  then have "\<not> deep_equal (VList litlo) (VList litlm)" using deep_equal_sym [OF _ assms, of "VList litlo"] by blast
  moreover have "map (\<lambda>(vo, v). if deep_equal vo v then v else patch vo v) (zip litlo litlm)
      = map (\<lambda>(vo, v). patch vo v) (zip litlo litlm)"
    using assms by (auto simp: patch_equal dest: set_zip_rightD)
  ultimately show ?thesis by (subst patch.simps) simp
qed

lemma patch_replaces:
  assumes "json_like m" and "\<And>xs. m = VList xs \<Longrightarrow> (\<And>ys. orig \<noteq> VList ys)" and "\<And>xs. m = VMap xs \<Longrightarrow> (\<And>ys. orig \<noteq> VMap ys)"
  shows "patch orig m = m"
  using assms by (subst patch.simps) (auto split: gval.splits)

lemma patch_scalars [simp]:
  "patch orig VNil = VNil" "patch orig (VBool b) = VBool b" "patch orig (VInt i) = VInt i" "patch orig (VStr s) = VStr s"
  by (rule patch_replaces; simp)+

lemma patch_idem: "gwf orig \<Longrightarrow> gwf m \<Longrightarrow> no_float m \<Longrightarrow> json_like m \<Longrightarrow> patch (patch orig m) m = patch orig m"
proof (induction m arbitrary: orig)
  case (VList litlm)
  show ?case
  proof (cases orig)
    case (VList litlo)
    have "patch (patch (litlo ! i) (litlm ! i)) (litlm ! i) = patch (litlo ! i) (litlm ! i)"
      if "i < length litlo" "i < length litlm" for i
      using that VList.IH [of "litlm ! i" "litlo ! i"] VList.prems by (simp add: VList list_all_iff)
    moreover have "patch (litlm ! i) (litlm ! i) = litlm ! i" if "i < length litlm" for i
      using that VList.prems(3) by (simp add: patch_self)
    ultimately show ?thesis using VList.prems(3)
      by (simp add: VList patch_lists) (intro nth_equalityI; auto simp: nth_append)
  qed (use VList.prems patch_replaces [of "VList litlm" orig] in \<open>simp_all add: patch_self\<close>)
next
  case (VMap litmm)
  show ?case
  proof (cases orig)
    case (VMap litmo)
    obtain r where r: "patch (VMap litmo) (VMap litmm) = VMap r" "sm_wf r"
      "litmo \<noteq> litmm \<Longrightarrow> map_of r = (\<lambda>k. patched (map_of litmo k) (map_of litmm k))" "litmo = litmm \<Longrightarrow> r = litmm"
      using patch_maps [of litmo litmm] VMap.prems by (auto simp: VMap)
    obtain q where q: "patch (VMap r) (VMap litmm) = VMap q" "sm_wf q"
      "r \<noteq> litmm \<Longrightarrow> map_of q = (\<lambda>k. patched (map_of r k) (map_of litmm k))" "r = litmm \<Longrightarrow> q = litmm"
      using patch_maps [of r litmm] VMap.prems r(2) by auto
    have "patched (patched (map_of litmo k) (map_of litmm k)) (map_of litmm k) = patched (map_of litmo k) (map_of litmm k)" for k
    proof (cases "map_of litmm k")
      case (Some v)
      then have v: "(k, v) \<in> set litmm" by (rule map_of_SomeD)
      have "patch (patch vo v) v = patch vo v" if "map_of litmo k = Some vo" for vo
        using VMap.IH [OF v] VMap.prems map_of_SomeD [OF that] v json_like_VMap [OF _ v] by (auto simp: VMap)
      moreover have "patch v v = v" using VMap.prems(3) v by (auto intro: patch_self)
      ultimately show ?thesis by (auto simp: patched_def Some split: option.splits)
    qed (simp add: patched_def)
    then have "q = r" using q r by (cases "r = litmm"; cases "litmo = litmm") (auto intro: sm_ext)
    with q(1) r(1) show ?thesis by (simp add: VMap)
  qed (use VMap.prems patch_replaces [of "VMap litmm" orig] in \<open>simp_all add: patch_self\<close>)
qed simp_all

section \<open>Patching as merging\<close>

text \<open>
  The reference for a patch, independent of the code.  A value merged with itself is itself.  Maps
  are merged key by key: a key the patch does not have keeps its value, a null removes the key, a new
  key takes the value of the patch, and a common key the merged value.  Lists are merged position by
  position, the longer one giving the rest.  Anything else is replaced by the value of the patch.
\<close>

inductive merges :: "gval \<Rightarrow> gval \<Rightarrow> gval \<Rightarrow> bool" where
  merges_same: "merges v v v"
| merges_replace: "orig \<noteq> m \<Longrightarrow> \<not> (\<exists>xs ys. orig = VList xs \<and> m = VList ys) \<Longrightarrow> \<not> (\<exists>a b. orig = VMap a \<and> m = VMap b) \<Longrightarrow>
    merges orig m m"
| merges_lists: "xs \<noteq> ys \<Longrightarrow> length zs = max (length xs) (length ys) \<Longrightarrow>
    (\<And>i. i < length xs \<Longrightarrow> i < length ys \<Longrightarrow> merges (xs ! i) (ys ! i) (zs ! i)) \<Longrightarrow>
    (\<And>i. i < length xs \<Longrightarrow> length ys \<le> i \<Longrightarrow> zs ! i = xs ! i) \<Longrightarrow>
    (\<And>i. i < length ys \<Longrightarrow> length xs \<le> i \<Longrightarrow> zs ! i = ys ! i) \<Longrightarrow>
    merges (VList xs) (VList ys) (VList zs)"
| merges_maps: "a \<noteq> b \<Longrightarrow> sm_wf r \<Longrightarrow>
    (\<And>k. map_of b k = None \<Longrightarrow> map_of r k = map_of a k) \<Longrightarrow>
    (\<And>k. map_of b k = Some VNil \<Longrightarrow> map_of r k = None) \<Longrightarrow>
    (\<And>k v. map_of b k = Some v \<Longrightarrow> v \<noteq> VNil \<Longrightarrow> map_of a k = None \<Longrightarrow> map_of r k = Some v) \<Longrightarrow>
    (\<And>k u v. map_of a k = Some u \<Longrightarrow> map_of b k = Some v \<Longrightarrow> v \<noteq> VNil \<Longrightarrow> \<exists>w. map_of r k = Some w \<and> merges u v w) \<Longrightarrow>
    merges (VMap a) (VMap b) (VMap r)"

inductive_cases merges_listsE: "merges (VList xs) (VList ys) r"
inductive_cases merges_mapsE: "merges (VMap a) (VMap b) r"

lemma merges_refl: "merges v v r \<Longrightarrow> r = v"
  by (erule merges.cases) auto

lemma merges_determ: "merges orig m r \<Longrightarrow> merges orig m r' \<Longrightarrow> r = r'"
proof (induction arbitrary: r' rule: merges.induct)
  case (merges_same v)
  from merges_refl [OF merges_same.prems] show ?case by simp
next
  case (merges_replace orig m)
  from merges_replace.prems merges_replace.hyps show ?case by (auto elim: merges.cases)
next
  case (merges_lists xs ys zs)
  from merges_lists.prems merges_lists.hyps(1) obtain zs' where r': "r' = VList zs'" "length zs' = max (length xs) (length ys)"
    "\<And>i. i < length xs \<Longrightarrow> i < length ys \<Longrightarrow> merges (xs ! i) (ys ! i) (zs' ! i)"
    "\<And>i. i < length xs \<Longrightarrow> length ys \<le> i \<Longrightarrow> zs' ! i = xs ! i" "\<And>i. i < length ys \<Longrightarrow> length xs \<le> i \<Longrightarrow> zs' ! i = ys ! i"
    by (auto elim: merges_listsE)
  have "zs ! i = zs' ! i" if "i < length zs" for i
    using that merges_lists.hyps(2) merges_lists.IH [of i "zs' ! i"] merges_lists.hyps(4,5) [of i] r'(3-5) [of i]
    by (cases "i < length xs"; cases "i < length ys") auto
  then show ?case using merges_lists.hyps(2) r'(1,2) by (auto intro: nth_equalityI)
next
  case (merges_maps a b r)
  from merges_maps.prems merges_maps.hyps(1) obtain q where q: "r' = VMap q" "sm_wf q"
    "\<And>k. map_of b k = None \<Longrightarrow> map_of q k = map_of a k" "\<And>k. map_of b k = Some VNil \<Longrightarrow> map_of q k = None"
    "\<And>k v. map_of b k = Some v \<Longrightarrow> v \<noteq> VNil \<Longrightarrow> map_of a k = None \<Longrightarrow> map_of q k = Some v"
    "\<And>k u v. map_of a k = Some u \<Longrightarrow> map_of b k = Some v \<Longrightarrow> v \<noteq> VNil \<Longrightarrow> \<exists>w. map_of q k = Some w \<and> merges u v w"
    by (auto elim: merges_mapsE)
  have "map_of r k = map_of q k" for k
  proof (cases "map_of b k")
    case None
    then show ?thesis using merges_maps.hyps(3) q(3) by simp
  next
    case (Some v)
    show ?thesis
    proof (cases "v = VNil")
      case True
      then show ?thesis using Some merges_maps.hyps(4) q(4) by simp
    next
      case False
      show ?thesis
      proof (cases "map_of a k")
        case None
        then show ?thesis using merges_maps.hyps(5) [OF Some False] q(5) [OF Some False] by simp
      next
        case (Some u)
        then show ?thesis using merges_maps.IH [OF Some \<open>map_of b k = Some v\<close> False] q(6) [OF Some \<open>map_of b k = Some v\<close> False] by auto
      qed
    qed
  qed
  then have "r = q" using merges_maps.hyps(2) q(2) by (auto intro: sm_ext)
  then show ?case using q(1) by simp
qed

lemma merges_no_parts:
  assumes "no_float m" and "json_like m" and "\<And>xs ys. orig = VList xs \<Longrightarrow> m = VList ys \<Longrightarrow> xs = ys" and "\<And>a b. orig = VMap a \<Longrightarrow> m = VMap b \<Longrightarrow> a = b"
  shows "merges orig m (patch orig m)"
proof (cases "orig = m")
  case True
  then show ?thesis using patch_self [OF assms(1)] by (simp add: merges_same)
next
  case False
  then have "patch orig m = m" using assms(3,4) by (intro patch_replaces [OF assms(2)]) blast+
  then show ?thesis using False assms(3,4) by (auto intro!: merges_replace)
qed

lemma patch_merges: "gwf orig \<Longrightarrow> gwf m \<Longrightarrow> no_float m \<Longrightarrow> json_like m \<Longrightarrow> merges orig m (patch orig m)"
proof (induction m arbitrary: orig)
  case (VList ys)
  show ?case
  proof (cases "\<exists>xs. orig = VList xs \<and> xs \<noteq> ys")
    case True
    then obtain xs where xs: "orig = VList xs" "xs \<noteq> ys" by blast
    have "merges (xs ! i) (ys ! i) (patch (xs ! i) (ys ! i))" if "i < length xs" "i < length ys" for i
      using that VList.IH [of "ys ! i" "xs ! i"] VList.prems by (simp add: xs list_all_iff)
    then show ?thesis using VList.prems(3) xs(2)
      by (auto simp: xs(1) patch_lists nth_append intro!: merges_lists)
  next
    case False
    then show ?thesis using VList.prems by (intro merges_no_parts) auto
  qed
next
  case (VMap b)
  show ?case
  proof (cases "\<exists>a. orig = VMap a \<and> a \<noteq> b")
    case True
    then obtain a where a: "orig = VMap a" "a \<noteq> b" by blast
    obtain r where r: "patch (VMap a) (VMap b) = VMap r" "sm_wf r" "map_of r = (\<lambda>k. patched (map_of a k) (map_of b k))"
      using patch_maps [of a b] VMap.prems a by auto
    have "merges u v (patch u v)" if "map_of a k = Some u" "map_of b k = Some v" for k u v
      using VMap.IH [OF map_of_SomeD [OF that(2)]] VMap.prems map_of_SomeD [OF that(1)] map_of_SomeD [OF that(2)]
        json_like_VMap [OF _ map_of_SomeD [OF that(2)]] by (auto simp: a)
    then show ?thesis using a r by (auto simp: patched_def intro!: merges_maps)
  next
    case False
    then show ?thesis using VMap.prems by (intro merges_no_parts) auto
  qed
qed (rule merges_no_parts; simp)+

end
