(* ===== verification/Object_Properties.thy ===== *)
theory Object_Properties
  imports Object_Laws Pipeline_Ops Expr_Properties
begin

text \<open>
  Properties of objects and of the configuration: embedding native kinds into views, patches, the
  identifiers of view objects, and the JSON form of pipelines.
\<close>

section \<open>Kinds of views\<close>

text \<open>
  Embedding a native kind into the views of an operator gives a view kind; when the
  group and the version contain no dot and the group is not literally \<^verbatim>\<open>core\<close>, mapping it back
  returns the kind, and when the operator's name contains no dot, the operator is recovered too.
\<close>

theorem view_kind_roundtrip:
  assumes "CHR ''.'' \<notin> set (gvk_Group gvk)" and "CHR ''.'' \<notin> set (gvk_Version gvk)" and "gvk_Group gvk \<noteq> ''core''"
    and "CHR ''.'' \<notin> set oper"
  shows "IsViewKind (MapIntoView oper gvk) \<and> MapFromView (MapIntoView oper gvk) = Inr gvk
    \<and> GetOperator (MapIntoView oper gvk) = oper"
proof -
  define g where "g = (if gvk_Group gvk = [] then ''core'' else gvk_Group gvk)"
  have into: "MapIntoView oper gvk = \<lparr>gvk_Group = (g @ ''.'' @ gvk_Version gvk @ ''.'') @ Group oper,
      gvk_Version = ViewVersion, gvk_Kind = gvk_Kind gvk\<rparr>"
    by (simp add: MapIntoView_def g_def)
  have "CHR ''.'' \<notin> set g" using assms(1) by (simp add: g_def)
  then have "splitN 3 CHR ''.'' (g @ ''.'' @ gvk_Version gvk @ ''.'' @ Group oper) = [g, gvk_Version gvk, Group oper]"
    using assms(2) by (simp add: splitN_first splitN_last)
  moreover have "gvk = \<lparr>gvk_Group = (if g = ''core'' then [] else g), gvk_Version = gvk_Version gvk, gvk_Kind = gvk_Kind gvk\<rparr>"
    using assms(3) by (simp add: g_def)
  ultimately have "MapFromView (MapIntoView oper gvk) = Inr gvk"
    using IsViewGroup_Group(2) [of "g @ ''.'' @ gvk_Version gvk @ ''.''" oper] by (simp add: into MapFromView_def split: if_splits)
  moreover have "GetOperator (MapIntoView oper gvk) = oper"
    using GetOperator_prefix [of "(g @ ''.'' @ gvk_Version gvk) @ ''.'' @ oper" ViewVersion "gvk_Kind gvk"]
      last_split_on [OF assms(4), of "g @ ''.'' @ gvk_Version gvk"]
    by (simp add: into Group_full)
  moreover have "IsViewKind (MapIntoView oper gvk)"
    by (simp add: into IsViewKind_iff del: append_assoc)
  ultimately show ?thesis by blast
qed

definition deployment_kind :: GroupVersionKind where
  "deployment_kind = \<lparr>gvk_Group = ''apps'', gvk_Version = ''v1'', gvk_Kind = ''Deployment''\<rparr>"

theorem view_kind_roundtrip_witness:
  "MapFromView (MapIntoView ''op'' deployment_kind) = Inr deployment_kind
    \<and> GetOperator (MapIntoView ''op'' deployment_kind) = ''op''"
  using view_kind_roundtrip [of deployment_kind "''op''"] by (simp add: deployment_kind_def)

text \<open>
  For a group with a dot, such as those of Kubernetes' own networking resources, the way back
  gives another kind.
\<close>

definition ingress_kind :: GroupVersionKind where
  "ingress_kind = \<lparr>gvk_Group = ''networking.k8s.io'', gvk_Version = ''v1'', gvk_Kind = ''Ingress''\<rparr>"

theorem dotted_group_is_lost:
  "MapFromView (MapIntoView ''op'' ingress_kind)
    = Inr \<lparr>gvk_Group = ''networking'', gvk_Version = ''k8s'', gvk_Kind = ''Ingress''\<rparr>"
  by code_simp

section \<open>Identifiers\<close>

definition hex_alphabet :: string where
  "hex_alphabet = ''0123456789abcdef''"

definition hex_group :: "nat \<Rightarrow> string \<Rightarrow> bool" where
  "hex_group n s \<longleftrightarrow> length s = n \<and> set s \<subseteq> set hex_alphabet"

lemma hex_digit_alphabet: "n < 16 \<Longrightarrow> Sha256.hex_digit n \<in> set hex_alphabet"
proof -
  have "list_all (\<lambda>n. Sha256.hex_digit n \<in> set hex_alphabet) [0..<16]" by code_simp
  then show "n < 16 \<Longrightarrow> ?thesis" by (simp add: list_all_iff)
qed

lemma hex_chars: "set (hex bs) \<subseteq> set hex_alphabet"
proof -
  have "unat b div 16 < 16 \<and> unat b mod 16 < 16" for b :: byte
    using unsigned_less [of b, where 'a = nat] by simp
  then show ?thesis by (auto simp: hex_def intro!: hex_digit_alphabet)
qed

text \<open>
  C40. Every generated identifier has the shape of a UUID: groups of 8, 4, 4, 4 and 12
  lower-case hexadecimal digits separated by dashes, 36 characters in all.
\<close>

theorem uid_shape:
  "\<exists>a b c d e. NewUID gvk ns name = a @ ''-'' @ b @ ''-'' @ c @ ''-'' @ d @ ''-'' @ e
    \<and> hex_group 8 a \<and> hex_group 4 b \<and> hex_group 4 c \<and> hex_group 4 d \<and> hex_group 12 e
    \<and> length (NewUID gvk ns name) = 36"
  unfolding NewUID_def Let_def
  by (intro exI conjI, rule refl) (simp_all add: hex_group_def hex_chars)

section \<open>Patches\<close>

text \<open>
  C38. Patching an object with content as it comes from JSON, without floating-point numbers in the
  patch, succeeds, and the result is the one and only value that merging allows: maps key by key,
  where a null of the patch removes the key, lists position by position, a value equal to that of the
  patch as it is (with its nulls), everything else replaced by the value of the patch.  Applying the same patch again changes nothing.
\<close>

theorem patch_object:
  assumes "gwf (VMap obj)" and "gwf (VMap m)" and "no_float (VMap m)" and "json_like (VMap m)"
  shows "\<exists>r. Patch obj m = Inr r \<and> sm_wf r \<and> (\<forall>v. merges (VMap obj) (VMap m) v \<longleftrightarrow> v = VMap r) \<and> Patch r m = Inr r"
proof -
  obtain r where r: "patch (VMap obj) (VMap m) = VMap r" "sm_wf r" using patch_maps [of obj m] assms by (metis gwf_VMap)
  moreover have "patch (VMap r) (VMap m) = VMap r" using patch_idem [OF assms] r(1) by simp
  moreover have "merges (VMap obj) (VMap m) (VMap r)" using patch_merges [OF assms] r(1) by simp
  ultimately show ?thesis using merges_determ by (auto simp: Patch_def)
qed

definition sample_object :: doc where
  "sample_object = [(''metadata'', VMap [(''name'', VStr ''a''), (''uid'', VStr ''1'')]), (''spec'', VList [VInt 1, VInt 2])]"

definition sample_patch :: doc where
  "sample_patch = [(''metadata'', VMap [(''uid'', VNil)]), (''spec'', VList [VInt 3])]"

theorem patch_object_witness:
  "\<exists>r. Patch sample_object sample_patch = Inr r \<and> Patch r sample_patch = Inr r \<and> merges (VMap sample_object) (VMap sample_patch) (VMap r)
    \<and> r = [(''metadata'', VMap [(''name'', VStr ''a'')]), (''spec'', VList [VInt 3, VInt 2])]"
proof -
  have "Patch sample_object sample_patch = Inr [(''metadata'', VMap [(''name'', VStr ''a'')]), (''spec'', VList [VInt 3, VInt 2])]" by code_simp
  moreover have "gwf (VMap sample_object)" "gwf (VMap sample_patch)" "no_float (VMap sample_patch)" "json_like (VMap sample_patch)"
    by code_simp+
  ultimately show ?thesis using patch_object [of sample_object sample_patch] by auto
qed

section \<open>The JSON form of pipelines\<close>

lemma pipeline_op_OpType: "pipeline_op (PipelineOp_OpType oper) (GetExpression oper) = Inr oper"
  by (cases oper) (simp_all add: pipeline_op_def)

lemma OpType_utf8: "utf8_fix (PipelineOp_OpType oper) = PipelineOp_OpType oper"
  by (cases oper; simp; code_simp)

lemma marshal_op_survives:
  assumes "clean (GetExpression oper)"
  shows "\<exists>j. marshalPipelineOp oper = Inr (JObj [(PipelineOp_OpType oper, j)])
    \<and> unmarshalPipelineOp (JObj [(PipelineOp_OpType oper, j)]) = Inr oper"
proof -
  from clean_survives(1) [OF assms] obtain j where "MarshalJSON (GetExpression oper) = Inr j"
    "UnmarshalJSON j = Inr (GetExpression oper)" by (auto simp: survives_def)
  then show ?thesis
    by (simp add: marshalPipelineOp_def op_object_def OpType_utf8 unmarshalPipelineOp_def unmarshal_exp_map_def
        pipeline_op_OpType)
qed

lemma mapM_marshal_survives:
  "\<forall>oper \<in> set ops. clean (GetExpression oper) \<Longrightarrow>
    \<exists>js. mapM marshalPipelineOp ops = Inr js \<and> mapM unmarshalPipelineOp js = Inr ops"
proof (induction ops)
  case (Cons oper ops)
  then show ?case using marshal_op_survives [of oper] by auto
qed simp

text \<open>
  Decoding the JSON form of a pipeline gives the pipeline back, for
  every number of operations (a single one is written without the list), when their expressions
  are clean.
\<close>

theorem pipeline_json_roundtrip:
  assumes "\<forall>oper \<in> set ops. clean (GetExpression oper)"
  shows "\<exists>j. Pipeline_MarshalJSON ops = Inr j \<and> Pipeline_UnmarshalJSON j = Inr ops"
proof (cases "\<exists>oper. ops = [oper]")
  case True
  then obtain oper where "ops = [oper]" ..
  with marshal_op_survives [of oper] assms show ?thesis
    by (auto simp: Pipeline_MarshalJSON_def Pipeline_UnmarshalJSON_def)
next
  case False
  obtain js where "mapM marshalPipelineOp ops = Inr js" "mapM unmarshalPipelineOp js = Inr ops"
    using mapM_marshal_survives [OF assms] by blast
  with False show ?thesis
    by (auto simp: Pipeline_MarshalJSON_def Pipeline_UnmarshalJSON_def split: list.splits)
qed

theorem pipeline_json_roundtrip_witness:
  "\<exists>j. Pipeline_MarshalJSON [PSelectionOp (sample_gt ''$.spec.x''), PProjectionOp (sample_gt ''$.spec.x'')] = Inr j
    \<and> Pipeline_UnmarshalJSON j = Inr [PSelectionOp (sample_gt ''$.spec.x''), PProjectionOp (sample_gt ''$.spec.x'')]"
proof -
  have "clean (sample_gt ''$.spec.x'')" by (simp add: sample_gt_def clean_shape_def clean_value_def)
  then show ?thesis
    using pipeline_json_roundtrip [of "[PSelectionOp (sample_gt ''$.spec.x''), PProjectionOp (sample_gt ''$.spec.x'')]"] by simp
qed

end
