(* ===== verification/Auth.thy ===== *)
theory Auth
  imports View_Group
begin

text \<open>
  Package \<^verbatim>\<open>auth\<close>: policy rules and their wildcard patterns (\<^verbatim>\<open>rbac.go\<close>), the authorizer that
  combines them with namespace restrictions (\<^verbatim>\<open>authorizer.go\<close>), bearer tokens
  (\<^verbatim>\<open>authenticator.go\<close>, \<^verbatim>\<open>token.go\<close>), and the part of the command line that issues them
  (\<^verbatim>\<open>main.go\<close>).  Signing and parsing of tokens, their dates, and the JSON text of rule lists are
  library code: the record \<open>auth_libs\<close>.
\<close>

section \<open>Policy rules (\<^verbatim>\<open>rbac.go\<close>)\<close>

record PolicyRule =
  Verbs :: "string list"
  APIGroups :: "string list"
  Resources :: "string list"
  ResourceNames :: "string list"

record UserInfo =
  ui_Name :: string
  ui_Extra :: "(string \<times> string list) list"

text \<open>Reading a missing key of a Go map of slices gives the empty slice.\<close>

definition extra :: "UserInfo \<Rightarrow> string \<Rightarrow> string list" where
  "extra u k = (case map_of (ui_Extra u) k of Some vs \<Rightarrow> vs | None \<Rightarrow> [])"

definition HasPrefix :: "string \<Rightarrow> string \<Rightarrow> bool" where
  "HasPrefix s pre \<longleftrightarrow> take (length pre) s = pre"

definition TrimPrefix :: "string \<Rightarrow> string \<Rightarrow> string" where
  "TrimPrefix s pre = (if HasPrefix s pre then drop (length pre) s else s)"

definition TrimSuffix :: "string \<Rightarrow> string \<Rightarrow> string" where
  "TrimSuffix s suf = (if HasSuffix s suf then take (length s - length suf) s else s)"

definition matchesWildcard :: "string \<Rightarrow> string \<Rightarrow> bool" where
  "matchesWildcard pattern val =
     (if HasPrefix pattern ''*'' then HasSuffix val (TrimPrefix pattern ''*'')
      else if HasSuffix pattern ''*'' then HasPrefix val (TrimSuffix pattern ''*'')
      else
        let parts = splitN 2 CHR ''*'' pattern in
        if length parts = 2 then HasPrefix val (parts ! 0) \<and> HasSuffix val (parts ! 1)
        else False)"

fun matches :: "string list \<Rightarrow> string \<Rightarrow> bool" where
  "matches [] requested = False"
| "matches (ruleValue # ruleValues) requested =
     (if ruleValue = ''*'' then True
      else if ruleValue = requested then True
      else if CHR ''*'' \<in> set ruleValue \<and> matchesWildcard ruleValue requested then True
      else matches ruleValues requested)"

definition collectionVerbs :: "string list" where
  "collectionVerbs = [''list'', ''watch'', ''create'', ''deletecollection'']"

definition ruleMatches :: "PolicyRule \<Rightarrow> string \<Rightarrow> string \<Rightarrow> string \<Rightarrow> string \<Rightarrow> bool" where
  "ruleMatches rule verb apiGroup resource resourceName =
     (if \<not> matches (Verbs rule) verb then False
      else if \<not> matches (APIGroups rule) apiGroup then False
      else if \<not> matches (Resources rule) resource then False
      else if List.member collectionVerbs verb then True
      else if ResourceNames rule \<noteq> [] \<and> resourceName \<noteq> [] \<and> \<not> matches (ResourceNames rule) resourceName then False
      else True)"

section \<open>Libraries and claims\<close>

record Claims =
  Username :: string
  Namespaces :: "string list"
  Rules :: "PolicyRule list"
  ExpiresAt :: int
  IssuedAt :: int
  NotBefore :: int
  Issuer :: string

text \<open>
  \<open>jwt_parse\<close> is \<^verbatim>\<open>jwt.ParseWithClaims\<close> at a point in time: it calls back with whether the
  token names an RSA signing method, to get the key, and returns the claims and the flag
  \<^verbatim>\<open>Valid\<close>.
\<close>

record ('priv, 'pub) auth_libs =
  jwt_sign :: "'priv \<Rightarrow> Claims \<Rightarrow> string res"
  jwt_parse :: "int \<Rightarrow> string \<Rightarrow> (bool \<Rightarrow> 'pub res) \<Rightarrow> (Claims \<times> bool) res"
  jwt_NewNumericDate :: "int \<Rightarrow> int"
  rules_Marshal :: "PolicyRule list \<Rightarrow> string res"
  rules_Unmarshal :: "string \<Rightarrow> PolicyRule list res"

definition CheckRBACAccess :: "('priv, 'pub) auth_libs \<Rightarrow> UserInfo \<Rightarrow> string \<Rightarrow> string \<Rightarrow> string \<Rightarrow> string \<Rightarrow> bool" where
  "CheckRBACAccess A userInfo verb apiGroup resource resourceName =
     (case extra userInfo ''rules'' of
        [] \<Rightarrow> True
      | rulesJSON # _ \<Rightarrow>
          (case rules_Unmarshal A rulesJSON of
             Inl _ \<Rightarrow> False
           | Inr rules \<Rightarrow> list_ex (\<lambda>rule. ruleMatches rule verb apiGroup resource resourceName) rules))"

section \<open>The authorizer (\<^verbatim>\<open>authorizer.go\<close>)\<close>

datatype Decision = DecisionDeny | DecisionAllow | DecisionNoOpinion

record Attributes =
  at_User :: "UserInfo option"
  at_IsResourceRequest :: bool
  at_Verb :: string
  at_APIGroup :: string
  at_Resource :: string
  at_Name :: string
  at_Namespace :: string

definition namespace_denial :: "string list \<Rightarrow> string \<Rightarrow> string option" where
  "namespace_denial allowedNamespaces requestedNamespace =
     (if allowedNamespaces \<noteq> [] then
        let hasWildcard = list_ex (\<lambda>ns. ns = ''*'') allowedNamespaces in
        if requestedNamespace = [] then
          (if \<not> hasWildcard then Some ''cross-namespace operations not allowed with namespace restrictions; please specify a namespace''
           else None)
        else if \<not> hasWildcard then
          (if \<not> list_ex (\<lambda>ns. ns = requestedNamespace) allowedNamespaces
           then Some (''access to namespace '' @ requestedNamespace @ '' denied'') else None)
        else None
      else None)"

definition Authorize :: "('priv, 'pub) auth_libs \<Rightarrow> Attributes \<Rightarrow> Decision \<times> string" where
  "Authorize A attr =
     (case at_User attr of
        None \<Rightarrow> (DecisionDeny, ''no user info'')
      | Some user \<Rightarrow>
          if \<not> at_IsResourceRequest attr then (DecisionAllow, [])
          else
            case namespace_denial (extra user ''namespaces'') (at_Namespace attr) of
              Some reason \<Rightarrow> (DecisionDeny, reason)
            | None \<Rightarrow>
                if \<not> CheckRBACAccess A user (at_Verb attr) (at_APIGroup attr) (at_Resource attr) (at_Name attr)
                then (DecisionDeny, ''user not authorized to '' @ at_Verb attr @ '' '' @ at_Resource attr
                   @ '' in API group '' @ at_APIGroup attr)
                else (DecisionAllow, []))"

section \<open>Tokens (\<^verbatim>\<open>token.go\<close>, \<^verbatim>\<open>authenticator.go\<close>)\<close>

definition GenerateToken ::
    "('priv, 'pub) auth_libs \<Rightarrow> 'priv \<Rightarrow> int \<Rightarrow> string \<Rightarrow> string list \<Rightarrow> PolicyRule list \<Rightarrow> int \<Rightarrow> string res" where
  "GenerateToken A privateKey now username namespaces rules expiry =
     jwt_sign A privateKey
       \<lparr>Username = username, Namespaces = namespaces, Rules = rules,
        ExpiresAt = jwt_NewNumericDate A (now + expiry), IssuedAt = jwt_NewNumericDate A now,
        NotBefore = jwt_NewNumericDate A now, Issuer = ''dcontroller''\<rparr>"

definition rsa_key :: "'pub \<Rightarrow> bool \<Rightarrow> 'pub res" where
  "rsa_key publicKey is_rsa = (if \<not> is_rsa then Inl (Error ''unexpected signing method'') else Inr publicKey)"

definition claims_extra :: "('priv, 'pub) auth_libs \<Rightarrow> Claims \<Rightarrow> (string \<times> string list) list res" where
  "claims_extra A claims =
     (let extra0 = (if Namespaces claims \<noteq> [] then [(''namespaces'', Namespaces claims)] else []) in
      if Rules claims \<noteq> [] then
        bind (rewrap ''failed to serialize rules'' (rules_Marshal A (Rules claims))) (\<lambda>rulesJSON.
          Inr (extra0 @ [(''rules'', [rulesJSON])]))
      else Inr extra0)"

text \<open>The result is the user when the request carries a valid token, \<open>None\<close> when it has no credentials.\<close>

definition AuthenticateRequest :: "('priv, 'pub) auth_libs \<Rightarrow> 'pub \<Rightarrow> int \<Rightarrow> string \<Rightarrow> UserInfo option res" where
  "AuthenticateRequest A publicKey now authHeader =
     (if authHeader = [] then Inr None
      else if \<not> HasPrefix authHeader ''Bearer '' then Inl (Error ''invalid authorization header format'')
      else
        case jwt_parse A now (TrimPrefix authHeader ''Bearer '') (rsa_key publicKey) of
          Inl err \<Rightarrow> Inl (wrap ''invalid token'' err)
        | Inr (claims, valid) \<Rightarrow>
            if \<not> valid then Inl (Error ''invalid token'')
            else bind (claims_extra A claims) (\<lambda>ex.
              Inr (Some \<lparr>ui_Name = Username claims, ui_Extra = ex\<rparr>)))"

section \<open>Kubeconfigs (\<^verbatim>\<open>kubeconfig.go\<close>)\<close>

text \<open>
  \<^verbatim>\<open>url.URL.String\<close> for a URL with a scheme and a host only: the host keeps letters, digits and
  the punctuation a host may have, every other byte is percent-encoded.
\<close>

definition host_char :: "char \<Rightarrow> bool" where
  "host_char c \<longleftrightarrow> (let b = of_char c :: nat in 97 \<le> b \<and> b \<le> 122 \<or> 65 \<le> b \<and> b \<le> 90 \<or> 48 \<le> b \<and> b \<le> 57)
     \<or> c \<in> set ''-_.~!$&()*+,;=:[]<>'' \<or> c = CHR 0x22 \<or> c = CHR 0x27"

definition upper_hex :: "nat \<Rightarrow> char" where
  "upper_hex n = (if n < 10 then char_of (48 + n) else char_of (55 + n))"

definition escape_host :: "string \<Rightarrow> string" where
  "escape_host h = concat (map (\<lambda>c. if host_char c then [c]
     else [CHR ''%'', upper_hex (of_char c div 16), upper_hex (of_char c mod 16)]) h)"

definition url_String :: "string \<Rightarrow> string \<Rightarrow> string" where
  "url_String scheme host = scheme @ '':'' @ (if host \<noteq> [] then ''//'' @ escape_host host else [])"

record KubeconfigOptions =
  ClusterName :: string
  ContextName :: string
  DefaultNamespace :: string
  Insecure :: bool
  HTTPMode :: bool

record kc_cluster =
  kc_Server :: string
  kc_InsecureSkipTLSVerify :: bool

record kc_context =
  kc_Cluster :: string
  kc_AuthInfo :: string
  kc_Namespace :: string

record kubeconfig =
  kc_Clusters :: "(string \<times> kc_cluster) list"
  kc_AuthInfos :: "(string \<times> string) list"
  kc_Contexts :: "(string \<times> kc_context) list"
  kc_CurrentContext :: string

definition DefaultKubeconfigOptions :: KubeconfigOptions where
  "DefaultKubeconfigOptions = \<lparr>ClusterName = ''dcontroller'', ContextName = ''dcontroller'', DefaultNamespace = [],
     Insecure = False, HTTPMode = False\<rparr>"

definition GenerateKubeconfig :: "string \<Rightarrow> string \<Rightarrow> string \<Rightarrow> KubeconfigOptions option \<Rightarrow> kubeconfig" where
  "GenerateKubeconfig addr username token opts0 =
     (let opts = (case opts0 of None \<Rightarrow> DefaultKubeconfigOptions | Some opts \<Rightarrow> opts);
          scheme = (if HTTPMode opts then ''http'' else ''https'')
      in \<lparr>kc_Clusters = [(ClusterName opts, \<lparr>kc_Server = url_String scheme addr, kc_InsecureSkipTLSVerify = Insecure opts\<rparr>)],
          kc_AuthInfos = [(username, token)],
          kc_Contexts = [(ContextName opts, \<lparr>kc_Cluster = ClusterName opts, kc_AuthInfo = username,
             kc_Namespace = DefaultNamespace opts\<rparr>)],
          kc_CurrentContext = ContextName opts\<rparr>)"

text \<open>The loading of the file is a parameter.\<close>

definition ExtractTokenFromKubeconfig :: "(string \<Rightarrow> kubeconfig res) \<Rightarrow> string \<Rightarrow> string res" where
  "ExtractTokenFromKubeconfig LoadFromFile kubeconfigPath =
     bind (rewrap ''failed to load kubeconfig'' (LoadFromFile kubeconfigPath)) (\<lambda>config.
       if kc_CurrentContext config = [] then Inl (Error ''no current context set in kubeconfig'')
       else case map_of (kc_Contexts config) (kc_CurrentContext config) of
         None \<Rightarrow> Inl (Error ''current context not found in kubeconfig'')
       | Some context \<Rightarrow>
           (case map_of (kc_AuthInfos config) (kc_AuthInfo context) of
              None \<Rightarrow> Inl (Error ''user not found in kubeconfig'')
            | Some token \<Rightarrow> if token = [] then Inl (Error ''no token found for user'') else Inr token))"

section \<open>Issuing tokens (\<^verbatim>\<open>main.go\<close>)\<close>

text \<open>
  The white space of \<^verbatim>\<open>strings.TrimSpace\<close>, as UTF-8: the ASCII characters, and the Unicode
  spaces U+0085, U+00A0, U+1680, U+2000 to U+200A, U+2028, U+2029, U+202F, U+205F and U+3000.
\<close>

definition white_space :: "string list" where
  "white_space =
     [[CHR 0x09], [CHR 0x0A], [CHR 0x0B], [CHR 0x0C], [CHR 0x0D], [CHR 0x20],
      [CHR 0xC2, CHR 0x85], [CHR 0xC2, CHR 0xA0], [CHR 0xE1, CHR 0x9A, CHR 0x80]]
     @ map (\<lambda>i. [CHR 0xE2, CHR 0x80, char_of (0x80 + i)]) [0 ..< 11]
     @ [[CHR 0xE2, CHR 0x80, CHR 0xA8], [CHR 0xE2, CHR 0x80, CHR 0xA9], [CHR 0xE2, CHR 0x80, CHR 0xAF],
        [CHR 0xE2, CHR 0x81, CHR 0x9F], [CHR 0xE3, CHR 0x80, CHR 0x80]]"

lemma white_space_nonempty: "w \<in> set white_space \<Longrightarrow> w \<noteq> []"
  by (auto simp: white_space_def)

function trim_left :: "string \<Rightarrow> string" where
  "trim_left s =
     (case List.find (HasPrefix s) white_space of
        Some w \<Rightarrow> if s = [] then [] else trim_left (drop (length w) s)
      | None \<Rightarrow> s)"
  by pat_completeness auto
termination
  by (relation "measure length") (auto simp: find_Some_iff dest!: nth_mem white_space_nonempty)

function trim_right :: "string \<Rightarrow> string" where
  "trim_right s =
     (case List.find (HasSuffix s) white_space of
        Some w \<Rightarrow> if s = [] then [] else trim_right (take (length s - length w) s)
      | None \<Rightarrow> s)"
  by pat_completeness auto
termination
  by (relation "measure length") (auto simp: find_Some_iff dest!: nth_mem white_space_nonempty)

declare trim_left.simps [simp del] trim_right.simps [simp del]

definition TrimSpace :: "string \<Rightarrow> string" where
  "TrimSpace s = trim_right (trim_left s)"

definition parseCommaSeparated :: "string \<Rightarrow> string list" where
  "parseCommaSeparated s =
     (if s = [] then [] else filter (\<lambda>item. item \<noteq> []) (map TrimSpace (split_on CHR '','' s)))"

record generateConfigConfig =
  cfg_username :: string
  cfg_namespaces :: string
  cfg_rules :: string
  cfg_rulesFile :: string
  cfg_resourceNames :: string
  cfg_expiry :: int
  cfg_output :: string
  cfg_keyFile :: string
  cfg_serverAddress :: string
  cfg_defaultNamespace :: string
  cfg_insecure :: bool
  cfg_httpMode :: bool

definition config_rules :: "('priv, 'pub) auth_libs \<Rightarrow> (string \<Rightarrow> string res) \<Rightarrow> generateConfigConfig \<Rightarrow> PolicyRule list res" where
  "config_rules A ReadFile cfg =
     (if cfg_rulesFile cfg \<noteq> [] then
        bind (rewrap ''failed to read rules file'' (ReadFile (cfg_rulesFile cfg))) (\<lambda>rulesData.
          rewrap ''failed to parse rules from file'' (rules_Unmarshal A rulesData))
      else if cfg_rules cfg \<noteq> [] then rewrap ''failed to parse rules JSON'' (rules_Unmarshal A (cfg_rules cfg))
      else Inr [])"

definition restrict_last :: "string \<Rightarrow> PolicyRule list \<Rightarrow> PolicyRule list" where
  "restrict_last resourceNames rulesList =
     (if resourceNames \<noteq> [] \<and> rulesList \<noteq> []
      then butlast rulesList @ [(last rulesList)\<lparr>ResourceNames := parseCommaSeparated resourceNames\<rparr>]
      else rulesList)"

text \<open>
  \<^verbatim>\<open>runGenerateConfig\<close> up to the kubeconfig, which it then prints or writes to a file; reading files
  and keys are parameters.
\<close>

definition runGenerateConfig ::
    "('priv, 'pub) auth_libs \<Rightarrow> (string \<Rightarrow> string res) \<Rightarrow> (string \<Rightarrow> 'priv res) \<Rightarrow> int \<Rightarrow> generateConfigConfig \<Rightarrow> kubeconfig res" where
  "runGenerateConfig A ReadFile LoadPrivateKey now cfg =
     (let namespacesList = (if cfg_namespaces cfg \<noteq> [] then parseCommaSeparated (cfg_namespaces cfg) else []) in
      bind (config_rules A ReadFile cfg) (\<lambda>rules.
      bind (rewrap ''failed to load private key'' (LoadPrivateKey (cfg_keyFile cfg))) (\<lambda>privateKey.
      bind (rewrap ''failed to generate token''
          (GenerateToken A privateKey now (cfg_username cfg) namespacesList
            (restrict_last (cfg_resourceNames cfg) rules) (cfg_expiry cfg))) (\<lambda>token.
        Inr (GenerateKubeconfig (cfg_serverAddress cfg) (cfg_username cfg) token
          (Some \<lparr>ClusterName = ''dcontroller'', ContextName = ''dcontroller'',
             DefaultNamespace = cfg_defaultNamespace cfg, Insecure = cfg_insecure cfg, HTTPMode = cfg_httpMode cfg\<rparr>))))))"

end
