(* ===== verification/Auth_Properties.thy ===== *)
theory Auth_Properties
  imports Auth
begin

text \<open>
  What the authorizer decides: the wildcard patterns against a reference semantics, namespace
  isolation, and the rights a token grants from its issuing to the decision.
\<close>

section \<open>Patterns\<close>

text \<open>The reference semantics of patterns: a star stands for any string.\<close>

function glob :: "string \<Rightarrow> string \<Rightarrow> bool" where
  "glob [] s = (s = [])"
| "glob (c # p) s =
     (if c = CHR ''*'' then glob p s \<or> (case s of [] \<Rightarrow> False | _ # s' \<Rightarrow> glob (c # p) s')
      else (case s of [] \<Rightarrow> False | d # s' \<Rightarrow> c = d \<and> glob p s'))"
  by pat_completeness auto
termination by (relation "measures [\<lambda>(p, s). length p + length s]") auto

lemma glob_star_free: "CHR ''*'' \<notin> set p \<Longrightarrow> glob (p @ q) s \<longleftrightarrow> (\<exists>t. s = p @ t \<and> glob q t)"
proof (induction p arbitrary: s)
  case (Cons c p)
  then show ?case by (cases s) auto
qed simp

lemma glob_star: "glob (CHR ''*'' # q) s \<longleftrightarrow> (\<exists>t u. s = t @ u \<and> glob q u)"
proof (induction s)
  case (Cons d s)
  have "(\<exists>t u. d # s = t @ u \<and> glob q u) \<longleftrightarrow> glob q (d # s) \<or> (\<exists>t u. s = t @ u \<and> glob q u)"
    by (metis append_Cons append_Nil list.sel(3) neq_Nil_conv)
  then show ?case using Cons by simp
qed auto

lemma glob_literal: "CHR ''*'' \<notin> set p \<Longrightarrow> glob p s \<longleftrightarrow> s = p"
  using glob_star_free [of p "[]" s] by simp

lemma glob_one_star:
  assumes "CHR ''*'' \<notin> set p" and "CHR ''*'' \<notin> set q"
  shows "glob (p @ CHR ''*'' # q) s \<longleftrightarrow> (\<exists>t. s = p @ t @ q)"
  using assms by (simp add: glob_star_free glob_star glob_literal del: glob.simps) blast

lemma HasPrefix_iff: "HasPrefix s pre \<longleftrightarrow> (\<exists>t. s = pre @ t)"
  by (metis HasPrefix_def append_eq_conv_conj append_take_drop_id)

lemma HasSuffix_iff: "HasSuffix s suf \<longleftrightarrow> (\<exists>t. s = t @ suf)"
  by (auto simp: HasSuffix_def) (metis append_take_drop_id)

lemma prefix_suffix_iff:
  "HasPrefix s p \<and> HasSuffix s q \<and> length p + length q \<le> length s \<longleftrightarrow> (\<exists>t. s = p @ t @ q)"
proof
  assume "HasPrefix s p \<and> HasSuffix s q \<and> length p + length q \<le> length s"
  then obtain t u where s: "s = p @ t" "s = u @ q" "length p + length q \<le> length s"
    unfolding HasPrefix_iff HasSuffix_iff by blast
  then have "u = p @ drop (length p) u"
    by (metis add_le_cancel_right append_eq_append_conv_if append_take_drop_id length_append)
  with s(2) show "\<exists>t. s = p @ t @ q" by (metis append_assoc)
qed (auto simp: HasPrefix_iff HasSuffix_iff)

text \<open>The test of the code on a pattern with one star: prefix and suffix may overlap.\<close>

lemma matchesWildcard_one_star:
  assumes "CHR ''*'' \<notin> set p" and "CHR ''*'' \<notin> set q"
  shows "matchesWildcard (p @ CHR ''*'' # q) s \<longleftrightarrow> HasPrefix s p \<and> HasSuffix s q"
proof -
  consider (prefix) "p = []" | (suffix) "p \<noteq> []" "q = []" | (middle) "p \<noteq> []" "q \<noteq> []" by blast
  then show ?thesis
  proof cases
    case middle
    then have "\<not> HasPrefix (p @ CHR ''*'' # q) ''*''" "\<not> HasSuffix (p @ CHR ''*'' # q) ''*''"
      using assms by (auto simp: HasPrefix_iff HasSuffix_iff append_eq_Cons_conv append_eq_append_conv2 Cons_eq_append_conv)
    then show ?thesis using assms by (simp add: matchesWildcard_def splitN_first splitN_last)
  next
    case suffix
    then have "\<not> HasPrefix (p @ ''*'') ''*''" "HasSuffix (p @ ''*'') ''*''" "TrimSuffix (p @ ''*'') ''*'' = p"
      using assms by (auto simp: HasPrefix_iff TrimSuffix_def append_eq_Cons_conv)
    then show ?thesis by (simp add: matchesWildcard_def suffix HasSuffix_def [of s "[]"])
  next
    case prefix
    then show ?thesis by (simp add: matchesWildcard_def TrimPrefix_def HasPrefix_def)
  qed
qed

definition simple_pattern :: "string \<Rightarrow> bool" where
  "simple_pattern p \<longleftrightarrow> CHR ''*'' \<notin> set p \<or> (p \<noteq> [] \<and> hd p = CHR ''*'' \<and> CHR ''*'' \<notin> set (tl p))
     \<or> (p \<noteq> [] \<and> last p = CHR ''*'' \<and> CHR ''*'' \<notin> set (butlast p))"

lemma simple_pattern_cases:
  assumes "simple_pattern r"
  obtains (literal) "CHR ''*'' \<notin> set r"
  | (star) p q where "r = p @ CHR ''*'' # q" "CHR ''*'' \<notin> set p" "CHR ''*'' \<notin> set q" "p = [] \<or> q = []"
proof -
  consider "CHR ''*'' \<notin> set r" | "r = [] @ CHR ''*'' # tl r" "CHR ''*'' \<notin> set (tl r)"
    | "r = butlast r @ CHR ''*'' # []" "CHR ''*'' \<notin> set (butlast r)"
    using assms unfolding simple_pattern_def by (metis append_Nil append_butlast_last_id list.collapse)
  then show ?thesis
    by cases (use literal star [of "[]" "tl r"] star [of "butlast r" "[]"] in auto)
qed

lemma rule_value_glob:
  assumes "simple_pattern r"
  shows "r = ''*'' \<or> r = s \<or> (CHR ''*'' \<in> set r \<and> matchesWildcard r s) \<longleftrightarrow> glob r s"
  using assms
proof (cases rule: simple_pattern_cases)
  case literal
  then show ?thesis by (auto simp: glob_literal)
next
  case (star p q)
  have "HasPrefix s p \<and> HasSuffix s q \<longleftrightarrow> glob r s"
    using star(4) prefix_suffix_iff [of s p q] glob_one_star [OF star(2,3), of s]
    by (auto simp: star(1) HasPrefix_iff HasSuffix_iff)
  moreover have "glob r r"
    using glob_one_star [OF star(2,3), of r] by (simp only: star(1)) (metis append_Cons append_Nil)
  moreover have "glob r s" if "r = ''*''" using glob_star [of "[]" s] that by (simp del: glob.simps(2)) 
  ultimately show ?thesis using matchesWildcard_one_star [OF star(2,3), of s] by (auto simp: star(1))
qed

text \<open>
  C34. For rule values that are literals or have one star, at the beginning
  or at the end, a requested value matches exactly when it matches one of them as a pattern in
  which the star stands for any string.
\<close>

theorem patterns_are_globs:
  assumes "\<forall>r \<in> set ruleValues. simple_pattern r"
  shows "matches ruleValues requested \<longleftrightarrow> (\<exists>r \<in> set ruleValues. glob r requested)"
  using assms
proof (induction ruleValues)
  case (Cons r rs)
  then show ?case using rule_value_glob [of r requested] by auto
qed simp

theorem patterns_are_globs_witness:
  "matches [''pods'', ''*.view.dcontroller.io'', ''kube-*''] ''op.view.dcontroller.io''
    \<longleftrightarrow> (\<exists>r \<in> set [''pods'', ''*.view.dcontroller.io'', ''kube-*'']. glob r ''op.view.dcontroller.io'')"
  by (rule patterns_are_globs) (simp add: simple_pattern_def)

text \<open>
  A star in the middle lets prefix and suffix overlap, and of two stars only the first is one.
\<close>

theorem middle_star_overlaps:
  "matches [''foo*obar''] ''foobar'' \<and> \<not> glob ''foo*obar'' ''foobar''
    \<and> \<not> matches [''*foo*''] ''xfooy'' \<and> glob ''*foo*'' ''xfooy''"
  by code_simp

section \<open>Decisions\<close>

text \<open>The rights a token stands for: its namespaces and its rules, read declaratively.\<close>

definition in_namespaces :: "string list \<Rightarrow> string \<Rightarrow> bool" where
  "in_namespaces namespaces ns \<longleftrightarrow> namespaces = [] \<or> ''*'' \<in> set namespaces \<or> (ns \<noteq> [] \<and> ns \<in> set namespaces)"

definition one_of :: "string list \<Rightarrow> string \<Rightarrow> bool" where
  "one_of patterns s \<longleftrightarrow> (\<exists>p \<in> set patterns. glob p s)"

definition permits :: "PolicyRule \<Rightarrow> Attributes \<Rightarrow> bool" where
  "permits rule attr \<longleftrightarrow> one_of (Verbs rule) (at_Verb attr) \<and> one_of (APIGroups rule) (at_APIGroup attr)
     \<and> one_of (Resources rule) (at_Resource attr)
     \<and> (at_Verb attr \<in> set collectionVerbs \<or> ResourceNames rule = [] \<or> at_Name attr = []
        \<or> one_of (ResourceNames rule) (at_Name attr))"

definition granted :: "string list \<Rightarrow> PolicyRule list \<Rightarrow> Attributes \<Rightarrow> bool" where
  "granted namespaces rules attr \<longleftrightarrow>
     in_namespaces namespaces (at_Namespace attr) \<and> (rules = [] \<or> (\<exists>rule \<in> set rules. permits rule attr))"

definition simple_rule :: "PolicyRule \<Rightarrow> bool" where
  "simple_rule rule \<longleftrightarrow>
     (\<forall>p \<in> set (Verbs rule @ APIGroups rule @ Resources rule @ ResourceNames rule). simple_pattern p)"

lemma matches_one_of: "\<forall>r \<in> set rs. simple_pattern r \<Longrightarrow> matches rs s \<longleftrightarrow> one_of rs s"
proof (induction rs)
  case (Cons r rs)
  then show ?case using rule_value_glob [of r s] by (auto simp: one_of_def)
qed (simp add: one_of_def)

lemma ruleMatches_permits:
  "simple_rule rule \<Longrightarrow> ruleMatches rule (at_Verb attr) (at_APIGroup attr) (at_Resource attr) (at_Name attr) \<longleftrightarrow> permits rule attr"
  by (auto simp: ruleMatches_def permits_def simple_rule_def matches_one_of)

lemma namespace_denial_None: "namespace_denial namespaces ns = None \<longleftrightarrow> in_namespaces namespaces ns"
  by (auto simp: namespace_denial_def in_namespaces_def list_ex_iff Let_def)

lemma Authorize_allows:
  assumes "at_User attr = Some user" and "at_IsResourceRequest attr"
  shows "fst (Authorize A attr) = DecisionAllow \<longleftrightarrow>
    in_namespaces (extra user ''namespaces'') (at_Namespace attr)
    \<and> CheckRBACAccess A user (at_Verb attr) (at_APIGroup attr) (at_Resource attr) (at_Name attr)"
  using assms namespace_denial_None [of "extra user ''namespaces''" "at_Namespace attr"]
  by (auto simp: Authorize_def split: option.splits)

text \<open>
  C33. Whatever rules a user carries, and whatever the libraries do: a user
  restricted to a list of namespaces without the wildcard is only ever allowed resource requests
  inside one of them, and a request without a user is denied.
\<close>

theorem namespace_isolation:
  assumes "fst (Authorize A attr) = DecisionAllow" and "at_IsResourceRequest attr"
  shows "\<exists>user. at_User attr = Some user \<and> (extra user ''namespaces'' \<noteq> [] \<longrightarrow> ''*'' \<notin> set (extra user ''namespaces'') \<longrightarrow>
    at_Namespace attr \<in> set (extra user ''namespaces''))"
proof -
  obtain user where "at_User attr = Some user"
    using assms(1) by (cases "at_User attr") (auto simp: Authorize_def)
  then show ?thesis using Authorize_allows [of attr user A] assms by (auto simp: in_namespaces_def)
qed

text \<open>
  What the library of tokens promises: a token that was signed with the private key parses, in
  its period of validity and given the public key, to the claims it was signed for.  The JSON
  text of rules reads back.
\<close>

definition jwt_verifies :: "('priv, 'pub) auth_libs \<Rightarrow> 'priv \<Rightarrow> 'pub \<Rightarrow> bool" where
  "jwt_verifies A privateKey publicKey \<longleftrightarrow>
     (\<forall>claims token now keyfunc. jwt_sign A privateKey claims = Inr token \<longrightarrow> NotBefore claims \<le> now \<longrightarrow>
        now < ExpiresAt claims \<longrightarrow> keyfunc True = Inr publicKey \<longrightarrow>
        jwt_parse A now token keyfunc = Inr (claims, True))
     \<and> (\<forall>claims. jwt_sign A privateKey claims \<noteq> Inr [])"

definition rules_read_back :: "('priv, 'pub) auth_libs \<Rightarrow> PolicyRule list \<Rightarrow> bool" where
  "rules_read_back A rules \<longleftrightarrow> (\<exists>json. rules_Marshal A rules = Inr json \<and> rules_Unmarshal A json = Inr rules)"

lemma claims_extra_ok: "rules_read_back A (Rules claims) \<Longrightarrow> \<exists>ex. claims_extra A claims = Inr ex"
  by (auto simp: claims_extra_def rules_read_back_def rewrap_def Let_def)

lemma claims_user_rights:
  assumes "claims_extra A claims = Inr ex" and "rules_read_back A (Rules claims)" and "\<forall>rule \<in> set (Rules claims). simple_rule rule"
    and "at_User attr = Some \<lparr>ui_Name = name, ui_Extra = ex\<rparr>" and "at_IsResourceRequest attr"
  shows "fst (Authorize A attr) = DecisionAllow \<longleftrightarrow> granted (Namespaces claims) (Rules claims) attr"
proof -
  have "extra \<lparr>ui_Name = name, ui_Extra = ex\<rparr> ''namespaces'' = Namespaces claims"
    using assms(1,2) by (auto simp: claims_extra_def extra_def rules_read_back_def rewrap_def Let_def split: if_splits)
  moreover have "CheckRBACAccess A \<lparr>ui_Name = name, ui_Extra = ex\<rparr> (at_Verb attr) (at_APIGroup attr) (at_Resource attr) (at_Name attr)
      \<longleftrightarrow> Rules claims = [] \<or> (\<exists>rule \<in> set (Rules claims). permits rule attr)"
    using assms(1-3) by (auto simp: claims_extra_def extra_def rules_read_back_def rewrap_def CheckRBACAccess_def Let_def
        list_ex_iff ruleMatches_permits split: if_splits)
  ultimately show ?thesis by (simp add: Authorize_allows [OF assms(4,5)] granted_def)
qed

lemma token_grants:
  assumes "jwt_verifies A privateKey publicKey" and "GenerateToken A privateKey issued username namespaces rules expiry = Inr token"
    and "jwt_NewNumericDate A issued \<le> now" and "now < jwt_NewNumericDate A (issued + expiry)"
    and "rules_read_back A rules" and "\<forall>rule \<in> set rules. simple_rule rule"
  shows "\<exists>user. AuthenticateRequest A publicKey now (''Bearer '' @ token) = Inr (Some user) \<and> ui_Name user = username
    \<and> (\<forall>attr. at_User attr = Some user \<longrightarrow> at_IsResourceRequest attr \<longrightarrow>
         (fst (Authorize A attr) = DecisionAllow \<longleftrightarrow> granted namespaces rules attr))"
proof -
  define claims where "claims = \<lparr>Username = username, Namespaces = namespaces, Rules = rules,
    ExpiresAt = jwt_NewNumericDate A (issued + expiry), IssuedAt = jwt_NewNumericDate A issued,
    NotBefore = jwt_NewNumericDate A issued, Issuer = ''dcontroller''\<rparr>"
  have parse: "jwt_parse A now token (rsa_key publicKey) = Inr (claims, True)"
    using assms(1-4) by (simp add: jwt_verifies_def GenerateToken_def claims_def rsa_key_def)
  obtain ex where ex: "claims_extra A claims = Inr ex"
    using claims_extra_ok [of A claims] assms(5) by (auto simp: claims_def)
  have "AuthenticateRequest A publicKey now (''Bearer '' @ token) = Inr (Some \<lparr>ui_Name = username, ui_Extra = ex\<rparr>)"
    using parse ex by (simp add: AuthenticateRequest_def HasPrefix_def TrimPrefix_def claims_def)
  moreover have "fst (Authorize A attr) = DecisionAllow \<longleftrightarrow> granted namespaces rules attr"
    if "at_User attr = Some \<lparr>ui_Name = username, ui_Extra = ex\<rparr>" "at_IsResourceRequest attr" for attr
    using claims_user_rights [OF ex _ _ that] assms(5,6) by (simp add: claims_def)
  ultimately show ?thesis by (intro exI conjI allI impI) (assumption | simp)+
qed

lemma extract_generated:
  assumes "token \<noteq> []" and "opts = None \<or> (\<exists>os. opts = Some os \<and> ContextName os \<noteq> [])"
    and "LoadFromFile path = Inr (GenerateKubeconfig addr username token opts)"
  shows "ExtractTokenFromKubeconfig LoadFromFile path = Inr token"
  using assms by (auto simp: ExtractTokenFromKubeconfig_def GenerateKubeconfig_def DefaultKubeconfigOptions_def Let_def rewrap_def)

definition config_namespaces :: "generateConfigConfig \<Rightarrow> string list" where
  "config_namespaces cfg = parseCommaSeparated (cfg_namespaces cfg)"

lemma runGenerateConfig_token:
  assumes "runGenerateConfig A ReadFile LoadPrivateKey issued cfg = Inr config" and "config_rules A ReadFile cfg = Inr rules"
  obtains privateKey token opts where "LoadPrivateKey (cfg_keyFile cfg) = Inr privateKey"
    and "GenerateToken A privateKey issued (cfg_username cfg) (config_namespaces cfg)
      (restrict_last (cfg_resourceNames cfg) rules) (cfg_expiry cfg) = Inr token"
    and "config = GenerateKubeconfig (cfg_serverAddress cfg) (cfg_username cfg) token (Some opts)" and "ContextName opts \<noteq> []"
proof -
  have "(if cfg_namespaces cfg \<noteq> [] then parseCommaSeparated (cfg_namespaces cfg) else []) = config_namespaces cfg"
    by (simp add: config_namespaces_def parseCommaSeparated_def)
  with assms that show ?thesis
    by (auto simp: runGenerateConfig_def Let_def bind_Inr_iff rewrap_def split: sum.splits)
qed

text \<open>
  C8. The rights of an issued kubeconfig, from the command line to the decision: the
  kubeconfig that \<^verbatim>\<open>generate-config\<close> produces yields a token which, presented as a bearer token
  within its period of validity, authenticates the user, and the authorizer then allows a
  resource request exactly when the namespaces and the rules of the command line grant it.
\<close>

theorem kubeconfig_grants:
  assumes "runGenerateConfig A ReadFile LoadPrivateKey issued cfg = Inr config" and "LoadFromFile path = Inr config"
    and "config_rules A ReadFile cfg = Inr rules"
    and "\<forall>privateKey. LoadPrivateKey (cfg_keyFile cfg) = Inr privateKey \<longrightarrow> jwt_verifies A privateKey publicKey"
    and "jwt_NewNumericDate A issued \<le> now" and "now < jwt_NewNumericDate A (issued + cfg_expiry cfg)"
    and "rules_read_back A (restrict_last (cfg_resourceNames cfg) rules)"
    and "\<forall>rule \<in> set (restrict_last (cfg_resourceNames cfg) rules). simple_rule rule"
  shows "\<exists>token user. ExtractTokenFromKubeconfig LoadFromFile path = Inr token
    \<and> AuthenticateRequest A publicKey now (''Bearer '' @ token) = Inr (Some user) \<and> ui_Name user = cfg_username cfg
    \<and> (\<forall>attr. at_User attr = Some user \<longrightarrow> at_IsResourceRequest attr \<longrightarrow>
         (fst (Authorize A attr) = DecisionAllow
           \<longleftrightarrow> granted (config_namespaces cfg) (restrict_last (cfg_resourceNames cfg) rules) attr))"
proof -
  obtain privateKey token opts where t: "LoadPrivateKey (cfg_keyFile cfg) = Inr privateKey"
    "GenerateToken A privateKey issued (cfg_username cfg) (config_namespaces cfg)
      (restrict_last (cfg_resourceNames cfg) rules) (cfg_expiry cfg) = Inr token"
    "config = GenerateKubeconfig (cfg_serverAddress cfg) (cfg_username cfg) token (Some opts)" "ContextName opts \<noteq> []"
    using runGenerateConfig_token [OF assms(1,3)] .
  have verifies: "jwt_verifies A privateKey publicKey" using assms(4) t(1) by blast
  have "token \<noteq> []"
    using verifies t(2) by (auto simp: jwt_verifies_def GenerateToken_def)
  then have "ExtractTokenFromKubeconfig LoadFromFile path = Inr token"
    using extract_generated [of token "Some opts"] t(3,4) assms(2) by simp
  with token_grants [OF verifies t(2) assms(5-8)] show ?thesis by blast
qed

section \<open>Concrete libraries\<close>

definition sample_rule :: PolicyRule where
  "sample_rule = \<lparr>Verbs = [''get'', ''list''], APIGroups = [''*.view.dcontroller.io''], Resources = [''*''], ResourceNames = [''a'']\<rparr>"

definition sample_claims :: Claims where
  "sample_claims = \<lparr>Username = ''alice'', Namespaces = [''team-a''], Rules = [sample_rule], ExpiresAt = 110,
     IssuedAt = 10, NotBefore = 10, Issuer = ''dcontroller''\<rparr>"

definition sample_auth :: "(unit, unit) auth_libs" where
  "sample_auth = \<lparr>jwt_sign = (\<lambda>_ claims. if claims = sample_claims then Inr ''token'' else Inl (Error ''sign'')),
     jwt_parse = (\<lambda>now token keyfunc.
       if token = ''token'' \<and> is_ok (keyfunc True) \<and> 10 \<le> now \<and> now < 110 then Inr (sample_claims, True)
       else Inl (Error ''parse'')),
     jwt_NewNumericDate = (\<lambda>t. t),
     rules_Marshal = (\<lambda>rules. if rules = [sample_rule] then Inr ''rules'' else Inl (Error ''marshal'')),
     rules_Unmarshal = (\<lambda>json. if json = ''rules'' then Inr [sample_rule]
       else if json = ''json'' then Inr [sample_rule\<lparr>ResourceNames := []\<rparr>] else Inl (Error ''unmarshal''))\<rparr>"

definition sample_request :: "UserInfo \<Rightarrow> string \<Rightarrow> Attributes" where
  "sample_request user name = \<lparr>at_User = Some user, at_IsResourceRequest = True, at_Verb = ''get'',
     at_APIGroup = ''op.view.dcontroller.io'', at_Resource = ''views'', at_Name = name, at_Namespace = ''team-a''\<rparr>"

lemma sample_auth_verifies: "jwt_verifies sample_auth () ()"
  by (auto simp: jwt_verifies_def sample_auth_def sample_claims_def split: if_splits)

lemma sample_dates: "jwt_NewNumericDate sample_auth t = t"
  by (simp add: sample_auth_def)

definition sample_config :: generateConfigConfig where
  "sample_config = \<lparr>cfg_username = ''alice'', cfg_namespaces = '' team-a ,'', cfg_rules = ''json'', cfg_rulesFile = [],
     cfg_resourceNames = ''a'', cfg_expiry = 100, cfg_output = [], cfg_keyFile = ''key'',
     cfg_serverAddress = ''localhost:8443'', cfg_defaultNamespace = [], cfg_insecure = False, cfg_httpMode = False\<rparr>"

definition token_of :: "string res \<Rightarrow> string" where
  "token_of r = (case r of Inr token \<Rightarrow> token | Inl _ \<Rightarrow> [])"

definition no_files :: "string \<Rightarrow> string res" where
  "no_files path = Inl (Error ''no such file'')"

lemma sample_config_issued: "is_ok (runGenerateConfig sample_auth no_files (\<lambda>_. Inr ()) 10 sample_config)"
  by code_simp

theorem kubeconfig_grants_witness:
  "\<exists>config user. runGenerateConfig sample_auth no_files (\<lambda>_. Inr ()) 10 sample_config = Inr config
    \<and> AuthenticateRequest sample_auth () 50 (''Bearer '' @ token_of (ExtractTokenFromKubeconfig (\<lambda>_. Inr config) [])) = Inr (Some user)
    \<and> fst (Authorize sample_auth (sample_request user ''a'')) = DecisionAllow
    \<and> fst (Authorize sample_auth (sample_request user ''b'')) \<noteq> DecisionAllow"
proof -
  obtain config where config: "runGenerateConfig sample_auth no_files (\<lambda>_. Inr ()) 10 sample_config = Inr config"
    using sample_config_issued by (auto simp: is_ok_iff)
  have rules: "config_rules sample_auth no_files sample_config = Inr [sample_rule\<lparr>ResourceNames := []\<rparr>]"
    and last: "restrict_last (cfg_resourceNames sample_config) [sample_rule\<lparr>ResourceNames := []\<rparr>] = [sample_rule]"
    and ns: "config_namespaces sample_config = [''team-a'']"
    by code_simp+
  have "rules_read_back sample_auth [sample_rule]" "simple_rule sample_rule"
    by (simp_all add: rules_read_back_def sample_auth_def simple_rule_def sample_rule_def simple_pattern_def)
  moreover have "granted [''team-a''] [sample_rule] (sample_request user ''a'')"
    "\<not> granted [''team-a''] [sample_rule] (sample_request user ''b'')" for user
    by (simp_all add: granted_def in_namespaces_def permits_def one_of_def sample_rule_def sample_request_def collectionVerbs_def)
  moreover have "cfg_expiry sample_config = 100" by (simp add: sample_config_def)
  ultimately obtain token user where user: "ExtractTokenFromKubeconfig (\<lambda>_. Inr config) [] = Inr token"
      "AuthenticateRequest sample_auth () 50 (''Bearer '' @ token) = Inr (Some user)"
      "\<forall>attr. at_User attr = Some user \<longrightarrow> at_IsResourceRequest attr \<longrightarrow>
        (fst (Authorize sample_auth attr) = DecisionAllow \<longleftrightarrow> granted [''team-a''] [sample_rule] attr)"
    and grant: "granted [''team-a''] [sample_rule] (sample_request user ''a'')"
      "\<not> granted [''team-a''] [sample_rule] (sample_request user ''b'')"
    using kubeconfig_grants [OF config, of "\<lambda>_. Inr config" "[]" "[sample_rule\<lparr>ResourceNames := []\<rparr>]" "()" 50]
    by (auto simp: rules last ns sample_auth_verifies sample_dates)
  moreover have "at_User (sample_request user n) = Some user" "at_IsResourceRequest (sample_request user n)" for n
    by (simp_all add: sample_request_def)
  ultimately show ?thesis using config by (auto simp: token_of_def)
qed

definition sample_user :: UserInfo where
  "sample_user = \<lparr>ui_Name = ''alice'', ui_Extra = [(''namespaces'', [''team-a'']), (''rules'', [''rules''])]\<rparr>"

theorem namespace_isolation_witness:
  "fst (Authorize sample_auth (sample_request sample_user ''a'')) = DecisionAllow
    \<and> at_Namespace (sample_request sample_user ''a'') \<in> set (extra sample_user ''namespaces'')"
proof -
  have "fst (Authorize sample_auth (sample_request sample_user ''a'')) = DecisionAllow" by code_simp
  moreover from namespace_isolation [OF this]
  have "at_Namespace (sample_request sample_user ''a'') \<in> set (extra sample_user ''namespaces'')"
    by (auto simp: sample_request_def sample_user_def extra_def)
  ultimately show ?thesis by blast
qed

text \<open>
  A flag with nothing but separators and white space names no namespace: the token is issued
  without any restriction.
\<close>

theorem blank_namespaces_unrestricted:
  "runGenerateConfig A ReadFile LoadPrivateKey now (cfg\<lparr>cfg_namespaces := '' , ''\<rparr>)
    = runGenerateConfig A ReadFile LoadPrivateKey now (cfg\<lparr>cfg_namespaces := []\<rparr>)"
proof -
  have "parseCommaSeparated '' , '' = []" by code_simp
  then show ?thesis by (simp add: runGenerateConfig_def config_rules_def)
qed

end
