(* ===== verification/Predicates.thy ===== *)
theory Predicates
  imports Marshal_Laws
begin

text \<open>
  Package \<^verbatim>\<open>predicate\<close>: serializable predicates on the events of a source, their JSON form
  and their conversion to the predicates of controller-runtime, which are library code: the
  record \<open>pred_libs\<close>, with the meaning of its combinators as the hypothesis \<open>pred_laws\<close>.
\<close>

section \<open>Predicates (\<^verbatim>\<open>predicate.go\<close>)\<close>

text \<open>
  The two embedded pointers of the struct.  A Go map is the list of its entries in ascending key
  order; a nil slice and an empty one are both the empty list.
\<close>

datatype Predicate =
  Predicate (BasicPredicate: "string option") (BoolPredicate: "(string \<times> Predicate list) list option")

record 'p pred_libs =
  GenerationChangedPredicate :: 'p
  ResourceVersionChangedPredicate :: 'p
  LabelChangedPredicate :: 'p
  AnnotationChangedPredicate :: 'p
  pred_And :: "'p list \<Rightarrow> 'p"
  pred_Or :: "'p list \<Rightarrow> 'p"
  pred_Not :: "'p \<Rightarrow> 'p"

definition BasicPredicate_ToPredicate :: "'p pred_libs \<Rightarrow> string \<Rightarrow> 'p res" where
  "BasicPredicate_ToPredicate P pw =
     (if pw = ''GenerationChanged'' then Inr (GenerationChangedPredicate P)
      else if pw = ''ResourceVersionChanged'' then Inr (ResourceVersionChangedPredicate P)
      else if pw = ''LabelChanged'' then Inr (LabelChangedPredicate P)
      else if pw = ''AnnotationChanged'' then Inr (AnnotationChangedPredicate P)
      else Inl (Error ''unknown predicate type''))"

definition bool_predicate :: "'p pred_libs \<Rightarrow> string \<Rightarrow> 'p list \<Rightarrow> 'p res" where
  "bool_predicate P k predicates =
     (if k = ''And'' then Inr (pred_And P predicates)
      else if k = ''Or'' then Inr (pred_Or P predicates)
      else if k = ''Not'' then
        (if length predicates \<noteq> 1 then Inl (Error ''invalid arguments to Not predicate'')
         else Inr (pred_Not P (predicates ! 0)))
      else Inl (Error ''unknown bool predicate type''))"

fun ToPredicate :: "'p pred_libs \<Rightarrow> Predicate \<Rightarrow> 'p res"
  and BoolPredicate_ToPredicate :: "'p pred_libs \<Rightarrow> (string \<times> Predicate list) list \<Rightarrow> 'p res" where
  "ToPredicate P (Predicate basic boolean) =
     (case basic of
        Some pw \<Rightarrow> BasicPredicate_ToPredicate P pw
      | None \<Rightarrow>
          (case boolean of
             Some cp \<Rightarrow> BoolPredicate_ToPredicate P cp
           | None \<Rightarrow> Inl (Error ''invalid predicate'')))"
| "BoolPredicate_ToPredicate P cp =
     (if length cp \<noteq> 1 then Inl (Error ''expecting a single predicate op'')
      else case cp of
        (k, v) # _ \<Rightarrow> bind (mapM (ToPredicate P) v) (bool_predicate P k)
      | [] \<Rightarrow> Inl (Error ''invalid bool predicate''))"

text \<open>
  The selector on a namespace: \<^verbatim>\<open>NewPredicateFuncs\<close> applies the function to the object of every
  event.
\<close>

definition FromNamespace :: "('o \<Rightarrow> string) \<Rightarrow> string \<Rightarrow> 'o \<Rightarrow> bool" where
  "FromNamespace GetNamespace namespace object \<longleftrightarrow> GetNamespace object = namespace"

definition FromPredicate :: "'p pred_libs \<Rightarrow> Predicate \<Rightarrow> 'p res" where
  "FromPredicate P p = ToPredicate P p"

section \<open>JSON\<close>

fun Predicate_MarshalJSON :: "Predicate \<Rightarrow> json res" where
  "Predicate_MarshalJSON (Predicate basic boolean) =
     (case basic of
        Some pw \<Rightarrow> Inr (JStr (utf8_fix pw))
      | None \<Rightarrow>
          (case boolean of
             Some cp \<Rightarrow>
               json_object (map (\<lambda>(k, ps). (k, bind (mapM Predicate_MarshalJSON ps) (\<lambda>js. Inr (JList js)))) cp)
           | None \<Rightarrow> Inl (Error ''invalid predicate'')))"

text \<open>
  Decoding tries a string first, which takes \<^verbatim>\<open>null\<close> too, then a map of lists.
\<close>

fun Predicate_UnmarshalJSON :: "json \<Rightarrow> Predicate res"
  and unmarshal_predicates :: "json \<Rightarrow> Predicate list res" where
  "Predicate_UnmarshalJSON (JStr s) = Inr (Predicate (Some s) None)"
| "Predicate_UnmarshalJSON JNull = Inr (Predicate (Some []) None)"
| "Predicate_UnmarshalJSON (JObj ms) =
     bind (mapM (\<lambda>(k, j). bind (unmarshal_predicates j) (\<lambda>ps. Inr (k, ps))) ms) (\<lambda>kps.
       Inr (Predicate None (Some (foldl (\<lambda>m (k, ps). sm_set k ps m) [] kps))))"
| "Predicate_UnmarshalJSON _ = Inl (Error ''json: cannot unmarshal into BoolPredicate'')"
| "unmarshal_predicates (JList js) = mapM Predicate_UnmarshalJSON js"
| "unmarshal_predicates JNull = Inr []"
| "unmarshal_predicates _ = Inl (Error ''json: cannot unmarshal into []Predicate'')"

text \<open>Copies go through JSON (\<^verbatim>\<open>deepcopy.go\<close>); a failure leaves the target as it is.\<close>

definition Predicate_DeepCopyInto :: "Predicate \<Rightarrow> Predicate \<Rightarrow> Predicate" where
  "Predicate_DeepCopyInto p d =
     (case Predicate_MarshalJSON p of
        Inl _ \<Rightarrow> d
      | Inr j \<Rightarrow> (case Predicate_UnmarshalJSON j of Inl _ \<Rightarrow> d | Inr p' \<Rightarrow> p'))"

definition Predicate_DeepCopy :: "Predicate option \<Rightarrow> Predicate option" where
  "Predicate_DeepCopy p = map_option (\<lambda>p. Predicate_DeepCopyInto p (Predicate None None)) p"

section \<open>Meaning\<close>

text \<open>
  The events predicates filter, with what they look at of the metadata of an object (maps as the
  lists of their entries in ascending key order).
\<close>

record object_meta =
  om_Generation :: int
  om_ResourceVersion :: string
  om_Labels :: "(string \<times> string) list"
  om_Annotations :: "(string \<times> string) list"

datatype watch_change =
  Created object_meta | Changed object_meta object_meta | Removed object_meta | Triggered object_meta

text \<open>Updates are accepted when the aspect differs between the two objects, all other events always.\<close>

fun differs :: "(object_meta \<Rightarrow> 'a) \<Rightarrow> watch_change \<Rightarrow> bool" where
  "differs aspect (Changed old new) = (aspect old \<noteq> aspect new)"
| "differs aspect _ = True"

text \<open>The documented meaning of the predicates and combinators of controller-runtime; \<open>sem\<close> is what a predicate accepts.\<close>

definition pred_laws :: "'p pred_libs \<Rightarrow> ('p \<Rightarrow> watch_change \<Rightarrow> bool) \<Rightarrow> bool" where
  "pred_laws P sem \<longleftrightarrow>
     (\<forall>e. sem (GenerationChangedPredicate P) e \<longleftrightarrow> differs om_Generation e)
     \<and> (\<forall>e. sem (ResourceVersionChangedPredicate P) e \<longleftrightarrow> differs om_ResourceVersion e)
     \<and> (\<forall>e. sem (LabelChangedPredicate P) e \<longleftrightarrow> differs om_Labels e)
     \<and> (\<forall>e. sem (AnnotationChangedPredicate P) e \<longleftrightarrow> differs om_Annotations e)
     \<and> (\<forall>ps e. sem (pred_And P ps) e \<longleftrightarrow> (\<forall>p \<in> set ps. sem p e))
     \<and> (\<forall>ps e. sem (pred_Or P ps) e \<longleftrightarrow> (\<exists>p \<in> set ps. sem p e))
     \<and> (\<forall>p e. sem (pred_Not P p) e \<longleftrightarrow> \<not> sem p e)"

definition basic_names :: "string list" where
  "basic_names = [''GenerationChanged'', ''ResourceVersionChanged'', ''LabelChanged'', ''AnnotationChanged'']"

text \<open>The predicates that mean something, and what they say of an event.\<close>

fun valid_predicate :: "Predicate \<Rightarrow> bool" where
  "valid_predicate (Predicate (Some pw) _) = (pw \<in> set basic_names)"
| "valid_predicate (Predicate None (Some [(k, ps)])) =
     (list_all valid_predicate ps \<and> (k = ''And'' \<or> k = ''Or'' \<or> k = ''Not'' \<and> length ps = 1))"
| "valid_predicate (Predicate None _) = False"

text \<open>What the package documentation says of the basic names, and the formula over them.\<close>

definition basic_holds :: "string \<Rightarrow> watch_change \<Rightarrow> bool" where
  "basic_holds pw e \<longleftrightarrow>
     (pw = ''GenerationChanged'' \<and> differs om_Generation e \<or> pw = ''ResourceVersionChanged'' \<and> differs om_ResourceVersion e
      \<or> pw = ''LabelChanged'' \<and> differs om_Labels e \<or> pw = ''AnnotationChanged'' \<and> differs om_Annotations e)"

fun holds :: "Predicate \<Rightarrow> watch_change \<Rightarrow> bool" where
  "holds (Predicate (Some pw) _) e = basic_holds pw e"
| "holds (Predicate None (Some [(k, ps)])) e =
     (if k = ''And'' then list_all (\<lambda>p. holds p e) ps
      else if k = ''Or'' then list_ex (\<lambda>p. holds p e) ps
      else \<not> list_ex (\<lambda>p. holds p e) ps)"
| "holds (Predicate None _) e = False"

definition converts :: "'p pred_libs \<Rightarrow> ('p \<Rightarrow> watch_change \<Rightarrow> bool) \<Rightarrow> Predicate \<Rightarrow> bool" where
  "converts P sem p \<longleftrightarrow>
     (if valid_predicate p then \<exists>q. ToPredicate P p = Inr q \<and> (\<forall>e. sem q e \<longleftrightarrow> holds p e)
      else \<exists>err. ToPredicate P p = Inl err)"

lemma basic_converts: "pred_laws P sem \<Longrightarrow> converts P sem (Predicate (Some pw) boolean)"
  by (auto simp: converts_def BasicPredicate_ToPredicate_def basic_names_def basic_holds_def pred_laws_def)

lemma mapM_converts:
  assumes "\<forall>p \<in> set ps. converts P sem p"
  shows "if list_all valid_predicate ps then \<exists>qs. mapM (ToPredicate P) ps = Inr qs
      \<and> list_all2 (\<lambda>q p. \<forall>e. sem q e \<longleftrightarrow> holds p e) qs ps
    else \<exists>err. mapM (ToPredicate P) ps = Inl err"
  using assms
proof (induction ps)
  case (Cons p ps)
  then have "converts P sem p" and rest: "\<forall>p \<in> set ps. converts P sem p" by simp_all
  with Cons.IH [OF rest] show ?case
    by (cases "valid_predicate p"; cases "list_all valid_predicate ps") (auto simp: converts_def [of _ _ p])
qed simp

lemma list_all2_all_ex:
  assumes "list_all2 (\<lambda>q p. \<forall>e. sem q e \<longleftrightarrow> h p e) qs ps"
  shows "(\<forall>q \<in> set qs. sem q e) \<longleftrightarrow> list_all (\<lambda>p. h p e) ps" and "(\<exists>q \<in> set qs. sem q e) \<longleftrightarrow> list_ex (\<lambda>p. h p e) ps"
  using assms by (induction qs ps rule: list_all2_induct) auto

lemma bool_converts:
  assumes "pred_laws P sem" and "\<forall>p \<in> set ps. converts P sem p"
  shows "converts P sem (Predicate None (Some [(k, ps)]))"
proof (cases "list_all valid_predicate ps")
  case True
  with mapM_converts [OF assms(2)] obtain qs where qs: "mapM (ToPredicate P) ps = Inr qs"
    "list_all2 (\<lambda>q p. \<forall>e. sem q e \<longleftrightarrow> holds p e) qs ps" by auto
  note ex = list_all2_all_ex [OF qs(2)] and len = list_all2_lengthD [OF qs(2)]
  have "(\<exists>q \<in> set qs. sem q e) \<longleftrightarrow> sem (qs ! 0) e" if "length qs = 1" for e
    using that by (cases qs) auto
  with True qs(1) ex len assms(1) show ?thesis
    by (auto simp: converts_def bool_predicate_def pred_laws_def)
next
  case False
  with mapM_converts [OF assms(2)] show ?thesis by (auto simp: converts_def)
qed

lemma predicate_converts: "pred_laws P sem \<Longrightarrow> converts P sem p"
proof (induction p)
  case (Predicate basic boolean)
  show ?case
  proof (cases basic)
    case None
    show ?thesis
    proof (cases "\<exists>k ps. boolean = Some [(k, ps)]")
      case True
      then obtain k ps where "boolean = Some [(k, ps)]" by blast
      then show ?thesis using bool_converts [OF Predicate.prems] Predicate.IH Predicate.prems by (auto simp: None)
    next
      case False
      then show ?thesis
        by (auto simp: None converts_def length_Suc_conv elim: valid_predicate.elims(2) split: option.splits list.splits)
    qed
  qed (simp add: basic_converts Predicate.prems)
qed

text \<open>
  C37. The conversion to a predicate of controller-runtime succeeds exactly for
  the valid predicates (known basic names; one connective with valid arguments, one argument for
  \<^verbatim>\<open>Not\<close>), and the result accepts an event exactly when the formula holds of it, where a basic
  name stands for a change of the generation, the resource version, the labels or the
  annotations, as its name says.
\<close>

theorem predicate_meaning:
  assumes "pred_laws P sem"
  shows "if valid_predicate p then \<exists>q. ToPredicate P p = Inr q \<and> (\<forall>e. sem q e \<longleftrightarrow> holds p e)
    else \<exists>err. ToPredicate P p = Inl err"
  using predicate_converts [OF assms, of p] by (simp add: converts_def)

text \<open>Predicates as functions on events.\<close>

definition sample_preds :: "(watch_change \<Rightarrow> bool) pred_libs" where
  "sample_preds = \<lparr>GenerationChangedPredicate = differs om_Generation, ResourceVersionChangedPredicate = differs om_ResourceVersion,
     LabelChangedPredicate = differs om_Labels, AnnotationChangedPredicate = differs om_Annotations,
     pred_And = (\<lambda>ps e. list_all (\<lambda>p. p e) ps), pred_Or = (\<lambda>ps e. list_ex (\<lambda>p. p e) ps),
     pred_Not = (\<lambda>p e. \<not> p e)\<rparr>"

definition old_meta :: object_meta where
  "old_meta = \<lparr>om_Generation = 1, om_ResourceVersion = ''7'', om_Labels = [(''app'', ''a'')], om_Annotations = []\<rparr>"

definition basic_pred :: "string \<Rightarrow> Predicate" where
  "basic_pred pw = Predicate (Some pw) None"

definition sample_pred :: Predicate where
  "sample_pred = Predicate None (Some [(''And'', [basic_pred ''GenerationChanged'',
     Predicate None (Some [(''Not'', [basic_pred ''LabelChanged''])])])])"

theorem predicate_meaning_witness:
  "\<exists>q. ToPredicate sample_preds sample_pred = Inr q \<and> q (Changed old_meta (old_meta\<lparr>om_Generation := 2\<rparr>))
    \<and> \<not> q (Changed old_meta (old_meta\<lparr>om_Generation := 2, om_Labels := []\<rparr>))"
proof -
  have "pred_laws sample_preds (\<lambda>p e. p e)"
    by (simp add: pred_laws_def sample_preds_def list_all_iff list_ex_iff)
  moreover have "valid_predicate sample_pred" by code_simp
  moreover have "holds sample_pred (Changed old_meta (old_meta\<lparr>om_Generation := 2\<rparr>))"
    "\<not> holds sample_pred (Changed old_meta (old_meta\<lparr>om_Generation := 2, om_Labels := []\<rparr>))"
    by code_simp+
  ultimately show ?thesis using predicate_meaning [of sample_preds "\<lambda>p e. p e" sample_pred] by auto
qed

section \<open>The round trip\<close>

fun clean_predicate :: "Predicate \<Rightarrow> bool" where
  "clean_predicate (Predicate (Some pw) boolean) = (utf8_fix pw = pw \<and> boolean = None)"
| "clean_predicate (Predicate None (Some cp)) =
     (sm_wf cp \<and> list_all (\<lambda>(k, ps). utf8_fix k = k \<and> list_all clean_predicate ps) cp)"
| "clean_predicate (Predicate None None) = False"

definition pred_survives :: "Predicate \<Rightarrow> bool" where
  "pred_survives p \<longleftrightarrow> (\<exists>j. Predicate_MarshalJSON p = Inr j \<and> Predicate_UnmarshalJSON j = Inr p)"

lemma predicates_survive:
  assumes "\<forall>p \<in> set ps. pred_survives p"
  shows "\<exists>js. mapM Predicate_MarshalJSON ps = Inr js \<and> mapM Predicate_UnmarshalJSON js = Inr ps"
  using assms by (induction ps) (auto simp: pred_survives_def)

lemma connectives_survive:
  assumes "\<forall>(k, ps) \<in> set cp. utf8_fix k = k \<and> (\<forall>p \<in> set ps. pred_survives p)"
  shows "\<exists>js. mapM json_member_of (map (\<lambda>(k, ps). (k, bind (mapM Predicate_MarshalJSON ps) (\<lambda>js. Inr (JList js)))) cp) = Inr js
    \<and> mapM (\<lambda>(k, j). bind (unmarshal_predicates j) (\<lambda>ps. Inr (k, ps))) js = Inr cp"
  using assms
proof (induction cp)
  case (Cons c cp)
  obtain k ps where c: "c = (k, ps)" by force
  from Cons.prems have "utf8_fix k = k" "\<forall>p \<in> set ps. pred_survives p" by (simp_all add: c)
  with predicates_survive [of ps] Cons show ?case by (auto simp: c json_member_of_def)
qed simp

lemma clean_predicate_survives: "clean_predicate p \<Longrightarrow> pred_survives p"
proof (induction p rule: clean_predicate.induct)
  case (2 cp)
  then have cp: "sm_wf cp" "\<forall>(k, ps) \<in> set cp. utf8_fix k = k \<and> (\<forall>p \<in> set ps. pred_survives p)"
    by (fastforce simp: list_all_iff)+
  then have "sm_wf (map (\<lambda>(k, ps). (k, bind (mapM Predicate_MarshalJSON ps) (\<lambda>js. Inr (JList js)))) cp)"
    by (simp add: sm_wf_def case_prod_beta o_def)
  then show ?case using connectives_survive [OF cp(2)] foldl_sm_set_sorted [of "[]" cp] cp(1)
    by (auto simp: pred_survives_def json_object_def sort_sm_wf)
qed (auto simp: pred_survives_def)

text \<open>
  The JSON form of a predicate with one of its two parts set reads
  back as the predicate, so a deep copy is equal to its original.
\<close>

theorem predicate_json_roundtrip:
  assumes "clean_predicate p"
  shows "bind (Predicate_MarshalJSON p) Predicate_UnmarshalJSON = Inr p \<and> Predicate_DeepCopy (Some p) = Some p"
  using clean_predicate_survives [OF assms]
  by (auto simp: pred_survives_def Predicate_DeepCopy_def Predicate_DeepCopyInto_def)

theorem predicate_json_roundtrip_witness: "Predicate_DeepCopy (Some sample_pred) = Some sample_pred"
proof -
  have "clean_predicate sample_pred" by code_simp
  then show ?thesis using predicate_json_roundtrip [of sample_pred] by blast
qed

end
