(* ===== verification/View_Discovery.thy ===== *)
theory View_Discovery
  imports Auth
begin

text \<open>
  Discovery of view resources (\<^verbatim>\<open>pkg/cache/view_discovery.go\<close>): the registry of view kinds, list and
  object kinds, resource names, and the groups and resources that the registry advertises.  The
  map of registered views is the list of its entries in the order of an iteration.
\<close>

text \<open>\<^verbatim>\<open>strings.ToLower\<close> on ASCII text, which kinds are.\<close>

definition ToLower :: "string \<Rightarrow> string" where
  "ToLower s = map (\<lambda>c. let b = of_char c :: nat in if 65 \<le> b \<and> b \<le> 90 then char_of (b + 32) else c) s"

record APIResource =
  ar_Name :: string
  ar_SingularName :: string
  ar_Namespaced :: bool
  ar_Kind :: string
  ar_Group :: string
  ar_Version :: string
  ar_Verbs :: "string list"
  ar_Categories :: "string list"

type_synonym registry = "(GroupVersionKind \<times> APIResource) list"

section \<open>Kinds and resources\<close>

definition Discovery_IsViewKind :: "GroupVersionKind \<Rightarrow> bool" where
  "Discovery_IsViewKind gvk \<longleftrightarrow> IsViewKind gvk \<and> \<not> HasSuffix (gvk_Kind gvk) ''List''"

definition IsViewListKind :: "GroupVersionKind \<Rightarrow> bool" where
  "IsViewListKind gvk \<longleftrightarrow> IsViewKind gvk \<and> HasSuffix (gvk_Kind gvk) ''List''"

definition ObjectGVKFromListGVK :: "GroupVersionKind \<Rightarrow> GroupVersionKind" where
  "ObjectGVKFromListGVK listGVK =
     (if IsViewListKind listGVK
      then \<lparr>gvk_Group = gvk_Group listGVK, gvk_Version = gvk_Version listGVK,
            gvk_Kind = TrimSuffix (gvk_Kind listGVK) ''List''\<rparr>
      else listGVK)"

definition ListGVKFromObjectGVK :: "GroupVersionKind \<Rightarrow> GroupVersionKind" where
  "ListGVKFromObjectGVK objGVK =
     (if Discovery_IsViewKind objGVK
      then \<lparr>gvk_Group = gvk_Group objGVK, gvk_Version = gvk_Version objGVK, gvk_Kind = gvk_Kind objGVK @ ''List''\<rparr>
      else objGVK)"

definition ResourceFromKind :: "string \<Rightarrow> string" where
  "ResourceFromKind kind = (if HasSuffix kind ''List'' then ToLower (TrimSuffix kind ''List'') else ToLower kind)"

definition KindFromResource :: "registry \<Rightarrow> string \<Rightarrow> string res" where
  "KindFromResource d resource =
     (case find (\<lambda>(gvk, r). ar_Name r = resource \<or> ar_SingularName r = resource \<or> ToLower (gvk_Kind gvk) = resource) d of
        Some (gvk, _) \<Rightarrow> Inr (gvk_Kind gvk)
      | None \<Rightarrow> Inl (Error ''view resource not registered''))"

section \<open>The registry\<close>

definition RegisterViewGVK :: "GroupVersionKind \<Rightarrow> registry \<Rightarrow> registry" where
  "RegisterViewGVK gvk d =
     (if \<not> Discovery_IsViewKind gvk then d
      else if map_of d gvk \<noteq> None then d
      else AList.update gvk
        \<lparr>ar_Name = ResourceFromKind (gvk_Kind gvk), ar_SingularName = ResourceFromKind (gvk_Kind gvk),
         ar_Namespaced = True, ar_Kind = gvk_Kind gvk, ar_Group = gvk_Group gvk, ar_Version = gvk_Version gvk,
         ar_Verbs = [''get'', ''list'', ''create'', ''update'', ''patch'', ''delete'', ''watch''],
         ar_Categories = [''dcontroller'', ''views'']\<rparr> d)"

definition UnregisterViewGVK :: "GroupVersionKind \<Rightarrow> registry \<Rightarrow> registry" where
  "UnregisterViewGVK gvk d = AList.delete gvk d"

definition GetRegisteredViewGVKs :: "registry \<Rightarrow> GroupVersionKind list" where
  "GetRegisteredViewGVKs d = map fst d"

definition gv_String :: "GroupVersion \<Rightarrow> string" where
  "gv_String gv = (if gv_Group gv \<noteq> [] then gv_Group gv @ ''/'' @ gv_Version gv else gv_Version gv)"

text \<open>Parsing the text of a group and version is library code.\<close>

definition ServerResourcesForGroupVersion ::
    "(string \<Rightarrow> GroupVersion res) \<Rightarrow> registry \<Rightarrow> string \<Rightarrow> APIResource list res" where
  "ServerResourcesForGroupVersion ParseGroupVersion d groupVersion =
     bind (ParseGroupVersion groupVersion) (\<lambda>gv.
       Inr (map snd (filter (\<lambda>(gvk, _). gvk_GroupVersion gvk = gv) d)))"

text \<open>
  The groups with their versions.  The loop over the existing versions has a \<^verbatim>\<open>continue\<close> that
  ends the inner loop's iteration only, so a version is appended for every registered kind.
\<close>

definition add_group_version :: "(string \<times> (string \<times> string) list) list \<Rightarrow> GroupVersionKind \<Rightarrow> (string \<times> (string \<times> string) list) list" where
  "add_group_version groups gvk =
     (let gv = gvk_GroupVersion gvk;
          old = (case map_of groups (gv_Group gv) of Some vs \<Rightarrow> vs | None \<Rightarrow> [])
      in AList.update (gv_Group gv) (old @ [(gv_String gv, gv_Version gv)]) groups)"

record APIGroup =
  ag_Name :: string
  ag_Versions :: "(string \<times> string) list"
  ag_PreferredVersion :: "(string \<times> string) option"

definition api_group :: "string \<times> (string \<times> string) list \<Rightarrow> APIGroup" where
  "api_group gvs =
     \<lparr>ag_Name = fst gvs, ag_Versions = snd gvs,
      ag_PreferredVersion =
        (if snd gvs = [] then None
         else case find (\<lambda>v. snd v = ViewVersion) (snd gvs) of Some v \<Rightarrow> Some v | None \<Rightarrow> Some (hd (snd gvs)))\<rparr>"

definition ServerGroups :: "registry \<Rightarrow> APIGroup list" where
  "ServerGroups d = map api_group (foldl add_group_version [] (map fst d))"

definition ServerGroupsAndResources ::
    "(string \<Rightarrow> GroupVersion res) \<Rightarrow> registry \<Rightarrow> (APIGroup list \<times> APIResource list list) res" where
  "ServerGroupsAndResources ParseGroupVersion d =
     bind (mapM (\<lambda>gv. ServerResourcesForGroupVersion ParseGroupVersion d (gv_String gv))
        (remdups (map (\<lambda>(gvk, _). gvk_GroupVersion gvk) d))) (\<lambda>resourceLists.
       Inr (ServerGroups d, filter (\<lambda>rs. rs \<noteq> []) resourceLists))"

definition ServerPreferredResources :: "(string \<Rightarrow> GroupVersion res) \<Rightarrow> registry \<Rightarrow> APIResource list list res" where
  "ServerPreferredResources ParseGroupVersion d =
     bind (ServerGroupsAndResources ParseGroupVersion d) (\<lambda>(_, resourceLists). Inr resourceLists)"

definition ServerPreferredNamespacedResources :: "(string \<Rightarrow> GroupVersion res) \<Rightarrow> registry \<Rightarrow> APIResource list list res" where
  "ServerPreferredNamespacedResources ParseGroupVersion d = ServerPreferredResources ParseGroupVersion d"

section \<open>Laws\<close>

text \<open>List kinds and object kinds are each other's inverse.\<close>

lemma list_object_kind: "Discovery_IsViewKind gvk \<Longrightarrow> ObjectGVKFromListGVK (ListGVKFromObjectGVK gvk) = gvk"
  by (simp add: ObjectGVKFromListGVK_def ListGVKFromObjectGVK_def IsViewListKind_def Discovery_IsViewKind_def
      IsViewKind_iff TrimSuffix_def)

text \<open>Registering adds exactly the object kinds of views and keeps the other entries.\<close>

lemma registered_kinds:
  "set (GetRegisteredViewGVKs (RegisterViewGVK gvk d))
    = set (GetRegisteredViewGVKs d) \<union> (if Discovery_IsViewKind gvk then {gvk} else {})"
  by (auto simp: RegisterViewGVK_def GetRegisteredViewGVKs_def map_of_eq_None_iff dom_update)

lemma unregistered_kinds:
  "set (GetRegisteredViewGVKs (UnregisterViewGVK gvk d)) = set (GetRegisteredViewGVKs d) - {gvk}"
  by (auto simp: UnregisterViewGVK_def GetRegisteredViewGVKs_def)

text \<open>The version of a group with two registered kinds is advertised twice.\<close>

definition two_views :: registry where
  "two_views = RegisterViewGVK (ViewGroupVersionKind ''op'' ''A'') (RegisterViewGVK (ViewGroupVersionKind ''op'' ''B'') [])"

theorem versions_advertised_twice:
  "map ag_Versions (ServerGroups two_views)
    = [[(''op.view.dcontroller.io/v1alpha1'', ''v1alpha1''), (''op.view.dcontroller.io/v1alpha1'', ''v1alpha1'')]]"
  by code_simp

end
