(* ===== verification/View_Cache.thy ===== *)
theory View_Cache
  imports View_Discovery Objects
begin

text \<open>
  The cache of view objects with its informers and watchers (\<^verbatim>\<open>pkg/cache/view_cache.go\<close>,
  \<^verbatim>\<open>view_cache_informer.go\<close>), the caches that delegate to it (\<^verbatim>\<open>delegating_view_cache.go\<close>) and
  the client on top (\<^verbatim>\<open>view_client.go\<close>).

  Informers are shared by pointer between the cache and the delegating caches: \<open>vc_heap\<close> holds
  them, and a pointer is an index into it.  An informer's indexer is always the one the cache
  keeps for the informer's kind, so it is not stored twice.  Handlers are values of a type
  parameter; what an operation delivers to them is returned as the list of calls it makes.  An
  operation runs as a whole: interleavings inside an operation are not modelled.
\<close>

section \<open>State\<close>

datatype event =
    OnAdd object bool
  | OnUpdate object object
  | OnDelete object

type_synonym 'h calls = "('h \<times> event) list"

text \<open>
  A transformer returns an error, a value that is not an object (\<open>None\<close>), or an object.
\<close>

record 'h ViewCacheInformer =
  inf_gvk :: GroupVersionKind
  inf_handlers :: "(64 word \<times> 'h) list"
  inf_handlerCounter :: "64 word"
  inf_transform :: "(object \<Rightarrow> object option res) option"
  inf_stopped :: bool

record ('s, 'h) ViewCache =
  vc_caches :: "(GroupVersionKind \<times> 's) list"
  vc_informers :: "(GroupVersionKind \<times> nat) list"
  vc_delegatingInformers :: "(GroupVersionKind \<times> nat list) list"
  vc_heap :: "'h ViewCacheInformer list"

text \<open>
  Library code the cache calls on objects: labels, semantic equality, nested fields, label and
  field selectors.
\<close>

record ('l, 'f) cache_libs =
  u_labels :: "object \<Rightarrow> (string \<times> string) list"
  SemanticDeepEqual :: "object \<Rightarrow> object \<Rightarrow> bool"
  NestedString :: "object \<Rightarrow> string list \<Rightarrow> string option"
  NestedBool :: "object \<Rightarrow> string list \<Rightarrow> bool option"
  labels_SelectorFromSet :: "(string \<times> string) list \<Rightarrow> 'l"
  labels_Matches :: "'l \<Rightarrow> (string \<times> string) list \<Rightarrow> bool"
  fields_SelectorFromSet :: "(string \<times> string) list \<Rightarrow> 'f"
  fields_Matches :: "'f \<Rightarrow> (string \<times> string) list \<Rightarrow> bool"

definition not_a_view :: error where
  "not_a_view = Error ''not a view GVK''"

definition NotFound :: error where
  "NotFound = Error ''NotFound''"

section \<open>Informers (\<^verbatim>\<open>view_cache_informer.go\<close>)\<close>

definition NewViewCacheInformer :: "GroupVersionKind \<Rightarrow> 'h ViewCacheInformer" where
  "NewViewCacheInformer gvk =
     \<lparr>inf_gvk = gvk, inf_handlers = [], inf_handlerCounter = 0, inf_transform = None, inf_stopped = False\<rparr>"

text \<open>The object after the transformer; \<open>None\<close> when the event is dropped.\<close>

definition transformed :: "'s k8s \<Rightarrow> 'h ViewCacheInformer \<Rightarrow> object \<Rightarrow> object option" where
  "transformed K informer obj =
     (case inf_transform informer of
        None \<Rightarrow> Some obj
      | Some f \<Rightarrow> (case f (Object_DeepCopy K obj) of Inr (Some obj') \<Rightarrow> Some obj' | _ \<Rightarrow> None))"

text \<open>Registering a handler replays the content of the indexer to it.\<close>

definition AddEventHandler ::
    "'s k8s \<Rightarrow> 's \<Rightarrow> 'h \<Rightarrow> 'h ViewCacheInformer \<Rightarrow> 'h ViewCacheInformer \<times> 'h calls \<times> 64 word" where
  "AddEventHandler K indexer handler informer =
     (let id = inf_handlerCounter informer + 1;
          informer' = informer\<lparr>inf_handlerCounter := id, inf_handlers := AList.update id handler (inf_handlers informer)\<rparr>
      in (informer', map (\<lambda>obj. (handler, OnAdd (Object_DeepCopy K obj) True))
                  (List.map_filter (transformed K informer) (ts_list K indexer)), id))"

definition RemoveEventHandler :: "64 word \<Rightarrow> 'h ViewCacheInformer \<Rightarrow> 'h ViewCacheInformer" where
  "RemoveEventHandler reg informer = informer\<lparr>inf_handlers := AList.delete reg (inf_handlers informer)\<rparr>"

definition SetTransform :: "(object \<Rightarrow> object option res) option \<Rightarrow> 'h ViewCacheInformer \<Rightarrow> 'h ViewCacheInformer" where
  "SetTransform f informer = informer\<lparr>inf_transform := f\<rparr>"

text \<open>\<^verbatim>\<open>Run\<close> waits for the stop signal and leaves the informer stopped.\<close>

definition Informer_Run :: "'h ViewCacheInformer \<Rightarrow> 'h ViewCacheInformer" where
  "Informer_Run informer = informer\<lparr>inf_stopped := True\<rparr>"

definition IsStopped :: "'h ViewCacheInformer \<Rightarrow> bool" where
  "IsStopped informer = inf_stopped informer"

definition handler_call :: "'s k8s \<Rightarrow> DeltaType \<Rightarrow> object \<Rightarrow> object \<Rightarrow> event list" where
  "handler_call K eventType oldObj newObj =
     (case eventType of
        Added \<Rightarrow> [OnAdd (Object_DeepCopy K newObj) False]
      | Updated \<Rightarrow> [OnUpdate oldObj (Object_DeepCopy K newObj)]
      | Deleted \<Rightarrow> [OnDelete (Object_DeepCopy K newObj)]
      | _ \<Rightarrow> [])"

definition TriggerEvent :: "'s k8s \<Rightarrow> 'h ViewCacheInformer \<Rightarrow> DeltaType \<Rightarrow> object \<Rightarrow> object \<Rightarrow> 'h calls" where
  "TriggerEvent K informer eventType oldObj newObj =
     (if inf_handlers informer = [] then []
      else case transformed K informer newObj of
        None \<Rightarrow> []
      | Some newObj' \<Rightarrow>
          concat (map (\<lambda>(_, handler). map (Pair handler) (handler_call K eventType oldObj newObj')) (inf_handlers informer)))"

section \<open>The cache (\<^verbatim>\<open>view_cache.go\<close>)\<close>

definition NewViewCache :: "('s, 'h) ViewCache" where
  "NewViewCache = \<lparr>vc_caches = [], vc_informers = [], vc_delegatingInformers = [], vc_heap = []\<rparr>"

definition RegisterCacheForKind :: "'s k8s \<Rightarrow> GroupVersionKind \<Rightarrow> ('s, 'h) ViewCache \<Rightarrow> ('s, 'h) ViewCache \<times> unit res" where
  "RegisterCacheForKind K gvk c =
     (if \<not> IsViewKind gvk then (c, Inl not_a_view)
      else if map_of (vc_caches c) gvk \<noteq> None then (c, Inr ())
      else (c\<lparr>vc_caches := AList.update gvk (ts_new K) (vc_caches c)\<rparr>, Inr ()))"

definition GetCacheForKind :: "'s k8s \<Rightarrow> GroupVersionKind \<Rightarrow> ('s, 'h) ViewCache \<Rightarrow> ('s, 'h) ViewCache \<times> 's res" where
  "GetCacheForKind K gvk c =
     (if \<not> IsViewKind gvk then (c, Inl not_a_view)
      else
        let (c1, r) = (if map_of (vc_caches c) gvk = None then RegisterCacheForKind K gvk c else (c, Inr ())) in
        case r of
          Inl err \<Rightarrow> (c1, Inl err)
        | Inr _ \<Rightarrow>
            (case map_of (vc_caches c1) gvk of
               None \<Rightarrow> (c1, Inl (Error ''could not create cache for GVK''))
             | Some indexer \<Rightarrow> (c1, Inr indexer)))"

text \<open>A new informer is put on the heap; the result is its address.\<close>

definition alloc_informer :: "GroupVersionKind \<Rightarrow> ('s, 'h) ViewCache \<Rightarrow> ('s, 'h) ViewCache \<times> nat" where
  "alloc_informer gvk c = (c\<lparr>vc_heap := vc_heap c @ [NewViewCacheInformer gvk]\<rparr>, length (vc_heap c))"

definition RegisterInformerForKind :: "'s k8s \<Rightarrow> GroupVersionKind \<Rightarrow> ('s, 'h) ViewCache \<Rightarrow> ('s, 'h) ViewCache \<times> unit res" where
  "RegisterInformerForKind K gvk c =
     (if \<not> IsViewKind gvk then (c, Inl not_a_view)
      else
        case GetCacheForKind K gvk c of
          (c1, Inl err) \<Rightarrow> (c1, Inl err)
        | (c1, Inr _) \<Rightarrow>
            if map_of (vc_informers c1) gvk \<noteq> None then (c1, Inr ())
            else
              let (c2, a) = alloc_informer gvk c1 in
              (c2\<lparr>vc_informers := AList.update gvk a (vc_informers c2)\<rparr>, Inr ()))"

definition delegating :: "('s, 'h) ViewCache \<Rightarrow> GroupVersionKind \<Rightarrow> nat list" where
  "delegating c gvk = (case map_of (vc_delegatingInformers c) gvk of Some as \<Rightarrow> as | None \<Rightarrow> [])"

definition RegisterDelegatingInformer :: "GroupVersionKind \<Rightarrow> nat \<Rightarrow> ('s, 'h) ViewCache \<Rightarrow> ('s, 'h) ViewCache \<times> unit res" where
  "RegisterDelegatingInformer gvk informer c =
     (if \<not> IsViewKind gvk then (c, Inl not_a_view)
      else (c\<lparr>vc_delegatingInformers := AList.update gvk (delegating c gvk @ [informer]) (vc_delegatingInformers c)\<rparr>, Inr ()))"

text \<open>The first occurrence is overwritten with the last element and the slice is cut by one.\<close>

fun remove_swap :: "nat \<Rightarrow> nat list \<Rightarrow> nat list" where
  "remove_swap a [] = []"
| "remove_swap a (x # xs) =
     (if x = a then (if xs = [] then [] else last xs # butlast xs) else x # remove_swap a xs)"

definition UnregisterDelegatingInformer :: "GroupVersionKind \<Rightarrow> nat \<Rightarrow> ('s, 'h) ViewCache \<Rightarrow> ('s, 'h) ViewCache \<times> unit res" where
  "UnregisterDelegatingInformer gvk informer c =
     (if \<not> IsViewKind gvk then (c, Inl not_a_view)
      else if informer \<in> set (delegating c gvk)
      then (c\<lparr>vc_delegatingInformers := AList.update gvk (remove_swap informer (delegating c gvk)) (vc_delegatingInformers c)\<rparr>, Inr ())
      else (c, Inr ()))"

definition GetInformerForKind :: "'s k8s \<Rightarrow> GroupVersionKind \<Rightarrow> ('s, 'h) ViewCache \<Rightarrow> ('s, 'h) ViewCache \<times> nat res" where
  "GetInformerForKind K gvk c =
     (if \<not> IsViewKind gvk then (c, Inl not_a_view)
      else
        case map_of (vc_informers c) gvk of
          Some informer \<Rightarrow> (c, Inr informer)
        | None \<Rightarrow>
            (case RegisterInformerForKind K gvk c of
               (c1, Inl err) \<Rightarrow> (c1, Inl (wrap ''could not create informer for GVK'' err))
             | (c1, Inr _) \<Rightarrow>
                 (case map_of (vc_informers c1) gvk of
                    None \<Rightarrow> (c1, Inl (Error ''informer lost for GVK''))
                  | Some informer \<Rightarrow> (c1, Inr informer))))"

definition RemoveInformer :: "'s k8s \<Rightarrow> object \<Rightarrow> ('s, 'h) ViewCache \<Rightarrow> ('s, 'h) ViewCache" where
  "RemoveInformer K obj c =
     (let gvk = u_gvk K obj in
      if map_of (vc_informers c) gvk \<noteq> None then c\<lparr>vc_informers := AList.delete gvk (vc_informers c)\<rparr> else c)"

text \<open>The shared informer first, then the delegating informers of the kind.\<close>

definition trigger_all ::
    "'s k8s \<Rightarrow> GroupVersionKind \<Rightarrow> DeltaType \<Rightarrow> object \<Rightarrow> object \<Rightarrow> ('s, 'h) ViewCache \<Rightarrow> ('s, 'h) ViewCache \<times> 'h calls \<times> unit res" where
  "trigger_all K gvk eventType oldObj newObj c =
     (case GetInformerForKind K gvk c of
        (c1, Inl err) \<Rightarrow> (c1, [], Inl err)
      | (c1, Inr informer) \<Rightarrow>
          (c1, concat (map (\<lambda>a. TriggerEvent K (vc_heap c1 ! a) eventType oldObj newObj) (informer # delegating c1 gvk)), Inr ()))"

text \<open>An operation of the indexer of a kind.\<close>

definition on_indexer ::
    "GroupVersionKind \<Rightarrow> ('s \<Rightarrow> 's res) \<Rightarrow> 's \<Rightarrow> ('s, 'h) ViewCache \<Rightarrow> ('s, 'h) ViewCache \<times> unit res" where
  "on_indexer gvk f indexer c =
     (case f indexer of
        Inl err \<Rightarrow> (c, Inl err)
      | Inr indexer' \<Rightarrow> (c\<lparr>vc_caches := AList.update gvk indexer' (vc_caches c)\<rparr>, Inr ()))"

definition Add_view :: "'s k8s \<Rightarrow> object \<Rightarrow> ('s, 'h) ViewCache \<Rightarrow> ('s, 'h) ViewCache \<times> 'h calls \<times> unit res" where
  "Add_view K obj c =
     (let gvk = u_gvk K obj in
      if \<not> IsViewKind gvk then (c, [], Inl not_a_view)
      else
        case GetCacheForKind K gvk c of
          (c1, Inl err) \<Rightarrow> (c1, [], Inl err)
        | (c1, Inr indexer) \<Rightarrow>
            let obj' = WithUID K (Object_DeepCopy K obj) in
            (case on_indexer gvk (ts_add K obj') indexer c1 of
               (c2, Inl err) \<Rightarrow> (c2, [], Inl err)
             | (c2, Inr _) \<Rightarrow> trigger_all K gvk Added [] obj' c2))"

definition Update_view ::
    "'s k8s \<Rightarrow> ('l, 'f) cache_libs \<Rightarrow> object \<Rightarrow> object \<Rightarrow> ('s, 'h) ViewCache \<Rightarrow> ('s, 'h) ViewCache \<times> 'h calls \<times> unit res" where
  "Update_view K L oldObj newObj0 c =
     (let newObj = WithUID K (Object_DeepCopy K newObj0);
          gvk = u_gvk K newObj in
      if \<not> IsViewKind gvk then (c, [], Inl not_a_view)
      else if SemanticDeepEqual L oldObj newObj then (c, [], Inr ())
      else
        case GetCacheForKind K gvk c of
          (c1, Inl err) \<Rightarrow> (c1, [], Inl err)
        | (c1, Inr indexer) \<Rightarrow>
            (case on_indexer gvk (ts_update K newObj) indexer c1 of
               (c2, Inl err) \<Rightarrow> (c2, [], Inl err)
             | (c2, Inr _) \<Rightarrow> trigger_all K gvk Updated oldObj newObj c2))"

text \<open>\<^verbatim>\<open>ObjectName.String\<close> of client-go, also the key of \<^verbatim>\<open>MetaNamespaceKeyFunc\<close>.\<close>

definition cache_key :: "string \<Rightarrow> string \<Rightarrow> string" where
  "cache_key ns name = (if ns = [] then name else ns @ ''/'' @ name)"

definition Delete_view :: "'s k8s \<Rightarrow> object \<Rightarrow> ('s, 'h) ViewCache \<Rightarrow> ('s, 'h) ViewCache \<times> 'h calls \<times> unit res" where
  "Delete_view K obj c =
     (let gvk = u_gvk K obj in
      if \<not> IsViewKind gvk then (c, [], Inl not_a_view)
      else
        case GetCacheForKind K gvk c of
          (c1, Inl err) \<Rightarrow> (c1, [], Inl err)
        | (c1, Inr indexer) \<Rightarrow>
            (case ts_getByKey K (cache_key (u_namespace K obj) (u_name K obj)) indexer of
               Inl err \<Rightarrow> (c1, [], Inl err)
             | Inr None \<Rightarrow> (c1, [], Inl NotFound)
             | Inr (Some existingObj) \<Rightarrow>
                 (case on_indexer gvk (ts_delete K existingObj) indexer c1 of
                    (c2, Inl err) \<Rightarrow> (c2, [], Inl err)
                  | (c2, Inr _) \<Rightarrow> trigger_all K gvk Deleted [] existingObj c2)))"

text \<open>\<^verbatim>\<open>Get\<close> with the kind of the target object; the result is the target's new content.\<close>

definition Get_view ::
    "'s k8s \<Rightarrow> string \<Rightarrow> string \<Rightarrow> GroupVersionKind \<Rightarrow> ('s, 'h) ViewCache \<Rightarrow> ('s, 'h) ViewCache \<times> object res" where
  "Get_view K ns name gvk c =
     (if \<not> IsViewKind gvk then (c, Inl not_a_view)
      else
        case GetCacheForKind K gvk c of
          (c1, Inl err) \<Rightarrow> (c1, Inl (Error ''invalid GVK''))
        | (c1, Inr indexer) \<Rightarrow>
            (c1, case ts_getByKey K (cache_key ns name) indexer of
                   Inl err \<Rightarrow> Inl err
                 | Inr None \<Rightarrow> Inl NotFound
                 | Inr (Some item) \<Rightarrow> Inr (Object_DeepCopy K item)))"

section \<open>Lists\<close>

datatype ('l, 'f) ListOption =
    MatchingLabelsSelector "'l option"
  | MatchingLabels "(string \<times> string) list"
  | MatchingFields "(string \<times> string) list"
  | MatchingFieldsSelector "'f option"
  | InNamespace string
  | OtherOption

record ('l, 'f) selectors =
  sel_label :: "'l option"
  sel_field :: "'f option"
  sel_namespace :: string

definition list_option :: "('l, 'f) cache_libs \<Rightarrow> ('l, 'f) selectors \<Rightarrow> ('l, 'f) ListOption \<Rightarrow> ('l, 'f) selectors" where
  "list_option L sel opt =
     (case opt of
        MatchingLabelsSelector s \<Rightarrow> sel\<lparr>sel_label := s\<rparr>
      | MatchingLabels ls \<Rightarrow> sel\<lparr>sel_label := Some (labels_SelectorFromSet L ls)\<rparr>
      | MatchingFields fs \<Rightarrow> sel\<lparr>sel_field := Some (fields_SelectorFromSet L fs)\<rparr>
      | MatchingFieldsSelector s \<Rightarrow> sel\<lparr>sel_field := s\<rparr>
      | InNamespace ns \<Rightarrow> sel\<lparr>sel_namespace := ns\<rparr>
      | OtherOption \<Rightarrow> sel)"

definition selectors_of :: "('l, 'f) cache_libs \<Rightarrow> ('l, 'f) ListOption list \<Rightarrow> ('l, 'f) selectors" where
  "selectors_of L opts = foldl (list_option L) \<lparr>sel_label = None, sel_field = None, sel_namespace = []\<rparr> opts"

definition matchesFieldSelector :: "'s k8s \<Rightarrow> ('l, 'f) cache_libs \<Rightarrow> object \<Rightarrow> 'f \<Rightarrow> bool" where
  "matchesFieldSelector K L obj selector =
     fields_Matches L selector
       ([(''metadata.name'', u_name K obj), (''metadata.namespace'', u_namespace K obj)]
        @ (case NestedString L obj [''status'', ''phase''] of Some status \<Rightarrow> [(''status.phase'', status)] | None \<Rightarrow> [])
        @ (case NestedBool L obj [''status'', ''ready''] of
             Some ready \<Rightarrow> [(''status.ready'', if ready then ''true'' else ''false'')] | None \<Rightarrow> []))"

text \<open>The filter that \<^verbatim>\<open>List\<close> and the watchers share.\<close>

definition shouldIncludeObject :: "'s k8s \<Rightarrow> ('l, 'f) cache_libs \<Rightarrow> ('l, 'f) selectors \<Rightarrow> object \<Rightarrow> bool" where
  "shouldIncludeObject K L sel obj \<longleftrightarrow>
     \<not> (sel_namespace sel \<noteq> [] \<and> u_namespace K obj \<noteq> sel_namespace sel)
     \<and> (case sel_label sel of Some s \<Rightarrow> labels_Matches L s (u_labels L obj) | None \<Rightarrow> True)
     \<and> (case sel_field sel of Some s \<Rightarrow> matchesFieldSelector K L obj s | None \<Rightarrow> True)"

definition AppendToListItem :: "'s k8s \<Rightarrow> object list \<Rightarrow> object \<Rightarrow> object list" where
  "AppendToListItem K items obj = items @ [Object_DeepCopy K obj]"

definition List_view ::
    "'s k8s \<Rightarrow> ('l, 'f) cache_libs \<Rightarrow> GroupVersionKind \<Rightarrow> object list \<Rightarrow> ('l, 'f) ListOption list
      \<Rightarrow> ('s, 'h) ViewCache \<Rightarrow> ('s, 'h) ViewCache \<times> object list res" where
  "List_view K L listGVK items opts c =
     (let objGVK = ObjectGVKFromListGVK listGVK in
      if \<not> IsViewKind objGVK then (c, Inl not_a_view)
      else
        case GetCacheForKind K objGVK c of
          (c1, Inl err) \<Rightarrow> (c1, Inl (Error ''invalid GVK''))
        | (c1, Inr indexer) \<Rightarrow>
            (c1, Inr (foldl (\<lambda>items target.
               if shouldIncludeObject K L (selectors_of L opts) target
               then AppendToListItem K items (Object_DeepCopy K target) else items) items (ts_list K indexer))))"

definition NewViewObjectList :: "string \<Rightarrow> string \<Rightarrow> GroupVersionKind" where
  "NewViewObjectList oper view = ListGVKFromObjectGVK (ViewGroupVersionKind oper view)"

section \<open>Watchers\<close>

datatype watch_event = WatchAdded object | WatchModified object | WatchDeleted object

record ('l, 'f) ViewCacheWatcher =
  w_eventChan :: "watch_event list"
  w_stopped :: bool
  w_selectors :: "('l, 'f) selectors"

definition DefaultWatchChannelBuffer :: nat where
  "DefaultWatchChannelBuffer = 256"

text \<open>
  Sending blocks for at most a second when the buffer is full; \<open>received\<close> says whether the reader
  takes an event out in that time, otherwise the event is dropped.
\<close>

definition sendEvent :: "bool \<Rightarrow> watch_event \<Rightarrow> ('l, 'f) ViewCacheWatcher \<Rightarrow> ('l, 'f) ViewCacheWatcher" where
  "sendEvent received ev w =
     (if w_stopped w then w
      else if length (w_eventChan w) < DefaultWatchChannelBuffer then w\<lparr>w_eventChan := w_eventChan w @ [ev]\<rparr>
      else if received then w\<lparr>w_eventChan := tl (w_eventChan w) @ [ev]\<rparr>
      else w)"

definition Watcher_Stop :: "('l, 'f) ViewCacheWatcher \<Rightarrow> ('l, 'f) ViewCacheWatcher" where
  "Watcher_Stop w = w\<lparr>w_stopped := True\<rparr>"

text \<open>The handler functions of a watcher: the event it sends, if any.\<close>

definition watch_handler :: "'s k8s \<Rightarrow> ('l, 'f) cache_libs \<Rightarrow> ('l, 'f) selectors \<Rightarrow> event \<Rightarrow> watch_event option" where
  "watch_handler K L sel ev =
     (case ev of
        OnAdd obj _ \<Rightarrow> if shouldIncludeObject K L sel obj then Some (WatchAdded obj) else None
      | OnUpdate oldObj newObj \<Rightarrow> if shouldIncludeObject K L sel newObj then Some (WatchModified newObj) else None
      | OnDelete obj \<Rightarrow> if shouldIncludeObject K L sel obj then Some (WatchDeleted obj) else None)"

definition watcher_call :: "'s k8s \<Rightarrow> ('l, 'f) cache_libs \<Rightarrow> bool \<Rightarrow> event \<Rightarrow> ('l, 'f) ViewCacheWatcher \<Rightarrow> ('l, 'f) ViewCacheWatcher" where
  "watcher_call K L received ev w =
     (case watch_handler K L (w_selectors w) ev of None \<Rightarrow> w | Some wev \<Rightarrow> sendEvent received wev w)"

text \<open>
  \<^verbatim>\<open>Watch\<close>: a new watcher, registered under the handler \<open>handler\<close> with the shared informer of the
  kind.  The goroutine that removes the handler when the context ends is \<open>stop_watch\<close>.
\<close>

definition Watch_view ::
    "'s k8s \<Rightarrow> ('l, 'f) cache_libs \<Rightarrow> 'h \<Rightarrow> GroupVersionKind \<Rightarrow> ('l, 'f) ListOption list \<Rightarrow> ('s, 'h) ViewCache
      \<Rightarrow> ('s, 'h) ViewCache \<times> 'h calls \<times> (('l, 'f) ViewCacheWatcher \<times> nat \<times> 64 word) res" where
  "Watch_view K L handler listGVK opts c =
     (let objGVK = ObjectGVKFromListGVK listGVK in
      case GetInformerForKind K objGVK c of
        (c1, Inl err) \<Rightarrow> (c1, [], Inl err)
      | (c1, Inr a) \<Rightarrow>
          (case GetCacheForKind K (inf_gvk (vc_heap c1 ! a)) c1 of
             (c2, Inl err) \<Rightarrow> (c2, [], Inl err)
           | (c2, Inr indexer) \<Rightarrow>
               let (informer, calls, reg) = AddEventHandler K indexer handler (vc_heap c2 ! a) in
               (c2\<lparr>vc_heap := (vc_heap c2)[a := informer]\<rparr>, calls,
                Inr (\<lparr>w_eventChan = [], w_stopped = False, w_selectors = selectors_of L opts\<rparr>, a, reg))))"

definition stop_watch ::
    "nat \<Rightarrow> 64 word \<Rightarrow> ('s, 'h) ViewCache \<Rightarrow> ('l, 'f) ViewCacheWatcher \<Rightarrow> ('s, 'h) ViewCache \<times> ('l, 'f) ViewCacheWatcher" where
  "stop_watch a reg c w =
     (c\<lparr>vc_heap := (vc_heap c)[a := RemoveEventHandler reg (vc_heap c ! a)]\<rparr>, Watcher_Stop w)"

section \<open>Delegating caches (\<^verbatim>\<open>delegating_view_cache.go\<close>)\<close>

record DelegatingViewCache =
  dc_informers :: "(GroupVersionKind \<times> nat) list"

definition NewDelegatingViewCache :: DelegatingViewCache where
  "NewDelegatingViewCache = \<lparr>dc_informers = []\<rparr>"

definition registerInformerForKind ::
    "'s k8s \<Rightarrow> GroupVersionKind \<Rightarrow> DelegatingViewCache \<Rightarrow> ('s, 'h) ViewCache \<Rightarrow> DelegatingViewCache \<times> ('s, 'h) ViewCache \<times> unit res" where
  "registerInformerForKind K gvk d c =
     (if \<not> IsViewKind gvk then (d, c, Inl not_a_view)
      else
        case GetCacheForKind K gvk c of
          (c1, Inl err) \<Rightarrow> (d, c1, Inl err)
        | (c1, Inr _) \<Rightarrow>
            if map_of (dc_informers d) gvk \<noteq> None then (d, c1, Inr ())
            else
              let (c2, a) = alloc_informer gvk c1;
                  d1 = d\<lparr>dc_informers := AList.update gvk a (dc_informers d)\<rparr>;
                  (c3, r) = RegisterDelegatingInformer gvk a c2
              in (d1, c3, r))"

definition Delegating_GetInformerForKind ::
    "'s k8s \<Rightarrow> GroupVersionKind \<Rightarrow> DelegatingViewCache \<Rightarrow> ('s, 'h) ViewCache \<Rightarrow> DelegatingViewCache \<times> ('s, 'h) ViewCache \<times> nat res" where
  "Delegating_GetInformerForKind K gvk d c =
     (if \<not> IsViewKind gvk then (d, c, Inl not_a_view)
      else
        case map_of (dc_informers d) gvk of
          Some informer \<Rightarrow> (d, c, Inr informer)
        | None \<Rightarrow>
            (case registerInformerForKind K gvk d c of
               (d1, c1, Inl err) \<Rightarrow> (d1, c1, Inl (wrap ''could not create informer for GVK'' err))
             | (d1, c1, Inr _) \<Rightarrow>
                 (case map_of (dc_informers d1) gvk of
                    None \<Rightarrow> (d1, c1, Inl (Error ''informer lost for GVK''))
                  | Some informer \<Rightarrow> (d1, c1, Inr informer))))"

definition Delegating_RemoveInformer ::
    "'s k8s \<Rightarrow> object \<Rightarrow> DelegatingViewCache \<Rightarrow> ('s, 'h) ViewCache \<Rightarrow> DelegatingViewCache \<times> ('s, 'h) ViewCache \<times> unit res" where
  "Delegating_RemoveInformer K obj d c =
     (let gvk = u_gvk K obj in
      case map_of (dc_informers d) gvk of
        None \<Rightarrow> (d, c, Inr ())
      | Some informer \<Rightarrow>
          let (c1, r) = UnregisterDelegatingInformer gvk informer c in
          (d\<lparr>dc_informers := AList.delete gvk (dc_informers d)\<rparr>, c1, r))"

text \<open>The end of \<^verbatim>\<open>Start\<close>: informers stop, and are taken out of the registry.\<close>

definition Delegating_shutdown :: "DelegatingViewCache \<Rightarrow> ('s, 'h) ViewCache \<Rightarrow> ('s, 'h) ViewCache" where
  "Delegating_shutdown d c =
     foldl (\<lambda>c (gvk, informer). fst (UnregisterDelegatingInformer gvk informer c)) c (dc_informers d)"

definition Delegating_Add :: "'s k8s \<Rightarrow> object \<Rightarrow> ('s, 'h) ViewCache \<Rightarrow> ('s, 'h) ViewCache \<times> 'h calls \<times> unit res" where
  "Delegating_Add K obj c = (if \<not> IsViewKind (u_gvk K obj) then (c, [], Inl not_a_view) else Add_view K obj c)"

definition Delegating_Update ::
    "'s k8s \<Rightarrow> ('l, 'f) cache_libs \<Rightarrow> object \<Rightarrow> object \<Rightarrow> ('s, 'h) ViewCache \<Rightarrow> ('s, 'h) ViewCache \<times> 'h calls \<times> unit res" where
  "Delegating_Update K L oldObj newObj c =
     (if \<not> IsViewKind (u_gvk K newObj) then (c, [], Inl not_a_view) else Update_view K L oldObj newObj c)"

definition Delegating_Delete :: "'s k8s \<Rightarrow> object \<Rightarrow> ('s, 'h) ViewCache \<Rightarrow> ('s, 'h) ViewCache \<times> 'h calls \<times> unit res" where
  "Delegating_Delete K obj c = (if \<not> IsViewKind (u_gvk K obj) then (c, [], Inl not_a_view) else Delete_view K obj c)"

definition Delegating_Get ::
    "'s k8s \<Rightarrow> string \<Rightarrow> string \<Rightarrow> GroupVersionKind \<Rightarrow> ('s, 'h) ViewCache \<Rightarrow> ('s, 'h) ViewCache \<times> object res" where
  "Delegating_Get K ns name gvk c = (if \<not> IsViewKind gvk then (c, Inl not_a_view) else Get_view K ns name gvk c)"

definition Delegating_List ::
    "'s k8s \<Rightarrow> ('l, 'f) cache_libs \<Rightarrow> GroupVersionKind \<Rightarrow> object list \<Rightarrow> ('l, 'f) ListOption list
      \<Rightarrow> ('s, 'h) ViewCache \<Rightarrow> ('s, 'h) ViewCache \<times> object list res" where
  "Delegating_List K L listGVK items opts c =
     (if \<not> IsViewKind (ObjectGVKFromListGVK listGVK) then (c, Inl not_a_view) else List_view K L listGVK items opts c)"

end
