(* ===== verification/View_Client.thy ===== *)
theory View_Client
  imports View_Cache
begin

text \<open>
  The client of the view cache (\<^verbatim>\<open>pkg/cache/view_client.go\<close>): creation, updates, merge patches and
  deletions in terms of the cache, and the client of sub-resources.  The text of a patch and its
  parser, and access to nested maps, are library code: the record \<open>client_libs\<close>.
\<close>

record client_libs =
  json_Unmarshal :: "string \<Rightarrow> doc res"
  NestedMap :: "doc \<Rightarrow> string \<Rightarrow> doc option res"
  SetNestedMap :: "doc \<Rightarrow> doc \<Rightarrow> string \<Rightarrow> doc res"

definition Client_Create :: "'s k8s \<Rightarrow> object \<Rightarrow> ('s, 'h) ViewCache \<Rightarrow> ('s, 'h) ViewCache \<times> 'h calls \<times> unit res" where
  "Client_Create K obj c = Add_view K obj c"

definition Client_Delete :: "'s k8s \<Rightarrow> object \<Rightarrow> ('s, 'h) ViewCache \<Rightarrow> ('s, 'h) ViewCache \<times> 'h calls \<times> unit res" where
  "Client_Delete K obj c = Delete_view K obj c"

text \<open>The kind under which the client looks the current version of an object up.\<close>

definition lookup_kind :: "'s k8s \<Rightarrow> object \<Rightarrow> GroupVersionKind" where
  "lookup_kind K obj = u_gvk K (NewViewObject K (Object_GetOperator K obj) (u_kind K obj))"

definition Client_Update ::
    "'s k8s \<Rightarrow> ('l, 'f) cache_libs \<Rightarrow> object \<Rightarrow> ('s, 'h) ViewCache \<Rightarrow> ('s, 'h) ViewCache \<times> 'h calls \<times> unit res" where
  "Client_Update K L newObj c =
     (let oldObj0 = SetName K (NewViewObject K (Object_GetOperator K newObj) (u_kind K newObj)) (u_namespace K newObj) (u_name K newObj) in
      case Get_view K (u_namespace K newObj) (u_name K newObj) (u_gvk K oldObj0) c of
        (c1, Inl err) \<Rightarrow> (c1, [], Inl (wrap ''cannot update object'' err))
      | (c1, Inr oldObj) \<Rightarrow>
          if SemanticDeepEqual L oldObj newObj then (c1, [], Inr ())
          else Update_view K L oldObj newObj c1)"

text \<open>A patch is the function that computes its text from the object.\<close>

definition Client_Patch ::
    "'s k8s \<Rightarrow> ('l, 'f) cache_libs \<Rightarrow> client_libs \<Rightarrow> object \<Rightarrow> (object \<Rightarrow> string res) \<Rightarrow> ('s, 'h) ViewCache
      \<Rightarrow> ('s, 'h) ViewCache \<times> 'h calls \<times> unit res" where
  "Client_Patch K L J obj patchData c =
     (case Get_view K (u_namespace K obj) (u_name K obj) (lookup_kind K obj) c of
        (c1, Inl err) \<Rightarrow> (c1, [], Inl (wrap ''cannot patch object'' err))
      | (c1, Inr current) \<Rightarrow>
          (case bind (rewrap ''cannot decode JSON patch'' (patchData obj)) (\<lambda>j.
                bind (rewrap ''cannot parse JSON patch'' (json_Unmarshal J j)) (\<lambda>newContent.
                Patch (Object_DeepCopy K current) newContent)) of
             Inl err \<Rightarrow> (c1, [], Inl err)
           | Inr newObj \<Rightarrow> Update_view K L current newObj c1))"

text \<open>Deletes until the first failure.\<close>

fun delete_items :: "'s k8s \<Rightarrow> object list \<Rightarrow> ('s, 'h) ViewCache \<Rightarrow> ('s, 'h) ViewCache \<times> 'h calls \<times> unit res" where
  "delete_items K [] c = (c, [], Inr ())"
| "delete_items K (item # items) c =
     (case Delete_view K item c of
        (c1, calls, Inl err) \<Rightarrow> (c1, calls, Inl err)
      | (c1, calls, Inr _) \<Rightarrow> (case delete_items K items c1 of (c2, calls2, r) \<Rightarrow> (c2, calls @ calls2, r)))"

definition Client_DeleteAllOf ::
    "'s k8s \<Rightarrow> ('l, 'f) cache_libs \<Rightarrow> object \<Rightarrow> ('l, 'f) ListOption list \<Rightarrow> ('s, 'h) ViewCache
      \<Rightarrow> ('s, 'h) ViewCache \<times> 'h calls \<times> unit res" where
  "Client_DeleteAllOf K L obj opts c =
     (case List_view K L (NewViewObjectList (Object_GetOperator K obj) (u_kind K obj)) [] opts c of
        (c1, Inl err) \<Rightarrow> (c1, [], Inl err)
      | (c1, Inr items) \<Rightarrow> delete_items K items c1)"

section \<open>Sub-resources\<close>

definition SubResource_Get ::
    "'s k8s \<Rightarrow> client_libs \<Rightarrow> string \<Rightarrow> object \<Rightarrow> ('s, 'h) ViewCache \<Rightarrow> ('s, 'h) ViewCache \<times> doc res" where
  "SubResource_Get K J subres obj c =
     (case Get_view K (u_namespace K obj) (u_name K obj) (lookup_kind K obj) c of
        (c1, Inl err) \<Rightarrow> (c1, Inl err)
      | (c1, Inr current) \<Rightarrow>
          (c1, bind (rewrap ''cannot load status sub-resource in object argument'' (NestedMap J current subres)) (\<lambda>st.
                 case st of None \<Rightarrow> Inl (Error ''no status sub-resource in object argument'') | Some status \<Rightarrow> Inr status)))"

definition sub_of :: "client_libs \<Rightarrow> string \<Rightarrow> object \<Rightarrow> doc res" where
  "sub_of J subres o1 =
     bind (rewrap ''cannot load sub-resource'' (NestedMap J o1 subres)) (\<lambda>s.
       case s of None \<Rightarrow> Inl (Error ''no status sub-resource in object argument'') | Some sub \<Rightarrow> Inr sub)"

definition SubResource_Create ::
    "'s k8s \<Rightarrow> ('l, 'f) cache_libs \<Rightarrow> client_libs \<Rightarrow> string \<Rightarrow> object \<Rightarrow> object \<Rightarrow> ('s, 'h) ViewCache
      \<Rightarrow> ('s, 'h) ViewCache \<times> 'h calls \<times> unit res" where
  "SubResource_Create K L J subres obj subResource c =
     (case sub_of J subres subResource of
        Inl err \<Rightarrow> (c, [], Inl err)
      | Inr sub \<Rightarrow>
          (case Get_view K (u_namespace K obj) (u_name K obj) (lookup_kind K obj) c of
             (c1, Inl err) \<Rightarrow> (c1, [], Inl err)
           | (c1, Inr current) \<Rightarrow>
               (case SetNestedMap J current sub subres of
                  Inl err \<Rightarrow> (c1, [], Inl (wrap ''failed to set sub-resource'' err))
                | Inr current' \<Rightarrow> Client_Update K L current' c1)))"

definition SubResource_Update ::
    "'s k8s \<Rightarrow> ('l, 'f) cache_libs \<Rightarrow> client_libs \<Rightarrow> string \<Rightarrow> object \<Rightarrow> ('s, 'h) ViewCache
      \<Rightarrow> ('s, 'h) ViewCache \<times> 'h calls \<times> unit res" where
  "SubResource_Update K L J subres obj c =
     (case Get_view K (u_namespace K obj) (u_name K obj) (lookup_kind K obj) c of
        (c1, Inl err) \<Rightarrow> (c1, [], Inl err)
      | (c1, Inr current) \<Rightarrow>
          (case sub_of J subres obj of
             Inl err \<Rightarrow> (c1, [], Inl err)
           | Inr sub \<Rightarrow>
               if (case NestedMap J current subres of Inr (Some currentSub) \<Rightarrow> deep_equal (VMap currentSub) (VMap sub) | _ \<Rightarrow> False)
               then (c1, [], Inr ())
               else
                 (case SetNestedMap J current sub subres of
                    Inl err \<Rightarrow> (c1, [], Inl (wrap ''cannot set sub-resource'' err))
                  | Inr current' \<Rightarrow> Client_Update K L current' c1)))"

definition SubResource_Patch ::
    "'s k8s \<Rightarrow> ('l, 'f) cache_libs \<Rightarrow> client_libs \<Rightarrow> object \<Rightarrow> (object \<Rightarrow> string res) \<Rightarrow> ('s, 'h) ViewCache
      \<Rightarrow> ('s, 'h) ViewCache \<times> 'h calls \<times> unit res" where
  "SubResource_Patch K L J obj patchData c = Client_Patch K L J obj patchData c"

end
