(* ===== verification/View_Cache_Laws.thy ===== *)
theory View_Cache_Laws
  imports View_Client Store_Laws
begin

text \<open>
  Laws of the view cache: its content per kind as a map from keys to objects, the invariant of
  its informers, what every operation does to the content and whom it calls, and how a handler
  can follow the content from the calls it gets.
\<close>

section \<open>Content and audience\<close>

definition view_contents :: "'s k8s \<Rightarrow> ('s, 'h) ViewCache \<Rightarrow> GroupVersionKind \<Rightarrow> string \<rightharpoonup> object" where
  "view_contents K c gvk = (case map_of (vc_caches c) gvk of Some s \<Rightarrow> contents K s | None \<Rightarrow> Map.empty)"

definition informers_of :: "('s, 'h) ViewCache \<Rightarrow> GroupVersionKind \<Rightarrow> nat list" where
  "informers_of c gvk = (case map_of (vc_informers c) gvk of Some a \<Rightarrow> [a] | None \<Rightarrow> []) @ delegating c gvk"

definition handlers_at :: "('s, 'h) ViewCache \<Rightarrow> nat \<Rightarrow> 'h list" where
  "handlers_at c a = map snd (inf_handlers (vc_heap c ! a))"

text \<open>The handlers that hear about objects of a kind, in the order of the calls.\<close>

definition audience :: "('s, 'h) ViewCache \<Rightarrow> GroupVersionKind \<Rightarrow> 'h list" where
  "audience c gvk = concat (map (handlers_at c) (informers_of c gvk))"

text \<open>
  The invariant: the informers of a kind are distinct, allocated, and of that kind.
\<close>

definition vc_ok :: "('s, 'h) ViewCache \<Rightarrow> bool" where
  "vc_ok c \<longleftrightarrow> (\<forall>gvk. distinct (informers_of c gvk)
     \<and> (\<forall>a \<in> set (informers_of c gvk). a < length (vc_heap c) \<and> inf_gvk (vc_heap c ! a) = gvk))"

lemma vc_okD:
  assumes "vc_ok c" and "a \<in> set (informers_of c gvk)"
  shows "a < length (vc_heap c)" "inf_gvk (vc_heap c ! a) = gvk"
  using assms by (auto simp: vc_ok_def)

text \<open>What the proofs use of the libraries beyond \<^const>\<open>k8s_laws\<close>.\<close>

definition cache_laws :: "'s k8s \<Rightarrow> bool" where
  "cache_laws K \<longleftrightarrow> k8s_laws K
     \<and> (\<forall>s key. ts_getByKey K key s = Inr (contents K s key))
     \<and> (\<forall>obj. u_gvk K (u_set_gvk K (u_gvk K obj) obj) = u_gvk K obj)
     \<and> (\<forall>obj uid. u_gvk K (u_set_uid K uid obj) = u_gvk K obj \<and> u_name K (u_set_uid K uid obj) = u_name K obj
          \<and> u_namespace K (u_set_uid K uid obj) = u_namespace K obj)"

text \<open>The object that is stored for an object that is handed in.\<close>

definition stored :: "'s k8s \<Rightarrow> object \<Rightarrow> object" where
  "stored K obj = WithUID K (Object_DeepCopy K obj)"

lemma stored_accessors:
  assumes "cache_laws K"
  shows "u_gvk K (stored K obj) = u_gvk K obj" and "store_key K (stored K obj) = store_key K obj"
  using assms by (simp_all add: stored_def WithUID_def Object_DeepCopy_def cache_laws_def k8s_laws_def store_key_def accessor_lawsD Let_def)

lemma cache_key_store: "cache_key (u_namespace K obj) (u_name K obj) = store_key K obj"
  by (simp add: cache_key_def store_key_def)

section \<open>Indexers and informers\<close>

text \<open>No transformer is installed.\<close>

definition untransformed :: "('s, 'h) ViewCache \<Rightarrow> bool" where
  "untransformed c \<longleftrightarrow> (\<forall>informer \<in> set (vc_heap c). inf_transform informer = None)"

definition healthy :: "('s, 'h) ViewCache \<Rightarrow> bool" where
  "healthy c \<longleftrightarrow> vc_ok c \<and> untransformed c"

lemma audience_cong:
  assumes "vc_informers c' = vc_informers c" and "vc_delegatingInformers c' = vc_delegatingInformers c" and "vc_heap c' = vc_heap c"
  shows "audience c' = audience c" "healthy c' = healthy c" "informers_of c' = informers_of c"
  using assms by (simp_all add: audience_def healthy_def vc_ok_def untransformed_def informers_of_def delegating_def
      handlers_at_def fun_eq_iff cong: map_cong)

lemma GetCacheForKind_ok:
  assumes "cache_laws K" and "IsViewKind gvk"
  shows "\<exists>c1 s. GetCacheForKind K gvk c = (c1, Inr s) \<and> map_of (vc_caches c1) gvk = Some s
    \<and> vc_informers c1 = vc_informers c \<and> vc_delegatingInformers c1 = vc_delegatingInformers c \<and> vc_heap c1 = vc_heap c
    \<and> view_contents K c1 = view_contents K c"
proof (cases "map_of (vc_caches c) gvk")
  case None
  have "contents K (ts_new K) = Map.empty"
    using assms(1) Store_New_contents [of K] by (simp add: cache_laws_def k8s_laws_def Store_New_def)
  then show ?thesis using assms(2) None
    by (auto simp: GetCacheForKind_def RegisterCacheForKind_def view_contents_def fun_eq_iff update_conv' Let_def)
qed (use assms(2) in \<open>simp add: GetCacheForKind_def\<close>)

text \<open>Allocating an informer for a kind that has none in its place changes nobody's audience.\<close>

lemma alloc_shared:
  assumes "healthy c" and "map_of (vc_informers c) gvk = None"
    and "c' = c\<lparr>vc_heap := vc_heap c @ [NewViewCacheInformer gvk], vc_informers := AList.update gvk (length (vc_heap c)) (vc_informers c)\<rparr>"
  shows "healthy c'" "audience c' = audience c"
proof -
  have inf: "informers_of c' g = (if g = gvk then length (vc_heap c) # informers_of c g else informers_of c g)" for g
    using assms(2,3) by (simp add: informers_of_def delegating_def update_conv')
  have lt: "a < length (vc_heap c)" "inf_gvk (vc_heap c ! a) = g" "vc_heap c' ! a = vc_heap c ! a"
    if "a \<in> set (informers_of c g)" for a g
    using vc_okD [of c a g] assms(1,3) that by (auto simp: healthy_def nth_append)
  have len: "length (vc_heap c') = Suc (length (vc_heap c))" "vc_heap c' ! length (vc_heap c) = NewViewCacheInformer gvk"
    by (simp_all add: assms(3))
  have "distinct (informers_of c' g)" for g
    using assms(1) lt(1) [of "length (vc_heap c)" g] by (auto simp: healthy_def vc_ok_def inf)
  moreover have "a < length (vc_heap c') \<and> inf_gvk (vc_heap c' ! a) = g" if "a \<in> set (informers_of c' g)" for a g
    using that lt [of a g] len by (auto simp: inf less_Suc_eq NewViewCacheInformer_def split: if_splits)
  moreover have "untransformed c'" using assms(1) by (simp add: healthy_def untransformed_def assms(3) NewViewCacheInformer_def)
  ultimately show "healthy c'" by (simp add: healthy_def vc_ok_def)
  have "handlers_at c' a = handlers_at c a" if "a \<in> set (informers_of c g)" for a g
    using lt [OF that] by (simp add: handlers_at_def)
  moreover have "handlers_at c' (length (vc_heap c)) = []"
    by (simp add: handlers_at_def assms(3) NewViewCacheInformer_def)
  ultimately show "audience c' = audience c"
    by (auto simp: audience_def inf fun_eq_iff cong: map_cong)
qed

lemma GetInformerForKind_ok:
  assumes "cache_laws K" and "IsViewKind gvk" and "healthy c"
  shows "\<exists>c1 a. GetInformerForKind K gvk c = (c1, Inr a) \<and> map_of (vc_informers c1) gvk = Some a
    \<and> healthy c1 \<and> audience c1 = audience c \<and> view_contents K c1 = view_contents K c"
proof (cases "map_of (vc_informers c) gvk")
  case None
  obtain c1 s where c1: "GetCacheForKind K gvk c = (c1, Inr s)" "vc_informers c1 = vc_informers c"
    "vc_delegatingInformers c1 = vc_delegatingInformers c" "vc_heap c1 = vc_heap c" "view_contents K c1 = view_contents K c"
    using GetCacheForKind_ok [OF assms(1,2), of c] by blast
  define c2 where "c2 = c1\<lparr>vc_heap := vc_heap c1 @ [NewViewCacheInformer gvk],
    vc_informers := AList.update gvk (length (vc_heap c1)) (vc_informers c1)\<rparr>"
  have "healthy c2" "audience c2 = audience c1"
    using alloc_shared [of c1 gvk c2] c1 audience_cong [of c1 c] None assms(3) by (simp_all add: c2_def)
  moreover have "view_contents K c2 = view_contents K c"
    using c1(5) by (simp add: c2_def view_contents_def fun_eq_iff)
  moreover have "RegisterInformerForKind K gvk c = (c2, Inr ())"
    using c1 None assms(2) by (simp add: RegisterInformerForKind_def alloc_informer_def c2_def)
  moreover have "map_of (vc_informers c2) gvk = Some (length (vc_heap c1))"
    by (simp add: c2_def update_conv')
  ultimately show ?thesis
    using None assms(2) audience_cong [of c1 c] c1 by (simp add: GetInformerForKind_def)
qed (use assms in \<open>simp add: GetInformerForKind_def\<close>)

lemma TriggerEvent_untransformed:
  assumes "inf_transform informer = None"
  shows "TriggerEvent K informer t old new = concat (map (\<lambda>h. map (Pair h) (handler_call K t old new)) (map snd (inf_handlers informer)))"
  using assms by (simp add: TriggerEvent_def transformed_def case_prod_unfold comp_def)

definition tell :: "'h list \<Rightarrow> event \<Rightarrow> 'h calls" where
  "tell hs ev = map (\<lambda>h. (h, ev)) hs"

lemma trigger_all_ok:
  assumes "cache_laws K" and "IsViewKind gvk" and "healthy c" and "handler_call K t old new = [ev]"
  shows "\<exists>c1. trigger_all K gvk t old new c = (c1, tell (audience c gvk) ev, Inr ())
    \<and> healthy c1 \<and> audience c1 = audience c \<and> view_contents K c1 = view_contents K c"
proof -
  obtain c1 a where c1: "GetInformerForKind K gvk c = (c1, Inr a)" "map_of (vc_informers c1) gvk = Some a"
    "healthy c1" "audience c1 = audience c" "view_contents K c1 = view_contents K c"
    using GetInformerForKind_ok [OF assms(1-3)] by blast
  have inf: "informers_of c1 gvk = a # delegating c1 gvk" by (simp add: informers_of_def c1(2))
  have "TriggerEvent K (vc_heap c1 ! b) t old new = tell (handlers_at c1 b) ev" if "b \<in> set (informers_of c1 gvk)" for b
  proof -
    have "inf_transform (vc_heap c1 ! b) = None"
      using c1(3) vc_okD(1) [of c1 b gvk] that by (auto simp: healthy_def untransformed_def)
    then show ?thesis by (simp add: TriggerEvent_untransformed assms(4) handlers_at_def tell_def map_concat comp_def)
  qed
  then have "concat (map (\<lambda>b. TriggerEvent K (vc_heap c1 ! b) t old new) (informers_of c1 gvk)) = tell (audience c gvk) ev"
    by (simp add: audience_def tell_def map_concat comp_def c1(4) [symmetric] cong: map_cong)
  with c1 inf show ?thesis by (simp add: trigger_all_def)
qed

section \<open>Operations\<close>

text \<open>
  The effect of a write on a kind: the content of the kind changes at one key, everything else
  stays, and the audience of the kind is told one event.
\<close>

definition writes ::
    "'s k8s \<Rightarrow> ('s, 'h) ViewCache \<Rightarrow> GroupVersionKind \<Rightarrow> string \<Rightarrow> object option \<Rightarrow> event \<Rightarrow> ('s, 'h) ViewCache \<times> 'h calls \<times> unit res \<Rightarrow> bool" where
  "writes K c gvk key v ev r \<longleftrightarrow> (\<exists>c'. r = (c', tell (audience c gvk) ev, Inr ()) \<and> healthy c' \<and> audience c' = audience c
     \<and> view_contents K c' = (view_contents K c)(gvk := (view_contents K c gvk)(key := v)))"

lemma indexer_write:
  assumes "cache_laws K" and "IsViewKind gvk" and "healthy c"
    and c1: "GetCacheForKind K gvk c = (c1, Inr s)"
    and f: "f s = Inr s'" "contents K s' = (contents K s)(key := v)"
    and ev: "handler_call K t old new = [ev]"
  shows "writes K c gvk key v ev (case on_indexer gvk f s c1 of (c2, Inl err) \<Rightarrow> (c2, [], Inl err)
    | (c2, Inr _) \<Rightarrow> trigger_all K gvk t old new c2)"
proof -
  have s: "map_of (vc_caches c1) gvk = Some s" and same: "vc_informers c1 = vc_informers c"
    "vc_delegatingInformers c1 = vc_delegatingInformers c" "vc_heap c1 = vc_heap c" "view_contents K c1 = view_contents K c"
    using GetCacheForKind_ok [OF assms(1,2), of c] c1 by auto
  define c2 where "c2 = c1\<lparr>vc_caches := AList.update gvk s' (vc_caches c1)\<rparr>"
  have c2: "on_indexer gvk f s c1 = (c2, Inr ())" by (simp add: on_indexer_def f(1) c2_def)
  have "view_contents K c1 gvk = contents K s" by (simp add: view_contents_def s)
  moreover have "view_contents K c2 = (view_contents K c1)(gvk := contents K s')"
    by (auto simp: view_contents_def c2_def update_conv' fun_eq_iff)
  ultimately have con: "view_contents K c2 = (view_contents K c)(gvk := (view_contents K c gvk)(key := v))"
    using same(4) f(2) by simp
  have aud: "audience c2 = audience c" "healthy c2"
    using audience_cong [of c2 c] same assms(3) by (simp_all add: c2_def)
  obtain c3 where "trigger_all K gvk t old new c2 = (c3, tell (audience c2 gvk) ev, Inr ())"
    "healthy c3" "audience c3 = audience c2" "view_contents K c3 = view_contents K c2"
    using trigger_all_ok [OF assms(1,2) aud(2) ev] by blast
  with con aud c2 show ?thesis by (simp add: writes_def)
qed

lemma Add_view_writes:
  assumes "cache_laws K" and "IsViewKind (u_gvk K obj)" and "healthy c"
  shows "writes K c (u_gvk K obj) (store_key K obj) (Some (stored K obj)) (OnAdd (Object_DeepCopy K (stored K obj)) False) (Add_view K obj c)"
proof -
  obtain c1 s where c1: "GetCacheForKind K (u_gvk K obj) c = (c1, Inr s)" using GetCacheForKind_ok [OF assms(1,2)] by blast
  obtain s' where "ts_add K (stored K obj) s = Inr s'" "contents K s' = (contents K s)(store_key K obj \<mapsto> stored K obj)"
    using assms(1) stored_accessors(2) [OF assms(1), of obj] unfolding cache_laws_def k8s_laws_def store_laws_def by metis
  from indexer_write [where t = Added and old = "[]", OF assms c1, of "ts_add K (stored K obj)", OF this]
  show ?thesis using c1 assms(2) by (simp add: Add_view_def Let_def stored_def [symmetric] handler_call_def)
qed

lemma Update_view_writes:
  assumes "cache_laws K" and "IsViewKind (u_gvk K newObj)" and "healthy c"
  shows "if SemanticDeepEqual L oldObj (stored K newObj) then Update_view K L oldObj newObj c = (c, [], Inr ())
    else writes K c (u_gvk K newObj) (store_key K newObj) (Some (stored K newObj))
      (OnUpdate oldObj (Object_DeepCopy K (stored K newObj))) (Update_view K L oldObj newObj c)"
proof -
  obtain c1 s where c1: "GetCacheForKind K (u_gvk K newObj) c = (c1, Inr s)" using GetCacheForKind_ok [OF assms(1,2)] by blast
  obtain s' where "ts_update K (stored K newObj) s = Inr s'" "contents K s' = (contents K s)(store_key K newObj \<mapsto> stored K newObj)"
    using assms(1) stored_accessors(2) [OF assms(1), of newObj] unfolding cache_laws_def k8s_laws_def store_laws_def by metis
  from indexer_write [where t = Updated and old = oldObj, OF assms c1, of "ts_update K (stored K newObj)", OF this]
  show ?thesis using c1 assms(2)
    by (simp add: Update_view_def Let_def stored_def [symmetric] handler_call_def stored_accessors(1) [OF assms(1)])
qed

lemma Delete_view_writes:
  assumes "cache_laws K" and "IsViewKind (u_gvk K obj)" and "healthy c"
  shows "case view_contents K c (u_gvk K obj) (store_key K obj) of
      None \<Rightarrow> \<exists>c'. Delete_view K obj c = (c', [], Inl NotFound) \<and> healthy c' \<and> audience c' = audience c \<and> view_contents K c' = view_contents K c
    | Some existing \<Rightarrow> writes K c (u_gvk K obj) (store_key K obj) None (OnDelete (Object_DeepCopy K existing)) (Delete_view K obj c)"
proof -
  obtain c1 s where c1: "GetCacheForKind K (u_gvk K obj) c = (c1, Inr s)" "map_of (vc_caches c1) (u_gvk K obj) = Some s"
    and same: "vc_informers c1 = vc_informers c" "vc_delegatingInformers c1 = vc_delegatingInformers c" "vc_heap c1 = vc_heap c"
      "view_contents K c1 = view_contents K c"
    using GetCacheForKind_ok [OF assms(1,2)] by blast
  have con: "view_contents K c (u_gvk K obj) = contents K s" by (simp add: same(4) [symmetric] view_contents_def c1(2))
  have get: "ts_getByKey K (cache_key (u_namespace K obj) (u_name K obj)) s = Inr (contents K s (store_key K obj))"
    using assms(1) by (simp add: cache_laws_def cache_key_store)
  show ?thesis
  proof (cases "contents K s (store_key K obj)")
    case None
    then show ?thesis using c1 get con same audience_cong [OF same(1-3)] assms by (simp add: Delete_view_def Let_def)
  next
    case (Some existing)
    then have key: "store_key K existing = store_key K obj" by (rule contents_key)
    obtain s' where "ts_delete K existing s = Inr s'" "contents K s' = (contents K s)(store_key K obj := None)"
      using assms(1) key unfolding cache_laws_def k8s_laws_def store_laws_def by metis
    from indexer_write [where t = Deleted and old = "[]", OF assms c1(1), of "ts_delete K existing", OF this]
    show ?thesis using c1 get con Some assms(2) by (simp add: Delete_view_def Let_def handler_call_def)
  qed
qed

lemma Get_view_contents:
  assumes "cache_laws K" and "IsViewKind gvk" and "healthy c"
  shows "\<exists>c'. Get_view K ns name gvk c = (c', case view_contents K c gvk (cache_key ns name) of
      None \<Rightarrow> Inl NotFound | Some obj \<Rightarrow> Inr (Object_DeepCopy K obj))
    \<and> healthy c' \<and> audience c' = audience c \<and> view_contents K c' = view_contents K c"
proof -
  obtain c1 s where c1: "GetCacheForKind K gvk c = (c1, Inr s)" "map_of (vc_caches c1) gvk = Some s"
    and same: "vc_informers c1 = vc_informers c" "vc_delegatingInformers c1 = vc_delegatingInformers c" "vc_heap c1 = vc_heap c"
      "view_contents K c1 = view_contents K c"
    using GetCacheForKind_ok [OF assms(1,2)] by blast
  have "view_contents K c gvk = contents K s" by (simp add: same(4) [symmetric] view_contents_def c1(2))
  then show ?thesis using c1 same audience_cong [OF same(1-3)] assms
    by (auto simp: Get_view_def cache_laws_def split: option.splits)
qed

end
