(* ===== verification/View_Cache_Mirror.thy ===== *)
theory View_Cache_Mirror
  imports View_Cache_Laws
begin

text \<open>
  Following the view cache: from the calls a handler gets it can rebuild the content of the kind
  it is registered for, whatever the cache is asked to do.  The runs of the cache are an inductive
  relation, the invariant of the informers is proved over all reachable states.
\<close>

section \<open>Runs\<close>

text \<open>
  A run of the cache under reads, writes and the creation of informers, with all the calls it makes.
\<close>

inductive serves :: "'s k8s \<Rightarrow> ('l, 'f) cache_libs \<Rightarrow> ('s, 'h) ViewCache \<Rightarrow> 'h calls \<Rightarrow> ('s, 'h) ViewCache \<Rightarrow> bool"
  for K L c where
  idle: "serves K L c [] c"
| add: "serves K L c calls c1 \<Longrightarrow> Add_view K obj c1 = (c2, calls', r) \<Longrightarrow> serves K L c (calls @ calls') c2"
| update: "serves K L c calls c1 \<Longrightarrow> Update_view K L oldObj newObj c1 = (c2, calls', r) \<Longrightarrow> serves K L c (calls @ calls') c2"
| delete: "serves K L c calls c1 \<Longrightarrow> Delete_view K obj c1 = (c2, calls', r) \<Longrightarrow> serves K L c (calls @ calls') c2"
| get: "serves K L c calls c1 \<Longrightarrow> Get_view K ns name gvk c1 = (c2, r) \<Longrightarrow> serves K L c calls c2"
| informer: "serves K L c calls c1 \<Longrightarrow> GetInformerForKind K gvk c1 = (c2, r) \<Longrightarrow> serves K L c calls c2"
| delegate: "serves K L c calls c1 \<Longrightarrow> registerInformerForKind K gvk d c1 = (d', c2, r) \<Longrightarrow> serves K L c calls c2"

section \<open>Operations on other kinds\<close>

lemma not_a_view_unchanged:
  assumes "cache_laws K"
  shows "\<not> IsViewKind (u_gvk K obj) \<Longrightarrow> Add_view K obj c = (c, [], Inl not_a_view)"
    and "\<not> IsViewKind (u_gvk K obj) \<Longrightarrow> Update_view K L oldObj obj c = (c, [], Inl not_a_view)"
    and "\<not> IsViewKind (u_gvk K obj) \<Longrightarrow> Delete_view K obj c = (c, [], Inl not_a_view)"
    and "\<not> IsViewKind gvk \<Longrightarrow> Get_view K ns name gvk c = (c, Inl not_a_view)"
    and "\<not> IsViewKind gvk \<Longrightarrow> GetInformerForKind K gvk c = (c, Inl not_a_view)"
    and "\<not> IsViewKind gvk \<Longrightarrow> registerInformerForKind K gvk d c = (d, c, Inl not_a_view)"
  by (simp_all add: Add_view_def Update_view_def Delete_view_def Get_view_def GetInformerForKind_def
      registerInformerForKind_def stored_def [symmetric] stored_accessors [OF assms] Let_def)

lemma alloc_delegate:
  assumes "healthy c"
    and "c' = c\<lparr>vc_heap := vc_heap c @ [NewViewCacheInformer gvk],
      vc_delegatingInformers := AList.update gvk (delegating c gvk @ [length (vc_heap c)]) (vc_delegatingInformers c)\<rparr>"
  shows "healthy c'" "audience c' = audience c"
proof -
  have inf: "informers_of c' g = (if g = gvk then informers_of c g @ [length (vc_heap c)] else informers_of c g)" for g
    using assms(2) by (simp add: informers_of_def delegating_def update_conv')
  have lt: "a < length (vc_heap c)" "inf_gvk (vc_heap c ! a) = g" "vc_heap c' ! a = vc_heap c ! a"
    if "a \<in> set (informers_of c g)" for a g
    using vc_okD [of c a g] assms(1,2) that by (auto simp: healthy_def nth_append)
  have len: "length (vc_heap c') = Suc (length (vc_heap c))" "vc_heap c' ! length (vc_heap c) = NewViewCacheInformer gvk"
    by (simp_all add: assms(2))
  have "distinct (informers_of c' g)" for g
    using assms(1) lt(1) [of "length (vc_heap c)" g] by (auto simp: healthy_def vc_ok_def inf)
  moreover have "a < length (vc_heap c') \<and> inf_gvk (vc_heap c' ! a) = g" if "a \<in> set (informers_of c' g)" for a g
    using that lt [of a g] len by (auto simp: inf less_Suc_eq NewViewCacheInformer_def split: if_splits)
  moreover have "untransformed c'" using assms(1) by (simp add: healthy_def untransformed_def assms(2) NewViewCacheInformer_def)
  ultimately show "healthy c'" by (simp add: healthy_def vc_ok_def)
  have "handlers_at c' a = handlers_at c a" if "a \<in> set (informers_of c g)" for a g
    using lt [OF that] by (simp add: handlers_at_def)
  moreover have "handlers_at c' (length (vc_heap c)) = []"
    by (simp add: handlers_at_def assms(2) NewViewCacheInformer_def)
  ultimately show "audience c' = audience c"
    by (auto simp: audience_def inf fun_eq_iff cong: map_cong)
qed

text \<open>What leaves content and audience alone.\<close>

definition silent :: "'s k8s \<Rightarrow> ('s, 'h) ViewCache \<Rightarrow> ('s, 'h) ViewCache \<Rightarrow> bool" where
  "silent K c c' \<longleftrightarrow> healthy c' \<and> audience c' = audience c \<and> view_contents K c' = view_contents K c"

lemma registerInformerForKind_silent:
  assumes "cache_laws K" and "healthy c" and "registerInformerForKind K gvk d c = (d', c', r)"
  shows "silent K c c'"
proof (cases "IsViewKind gvk")
  case True
  obtain c1 s where c1: "GetCacheForKind K gvk c = (c1, Inr s)" "vc_informers c1 = vc_informers c"
    "vc_delegatingInformers c1 = vc_delegatingInformers c" "vc_heap c1 = vc_heap c" "view_contents K c1 = view_contents K c"
    using GetCacheForKind_ok [OF assms(1) True, of c] by blast
  note same = audience_cong [OF c1(2-4)]
  show ?thesis
  proof (cases "map_of (dc_informers d) gvk")
    case None
    have c': "c' = c1\<lparr>vc_heap := vc_heap c1 @ [NewViewCacheInformer gvk],
      vc_delegatingInformers := AList.update gvk (delegating c1 gvk @ [length (vc_heap c1)]) (vc_delegatingInformers c1)\<rparr>"
      using assms(3) c1(1) None True
      by (auto simp: registerInformerForKind_def alloc_informer_def RegisterDelegatingInformer_def delegating_def)
    then have "view_contents K c' = view_contents K c1" by (simp add: view_contents_def fun_eq_iff)
    with alloc_delegate [OF _ c'] same assms(2) c1(5) show ?thesis by (simp add: silent_def)
  next
    case (Some a)
    then have "c' = c1" using assms(3) c1(1) True by (auto simp: registerInformerForKind_def)
    then show ?thesis using same assms(2) c1(5) by (simp add: silent_def)
  qed
qed (use assms in \<open>simp add: silent_def not_a_view_unchanged(6)\<close>)

lemma reads_silent:
  assumes "cache_laws K" and "healthy c"
  shows "Get_view K ns name gvk c = (c', r) \<Longrightarrow> silent K c c'"
    and "GetInformerForKind K gvk c = (c', r') \<Longrightarrow> silent K c c'"
proof -
  show "silent K c c'" if "Get_view K ns name gvk c = (c', r)"
    using that Get_view_contents [OF assms(1) _ assms(2), of gvk ns name] not_a_view_unchanged(4) [OF assms(1), of gvk ns name c] assms(2)
    by (cases "IsViewKind gvk") (auto simp: silent_def)
  show "silent K c c'" if "GetInformerForKind K gvk c = (c', r')"
    using that GetInformerForKind_ok [OF assms(1) _ assms(2), of gvk] not_a_view_unchanged(5) [OF assms(1), of gvk c] assms(2)
    by (cases "IsViewKind gvk") (auto simp: silent_def)
qed

section \<open>Following\<close>

definition calls_to :: "'h \<Rightarrow> 'h calls \<Rightarrow> event list" where
  "calls_to h calls = map snd (filter (\<lambda>call. fst call = h) calls)"

lemma calls_to_append [simp]: "calls_to h (xs @ ys) = calls_to h xs @ calls_to h ys"
  by (simp add: calls_to_def)

lemma calls_to_Nil [simp]: "calls_to h [] = []"
  by (simp add: calls_to_def)

lemma calls_to_tell: "calls_to h (tell hs ev) = replicate (count_list hs h) ev"
  by (induction hs) (auto simp: calls_to_def tell_def)

text \<open>How a handler rebuilds the content.\<close>

fun apply_event :: "'s k8s \<Rightarrow> (string \<rightharpoonup> object) \<Rightarrow> event \<Rightarrow> (string \<rightharpoonup> object)" where
  "apply_event K m (OnAdd obj _) = m(store_key K obj \<mapsto> obj)"
| "apply_event K m (OnUpdate _ obj) = m(store_key K obj \<mapsto> obj)"
| "apply_event K m (OnDelete obj) = m(store_key K obj := None)"

definition copies :: "'s k8s \<Rightarrow> (string \<rightharpoonup> object) \<Rightarrow> string \<rightharpoonup> object" where
  "copies K m = (\<lambda>k. map_option (Object_DeepCopy K) (m k))"

lemma copies_upd: "copies K (m(k := v)) = (copies K m)(k := map_option (Object_DeepCopy K) v)"
  by (simp add: copies_def fun_eq_iff)

text \<open>A handler that hears exactly once about the objects of a kind and not about any other.\<close>

definition subscribed :: "'h \<Rightarrow> GroupVersionKind \<Rightarrow> ('s, 'h) ViewCache \<Rightarrow> bool" where
  "subscribed h gvk c \<longleftrightarrow> (\<forall>g. count_list (audience c g) h = (if g = gvk then 1 else 0))"

definition keeps_up ::
    "'s k8s \<Rightarrow> 'h \<Rightarrow> GroupVersionKind \<Rightarrow> ('s, 'h) ViewCache \<Rightarrow> 'h calls \<Rightarrow> ('s, 'h) ViewCache \<Rightarrow> bool" where
  "keeps_up K h gvk c calls c' \<longleftrightarrow> healthy c' \<and> audience c' = audience c
     \<and> foldl (apply_event K) (copies K (view_contents K c gvk)) (calls_to h calls) = copies K (view_contents K c' gvk)"

lemma silent_keeps_up: "silent K c c' \<Longrightarrow> keeps_up K h gvk c [] c'"
  by (simp add: silent_def keeps_up_def)

lemma writes_keeps_up:
  assumes "writes K c g key v ev (c', calls, r)" and "subscribed h gvk c"
    and "\<And>m. apply_event K m ev = m(key := map_option (Object_DeepCopy K) v)"
  shows "keeps_up K h gvk c calls c'"
  using assms by (auto simp: writes_def subscribed_def keeps_up_def calls_to_tell copies_upd)

lemma write_calls_keep_up:
  assumes "cache_laws K" and "healthy c" and "subscribed h gvk c"
  shows "Add_view K obj c = (c', calls, r) \<Longrightarrow> keeps_up K h gvk c calls c'"
    and "Update_view K L oldObj obj c = (c', calls, r) \<Longrightarrow> keeps_up K h gvk c calls c'"
    and "Delete_view K obj c = (c', calls, r) \<Longrightarrow> keeps_up K h gvk c calls c'"
proof -
  have acc: "accessor_laws K" using assms(1) by (simp add: cache_laws_def k8s_laws_def)
  have refl: "keeps_up K h gvk c [] c" using assms(2) by (simp add: keeps_up_def)
  note key = copy_key [OF acc] stored_accessors(2) [OF assms(1)]
  show "keeps_up K h gvk c calls c'" if op: "Add_view K obj c = (c', calls, r)"
  proof (cases "IsViewKind (u_gvk K obj)")
    case True
    have "writes K c (u_gvk K obj) (store_key K obj) (Some (stored K obj)) (OnAdd (Object_DeepCopy K (stored K obj)) False) (c', calls, r)"
      using Add_view_writes [OF assms(1) True assms(2)] op by simp
    then show ?thesis by (rule writes_keeps_up [OF _ assms(3)]) (simp add: key)
  qed (use op refl in \<open>simp add: not_a_view_unchanged(1) [OF assms(1)]\<close>)
  show "keeps_up K h gvk c calls c'" if op: "Update_view K L oldObj obj c = (c', calls, r)"
  proof (cases "IsViewKind (u_gvk K obj) \<and> \<not> SemanticDeepEqual L oldObj (stored K obj)")
    case True
    with Update_view_writes [OF assms(1) _ assms(2), of obj L oldObj] show ?thesis
      by (intro writes_keeps_up [OF _ assms(3)]) (auto simp: op key)
  next
    case False
    with Update_view_writes [OF assms(1) _ assms(2), of obj L oldObj] not_a_view_unchanged(2) [OF assms(1), of obj L oldObj c] op
    have "c' = c" "calls = []" by (cases "IsViewKind (u_gvk K obj)"; simp)+
    then show ?thesis using refl by simp
  qed
  show "keeps_up K h gvk c calls c'" if op: "Delete_view K obj c = (c', calls, r)"
  proof (cases "IsViewKind (u_gvk K obj)")
    case True
    show ?thesis
    proof (cases "view_contents K c (u_gvk K obj) (store_key K obj)")
      case None
      with Delete_view_writes [OF assms(1) True assms(2)] op show ?thesis by (auto simp: keeps_up_def)
    next
      case (Some existing)
      then have "store_key K existing = store_key K obj"
        by (auto simp: view_contents_def split: option.splits dest: contents_key)
      moreover have "writes K c (u_gvk K obj) (store_key K obj) None (OnDelete (Object_DeepCopy K existing)) (c', calls, r)"
        using Delete_view_writes [OF assms(1) True assms(2)] Some op by simp
      ultimately show ?thesis by (intro writes_keeps_up [OF _ assms(3)]) (assumption | simp add: key)+
    qed
  qed (use op refl in \<open>simp add: not_a_view_unchanged(3) [OF assms(1)]\<close>)
qed

lemma keeps_up_trans:
  "keeps_up K h gvk c calls c1 \<Longrightarrow> keeps_up K h gvk c1 calls' c2 \<Longrightarrow> keeps_up K h gvk c (calls @ calls') c2"
  by (simp add: keeps_up_def)

lemma serves_keeps_up:
  assumes "serves K L c calls c'" and "cache_laws K" and "healthy c" and "subscribed h gvk c"
  shows "keeps_up K h gvk c calls c'"
  using assms(1)
proof induction
  case idle
  then show ?case using assms(3) by (simp add: keeps_up_def)
next
  case (add calls c1 obj c2 calls' r)
  then have c1: "healthy c1" "subscribed h gvk c1" using assms(4) by (simp_all add: keeps_up_def subscribed_def)
  show ?case by (rule keeps_up_trans [OF add.IH write_calls_keep_up(1) [OF assms(2) c1 add.hyps(2)]])
next
  case (update calls c1 oldObj newObj c2 calls' r)
  then have c1: "healthy c1" "subscribed h gvk c1" using assms(4) by (simp_all add: keeps_up_def subscribed_def)
  show ?case by (rule keeps_up_trans [OF update.IH write_calls_keep_up(2) [OF assms(2) c1 update.hyps(2)]])
next
  case (delete calls c1 obj c2 calls' r)
  then have c1: "healthy c1" "subscribed h gvk c1" using assms(4) by (simp_all add: keeps_up_def subscribed_def)
  show ?case by (rule keeps_up_trans [OF delete.IH write_calls_keep_up(3) [OF assms(2) c1 delete.hyps(2)]])
next
  case (get calls c1 ns name g c2 r)
  have "healthy c1" using get.IH by (simp add: keeps_up_def)
  then have "silent K c1 c2" by (rule reads_silent(1) [OF assms(2) _ get.hyps(2)])
  from keeps_up_trans [OF get.IH silent_keeps_up [OF this]] show ?case by simp
next
  case (informer calls c1 g c2 r)
  have "healthy c1" using informer.IH by (simp add: keeps_up_def)
  then have "silent K c1 c2" by (rule reads_silent(2) [OF assms(2) _ informer.hyps(2)])
  from keeps_up_trans [OF informer.IH silent_keeps_up [OF this]] show ?case by simp
next
  case (delegate calls c1 g d d' c2 r)
  have "healthy c1" using delegate.IH by (simp add: keeps_up_def)
  then have "silent K c1 c2" by (rule registerInformerForKind_silent [OF assms(2) _ delegate.hyps(2)])
  from keeps_up_trans [OF delegate.IH silent_keeps_up [OF this]] show ?case by simp
qed

section \<open>Subscribing\<close>

lemma foldl_adds:
  assumes "distinct (map (store_key K) objs)" and "accessor_laws K"
  shows "foldl (apply_event K) m (map (\<lambda>obj. OnAdd (Object_DeepCopy K obj) b) objs)
    = m ++ copies K (map_of (map (\<lambda>obj. (store_key K obj, obj)) objs))"
  using assms(1)
proof (induction objs arbitrary: m)
  case (Cons obj objs)
  have "map_of (map (\<lambda>obj. (store_key K obj, obj)) objs) (store_key K obj) = None"
    using Cons.prems by (auto simp: map_of_eq_None_iff comp_def)
  with Cons show ?case
    by (auto simp: copies_def fun_eq_iff map_add_def copy_key [OF assms(2)] split: option.splits)
qed (simp add: copies_def map_add_def)

lemma AddEventHandler_calls:
  assumes "cache_laws K" and "inf_transform informer = None" and "AddEventHandler K indexer h informer = (informer', calls, reg)"
  shows "foldl (apply_event K) Map.empty (calls_to h calls) = copies K (contents K indexer)"
proof -
  have "List.map_filter (transformed K informer) objs = objs" for objs
    using assms(2) by (simp add: transformed_def List.map_filter_def comp_def)
  then have "calls = map (\<lambda>obj. (h, OnAdd (Object_DeepCopy K obj) True)) (ts_list K indexer)"
    using assms(3) by (simp add: AddEventHandler_def Let_def)
  then have "calls_to h calls = map (\<lambda>obj. OnAdd (Object_DeepCopy K obj) True) (ts_list K indexer)"
    by (simp add: calls_to_def filter_map comp_def)
  then show ?thesis using foldl_adds [of K "ts_list K indexer" Map.empty True] assms(1)
    by (simp add: cache_laws_def k8s_laws_def store_laws_def contents_def)
qed

lemma count_update:
  "h \<notin> snd ` set al \<Longrightarrow> count_list (map snd (AList.update k h al)) h = 1"
  "h \<noteq> h' \<Longrightarrow> h \<notin> snd ` set al \<Longrightarrow> count_list (map snd (AList.update k h' al)) h = 0"
  by (induction al) (auto simp: count_list_0_iff)

lemma count_concat: "count_list (concat xss) x = sum_list (map (\<lambda>xs. count_list xs x) xss)"
  by (induction xss) simp_all

lemma sum_list_single: "distinct xs \<Longrightarrow> sum_list (map (\<lambda>x. if x = a then 1 else 0) xs) = (if a \<in> set xs then 1 else (0 :: nat))"
  by (induction xs) auto

lemma subscribe_ok:
  assumes "healthy c" and "a \<in> set (informers_of c gvk)" and "\<forall>informer \<in> set (vc_heap c). h \<notin> snd ` set (inf_handlers informer)"
    and "AddEventHandler K indexer h (vc_heap c ! a) = (informer, calls, reg)"
    and c': "c' = c\<lparr>vc_heap := (vc_heap c)[a := informer]\<rparr>"
  shows "subscribed h gvk c'" "healthy c'" "view_contents K c' = view_contents K c"
proof -
  have a: "a < length (vc_heap c)" "inf_gvk (vc_heap c ! a) = gvk"
    using vc_okD [of c a gvk] assms(1,2) by (auto simp: healthy_def)
  have informer: "informer = (vc_heap c ! a)\<lparr>inf_handlerCounter := reg, inf_handlers := AList.update reg h (inf_handlers (vc_heap c ! a))\<rparr>"
    using assms(4) by (auto simp: AddEventHandler_def Let_def)
  have inf: "informers_of c' = informers_of c" by (simp add: c' informers_of_def delegating_def fun_eq_iff)
  have "count_list (handlers_at c' b) h = (if b = a then 1 else 0)" if "b < length (vc_heap c)" for b
    using that a assms(3) count_update(1) [of h "inf_handlers (vc_heap c ! a)" reg]
    by (auto simp: handlers_at_def c' informer count_list_0_iff nth_list_update)
  then have "count_list (audience c' g) h = sum_list (map (\<lambda>b. if b = a then 1 else 0) (informers_of c g))" for g
    using vc_okD(1) [of c _ g] assms(1) by (simp add: audience_def inf count_concat comp_def healthy_def cong: map_cong)
  moreover have "a \<in> set (informers_of c g) \<longleftrightarrow> g = gvk" for g
    using vc_okD(2) [of c a g] assms(1,2) a(2) by (auto simp: healthy_def)
  moreover have "distinct (informers_of c g)" for g using assms(1) by (simp add: healthy_def vc_ok_def)
  ultimately show "subscribed h gvk c'" by (simp add: subscribed_def sum_list_single)
  have "inf_gvk ((vc_heap c)[a := informer] ! b) = inf_gvk (vc_heap c ! b)" if "b < length (vc_heap c)" for b
    using that by (cases "b = a") (simp_all add: informer)
  then have "vc_ok c'" using assms(1) by (simp add: vc_ok_def inf healthy_def) (simp add: c')
  moreover have "untransformed c'"
    using assms(1) a by (auto simp: untransformed_def healthy_def c' informer dest!: set_update_subset_insert [THEN subsetD])
  ultimately show "healthy c'" by (simp add: healthy_def)
  show "view_contents K c' = view_contents K c" by (simp add: c' view_contents_def fun_eq_iff)
qed

section \<open>Reachable states\<close>

text \<open>
  The states of a cache from its creation on: served requests, registered and removed handlers,
  removed informers, and informers of delegating caches taken out of the registry.
\<close>

inductive reachable_cache :: "'s k8s \<Rightarrow> ('l, 'f) cache_libs \<Rightarrow> ('s, 'h) ViewCache \<Rightarrow> bool" for K L where
  new: "reachable_cache K L NewViewCache"
| serve: "reachable_cache K L c \<Longrightarrow> serves K L c calls c' \<Longrightarrow> reachable_cache K L c'"
| subscribe: "reachable_cache K L c \<Longrightarrow> a < length (vc_heap c) \<Longrightarrow>
    AddEventHandler K indexer h (vc_heap c ! a) = (informer, calls, reg) \<Longrightarrow>
    reachable_cache K L (c\<lparr>vc_heap := (vc_heap c)[a := informer]\<rparr>)"
| unsubscribe: "reachable_cache K L c \<Longrightarrow> a < length (vc_heap c) \<Longrightarrow>
    reachable_cache K L (c\<lparr>vc_heap := (vc_heap c)[a := RemoveEventHandler reg (vc_heap c ! a)]\<rparr>)"
| remove: "reachable_cache K L c \<Longrightarrow> reachable_cache K L (RemoveInformer K obj c)"
| unregister: "reachable_cache K L c \<Longrightarrow> UnregisterDelegatingInformer gvk a c = (c', r) \<Longrightarrow> reachable_cache K L c'"

lemma serves_healthy:
  assumes "serves K L c calls c'" and "cache_laws K" and "healthy c"
  shows "healthy c'"
  using assms(1)
proof induction
  case idle
  then show ?case by (rule assms(3))
next
  case (add calls c1 obj c2 calls' r)
  then show ?case using Add_view_writes [OF assms(2), of obj c1] not_a_view_unchanged(1) [OF assms(2), of obj c1]
    by (cases "IsViewKind (u_gvk K obj)") (auto simp: writes_def)
next
  case (update calls c1 oldObj newObj c2 calls' r)
  then show ?case using Update_view_writes [OF assms(2), of newObj c1 L oldObj] not_a_view_unchanged(2) [OF assms(2), of newObj L oldObj c1]
    by (cases "IsViewKind (u_gvk K newObj)") (auto simp: writes_def split: if_splits)
next
  case (delete calls c1 obj c2 calls' r)
  then show ?case using Delete_view_writes [OF assms(2), of obj c1] not_a_view_unchanged(3) [OF assms(2), of obj c1]
    by (cases "IsViewKind (u_gvk K obj)") (auto simp: writes_def split: option.splits)
next
  case (get calls c1 ns name g c2 r)
  from reads_silent(1) [OF assms(2) get.IH get.hyps(2)] show ?case by (simp add: silent_def)
next
  case (informer calls c1 g c2 r)
  from reads_silent(2) [OF assms(2) informer.IH informer.hyps(2)] show ?case by (simp add: silent_def)
next
  case (delegate calls c1 g d d' c2 r)
  from registerInformerForKind_silent [OF assms(2) delegate.IH delegate.hyps(2)] show ?case by (simp add: silent_def)
qed

lemma healthy_informer:
  assumes "healthy c" and "a < length (vc_heap c)" and "inf_gvk informer = inf_gvk (vc_heap c ! a)"
    and "inf_transform informer = inf_transform (vc_heap c ! a)"
  shows "healthy (c\<lparr>vc_heap := (vc_heap c)[a := informer]\<rparr>)"
proof -
  let ?c = "c\<lparr>vc_heap := (vc_heap c)[a := informer]\<rparr>"
  have inf: "informers_of ?c = informers_of c" by (simp add: informers_of_def delegating_def fun_eq_iff)
  have "inf_gvk ((vc_heap c)[a := informer] ! b) = inf_gvk (vc_heap c ! b)" if "b < length (vc_heap c)" for b
    using that assms(3) by (cases "b = a") simp_all
  then have "vc_ok ?c" using assms(1) by (simp add: vc_ok_def inf healthy_def)
  moreover have "untransformed ?c"
    using assms(1,2,4) by (auto simp: untransformed_def healthy_def dest!: set_update_subset_insert [THEN subsetD])
  ultimately show ?thesis by (simp add: healthy_def)
qed

lemma rotate_last: "xs \<noteq> [] \<Longrightarrow> set (last xs # butlast xs) = set xs" "xs \<noteq> [] \<Longrightarrow> distinct xs \<Longrightarrow> distinct (last xs # butlast xs)"
  by (cases xs rule: rev_cases; simp)+

lemma remove_swap_set: "set (remove_swap a xs) \<subseteq> set xs" "distinct xs \<Longrightarrow> distinct (remove_swap a xs)"
proof (induction xs)
  case (Cons x xs)
  {
    case 1
    then show ?case using Cons.IH(1) rotate_last(1) [of xs] by (simp split: if_split) blast
  next
    case 2
    then show ?case using Cons.IH rotate_last(2) [of xs] by (auto split: if_split)
  }
qed simp_all

lemma healthy_fewer:
  assumes "healthy c" and "vc_heap c' = vc_heap c" and "\<And>gvk. distinct (informers_of c' gvk) \<and> set (informers_of c' gvk) \<subseteq> set (informers_of c gvk)"
  shows "healthy c'"
  using assms by (fastforce simp: healthy_def vc_ok_def untransformed_def)

lemma reachable_healthy:
  assumes "reachable_cache K L c" and "cache_laws K"
  shows "healthy c"
  using assms(1)
proof induction
  case new
  then show ?case by (simp add: healthy_def vc_ok_def untransformed_def NewViewCache_def informers_of_def delegating_def)
next
  case (serve c calls c')
  then show ?case using serves_healthy [OF _ assms(2)] by blast
next
  case (subscribe c a indexer h informer calls reg)
  then show ?case by (intro healthy_informer) (auto simp: AddEventHandler_def Let_def)
next
  case (unsubscribe c a reg)
  then show ?case by (intro healthy_informer) (simp_all add: RemoveEventHandler_def)
next
  case (remove c obj)
  have "distinct (informers_of c gvk)" for gvk using remove.IH by (simp add: healthy_def vc_ok_def)
  moreover have "informers_of (RemoveInformer K obj c) g = (if g = u_gvk K obj then delegating c g else informers_of c g)"
      "vc_heap (RemoveInformer K obj c) = vc_heap c" for g
    by (auto simp: RemoveInformer_def Let_def informers_of_def delegating_def delete_conv')
  ultimately show ?case
    by (intro healthy_fewer [OF remove.IH]) (auto simp: informers_of_def)
next
  case (unregister c gvk a c' r)
  have "distinct (informers_of c g)" for g using unregister.IH by (simp add: healthy_def vc_ok_def)
  moreover have "informers_of c' g = (if g = gvk \<and> a \<in> set (delegating c gvk) \<and> IsViewKind gvk
      then (case map_of (vc_informers c) g of Some b \<Rightarrow> [b] | None \<Rightarrow> []) @ remove_swap a (delegating c g)
      else informers_of c g)" "vc_heap c' = vc_heap c" for g
    using unregister.hyps(2) by (auto simp: UnregisterDelegatingInformer_def informers_of_def delegating_def update_conv' split: if_splits)
  ultimately show ?case using remove_swap_set [where a = a and xs = "delegating c gvk"]
    by (intro healthy_fewer [OF unregister.IH]) (auto simp: informers_of_def)
qed

end
