(* ===== verification/View_Cache_Properties.thy ===== *)
theory View_Cache_Properties
  imports View_Cache_Mirror K8s_Samples
begin

text \<open>
  The properties of the view cache: reads after writes, the informers in every reachable state,
  the calls from which a handler rebuilds the cache, and what a watch with selectors misses.
\<close>

section \<open>A concrete cache\<close>

lemma set_meta_keeps: "f \<noteq> g \<Longrightarrow> field_str f (meta_of (set_meta g v obj)) = field_str f (meta_of obj)"
  by (auto simp: set_meta_def meta_of_def field_str_def split: option.splits gval.splits)

lemma set_api_same: "api_gvk (set_api (api_gvk obj) obj) = api_gvk obj"
proof -
  have slash: "CHR ''/'' \<notin> set w" if "w \<in> set (split_on CHR ''/'' s)" for w s
    using that by (induction s arbitrary: w) (auto split: if_splits list.splits)
  let ?parts = "split_on CHR ''/'' (field_str ''apiVersion'' obj)"
  consider (one) v where "?parts = [v]" | (two) g v where "?parts = [g, v]"
    | (other) "\<forall>v. ?parts \<noteq> [v]" "\<forall>g v. ?parts \<noteq> [g, v]" by blast
  then show ?thesis
  proof cases
    case one
    with slash [of v "field_str ''apiVersion'' obj"] show ?thesis by (simp add: api_gvk_def set_api_def Let_def split_on_none)
  next
    case two
    with slash [of g "field_str ''apiVersion'' obj"] slash [of v "field_str ''apiVersion'' obj"] show ?thesis
      by (simp add: api_gvk_def set_api_def Let_def split_on_none split_on_append)
  next
    case other
    then have "api_gvk obj = \<lparr>gvk_Group = [], gvk_Version = [], gvk_Kind = []\<rparr>"
      by (auto simp: api_gvk_def Let_def split: list.split)
    then have "set_api (api_gvk obj) obj = sm_set ''kind'' (VStr []) (sm_set ''apiVersion'' (VStr []) obj)" by (simp add: set_api_def)
    moreover have "api_gvk (sm_set ''kind'' (VStr []) (sm_set ''apiVersion'' (VStr []) obj)) = \<lparr>gvk_Group = [], gvk_Version = [], gvk_Kind = []\<rparr>"
      by (simp add: api_gvk_def Let_def)
    ultimately show ?thesis using \<open>api_gvk obj = _\<close> by simp
  qed
qed

lemma list_cache_laws: "cache_laws list_k8s"
proof -
  have "u_gvk list_k8s (u_set_uid list_k8s uid obj) = u_gvk list_k8s obj" for uid obj
    by (simp add: list_k8s_def api_gvk_def set_meta_other)
  moreover have "ts_getByKey list_k8s key s = Inr (contents list_k8s s key)" for key s
    unfolding list_contents by (simp add: list_k8s_def find_map_of)
  moreover have "u_gvk list_k8s (u_set_gvk list_k8s (u_gvk list_k8s obj) obj) = u_gvk list_k8s obj" for obj
    by (simp add: list_k8s_def set_api_same)
  moreover have "u_name list_k8s (u_set_uid list_k8s uid obj) = u_name list_k8s obj"
    "u_namespace list_k8s (u_set_uid list_k8s uid obj) = u_namespace list_k8s obj" for uid obj
    by (simp_all add: list_k8s_def set_meta_keeps)
  ultimately show ?thesis using list_k8s_laws by (simp add: cache_laws_def)
qed

text \<open>Selectors as the label or field assignments they ask for.\<close>

definition list_libs :: "((string \<times> string) list, (string \<times> string) list) cache_libs" where
  "list_libs = \<lparr>
     u_labels = (\<lambda>obj. case map_of (meta_of obj) ''labels'' of
        Some (VMap ls) \<Rightarrow> List.map_filter (\<lambda>(k, v). case v of VStr s \<Rightarrow> Some (k, s) | _ \<Rightarrow> None) ls | _ \<Rightarrow> []),
     SemanticDeepEqual = (=),
     NestedString = (\<lambda>obj path. None), NestedBool = (\<lambda>obj path. None),
     labels_SelectorFromSet = (\<lambda>ls. ls), labels_Matches = (\<lambda>sel ls. list_all (\<lambda>l. l \<in> set ls) sel),
     fields_SelectorFromSet = (\<lambda>fs. fs), fields_Matches = (\<lambda>sel fs. list_all (\<lambda>f. f \<in> set fs) sel)\<rparr>"

definition view_object :: "string \<Rightarrow> string \<Rightarrow> object" where
  "view_object name colour = set_api view_gvk
     [(''metadata'', VMap [(''labels'', VMap [(''colour'', VStr colour)]), (''name'', VStr name), (''namespace'', VStr ''ns''), (''uid'', VStr ''1'')])]"

lemma view_object_gvk [simp]: "u_gvk list_k8s (view_object name colour) = view_gvk"
  by (simp add: view_object_def list_k8s_def api_gvk_def set_api_def view_gvk_def ViewGroupVersionKind_def ViewGroupVersion_def
      Group_def GroupSuffix_def ViewVersion_def field_str_def Let_def)

section \<open>Reads and writes\<close>

text \<open>
  C35. Reads and writes of view kinds in terms of the content of the cache.  An added
  object is stored with an identifier; an update is suppressed when nothing changes and otherwise
  stores the new object; a deletion removes the stored object or fails with not-found.  A write
  changes one key of one kind and tells every handler of that kind, and nobody else, one event.
  \<^verbatim>\<open>Get\<close> returns a copy of the stored object or fails with not-found.
\<close>

theorem cache_reads_writes:
  assumes "cache_laws K" and "IsViewKind (u_gvk K obj)" and "healthy c"
  shows "writes K c (u_gvk K obj) (store_key K obj) (Some (stored K obj))
      (OnAdd (Object_DeepCopy K (stored K obj)) False) (Add_view K obj c)
    \<and> (if SemanticDeepEqual L oldObj (stored K obj) then Update_view K L oldObj obj c = (c, [], Inr ())
       else writes K c (u_gvk K obj) (store_key K obj) (Some (stored K obj))
         (OnUpdate oldObj (Object_DeepCopy K (stored K obj))) (Update_view K L oldObj obj c))
    \<and> (case view_contents K c (u_gvk K obj) (store_key K obj) of
         None \<Rightarrow> \<exists>c'. Delete_view K obj c = (c', [], Inl NotFound) \<and> view_contents K c' = view_contents K c
       | Some old \<Rightarrow> writes K c (u_gvk K obj) (store_key K obj) None (OnDelete (Object_DeepCopy K old)) (Delete_view K obj c))
    \<and> snd (Get_view K (u_namespace K obj) (u_name K obj) (u_gvk K obj) c)
       = (case view_contents K c (u_gvk K obj) (store_key K obj) of
            None \<Rightarrow> Inl NotFound | Some x \<Rightarrow> Inr (Object_DeepCopy K x))"
proof (intro conjI)
  show "snd (Get_view K (u_namespace K obj) (u_name K obj) (u_gvk K obj) c)
      = (case view_contents K c (u_gvk K obj) (store_key K obj) of
            None \<Rightarrow> Inl NotFound | Some x \<Rightarrow> Inr (Object_DeepCopy K x))"
    using Get_view_contents [OF assms, of "u_namespace K obj" "u_name K obj"] by (auto simp: cache_key_store)
  show "case view_contents K c (u_gvk K obj) (store_key K obj) of
         None \<Rightarrow> \<exists>c'. Delete_view K obj c = (c', [], Inl NotFound) \<and> view_contents K c' = view_contents K c
       | Some old \<Rightarrow> writes K c (u_gvk K obj) (store_key K obj) None (OnDelete (Object_DeepCopy K old)) (Delete_view K obj c)"
    using Delete_view_writes [OF assms] by (auto split: option.splits)
qed (rule Add_view_writes [OF assms], rule Update_view_writes [OF assms])

lemma view_gvk_is_view: "IsViewKind view_gvk"
  by code_simp

lemma new_cache_healthy: "healthy NewViewCache"
  by (simp add: healthy_def vc_ok_def untransformed_def NewViewCache_def informers_of_def delegating_def)

abbreviation new_cache :: "(object list, string) ViewCache" where
  "new_cache \<equiv> NewViewCache"

theorem cache_reads_writes_witness:
  "snd (Get_view list_k8s ''ns'' ''a'' view_gvk (fst (Add_view list_k8s (view_object ''a'' ''red'') new_cache)))
    = Inr (Object_DeepCopy list_k8s (stored list_k8s (view_object ''a'' ''red'')))"
proof -
  let ?obj = "view_object ''a'' ''red''"
  have acc: "u_namespace list_k8s ?obj = ''ns''" "u_name list_k8s ?obj = ''a''" by code_simp+
  have "writes list_k8s new_cache view_gvk (store_key list_k8s ?obj) (Some (stored list_k8s ?obj))
      (OnAdd (Object_DeepCopy list_k8s (stored list_k8s ?obj)) False) (Add_view list_k8s ?obj new_cache)"
    using cache_reads_writes [where L = list_libs and c = new_cache and obj = ?obj, OF list_cache_laws _ new_cache_healthy]
      view_gvk_is_view by simp
  then obtain c' where c': "fst (Add_view list_k8s ?obj new_cache) = c'" "healthy c'"
      "view_contents list_k8s c' view_gvk (store_key list_k8s ?obj) = Some (stored list_k8s ?obj)"
    by (auto simp: writes_def)
  with cache_reads_writes [where L = list_libs and c = c' and obj = ?obj, OF list_cache_laws] view_gvk_is_view
  show ?thesis by (simp add: acc)
qed

section \<open>Informers\<close>

text \<open>
  C36. In every reachable state of a view cache (requests, handlers, removed
  informers, informers of delegating caches coming and going) the informers of a kind are
  distinct, allocated and of that kind, so no object of another kind and no event twice reaches
  a handler.
\<close>

theorem cache_invariant:
  assumes "cache_laws K" and "reachable_cache K L c"
  shows "vc_ok c"
  using reachable_healthy [OF assms(2,1)] by (simp add: healthy_def)

lemma serves_add: "serves K L c (fst (snd (Add_view K obj c))) (fst (Add_view K obj c))"
  using serves.add [OF serves.idle, of K obj c "fst (Add_view K obj c)" "fst (snd (Add_view K obj c))" "snd (snd (Add_view K obj c))" L]
  by simp

theorem cache_invariant_witness: "vc_ok (fst (Add_view list_k8s (view_object ''a'' ''red'') new_cache))"
  by (rule cache_invariant [OF list_cache_laws, where L = list_libs]) (rule reachable_cache.serve [OF reachable_cache.new serves_add])

text \<open>
  C6. A handler can follow the cache: registered at any informer of a
  kind, the shared one or one of a delegating cache, it is called with the present objects first,
  and from the calls it gets while the cache serves any sequence of requests it rebuilds the
  content of the kind exactly.
\<close>

theorem handler_mirrors_cache:
  assumes "cache_laws K" and "healthy c" and "a \<in> set (informers_of c gvk)" and "map_of (vc_caches c) gvk = Some indexer"
    and "\<forall>informer \<in> set (vc_heap c). h \<notin> snd ` set (inf_handlers informer)"
    and "AddEventHandler K indexer h (vc_heap c ! a) = (informer, calls0, reg)"
    and "serves K L (c\<lparr>vc_heap := (vc_heap c)[a := informer]\<rparr>) calls c'"
  shows "foldl (apply_event K) Map.empty (calls_to h (calls0 @ calls)) = copies K (view_contents K c' gvk)"
proof -
  let ?c = "c\<lparr>vc_heap := (vc_heap c)[a := informer]\<rparr>"
  note sub = subscribe_ok [OF assms(2,3,5,6) refl]
  have "inf_transform (vc_heap c ! a) = None"
    using vc_okD(1) [of c a gvk] assms(2,3) by (auto simp: healthy_def untransformed_def)
  from AddEventHandler_calls [OF assms(1) this assms(6)]
  have "foldl (apply_event K) Map.empty (calls_to h calls0) = copies K (view_contents K c gvk)"
    by (simp add: view_contents_def assms(4))
  moreover have "keeps_up K h gvk ?c calls c'" by (rule serves_keeps_up [OF assms(7,1) sub(2,1)])
  ultimately show ?thesis using sub(3) by (simp add: keeps_up_def)
qed

text \<open>Two delegating caches on one storage; the handler belongs to the second one.\<close>

definition shared_cache :: "(object list, string) ViewCache" where
  "shared_cache = fst (snd (registerInformerForKind list_k8s view_gvk NewDelegatingViewCache
     (fst (snd (registerInformerForKind list_k8s view_gvk NewDelegatingViewCache
       (fst (Add_view list_k8s (view_object ''a'' ''red'') new_cache)))))))"

definition subscription :: "string ViewCacheInformer \<times> string calls \<times> 64 word" where
  "subscription = AddEventHandler list_k8s (the (map_of (vc_caches shared_cache) view_gvk)) ''h'' (vc_heap shared_cache ! 2)"

definition subscribed_cache :: "(object list, string) ViewCache" where
  "subscribed_cache = shared_cache\<lparr>vc_heap := (vc_heap shared_cache)[2 := fst subscription]\<rparr>"

lemma serves_delegate:
  "serves K L c [] (fst (snd (registerInformerForKind K gvk d c)))"
  using serves.delegate [OF serves.idle, of K gvk d c "fst (registerInformerForKind K gvk d c)"
      "fst (snd (registerInformerForKind K gvk d c))" "snd (snd (registerInformerForKind K gvk d c))" L] by simp

lemma shared_cache_healthy: "healthy shared_cache"
proof -
  have "reachable_cache list_k8s list_libs shared_cache"
    unfolding shared_cache_def
    by (rule reachable_cache.serve [OF reachable_cache.serve [OF reachable_cache.serve [OF reachable_cache.new serves_add]
          serves_delegate] serves_delegate])
  then show ?thesis by (rule reachable_healthy [OF _ list_cache_laws])
qed

theorem handler_mirrors_cache_witness:
  "foldl (apply_event list_k8s) Map.empty
      (calls_to ''h'' (fst (snd subscription) @ fst (snd (Add_view list_k8s (view_object ''b'' ''blue'') subscribed_cache))))
    = copies list_k8s (view_contents list_k8s (fst (Add_view list_k8s (view_object ''b'' ''blue'') subscribed_cache)) view_gvk)"
proof (rule handler_mirrors_cache [OF list_cache_laws shared_cache_healthy, where a = 2 and gvk = view_gvk])
  show "2 \<in> set (informers_of shared_cache view_gvk)" by code_simp
  show "map_of (vc_caches shared_cache) view_gvk = Some (the (map_of (vc_caches shared_cache) view_gvk))"
    by code_simp
  show "\<forall>informer \<in> set (vc_heap shared_cache). ''h'' \<notin> snd ` set (inf_handlers informer)" by code_simp
  show "AddEventHandler list_k8s (the (map_of (vc_caches shared_cache) view_gvk)) ''h'' (vc_heap shared_cache ! 2)
    = (fst subscription, fst (snd subscription), snd (snd subscription))"
    by (simp add: subscription_def)
  show "serves list_k8s list_libs (shared_cache\<lparr>vc_heap := (vc_heap shared_cache)[2 := fst subscription]\<rparr>)
      (fst (snd (Add_view list_k8s (view_object ''b'' ''blue'') subscribed_cache)))
      (fst (Add_view list_k8s (view_object ''b'' ''blue'') subscribed_cache))"
    unfolding subscribed_cache_def by (rule serves_add)
qed

section \<open>Watches\<close>

text \<open>
  What the client of a watch rebuilds from the events it gets.
\<close>

fun apply_watch :: "'s k8s \<Rightarrow> (string \<rightharpoonup> object) \<Rightarrow> watch_event \<Rightarrow> (string \<rightharpoonup> object)" where
  "apply_watch K m (WatchAdded obj) = m(store_key K obj \<mapsto> obj)"
| "apply_watch K m (WatchModified obj) = m(store_key K obj \<mapsto> obj)"
| "apply_watch K m (WatchDeleted obj) = m(store_key K obj := None)"

definition selected :: "'s k8s \<Rightarrow> ('l, 'f) cache_libs \<Rightarrow> ('l, 'f) selectors \<Rightarrow> (string \<rightharpoonup> object) \<Rightarrow> string \<rightharpoonup> object" where
  "selected K L sel m = (\<lambda>k. case m k of Some obj \<Rightarrow> if shouldIncludeObject K L sel obj then Some obj else None | None \<Rightarrow> None)"

text \<open>A selection that changes of an object cannot affect.\<close>

definition selects_by_key :: "'s k8s \<Rightarrow> ('l, 'f) cache_libs \<Rightarrow> ('l, 'f) selectors \<Rightarrow> bool" where
  "selects_by_key K L sel \<longleftrightarrow>
     (\<forall>a b. store_key K a = store_key K b \<longrightarrow> shouldIncludeObject K L sel a = shouldIncludeObject K L sel b)"

definition keyed :: "'s k8s \<Rightarrow> (string \<rightharpoonup> object) \<Rightarrow> bool" where
  "keyed K m \<longleftrightarrow> (\<forall>k obj. m k = Some obj \<longrightarrow> store_key K obj = k)"

lemma keyed_apply: "keyed K m \<Longrightarrow> keyed K (apply_event K m ev)"
  by (cases ev) (auto simp: keyed_def)

lemma selected_upd:
  assumes "selects_by_key K L sel" and "keyed K m"
  shows "selected K L sel (m(store_key K obj \<mapsto> obj))
      = (if shouldIncludeObject K L sel obj then (selected K L sel m)(store_key K obj \<mapsto> obj) else selected K L sel m)"
    and "selected K L sel (m(store_key K obj := None))
      = (if shouldIncludeObject K L sel obj then (selected K L sel m)(store_key K obj := None) else selected K L sel m)"
proof -
  have same: "shouldIncludeObject K L sel a = shouldIncludeObject K L sel obj" if "m (store_key K obj) = Some a" for a
    using assms that unfolding selects_by_key_def keyed_def by blast
  have "selected K L sel m (store_key K obj) = None" if "\<not> shouldIncludeObject K L sel obj"
    using same that by (cases "m (store_key K obj)") (simp_all add: selected_def)
  then show "selected K L sel (m(store_key K obj \<mapsto> obj))
      = (if shouldIncludeObject K L sel obj then (selected K L sel m)(store_key K obj \<mapsto> obj) else selected K L sel m)"
    and "selected K L sel (m(store_key K obj := None))
      = (if shouldIncludeObject K L sel obj then (selected K L sel m)(store_key K obj := None) else selected K L sel m)"
    by (simp_all add: fun_eq_iff) (simp_all add: selected_def)
qed

lemma watch_event_selected:
  assumes "selects_by_key K L sel" and "keyed K m"
  shows "selected K L sel (apply_event K m ev)
    = (case watch_handler K L sel ev of None \<Rightarrow> selected K L sel m | Some wev \<Rightarrow> apply_watch K (selected K L sel m) wev)"
  by (cases ev) (simp_all add: selected_upd [OF assms] watch_handler_def)

lemma watch_mirrors_selection:
  assumes "selects_by_key K L sel" and "keyed K m"
  shows "foldl (apply_watch K) (selected K L sel m) (List.map_filter (watch_handler K L sel) evs)
    = selected K L sel (foldl (apply_event K) m evs)"
  using assms(2)
proof (induction evs arbitrary: m)
  case (Cons ev evs)
  show ?case using watch_event_selected [OF assms(1) Cons.prems, of ev] Cons.IH [OF keyed_apply [OF Cons.prems], of ev]
    by (cases "watch_handler K L sel ev") (simp_all add: List.map_filter_simps)
qed (simp add: List.map_filter_simps)

text \<open>
  In general this is not so: when an update takes an object out of the selection, the watch sends
  nothing, and its client keeps the old object.
\<close>

definition red_only :: "((string \<times> string) list, (string \<times> string) list) selectors" where
  "red_only = selectors_of list_libs [MatchingLabels [(''colour'', ''red'')]]"

definition recolouring :: "event list" where
  "recolouring = [OnAdd (view_object ''a'' ''red'') False, OnUpdate (view_object ''a'' ''red'') (view_object ''a'' ''blue'')]"

theorem watch_misses_departures:
  "foldl (apply_watch list_k8s) Map.empty (List.map_filter (watch_handler list_k8s list_libs red_only) recolouring) ''ns/a''
      = Some (view_object ''a'' ''red'')
    \<and> selected list_k8s list_libs red_only (foldl (apply_event list_k8s) Map.empty recolouring) ''ns/a'' = None"
  by code_simp

end
