(* ===== verification/Reconciler.thy ===== *)
theory Reconciler
  imports View_Client
begin

text \<open>
  Package \<^verbatim>\<open>reconciler\<close>: resources (\<^verbatim>\<open>resource.go\<close>), the writing of deltas to a target
  (\<^verbatim>\<open>target.go\<close>) and the create-or-update logic (\<^verbatim>\<open>ctrlutils.go\<close>).  The Kubernetes client is a
  parameter (record \<open>client\<close>): an operation takes the object and the state of the cluster, and
  returns the new state, the object as the client leaves it, and success or failure.  Labels,
  annotations, resource versions and nested fields of unstructured content are the record
  \<open>meta_libs\<close>.
\<close>

section \<open>Libraries\<close>

record 'c client =
  c_Get :: "object \<Rightarrow> 'c \<Rightarrow> 'c \<times> object \<times> unit res"
  c_Create :: "object \<Rightarrow> 'c \<Rightarrow> 'c \<times> object \<times> unit res"
  c_Update :: "object \<Rightarrow> 'c \<Rightarrow> 'c \<times> object \<times> unit res"
  c_StatusUpdate :: "object \<Rightarrow> 'c \<Rightarrow> 'c \<times> object \<times> unit res"
  c_Delete :: "object \<Rightarrow> 'c \<Rightarrow> 'c \<times> unit res"

record meta_libs =
  GetLabels :: "object \<Rightarrow> (string \<times> string) list option"
  SetLabels :: "(string \<times> string) list \<Rightarrow> object \<Rightarrow> object"
  GetAnnotations :: "object \<Rightarrow> (string \<times> string) list option"
  SetAnnotations :: "(string \<times> string) list \<Rightarrow> object \<Rightarrow> object"
  GetResourceVersion :: "object \<Rightarrow> string"
  SetResourceVersion :: "string \<Rightarrow> object \<Rightarrow> object"
  HasField :: "doc \<Rightarrow> string \<Rightarrow> bool"
  RemoveNestedField :: "string \<Rightarrow> doc \<Rightarrow> doc"
  SetNestedField :: "gval \<Rightarrow> string list \<Rightarrow> doc \<Rightarrow> doc res"
  IsNotFound :: "error \<Rightarrow> bool"
  IsConflict :: "error \<Rightarrow> bool"

section \<open>Resources (\<^verbatim>\<open>resource.go\<close>, \<^verbatim>\<open>controller_types.go\<close>)\<close>

record ResourceSpec =
  rs_Group :: "string option"
  rs_Version :: "string option"
  rs_Kind :: string

definition getGVKByGroupKind ::
    "(string \<Rightarrow> string \<Rightarrow> GroupVersionKind res) \<Rightarrow> string \<Rightarrow> string \<Rightarrow> GroupVersionKind res" where
  "getGVKByGroupKind KindFor grp kind =
     (if IsViewGroup grp then Inr \<lparr>gvk_Group = grp, gvk_Version = ViewVersion, gvk_Kind = kind\<rparr>
      else rewrap ''cannot find GVK'' (KindFor grp kind))"

definition GetGVK :: "(string \<Rightarrow> string \<Rightarrow> GroupVersionKind res) \<Rightarrow> string \<Rightarrow> ResourceSpec \<Rightarrow> GroupVersionKind res" where
  "GetGVK KindFor oper r =
     (if rs_Kind r = [] then Inl (Error ''empty Kind'')
      else case rs_Group r of
        None \<Rightarrow> getGVKByGroupKind KindFor (Group oper) (rs_Kind r)
      | Some grp \<Rightarrow>
          if grp = Group oper then getGVKByGroupKind KindFor (Group oper) (rs_Kind r)
          else case rs_Version r of
            None \<Rightarrow> getGVKByGroupKind KindFor grp (rs_Kind r)
          | Some version \<Rightarrow> Inr \<lparr>gvk_Group = grp, gvk_Version = version, gvk_Kind = rs_Kind r\<rparr>)"

definition Resource_String :: "(string \<Rightarrow> string \<Rightarrow> GroupVersionKind res) \<Rightarrow> string \<Rightarrow> ResourceSpec \<Rightarrow> string" where
  "Resource_String KindFor oper r =
     (case GetGVK KindFor oper r of
        Inl _ \<Rightarrow> []
      | Inr gvk \<Rightarrow> (if gvk_Group gvk = [] then ''core'' else gvk_Group gvk) @ ''/'' @ gvk_Version gvk @ '':'' @ gvk_Kind gvk)"

record Target =
  tg_Resource :: ResourceSpec
  tg_Type :: string

definition NewTarget :: "Target \<Rightarrow> Target" where
  "NewTarget t = (if tg_Type t = [] then t\<lparr>tg_Type := ''Updater''\<rparr> else t)"

definition Target_String :: "(string \<Rightarrow> string \<Rightarrow> GroupVersionKind res) \<Rightarrow> string \<Rightarrow> Target \<Rightarrow> string" where
  "Target_String KindFor oper t = Resource_String KindFor oper (tg_Resource t) @ ''<type:'' @ tg_Type t @ ''>''"

section \<open>Create or update (\<^verbatim>\<open>ctrlutils.go\<close>)\<close>

datatype OperationResult = OperationResultNone | OperationResultCreated | OperationResultUpdated

definition isViewObject :: "'s k8s \<Rightarrow> object \<Rightarrow> bool" where
  "isViewObject K obj = IsViewKind (u_gvk K obj)"

definition mutate :: "'s k8s \<Rightarrow> (object \<Rightarrow> object res) \<Rightarrow> string \<times> string \<Rightarrow> object \<Rightarrow> object res" where
  "mutate K f key obj =
     bind (f obj) (\<lambda>obj'.
       if (u_namespace K obj', u_name K obj') \<noteq> key
       then Inl (Error ''MutateFn cannot mutate object name and/or object namespace'') else Inr obj')"

text \<open>The status of an object before an update, and its restoring afterwards.\<close>

definition saved_status :: "client_libs \<Rightarrow> object \<Rightarrow> doc option" where
  "saved_status J obj = (case NestedMap J obj ''status'' of Inr st \<Rightarrow> st | Inl _ \<Rightarrow> None)"

definition restore_status ::
    "'s k8s \<Rightarrow> client_libs \<Rightarrow> 'c client \<Rightarrow> doc option \<Rightarrow> object \<Rightarrow> 'c \<Rightarrow> 'c \<times> object \<times> unit res" where
  "restore_status K J cl status obj c =
     (case status of
        Some newStatus \<Rightarrow>
          if isViewObject K obj then (c, obj, Inr ())
          else (case SetNestedMap J obj newStatus ''status'' of
                  Inl _ \<Rightarrow> (c, obj, Inr ())
                | Inr obj' \<Rightarrow> c_StatusUpdate cl obj' c)
      | None \<Rightarrow> (c, obj, Inr ()))"

definition update_branch ::
    "'s k8s \<Rightarrow> client_libs \<Rightarrow> 'c client \<Rightarrow> (object \<Rightarrow> object res) \<Rightarrow> string \<times> string \<Rightarrow> object \<Rightarrow> 'c
      \<Rightarrow> 'c \<times> OperationResult \<times> unit res" where
  "update_branch K J cl f key obj c =
     (case mutate K f key obj of
        Inl err \<Rightarrow> (c, OperationResultNone, Inl err)
      | Inr obj1 \<Rightarrow>
          (case c_Update cl obj1 c of
             (c1, obj2, Inl err) \<Rightarrow> (c1, OperationResultNone, Inl err)
           | (c1, obj2, Inr _) \<Rightarrow>
               (case restore_status K J cl (saved_status J obj1) obj2 c1 of
                  (c2, _, Inl err) \<Rightarrow> (c2, OperationResultNone, Inl err)
                | (c2, _, Inr _) \<Rightarrow> (c2, OperationResultUpdated, Inr ()))))"

definition CreateOrUpdate ::
    "'s k8s \<Rightarrow> meta_libs \<Rightarrow> client_libs \<Rightarrow> 'c client \<Rightarrow> object \<Rightarrow> (object \<Rightarrow> object res) \<Rightarrow> 'c
      \<Rightarrow> 'c \<times> OperationResult \<times> unit res" where
  "CreateOrUpdate K M J cl obj f c =
     (let key = (u_namespace K obj, u_name K obj) in
      case c_Get cl obj c of
        (c1, obj1, Inl err) \<Rightarrow>
          if \<not> IsNotFound M err then (c1, OperationResultNone, Inl err)
          else
            (case mutate K f key obj1 of
               Inl err \<Rightarrow> (c1, OperationResultNone, Inl err)
             | Inr obj2 \<Rightarrow>
                 (case c_Create cl obj2 c1 of
                    (c2, obj3, Inl _) \<Rightarrow> update_branch K J cl f key obj3 c2
                  | (c2, obj3, Inr _) \<Rightarrow> (c2, OperationResultCreated, Inr ())))
      | (c1, obj1, Inr _) \<Rightarrow> update_branch K J cl f key obj1 c1)"

text \<open>
  \<^verbatim>\<open>Update\<close> with a retry on conflicts; \<open>steps\<close> is the number of attempts of the retry library.
  Every attempt but the first takes the resource version of the object as it is now.
\<close>

definition refresh_version ::
    "'s k8s \<Rightarrow> meta_libs \<Rightarrow> 'c client \<Rightarrow> string \<times> string \<Rightarrow> object \<Rightarrow> 'c \<Rightarrow> 'c \<times> object \<times> unit res" where
  "refresh_version K M cl key obj c =
     (case c_Get cl (u_set_namespace K (fst key) (u_set_name K (snd key) (u_set_gvk K (u_gvk K obj) New_object))) c of
        (c1, _, Inl err) \<Rightarrow> (c1, obj, Inl err)
      | (c1, latest, Inr _) \<Rightarrow> (c1, SetResourceVersion M (GetResourceVersion M latest) obj, Inr ()))"

fun update_attempts ::
    "'s k8s \<Rightarrow> meta_libs \<Rightarrow> client_libs \<Rightarrow> 'c client \<Rightarrow> doc option \<Rightarrow> string \<times> string \<Rightarrow> nat \<Rightarrow> bool \<Rightarrow> object \<Rightarrow> 'c
      \<Rightarrow> 'c \<times> object \<times> unit res" where
  "update_attempts K M J cl status key steps firstAttempt obj c =
     (case (if firstAttempt then (c, obj, Inr ()) else refresh_version K M cl key obj c) of
        (c1, obj1, Inl err) \<Rightarrow> (if IsConflict M err \<and> 1 < steps
          then update_attempts K M J cl status key (steps - 1) False obj1 c1 else (c1, obj1, Inl err))
      | (c1, obj1, Inr _) \<Rightarrow>
          (case c_Update cl obj1 c1 of
             (c2, obj2, Inl err) \<Rightarrow> (if IsConflict M err \<and> 1 < steps
               then update_attempts K M J cl status key (steps - 1) False obj2 c2 else (c2, obj2, Inl err))
           | (c2, obj2, Inr _) \<Rightarrow>
               (case restore_status K J cl status obj2 c2 of
                  (c3, obj3, Inl err) \<Rightarrow> (if IsConflict M err \<and> 1 < steps
                    then update_attempts K M J cl status key (steps - 1) False obj3 c3 else (c3, obj3, Inl err))
                | (c3, obj3, Inr _) \<Rightarrow> (c3, obj3, Inr ()))))"

declare update_attempts.simps [simp del]

definition Update_object ::
    "'s k8s \<Rightarrow> meta_libs \<Rightarrow> client_libs \<Rightarrow> 'c client \<Rightarrow> nat \<Rightarrow> object \<Rightarrow> 'c \<Rightarrow> 'c \<times> object \<times> unit res" where
  "Update_object K M J cl steps obj c =
     update_attempts K M J cl (saved_status J obj) (u_namespace K obj, u_name K obj) steps True obj c"

section \<open>Targets (\<^verbatim>\<open>target.go\<close>)\<close>

text \<open>Merging labels and annotations; writing to the map of the object.\<close>

definition merge_strings :: "(string \<times> string) list \<Rightarrow> (string \<times> string) list \<Rightarrow> (string \<times> string) list" where
  "merge_strings old new = foldl (\<lambda>m (k, v). AList.update k v m) old new"

definition mergeMetadata :: "meta_libs \<Rightarrow> object \<Rightarrow> object \<Rightarrow> object" where
  "mergeMetadata M obj new =
     (let obj1 = (case GetLabels M new of
            None \<Rightarrow> obj
          | Some newLabels \<Rightarrow> SetLabels M (merge_strings (case GetLabels M obj of Some ls \<Rightarrow> ls | None \<Rightarrow> []) newLabels) obj)
      in case GetAnnotations M new of
           None \<Rightarrow> obj1
         | Some newAnnotations \<Rightarrow>
             SetAnnotations M (merge_strings (case GetAnnotations M obj1 of Some as \<Rightarrow> as | None \<Rightarrow> []) newAnnotations) obj1)"

fun removeNestedMap :: "(string \<times> gval) list \<Rightarrow> (string \<times> gval) list"
  and removeNestedList :: "gval list \<Rightarrow> gval list" where
  "removeNestedMap [] = []"
| "removeNestedMap ((k, v) # m) =
     (case v of
        VBool _ \<Rightarrow> (k, VNil) # removeNestedMap m
      | VInt _ \<Rightarrow> (k, VNil) # removeNestedMap m
      | VFloat _ \<Rightarrow> (k, VNil) # removeNestedMap m
      | VStr _ \<Rightarrow> (k, VNil) # removeNestedMap m
      | VMap x \<Rightarrow> (k, VMap (removeNestedMap x)) # removeNestedMap m
      | VList x \<Rightarrow> (k, VList (removeNestedList x)) # removeNestedMap m
      | _ \<Rightarrow> removeNestedMap m)"
| "removeNestedList [] = []"
| "removeNestedList (v # l) =
     (case v of
        VMap x \<Rightarrow> VMap (removeNestedMap x)
      | VList x \<Rightarrow> VList (removeNestedList x)
      | _ \<Rightarrow> VNil) # removeNestedList l"

text \<open>The function that brings the content of a target object up to date.\<close>

definition update_content :: "'s k8s \<Rightarrow> meta_libs \<Rightarrow> GroupVersionKind \<Rightarrow> object \<Rightarrow> object \<Rightarrow> object" where
  "update_content K M gvk new obj =
     (let obj1 = foldl (\<lambda>ob k. if k = ''metadata'' then ob else if HasField M new k then ob else RemoveNestedField M k ob)
            obj (map fst obj);
          obj2 = foldl (\<lambda>ob (k, v). if k = ''metadata'' then ob
            else case SetNestedField M v [k] ob of Inr ob' \<Rightarrow> ob' | Inl _ \<Rightarrow> ob) obj1 new
      in u_set_namespace K (u_namespace K new) (u_set_name K (u_name K new) (u_set_gvk K gvk (mergeMetadata M obj2 new))))"

definition target_key :: "'s k8s \<Rightarrow> GroupVersionKind \<Rightarrow> object \<Rightarrow> object" where
  "target_key K gvk new = u_set_namespace K (u_namespace K new) (u_set_name K (u_name K new) (u_set_gvk K gvk New_object))"

definition ignore_not_found :: "meta_libs \<Rightarrow> string \<Rightarrow> unit res \<Rightarrow> unit res" where
  "ignore_not_found M m r = (case r of Inr _ \<Rightarrow> Inr () | Inl err \<Rightarrow> if IsNotFound M err then Inr () else Inl (wrap m err))"

definition target_update ::
    "'s k8s \<Rightarrow> meta_libs \<Rightarrow> client_libs \<Rightarrow> 'c client \<Rightarrow> GroupVersionKind \<Rightarrow> Delta \<Rightarrow> 'c \<Rightarrow> 'c \<times> unit res" where
  "target_update K M J cl gvk delta c =
     (let new = d_Object delta in
      if d_Type delta \<in> {Added, Upserted, Updated, Replaced} then
        (case CreateOrUpdate K M J cl (target_key K gvk new) (\<lambda>obj. Inr (update_content K M gvk new obj)) c of
           (c1, _, r) \<Rightarrow> (c1, ignore_not_found M ''create/update resource failed'' r))
      else if d_Type delta = Deleted then
        (case c_Delete cl new c of (c1, r) \<Rightarrow> (c1, ignore_not_found M ''delete resource failed'' r))
      else (c, Inr ()))"

text \<open>The object a patch is applied to: the snapshot of the request if it is the same object, or a fresh copy.\<close>

definition patch_base ::
    "'s k8s \<Rightarrow> 'c client \<Rightarrow> object \<Rightarrow> object option \<Rightarrow> 'c \<Rightarrow> 'c \<times> object res" where
  "patch_base K cl new original c =
     (case original of
        Some orig \<Rightarrow>
          if u_gvk K orig = u_gvk K new \<and> u_namespace K orig = u_namespace K new \<and> u_name K orig = u_name K new
          then (c, Inr (Object_DeepCopy K orig))
          else (case c_Get cl (target_key K (u_gvk K new) new) c of
                  (c1, _, Inl err) \<Rightarrow> (c1, Inl err) | (c1, obj, Inr _) \<Rightarrow> (c1, Inr obj))
      | None \<Rightarrow>
          (case c_Get cl (target_key K (u_gvk K new) new) c of
             (c1, _, Inl err) \<Rightarrow> (c1, Inl err) | (c1, obj, Inr _) \<Rightarrow> (c1, Inr obj)))"

definition restore_identity :: "'s k8s \<Rightarrow> object \<Rightarrow> object \<Rightarrow> object" where
  "restore_identity K new obj =
     u_set_namespace K (u_namespace K new) (u_set_name K (u_name K new) (u_set_gvk K (u_gvk K new) obj))"

definition set_field :: "meta_libs \<Rightarrow> gval \<Rightarrow> string list \<Rightarrow> doc \<Rightarrow> doc" where
  "set_field M v path d = (case SetNestedField M v path d of Inr d' \<Rightarrow> d' | Inl _ \<Rightarrow> d)"

definition delete_patch :: "'s k8s \<Rightarrow> meta_libs \<Rightarrow> object \<Rightarrow> doc" where
  "delete_patch K M new =
     (let gvk = u_gvk K new in
      set_field M (VStr (u_name K new)) [''metadata'', ''name'']
        (set_field M (VStr (u_namespace K new)) [''metadata'', ''namespace'']
          (set_field M (VStr (gvk_Kind gvk)) [''kind'']
            (set_field M (VStr (gv_String (gvk_GroupVersion gvk))) [''apiVersion''] (removeNestedMap new)))))"

definition target_patch ::
    "'s k8s \<Rightarrow> meta_libs \<Rightarrow> client_libs \<Rightarrow> 'c client \<Rightarrow> nat \<Rightarrow> Delta \<Rightarrow> object option \<Rightarrow> 'c \<Rightarrow> 'c \<times> unit res" where
  "target_patch K M J cl steps delta original c =
     (let new = d_Object delta in
      if d_Type delta \<in> {Added, Updated, Upserted, Replaced} then
        (case patch_base K cl new original c of
           (c1, Inl err) \<Rightarrow> (c1, Inl err)
         | (c1, Inr obj) \<Rightarrow>
             (case Patch obj new of
                Inl err \<Rightarrow> (c1, Inl err)
              | Inr obj' \<Rightarrow>
                  (case Update_object K M J cl steps (restore_identity K new obj') c1 of
                     (c2, _, r) \<Rightarrow> (c2, ignore_not_found M ''update resource failed'' r))))
      else if d_Type delta = Deleted then
        (case patch_base K cl new original c of
           (c1, Inl err) \<Rightarrow> (c1, if IsNotFound M err then Inr () else Inl err)
         | (c1, Inr obj) \<Rightarrow>
             (case Patch obj (delete_patch K M new) of
                Inl err \<Rightarrow> (c1, Inl err)
              | Inr obj' \<Rightarrow>
                  (case Update_object K M J cl steps (restore_identity K new obj') c1 of
                     (c2, _, r) \<Rightarrow> (c2, ignore_not_found M ''update resource after delete-patch failed'' r))))
      else (c, Inr ()))"

definition Target_Write ::
    "'s k8s \<Rightarrow> meta_libs \<Rightarrow> client_libs \<Rightarrow> 'c client \<Rightarrow> nat \<Rightarrow> (string \<Rightarrow> string \<Rightarrow> GroupVersionKind res) \<Rightarrow> string \<Rightarrow> Target
      \<Rightarrow> Delta option \<Rightarrow> object option \<Rightarrow> 'c \<Rightarrow> 'c \<times> unit res" where
  "Target_Write K M J cl steps KindFor oper t delta0 original c =
     (case delta0 of
        None \<Rightarrow> (c, Inl (Error ''write: empty object in delta''))
      | Some delta \<Rightarrow>
          (case GetGVK KindFor oper (tg_Resource t) of
             Inl err \<Rightarrow> (c, Inl err)
           | Inr gvk \<Rightarrow>
               let delta' = delta\<lparr>d_Object := u_set_gvk K gvk (Object_DeepCopy K (d_Object delta))\<rparr> in
               if tg_Type t = ''Updater'' \<or> tg_Type t = [] then target_update K M J cl gvk delta' c
               else if tg_Type t = ''Patcher'' then target_patch K M J cl steps delta' original c
               else (c, Inl (Error ''unknown target type''))))"

end
