(* ===== verification/Target_Laws.thy ===== *)
theory Target_Laws
  imports Reconciler View_Cache_Laws Object_Laws
begin

text \<open>
  Writing deltas to a target: what the libraries promise about fields and metadata, the content
  that an update produces, the interface of a client (locale \<open>object_client\<close>) with the effect of
  \<^verbatim>\<open>target.update\<close> proved over it, and the client of the view cache as an instance.
\<close>

section \<open>Fields and metadata\<close>

definition meta_ok :: "object \<Rightarrow> bool" where
  "meta_ok obj \<longleftrightarrow> (case map_of obj ''metadata'' of None \<Rightarrow> True | Some (VMap _) \<Rightarrow> True | _ \<Rightarrow> False)"

definition special :: "string set" where
  "special = {''metadata'', ''apiVersion'', ''kind''}"

definition same_fields :: "object \<Rightarrow> object \<Rightarrow> bool" where
  "same_fields a b \<longleftrightarrow> (\<forall>k. k \<notin> special \<longrightarrow> map_of a k = map_of b k)"

text \<open>Content as it comes from JSON: values, one entry per key, and a map as metadata.\<close>

definition plain_object :: "object \<Rightarrow> bool" where
  "plain_object obj \<longleftrightarrow> (\<forall>(k, v) \<in> set obj. json_like v) \<and> sm_wf obj \<and> meta_ok obj"

text \<open>A setter of metadata: it keeps the kind, the other fields and the shape of the metadata.\<close>

definition meta_setter :: "'s k8s \<Rightarrow> (object \<Rightarrow> object) \<Rightarrow> bool" where
  "meta_setter K f \<longleftrightarrow> (\<forall>obj. u_gvk K (f obj) = u_gvk K obj \<and> same_fields (f obj) obj \<and> (meta_ok obj \<longrightarrow> meta_ok (f obj))
     \<and> (plain_object obj \<longrightarrow> plain_object (f obj)))"

definition target_laws :: "'s k8s \<Rightarrow> meta_libs \<Rightarrow> bool" where
  "target_laws K M \<longleftrightarrow>
     (\<forall>obj gvk. CHR ''/'' \<notin> set (gvk_Group gvk) \<longrightarrow> CHR ''/'' \<notin> set (gvk_Version gvk) \<longrightarrow> gvk_Group gvk \<noteq> [] \<longrightarrow>
        u_gvk K (u_set_gvk K gvk obj) = gvk)
     \<and> (\<forall>obj gvk. same_fields (u_set_gvk K gvk obj) obj \<and> (meta_ok obj \<longrightarrow> meta_ok (u_set_gvk K gvk obj)))
     \<and> (\<forall>obj gvk. plain_object obj \<longrightarrow> plain_object (u_set_gvk K gvk obj))
     \<and> (\<forall>obj. gvk_Group (u_gvk K obj) \<noteq> [] \<longrightarrow> u_kind K obj = gvk_Kind (u_gvk K obj))
     \<and> (\<forall>v. meta_setter K (u_set_name K v) \<and> meta_setter K (u_set_namespace K v) \<and> meta_setter K (u_set_uid K v))
     \<and> (\<forall>ls. meta_setter K (SetLabels M ls) \<and> meta_setter K (SetAnnotations M ls))
     \<and> (\<forall>obj n. meta_ok obj \<longrightarrow> u_name K (u_set_name K n obj) = n \<and> u_namespace K (u_set_namespace K n obj) = n
          \<and> u_name K (u_set_namespace K n obj) = u_name K obj)
     \<and> (\<forall>d k. HasField M d k \<longleftrightarrow> map_of d k \<noteq> None)
     \<and> (\<forall>d k. map_of (RemoveNestedField M k d) = (map_of d)(k := None))
     \<and> (\<forall>d k v. json_like v \<longrightarrow> (\<exists>d'. SetNestedField M v [k] d = Inr d' \<and> map_of d' = (map_of d)(k \<mapsto> v)))
     \<and> IsNotFound M NotFound"

lemma target_lawsD:
  assumes "target_laws K M"
  shows "CHR ''/'' \<notin> set (gvk_Group gvk) \<Longrightarrow> CHR ''/'' \<notin> set (gvk_Version gvk) \<Longrightarrow> gvk_Group gvk \<noteq> [] \<Longrightarrow>
      u_gvk K (u_set_gvk K gvk obj) = gvk"
    and "same_fields (u_set_gvk K gvk obj) obj" "meta_ok obj \<Longrightarrow> meta_ok (u_set_gvk K gvk obj)"
    and "gvk_Group (u_gvk K obj) \<noteq> [] \<Longrightarrow> u_kind K obj = gvk_Kind (u_gvk K obj)"
    and "meta_setter K (u_set_name K v)" "meta_setter K (u_set_namespace K v)" "meta_setter K (u_set_uid K v)"
    and "meta_setter K (SetLabels M ls)" "meta_setter K (SetAnnotations M ls)"
    and "meta_ok obj \<Longrightarrow> u_name K (u_set_name K n obj) = n" "meta_ok obj \<Longrightarrow> u_namespace K (u_set_namespace K n obj) = n"
      "meta_ok obj \<Longrightarrow> u_name K (u_set_namespace K n obj) = u_name K obj"
    and "HasField M d k \<longleftrightarrow> map_of d k \<noteq> None" "map_of (RemoveNestedField M k d) = (map_of d)(k := None)"
    and "json_like w \<Longrightarrow> \<exists>d'. SetNestedField M w [k] d = Inr d' \<and> map_of d' = (map_of d)(k \<mapsto> w)"
    and "IsNotFound M NotFound" and "plain_object obj \<Longrightarrow> plain_object (u_set_gvk K gvk obj)"
  using assms by (simp_all add: target_laws_def)

lemma meta_setterD:
  assumes "meta_setter K f"
  shows "u_gvk K (f obj) = u_gvk K obj" "same_fields (f obj) obj" "meta_ok obj \<Longrightarrow> meta_ok (f obj)" "plain_object obj \<Longrightarrow> plain_object (f obj)"
  using assms by (auto simp: meta_setter_def)

lemma same_fields_trans: "same_fields a b \<Longrightarrow> same_fields b c \<Longrightarrow> same_fields a c"
  by (simp add: same_fields_def)

lemma meta_ok_cong: "map_of a ''metadata'' = map_of b ''metadata'' \<Longrightarrow> meta_ok a = meta_ok b"
  by (simp add: meta_ok_def)

lemma mergeMetadata_setter: "target_laws K M \<Longrightarrow> meta_setter K (\<lambda>obj. mergeMetadata M obj new)"
  using target_lawsD(8,9) [of K M] unfolding meta_setter_def mergeMetadata_def Let_def same_fields_def
  by (auto split: option.splits)

section \<open>The updated content\<close>

lemma removed_fields:
  assumes "target_laws K M"
  shows "map_of (foldl (\<lambda>ob k. if k = ''metadata'' then ob else if HasField M new k then ob else RemoveNestedField M k ob) obj ks) k
    = (if k \<in> set ks \<and> k \<noteq> ''metadata'' \<and> map_of new k = None then None else map_of obj k)"
  using target_lawsD(13,14) [OF assms]
proof (induction ks arbitrary: obj)
  case (Cons j ks)
  then show ?case by auto
qed simp

lemma set_fields:
  assumes "target_laws K M" and "\<forall>(k, v) \<in> set new. json_like v" and "distinct (map fst new)"
  shows "map_of (foldl (\<lambda>ob (k, v). if k = ''metadata'' then ob
      else case SetNestedField M v [k] ob of Inr ob' \<Rightarrow> ob' | Inl _ \<Rightarrow> ob) obj new) k
    = (if k = ''metadata'' then map_of obj k else case map_of new k of Some v \<Rightarrow> Some v | None \<Rightarrow> map_of obj k)"
  using assms(2,3)
proof (induction new arbitrary: obj)
  case (Cons kv new)
  obtain j v where kv: "kv = (j, v)" by force
  obtain d' where "SetNestedField M v [j] obj = Inr d'" "map_of d' = (map_of obj)(j \<mapsto> v)"
    using target_lawsD(15) [OF assms(1), of v j obj] Cons.prems by (auto simp: kv)
  moreover have "map_of new j = None" using Cons.prems by (simp add: kv map_of_eq_None_iff)
  ultimately show ?case using Cons by (auto simp: kv split: option.splits)
qed simp

lemma update_content_laws:
  assumes "target_laws K M" and "\<forall>(k, v) \<in> set new. json_like v" and "distinct (map fst new)" and "meta_ok obj"
    and "CHR ''/'' \<notin> set (gvk_Group gvk)" "CHR ''/'' \<notin> set (gvk_Version gvk)" "gvk_Group gvk \<noteq> []"
  shows "same_fields (update_content K M gvk new obj) new" "u_gvk K (update_content K M gvk new obj) = gvk"
    "u_name K (update_content K M gvk new obj) = u_name K new" "u_namespace K (update_content K M gvk new obj) = u_namespace K new"
    "meta_ok (update_content K M gvk new obj)"
proof -
  define obj1 where "obj1 = foldl (\<lambda>ob k. if k = ''metadata'' then ob else if HasField M new k then ob else RemoveNestedField M k ob)
    obj (map fst obj)"
  define obj2 where "obj2 = foldl (\<lambda>ob (k, v). if k = ''metadata'' then ob
    else case SetNestedField M v [k] ob of Inr ob' \<Rightarrow> ob' | Inl _ \<Rightarrow> ob) obj1 new"
  define obj3 where "obj3 = mergeMetadata M obj2 new"
  have result: "update_content K M gvk new obj = u_set_namespace K (u_namespace K new) (u_set_name K (u_name K new) (u_set_gvk K gvk obj3))"
    by (simp add: update_content_def obj1_def obj2_def obj3_def)
  have f1: "map_of obj1 k = (if k \<noteq> ''metadata'' \<and> map_of new k = None then None else map_of obj k)" for k
    unfolding obj1_def removed_fields [OF assms(1)] by (auto simp: map_of_eq_None_iff)
  have f2: "map_of obj2 k = (if k = ''metadata'' then map_of obj k else map_of new k)" for k
    unfolding obj2_def set_fields [OF assms(1-3)] f1 by (simp split: option.splits)
  have "meta_ok obj2" using assms(4) by (simp add: meta_ok_def f2)
  note merge = meta_setterD [OF mergeMetadata_setter [OF assms(1)]]
  have obj3: "meta_ok obj3" "same_fields obj3 new"
    using merge(2,3) [of obj2 new] \<open>meta_ok obj2\<close> f2 by (auto simp: obj3_def same_fields_def special_def)
  note set_gvk = target_lawsD(1-3) [OF assms(1)]
    and set_name = meta_setterD [OF target_lawsD(5) [OF assms(1)]]
    and set_ns = meta_setterD [OF target_lawsD(6) [OF assms(1)]]
  have ok: "meta_ok (u_set_gvk K gvk obj3)" "meta_ok (u_set_name K (u_name K new) (u_set_gvk K gvk obj3))"
    using obj3(1) set_gvk(3) set_name(3) by blast+
  show "meta_ok (update_content K M gvk new obj)" unfolding result by (rule set_ns(3) [OF ok(2)])
  show "u_gvk K (update_content K M gvk new obj) = gvk" unfolding result using set_ns(1) set_name(1) set_gvk(1) assms(5-7) by simp
  show "u_name K (update_content K M gvk new obj) = u_name K new"
    "u_namespace K (update_content K M gvk new obj) = u_namespace K new"
    unfolding result using target_lawsD(10-12) [OF assms(1)] ok by simp_all
  show "same_fields (update_content K M gvk new obj) new"
    unfolding result using same_fields_trans [OF set_ns(2) same_fields_trans [OF set_name(2) same_fields_trans [OF set_gvk(2) obj3(2)]]] .
qed

lemma target_key_laws:
  assumes "target_laws K M" and "CHR ''/'' \<notin> set (gvk_Group gvk)" "CHR ''/'' \<notin> set (gvk_Version gvk)" "gvk_Group gvk \<noteq> []"
  shows "u_gvk K (target_key K gvk new) = gvk" "u_name K (target_key K gvk new) = u_name K new"
    "u_namespace K (target_key K gvk new) = u_namespace K new" "meta_ok (target_key K gvk new)"
proof -
  have "meta_ok (u_set_gvk K gvk New_object)" using target_lawsD(3) [OF assms(1)] by (simp add: meta_ok_def New_object_def)
  moreover from this have "meta_ok (u_set_name K (u_name K new) (u_set_gvk K gvk New_object))"
    using meta_setterD(3) [OF target_lawsD(5) [OF assms(1)]] by blast
  ultimately show "u_gvk K (target_key K gvk new) = gvk" "u_name K (target_key K gvk new) = u_name K new"
    "u_namespace K (target_key K gvk new) = u_namespace K new" "meta_ok (target_key K gvk new)"
    using target_lawsD(1,10-12) [OF assms(1)] meta_setterD [OF target_lawsD(5) [OF assms(1)]]
      meta_setterD [OF target_lawsD(6) [OF assms(1)]] assms(2-4)
    by (simp_all add: target_key_def)
qed

section \<open>The interface of a client\<close>

text \<open>
  What the writing of deltas to one kind relies on: a client that keeps objects by kind and key.
  Reading returns a copy, a missing object is reported as not found; \<open>like\<close> relates what is stored
  to what was written.
\<close>

locale object_client =
  fixes K :: "'s k8s" and M :: meta_libs and cl :: "'c client" and kind :: GroupVersionKind
    and inv :: "'c \<Rightarrow> bool" and lookup :: "'c \<Rightarrow> GroupVersionKind \<Rightarrow> string \<rightharpoonup> object" and like :: "object \<Rightarrow> object \<Rightarrow> bool"
  assumes laws: "inv c \<Longrightarrow> target_laws K M \<and> accessor_laws K \<and> IsViewKind kind
      \<and> CHR ''/'' \<notin> set (gvk_Group kind) \<and> CHR ''/'' \<notin> set (gvk_Version kind)"
    and lookup_ok: "inv c \<Longrightarrow> lookup c kind k = Some x \<Longrightarrow> meta_ok x"
    and get: "inv c \<Longrightarrow> u_gvk K obj = kind \<Longrightarrow> \<exists>c'. inv c' \<and> lookup c' = lookup c
      \<and> c_Get cl obj c = (case lookup c kind (store_key K obj) of
          None \<Rightarrow> (c', obj, Inl NotFound) | Some x \<Rightarrow> (c', Object_DeepCopy K x, Inr ()))"
    and create: "inv c \<Longrightarrow> u_gvk K obj = kind \<Longrightarrow> meta_ok obj \<Longrightarrow> \<exists>c' x. c_Create cl obj c = (c', obj, Inr ())
      \<and> inv c' \<and> lookup c' = (lookup c)(kind := (lookup c kind)(store_key K obj \<mapsto> x)) \<and> like x obj"
    and update: "inv c \<Longrightarrow> u_gvk K obj = kind \<Longrightarrow> meta_ok obj \<Longrightarrow> lookup c kind (store_key K obj) \<noteq> None \<Longrightarrow>
      \<exists>c' x. c_Update cl obj c = (c', obj, Inr ()) \<and> inv c' \<and> lookup c' = (lookup c)(kind := (lookup c kind)(store_key K obj \<mapsto> x)) \<and> like x obj"
    and delete: "inv c \<Longrightarrow> u_gvk K obj = kind \<Longrightarrow> \<exists>c'. inv c' \<and> lookup c' = (lookup c)(kind := (lookup c kind)(store_key K obj := None))
      \<and> c_Delete cl obj c = (c', if lookup c kind (store_key K obj) = None then Inl NotFound else Inr ())"
begin

lemma view_group: "inv c \<Longrightarrow> gvk_Group kind \<noteq> []"
  using laws [of c] by (auto simp: IsViewKind_iff IsViewGroup_def HasSuffix_def GroupSuffix_def)

lemma copy_ok: "inv c \<Longrightarrow> meta_ok x \<Longrightarrow> meta_ok (Object_DeepCopy K x)"
  using laws [of c] target_lawsD(3) by (auto simp: Object_DeepCopy_def)

text \<open>An upsert stores an object with the fields of the delta and its key; nothing else changes.\<close>

lemma write_upsert:
  assumes "inv c" and "d_Type delta \<in> {Added, Upserted, Updated, Replaced}" and "plain_object (d_Object delta)"
  shows "\<exists>c' x ob. target_update K M J cl kind delta c = (c', Inr ()) \<and> inv c'
    \<and> lookup c' = (lookup c)(kind := (lookup c kind)(store_key K (d_Object delta) \<mapsto> x)) \<and> like x ob \<and> same_fields ob (d_Object delta)"
proof -
  let ?new = "d_Object delta" and ?key = "store_key K (d_Object delta)"
  let ?f = "update_content K M kind ?new"
  note l = laws [OF assms(1)]
  have tl: "target_laws K M" and kind: "IsViewKind kind" and slash: "CHR ''/'' \<notin> set (gvk_Group kind)" "CHR ''/'' \<notin> set (gvk_Version kind)"
    "gvk_Group kind \<noteq> []"
    using l view_group [OF assms(1)] by blast+
  note tk = target_key_laws [OF tl slash, of ?new]
  have key0: "store_key K (target_key K kind ?new) = ?key" by (simp add: store_key_def tk)
  have f: "same_fields (?f ob) ?new" "u_gvk K (?f ob) = kind" "store_key K (?f ob) = ?key" "meta_ok (?f ob)"
    and mut: "mutate K (\<lambda>ob. Inr (?f ob)) (u_namespace K ?new, u_name K ?new) ob = Inr (?f ob)" if "meta_ok ob" for ob
    using update_content_laws [OF tl _ _ that slash] assms(3) by (simp_all add: store_key_def mutate_def plain_object_def sm_wf_distinct)
  obtain c1 where c1: "inv c1" "lookup c1 = lookup c" "c_Get cl (target_key K kind ?new) c = (case lookup c kind ?key of
      None \<Rightarrow> (c1, target_key K kind ?new, Inl NotFound) | Some x \<Rightarrow> (c1, Object_DeepCopy K x, Inr ()))"
    using get [OF assms(1) tk(1)] unfolding key0 by blast
  show ?thesis
  proof (cases "lookup c kind ?key")
    case None
    obtain c2 x where c2: "c_Create cl (?f (target_key K kind ?new)) c1 = (c2, ?f (target_key K kind ?new), Inr ())"
      "inv c2" "lookup c2 = (lookup c1)(kind := (lookup c1 kind)(?key \<mapsto> x))" "like x (?f (target_key K kind ?new))"
      using create [OF c1(1) f(2,4) [OF tk(4)]] unfolding f(3) [OF tk(4)] by blast
    have "CreateOrUpdate K M J cl (target_key K kind ?new) (\<lambda>ob. Inr (?f ob)) c = (c2, OperationResultCreated, Inr ())"
      using c1(3) None c2(1) mut [OF tk(4)] target_lawsD(16) [OF tl] by (simp add: CreateOrUpdate_def tk)
    then have "target_update K M J cl kind delta c = (c2, Inr ())"
      using assms(2) by (simp add: target_update_def Let_def ignore_not_found_def)
    then show ?thesis using c2 c1(2) f(1) [OF tk(4)] by metis
  next
    case (Some y)
    let ?ob = "?f (Object_DeepCopy K y)"
    have ok: "meta_ok (Object_DeepCopy K y)" using copy_ok [OF assms(1)] lookup_ok [OF assms(1) Some] by blast
    obtain c2 x where c2: "c_Update cl ?ob c1 = (c2, ?ob, Inr ())" "inv c2" "lookup c2 = (lookup c1)(kind := (lookup c1 kind)(?key \<mapsto> x))" "like x ?ob"
      using update [OF c1(1) f(2,4) [OF ok]] Some c1(2) unfolding f(3) [OF ok] by auto
    have "restore_status K J cl st ?ob c2 = (c2, ?ob, Inr ())" for st
      using kind f(2) [OF ok] by (simp add: restore_status_def isViewObject_def split: option.splits)
    then have "CreateOrUpdate K M J cl (target_key K kind ?new) (\<lambda>ob. Inr (?f ob)) c = (c2, OperationResultUpdated, Inr ())"
      using c1(3) Some c2(1) mut [OF ok] by (simp add: CreateOrUpdate_def update_branch_def tk)
    then have "target_update K M J cl kind delta c = (c2, Inr ())"
      using assms(2) by (simp add: target_update_def Let_def ignore_not_found_def)
    then show ?thesis using c2 c1(2) f(1) [OF ok] by metis
  qed
qed

lemma write_delete:
  assumes "inv c" and "d_Type delta = Deleted" and "u_gvk K (d_Object delta) = kind"
  shows "\<exists>c'. target_update K M J cl kind delta c = (c', Inr ()) \<and> inv c'
    \<and> lookup c' = (lookup c)(kind := (lookup c kind)(store_key K (d_Object delta) := None))"
  using delete [OF assms(1,3)] assms(2) target_lawsD(16) [of K M] laws [OF assms(1)]
  by (auto simp: target_update_def Let_def ignore_not_found_def)

end

section \<open>The client of the view cache\<close>

text \<open>
  The state is the cache with the calls it has made so far.
\<close>

definition logged :: "'h calls \<Rightarrow> object \<Rightarrow> ('s, 'h) ViewCache \<times> 'h calls \<times> unit res \<Rightarrow> (('s, 'h) ViewCache \<times> 'h calls) \<times> object \<times> unit res" where
  "logged log obj r = (case r of (c, calls, res) \<Rightarrow> ((c, log @ calls), obj, res))"

definition view_client :: "'s k8s \<Rightarrow> ('l, 'f) cache_libs \<Rightarrow> client_libs \<Rightarrow> (('s, 'h) ViewCache \<times> 'h calls) client" where
  "view_client K L J = \<lparr>
     c_Get = (\<lambda>obj (c, log). case Get_view K (u_namespace K obj) (u_name K obj) (u_gvk K obj) c of
        (c', Inl err) \<Rightarrow> ((c', log), obj, Inl err) | (c', Inr x) \<Rightarrow> ((c', log), x, Inr ())),
     c_Create = (\<lambda>obj (c, log). logged log obj (Client_Create K obj c)),
     c_Update = (\<lambda>obj (c, log). logged log obj (Client_Update K L obj c)),
     c_StatusUpdate = (\<lambda>obj (c, log). logged log obj (SubResource_Update K L J ''status'' obj c)),
     c_Delete = (\<lambda>obj (c, log). case Client_Delete K obj c of (c', calls, r) \<Rightarrow> ((c', log @ calls), r))\<rparr>"

text \<open>The kind of a view of an operator, the laws, and a cache whose objects have proper metadata.\<close>

definition view_kind_ok :: "GroupVersionKind \<Rightarrow> bool" where
  "view_kind_ok kind \<longleftrightarrow> (\<exists>oper view. kind = ViewGroupVersionKind oper view \<and> CHR ''.'' \<notin> set oper \<and> CHR ''/'' \<notin> set oper)"

definition view_inv :: "'s k8s \<Rightarrow> meta_libs \<Rightarrow> GroupVersionKind \<Rightarrow> ('s, 'h) ViewCache \<times> 'h calls \<Rightarrow> bool" where
  "view_inv K M kind s \<longleftrightarrow> cache_laws K \<and> target_laws K M \<and> view_kind_ok kind \<and> healthy (fst s)
     \<and> (\<forall>k x. view_contents K (fst s) kind k = Some x \<longrightarrow> meta_ok x)"

definition view_lookup :: "'s k8s \<Rightarrow> ('s, 'h) ViewCache \<times> 'h calls \<Rightarrow> GroupVersionKind \<Rightarrow> string \<rightharpoonup> object" where
  "view_lookup K s = view_contents K (fst s)"

definition view_like :: "'s k8s \<Rightarrow> ('l, 'f) cache_libs \<Rightarrow> object \<Rightarrow> object \<Rightarrow> bool" where
  "view_like K L x obj \<longleftrightarrow> x = stored K obj \<or> SemanticDeepEqual L (Object_DeepCopy K x) obj
     \<or> SemanticDeepEqual L (Object_DeepCopy K x) (stored K obj)"

lemma view_kind_okD:
  assumes "view_kind_ok kind"
  shows "IsViewKind kind" "CHR ''/'' \<notin> set (gvk_Group kind)" "CHR ''/'' \<notin> set (gvk_Version kind)" "gvk_Group kind \<noteq> []"
    "ViewGroupVersionKind (GetOperator kind) (gvk_Kind kind) = kind"
proof -
  obtain oper view where kind: "kind = ViewGroupVersionKind oper view" "CHR ''.'' \<notin> set oper" "CHR ''/'' \<notin> set oper"
    using assms by (auto simp: view_kind_ok_def)
  have g: "gvk_Group kind = Group oper" "gvk_Version kind = ViewVersion" "gvk_Kind kind = view"
    by (simp_all add: kind(1) ViewGroupVersionKind_def ViewGroupVersion_def Let_def)
  show "IsViewKind kind" by (simp add: IsViewKind_iff g)
  show "CHR ''/'' \<notin> set (gvk_Group kind)" "CHR ''/'' \<notin> set (gvk_Version kind)" "gvk_Group kind \<noteq> []"
    using kind(3) by (simp_all add: g Group_def GroupSuffix_def ViewVersion_def)
  have "GetOperator kind = last (split_on CHR ''.'' oper)"
    using GetOperator_prefix [of oper "gvk_Version kind" "gvk_Kind kind"] g(1) by (simp add: Group_full GetOperator_def)
  then show "ViewGroupVersionKind (GetOperator kind) (gvk_Kind kind) = kind"
    using kind(2) by (simp add: split_on_none ViewGroupVersionKind_def ViewGroupVersion_def Let_def kind(1))
qed

lemma lookup_kind_same:
  assumes "target_laws K M" and "view_kind_ok (u_gvk K obj)"
  shows "u_gvk K (SetName K (NewViewObject K (Object_GetOperator K obj) (u_kind K obj)) ns name) = u_gvk K obj"
  using target_lawsD(1,4) [OF assms(1)] view_kind_okD [OF assms(2)]
    meta_setterD(1) [OF target_lawsD(5) [OF assms(1)]] meta_setterD(1) [OF target_lawsD(6) [OF assms(1)]]
  by (simp add: SetName_def NewViewObject_def Object_GetOperator_def)

lemma stored_ok: "target_laws K M \<Longrightarrow> meta_ok obj \<Longrightarrow> meta_ok (stored K obj)"
  using target_lawsD(3) [of K M obj] meta_setterD(3) [OF target_lawsD(7) [of K M]]
  by (simp add: stored_def WithUID_def Object_DeepCopy_def Let_def)

lemma view_contents_ok:
  assumes "view_contents K c' = (view_contents K c)(kind := (view_contents K c kind)(key := v))"
    and "\<forall>k x. view_contents K c kind k = Some x \<longrightarrow> meta_ok x" and "\<And>x. v = Some x \<Longrightarrow> meta_ok x"
  shows "\<forall>k x. view_contents K c' kind k = Some x \<longrightarrow> meta_ok x"
  using assms by auto

lemma Client_Update_view:
  assumes "view_inv K M (u_gvk K obj) (c, log)" and "view_contents K c (u_gvk K obj) (store_key K obj) = Some y" and "meta_ok obj"
  shows "\<exists>c' calls x. Client_Update K L obj c = (c', calls, Inr ()) \<and> healthy c' \<and> meta_ok x \<and> view_like K L x obj
    \<and> view_contents K c' = (view_contents K c)(u_gvk K obj := (view_contents K c (u_gvk K obj))(store_key K obj \<mapsto> x))"
proof -
  let ?kind = "u_gvk K obj"
  have inv: "cache_laws K" "target_laws K M" "view_kind_ok ?kind" "healthy c" "meta_ok y"
    using assms(1,2) by (auto simp: view_inv_def)
  note kind = view_kind_okD [OF inv(3)]
  obtain c1 where c1: "Get_view K (u_namespace K obj) (u_name K obj) ?kind c = (c1, Inr (Object_DeepCopy K y))"
      "healthy c1" "view_contents K c1 = view_contents K c"
    using Get_view_contents [OF inv(1) kind(1) inv(4), of "u_namespace K obj" "u_name K obj"] assms(2) by (auto simp: cache_key_store)
  have same: "view_contents K c = (view_contents K c)(?kind := (view_contents K c ?kind)(store_key K obj \<mapsto> y))"
    using assms(2) by (auto simp: fun_eq_iff)
  note upd = lookup_kind_same [OF inv(2,3), of "u_namespace K obj" "u_name K obj"]
  show ?thesis
  proof (cases "SemanticDeepEqual L (Object_DeepCopy K y) obj \<or> SemanticDeepEqual L (Object_DeepCopy K y) (stored K obj)")
    case True
    then have "Client_Update K L obj c = (c1, [], Inr ())"
      using c1(1) upd Update_view_writes [OF inv(1) kind(1) c1(2), of L "Object_DeepCopy K y"] by (auto simp: Client_Update_def Let_def)
    with True c1 same inv(5) show ?thesis unfolding view_like_def by metis
  next
    case False
    then have "Client_Update K L obj c = Update_view K L (Object_DeepCopy K y) obj c1" using c1(1) upd by (simp add: Client_Update_def Let_def)
    with False Update_view_writes [OF inv(1) kind(1) c1(2), of L "Object_DeepCopy K y"] c1(3) stored_ok [OF inv(2) assms(3)]
    show ?thesis by (auto simp: writes_def view_like_def)
  qed
qed

interpretation view_target: object_client K M "view_client K L J" kind "view_inv K M kind" "view_lookup K" "view_like K L"
  for K :: "'s k8s" and M and L :: "('l, 'f) cache_libs" and J kind
proof
  fix c :: "('s, 'h) ViewCache \<times> 'h calls" and obj k x
  obtain c0 log where c: "c = (c0, log)" by force
  assume inv: "view_inv K M kind c"
  then have laws: "cache_laws K" "target_laws K M" "view_kind_ok kind" "healthy c0" "\<forall>k x. view_contents K c0 kind k = Some x \<longrightarrow> meta_ok x"
    by (auto simp: view_inv_def c)
  note kind = view_kind_okD [OF laws(3)]
  show "target_laws K M \<and> accessor_laws K \<and> IsViewKind kind \<and> CHR ''/'' \<notin> set (gvk_Group kind) \<and> CHR ''/'' \<notin> set (gvk_Version kind)"
    using laws kind by (simp add: cache_laws_def k8s_laws_def)
  show "meta_ok x" if "view_lookup K c kind k = Some x" using that laws(5) by (simp add: view_lookup_def c)
  assume obj: "u_gvk K obj = kind"
  show "\<exists>c'. view_inv K M kind c' \<and> view_lookup K c' = view_lookup K c
      \<and> c_Get (view_client K L J) obj c = (case view_lookup K c kind (store_key K obj) of
          None \<Rightarrow> (c', obj, Inl NotFound) | Some x \<Rightarrow> (c', Object_DeepCopy K x, Inr ()))"
    using Get_view_contents [OF laws(1) kind(1) laws(4), of "u_namespace K obj" "u_name K obj"] inv
    by (auto simp: view_client_def c obj cache_key_store view_lookup_def view_inv_def split: option.splits)
  show "\<exists>c'. view_inv K M kind c' \<and> view_lookup K c' = (view_lookup K c)(kind := (view_lookup K c kind)(store_key K obj := None))
      \<and> c_Delete (view_client K L J) obj c = (c', if view_lookup K c kind (store_key K obj) = None then Inl NotFound else Inr ())"
    using Delete_view_writes [OF laws(1) _ laws(4), of obj] kind(1) laws view_contents_ok [OF _ laws(5), where v = None]
    by (auto simp: view_client_def c obj Client_Delete_def writes_def view_lookup_def view_inv_def fun_eq_iff
        split: option.splits)
  assume ok: "meta_ok obj"
  show "\<exists>c' x. c_Create (view_client K L J) obj c = (c', obj, Inr ()) \<and> view_inv K M kind c'
      \<and> view_lookup K c' = (view_lookup K c)(kind := (view_lookup K c kind)(store_key K obj \<mapsto> x)) \<and> view_like K L x obj"
    using Add_view_writes [OF laws(1) _ laws(4), of obj] kind(1) laws stored_ok [OF laws(2) ok]
    by (auto simp: view_client_def c obj Client_Create_def writes_def view_lookup_def view_inv_def logged_def view_like_def)
  assume "view_lookup K c kind (store_key K obj) \<noteq> None"
  then show "\<exists>c' x. c_Update (view_client K L J) obj c = (c', obj, Inr ()) \<and> view_inv K M kind c'
      \<and> view_lookup K c' = (view_lookup K c)(kind := (view_lookup K c kind)(store_key K obj \<mapsto> x)) \<and> view_like K L x obj"
    using Client_Update_view [where L = L, of K M obj c0 log, OF _ _ ok] inv laws
    by (fastforce simp: view_client_def c obj view_lookup_def view_inv_def logged_def)
qed

text \<open>
  Semantic equality compares objects field by field: \<open>R\<close> relates the values it identifies.
\<close>

definition equal_upto :: "('l, 'f) cache_libs \<Rightarrow> (gval \<Rightarrow> gval \<Rightarrow> bool) \<Rightarrow> bool" where
  "equal_upto L R \<longleftrightarrow> reflp R \<and> (\<forall>a b k. SemanticDeepEqual L a b \<longrightarrow> rel_option R (map_of a k) (map_of b k))"

lemma stored_fields: "target_laws K M \<Longrightarrow> same_fields (stored K obj) obj" "target_laws K M \<Longrightarrow> same_fields (Object_DeepCopy K obj) obj"
  using target_lawsD(2) [of K M] meta_setterD(2) [OF target_lawsD(7) [of K M]]
  by (simp_all add: stored_def WithUID_def Object_DeepCopy_def Let_def same_fields_def)

lemma view_like_fields:
  assumes "target_laws K M" and "equal_upto L R" and "view_like K L x obj" and "k \<notin> special"
  shows "rel_option R (map_of x k) (map_of obj k)"
proof -
  have R: "reflp R" "SemanticDeepEqual L a b \<Longrightarrow> rel_option R (map_of a k) (map_of b k)" for a b
    using assms(2) by (auto simp: equal_upto_def)
  have "map_of (stored K obj) k = map_of obj k" "map_of (Object_DeepCopy K x) k = map_of x k"
    using stored_fields [OF assms(1)] assms(4) by (simp_all add: same_fields_def)
  then show ?thesis
    using assms(3) R(2) [of "Object_DeepCopy K x" obj] R(2) [of "Object_DeepCopy K x" "stored K obj"] R(1)
    by (auto simp: view_like_def option.rel_reflp [THEN reflpD])
qed

section \<open>Writing to a view\<close>

text \<open>An updating target that is a view of the operator, and its kind.\<close>

definition view_target_ok :: "string \<Rightarrow> Target \<Rightarrow> bool" where
  "view_target_ok oper t \<longleftrightarrow> rs_Kind (tg_Resource t) \<noteq> [] \<and> rs_Group (tg_Resource t) \<in> {None, Some (Group oper)}
     \<and> CHR ''.'' \<notin> set oper \<and> CHR ''/'' \<notin> set oper \<and> tg_Type t \<in> {''Updater'', []}"

definition target_kind :: "string \<Rightarrow> Target \<Rightarrow> GroupVersionKind" where
  "target_kind oper t = ViewGroupVersionKind oper (rs_Kind (tg_Resource t))"

definition fields_like :: "(gval \<Rightarrow> gval \<Rightarrow> bool) \<Rightarrow> object \<Rightarrow> object \<Rightarrow> bool" where
  "fields_like R x obj \<longleftrightarrow> (\<forall>k. k \<notin> {''metadata'', ''apiVersion'', ''kind''} \<longrightarrow> rel_option R (map_of x k) (map_of obj k))"

lemma target_GetGVK: "view_target_ok oper t \<Longrightarrow> GetGVK KindFor oper (tg_Resource t) = Inr (target_kind oper t)"
  by (auto simp: view_target_ok_def target_kind_def GetGVK_def getGVKByGroupKind_def ViewGroupVersionKind_def ViewGroupVersion_def Let_def)

lemma target_kind_ok: "view_target_ok oper t \<Longrightarrow> view_kind_ok (target_kind oper t)"
  by (auto simp: view_target_ok_def target_kind_def view_kind_ok_def)

lemma Target_Write_updates:
  assumes "view_target_ok oper t"
  shows "Target_Write K M J cl steps KindFor oper t (Some \<lparr>d_Object = obj, d_Type = ty\<rparr>) original c
    = target_update K M J cl (target_kind oper t)
        \<lparr>d_Object = u_set_gvk K (target_kind oper t) (Object_DeepCopy K obj), d_Type = ty\<rparr> c"
  using target_GetGVK [OF assms] assms by (auto simp: Target_Write_def view_target_ok_def Let_def)

lemma written_object:
  assumes "accessor_laws K" and "target_laws K M" and "view_kind_ok gvk"
  shows "plain_object obj \<Longrightarrow> plain_object (u_set_gvk K gvk (Object_DeepCopy K obj))" "u_gvk K (u_set_gvk K gvk (Object_DeepCopy K obj)) = gvk"
    "same_fields (u_set_gvk K gvk (Object_DeepCopy K obj)) obj"
    "store_key K (u_set_gvk K gvk (Object_DeepCopy K obj)) = store_key K obj"
  using target_lawsD(1,2,17) [OF assms(2)] view_kind_okD [OF assms(3)] accessor_lawsD [OF assms(1)]
  by (simp_all add: Object_DeepCopy_def same_fields_def store_key_def)

text \<open>Writing a delta to a view, for every client with the contract.\<close>

context object_client
begin

lemma Target_upsert:
  assumes "view_target_ok oper t" and "kind = target_kind oper t" and "inv c"
    and "\<And>x ob k. like x ob \<Longrightarrow> k \<notin> special \<Longrightarrow> rel_option R (map_of x k) (map_of ob k)"
    and "plain_object obj" and "ty \<in> {Added, Upserted, Updated, Replaced}"
  shows "\<exists>c' x. Target_Write K M J cl steps KindFor oper t (Some \<lparr>d_Object = obj, d_Type = ty\<rparr>) original c = (c', Inr ())
    \<and> inv c' \<and> fields_like R x obj \<and> lookup c' = (lookup c)(kind := (lookup c kind)(store_key K obj \<mapsto> x))"
proof -
  let ?delta = "\<lparr>d_Object = u_set_gvk K kind (Object_DeepCopy K obj), d_Type = ty\<rparr>"
  note l = laws [OF assms(3)]
  note obj = written_object [of K M kind obj] l target_kind_ok [OF assms(1), folded assms(2)]
  have "\<exists>c' x ob. target_update K M J cl kind ?delta c = (c', Inr ()) \<and> inv c'
      \<and> lookup c' = (lookup c)(kind := (lookup c kind)(store_key K (d_Object ?delta) \<mapsto> x)) \<and> like x ob \<and> same_fields ob (d_Object ?delta)"
    using assms(5,6) obj by (intro write_upsert [OF assms(3)]) simp_all
  then obtain c' x ob where w: "target_update K M J cl kind ?delta c = (c', Inr ())" "inv c'"
    "lookup c' = (lookup c)(kind := (lookup c kind)(store_key K obj \<mapsto> x))"
    and x: "like x ob" "same_fields ob (u_set_gvk K kind (Object_DeepCopy K obj))"
    using obj by auto
  have "rel_option R (map_of x k) (map_of obj k)" if "k \<notin> special" for k
    using assms(4) [OF x(1) that] x(2) obj that by (simp add: same_fields_def)
  then have "fields_like R x obj" by (simp add: fields_like_def special_def)
  with w show ?thesis unfolding Target_Write_updates [OF assms(1)] assms(2) by blast
qed

lemma Target_delete:
  assumes "view_target_ok oper t" and "kind = target_kind oper t" and "inv c"
  shows "\<exists>c'. Target_Write K M J cl steps KindFor oper t (Some \<lparr>d_Object = obj, d_Type = Deleted\<rparr>) original c = (c', Inr ())
    \<and> inv c' \<and> lookup c' = (lookup c)(kind := (lookup c kind)(store_key K obj := None))"
proof -
  let ?delta = "\<lparr>d_Object = u_set_gvk K kind (Object_DeepCopy K obj), d_Type = Deleted\<rparr>"
  note obj = written_object [of K M kind obj] laws [OF assms(3)] target_kind_ok [OF assms(1), folded assms(2)]
  have "\<exists>c'. target_update K M J cl kind ?delta c = (c', Inr ()) \<and> inv c'
      \<and> lookup c' = (lookup c)(kind := (lookup c kind)(store_key K (d_Object ?delta) := None))"
    using obj by (intro write_delete [OF assms(3)]) simp_all
  then show ?thesis unfolding Target_Write_updates [OF assms(1)] using obj assms(2) by simp
qed

end

lemma Target_Write_upsert:
  assumes "view_target_ok oper t" and "view_inv K M (target_kind oper t) s" and "equal_upto L R"
    and "plain_object obj" and "ty \<in> {Added, Upserted, Updated, Replaced}"
  shows "\<exists>s' x. Target_Write K M J (view_client K L J) steps KindFor oper t (Some \<lparr>d_Object = obj, d_Type = ty\<rparr>) original s = (s', Inr ())
    \<and> view_inv K M (target_kind oper t) s' \<and> fields_like R x obj
    \<and> view_lookup K s' = (view_lookup K s)(target_kind oper t := (view_lookup K s (target_kind oper t))(store_key K obj \<mapsto> x))"
proof (rule view_target.Target_upsert [OF assms(1) refl assms(2) _ assms(4,5)])
  have "target_laws K M" using assms(2) by (simp add: view_inv_def)
  then show "rel_option R (map_of x k) (map_of ob k)" if "view_like K L x ob" "k \<notin> special" for x ob k
    using view_like_fields assms(3) that by blast
qed

lemma Target_Write_delete:
  assumes "view_target_ok oper t" and "view_inv K M (target_kind oper t) s"
  shows "\<exists>s'. Target_Write K M J (view_client K L J) steps KindFor oper t (Some \<lparr>d_Object = obj, d_Type = Deleted\<rparr>) original s = (s', Inr ())
    \<and> view_inv K M (target_kind oper t) s'
    \<and> view_lookup K s' = (view_lookup K s)(target_kind oper t := (view_lookup K s (target_kind oper t))(store_key K obj := None))"
  by (rule view_target.Target_delete [OF assms(1) refl assms(2)])

end
