(* ===== verification/Meta_Samples.thy ===== *)
theory Meta_Samples
  imports Target_Laws View_Cache_Properties
begin

text \<open>
  A concrete instance of the accessors of metadata and nested fields, on which the laws of
  targets are discharged.
\<close>

definition set_meta_map :: "string \<Rightarrow> (string \<times> string) list \<Rightarrow> object \<Rightarrow> object" where
  "set_meta_map f ls obj =
     (let v = VMap (map (\<lambda>(k, s). (k, VStr s)) ls) in
      case map_of obj ''metadata'' of
        Some (VMap m) \<Rightarrow> sm_set ''metadata'' (VMap (sm_set f v m)) obj
      | None \<Rightarrow> sm_set ''metadata'' (VMap [(f, v)]) obj
      | Some _ \<Rightarrow> obj)"

definition meta_strings :: "string \<Rightarrow> object \<Rightarrow> (string \<times> string) list option" where
  "meta_strings f obj = (case map_of (meta_of obj) f of
     Some (VMap ls) \<Rightarrow> Some (List.map_filter (\<lambda>(k, v). case v of VStr s \<Rightarrow> Some (k, s) | _ \<Rightarrow> None) ls) | _ \<Rightarrow> None)"

fun set_nested :: "gval \<Rightarrow> string list \<Rightarrow> doc \<Rightarrow> doc res" where
  "set_nested v [] d = Inl (Error ''no path'')"
| "set_nested v [k] d = Inr (sm_set k v d)"
| "set_nested v (k # ks) d =
     (case map_of d k of
        None \<Rightarrow> bind (set_nested v ks []) (\<lambda>m. Inr (sm_set k (VMap m) d))
      | Some (VMap m) \<Rightarrow> bind (set_nested v ks m) (\<lambda>m'. Inr (sm_set k (VMap m') d))
      | Some _ \<Rightarrow> Inl (Error ''not a map''))"

definition list_meta :: meta_libs where
  "list_meta = \<lparr>
     GetLabels = meta_strings ''labels'', SetLabels = set_meta_map ''labels'',
     GetAnnotations = meta_strings ''annotations'', SetAnnotations = set_meta_map ''annotations'',
     GetResourceVersion = (\<lambda>obj. field_str ''resourceVersion'' (meta_of obj)), SetResourceVersion = set_meta ''resourceVersion'',
     HasField = (\<lambda>d k. map_of d k \<noteq> None), RemoveNestedField = sm_del, SetNestedField = set_nested,
     IsNotFound = (\<lambda>err. err = NotFound), IsConflict = (\<lambda>err. err = Error ''conflict'')\<rparr>"

lemma api_gvk_kind: "gvk_Group (api_gvk obj) \<noteq> [] \<Longrightarrow> field_str ''kind'' obj = gvk_Kind (api_gvk obj)"
  by (auto simp: api_gvk_def Let_def split: list.splits)

lemma set_api_gvk:
  assumes "CHR ''/'' \<notin> set (gvk_Group gvk)" "CHR ''/'' \<notin> set (gvk_Version gvk)" "gvk_Group gvk \<noteq> []"
  shows "api_gvk (set_api gvk obj) = gvk"
  using assms by (simp add: api_gvk_def set_api_def Let_def split_on_none split_on_append)

lemma json_sm_set: "\<forall>(k, v) \<in> set m. json_like v \<Longrightarrow> json_like w \<Longrightarrow> \<forall>(k, v) \<in> set (sm_set j w m). json_like v"
  by (induction j w m rule: sm_set.induct) auto

lemma set_api_plain: "same_fields (set_api gvk obj) obj" "meta_ok obj \<Longrightarrow> meta_ok (set_api gvk obj)" "plain_object obj \<Longrightarrow> plain_object (set_api gvk obj)"
proof -
  show ok: "same_fields (set_api gvk obj) obj" "meta_ok obj \<Longrightarrow> meta_ok (set_api gvk obj)"
    by (simp_all add: set_api_def same_fields_def special_def meta_ok_def)
  assume p: "plain_object obj"
  then have "\<forall>(k, v) \<in> set (set_api gvk obj). json_like v" unfolding set_api_def plain_object_def by (intro json_sm_set) simp_all
  moreover have "sm_wf (set_api gvk obj)" using p by (simp add: plain_object_def set_api_def)
  ultimately show "plain_object (set_api gvk obj)" using ok(2) p by (simp add: plain_object_def)
qed

text \<open>An operation that replaces the metadata by a JSON map, or does nothing.\<close>

lemma metadata_setter:
  assumes "\<And>obj. f obj = obj \<or> (\<exists>m. f obj = sm_set ''metadata'' (VMap m) obj \<and> (plain_object obj \<longrightarrow> json_like (VMap m)))"
  shows "meta_setter list_k8s f"
proof -
  have other: "k \<noteq> ''metadata'' \<Longrightarrow> map_of (f obj) k = map_of obj k" for obj k using assms [of obj] by auto
  then have "api_gvk (f obj) = api_gvk obj" for obj by (simp add: api_gvk_def field_str_def)
  moreover have ok: "meta_ok obj \<Longrightarrow> meta_ok (f obj)" for obj using assms [of obj] by (auto simp: meta_ok_def)
  moreover have "plain_object (f obj)" if obj: "plain_object obj" for obj
  proof -
    consider "f obj = obj" | m where "f obj = sm_set ''metadata'' (VMap m) obj" "json_like (VMap m)" using assms [of obj] obj by blast
    then show ?thesis
    proof cases
      case 2
      then have "\<forall>(k, v) \<in> set (f obj). json_like v" "sm_wf (f obj)"
        using obj json_sm_set [of obj "VMap m" "''metadata''"] unfolding plain_object_def by (simp_all del: json_like.simps)
      then show ?thesis using obj ok [of obj] by (simp add: plain_object_def)
    qed (simp add: obj)
  qed
  ultimately show ?thesis using other by (simp add: meta_setter_def list_k8s_def same_fields_def special_def)
qed

lemma json_like_entries: "json_like (VMap m) \<longleftrightarrow> (\<forall>(k, v) \<in> set m. json_like v)"
  by (force simp: list_all_iff)

lemma plain_metadata: "plain_object obj \<Longrightarrow> map_of obj ''metadata'' = Some (VMap m) \<Longrightarrow> \<forall>(k, v) \<in> set m. json_like v"
  using json_like_VMap [of obj "''metadata''" "VMap m"] map_of_SomeD [of obj "''metadata''" "VMap m"]
  unfolding plain_object_def json_like_entries [symmetric] by blast

lemma json_sm_del: "\<forall>(k, v) \<in> set m. json_like v \<Longrightarrow> \<forall>(k, v) \<in> set (sm_del j m). json_like v"
  by (auto simp: sm_del_def)

lemma set_meta_setter: "meta_setter list_k8s (set_meta f v)" "meta_setter list_k8s (set_meta_map f ls)"
proof -
  let ?ls = "VMap (map (\<lambda>(k, s). (k, VStr s)) ls)"
  have ls: "json_like ?ls" unfolding json_like_entries by auto
  show "meta_setter list_k8s (set_meta f v)"
  proof (rule metadata_setter)
    fix obj
    consider m where "map_of obj ''metadata'' = Some (VMap m)" | "map_of obj ''metadata'' = None"
      | w where "map_of obj ''metadata'' = Some w" "\<And>m. w \<noteq> VMap m" by blast
    then show "set_meta f v obj = obj \<or> (\<exists>m. set_meta f v obj = sm_set ''metadata'' (VMap m) obj \<and> (plain_object obj \<longrightarrow> json_like (VMap m)))"
    proof cases
      case (1 m)
      have "json_like (VMap (sm_del f m))" "json_like (VMap (sm_set f (VStr v) m))" if "plain_object obj"
        unfolding json_like_entries
        by (rule json_sm_del [OF plain_metadata [OF that 1]], rule json_sm_set [OF plain_metadata [OF that 1] json_like.simps(5) [THEN iffD2, OF TrueI]])
      then have "plain_object obj \<longrightarrow> json_like (VMap (if v = [] then sm_del f m else sm_set f (VStr v) m))" by (simp del: json_like.simps)
      moreover have "set_meta f v obj = sm_set ''metadata'' (VMap (if v = [] then sm_del f m else sm_set f (VStr v) m)) obj"
        by (simp add: set_meta_def 1)
      ultimately show ?thesis by blast
    next
      case 2
      have "json_like (VMap [(f, VStr v)])" by simp
      moreover have "set_meta f v obj = (if v = [] then obj else sm_set ''metadata'' (VMap [(f, VStr v)]) obj)" by (simp add: set_meta_def 2)
      ultimately show ?thesis by (cases "v = []") (simp_all del: json_like.simps, blast)
    next
      case (3 w)
      then have "set_meta f v obj = obj" by (cases w) (auto simp: set_meta_def)
      then show ?thesis ..
    qed
  qed
  show "meta_setter list_k8s (set_meta_map f ls)"
  proof (rule metadata_setter)
    fix obj
    consider m where "map_of obj ''metadata'' = Some (VMap m)" | "map_of obj ''metadata'' = None"
      | w where "map_of obj ''metadata'' = Some w" "\<And>m. w \<noteq> VMap m" by blast
    then show "set_meta_map f ls obj = obj \<or> (\<exists>m. set_meta_map f ls obj = sm_set ''metadata'' (VMap m) obj \<and> (plain_object obj \<longrightarrow> json_like (VMap m)))"
    proof cases
      case (1 m)
      have "plain_object obj \<longrightarrow> json_like (VMap (sm_set f ?ls m))"
        unfolding json_like_entries using plain_metadata [OF _ 1] json_sm_set [of m ?ls f] ls by blast
      moreover have "set_meta_map f ls obj = sm_set ''metadata'' (VMap (sm_set f ?ls m)) obj" by (simp add: set_meta_map_def 1)
      ultimately show ?thesis by blast
    next
      case 2
      have "json_like (VMap [(f, ?ls)])" using ls by (simp add: json_like_entries del: json_like.simps)
      moreover have "set_meta_map f ls obj = sm_set ''metadata'' (VMap [(f, ?ls)]) obj" by (simp add: set_meta_map_def 2)
      ultimately show ?thesis by blast
    next
      case (3 w)
      then have "set_meta_map f ls obj = obj" by (cases w) (auto simp: set_meta_map_def)
      then show ?thesis ..
    qed
  qed
qed

lemma set_meta_reads: "meta_ok obj \<Longrightarrow> field_str f (meta_of (set_meta f v obj)) = v"
  by (auto simp: meta_ok_def set_meta_def meta_of_def field_str_def split: option.splits gval.splits)

lemma list_target_laws: "target_laws list_k8s list_meta"
  using set_meta_setter unfolding target_laws_def
  by (simp add: list_k8s_def list_meta_def set_api_gvk set_api_plain api_gvk_kind set_meta_reads set_meta_keeps)

end
