(* ===== verification/Delete_Patch.thy ===== *)
theory Delete_Patch
  imports Target_Laws
begin

text \<open>
  The patch by which a patching target deletes (\<^verbatim>\<open>removeNestedMap\<close> with the identity of the object put
  back): its entries, what patching an object with it leaves at every path, and the object that
  \<^verbatim>\<open>target.patch\<close> hands to the update.
\<close>

text \<open>The value at a path of keys.\<close>

fun value_at :: "gval \<Rightarrow> string list \<Rightarrow> gval option" where
  "value_at v [] = Some v"
| "value_at (VMap m) (k # path) = (case map_of m k of Some v \<Rightarrow> value_at v path | None \<Rightarrow> None)"
| "value_at _ (k # path) = None"

text \<open>The document says nothing about the path: it has no entry, or a null, somewhere along it.\<close>

fun silent_at :: "gval \<Rightarrow> string list \<Rightarrow> bool" where
  "silent_at (VMap m) (k # path) = (case map_of m k of None \<Rightarrow> True | Some v \<Rightarrow> v = VNil \<or> silent_at v path)"
| "silent_at _ _ = False"

definition scalar :: "gval \<Rightarrow> bool" where
  "scalar v \<longleftrightarrow> (case v of VBool _ \<Rightarrow> True | VInt _ \<Rightarrow> True | VFloat _ \<Rightarrow> True | VStr _ \<Rightarrow> True | _ \<Rightarrow> False)"

text \<open>The entry of a delete-patch for an entry of the object.\<close>

definition removal :: "gval \<Rightarrow> gval option" where
  "removal v = (case v of VMap x \<Rightarrow> Some (VMap (removeNestedMap x)) | VList x \<Rightarrow> Some (VList (removeNestedList x))
     | _ \<Rightarrow> if scalar v then Some VNil else None)"

lemma removeNestedMap_Cons:
  "removeNestedMap ((k, v) # m) = (case removal v of Some w \<Rightarrow> (k, w) # removeNestedMap m | None \<Rightarrow> removeNestedMap m)"
  by (cases v) (simp_all add: removal_def scalar_def)

declare removeNestedMap.simps(2) [simp del]

lemma keys_removeNestedMap: "keys (removeNestedMap m) \<subseteq> keys m"
  by (induction m) (force simp: removeNestedMap_Cons split: option.splits)+

lemma removeNestedMap_entries:
  "distinct (map fst m) \<Longrightarrow> map_of (removeNestedMap m) k = Option.bind (map_of m k) removal"
proof (induction m)
  case (Cons kv m)
  have "map_of (removeNestedMap m) (fst kv) = None" using Cons.prems keys_removeNestedMap [of m] by (auto simp: map_of_eq_None_iff)
  with Cons show ?case by (cases kv) (auto simp: removeNestedMap_Cons split: option.splits)
qed simp

lemma set_removeNestedMap: "(k, w) \<in> set (removeNestedMap m) \<Longrightarrow> \<exists>v. (k, v) \<in> set m \<and> removal v = Some w"
proof (induction m)
  case (Cons kv m)
  then show ?case by (cases kv) (fastforce simp: removeNestedMap_Cons split: option.splits)
qed simp

lemma removeNestedMap_wf: "sm_wf m \<Longrightarrow> sm_wf (removeNestedMap m)"
proof (induction m)
  case (Cons kv m)
  then show ?case using keys_removeNestedMap [of m]
    by (cases kv) (fastforce simp: removeNestedMap_Cons sm_wf_Cons split: option.splits)
qed simp

lemma removeNestedList_map: "removeNestedList xs = map (\<lambda>v. case removal v of Some w \<Rightarrow> w | None \<Rightarrow> VNil) xs"
  by (induction xs) (auto simp: removal_def split: gval.splits)

lemma json_like_list: "json_like (VList xs) \<longleftrightarrow> (\<forall>v \<in> set xs. json_like v)"
  by (simp add: list_all_iff)

lemma json_like_map: "json_like (VMap m) \<longleftrightarrow> (\<forall>k v. (k, v) \<in> set m \<longrightarrow> json_like v)"
  by (force simp: list_all_iff)

lemma removal_clean: "gwf v \<Longrightarrow> removal v = Some w \<Longrightarrow> gwf w \<and> no_float w \<and> json_like w"
proof (induction v arbitrary: w)
  case (VList xs)
  have w: "w = VList (map (\<lambda>v. case removal v of Some w \<Rightarrow> w | None \<Rightarrow> VNil) xs)"
    using VList.prems(2) by (simp add: removal_def removeNestedList_map)
  have "gwf w' \<and> no_float w' \<and> json_like w'" if "v \<in> set xs" "removal v = Some w'" for v w'
    using VList.IH [OF that(1) _ that(2)] VList.prems(1) that(1) by (simp add: list_all_iff)
  then show ?case by (auto simp: w json_like_list list_all_iff split: option.splits)
next
  case (VMap m)
  have w: "w = VMap (removeNestedMap m)" using VMap.prems(2) by (simp add: removal_def)
  have "gwf w' \<and> no_float w' \<and> json_like w'" if w': "(k, w') \<in> set (removeNestedMap m)" for k w'
  proof -
    obtain v where "(k, v) \<in> set m" "removal v = Some w'" using set_removeNestedMap [OF w'] by blast
    then show ?thesis using VMap.IH [of k v w'] VMap.prems(1) by auto
  qed
  then show ?case using VMap.prems(1) removeNestedMap_wf [of m] unfolding w json_like_map no_float_VMap gwf_VMap by blast
qed (auto simp: removal_def scalar_def)

text \<open>The delete-patch says null where the document has a scalar, and nothing where the document says nothing.\<close>

fun absent_at :: "gval \<Rightarrow> string list \<Rightarrow> bool" where
  "absent_at (VMap m) (k # path) = (case map_of m k of None \<Rightarrow> True | Some v \<Rightarrow> absent_at v path)"
| "absent_at _ _ = False"

lemma removal_paths:
  "gwf u \<Longrightarrow> value_at u path = Some v \<Longrightarrow> scalar v \<Longrightarrow> \<exists>w. removal u = Some w \<and> value_at w path = Some VNil"
proof (induction path arbitrary: u)
  case (Cons k path)
  then obtain m x where m: "u = VMap m" "map_of m k = Some x" "value_at x path = Some v"
    by (cases u) (auto split: option.splits)
  with Cons obtain w where "removal x = Some w" "value_at w path = Some VNil" by (metis gwf_VMap map_of_SomeD)
  with m Cons.prems(1) removeNestedMap_entries [OF sm_wf_distinct, of m k] show ?case by (simp add: removal_def)
qed (auto simp: removal_def scalar_def split: gval.splits)

lemma removal_silent:
  "gwf (VMap d) \<Longrightarrow> silent_at (VMap d) path \<Longrightarrow> absent_at (VMap (removeNestedMap d)) path"
proof (induction path arbitrary: d)
  case (Cons k path)
  have entry: "map_of (removeNestedMap d) k = Option.bind (map_of d k) removal"
    using Cons.prems(1) removeNestedMap_entries [OF sm_wf_distinct] by simp
  show ?case
  proof (cases "map_of d k")
    case (Some v)
    show ?thesis
    proof (cases "v = VNil")
      case False
      then have v: "silent_at v path" using Cons.prems(2) Some by simp
      then obtain m where m: "v = VMap m" by (cases v; cases path) auto
      have "gwf (VMap m)" using Cons.prems(1) map_of_SomeD [OF Some] m by (metis gwf_VMap)
      with Cons.IH [of m] v m Some show ?thesis by (simp add: entry removal_def)
    qed (simp add: entry Some removal_def scalar_def)
  qed (simp add: entry)
qed simp

section \<open>What a patch leaves at a path\<close>

definition clean_doc :: "gval \<Rightarrow> bool" where
  "clean_doc v \<longleftrightarrow> gwf v \<and> no_float v \<and> json_like v"

lemma clean_entry: "clean_doc (VMap m) \<Longrightarrow> map_of m k = Some v \<Longrightarrow> clean_doc v"
  using map_of_SomeD [of m k v] unfolding clean_doc_def json_like_map no_float_VMap gwf_VMap by blast

lemma clean_set:
  assumes "clean_doc (VMap m)" and "clean_doc v"
  shows "clean_doc (VMap (sm_set k v m))"
proof -
  have "w = v \<or> (\<exists>j. (j, w) \<in> set m)" if "(k', w) \<in> set (sm_set k v m)" for k' w
    using that snd_sm_set [of k v m] by force
  then show ?thesis
    using assms sm_wf_set [of m k v] unfolding clean_doc_def json_like_map gwf_VMap no_float_VMap by blast
qed

lemma clean_removal: "gwf (VMap d) \<Longrightarrow> clean_doc (VMap (removeNestedMap d))"
  using removal_clean [of "VMap d" "VMap (removeNestedMap d)"] by (simp add: clean_doc_def removal_def)

lemma patch_clean_maps:
  assumes "gwf (VMap a)" and "clean_doc (VMap b)"
  obtains r where "patch (VMap a) (VMap b) = VMap r" "sm_wf r" "a \<noteq> b \<Longrightarrow> map_of r = (\<lambda>k. patched (map_of a k) (map_of b k))"
    "a = b \<Longrightarrow> r = b"
  using assms patch_maps [of a b] by (metis clean_doc_def gwf_VMap)

lemma patch_null:
  "gwf (VMap a) \<Longrightarrow> clean_doc (VMap b) \<Longrightarrow> value_at (VMap b) path = Some VNil \<Longrightarrow>
    value_at (patch (VMap a) (VMap b)) path \<in> {None, Some VNil}"
proof (induction path arbitrary: a b)
  case (Cons k path)
  obtain r where r: "patch (VMap a) (VMap b) = VMap r" "a \<noteq> b \<Longrightarrow> map_of r = (\<lambda>k. patched (map_of a k) (map_of b k))" "a = b \<Longrightarrow> r = b"
    using patch_clean_maps [OF Cons.prems(1,2)] by blast
  obtain w where w: "map_of b k = Some w" "value_at w path = Some VNil" using Cons.prems(3) by (auto split: option.splits)
  note clean = clean_entry [OF Cons.prems(2) w(1)]
  show ?case
  proof (cases "a = b \<or> w = VNil")
    case True
    then show ?thesis using r w by (cases "a = b"; cases path) (auto simp: patched_def)
  next
    case False
    then obtain m where m: "w = VMap m" using w(2) by (cases w; cases path) auto
    have entry: "map_of r k = Some (case map_of a k of None \<Rightarrow> w | Some u \<Rightarrow> patch u w)"
      using r(2) False w(1) by (simp add: patched_def)
    show ?thesis
    proof (cases "\<exists>mo. map_of a k = Some (VMap mo)")
      case True
      then obtain mo where mo: "map_of a k = Some (VMap mo)" by blast
      then have "gwf (VMap mo)" using Cons.prems(1) map_of_SomeD [OF mo] by (metis gwf_VMap)
      then show ?thesis using Cons.IH [of mo m] clean w(2) entry mo m r(1) by simp
    next
      case False
      then have "patch u w = w" if "map_of a k = Some u" for u
        using that clean by (intro patch_replaces) (auto simp: clean_doc_def m)
      then show ?thesis using entry w(2) r(1) by (auto split: option.splits)
    qed
  qed
qed simp

lemma patch_absent:
  "gwf (VMap a) \<Longrightarrow> clean_doc (VMap b) \<Longrightarrow> absent_at (VMap b) path \<Longrightarrow> value_at (VMap a) path = Some v \<Longrightarrow>
    value_at (patch (VMap a) (VMap b)) path = Some v"
proof (induction path arbitrary: a b)
  case (Cons k path)
  obtain r where r: "patch (VMap a) (VMap b) = VMap r" "a \<noteq> b \<Longrightarrow> map_of r = (\<lambda>k. patched (map_of a k) (map_of b k))" "a = b \<Longrightarrow> r = b"
    using patch_clean_maps [OF Cons.prems(1,2)] by blast
  obtain u where u: "map_of a k = Some u" "value_at u path = Some v" using Cons.prems(4) by (auto split: option.splits)
  show ?case
  proof (cases "a = b \<or> map_of b k = None")
    case True
    then have "map_of r k = map_of a k" using r(2,3) by (cases "a = b") (auto simp: patched_def)
    then show ?thesis using u by (simp add: r(1))
  next
    case False
    then obtain w where w: "map_of b k = Some w" "absent_at w path" using Cons.prems(3) by auto
    obtain m mo where m: "w = VMap m" "u = VMap mo" using w(2) u(2) by (cases w; cases path; cases u) auto
    have "gwf (VMap mo)" using Cons.prems(1) map_of_SomeD [OF u(1)] m by (metis gwf_VMap)
    with Cons.IH [of mo m] clean_entry [OF Cons.prems(2) w(1)] w u False r(2) show ?thesis by (simp add: r(1) m patched_def)
  qed
qed simp

section \<open>The identity of the object\<close>

text \<open>The paths of the fields that identify an object, which a delete-patch puts back.\<close>

fun identity_path :: "string list \<Rightarrow> bool" where
  "identity_path [] = True"
| "identity_path [k] = (k \<in> {''apiVersion'', ''kind'', ''metadata''})"
| "identity_path (k # k' # path) = (k \<in> {''apiVersion'', ''kind''} \<or> k = ''metadata'' \<and> k' \<in> {''namespace'', ''name''})"

text \<open>
  What is assumed of the accessors: \<^verbatim>\<open>SetNestedField\<close> sets the field and makes the map it is in when
  there is none, and the setters of kind, name and namespace leave all other paths as they are.
\<close>

definition nested_laws :: "meta_libs \<Rightarrow> bool" where
  "nested_laws M \<longleftrightarrow>
     (\<forall>s k d. SetNestedField M (VStr s) [k] d = Inr (sm_set k (VStr s) d))
     \<and> (\<forall>s k k' d m. map_of d k = Some (VMap m) \<longrightarrow> SetNestedField M (VStr s) [k, k'] d = Inr (sm_set k (VMap (sm_set k' (VStr s) m)) d))
     \<and> (\<forall>s k k' d. map_of d k = None \<longrightarrow> SetNestedField M (VStr s) [k, k'] d = Inr (sm_set k (VMap [(k', VStr s)]) d))"

definition keeps_paths :: "(object \<Rightarrow> object) \<Rightarrow> bool" where
  "keeps_paths f \<longleftrightarrow> (\<forall>obj path. meta_ok obj \<longrightarrow> \<not> identity_path path \<longrightarrow> value_at (VMap (f obj)) path = value_at (VMap obj) path)"

definition identity_laws :: "'s k8s \<Rightarrow> bool" where
  "identity_laws K \<longleftrightarrow> (\<forall>gvk s. keeps_paths (u_set_gvk K gvk) \<and> keeps_paths (u_set_name K s) \<and> keeps_paths (u_set_namespace K s))
     \<and> (\<forall>gvk obj. CHR ''/'' \<notin> set (gvk_Group gvk) \<longrightarrow> CHR ''/'' \<notin> set (gvk_Version gvk) \<longrightarrow> u_gvk K (u_set_gvk K gvk obj) = gvk)"

definition meta_map :: "doc \<Rightarrow> doc" where
  "meta_map d = (case map_of d ''metadata'' of Some (VMap m) \<Rightarrow> m | _ \<Rightarrow> [])"

lemma delete_patch_eq:
  fixes K :: "'s k8s"
  defines "av \<equiv> \<lambda>new. VStr (gv_String (gvk_GroupVersion (u_gvk K new)))"
  assumes "nested_laws M" and "gwf (VMap new)" and "meta_ok new"
  shows "delete_patch K M new
    = sm_set ''metadata'' (VMap (sm_set ''name'' (VStr (u_name K new)) (sm_set ''namespace'' (VStr (u_namespace K new)) (meta_map (removeNestedMap new)))))
        (sm_set ''metadata'' (VMap (sm_set ''namespace'' (VStr (u_namespace K new)) (meta_map (removeNestedMap new))))
          (sm_set ''kind'' (VStr (gvk_Kind (u_gvk K new))) (sm_set ''apiVersion'' (av new) (removeNestedMap new))))"
proof -
  have "map_of (removeNestedMap new) ''metadata'' = Option.bind (map_of new ''metadata'') removal"
    using assms(3) removeNestedMap_entries [OF sm_wf_distinct] by simp
  then have "map_of (removeNestedMap new) ''metadata'' = None \<or> (\<exists>m. map_of (removeNestedMap new) ''metadata'' = Some (VMap m))"
    using assms(4) by (auto simp: meta_ok_def removal_def split: option.splits gval.splits)
  then show ?thesis using assms(2)
    by (auto simp: delete_patch_def set_field_def nested_laws_def Let_def meta_map_def av_def)
qed

lemma delete_patch_paths_eq:
  assumes "nested_laws M" and "gwf (VMap new)" and "meta_ok new" and "\<not> identity_path path"
  shows "value_at (VMap (delete_patch K M new)) path = value_at (VMap (removeNestedMap new)) path"
    and "absent_at (VMap (removeNestedMap new)) path \<Longrightarrow> absent_at (VMap (delete_patch K M new)) path"
proof -
  have meta: "map_of (removeNestedMap new) ''metadata'' = None \<or> map_of (removeNestedMap new) ''metadata'' = Some (VMap (meta_map (removeNestedMap new)))"
    using assms(2,3) removeNestedMap_entries [OF sm_wf_distinct, of new]
    by (auto simp: meta_ok_def removal_def meta_map_def split: option.splits gval.splits)
  obtain k q where path: "path = k # q" using assms(4) by (cases path) auto
  let ?r = "removeNestedMap new" and ?dp = "delete_patch K M new"
  have other: "map_of ?dp k = map_of ?r k" if "k \<noteq> ''metadata''"
    using that assms(4) by (cases q) (auto simp: delete_patch_eq [OF assms(1-3)] path)
  obtain m where dp: "map_of ?dp ''metadata'' = Some (VMap m)" "\<And>k. k \<notin> {''name'', ''namespace''} \<Longrightarrow> map_of m k = map_of (meta_map ?r) k"
    unfolding delete_patch_eq [OF assms(1-3)] by simp
  have sub: "value_at (VMap ?dp) path = value_at (VMap ?r) path \<and> (absent_at (VMap ?r) path \<longrightarrow> absent_at (VMap ?dp) path)"
  proof (cases "k = ''metadata''")
    case True
    then obtain k' q' where q: "q = k' # q'" "k' \<notin> {''name'', ''namespace''}" using assms(4) path by (cases q) auto
    have empty: "map_of (meta_map ?r) k' = None" if "map_of ?r ''metadata'' = None" using that by (simp add: meta_map_def)
    show ?thesis using meta
    proof
      assume "map_of ?r ''metadata'' = None"
      with empty show ?thesis by (simp add: path True q(1) dp(1) dp(2) [OF q(2)])
    next
      assume "map_of ?r ''metadata'' = Some (VMap (meta_map ?r))"
      then show ?thesis by (simp add: path True q(1) dp(1) dp(2) [OF q(2)])
    qed
  qed (simp add: path other)
  show "value_at (VMap ?dp) path = value_at (VMap ?r) path" using sub ..
  show "absent_at (VMap ?r) path \<Longrightarrow> absent_at (VMap ?dp) path" using sub by blast
qed

lemma delete_patch_clean:
  assumes "nested_laws M" and "gwf (VMap new)" and "meta_ok new"
  shows "clean_doc (VMap (delete_patch K M new))"
proof -
  note clean = clean_removal [OF assms(2)]
  have str: "clean_doc (VStr s)" for s by (simp add: clean_doc_def)
  have "clean_doc (VMap (meta_map (removeNestedMap new)))"
    using clean_entry [OF clean, of "''metadata''"] by (auto simp: meta_map_def clean_doc_def split: option.splits gval.splits)
  then show ?thesis unfolding delete_patch_eq [OF assms] by (intro clean_set str clean)
qed

lemma delete_patch_metadata:
  assumes "nested_laws M" and "gwf (VMap new)" and "meta_ok new"
  obtains m where "map_of (delete_patch K M new) ''metadata'' = Some (VMap m)"
  using that unfolding delete_patch_eq [OF assms] by simp

text \<open>The content after the patch, and the object with its identity restored.\<close>

lemma deleted_content:
  assumes "nested_laws M" and "gwf (VMap new)" and "meta_ok new" and "gwf (VMap obj)" and "meta_ok obj"
  obtains r where "Patch obj (delete_patch K M new) = Inr r" and "meta_ok r"
    and "\<And>path v. \<not> identity_path path \<Longrightarrow> value_at (VMap new) path = Some v \<Longrightarrow> scalar v \<Longrightarrow> value_at (VMap r) path \<in> {None, Some VNil}"
    and "\<And>path v. \<not> identity_path path \<Longrightarrow> silent_at (VMap new) path \<Longrightarrow> value_at (VMap obj) path = Some v \<Longrightarrow> value_at (VMap r) path = Some v"
proof -
  let ?dp = "delete_patch K M new"
  note clean = delete_patch_clean [OF assms(1-3), of K] and eq = delete_patch_paths_eq [OF assms(1-3), of _ K]
  obtain r where r: "patch (VMap obj) (VMap ?dp) = VMap r" "obj \<noteq> ?dp \<Longrightarrow> map_of r = (\<lambda>k. patched (map_of obj k) (map_of ?dp k))"
    "obj = ?dp \<Longrightarrow> r = ?dp"
    using patch_clean_maps [OF assms(4) clean] by blast
  obtain m where m: "map_of ?dp ''metadata'' = Some (VMap m)" using delete_patch_metadata [OF assms(1-3)] .
  have "meta_ok r"
  proof (cases "obj = ?dp")
    case False
    have sub: "\<exists>q. patch (VMap mo) (VMap m) = VMap q" if "map_of obj ''metadata'' = Some (VMap mo)" for mo
      using that assms(4) clean_entry [OF clean m] patch_clean_maps [of mo m] map_of_SomeD [OF that] by (metis gwf_VMap)
    then show ?thesis using r(2) [OF False] m assms(5) by (auto simp: meta_ok_def patched_def split: option.splits gval.splits)
  qed (simp add: r(3) m meta_ok_def)
  moreover have "value_at (VMap r) path \<in> {None, Some VNil}"
    if "\<not> identity_path path" "value_at (VMap new) path = Some v" "scalar v" for path v
    using patch_null [OF assms(4) clean, of path] removal_paths [OF assms(2) that(2,3)] eq(1) [OF that(1)] r(1) by (auto simp: removal_def)
  moreover have "value_at (VMap r) path = Some v"
    if "\<not> identity_path path" "silent_at (VMap new) path" "value_at (VMap obj) path = Some v" for path v
    using patch_absent [OF assms(4) clean eq(2) [OF that(1)] that(3)] removal_silent [OF assms(2) that(2)] r(1) by simp
  ultimately show ?thesis using that [of r] r(1) by (simp add: Patch_def)
qed

lemma restored_identity:
  assumes "target_laws K M" and "identity_laws K" and "meta_ok obj"
  shows "u_name K (restore_identity K new obj) = u_name K new" "u_namespace K (restore_identity K new obj) = u_namespace K new"
    "CHR ''/'' \<notin> set (gvk_Group (u_gvk K new)) \<Longrightarrow> CHR ''/'' \<notin> set (gvk_Version (u_gvk K new)) \<Longrightarrow>
      u_gvk K (restore_identity K new obj) = u_gvk K new"
    "\<not> identity_path path \<Longrightarrow> value_at (VMap (restore_identity K new obj)) path = value_at (VMap obj) path"
proof -
  have ok: "meta_ok (u_set_gvk K (u_gvk K new) obj)" "meta_ok (u_set_name K (u_name K new) (u_set_gvk K (u_gvk K new) obj))"
    using assms(3) target_lawsD(3) [OF assms(1)] meta_setterD(3) [OF target_lawsD(5) [OF assms(1)]] by blast+
  then show "u_name K (restore_identity K new obj) = u_name K new" "u_namespace K (restore_identity K new obj) = u_namespace K new"
    using target_lawsD(10-12) [OF assms(1)] by (simp_all add: restore_identity_def)
  show "u_gvk K (restore_identity K new obj) = u_gvk K new"
    if "CHR ''/'' \<notin> set (gvk_Group (u_gvk K new))" "CHR ''/'' \<notin> set (gvk_Version (u_gvk K new))"
    using that assms(2) meta_setterD(1) [OF target_lawsD(5) [OF assms(1)]] meta_setterD(1) [OF target_lawsD(6) [OF assms(1)]]
    by (simp add: restore_identity_def identity_laws_def)
  show "\<not> identity_path path \<Longrightarrow> value_at (VMap (restore_identity K new obj)) path = value_at (VMap obj) path"
    using ok assms(2,3) by (simp add: restore_identity_def identity_laws_def keeps_paths_def)
qed

end
