(* ===== verification/Reconciler_Properties.thy ===== *)
theory Reconciler_Properties
  imports Meta_Samples Delete_Patch
begin

text \<open>
  The properties of the targets: writing a delta to a view refines an update of one key, and what
  a deletion removes through a patching target.
\<close>

section \<open>Updating targets\<close>

text \<open>
  C7. Writing a delta to an updating target that is a view of the operator.  An added,
  upserted, updated or replaced object always succeeds, whether the view has the object or not:
  exactly one key of one kind of the cache changes, to an object with the fields of the delta
  (those that semantic equality does not tell apart may stay as they are).  A deletion removes
  the key and succeeds even when there is nothing to remove.  In both cases the cache stays
  healthy.
\<close>

theorem target_write_view:
  assumes "cache_laws K" and "target_laws K M" and "equal_upto L R" and "view_target_ok oper t"
    and "healthy c" and "\<And>k x. view_contents K c (target_kind oper t) k = Some x \<Longrightarrow> meta_ok x"
    and "plain_object obj"
  shows "(ty \<in> {Added, Upserted, Updated, Replaced} \<longrightarrow>
      (\<exists>c' log' x. Target_Write K M J (view_client K L J) steps KindFor oper t (Some \<lparr>d_Object = obj, d_Type = ty\<rparr>) original (c, log)
          = ((c', log'), Inr ())
        \<and> healthy c' \<and> fields_like R x obj \<and> view_contents K c' = (view_contents K c)
            (target_kind oper t := (view_contents K c (target_kind oper t))(store_key K obj \<mapsto> x))))
    \<and> (\<exists>c' log'. Target_Write K M J (view_client K L J) steps KindFor oper t (Some \<lparr>d_Object = obj, d_Type = Deleted\<rparr>) original (c, log)
          = ((c', log'), Inr ())
        \<and> healthy c' \<and> view_contents K c' = (view_contents K c)
            (target_kind oper t := (view_contents K c (target_kind oper t))(store_key K obj := None)))"
proof -
  have inv: "view_inv K M (target_kind oper t) (c, log)"
    using assms target_kind_ok [OF assms(4)] by (auto simp: view_inv_def)
  have "\<exists>c' log' x. Target_Write K M J (view_client K L J) steps KindFor oper t (Some \<lparr>d_Object = obj, d_Type = ty\<rparr>) original (c, log)
        = ((c', log'), Inr ())
      \<and> healthy c' \<and> fields_like R x obj \<and> view_contents K c' = (view_contents K c)
          (target_kind oper t := (view_contents K c (target_kind oper t))(store_key K obj \<mapsto> x))"
    if ty: "ty \<in> {Added, Upserted, Updated, Replaced}"
  proof -
    obtain s' x where "Target_Write K M J (view_client K L J) steps KindFor oper t (Some \<lparr>d_Object = obj, d_Type = ty\<rparr>) original (c, log) = (s', Inr ())"
      "view_inv K M (target_kind oper t) s'" "fields_like R x obj"
      "view_lookup K s' = (view_lookup K (c, log))(target_kind oper t := (view_lookup K (c, log) (target_kind oper t))(store_key K obj \<mapsto> x))"
      using Target_Write_upsert [OF assms(4) inv assms(3,7) ty] by blast
    then show ?thesis by (cases s') (auto simp: view_inv_def view_lookup_def)
  qed
  moreover obtain s' where
    "Target_Write K M J (view_client K L J) steps KindFor oper t (Some \<lparr>d_Object = obj, d_Type = Deleted\<rparr>) original (c, log) = (s', Inr ())"
    "view_inv K M (target_kind oper t) s'"
    "view_lookup K s' = (view_lookup K (c, log))(target_kind oper t := (view_lookup K (c, log) (target_kind oper t))(store_key K obj := None))"
    using Target_Write_delete [OF assms(4) inv] by blast
  ultimately show ?thesis by (cases s') (auto simp: view_inv_def view_lookup_def)
qed

definition pod_target :: Target where
  "pod_target = \<lparr>tg_Resource = \<lparr>rs_Group = None, rs_Version = None, rs_Kind = ''PodView''\<rparr>, tg_Type = ''Updater''\<rparr>"

definition no_nested :: client_libs where
  "no_nested = \<lparr>json_Unmarshal = (\<lambda>s. Inr []), NestedMap = (\<lambda>d k. Inr None), SetNestedMap = (\<lambda>d m k. Inr d)\<rparr>"

definition no_kinds :: "string \<Rightarrow> string \<Rightarrow> GroupVersionKind res" where
  "no_kinds grp kind = Inl (Error ''no match'')"

theorem target_write_view_witness:
  "\<exists>c' log' x. Target_Write list_k8s list_meta no_nested (view_client list_k8s list_libs no_nested) 5 no_kinds ''op'' pod_target
      (Some \<lparr>d_Object = pod_a, d_Type = Upserted\<rparr>) None (new_cache, []) = ((c', log'), Inr ())
    \<and> view_contents list_k8s c' view_gvk ''default/a'' = Some x \<and> map_of x ''spec'' = map_of pod_a ''spec''"
proof -
  have "equal_upto list_libs (=)" by (simp add: equal_upto_def list_libs_def option.rel_eq)
  moreover have "plain_object pod_a" by (simp add: plain_object_def meta_ok_def pod_a_def) code_simp
  moreover have "store_key list_k8s pod_a = ''default/a''" by code_simp
  moreover have "view_contents list_k8s new_cache kind k = None" for kind k
    by (simp add: view_contents_def NewViewCache_def)
  moreover have "view_target_ok ''op'' pod_target" "target_kind ''op'' pod_target = view_gvk"
    by (simp_all add: view_target_ok_def target_kind_def pod_target_def view_gvk_def)
  ultimately obtain c' log' x where "Target_Write list_k8s list_meta no_nested (view_client list_k8s list_libs no_nested) 5 no_kinds ''op'' pod_target
      (Some \<lparr>d_Object = pod_a, d_Type = Upserted\<rparr>) None (new_cache, []) = ((c', log'), Inr ())"
    and c': "view_contents list_k8s c' = (view_contents list_k8s new_cache)(view_gvk := (view_contents list_k8s new_cache view_gvk)(''default/a'' \<mapsto> x))"
    and x: "fields_like (=) x pod_a"
    using target_write_view [where L = list_libs and R = "(=)" and oper = "''op''" and t = pod_target and c = new_cache and log = "[]" and obj = pod_a
        and ty = Upserted and J = no_nested and steps = 5 and KindFor = no_kinds and original = None,
        OF list_cache_laws list_target_laws _ _ new_cache_healthy]
    by auto
  moreover have "map_of x ''spec'' = map_of pod_a ''spec''" using x unfolding fields_like_def option.rel_eq by simp
  moreover have "view_contents list_k8s c' view_gvk ''default/a'' = Some x" using c' by simp
  ultimately show ?thesis by blast
qed

section \<open>Patching targets\<close>

text \<open>The laws of the accessors on the sample instance.\<close>

lemma list_nested_laws: "nested_laws list_meta"
  by (simp add: nested_laws_def list_meta_def bind_def)

lemma set_api_reads:
  assumes "CHR ''/'' \<notin> set (gvk_Group gvk)" "CHR ''/'' \<notin> set (gvk_Version gvk)"
  shows "api_gvk (set_api gvk obj) = gvk"
proof (cases "gvk_Group gvk = []")
  case True
  with assms(2) show ?thesis by (simp add: api_gvk_def set_api_def field_str_def Let_def split_on_none)
qed (rule set_api_gvk [OF assms])

lemma set_meta_paths:
  assumes "f \<in> {''name'', ''namespace''}"
  shows "keeps_paths (set_meta f v)"
proof -
  have "value_at (VMap (set_meta f v obj)) path = value_at (VMap obj) path" if "\<not> identity_path path" for obj path
    using that assms by (cases path rule: identity_path.cases) (auto simp: set_meta_def split: option.splits gval.splits)
  then show ?thesis by (simp add: keeps_paths_def)
qed

lemma set_api_paths: "keeps_paths (set_api gvk)"
proof -
  have "value_at (VMap (set_api gvk obj)) path = value_at (VMap obj) path" if "\<not> identity_path path" for obj path
    using that by (cases path rule: identity_path.cases) (auto simp: set_api_def)
  then show ?thesis by (simp add: keeps_paths_def)
qed

lemma list_identity_laws: "identity_laws list_k8s"
  using set_meta_paths set_api_paths set_api_reads by (simp add: identity_laws_def list_k8s_def)

text \<open>
  C39. A deletion through a patching target.  The object it starts from is the snapshot
  of the request or the object the client reads.  What it hands to the update has the name, the
  namespace and the kind of the delta.  At every other path where the delta has a scalar no
  value is left (the entry is gone or null), and every value of the object at a path the delta
  does not speak of stays; the paths left out are those of apiVersion, kind, metadata.namespace and
  metadata.name, which the code puts back.  The result is that of the update, where a target that
  has gone is no error.  When the object cannot be read nothing is written, and again it is no
  error that there is none.
\<close>

theorem delete_through_patch:
  assumes "target_laws K M" and "nested_laws M" and "identity_laws K" and "gwf (VMap new)" and "meta_ok new"
  shows "(\<forall>c1 obj. patch_base K cl new original c = (c1, Inr obj) \<and> gwf (VMap obj) \<and> meta_ok obj \<longrightarrow>
      (\<exists>obj'. target_patch K M J cl steps \<lparr>d_Object = new, d_Type = Deleted\<rparr> original c
          = (case Update_object K M J cl steps obj' c1 of
               (c2, _, r) \<Rightarrow> (c2, ignore_not_found M ''update resource after delete-patch failed'' r))
        \<and> u_name K obj' = u_name K new \<and> u_namespace K obj' = u_namespace K new
        \<and> (CHR ''/'' \<notin> set (gvk_Group (u_gvk K new)) \<and> CHR ''/'' \<notin> set (gvk_Version (u_gvk K new)) \<longrightarrow> u_gvk K obj' = u_gvk K new)
        \<and> (\<forall>path v. \<not> identity_path path \<and> value_at (VMap new) path = Some v \<and> scalar v \<longrightarrow> value_at (VMap obj') path \<in> {None, Some VNil})
        \<and> (\<forall>path v. \<not> identity_path path \<and> silent_at (VMap new) path \<and> value_at (VMap obj) path = Some v \<longrightarrow>
             value_at (VMap obj') path = Some v)))
    \<and> (\<forall>c1 err. patch_base K cl new original c = (c1, Inl err) \<longrightarrow>
        target_patch K M J cl steps \<lparr>d_Object = new, d_Type = Deleted\<rparr> original c = (c1, if IsNotFound M err then Inr () else Inl err))"
    (is "(\<forall>c1 obj. ?base c1 obj \<longrightarrow> (\<exists>obj'. ?written c1 obj obj')) \<and> ?failed")
proof -
  have "\<exists>obj'. ?written c1 obj obj'" if base: "?base c1 obj" for c1 obj
  proof -
    obtain r where r: "Patch obj (delete_patch K M new) = Inr r" "meta_ok r"
      and gone: "\<And>path v. \<not> identity_path path \<Longrightarrow> value_at (VMap new) path = Some v \<Longrightarrow> scalar v \<Longrightarrow> value_at (VMap r) path \<in> {None, Some VNil}"
      and kept: "\<And>path v. \<not> identity_path path \<Longrightarrow> silent_at (VMap new) path \<Longrightarrow> value_at (VMap obj) path = Some v \<Longrightarrow> value_at (VMap r) path = Some v"
      using deleted_content [OF assms(2,4,5), of obj K] base by blast
    have "target_patch K M J cl steps \<lparr>d_Object = new, d_Type = Deleted\<rparr> original c
        = (case Update_object K M J cl steps (restore_identity K new r) c1 of
             (c2, _, r) \<Rightarrow> (c2, ignore_not_found M ''update resource after delete-patch failed'' r))"
      using base r(1) by (simp add: target_patch_def)
    then show ?thesis using gone kept restored_identity [OF assms(1,3) r(2), where new = new]
      by (intro exI [of _ "restore_identity K new r"]) simp
  qed
  moreover have ?failed by (simp add: target_patch_def)
  ultimately show ?thesis by blast
qed

definition noted_pod :: doc where
  "noted_pod = [(''apiVersion'', VStr ''v1''), (''kind'', VStr ''Pod''), (''metadata'', VMap [(''name'', VStr ''a'')]),
     (''spec'', VMap [(''nodeName'', VStr ''n1''), (''priority'', VInt 3)])]"

definition pod_note :: doc where
  "pod_note = [(''apiVersion'', VStr ''v1''), (''kind'', VStr ''Pod''), (''metadata'', VMap [(''name'', VStr ''a'')]),
     (''spec'', VMap [(''priority'', VInt 3)])]"

text \<open>A client whose state is the list of the objects written through it, the last one first.\<close>

definition recorder :: "object list client" where
  "recorder = \<lparr>c_Get = (\<lambda>obj c. (c, obj, Inl NotFound)), c_Create = (\<lambda>obj c. (obj # c, obj, Inr ())), c_Update = (\<lambda>obj c. (obj # c, obj, Inr ())),
     c_StatusUpdate = (\<lambda>obj c. (c, obj, Inr ())), c_Delete = (\<lambda>obj c. (c, Inl NotFound))\<rparr>"

lemma recorder_update: "Update_object K M no_nested recorder steps obj c = (obj # c, obj, Inr ())"
  by (simp add: Update_object_def update_attempts.simps saved_status_def no_nested_def recorder_def restore_status_def)

theorem delete_through_patch_witness:
  "(\<exists>x. target_patch list_k8s list_meta no_nested recorder 5 \<lparr>d_Object = pod_note, d_Type = Deleted\<rparr> (Some noted_pod) [] = ([x], Inr ())
      \<and> u_name list_k8s x = ''a'' \<and> value_at (VMap x) [''spec'', ''priority''] \<in> {None, Some VNil}
      \<and> value_at (VMap x) [''spec'', ''nodeName''] = Some (VStr ''n1''))
    \<and> target_patch list_k8s list_meta no_nested recorder 5 \<lparr>d_Object = pod_note, d_Type = Deleted\<rparr> None [] = ([], Inr ())"
proof -
  note rule = delete_through_patch [OF list_target_laws list_nested_laws list_identity_laws, where new = pod_note and cl = recorder and c = "[]"
      and J = no_nested and steps = 5]
  have new: "gwf (VMap pod_note)" "meta_ok pod_note" "u_name list_k8s pod_note = ''a''" by code_simp+
  have base: "patch_base list_k8s recorder pod_note (Some noted_pod) [] = ([], Inr noted_pod)" by code_simp
  have obj: "gwf (VMap noted_pod)" "meta_ok noted_pod" by code_simp+
  have "\<not> identity_path [''spec'', ''priority'']" "value_at (VMap pod_note) [''spec'', ''priority''] = Some (VInt 3)" "scalar (VInt 3)"
    "\<not> identity_path [''spec'', ''nodeName'']" "silent_at (VMap pod_note) [''spec'', ''nodeName'']"
    "value_at (VMap noted_pod) [''spec'', ''nodeName''] = Some (VStr ''n1'')"
    by (simp_all add: pod_note_def noted_pod_def scalar_def)
  then have "\<exists>x. target_patch list_k8s list_meta no_nested recorder 5 \<lparr>d_Object = pod_note, d_Type = Deleted\<rparr> (Some noted_pod) [] = ([x], Inr ())
      \<and> u_name list_k8s x = ''a'' \<and> value_at (VMap x) [''spec'', ''priority''] \<in> {None, Some VNil}
      \<and> value_at (VMap x) [''spec'', ''nodeName''] = Some (VStr ''n1'')"
    using rule [OF new(1,2), where original = "Some noted_pod", THEN conjunct1, rule_format, OF conjI [OF base conjI [OF obj]]] new(3)
    by (fastforce simp: recorder_update ignore_not_found_def)
  moreover have "patch_base list_k8s recorder pod_note None [] = ([], Inl NotFound)" by code_simp
  then have "target_patch list_k8s list_meta no_nested recorder 5 \<lparr>d_Object = pod_note, d_Type = Deleted\<rparr> None [] = ([], Inr ())"
    using rule [OF new(1,2), where original = None, THEN conjunct2] by (simp add: list_meta_def)
  ultimately show ?thesis ..
qed

text \<open>
  Lists are not removed: the list of the target stays as long as it was, or grows to the length
  of the list in the delta, with nulls in the places of the scalars.
\<close>

theorem delete_patch_keeps_lists:
  "patch (VList [VInt 80, VInt 443]) (VList (removeNestedList [VInt 80])) = VList [VNil, VInt 443]"
  by code_simp

end
