(* ===== verification/Controllers.thy ===== *)
theory Controllers
  imports Reconciler Pipelines Predicates
begin

text \<open>
  Sources and requests (\<^verbatim>\<open>pkg/reconciler/source.go\<close>, \<^verbatim>\<open>reconciler.go\<close>) and controllers (package
  \<^verbatim>\<open>controller\<close>): error reporting, the declarative controller, its two reconcilers and native
  controllers.  Duration parsing, JSON parsing of source parameters, the clock, the label
  predicates and the rate limiter are library code: the record \<open>source_libs\<close>; so is the creation
  of controllers and watches in controller-runtime (\<open>runtime_libs\<close>).
\<close>

section \<open>Requests (\<^verbatim>\<open>reconciler.go\<close>)\<close>

record Request =
  rq_Namespace :: string
  rq_Name :: string
  rq_EventType :: DeltaType
  rq_GVK :: GroupVersionKind
  rq_Object :: "object option"

text \<open>The event handler puts requests into a work queue; the objects of events are always unstructured.\<close>

definition enqueue :: "'s k8s \<Rightarrow> object \<Rightarrow> DeltaType \<Rightarrow> Request list \<Rightarrow> Request list" where
  "enqueue K obj eventType q =
     q @ [\<lparr>rq_Namespace = u_namespace K obj, rq_Name = u_name K obj, rq_EventType = eventType, rq_GVK = u_gvk K obj,
           rq_Object = Some (Object_DeepCopy K obj)\<rparr>]"

definition EventHandler_Create :: "'s k8s \<Rightarrow> object \<Rightarrow> Request list \<Rightarrow> Request list" where
  "EventHandler_Create K obj q = enqueue K obj Added q"

definition EventHandler_Update :: "'s k8s \<Rightarrow> object \<Rightarrow> object \<Rightarrow> Request list \<Rightarrow> Request list" where
  "EventHandler_Update K objOld objNew q = enqueue K objNew Updated q"

definition EventHandler_Delete :: "'s k8s \<Rightarrow> object \<Rightarrow> Request list \<Rightarrow> Request list" where
  "EventHandler_Delete K obj q = enqueue K obj Deleted q"

definition EventHandler_Generic :: "object \<Rightarrow> Request list \<Rightarrow> Request list" where
  "EventHandler_Generic obj q = q"

section \<open>Sources (\<^verbatim>\<open>source.go\<close>)\<close>

record 'l SourceSpec =
  ss_Resource :: ResourceSpec
  ss_Type :: string
  ss_Namespace :: "string option"
  ss_LabelSelector :: "'l option"
  ss_Predicate :: "Predicate option"
  ss_Parameters :: "string option"

text \<open>Durations are nanoseconds.\<close>

datatype 'l source =
  watchSource (source_spec: "'l SourceSpec")
| oneShotSource (source_spec: "'l SourceSpec")
| periodicSource (source_spec: "'l SourceSpec") (period: int)

record ('l, 'p) source_libs =
  ParseDuration :: "string \<Rightarrow> int res"
  Duration_String :: "int \<Rightarrow> string"
  parse_params :: "string \<Rightarrow> doc res"
  time_Now :: string
  LabelSelectorPredicate :: "'l \<Rightarrow> 'p res"
  NewPredicateFuncs :: "(object \<Rightarrow> bool) \<Rightarrow> 'p"

definition OneShotSourceObjectName :: string where
  "OneShotSourceObjectName = ''one-shot-trigger''"

definition PeriodicSourceObjectName :: string where
  "PeriodicSourceObjectName = ''periodic-trigger''"

definition VirtualSourceTriggeredLabel :: string where
  "VirtualSourceTriggeredLabel = ''dcontroller.io/last-triggered''"

definition default_period :: int where
  "default_period = 5 * 60 * 1000000000"

definition NewPeriodicSource :: "('l, 'p) source_libs \<Rightarrow> 'l SourceSpec \<Rightarrow> 'l source" where
  "NewPeriodicSource S s = periodicSource s
     (case ss_Parameters s of
        None \<Rightarrow> default_period
      | Some raw \<Rightarrow>
          (case parse_params S raw of
             Inl _ \<Rightarrow> default_period
           | Inr params \<Rightarrow>
               (case map_of params ''period'' of
                  Some (VStr periodStr) \<Rightarrow> (case ParseDuration S periodStr of Inr d \<Rightarrow> d | Inl _ \<Rightarrow> default_period)
                | _ \<Rightarrow> default_period)))"

definition NewSource :: "('l, 'p) source_libs \<Rightarrow> 'l SourceSpec \<Rightarrow> 'l source" where
  "NewSource S s =
     (let sourceType = (if ss_Type s = [] then ''Watcher'' else ss_Type s) in
      if sourceType = ''OneShot'' then oneShotSource s
      else if sourceType = ''Periodic'' then NewPeriodicSource S s
      else watchSource s)"

fun Source_Type :: "'l source \<Rightarrow> string" where
  "Source_Type (watchSource _) = ''Watcher''"
| "Source_Type (oneShotSource _) = ''OneShot''"
| "Source_Type (periodicSource _ _) = ''Periodic''"

definition Source_GetGVK :: "(string \<Rightarrow> string \<Rightarrow> GroupVersionKind res) \<Rightarrow> string \<Rightarrow> 'l source \<Rightarrow> GroupVersionKind res" where
  "Source_GetGVK KindFor oper s = GetGVK KindFor oper (ss_Resource (source_spec s))"

fun Source_String :: "('l, 'p) source_libs \<Rightarrow> (string \<Rightarrow> string \<Rightarrow> GroupVersionKind res) \<Rightarrow> string \<Rightarrow> 'l source \<Rightarrow> string" where
  "Source_String S KindFor oper (periodicSource s p) =
     Resource_String KindFor oper (ss_Resource s) @ ''(period='' @ Duration_String S p @ '')''"
| "Source_String S KindFor oper s = Resource_String KindFor oper (ss_Resource (source_spec s))"

text \<open>What a source gives to controller-runtime: a watch with its predicates, or a timer.\<close>

datatype 'p runtime_source =
  TypedKind GroupVersionKind "'p list"
| PeriodicRuntimeSource (timer_period: int) (timer_gvk: "GroupVersionKind res")

definition watch_predicates :: "'s k8s \<Rightarrow> 'p pred_libs \<Rightarrow> ('l, 'p) source_libs \<Rightarrow> 'l SourceSpec \<Rightarrow> 'p list res" where
  "watch_predicates K P S s =
     bind (case ss_Predicate s of None \<Rightarrow> Inr [] | Some p \<Rightarrow> bind (FromPredicate P p) (\<lambda>q. Inr [q])) (\<lambda>ps1.
     bind (case ss_LabelSelector s of None \<Rightarrow> Inr [] | Some ls \<Rightarrow> bind (LabelSelectorPredicate S ls) (\<lambda>q. Inr [q])) (\<lambda>ps2.
       Inr (ps1 @ ps2 @ (case ss_Namespace s of None \<Rightarrow> [] | Some ns \<Rightarrow> [NewPredicateFuncs S (FromNamespace (u_namespace K) ns)]))))"

definition one_shot_object :: "'s k8s \<Rightarrow> meta_libs \<Rightarrow> ('l, 'p) source_libs \<Rightarrow> GroupVersionKind \<Rightarrow> object" where
  "one_shot_object K M S gvk =
     SetLabels M [(VirtualSourceTriggeredLabel, time_Now S)] (u_set_name K OneShotSourceObjectName (u_set_gvk K gvk New_object))"

definition watchSource_GetSource ::
    "'s k8s \<Rightarrow> 'p pred_libs \<Rightarrow> ('l, 'p) source_libs \<Rightarrow> (string \<Rightarrow> string \<Rightarrow> GroupVersionKind res) \<Rightarrow> string \<Rightarrow> 'l SourceSpec
      \<Rightarrow> 'p runtime_source res" where
  "watchSource_GetSource K P S KindFor oper s =
     bind (GetGVK KindFor oper (ss_Resource s)) (\<lambda>gvk.
     bind (watch_predicates K P S s) (\<lambda>ps. Inr (TypedKind gvk ps)))"

definition oneShotSource_GetSource ::
    "'s k8s \<Rightarrow> meta_libs \<Rightarrow> ('l, 'p) source_libs \<Rightarrow> 'c client \<Rightarrow> (string \<Rightarrow> string \<Rightarrow> GroupVersionKind res) \<Rightarrow> string \<Rightarrow> 'l SourceSpec
      \<Rightarrow> 'c \<Rightarrow> 'c \<times> 'p runtime_source res" where
  "oneShotSource_GetSource K M S cl KindFor oper s c =
     (case GetGVK KindFor oper (ss_Resource s) of
        Inl err \<Rightarrow> (c, Inl err)
      | Inr gvk \<Rightarrow>
          (case c_Create cl (one_shot_object K M S gvk) c of
             (c', _, Inl err) \<Rightarrow> (c', Inl (wrap ''failed to inject one-shot trigger'' err))
           | (c', _, Inr _) \<Rightarrow> (c', Inr (TypedKind gvk []))))"

definition periodicSource_GetSource ::
    "(string \<Rightarrow> string \<Rightarrow> GroupVersionKind res) \<Rightarrow> string \<Rightarrow> 'l SourceSpec \<Rightarrow> int \<Rightarrow> 'p runtime_source res" where
  "periodicSource_GetSource KindFor oper s p = Inr (PeriodicRuntimeSource p (GetGVK KindFor oper (ss_Resource s)))"

fun GetSource ::
    "'s k8s \<Rightarrow> meta_libs \<Rightarrow> 'p pred_libs \<Rightarrow> ('l, 'p) source_libs \<Rightarrow> 'c client \<Rightarrow> (string \<Rightarrow> string \<Rightarrow> GroupVersionKind res)
      \<Rightarrow> string \<Rightarrow> 'l source \<Rightarrow> 'c \<Rightarrow> 'c \<times> 'p runtime_source res" where
  "GetSource K M P S cl KindFor oper (watchSource s) c = (c, watchSource_GetSource K P S KindFor oper s)"
| "GetSource K M P S cl KindFor oper (oneShotSource s) c = oneShotSource_GetSource K M S cl KindFor oper s c"
| "GetSource K M P S cl KindFor oper (periodicSource s p) c = (c, periodicSource_GetSource KindFor oper s p)"

text \<open>Starting a timer fails for a period that is not positive; every tick queues one request.\<close>

definition periodic_Start :: "'p runtime_source \<Rightarrow> unit res" where
  "periodic_Start src =
     (if timer_period src \<le> 0 then Inl (Error ''periodic source requires positive period'')
      else bind (timer_gvk src) (\<lambda>_. Inr ()))"

definition periodic_tick :: "GroupVersionKind \<Rightarrow> Request list \<Rightarrow> Request list" where
  "periodic_tick gvk queue =
     queue @ [\<lparr>rq_Namespace = [], rq_Name = PeriodicSourceObjectName, rq_EventType = Updated, rq_GVK = gvk, rq_Object = None\<rparr>]"

section \<open>Error reporting (\<^verbatim>\<open>status_reporter.go\<close>)\<close>

definition ErrorReporterStackSize :: nat where
  "ErrorReporterStackSize = 10"

definition TrimPrefixSuffixLen :: nat where
  "TrimPrefixSuffixLen = 120"

record ctrl_error =
  ce_error :: error
  ce_Operator :: string
  ce_Controller :: string

text \<open>
  The channel is the list of what was sent, or absent; the rate limiter \<open>sometimes\<close> decides
  whether a status update is asked for.
\<close>

record 'r errorReporter =
  errorStack :: "ctrl_error list"
  ratelimiter :: 'r
  errorChan :: "ctrl_error list option"
  critical :: bool

definition NewErrorReporter :: "'r \<Rightarrow> ctrl_error list option \<Rightarrow> 'r errorReporter" where
  "NewErrorReporter limiter ch = \<lparr>errorStack = [], ratelimiter = limiter, errorChan = ch, critical = False\<rparr>"

definition push :: "('r \<Rightarrow> 'r \<times> bool) \<Rightarrow> string \<Rightarrow> string \<Rightarrow> error \<Rightarrow> 'r errorReporter \<Rightarrow> 'r errorReporter" where
  "push sometimes oper name err s =
     (let ctrlErr = \<lparr>ce_error = err, ce_Operator = oper, ce_Controller = name\<rparr>;
          stack = (if length (errorStack s) = ErrorReporterStackSize then tl (errorStack s) @ [ctrlErr] else errorStack s @ [ctrlErr]);
          (limiter, run) = sometimes (ratelimiter s)
      in s\<lparr>errorStack := stack, ratelimiter := limiter,
           errorChan := (if run then map_option (\<lambda>sent. sent @ [ctrlErr]) (errorChan s) else errorChan s)\<rparr>)"

definition Push :: "('r \<Rightarrow> 'r \<times> bool) \<Rightarrow> string \<Rightarrow> string \<Rightarrow> error \<Rightarrow> 'r errorReporter \<Rightarrow> 'r errorReporter" where
  "Push sometimes oper name err s = push sometimes oper name err s"

definition PushCritical :: "('r \<Rightarrow> 'r \<times> bool) \<Rightarrow> string \<Rightarrow> string \<Rightarrow> error \<Rightarrow> 'r errorReporter \<Rightarrow> 'r errorReporter" where
  "PushCritical sometimes oper name err s = push sometimes oper name err (s\<lparr>critical := True\<rparr>)"

definition IsEmpty :: "'r errorReporter \<Rightarrow> bool" where
  "IsEmpty s \<longleftrightarrow> length (errorStack s) = 0"

definition Pop :: "'r errorReporter \<Rightarrow> 'r errorReporter" where
  "Pop s = (if IsEmpty s then s else s\<lparr>errorStack := butlast (errorStack s)\<rparr>)"

definition Top :: "'r errorReporter \<Rightarrow> ctrl_error option" where
  "Top s = (if IsEmpty s then None else Some (last (errorStack s)))"

definition Reporter_Size :: "'r errorReporter \<Rightarrow> nat" where
  "Reporter_Size s = length (errorStack s)"

definition HasCritical :: "'r errorReporter \<Rightarrow> bool" where
  "HasCritical s = critical s"

definition trim_text :: "string \<Rightarrow> string" where
  "trim_text s =
     (if length s \<le> 2 * TrimPrefixSuffixLen + 5 then s
      else take (TrimPrefixSuffixLen - 1) s @ ''[...]'' @ drop (length s - TrimPrefixSuffixLen) s)"

text \<open>\<open>text\<close> is the method that renders an error.\<close>

definition Report :: "(error \<Rightarrow> string) \<Rightarrow> 'r errorReporter \<Rightarrow> string list" where
  "Report text s = map (\<lambda>err. trim_text (text (ce_error err))) (errorStack s)"

section \<open>The declarative controller (\<^verbatim>\<open>declarative.go\<close>)\<close>

record 'l ControllerSpec =
  cs_Name :: string
  cs_Sources :: "'l SourceSpec list"
  cs_Pipeline :: "PipelineOp list"
  cs_Target :: Target

record ('s, 'l, 'r) DeclarativeController =
  dc_reporter :: "'r errorReporter"
  dc_name :: string
  dc_op :: string
  dc_config :: "'l ControllerSpec"
  dc_sources :: "'l source list"
  dc_target :: "Target option"
  dc_pipeline :: "'s Pipeline option"

datatype reconciler = IncrementalReconciler | StateOfTheWorldReconciler

record 'p runtime_libs =
  NewTyped :: "string \<Rightarrow> reconciler \<Rightarrow> unit res"
  Watch :: "string \<Rightarrow> 'p runtime_source \<Rightarrow> unit res"

definition emptyTarget :: Target where
  "emptyTarget = \<lparr>tg_Resource = \<lparr>rs_Group = None, rs_Version = None, rs_Kind = []\<rparr>, tg_Type = []\<rparr>"

definition fail_critical ::
    "('r \<Rightarrow> 'r \<times> bool) \<Rightarrow> error \<Rightarrow> ('s, 'l, 'r) DeclarativeController \<Rightarrow> ('s, 'l, 'r) DeclarativeController" where
  "fail_critical sometimes err ctl = ctl\<lparr>dc_reporter := PushCritical sometimes (dc_op ctl) (dc_name ctl) err (dc_reporter ctl)\<rparr>"

text \<open>
  One round of the loop over the sources: the kind of the source, its reconciler, its runtime
  controller and its watch.  Only incremental sources flow through the pipeline.
\<close>

fun setup_sources ::
    "'s k8s \<Rightarrow> meta_libs \<Rightarrow> 'p pred_libs \<Rightarrow> ('l, 'p) source_libs \<Rightarrow> 'p runtime_libs \<Rightarrow> 'c client
      \<Rightarrow> (string \<Rightarrow> string \<Rightarrow> GroupVersionKind res) \<Rightarrow> (nat \<Rightarrow> string) \<Rightarrow> string \<Rightarrow> string \<Rightarrow> nat \<Rightarrow> 'l source list
      \<Rightarrow> GroupVersionKind list \<Rightarrow> 'c \<Rightarrow> 'c \<times> GroupVersionKind list res" where
  "setup_sources K M P S R cl KindFor itoa oper name i [] baseviews c = (c, Inr baseviews)"
| "setup_sources K M P S R cl KindFor itoa oper name i (s # ss) baseviews c =
     (case Source_GetGVK KindFor oper s of
        Inl err \<Rightarrow> (c, Inl (wrap ''failed to obtain GVK for source'' err))
      | Inr gvk \<Rightarrow>
          let periodic = (Source_Type s = ''Periodic'');
              rec = (if periodic then StateOfTheWorldReconciler else IncrementalReconciler);
              baseviews' = (if periodic then baseviews else baseviews @ [gvk]);
              ctrlName = name @ ''-'' @ itoa i
          in case NewTyped R ctrlName rec of
               Inl err \<Rightarrow> (c, Inl (wrap ''failed to create runtime controller for resource'' err))
             | Inr _ \<Rightarrow>
                 (case GetSource K M P S cl KindFor oper s c of
                    (c1, Inl err) \<Rightarrow> (c1, Inl (wrap ''failed to create runtime source for resource'' err))
                  | (c1, Inr src) \<Rightarrow>
                      (case Watch R ctrlName src of
                         Inl err \<Rightarrow> (c1, Inl (wrap ''failed to watch resource'' err))
                       | Inr _ \<Rightarrow> setup_sources K M P S R cl KindFor itoa oper name (i + 1) ss baseviews' c1)))"

definition NewDeclarative ::
    "'s k8s \<Rightarrow> libs \<Rightarrow> meta_libs \<Rightarrow> 'p pred_libs \<Rightarrow> ('l, 'p) source_libs \<Rightarrow> 'p runtime_libs \<Rightarrow> 'c client
      \<Rightarrow> (string \<Rightarrow> string \<Rightarrow> GroupVersionKind res) \<Rightarrow> (nat \<Rightarrow> string) \<Rightarrow> ('r \<Rightarrow> 'r \<times> bool) \<Rightarrow> 'r \<Rightarrow> ctrl_error list option
      \<Rightarrow> string \<Rightarrow> 'l ControllerSpec \<Rightarrow> 'c \<Rightarrow> 'c \<times> ('s, 'l, 'r) DeclarativeController \<times> unit res" where
  "NewDeclarative K L M P S R cl KindFor itoa sometimes limiter ch oper config c =
     (let c0 = \<lparr>dc_reporter = NewErrorReporter limiter ch, dc_name = [], dc_op = oper, dc_config = config, dc_sources = [],
                dc_target = None, dc_pipeline = None\<rparr>;
          fail = (\<lambda>err ctl. (fail_critical sometimes err ctl, Inl err))
      in if cs_Name config = [] then (c, fail (Error ''invalid controller configuration: empty name'') c0)
         else
           let c1 = c0\<lparr>dc_name := cs_Name config\<rparr> in
           if length (cs_Sources config) = 0 then (c, fail (Error ''invalid controller configuration: no source'') c1)
           else if cs_Target config = emptyTarget then (c, fail (Error ''invalid controller configuration: no target'') c1)
           else
             let t = NewTarget (cs_Target config); c2 = c1\<lparr>dc_target := Some t\<rparr> in
             case GetGVK KindFor oper (tg_Resource t) of
               Inl err \<Rightarrow> (c, fail (wrap ''invalid target'' err) c2)
             | Inr targetGVK \<Rightarrow>
                 let c3 = c2\<lparr>dc_sources := map (NewSource S) (cs_Sources config)\<rparr> in
                 (case setup_sources K M P S R cl KindFor itoa oper (cs_Name config) 0 (dc_sources c3) [] c of
                    (c', Inl err) \<Rightarrow> (c', fail err c3)
                  | (c', Inr baseviews) \<Rightarrow>
                      (case Pipeline_New K L oper targetGVK baseviews (cs_Pipeline config) of
                         Inl err \<Rightarrow> (c', fail (wrap ''failed to create pipleline for controller'' err) c3)
                       | Inr p \<Rightarrow> (c', c3\<lparr>dc_pipeline := Some p\<rparr>, Inr ()))))"

definition ok_gvk :: "GroupVersionKind res \<Rightarrow> GroupVersionKind list" where
  "ok_gvk r = (case r of Inr gvk \<Rightarrow> [gvk] | Inl _ \<Rightarrow> [])"

definition Declarative_GetGVKs ::
    "(string \<Rightarrow> string \<Rightarrow> GroupVersionKind res) \<Rightarrow> ('s, 'l, 'r) DeclarativeController \<Rightarrow> GroupVersionKind list" where
  "Declarative_GetGVKs KindFor ctl =
     (case dc_target ctl of None \<Rightarrow> [] | Some t \<Rightarrow> ok_gvk (GetGVK KindFor (dc_op ctl) (tg_Resource t)))
     @ concat (map (\<lambda>s. ok_gvk (Source_GetGVK KindFor (dc_op ctl) s)) (dc_sources ctl))"

record Condition =
  cond_Type :: string
  cond_Status :: string
  cond_ObservedGeneration :: int
  cond_LastTransitionTime :: string
  cond_Reason :: string
  cond_Message :: string

record ControllerStatus =
  st_Name :: string
  st_Conditions :: "Condition list"
  st_LastErrors :: "string list"

definition Declarative_GetStatus ::
    "(error \<Rightarrow> string) \<Rightarrow> string \<Rightarrow> int \<Rightarrow> ('s, 'l, 'r) DeclarativeController \<Rightarrow> ControllerStatus" where
  "Declarative_GetStatus text now gen ctl =
     (let (status, reason, message) =
        (if IsEmpty (dc_reporter ctl) then (''True'', ''Ready'', ''Controller is up and running'')
         else if HasCritical (dc_reporter ctl) then (''False'', ''NotReady'', ''Controller failed to start due to a critcal error'')
         else (''Unknown'', ''ReconciliationFailed'', ''Controller seems functional but there were reconciliation errors''))
      in \<lparr>st_Name = dc_name ctl,
          st_Conditions = [\<lparr>cond_Type = ''Ready'', cond_Status = status, cond_ObservedGeneration = gen,
            cond_LastTransitionTime = now, cond_Reason = reason, cond_Message = message\<rparr>],
          st_LastErrors = Report text (dc_reporter ctl)\<rparr>)"

section \<open>The reconcilers (\<^verbatim>\<open>reconcilers.go\<close>)\<close>

text \<open>Deltas are written to the target until the first failure.\<close>

fun write_deltas ::
    "'s k8s \<Rightarrow> meta_libs \<Rightarrow> client_libs \<Rightarrow> 'c client \<Rightarrow> nat \<Rightarrow> (string \<Rightarrow> string \<Rightarrow> GroupVersionKind res) \<Rightarrow> string \<Rightarrow> Target
      \<Rightarrow> object option \<Rightarrow> Delta list \<Rightarrow> 'c \<Rightarrow> 'c \<times> unit res" where
  "write_deltas K M J cl steps KindFor oper t original [] c = (c, Inr ())"
| "write_deltas K M J cl steps KindFor oper t original (d # ds) c =
     (case Target_Write K M J cl steps KindFor oper t (Some d) original c of
        (c1, Inl err) \<Rightarrow> (c1, Inl (wrap ''cannot update target'' err))
      | (c1, Inr _) \<Rightarrow> write_deltas K M J cl steps KindFor oper t original ds c1)"

definition report ::
    "('r \<Rightarrow> 'r \<times> bool) \<Rightarrow> unit res \<Rightarrow> ('s, 'l, 'r) DeclarativeController \<Rightarrow> ('s, 'l, 'r) DeclarativeController" where
  "report sometimes r ctl =
     (case r of Inr _ \<Rightarrow> ctl | Inl err \<Rightarrow> ctl\<lparr>dc_reporter := Push sometimes (dc_op ctl) (dc_name ctl) err (dc_reporter ctl)\<rparr>)"

text \<open>Applying the deltas of the pipeline to the target of the controller.\<close>

definition apply_deltas ::
    "'s k8s \<Rightarrow> meta_libs \<Rightarrow> client_libs \<Rightarrow> 'c client \<Rightarrow> nat \<Rightarrow> (string \<Rightarrow> string \<Rightarrow> GroupVersionKind res) \<Rightarrow> ('r \<Rightarrow> 'r \<times> bool)
      \<Rightarrow> object option \<Rightarrow> Delta list \<Rightarrow> ('s, 'l, 'r) DeclarativeController \<Rightarrow> 'c
      \<Rightarrow> 'c \<times> ('s, 'l, 'r) DeclarativeController \<times> unit res" where
  "apply_deltas K M J cl steps KindFor sometimes original ds ctl c =
     (case (case dc_target ctl of
              Some t \<Rightarrow> write_deltas K M J cl steps KindFor (dc_op ctl) t original ds c
            | None \<Rightarrow> (c, if ds = [] then Inr () else Inl nil_dereference)) of
        (c1, r) \<Rightarrow> (c1, report sometimes r ctl, r))"

definition request_object :: "'s k8s \<Rightarrow> Request \<Rightarrow> object" where
  "request_object K req =
     (case rq_Object req of
        Some obj \<Rightarrow> obj
      | None \<Rightarrow> u_set_name K (rq_Name req) (u_set_namespace K (rq_Namespace req) (u_set_gvk K (rq_GVK req) New_object)))"

definition Incremental_Reconcile ::
    "'s k8s \<Rightarrow> (nat \<Rightarrow> string list \<Rightarrow> string list) \<Rightarrow> meta_libs \<Rightarrow> client_libs \<Rightarrow> 'c client \<Rightarrow> nat
      \<Rightarrow> (string \<Rightarrow> string \<Rightarrow> GroupVersionKind res) \<Rightarrow> ('r \<Rightarrow> 'r \<times> bool) \<Rightarrow> Request \<Rightarrow> ('s, 'l, 'r) DeclarativeController \<Rightarrow> 'c
      \<Rightarrow> 'c \<times> ('s, 'l, 'r) DeclarativeController \<times> unit res" where
  "Incremental_Reconcile K sched M J cl steps KindFor sometimes req ctl c =
     (let obj = request_object K req in
      if rq_EventType req \<notin> {Added, Updated, Replaced, Deleted} then (c, ctl, Inr ())
      else case dc_pipeline ctl of
        None \<Rightarrow> (c, ctl, Inl nil_dereference)
      | Some p \<Rightarrow>
          (case Pipeline_Evaluate K sched p \<lparr>d_Object = obj, d_Type = rq_EventType req\<rparr> of
             (p', Inl e) \<Rightarrow>
               (let r = Inl (wrap ''error evaluating pipeline for object'' e) in
                (c, report sometimes r (ctl\<lparr>dc_pipeline := Some p'\<rparr>), r))
           | (p', Inr ds) \<Rightarrow>
               apply_deltas K M J cl steps KindFor sometimes (rq_Object req) ds (ctl\<lparr>dc_pipeline := Some p'\<rparr>) c))"

definition StateOfTheWorld_Reconcile ::
    "'s k8s \<Rightarrow> (nat \<Rightarrow> string list \<Rightarrow> string list) \<Rightarrow> meta_libs \<Rightarrow> client_libs \<Rightarrow> 'c client \<Rightarrow> nat
      \<Rightarrow> (string \<Rightarrow> string \<Rightarrow> GroupVersionKind res) \<Rightarrow> ('r \<Rightarrow> 'r \<times> bool) \<Rightarrow> Request \<Rightarrow> ('s, 'l, 'r) DeclarativeController \<Rightarrow> 'c
      \<Rightarrow> 'c \<times> ('s, 'l, 'r) DeclarativeController \<times> unit res" where
  "StateOfTheWorld_Reconcile K sched M J cl steps KindFor sometimes req ctl c =
     (case dc_pipeline ctl of
        None \<Rightarrow> (c, ctl, Inl nil_dereference)
      | Some p \<Rightarrow>
          (case Pipeline_Sync K sched p of
             (p', Inl e) \<Rightarrow>
               (let r = Inl (wrap ''error during state-of-the-world reconciliation'' e) in
                (c, report sometimes r (ctl\<lparr>dc_pipeline := Some p'\<rparr>), r))
           | (p', Inr ds) \<Rightarrow> apply_deltas K M J cl steps KindFor sometimes None ds (ctl\<lparr>dc_pipeline := Some p'\<rparr>) c))"

section \<open>Native controllers (\<^verbatim>\<open>native.go\<close>)\<close>

record NativeController =
  nc_name :: string
  nc_gvks :: "GroupVersionKind list"

definition NewNative :: "string \<Rightarrow> GroupVersionKind list \<Rightarrow> NativeController" where
  "NewNative name gvks = \<lparr>nc_name = name, nc_gvks = gvks\<rparr>"

definition Native_GetStatus :: "string \<Rightarrow> int \<Rightarrow> NativeController \<Rightarrow> ControllerStatus" where
  "Native_GetStatus now gen c =
     \<lparr>st_Name = nc_name c,
      st_Conditions = [\<lparr>cond_Type = ''Ready'', cond_Status = ''True'', cond_ObservedGeneration = gen, cond_LastTransitionTime = now,
        cond_Reason = ''Ready'', cond_Message = ''Native controller is running''\<rparr>],
      st_LastErrors = []\<rparr>"

end
