(* ===== verification/Controller_Status.thy ===== *)
theory Controller_Status
  imports Controllers
begin

text \<open>
  The properties of error reporting: the status of a controller tells whether it could be built,
  and the report of its errors is bounded.
\<close>

section \<open>The error stack\<close>

lemma push_stack:
  assumes "length (errorStack s) \<le> ErrorReporterStackSize"
  shows "errorStack (push sometimes oper name err s)
    = drop (Suc (length (errorStack s)) - ErrorReporterStackSize) (errorStack s @ [\<lparr>ce_error = err, ce_Operator = oper, ce_Controller = name\<rparr>])"
proof (cases "length (errorStack s) = ErrorReporterStackSize")
  case True
  then obtain e es where "errorStack s = e # es" by (cases "errorStack s") (simp_all add: ErrorReporterStackSize_def)
  with True show ?thesis by (simp add: push_def Let_def case_prod_unfold)
qed (use assms in \<open>simp add: push_def Let_def case_prod_unfold\<close>)

lemma trim_bound: "length (trim_text s) \<le> 2 * TrimPrefixSuffixLen + 5"
  by (simp add: trim_text_def TrimPrefixSuffixLen_def)

lemma pushes_stack:
  "map ce_error (errorStack (foldl (\<lambda>s err. Push sometimes oper name err s) (NewErrorReporter limiter ch) errs))
    = drop (length errs - ErrorReporterStackSize) errs"
proof (induction errs rule: rev_induct)
  case (snoc err errs)
  let ?s = "foldl (\<lambda>s err. Push sometimes oper name err s) (NewErrorReporter limiter ch) errs"
  have len: "length (errorStack ?s) = min (length errs) ErrorReporterStackSize"
    using arg_cong [OF snoc.IH, of length] by simp
  have "map ce_error (errorStack (push sometimes oper name err ?s))
      = drop (Suc (length (errorStack ?s)) - ErrorReporterStackSize) (drop (length errs - ErrorReporterStackSize) errs @ [err])"
  proof -
    have "length (errorStack ?s) \<le> ErrorReporterStackSize" using len by simp
    then show ?thesis by (simp only: push_stack drop_map [symmetric] map_append snoc.IH list.map ctrl_error.simps)
  qed
  also have "\<dots> = drop (length (errs @ [err]) - ErrorReporterStackSize) (errs @ [err])"
  proof (cases "length errs < 10")
    case False
    then have "Suc (length errs - 10) = length errs - 9" by simp
    with False len show ?thesis by (simp add: ErrorReporterStackSize_def)
  qed (use len in \<open>simp add: ErrorReporterStackSize_def\<close>)
  finally show ?case by (simp add: Push_def)
qed (simp add: NewErrorReporter_def)

text \<open>
  C26. However many errors are pushed, the reporter keeps the last ten of them in
  their order, and every message of its report has at most 245 characters.
\<close>

theorem error_report_bounded:
  "let s = foldl (\<lambda>s err. Push sometimes oper name err s) (NewErrorReporter limiter ch) errs in
     map ce_error (errorStack s) = drop (length errs - 10) errs \<and> Reporter_Size s = min (length errs) 10
     \<and> length (Report text s) = Reporter_Size s \<and> list_all (\<lambda>m. length m \<le> 245) (Report text s)"
proof -
  let ?s = "foldl (\<lambda>s err. Push sometimes oper name err s) (NewErrorReporter limiter ch) errs"
  have "map ce_error (errorStack ?s) = drop (length errs - 10) errs"
    using pushes_stack [of sometimes oper name limiter ch errs] by (simp add: ErrorReporterStackSize_def)
  moreover from arg_cong [OF this, of length] have "length (errorStack ?s) = min (length errs) 10" by simp
  moreover have "length (trim_text m) \<le> 245" for m using trim_bound [of m] by (simp add: TrimPrefixSuffixLen_def)
  ultimately show ?thesis by (simp add: Let_def Reporter_Size_def Report_def list_all_iff)
qed

section \<open>Status\<close>

text \<open>The two outcomes of the construction of a controller.\<close>

definition built :: "('r \<Rightarrow> 'r \<times> bool) \<Rightarrow> ('s, 'l, 'r) DeclarativeController \<times> unit res \<Rightarrow> bool" where
  "built sometimes cr \<longleftrightarrow>
     (case cr of
        (ctl, Inr _) \<Rightarrow> errorStack (dc_reporter ctl) = []
      | (ctl, Inl err) \<Rightarrow> \<exists>ctl1. errorStack (dc_reporter ctl1) = [] \<and> ctl = fail_critical sometimes err ctl1)"

lemma built_fail: "errorStack (dc_reporter ctl) = [] \<Longrightarrow> built sometimes (fail_critical sometimes err ctl, Inl err)"
  by (auto simp: built_def)

lemma built_ok: "errorStack (dc_reporter ctl) = [] \<Longrightarrow> built sometimes (ctl, Inr ())"
  by (simp add: built_def)

lemma NewDeclarative_built: "built sometimes (snd (NewDeclarative K L M P S RT cl KindFor itoa sometimes limiter ch oper spec c))"
  unfolding NewDeclarative_def Let_def
  by (auto simp: NewErrorReporter_def intro!: built_fail built_ok split: sum.split prod.split)

lemma fail_critical_status:
  assumes "errorStack (dc_reporter ctl) = []"
  shows "map ce_error (errorStack (dc_reporter (fail_critical sometimes err ctl))) = [err]"
    "critical (dc_reporter (fail_critical sometimes err ctl))"
  using assms by (simp_all add: fail_critical_def PushCritical_def push_def ErrorReporterStackSize_def Let_def case_prod_unfold)

text \<open>
  C27. The status of a controller tells whether it was built: after a successful
  construction its condition is true and no error is reported; after any failure of the
  construction (empty name, no source, no target, unknown kinds, a source or watch that cannot
  be set up, an invalid pipeline) it is false and that error is reported.
\<close>

theorem construction_status:
  "let (c', ctl, r) = NewDeclarative K L M P S RT cl KindFor itoa sometimes limiter ch oper spec c;
       status = Declarative_GetStatus text now gen ctl
   in map cond_Status (st_Conditions status) = [if is_ok r then ''True'' else ''False'']
      \<and> st_LastErrors status = (case r of Inr _ \<Rightarrow> [] | Inl err \<Rightarrow> [trim_text (text err)])"
proof -
  obtain c' ctl r where new: "NewDeclarative K L M P S RT cl KindFor itoa sometimes limiter ch oper spec c = (c', ctl, r)"
    by (metis prod_cases3)
  have "map cond_Status (st_Conditions (Declarative_GetStatus text now gen ctl)) = [if is_ok r then ''True'' else ''False'']
      \<and> st_LastErrors (Declarative_GetStatus text now gen ctl) = (case r of Inr _ \<Rightarrow> [] | Inl err \<Rightarrow> [trim_text (text err)])"
  proof (cases r)
    case (Inl err)
    then obtain ctl1 where ctl1: "errorStack (dc_reporter ctl1) = []" "ctl = fail_critical sometimes err ctl1"
      using NewDeclarative_built [of sometimes K L M P S RT cl KindFor itoa limiter ch oper spec c] new by (auto simp: built_def)
    note st = fail_critical_status [OF ctl1(1), of sometimes err, folded ctl1(2)]
    then have "errorStack (dc_reporter ctl) \<noteq> []" by auto
    moreover from st(1) obtain e where "errorStack (dc_reporter ctl) = [e]" "ce_error e = err" by auto
    ultimately show ?thesis
      using st(2) Inl by (simp add: Declarative_GetStatus_def IsEmpty_def HasCritical_def Report_def Let_def is_ok_def)
  next
    case (Inr u)
    then have "errorStack (dc_reporter ctl) = []"
      using NewDeclarative_built [of sometimes K L M P S RT cl KindFor itoa limiter ch oper spec c] new by (auto simp: built_def)
    then show ?thesis using Inr by (simp add: Declarative_GetStatus_def IsEmpty_def Report_def Let_def is_ok_def)
  qed
  then show ?thesis by (simp add: new Let_def)
qed

end
