(* ===== verification/Controller_Laws.thy ===== *)
theory Controller_Laws
  imports Controllers Target_Laws Pipeline_Correct
begin

text \<open>
  From requests to the view cache: a cache mirrors a view when it holds an object with the fields
  of every document of the view and nothing else.  Writing the deltas by which the pipeline
  reports a change keeps the cache a mirror, so the reconciler maintains it.
\<close>

section \<open>Mirrors of a view\<close>

definition mirrors ::
    "'s k8s \<Rightarrow> (string \<Rightarrow> doc) \<Rightarrow> GroupVersionKind \<Rightarrow> (gval \<Rightarrow> gval \<Rightarrow> bool) \<Rightarrow> (string \<rightharpoonup> object) \<Rightarrow> (string \<Rightarrow> gint) \<Rightarrow> bool" where
  "mirrors K dk target R C V \<longleftrightarrow>
     (\<forall>x obj. C x = Some obj \<longrightarrow>
        (\<exists>k. V k \<noteq> 0 \<and> store_key K (view_obj K dk target k) = x \<and> fields_like R obj (view_obj K dk target k)))
     \<and> (\<forall>k. V k \<noteq> 0 \<longrightarrow> C (store_key K (view_obj K dk target k)) \<noteq> None)"

text \<open>What writing deltas makes of the content of a kind, key by key.\<close>

definition written :: "'s k8s \<Rightarrow> (gval \<Rightarrow> gval \<Rightarrow> bool) \<Rightarrow> Delta list \<Rightarrow> (string \<rightharpoonup> object) \<Rightarrow> (string \<rightharpoonup> object) \<Rightarrow> bool" where
  "written K R ds C C' \<longleftrightarrow>
     (\<forall>x. x \<notin> (\<lambda>d. store_key K (d_Object d)) ` set ds \<longrightarrow> C' x = C x)
     \<and> (\<forall>x \<in> (\<lambda>d. store_key K (d_Object d)) ` set ds. \<exists>d \<in> set ds. store_key K (d_Object d) = x
          \<and> (if d_Type d = Deleted then C' x = None else \<exists>obj. C' x = Some obj \<and> fields_like R obj (d_Object d)))"

lemma mirrors_written:
  assumes V: "is_view K dk target V" and V': "is_view K dk target V'" and m: "mirrors K dk target R C V"
    and ds: "emits K dk target V V' ds" and w: "written K R ds C C'"
  shows "mirrors K dk target R C' V'"
proof -
  let ?vo = "view_obj K dk target"
  let ?keys = "(\<lambda>d. store_key K (d_Object d)) ` set ds"
  from ds have mem: "d \<in> set ds \<longleftrightarrow> (\<exists>k. V' k \<noteq> 0 \<and> V k = 0 \<and> d = \<lparr>d_Object = ?vo k, d_Type = Upserted\<rparr>)
      \<or> (\<exists>k. V k \<noteq> 0 \<and> d = \<lparr>d_Object = ?vo k, d_Type = Deleted\<rparr> \<and> (\<forall>k'. V' k' \<noteq> 0 \<longrightarrow> store_key K (?vo k') \<noteq> store_key K (?vo k)))" for d
    unfolding emits_def by auto
  have new: "store_key K (?vo k) \<in> ?keys" if "V' k \<noteq> 0" "V k = 0" for k
  proof -
    have "\<lparr>d_Object = ?vo k, d_Type = Upserted\<rparr> \<in> set ds" using that mem by blast
    then show ?thesis by (rule rev_image_eqI) simp
  qed
  have gone: "store_key K (?vo k) \<in> ?keys" if "V k \<noteq> 0" "\<forall>k'. V' k' \<noteq> 0 \<longrightarrow> store_key K (?vo k') \<noteq> store_key K (?vo k)" for k
  proof -
    have "\<lparr>d_Object = ?vo k, d_Type = Deleted\<rparr> \<in> set ds" using that mem by blast
    then show ?thesis by (rule rev_image_eqI) simp
  qed
  have kept: "V k \<noteq> 0 \<longleftrightarrow> V' k \<noteq> 0" if nokey: "store_key K (?vo k) \<notin> ?keys" for k
  proof
    assume k: "V k \<noteq> 0"
    then obtain k' where k': "V' k' \<noteq> 0" "store_key K (?vo k') = store_key K (?vo k)" using gone nokey by blast
    then have "V k' \<noteq> 0" using new [of k'] nokey by auto
    then have "k' = k" using is_viewD(4) [OF V] k k'(2) by blast
    with k'(1) show "V' k \<noteq> 0" by simp
  qed (use new nokey in blast)
  have hit: "(V' k \<noteq> 0 \<longrightarrow> store_key K (?vo k) = x \<longrightarrow> C' x \<noteq> None)
      \<and> (C' x = Some obj \<longrightarrow> (\<exists>k. V' k \<noteq> 0 \<and> store_key K (?vo k) = x \<and> fields_like R obj (?vo k)))" if x: "x \<in> ?keys" for k x obj
  proof -
    obtain d where d: "d \<in> set ds" "store_key K (d_Object d) = x"
      "if d_Type d = Deleted then C' x = None else \<exists>obj. C' x = Some obj \<and> fields_like R obj (d_Object d)"
      using w x unfolding written_def by blast
    from d(1) mem consider k where "V' k \<noteq> 0" "d = \<lparr>d_Object = ?vo k, d_Type = Upserted\<rparr>"
      | k where "d = \<lparr>d_Object = ?vo k, d_Type = Deleted\<rparr>" "\<forall>k'. V' k' \<noteq> 0 \<longrightarrow> store_key K (?vo k') \<noteq> store_key K (?vo k)"
      by blast
    then show ?thesis using d(2,3) by cases auto
  qed
  have miss: "x \<notin> ?keys \<Longrightarrow> C' x = C x" for x using w by (simp add: written_def)
  show ?thesis unfolding mirrors_def
  proof (intro conjI allI impI)
    fix x obj assume x: "C' x = Some obj"
    show "\<exists>k. V' k \<noteq> 0 \<and> store_key K (?vo k) = x \<and> fields_like R obj (?vo k)"
    proof (cases "x \<in> ?keys")
      case False
      then have "C x = Some obj" using x miss by simp
      then obtain k where "V k \<noteq> 0" "store_key K (?vo k) = x" "fields_like R obj (?vo k)" using m unfolding mirrors_def by blast
      with kept False show ?thesis by blast
    qed (use hit x in blast)
  next
    fix k assume k: "V' k \<noteq> 0"
    show "C' (store_key K (?vo k)) \<noteq> None"
    proof (cases "store_key K (?vo k) \<in> ?keys")
      case False
      with kept k have "V k \<noteq> 0" by blast
      with m miss [OF False] show ?thesis by (simp add: mirrors_def)
    qed (use hit k in blast)
  qed
qed

lemma empty_mirror: "(\<And>k. V k = 0) \<Longrightarrow> mirrors K dk target R Map.empty V"
  by (simp add: mirrors_def)

section \<open>Writing deltas\<close>

lemma view_obj_plain:
  assumes "target_laws K M" and "plain_object (dk k)"
  shows "is_ok (target_object K target (dk k)) \<Longrightarrow> plain_object (view_obj K dk target k)"
  using target_lawsD(17) [OF assms(1)] meta_setterD(4) [OF target_lawsD(5) [OF assms(1)]]
    meta_setterD(4) [OF target_lawsD(6) [OF assms(1)]] assms(2)
  by (auto simp: view_obj_def target_object_def SetContent_def SetName_def bind_Inr_iff split: sum.splits)

lemma written_Cons:
  assumes "written K R ds C1 C'"
    and "if d_Type d = Deleted then C1 = C(store_key K (d_Object d) := None)
      else \<exists>obj. C1 = C(store_key K (d_Object d) \<mapsto> obj) \<and> fields_like R obj (d_Object d)"
  shows "written K R (d # ds) C C'"
proof -
  let ?keys = "(\<lambda>d. store_key K (d_Object d)) ` set ds" and ?key = "store_key K (d_Object d)"
  have miss: "x \<notin> ?keys \<Longrightarrow> C' x = C1 x" for x using assms(1) by (simp add: written_def)
  have C1: "x \<noteq> ?key \<Longrightarrow> C1 x = C x" for x using assms(2) by (auto split: if_splits)
  have "\<exists>e \<in> set (d # ds). store_key K (d_Object e) = x
      \<and> (if d_Type e = Deleted then C' x = None else \<exists>obj. C' x = Some obj \<and> fields_like R obj (d_Object e))"
    if "x \<in> insert ?key ?keys" for x
  proof (cases "x \<in> ?keys")
    case True
    then show ?thesis using assms(1) unfolding written_def by (meson list.set_intros(2))
  next
    case False
    then have "x = ?key" using that by blast
    with miss [OF False] assms(2) show ?thesis by (auto split: if_splits)
  qed
  then show ?thesis unfolding written_def using miss C1 by simp
qed

lemma write_deltas_view:
  assumes "view_target_ok oper t" and "equal_upto L R"
    and "\<forall>d \<in> set ds. d_Type d = Deleted \<or> d_Type d = Upserted \<and> plain_object (d_Object d)"
    and "view_inv K M (target_kind oper t) s"
  shows "\<exists>s'. write_deltas K M J (view_client K L J) steps KindFor oper t original ds s = (s', Inr ())
    \<and> view_inv K M (target_kind oper t) s' \<and> (\<forall>kind. kind \<noteq> target_kind oper t \<longrightarrow> view_lookup K s' kind = view_lookup K s kind)
    \<and> written K R ds (view_lookup K s (target_kind oper t)) (view_lookup K s' (target_kind oper t))"
  using assms(3,4)
proof (induction ds arbitrary: s)
  case (Cons d ds)
  let ?kind = "target_kind oper t" and ?key = "store_key K (d_Object d)"
  have "\<exists>s1. Target_Write K M J (view_client K L J) steps KindFor oper t (Some d) original s = (s1, Inr ()) \<and> view_inv K M ?kind s1
      \<and> (\<forall>kind. kind \<noteq> ?kind \<longrightarrow> view_lookup K s1 kind = view_lookup K s kind)
      \<and> (if d_Type d = Deleted then view_lookup K s1 ?kind = (view_lookup K s ?kind)(?key := None)
         else \<exists>obj. view_lookup K s1 ?kind = (view_lookup K s ?kind)(?key \<mapsto> obj) \<and> fields_like R obj (d_Object d))"
  proof (cases "d_Type d = Deleted")
    case True
    then have d: "d = \<lparr>d_Object = d_Object d, d_Type = Deleted\<rparr>" by simp
    obtain s1 where "Target_Write K M J (view_client K L J) steps KindFor oper t (Some d) original s = (s1, Inr ())" "view_inv K M ?kind s1"
      "view_lookup K s1 = (view_lookup K s)(?kind := (view_lookup K s ?kind)(?key := None))"
      using Target_Write_delete [OF assms(1) Cons.prems(2), of J L steps KindFor "d_Object d" original] d by metis
    with True show ?thesis by simp
  next
    case False
    then have d: "d = \<lparr>d_Object = d_Object d, d_Type = Upserted\<rparr>" "plain_object (d_Object d)" using Cons.prems(1) by auto
    obtain s1 obj where "Target_Write K M J (view_client K L J) steps KindFor oper t (Some d) original s = (s1, Inr ())" "view_inv K M ?kind s1"
      "fields_like R obj (d_Object d)" "view_lookup K s1 = (view_lookup K s)(?kind := (view_lookup K s ?kind)(?key \<mapsto> obj))"
      using Target_Write_upsert [OF assms(1) Cons.prems(2) assms(2) d(2), of Upserted J steps KindFor original] d(1) by auto
    with False show ?thesis by auto
  qed
  then obtain s1 where s1: "Target_Write K M J (view_client K L J) steps KindFor oper t (Some d) original s = (s1, Inr ())" "view_inv K M ?kind s1"
      "\<forall>kind. kind \<noteq> ?kind \<longrightarrow> view_lookup K s1 kind = view_lookup K s kind"
      "if d_Type d = Deleted then view_lookup K s1 ?kind = (view_lookup K s ?kind)(?key := None)
         else \<exists>obj. view_lookup K s1 ?kind = (view_lookup K s ?kind)(?key \<mapsto> obj) \<and> fields_like R obj (d_Object d)"
    by blast
  from Cons.IH [OF _ s1(2)] Cons.prems(1) obtain s' where s': "write_deltas K M J (view_client K L J) steps KindFor oper t original ds s1 = (s', Inr ())"
      "view_inv K M ?kind s'" "\<forall>kind. kind \<noteq> ?kind \<longrightarrow> view_lookup K s' kind = view_lookup K s1 kind"
      "written K R ds (view_lookup K s1 ?kind) (view_lookup K s' ?kind)"
    by auto
  show ?case using s' s1(1,3) written_Cons [OF s'(4) s1(4)] by simp
qed (simp add: written_def)

section \<open>Building a controller\<close>

text \<open>The kinds that flow through the pipeline.\<close>

definition incremental_kinds ::
    "('l, 'p) source_libs \<Rightarrow> (string \<Rightarrow> string \<Rightarrow> GroupVersionKind res) \<Rightarrow> string \<Rightarrow> 'l SourceSpec list \<Rightarrow> GroupVersionKind list res" where
  "incremental_kinds S KindFor oper ss =
     mapM (Source_GetGVK KindFor oper) (filter (\<lambda>s. Source_Type s \<noteq> ''Periodic'') (map (NewSource S) ss))"

lemma setup_sources_kinds:
  assumes "setup_sources K M P S R cl KindFor itoa oper name i ss base c = (c', Inr baseviews)"
  shows "\<exists>kinds. mapM (Source_GetGVK KindFor oper) (filter (\<lambda>s. Source_Type s \<noteq> ''Periodic'') ss) = Inr kinds \<and> baseviews = base @ kinds"
  using assms
proof (induction ss arbitrary: i base c)
  case (Cons s ss)
  then obtain gvk where gvk: "Source_GetGVK KindFor oper s = Inr gvk" by (cases "Source_GetGVK KindFor oper s") auto
  let ?base = "if Source_Type s = ''Periodic'' then base else base @ [gvk]"
  obtain c1 where "setup_sources K M P S R cl KindFor itoa oper name (i + 1) ss ?base c1 = (c', Inr baseviews)"
    using Cons.prems gvk by (auto simp: Let_def split: sum.split_asm prod.split_asm)
  from Cons.IH [OF this] gvk show ?case by auto
qed simp

lemma NewDeclarative_ok:
  assumes "NewDeclarative K L M P S R cl KindFor itoa sometimes limiter ch oper spec c = (c', ctl, Inr ())"
  shows "\<exists>sources gvk p. incremental_kinds S KindFor oper (cs_Sources spec) = Inr sources
    \<and> GetGVK KindFor oper (tg_Resource (cs_Target spec)) = Inr gvk \<and> Pipeline_New K L oper gvk sources (cs_Pipeline spec) = Inr p
    \<and> dc_pipeline ctl = Some p \<and> dc_target ctl = Some (NewTarget (cs_Target spec)) \<and> dc_op ctl = oper"
proof -
  have res: "tg_Resource (NewTarget (cs_Target spec)) = tg_Resource (cs_Target spec)" by (simp add: NewTarget_def)
  from assms obtain gvk where gvk: "GetGVK KindFor oper (tg_Resource (cs_Target spec)) = Inr gvk"
    by (cases "GetGVK KindFor oper (tg_Resource (cs_Target spec))") (auto simp: NewDeclarative_def Let_def res split: if_split_asm)
  from assms gvk obtain base where base: "setup_sources K M P S R cl KindFor itoa oper (cs_Name spec) 0 (map (NewSource S) (cs_Sources spec)) [] c
      = (c', Inr base)"
    by (auto simp: NewDeclarative_def Let_def res split: if_split_asm prod.split_asm sum.split_asm)
  with assms gvk obtain p where "Pipeline_New K L oper gvk base (cs_Pipeline spec) = Inr p" "dc_pipeline ctl = Some p"
      "dc_target ctl = Some (NewTarget (cs_Target spec))" "dc_op ctl = oper"
    by (auto simp: NewDeclarative_def Let_def res split: if_split_asm sum.split_asm)
  with setup_sources_kinds [OF base] gvk show ?thesis by (auto simp: incremental_kinds_def)
qed

lemma NewTarget_view: "view_target_ok oper t \<Longrightarrow> view_target_ok oper (NewTarget t)" "target_kind oper (NewTarget t) = target_kind oper t"
  by (auto simp: view_target_ok_def target_kind_def NewTarget_def)

section \<open>Runs of a controller\<close>

definition request_delta :: "'s k8s \<Rightarrow> Request \<Rightarrow> Delta" where
  "request_delta K req = \<lparr>d_Object = request_object K req, d_Type = rq_EventType req\<rparr>"

text \<open>A request for an object of a source whose delta fits the source caches and leads to a view again.\<close>

definition fits_request ::
    "'s k8s \<Rightarrow> libs \<Rightarrow> (string \<Rightarrow> doc) \<Rightarrow> ('s, 'l, 'r) DeclarativeController \<Rightarrow> Request \<Rightarrow> bool" where
  "fits_request K L dk ctl req \<longleftrightarrow> rq_EventType req \<in> {Added, Updated, Replaced, Deleted}
     \<and> (case dc_pipeline ctl of None \<Rightarrow> False | Some p \<Rightarrow> view_delta K L dk p (request_delta K req))"

inductive ctl_reaches ::
    "'s k8s \<Rightarrow> libs \<Rightarrow> (string \<Rightarrow> doc) \<Rightarrow> meta_libs \<Rightarrow> client_libs \<Rightarrow> 'c client \<Rightarrow> nat \<Rightarrow> (string \<Rightarrow> string \<Rightarrow> GroupVersionKind res)
      \<Rightarrow> ('r \<Rightarrow> 'r \<times> bool) \<Rightarrow> ('s, 'l, 'r) DeclarativeController \<Rightarrow> 'c \<Rightarrow> ('s, 'l, 'r) DeclarativeController \<Rightarrow> 'c \<Rightarrow> bool"
  for K L dk M J cl steps KindFor sometimes ctl0 c0 where
  ctl_start: "ctl_reaches K L dk M J cl steps KindFor sometimes ctl0 c0 ctl0 c0"
| ctl_step: "ctl_reaches K L dk M J cl steps KindFor sometimes ctl0 c0 ctl c \<Longrightarrow> fits_request K L dk ctl req \<Longrightarrow> iteration_order sched \<Longrightarrow>
    Incremental_Reconcile K sched M J cl steps KindFor sometimes req ctl c = (c', ctl', r) \<Longrightarrow>
    ctl_reaches K L dk M J cl steps KindFor sometimes ctl0 c0 ctl' c'"

text \<open>The invariant: the pipeline maintains its target cache, and the view cache mirrors the same view.\<close>

definition ctl_inv ::
    "'s k8s \<Rightarrow> meta_libs \<Rightarrow> (string \<Rightarrow> doc) \<Rightarrow> (gval \<Rightarrow> gval \<Rightarrow> bool) \<Rightarrow> (ChainGraph \<Rightarrow> (string \<Rightarrow> gint) list \<Rightarrow> bool)
      \<Rightarrow> ((string \<Rightarrow> gint) list \<Rightarrow> string \<Rightarrow> gint) \<Rightarrow> string \<Rightarrow> Target \<Rightarrow> GroupVersionKind list \<Rightarrow> PipelineOp list
      \<Rightarrow> ('s, 'l, 'r) DeclarativeController \<Rightarrow> ('s, 'h) ViewCache \<times> 'h calls \<Rightarrow> bool" where
  "ctl_inv K M dk R st snap oper t sources config ctl s \<longleftrightarrow> dc_op ctl = oper \<and> dc_target ctl = Some t
     \<and> view_inv K M (target_kind oper t) s
     \<and> (\<exists>p. dc_pipeline ctl = Some p \<and> maintained K dk st snap p \<and> p_sources p = sources \<and> p_config p = config
          \<and> p_target p = target_kind oper t
          \<and> mirrors K dk (target_kind oper t) R (view_lookup K s (target_kind oper t)) (snap (source_occs K (p_sourceCache p) sources)))"

lemma maintained_view: "maintained K dk st snap p \<Longrightarrow> is_view K dk (p_target p) (snap (source_occs K (p_sourceCache p) (p_sources p)))"
  by (simp add: maintained_def Let_def)

lemma emitted_plain:
  assumes "emits K dk target V V' ds" and "is_view K dk target V'" and "target_laws K M" and "\<And>k. plain_object (dk k)"
  shows "\<forall>d \<in> set ds. d_Type d = Deleted \<or> d_Type d = Upserted \<and> plain_object (d_Object d)"
proof
  fix d assume "d \<in> set ds"
  with assms(1) consider k where "V' k \<noteq> 0" "d = \<lparr>d_Object = view_obj K dk target k, d_Type = Upserted\<rparr>" | "d_Type d = Deleted"
    unfolding emits_def by (metis Delta.select_convs(2) UnE set_append)
  then show "d_Type d = Deleted \<or> d_Type d = Upserted \<and> plain_object (d_Object d)"
  proof cases
    case 1
    then show ?thesis using view_obj_plain [OF assms(3,4)] is_viewD(2) [OF assms(2)] by simp
  qed simp
qed

lemma reconcile_step:
  assumes laws: "cache_laws K" "target_laws K M" "equal_upto Lc R" "view_target_ok oper t" "\<And>k. plain_object (dk k)"
    and mat: "materializes K L dk sources config st snap"
    and inv: "ctl_inv K M dk R st snap oper t sources config ctl s"
    and req: "fits_request K L dk ctl req" and sched: "iteration_order sched"
  shows "\<exists>s' ctl'. Incremental_Reconcile K sched M J (view_client K Lc J) steps KindFor sometimes req ctl s = (s', ctl', Inr ())
    \<and> ctl_inv K M dk R st snap oper t sources config ctl' s'
    \<and> (\<forall>kind. kind \<noteq> target_kind oper t \<longrightarrow> view_lookup K s' kind = view_lookup K s kind)"
proof -
  let ?kind = "target_kind oper t"
  from inv obtain p where p: "dc_op ctl = oper" "dc_target ctl = Some t" "view_inv K M ?kind s" "dc_pipeline ctl = Some p"
      "maintained K dk st snap p" "p_sources p = sources" "p_config p = config" "p_target p = ?kind"
      "mirrors K dk ?kind R (view_lookup K s ?kind) (snap (source_occs K (p_sourceCache p) sources))"
    unfolding ctl_inv_def by blast
  have k8s: "k8s_laws K" using laws(1) by (simp add: cache_laws_def)
  have "view_delta K L dk p (request_delta K req)" and ev: "rq_EventType req \<in> {Added, Updated, Replaced, Deleted}"
    using req p(4) by (simp_all add: fits_request_def)
  from evaluate_config [OF k8s sched _ p(5) this(1)] mat p(6-8) obtain p' ds where p': "Pipeline_Evaluate K sched p (request_delta K req) = (p', Inr ds)"
      "maintained K dk st snap p'" "p_sources p' = sources" "p_target p' = ?kind" "p_config p' = config"
      "emits K dk ?kind (snap (source_occs K (p_sourceCache p) sources)) (snap (source_occs K (p_sourceCache p') sources)) ds"
    by auto
  have views: "is_view K dk ?kind (snap (source_occs K (p_sourceCache p) sources))" "is_view K dk ?kind (snap (source_occs K (p_sourceCache p') sources))"
    using maintained_view [OF p(5)] maintained_view [OF p'(2)] p(6,8) p'(3,4) by simp_all
  from write_deltas_view [OF laws(4,3) emitted_plain [OF p'(6) views(2) laws(2,5)] p(3)] obtain s' where
      s': "write_deltas K M J (view_client K Lc J) steps KindFor oper t (rq_Object req) ds s = (s', Inr ())"
      "view_inv K M ?kind s'" "\<forall>kind. kind \<noteq> ?kind \<longrightarrow> view_lookup K s' kind = view_lookup K s kind"
      "written K R ds (view_lookup K s ?kind) (view_lookup K s' ?kind)"
    by blast
  have "Incremental_Reconcile K sched M J (view_client K Lc J) steps KindFor sometimes req ctl s = (s', ctl\<lparr>dc_pipeline := Some p'\<rparr>, Inr ())"
    using p'(1) s'(1) ev p(1,2,4) by (simp add: Incremental_Reconcile_def request_delta_def apply_deltas_def report_def Let_def)
  moreover have "ctl_inv K M dk R st snap oper t sources config (ctl\<lparr>dc_pipeline := Some p'\<rparr>) s'"
    using p(1,2) p' s'(2) mirrors_written [OF views p(9) p'(6) s'(4)] by (simp add: ctl_inv_def)
  ultimately show ?thesis using s'(3) by blast
qed

lemma ctl_reaches_inv:
  assumes "ctl_reaches K L dk M J (view_client K Lc J) steps KindFor sometimes ctl0 s0 ctl s"
    and "cache_laws K" "target_laws K M" "equal_upto Lc R" "view_target_ok oper t" "\<And>k. plain_object (dk k)"
    and "materializes K L dk sources config st snap" and "ctl_inv K M dk R st snap oper t sources config ctl0 s0"
  shows "ctl_inv K M dk R st snap oper t sources config ctl s
    \<and> (\<forall>kind. kind \<noteq> target_kind oper t \<longrightarrow> view_lookup K s kind = view_lookup K s0 kind)"
  using assms(1)
proof (induction rule: ctl_reaches.induct)
  case (ctl_step ctl s req sched s' ctl' r)
  then have inv: "ctl_inv K M dk R st snap oper t sources config ctl s"
    and keep: "\<forall>kind. kind \<noteq> target_kind oper t \<longrightarrow> view_lookup K s kind = view_lookup K s0 kind" by simp_all
  from reconcile_step [OF assms(2-7) inv ctl_step.hyps(2,3), of J steps KindFor sometimes] ctl_step.hyps(4) keep show ?case by auto
qed (simp add: assms(8))

end
