(* ===== verification/Controller_Properties.thy ===== *)
theory Controller_Properties
  imports Controller_Laws Pipeline_Properties Reconciler_Properties
begin

text \<open>
  The property that spans controllers, pipelines, targets and the view cache: a declarative
  controller materializes its view in the view cache.
\<close>

section \<open>The view cache is the materialized view\<close>

lemma new_controller_inv:
  assumes "cache_laws K" and "target_laws K M" and "view_target_ok oper t"
    and "linear_config L dk sources config ops" and "Pipeline_New K L oper (target_kind oper t) sources config = Inr p"
    and "dc_op ctl = oper" "dc_target ctl = Some t" "dc_pipeline ctl = Some p"
    and "healthy c" and "view_contents K c (target_kind oper t) = Map.empty"
  shows "\<exists>st snap. materializes K L dk sources config st snap \<and> ctl_inv K M dk R st snap oper t sources config ctl (c, log)"
proof -
  have laws: "k8s_laws K" "store_laws K" using assms(1) by (simp_all add: cache_laws_def k8s_laws_def)
  from linear_config_new [OF laws(1) assms(4), of oper "target_kind oper t"] assms(5) obtain st snap where
      p: "materializes K L dk sources config st snap" "maintained K dk st snap p" "p_sources p = sources" "p_config p = config"
      "p_target p = target_kind oper t"
    by auto
  have "source_occs K (p_sourceCache p) sources = map (\<lambda>_ _. 0) sources"
    using Pipeline_New_fields(4) [OF assms(5)] empty_source_occs [OF laws(2)] by simp
  then have "snap (source_occs K (p_sourceCache p) sources) k = 0" for k using p(1) by (simp add: materializes_def)
  then have "mirrors K dk (target_kind oper t) R (view_lookup K (c, log) (target_kind oper t)) (snap (source_occs K (p_sourceCache p) sources))"
    unfolding view_lookup_def fst_conv assms(10) by (rule empty_mirror)
  moreover have "view_inv K M (target_kind oper t) (c, log)"
    using assms(1,2,9,10) target_kind_ok [OF assms(3)] by (simp add: view_inv_def)
  ultimately show ?thesis using p assms(6-8) by (auto simp: ctl_inv_def)
qed

text \<open>
  C1. A declarative controller with a pipeline of linear operations and a view as its
  target, built on a view cache that holds nothing of the target kind.  However many requests
  that fit the source caches its incremental reconciler has handled, the view cache holds for the
  target kind exactly one object for every document that the configured operators produce on the
  whole content of the source caches, with the fields of that document; the other kinds are as
  they were; and handling the next request succeeds.
\<close>

theorem controller_maintains_view:
  assumes "cache_laws K" and "target_laws K M" and "equal_upto Lc R" and "view_target_ok oper (cs_Target spec)"
    and "\<And>k. plain_object (dk k)"
    and "NewDeclarative K L M P S RT cl KindFor itoa sometimes limiter ch oper spec c = ((c0, log0), ctl0, Inr ())"
    and "incremental_kinds S KindFor oper (cs_Sources spec) = Inr sources" and "linear_config L dk sources (cs_Pipeline spec) ops"
    and "healthy c0" and "view_contents K c0 (target_kind oper (cs_Target spec)) = Map.empty"
    and "ctl_reaches K L dk M J (view_client K Lc J) steps KindFor sometimes ctl0 (c0, log0) ctl (c1, log1)"
  shows "\<exists>p out. dc_pipeline ctl = Some p \<and> snapshot_result K L sources (cs_Pipeline spec) (p_sourceCache p) = Inr out
      \<and> is_view K dk (target_kind oper (cs_Target spec)) (cnt out)
      \<and> mirrors K dk (target_kind oper (cs_Target spec)) R (view_contents K c1 (target_kind oper (cs_Target spec))) (cnt out)
      \<and> (\<forall>kind. kind \<noteq> target_kind oper (cs_Target spec) \<longrightarrow> view_contents K c1 kind = view_contents K c0 kind)
      \<and> (\<forall>req sched. fits_request K L dk ctl req \<longrightarrow> iteration_order sched \<longrightarrow>
           snd (snd (Incremental_Reconcile K sched M J (view_client K Lc J) steps KindFor sometimes req ctl (c1, log1))) = Inr ())"
proof -
  let ?t = "NewTarget (cs_Target spec)" and ?kind = "target_kind oper (cs_Target spec)"
  note t = NewTarget_view(1) [OF assms(4)]
  from NewDeclarative_ok [OF assms(6)] assms(7) target_GetGVK [OF assms(4), of KindFor] obtain p0 where
      p0: "Pipeline_New K L oper ?kind sources (cs_Pipeline spec) = Inr p0"
      "dc_pipeline ctl0 = Some p0" "dc_target ctl0 = Some ?t" "dc_op ctl0 = oper"
    by auto
  from new_controller_inv [OF assms(1,2) t assms(8), of p0 ctl0 c0 R log0] p0 assms(9,10) obtain st snap where
      mat: "materializes K L dk sources (cs_Pipeline spec) st snap"
      and inv0: "ctl_inv K M dk R st snap oper ?t sources (cs_Pipeline spec) ctl0 (c0, log0)"
    by (auto simp: NewTarget_view(2))
  from ctl_reaches_inv [OF assms(11,1-3) t assms(5) mat inv0] have
      inv: "ctl_inv K M dk R st snap oper ?t sources (cs_Pipeline spec) ctl (c1, log1)"
      and keep: "\<forall>kind. kind \<noteq> ?kind \<longrightarrow> view_contents K c1 kind = view_contents K c0 kind"
    by (simp_all add: NewTarget_view(2) view_lookup_def)
  from inv obtain p where p: "dc_pipeline ctl = Some p" "maintained K dk st snap p" "p_sources p = sources" "p_target p = ?kind"
      "mirrors K dk ?kind R (view_contents K c1 ?kind) (snap (source_occs K (p_sourceCache p) sources))"
    by (auto simp: ctl_inv_def view_lookup_def NewTarget_view(2))
  from p(2) have "sources_ok K dk (p_sourceCache p)" by (simp add: maintained_def Let_def)
  with mat obtain out where out: "snapshot_result K L sources (cs_Pipeline spec) (p_sourceCache p) = Inr out"
      "cnt out = snap (source_occs K (p_sourceCache p) sources)"
    by (auto simp: materializes_def)
  have next_ok: "snd (snd (Incremental_Reconcile K sched M J (view_client K Lc J) steps KindFor sometimes req ctl (c1, log1))) = Inr ()"
    if "fits_request K L dk ctl req" "iteration_order sched" for req sched
    using reconcile_step [OF assms(1-3) t assms(5) mat inv that, of J steps KindFor sometimes] by auto
  show ?thesis
    using out p(1,5) keep next_ok maintained_view [OF p(2)] p(3,4) by (intro exI [of _ p] exI [of _ out]) simp
qed

section \<open>A controller of pods\<close>

definition pod_spec :: "unit ControllerSpec" where
  "pod_spec = \<lparr>cs_Name = ''pods'',
     cs_Sources = [\<lparr>ss_Resource = \<lparr>rs_Group = Some [], rs_Version = Some ''v1'', rs_Kind = ''Pod''\<rparr>, ss_Type = [], ss_Namespace = None,
       ss_LabelSelector = None, ss_Predicate = None, ss_Parameters = None\<rparr>],
     cs_Pipeline = pod_config, cs_Target = pod_target\<rparr>"

definition no_preds :: "unit pred_libs" where
  "no_preds = \<lparr>GenerationChangedPredicate = (), ResourceVersionChangedPredicate = (), LabelChangedPredicate = (),
     AnnotationChangedPredicate = (), pred_And = (\<lambda>_. ()), pred_Or = (\<lambda>_. ()), pred_Not = (\<lambda>_. ())\<rparr>"

definition no_sources :: "(unit, unit) source_libs" where
  "no_sources = \<lparr>ParseDuration = (\<lambda>_. Inl (Error ''duration'')), Duration_String = (\<lambda>_. []), parse_params = (\<lambda>_. Inr []),
     time_Now = [], LabelSelectorPredicate = (\<lambda>_. Inr ()), NewPredicateFuncs = (\<lambda>_. ())\<rparr>"

definition any_runtime :: "unit runtime_libs" where
  "any_runtime = \<lparr>NewTyped = (\<lambda>_ _. Inr ()), Watch = (\<lambda>_ _. Inr ())\<rparr>"

definition always :: "unit \<Rightarrow> unit \<times> bool" where
  "always u = (u, True)"

definition pod_client :: "((object list, string) ViewCache \<times> string calls) client" where
  "pod_client = view_client list_k8s list_libs no_nested"

definition pod_controller :: "(object list, unit, unit) DeclarativeController" where
  "pod_controller = \<lparr>dc_reporter = NewErrorReporter () None, dc_name = ''pods'', dc_op = ''op'', dc_config = pod_spec,
     dc_sources = map (NewSource no_sources) (cs_Sources pod_spec), dc_target = Some pod_target, dc_pipeline = Some pod_pipeline\<rparr>"

definition pod_request :: Request where
  "pod_request = \<lparr>rq_Namespace = ''default'', rq_Name = ''a'', rq_EventType = Added, rq_GVK = pod_gvk, rq_Object = Some pod_a\<rparr>"

lemma pod_target_facts: "view_target_ok ''op'' pod_target" "target_kind ''op'' pod_target = view_gvk" "NewTarget pod_target = pod_target"
  by (simp_all add: view_target_ok_def target_kind_def pod_target_def view_gvk_def NewTarget_def)

lemma pod_kind: "GetGVK no_kinds ''op'' \<lparr>rs_Group = Some [], rs_Version = Some ''v1'', rs_Kind = ''Pod''\<rparr> = Inr pod_gvk"
  by (simp add: GetGVK_def pod_gvk_def Group_def)

lemma pod_kinds: "incremental_kinds no_sources no_kinds ''op'' (cs_Sources pod_spec) = Inr [pod_gvk]"
  by (simp add: incremental_kinds_def pod_spec_def NewSource_def Source_GetGVK_def pod_kind)

lemma pod_controller_new:
  "NewDeclarative list_k8s path_libs list_meta no_preds no_sources any_runtime pod_client no_kinds (\<lambda>_. ''0'') always () None ''op'' pod_spec (new_cache, [])
    = ((new_cache, []), pod_controller, Inr ())"
proof -
  have "setup_sources list_k8s list_meta no_preds no_sources any_runtime pod_client no_kinds (\<lambda>_. ''0'') ''op'' ''pods'' 0
      (map (NewSource no_sources) (cs_Sources pod_spec)) [] (new_cache, []) = ((new_cache, []), Inr [pod_gvk])"
    by (simp add: pod_spec_def NewSource_def Source_GetGVK_def pod_kind any_runtime_def watchSource_GetSource_def watch_predicates_def)
  moreover have "pod_target \<noteq> emptyTarget" by (simp add: pod_target_def emptyTarget_def)
  ultimately show ?thesis
    using target_GetGVK [OF pod_target_facts(1), of no_kinds] pod_target_facts(2,3) pod_new
    by (simp add: NewDeclarative_def Let_def pod_controller_def) (simp add: pod_spec_def)
qed

lemma plain_pods: "plain_object (dk_pods k)"
proof -
  have "plain_object pod_a" "plain_object pod_b"
    by (simp_all add: plain_object_def meta_ok_def pod_a_def pod_b_def) (code_simp, code_simp)
  then show ?thesis by (simp add: dk_pods_def)
qed

lemma Evaluate_sourceCache: "p_sourceCache (fst (Pipeline_Evaluate K sched p delta)) = fst (ConvertDeltaToZSet K (p_sourceCache p) delta)"
  by (auto simp: Pipeline_Evaluate_def reconcile_zset_def split: prod.split sum.split)

lemma Reconcile_pipeline:
  assumes "dc_pipeline ctl = Some p" and "rq_EventType req \<in> {Added, Updated, Replaced, Deleted}"
    and "Incremental_Reconcile K sched M J cl steps KindFor sometimes req ctl c = (c', ctl', r)"
  shows "dc_pipeline ctl' = Some (fst (Pipeline_Evaluate K sched p (request_delta K req)))"
  using assms by (auto simp: Incremental_Reconcile_def request_delta_def apply_deltas_def report_def Let_def split: prod.splits sum.splits)

lemma pod_fits_request: "fits_request list_k8s path_libs dk_pods pod_controller pod_request"
proof -
  have "request_delta list_k8s pod_request = add_a" by (simp add: request_delta_def request_object_def pod_request_def add_a_def)
  then show ?thesis using pod_view_delta by (simp add: fits_request_def pod_controller_def) (simp add: pod_request_def)
qed

text \<open>The controller handles the creation of a pod, and the view object is in the cache.\<close>

theorem controller_maintains_view_witness:
  "\<exists>c1 log1 ctl1 obj. Incremental_Reconcile list_k8s sorted_order list_meta no_nested pod_client 5 no_kinds always pod_request
      pod_controller (new_cache, []) = ((c1, log1), ctl1, Inr ())
    \<and> view_contents list_k8s c1 view_gvk ''default/a'' = Some obj \<and> map_of obj ''spec'' = map_of pod_a ''spec''"
proof -
  let ?reaches = "ctl_reaches list_k8s path_libs dk_pods list_meta no_nested pod_client 5 no_kinds always pod_controller (new_cache, [])"
  have eq: "equal_upto list_libs (=)" by (simp add: equal_upto_def list_libs_def option.rel_eq)
  have order: "iteration_order sorted_order" by (simp add: iteration_order_def sorted_order_def)
  have empty: "view_contents list_k8s new_cache (target_kind ''op'' (cs_Target pod_spec)) = Map.empty"
    by (simp add: view_contents_def NewViewCache_def)
  have spec: "view_target_ok ''op'' (cs_Target pod_spec)" "cs_Pipeline pod_spec = pod_config" "target_kind ''op'' (cs_Target pod_spec) = view_gvk"
    using pod_target_facts by (simp_all add: pod_spec_def)
  note main = controller_maintains_view [OF list_cache_laws list_target_laws eq spec(1) plain_pods pod_controller_new pod_kinds
    pod_linear_config [folded spec(2)] new_cache_healthy empty, unfolded spec(2,3), where J = no_nested and steps = 5, folded pod_client_def]
  obtain c1 log1 ctl1 where run: "Incremental_Reconcile list_k8s sorted_order list_meta no_nested pod_client 5 no_kinds always pod_request
      pod_controller (new_cache, []) = ((c1, log1), ctl1, Inr ())"
    using main [OF ctl_reaches.ctl_start] pod_fits_request order by (metis prod.collapse)
  have r: "?reaches ctl1 (c1, log1)"
    by (rule ctl_reaches.ctl_step [OF ctl_reaches.ctl_start pod_fits_request order run])
  from main [OF r] obtain p out where p: "dc_pipeline ctl1 = Some p" "snapshot_result list_k8s path_libs [pod_gvk] pod_config (p_sourceCache p) = Inr out"
      "mirrors list_k8s dk_pods view_gvk (=) (view_contents list_k8s c1 view_gvk) (cnt out)"
    by blast
  have "dc_pipeline ctl1 = Some (fst (Pipeline_Evaluate list_k8s sorted_order pod_pipeline add_a))"
    using Reconcile_pipeline [OF _ _ run] by (simp add: pod_controller_def pod_request_def request_delta_def request_object_def add_a_def)
  then have out: "out = zset_pod" using p(1,2) pod_snapshot by (simp add: Evaluate_sourceCache pod_pipeline_fields)
  have vo: "view_obj list_k8s dk_pods view_gvk (pod_key pod_a) = (case target_object list_k8s view_gvk pod_a of Inr obj \<Rightarrow> obj | Inl _ \<Rightarrow> [])"
    using pod_keys(3) by (simp add: view_obj_def dk_pods_def)
  have key: "store_key list_k8s (view_obj list_k8s dk_pods view_gvk (pod_key pod_a)) = ''default/a''"
    "map_of (view_obj list_k8s dk_pods view_gvk (pod_key pod_a)) ''spec'' = map_of pod_a ''spec''"
    unfolding vo by code_simp+
  obtain obj where obj: "view_contents list_k8s c1 view_gvk ''default/a'' = Some obj"
  proof -
    have "cnt zset_pod (pod_key pod_a) \<noteq> 0" by (simp add: zset_pod_cnt)
    then have "view_contents list_k8s c1 view_gvk ''default/a'' \<noteq> None" using p(3) key(1) unfolding mirrors_def out by metis
    then show ?thesis using that by blast
  qed
  then have "fields_like (=) obj (view_obj list_k8s dk_pods view_gvk (pod_key pod_a))"
    using p(3) unfolding mirrors_def out by (metis zset_pod_cnt)
  then have "map_of obj ''spec'' = map_of pod_a ''spec''" using key(2) unfolding fields_like_def option.rel_eq by simp
  with run obj show ?thesis by blast
qed

end
