(* ===== verification/Composite.thy ===== *)
theory Composite
  imports Reconciler
begin

text \<open>
  The composite cache and client (\<^verbatim>\<open>pkg/cache/composite.go\<close>, \<^verbatim>\<open>client.go\<close>): views go to the view
  cache, everything else to the cache and the client of controller-runtime, which are parameters
  (records \<open>native_cache\<close> and \<open>native_client\<close>) over a state \<open>'n\<close> of the cluster.  A missing native
  cache or client is a nil interface, and calling it panics.

  A view cache is the shared \<^verbatim>\<open>ViewCache\<close> itself or a \<^verbatim>\<open>DelegatingViewCache\<close> on top of it; both
  work on the same shared state, and the client of either is the client of the shared cache.
\<close>

section \<open>State\<close>

record ('s, 'h, 'n) world =
  w_view :: "('s, 'h) ViewCache"
  w_calls :: "'h calls"
  w_native :: 'n

record ('n, 'l, 'f) native_client = "'n client" +
  n_Patch :: "object \<Rightarrow> (object \<Rightarrow> string res) \<Rightarrow> 'n \<Rightarrow> 'n \<times> object \<times> unit res"
  n_DeleteAllOf :: "object \<Rightarrow> ('l, 'f) ListOption list \<Rightarrow> 'n \<Rightarrow> 'n \<times> unit res"
  n_StatusGet :: "object \<Rightarrow> object \<Rightarrow> 'n \<Rightarrow> 'n \<times> doc res"
  n_StatusCreate :: "object \<Rightarrow> object \<Rightarrow> 'n \<Rightarrow> 'n \<times> unit res"
  n_StatusPatch :: "object \<Rightarrow> (object \<Rightarrow> string res) \<Rightarrow> 'n \<Rightarrow> 'n \<times> object \<times> unit res"

record ('n, 'l, 'f, 'i) native_cache =
  nc_Get :: "string \<Rightarrow> string \<Rightarrow> object \<Rightarrow> 'n \<Rightarrow> 'n \<times> object res"
  nc_List :: "GroupVersionKind \<Rightarrow> object list \<Rightarrow> ('l, 'f) ListOption list \<Rightarrow> 'n \<Rightarrow> 'n \<times> object list res"
  nc_GetInformerForKind :: "GroupVersionKind \<Rightarrow> 'n \<Rightarrow> 'n \<times> 'i res"
  nc_RemoveInformer :: "object \<Rightarrow> 'n \<Rightarrow> 'n \<times> unit res"
  nc_IndexField :: "object \<Rightarrow> string \<Rightarrow> 'n \<Rightarrow> 'n \<times> unit res"
  nc_WaitForCacheSync :: "'n \<Rightarrow> 'n \<times> bool res"
  nc_Start :: "'n \<Rightarrow> 'n"

datatype view_cache = Shared | Delegated DelegatingViewCache

record ('n, 'l, 'f, 'i) CompositeCache =
  cc_defaultCache :: "('n, 'l, 'f, 'i) native_cache option"
  cc_viewCache :: view_cache

definition nil_call :: error where
  "nil_call = Panic ''invalid memory address or nil pointer dereference''"

text \<open>An operation of the view cache or of a native object that may be nil, on the whole state.\<close>

definition view_op ::
    "(('s, 'h) ViewCache \<Rightarrow> ('s, 'h) ViewCache \<times> 'h calls \<times> 'r) \<Rightarrow> ('s, 'h, 'n) world \<Rightarrow> ('s, 'h, 'n) world \<times> 'r" where
  "view_op f w = (case f (w_view w) of (c, calls, r) \<Rightarrow> (w\<lparr>w_view := c, w_calls := w_calls w @ calls\<rparr>, r))"

definition native_op ::
    "'r \<Rightarrow> 'a option \<Rightarrow> ('a \<Rightarrow> 'n \<Rightarrow> 'n \<times> 'r) \<Rightarrow> ('s, 'h, 'n) world \<Rightarrow> ('s, 'h, 'n) world \<times> 'r" where
  "native_op panic n f w =
     (case n of None \<Rightarrow> (w, panic) | Some a \<Rightarrow> (case f a (w_native w) of (s, r) \<Rightarrow> (w\<lparr>w_native := s\<rparr>, r)))"

text \<open>Reads make no calls to handlers.\<close>

definition quiet :: "(('s, 'h) ViewCache \<Rightarrow> ('s, 'h) ViewCache \<times> 'r) \<Rightarrow> ('s, 'h) ViewCache \<Rightarrow> ('s, 'h) ViewCache \<times> 'h calls \<times> 'r" where
  "quiet f c = (case f c of (c', r) \<Rightarrow> (c', [], r))"

section \<open>The composite cache (\<^verbatim>\<open>composite.go\<close>)\<close>

text \<open>
  The view cache that the options provide: absent, a view cache, or a cache of another type
  (\<open>Some None\<close>), for which a new view cache is made.  A native cache is made from the REST
  configuration, if there is one.
\<close>

definition NewCompositeCache ::
    "(unit \<Rightarrow> ('n, 'l, 'f, 'i) native_cache res) option \<Rightarrow> ('n, 'l, 'f, 'i) native_cache option \<Rightarrow> view_cache option option
      \<Rightarrow> ('n, 'l, 'f, 'i) CompositeCache res" where
  "NewCompositeCache config default_cache view =
     bind (case default_cache of
             Some dc \<Rightarrow> Inr (Some dc)
           | None \<Rightarrow> (case config of None \<Rightarrow> Inr None | Some new \<Rightarrow> bind (new ()) (\<lambda>dc. Inr (Some dc)))) (\<lambda>defaultCache.
     Inr \<lparr>cc_defaultCache = defaultCache,
          cc_viewCache = (case view of None \<Rightarrow> Shared | Some None \<Rightarrow> Shared | Some (Some vc) \<Rightarrow> vc)\<rparr>)"

definition interface_Get :: "'s k8s \<Rightarrow> view_cache \<Rightarrow> string \<Rightarrow> string \<Rightarrow> GroupVersionKind \<Rightarrow> ('s, 'h) ViewCache \<Rightarrow> ('s, 'h) ViewCache \<times> object res" where
  "interface_Get K v ns name gvk c = (case v of Shared \<Rightarrow> Get_view K ns name gvk c | Delegated _ \<Rightarrow> Delegating_Get K ns name gvk c)"

definition interface_List ::
    "'s k8s \<Rightarrow> ('l, 'f) cache_libs \<Rightarrow> view_cache \<Rightarrow> GroupVersionKind \<Rightarrow> object list \<Rightarrow> ('l, 'f) ListOption list
      \<Rightarrow> ('s, 'h) ViewCache \<Rightarrow> ('s, 'h) ViewCache \<times> object list res" where
  "interface_List K L v gvk items opts c =
     (case v of Shared \<Rightarrow> List_view K L gvk items opts c | Delegated _ \<Rightarrow> Delegating_List K L gvk items opts c)"

definition interface_GetInformerForKind ::
    "'s k8s \<Rightarrow> view_cache \<Rightarrow> GroupVersionKind \<Rightarrow> ('s, 'h) ViewCache \<Rightarrow> ('s, 'h) ViewCache \<times> view_cache \<times> nat res" where
  "interface_GetInformerForKind K v gvk c =
     (case v of
        Shared \<Rightarrow> (case GetInformerForKind K gvk c of (c1, r) \<Rightarrow> (c1, Shared, r))
      | Delegated d \<Rightarrow> (case Delegating_GetInformerForKind K gvk d c of (d1, c1, r) \<Rightarrow> (c1, Delegated d1, r)))"

definition interface_RemoveInformer ::
    "'s k8s \<Rightarrow> view_cache \<Rightarrow> object \<Rightarrow> ('s, 'h) ViewCache \<Rightarrow> ('s, 'h) ViewCache \<times> view_cache \<times> unit res" where
  "interface_RemoveInformer K v obj c =
     (case v of
        Shared \<Rightarrow> (RemoveInformer K obj c, Shared, Inr ())
      | Delegated d \<Rightarrow> (case Delegating_RemoveInformer K obj d c of (d1, c1, r) \<Rightarrow> (c1, Delegated d1, r)))"

text \<open>An informer is the address of one of the view cache, or one of the native cache.\<close>

definition Composite_GetInformerForKind ::
    "'s k8s \<Rightarrow> GroupVersionKind \<Rightarrow> ('n, 'l, 'f, 'i) CompositeCache \<Rightarrow> ('s, 'h, 'n) world
      \<Rightarrow> ('s, 'h, 'n) world \<times> ('n, 'l, 'f, 'i) CompositeCache \<times> (nat + 'i) res" where
  "Composite_GetInformerForKind K gvk cc w =
     (if IsViewKind gvk
      then (case view_op (quiet (interface_GetInformerForKind K (cc_viewCache cc) gvk)) w of
              (w1, v, r) \<Rightarrow> (w1, cc\<lparr>cc_viewCache := v\<rparr>, bind r (\<lambda>a. Inr (Inl a))))
      else (case native_op (Inl nil_call) (cc_defaultCache cc) (\<lambda>dc. nc_GetInformerForKind dc gvk) w of
              (w1, r) \<Rightarrow> (w1, cc, bind r (\<lambda>i. Inr (Inr i)))))"

definition Composite_GetInformer ::
    "'s k8s \<Rightarrow> object \<Rightarrow> ('n, 'l, 'f, 'i) CompositeCache \<Rightarrow> ('s, 'h, 'n) world
      \<Rightarrow> ('s, 'h, 'n) world \<times> ('n, 'l, 'f, 'i) CompositeCache \<times> (nat + 'i) res" where
  "Composite_GetInformer K obj cc w = Composite_GetInformerForKind K (u_gvk K obj) cc w"

definition Composite_RemoveInformer ::
    "'s k8s \<Rightarrow> object \<Rightarrow> ('n, 'l, 'f, 'i) CompositeCache \<Rightarrow> ('s, 'h, 'n) world
      \<Rightarrow> ('s, 'h, 'n) world \<times> ('n, 'l, 'f, 'i) CompositeCache \<times> unit res" where
  "Composite_RemoveInformer K obj cc w =
     (if IsViewKind (u_gvk K obj)
      then (case view_op (quiet (interface_RemoveInformer K (cc_viewCache cc) obj)) w of
              (w1, v, r) \<Rightarrow> (w1, cc\<lparr>cc_viewCache := v\<rparr>, r))
      else (case native_op (Inl nil_call) (cc_defaultCache cc) (\<lambda>dc. nc_RemoveInformer dc obj) w of (w1, r) \<Rightarrow> (w1, cc, r)))"

text \<open>
  \<^verbatim>\<open>Start\<close> until the context ends: the informers of the view cache stop, and a delegating cache
  takes its informers out of the registry.
\<close>

definition stop_informers :: "(GroupVersionKind \<times> nat) list \<Rightarrow> ('s, 'h) ViewCache \<Rightarrow> ('s, 'h) ViewCache" where
  "stop_informers informers c = c\<lparr>vc_heap := foldl (\<lambda>h (_, a). h[a := Informer_Run (h ! a)]) (vc_heap c) informers\<rparr>"

definition ViewCache_Start :: "('s, 'h) ViewCache \<Rightarrow> ('s, 'h) ViewCache" where
  "ViewCache_Start c = stop_informers (vc_informers c) c"

definition Delegating_Start :: "DelegatingViewCache \<Rightarrow> ('s, 'h) ViewCache \<Rightarrow> ('s, 'h) ViewCache" where
  "Delegating_Start d c = Delegating_shutdown d (stop_informers (dc_informers d) c)"

definition Composite_Start :: "('n, 'l, 'f, 'i) CompositeCache \<Rightarrow> ('s, 'h, 'n) world \<Rightarrow> ('s, 'h, 'n) world" where
  "Composite_Start cc w =
     (let w1 = (case cc_defaultCache cc of None \<Rightarrow> w | Some dc \<Rightarrow> w\<lparr>w_native := nc_Start dc (w_native w)\<rparr>) in
      w1\<lparr>w_view := (case cc_viewCache cc of Shared \<Rightarrow> ViewCache_Start (w_view w1) | Delegated d \<Rightarrow> Delegating_Start d (w_view w1))\<rparr>)"

text \<open>View caches are always in sync.\<close>

definition View_WaitForCacheSync :: "view_cache \<Rightarrow> bool" where
  "View_WaitForCacheSync v = True"

definition Composite_WaitForCacheSync :: "('n, 'l, 'f, 'i) CompositeCache \<Rightarrow> ('s, 'h, 'n) world \<Rightarrow> ('s, 'h, 'n) world \<times> bool res" where
  "Composite_WaitForCacheSync cc w =
     (if View_WaitForCacheSync (cc_viewCache cc)
      then native_op (Inl nil_call) (cc_defaultCache cc) nc_WaitForCacheSync w else (w, Inr False))"

definition View_IndexField :: "unit res" where
  "View_IndexField = Inl (Error ''field indexing is not supported for ViewCache'')"

definition Composite_IndexField ::
    "'s k8s \<Rightarrow> object \<Rightarrow> string \<Rightarrow> ('n, 'l, 'f, 'i) CompositeCache \<Rightarrow> ('s, 'h, 'n) world \<Rightarrow> ('s, 'h, 'n) world \<times> unit res" where
  "Composite_IndexField K obj field cc w =
     (if IsViewKind (u_gvk K obj) then (w, View_IndexField)
      else native_op (Inl nil_call) (cc_defaultCache cc) (\<lambda>dc. nc_IndexField dc obj field) w)"

definition CompositeCache_Get ::
    "'s k8s \<Rightarrow> string \<Rightarrow> string \<Rightarrow> object \<Rightarrow> ('n, 'l, 'f, 'i) CompositeCache \<Rightarrow> ('s, 'h, 'n) world \<Rightarrow> ('s, 'h, 'n) world \<times> object res" where
  "CompositeCache_Get K ns name obj cc w =
     (if IsViewKind (u_gvk K obj) then view_op (quiet (interface_Get K (cc_viewCache cc) ns name (u_gvk K obj))) w
      else native_op (Inl nil_call) (cc_defaultCache cc) (\<lambda>dc. nc_Get dc ns name obj) w)"

definition CompositeCache_List ::
    "'s k8s \<Rightarrow> ('l, 'f) cache_libs \<Rightarrow> GroupVersionKind \<Rightarrow> object list \<Rightarrow> ('l, 'f) ListOption list \<Rightarrow> ('n, 'l, 'f, 'i) CompositeCache
      \<Rightarrow> ('s, 'h, 'n) world \<Rightarrow> ('s, 'h, 'n) world \<times> object list res" where
  "CompositeCache_List K L gvk items opts cc w =
     (if IsViewKind gvk then view_op (quiet (interface_List K L (cc_viewCache cc) gvk items opts)) w
      else native_op (Inl nil_call) (cc_defaultCache cc) (\<lambda>dc. nc_List dc gvk items opts) w)"

section \<open>The composite client (\<^verbatim>\<open>client.go\<close>)\<close>

text \<open>
  A cache of the manager: a composite cache, a view cache, or a native one.  The view client is
  set only from a composite cache; without it the client of views is a nil pointer.
\<close>

datatype ('n, 'l, 'f, 'i) any_cache =
    AComposite "('n, 'l, 'f, 'i) CompositeCache"
  | AView view_cache
  | ANative "('n, 'l, 'f, 'i) native_cache"

record ('n, 'l, 'f, 'i) CompositeClient =
  cl_Client :: "('n, 'l, 'f) native_client option"
  cl_compositeCache :: "('n, 'l, 'f, 'i) any_cache option"
  cl_viewClient :: bool

definition NewCompositeClient :: "(unit \<Rightarrow> ('n, 'l, 'f) native_client res) option \<Rightarrow> ('n, 'l, 'f, 'i) CompositeClient res" where
  "NewCompositeClient config =
     bind (case config of None \<Rightarrow> Inr None | Some new \<Rightarrow> bind (new ()) (\<lambda>c. Inr (Some c))) (\<lambda>nativeClient.
     Inr \<lparr>cl_Client = nativeClient, cl_compositeCache = None, cl_viewClient = False\<rparr>)"

definition SetCache :: "('n, 'l, 'f, 'i) any_cache \<Rightarrow> ('n, 'l, 'f, 'i) CompositeClient \<Rightarrow> ('n, 'l, 'f, 'i) CompositeClient" where
  "SetCache cache cl =
     (let cl1 = cl\<lparr>cl_compositeCache := Some cache\<rparr> in
      case cache of AComposite _ \<Rightarrow> cl1\<lparr>cl_viewClient := True\<rparr> | _ \<Rightarrow> cl1)"

definition NewClientForCache ::
    "(unit \<Rightarrow> ('n, 'l, 'f) native_client res) option \<Rightarrow> ('n, 'l, 'f, 'i) any_cache \<Rightarrow> ('n, 'l, 'f, 'i) CompositeClient res" where
  "NewClientForCache config cache =
     bind (case config of None \<Rightarrow> Inr None | Some new \<Rightarrow> bind (new ()) (\<lambda>c. Inr (Some c))) (\<lambda>nativeClient.
     Inr (SetCache cache \<lparr>cl_Client = nativeClient, cl_compositeCache = None, cl_viewClient = False\<rparr>))"

definition SetClient :: "('n, 'l, 'f) native_client \<Rightarrow> ('n, 'l, 'f, 'i) CompositeClient \<Rightarrow> ('n, 'l, 'f, 'i) CompositeClient" where
  "SetClient c cl = cl\<lparr>cl_Client := Some c\<rparr>"

text \<open>A write that returns the object as the client leaves it; the view client leaves it alone.\<close>

definition write_op ::
    "bool \<Rightarrow> bool \<Rightarrow> object \<Rightarrow> (('s, 'h) ViewCache \<Rightarrow> ('s, 'h) ViewCache \<times> 'h calls \<times> unit res)
      \<Rightarrow> 'a option \<Rightarrow> ('a \<Rightarrow> 'n \<Rightarrow> 'n \<times> object \<times> unit res) \<Rightarrow> ('s, 'h, 'n) world \<Rightarrow> ('s, 'h, 'n) world \<times> object \<times> unit res" where
  "write_op view viewClient obj f n g w =
     (if view
      then (if viewClient then (case view_op f w of (w1, r) \<Rightarrow> (w1, obj, r)) else (w, obj, Inl nil_call))
      else native_op (obj, Inl nil_call) n g w)"

definition Composite_Create ::
    "'s k8s \<Rightarrow> object \<Rightarrow> ('n, 'l, 'f, 'i) CompositeClient \<Rightarrow> ('s, 'h, 'n) world \<Rightarrow> ('s, 'h, 'n) world \<times> object \<times> unit res" where
  "Composite_Create K obj cl w =
     write_op (IsViewKind (u_gvk K obj)) (cl_viewClient cl) obj (Client_Create K obj) (cl_Client cl) (\<lambda>c. c_Create c obj) w"

definition Composite_Delete ::
    "'s k8s \<Rightarrow> object \<Rightarrow> ('n, 'l, 'f, 'i) CompositeClient \<Rightarrow> ('s, 'h, 'n) world \<Rightarrow> ('s, 'h, 'n) world \<times> unit res" where
  "Composite_Delete K obj cl w =
     (if IsViewKind (u_gvk K obj)
      then (if cl_viewClient cl then view_op (Client_Delete K obj) w else (w, Inl nil_call))
      else native_op (Inl nil_call) (cl_Client cl) (\<lambda>c. c_Delete c obj) w)"

definition Composite_Update ::
    "'s k8s \<Rightarrow> ('l, 'f) cache_libs \<Rightarrow> object \<Rightarrow> ('n, 'l, 'f, 'i) CompositeClient \<Rightarrow> ('s, 'h, 'n) world
      \<Rightarrow> ('s, 'h, 'n) world \<times> object \<times> unit res" where
  "Composite_Update K L obj cl w =
     write_op (IsViewKind (u_gvk K obj)) (cl_viewClient cl) obj (Client_Update K L obj) (cl_Client cl) (\<lambda>c. c_Update c obj) w"

definition Composite_Patch ::
    "'s k8s \<Rightarrow> ('l, 'f) cache_libs \<Rightarrow> client_libs \<Rightarrow> object \<Rightarrow> (object \<Rightarrow> string res) \<Rightarrow> ('n, 'l, 'f, 'i) CompositeClient
      \<Rightarrow> ('s, 'h, 'n) world \<Rightarrow> ('s, 'h, 'n) world \<times> object \<times> unit res" where
  "Composite_Patch K L J obj patchData cl w =
     write_op (IsViewKind (u_gvk K obj)) (cl_viewClient cl) obj (Client_Patch K L J obj patchData)
       (cl_Client cl) (\<lambda>c. n_Patch c obj patchData) w"

definition Composite_DeleteAllOf ::
    "'s k8s \<Rightarrow> ('l, 'f) cache_libs \<Rightarrow> object \<Rightarrow> ('l, 'f) ListOption list \<Rightarrow> ('n, 'l, 'f, 'i) CompositeClient
      \<Rightarrow> ('s, 'h, 'n) world \<Rightarrow> ('s, 'h, 'n) world \<times> unit res" where
  "Composite_DeleteAllOf K L obj opts cl w =
     (if IsViewKind (u_gvk K obj)
      then (if cl_viewClient cl then view_op (Client_DeleteAllOf K L obj opts) w else (w, Inl nil_call))
      else native_op (Inl nil_call) (cl_Client cl) (\<lambda>c. n_DeleteAllOf c obj opts) w)"

definition Composite_Get ::
    "'s k8s \<Rightarrow> string \<Rightarrow> string \<Rightarrow> object \<Rightarrow> ('n, 'l, 'f, 'i) CompositeClient \<Rightarrow> ('s, 'h, 'n) world \<Rightarrow> ('s, 'h, 'n) world \<times> object res" where
  "Composite_Get K ns name obj cl w =
     (case cl_compositeCache cl of
        None \<Rightarrow> (w, Inl nil_call)
      | Some (AComposite cc) \<Rightarrow> CompositeCache_Get K ns name obj cc w
      | Some (AView v) \<Rightarrow> view_op (quiet (interface_Get K v ns name (u_gvk K obj))) w
      | Some (ANative dc) \<Rightarrow> native_op (Inl nil_call) (Some dc) (\<lambda>dc. nc_Get dc ns name obj) w)"

definition Composite_List ::
    "'s k8s \<Rightarrow> ('l, 'f) cache_libs \<Rightarrow> GroupVersionKind \<Rightarrow> object list \<Rightarrow> ('l, 'f) ListOption list \<Rightarrow> ('n, 'l, 'f, 'i) CompositeClient
      \<Rightarrow> ('s, 'h, 'n) world \<Rightarrow> ('s, 'h, 'n) world \<times> object list res" where
  "Composite_List K L gvk items opts cl w =
     (case cl_compositeCache cl of
        None \<Rightarrow> (w, Inl nil_call)
      | Some (AComposite cc) \<Rightarrow> CompositeCache_List K L gvk items opts cc w
      | Some (AView v) \<Rightarrow> view_op (quiet (interface_List K L v gvk items opts)) w
      | Some (ANative dc) \<Rightarrow> native_op (Inl nil_call) (Some dc) (\<lambda>dc. nc_List dc gvk items opts) w)"

definition Composite_Watch ::
    "'s k8s \<Rightarrow> ('l, 'f) cache_libs \<Rightarrow> 'h \<Rightarrow> GroupVersionKind \<Rightarrow> ('l, 'f) ListOption list \<Rightarrow> ('n, 'l, 'f, 'i) CompositeClient
      \<Rightarrow> ('s, 'h, 'n) world \<Rightarrow> ('s, 'h, 'n) world \<times> (('l, 'f) ViewCacheWatcher \<times> nat \<times> 64 word) res" where
  "Composite_Watch K L handler gvk opts cl w =
     (if IsViewKind gvk
      then (if cl_viewClient cl then view_op (Watch_view K L handler gvk opts) w else (w, Inl nil_call))
      else (w, Inl (Error ''native K8s client does not support watch'')))"

text \<open>
  The client of the status: making it asks the native client for its own, so it needs one even for
  views.  The kind that decides is that of the sub-resource for \<^verbatim>\<open>Get\<close> and \<^verbatim>\<open>Create\<close>.
\<close>

definition Status :: "('n, 'l, 'f, 'i) CompositeClient \<Rightarrow> ('n, 'l, 'f) native_client res" where
  "Status cl = (case cl_Client cl of None \<Rightarrow> Inl nil_call | Some c \<Rightarrow> Inr c)"

definition Status_Get ::
    "'s k8s \<Rightarrow> client_libs \<Rightarrow> object \<Rightarrow> object \<Rightarrow> ('n, 'l, 'f, 'i) CompositeClient \<Rightarrow> ('s, 'h, 'n) world \<Rightarrow> ('s, 'h, 'n) world \<times> doc res" where
  "Status_Get K J obj subResource cl w =
     (case Status cl of
        Inl e \<Rightarrow> (w, Inl e)
      | Inr c \<Rightarrow>
          if IsViewKind (u_gvk K subResource)
          then (if cl_viewClient cl then view_op (quiet (SubResource_Get K J ''status'' obj)) w else (w, Inl nil_call))
          else native_op (Inl nil_call) (Some c) (\<lambda>c. n_StatusGet c obj subResource) w)"

definition Status_Create ::
    "'s k8s \<Rightarrow> ('l, 'f) cache_libs \<Rightarrow> client_libs \<Rightarrow> object \<Rightarrow> object \<Rightarrow> ('n, 'l, 'f, 'i) CompositeClient \<Rightarrow> ('s, 'h, 'n) world
      \<Rightarrow> ('s, 'h, 'n) world \<times> unit res" where
  "Status_Create K L J obj subResource cl w =
     (case Status cl of
        Inl e \<Rightarrow> (w, Inl e)
      | Inr c \<Rightarrow>
          if IsViewKind (u_gvk K subResource)
          then (if cl_viewClient cl then view_op (SubResource_Create K L J ''status'' obj subResource) w else (w, Inl nil_call))
          else native_op (Inl nil_call) (Some c) (\<lambda>c. n_StatusCreate c obj subResource) w)"

definition Status_Update ::
    "'s k8s \<Rightarrow> ('l, 'f) cache_libs \<Rightarrow> client_libs \<Rightarrow> object \<Rightarrow> ('n, 'l, 'f, 'i) CompositeClient \<Rightarrow> ('s, 'h, 'n) world
      \<Rightarrow> ('s, 'h, 'n) world \<times> object \<times> unit res" where
  "Status_Update K L J obj cl w =
     (case Status cl of
        Inl e \<Rightarrow> (w, obj, Inl e)
      | Inr c \<Rightarrow>
          write_op (IsViewKind (u_gvk K obj)) (cl_viewClient cl) obj (SubResource_Update K L J ''status'' obj)
            (Some c) (\<lambda>c. c_StatusUpdate c obj) w)"

definition Status_Patch ::
    "'s k8s \<Rightarrow> ('l, 'f) cache_libs \<Rightarrow> client_libs \<Rightarrow> object \<Rightarrow> (object \<Rightarrow> string res) \<Rightarrow> ('n, 'l, 'f, 'i) CompositeClient
      \<Rightarrow> ('s, 'h, 'n) world \<Rightarrow> ('s, 'h, 'n) world \<times> object \<times> unit res" where
  "Status_Patch K L J obj patchData cl w =
     (case Status cl of
        Inl e \<Rightarrow> (w, obj, Inl e)
      | Inr c \<Rightarrow>
          write_op (IsViewKind (u_gvk K obj)) (cl_viewClient cl) obj (SubResource_Patch K L J obj patchData)
            (Some c) (\<lambda>c. n_StatusPatch c obj patchData) w)"

section \<open>Laws\<close>

text \<open>A delegating cache reads what the shared cache holds.\<close>

lemma interface_Get_eq: "interface_Get K v ns name gvk c = Get_view K ns name gvk c"
  by (simp add: interface_Get_def Delegating_Get_def Get_view_def split: view_cache.splits)

lemma interface_List_eq: "interface_List K L v gvk items opts c = List_view K L gvk items opts c"
  by (simp add: interface_List_def Delegating_List_def List_view_def Let_def split: view_cache.splits)

text \<open>Operations on views leave the cluster alone, operations on native objects the view cache.\<close>

lemma view_op_native [simp]: "w_native (fst (view_op f w)) = w_native w"
  by (simp add: view_op_def split: prod.split)

lemma native_op_view [simp]: "w_view (fst (native_op p n f w)) = w_view w" "w_calls (fst (native_op p n f w)) = w_calls w"
  by (simp_all add: native_op_def split: prod.split option.split)

lemma status_needs_native: "cl_Client cl = None \<Longrightarrow> snd (snd (Status_Update K L J obj cl w)) = Inl nil_call"
  by (simp add: Status_Update_def Status_def)

lemma sync_needs_native: "cc_defaultCache cc = None \<Longrightarrow> snd (Composite_WaitForCacheSync cc w) = Inl nil_call"
  by (simp add: Composite_WaitForCacheSync_def View_WaitForCacheSync_def native_op_def)

end
