(* ===== verification/Composite_Laws.thy ===== *)
theory Composite_Laws
  imports Composite Target_Laws
begin

text \<open>
  The composite client as the client of a target: on the objects of a view kind it does exactly
  what the client of the view cache does and leaves the state of the cluster alone, so it keeps
  the contract \<open>object_client\<close> of the targets.
\<close>

definition composite_client ::
    "'s k8s \<Rightarrow> ('l, 'f) cache_libs \<Rightarrow> client_libs \<Rightarrow> ('n, 'l, 'f, 'i) CompositeClient \<Rightarrow> ('s, 'h, 'n) world client" where
  "composite_client K L J cl = \<lparr>
     c_Get = (\<lambda>obj w. case Composite_Get K (u_namespace K obj) (u_name K obj) obj cl w of
        (w1, Inl err) \<Rightarrow> (w1, obj, Inl err) | (w1, Inr x) \<Rightarrow> (w1, x, Inr ())),
     c_Create = (\<lambda>obj. Composite_Create K obj cl),
     c_Update = (\<lambda>obj. Composite_Update K L obj cl),
     c_StatusUpdate = (\<lambda>obj. Status_Update K L J obj cl),
     c_Delete = (\<lambda>obj. Composite_Delete K obj cl)\<rparr>"

text \<open>The part of the state that the view client works on.\<close>

definition view_part :: "('s, 'h, 'n) world \<Rightarrow> ('s, 'h) ViewCache \<times> 'h calls" where
  "view_part w = (w_view w, w_calls w)"

definition put_view :: "('s, 'h, 'n) world \<Rightarrow> ('s, 'h) ViewCache \<times> 'h calls \<Rightarrow> ('s, 'h, 'n) world" where
  "put_view w s = w\<lparr>w_view := fst s, w_calls := snd s\<rparr>"

lemma view_part_put [simp]: "view_part (put_view w s) = s" "w_native (put_view w s) = w_native w"
  by (simp_all add: view_part_def put_view_def)

text \<open>A client that has been given a composite cache.\<close>

definition wired :: "('n, 'l, 'f, 'i) CompositeClient \<Rightarrow> bool" where
  "wired cl \<longleftrightarrow> cl_viewClient cl \<and> (case cl_compositeCache cl of Some (AComposite _) \<Rightarrow> True | _ \<Rightarrow> False)"

lemma SetCache_wired: "wired (SetCache (AComposite cc) cl)"
  by (simp add: wired_def SetCache_def)

lemma composite_view_ops:
  assumes "wired cl" and "IsViewKind (u_gvk K obj)"
  shows "c_Get (composite_client K L J cl) obj w = (case c_Get (view_client K L J) obj (view_part w) of (s, r) \<Rightarrow> (put_view w s, r))"
    and "c_Create (composite_client K L J cl) obj w = (case c_Create (view_client K L J) obj (view_part w) of (s, r) \<Rightarrow> (put_view w s, r))"
    and "c_Update (composite_client K L J cl) obj w = (case c_Update (view_client K L J) obj (view_part w) of (s, r) \<Rightarrow> (put_view w s, r))"
    and "c_Delete (composite_client K L J cl) obj w = (case c_Delete (view_client K L J) obj (view_part w) of (s, r) \<Rightarrow> (put_view w s, r))"
proof -
  have w: "w\<lparr>w_view := c, w_calls := w_calls w\<rparr> = w\<lparr>w_view := c\<rparr>" for c by simp
  have cl: "cl_viewClient cl" "\<exists>cc. cl_compositeCache cl = Some (AComposite cc)"
    using assms(1) by (auto simp: wired_def split: option.splits any_cache.splits)
  show "c_Get (composite_client K L J cl) obj w = (case c_Get (view_client K L J) obj (view_part w) of (s, r) \<Rightarrow> (put_view w s, r))"
    using cl(2) assms(2)
    by (auto simp: composite_client_def view_client_def Composite_Get_def CompositeCache_Get_def interface_Get_eq view_op_def quiet_def
        view_part_def put_view_def split: prod.split sum.split)
  show "c_Create (composite_client K L J cl) obj w = (case c_Create (view_client K L J) obj (view_part w) of (s, r) \<Rightarrow> (put_view w s, r))"
    "c_Update (composite_client K L J cl) obj w = (case c_Update (view_client K L J) obj (view_part w) of (s, r) \<Rightarrow> (put_view w s, r))"
    "c_Delete (composite_client K L J cl) obj w = (case c_Delete (view_client K L J) obj (view_part w) of (s, r) \<Rightarrow> (put_view w s, r))"
    using cl(1) assms(2)
    by (simp_all add: composite_client_def view_client_def Composite_Create_def Composite_Update_def Composite_Delete_def write_op_def
        view_op_def view_part_def put_view_def logged_def split: prod.split)
qed

text \<open>The invariant fixes the state \<open>n\<close> of the cluster.\<close>

definition composite_inv ::
    "'s k8s \<Rightarrow> meta_libs \<Rightarrow> ('n, 'l, 'f, 'i) CompositeClient \<Rightarrow> 'n \<Rightarrow> GroupVersionKind \<Rightarrow> ('s, 'h, 'n) world \<Rightarrow> bool" where
  "composite_inv K M cl n kind w \<longleftrightarrow> wired cl \<and> w_native w = n \<and> view_inv K M kind (view_part w)"

interpretation composite_target: object_client K M "composite_client K L J cl" kind "composite_inv K M cl n kind"
    "\<lambda>w. view_lookup K (view_part w)" "view_like K L"
  for K :: "'s k8s" and M and L :: "('l, 'f) cache_libs" and J and cl :: "('n, 'l, 'f, 'i) CompositeClient" and n kind
proof
  fix w :: "('s, 'h, 'n) world" and obj k x
  assume inv: "composite_inv K M cl n kind w"
  then have v: "view_inv K M kind (view_part w)" and cl: "wired cl" and n: "w_native w = n" by (simp_all add: composite_inv_def)
  note laws = view_target.laws [OF v]
  show "target_laws K M \<and> accessor_laws K \<and> IsViewKind kind \<and> CHR ''/'' \<notin> set (gvk_Group kind) \<and> CHR ''/'' \<notin> set (gvk_Version kind)"
    by (rule laws)
  show "meta_ok x" if "view_lookup K (view_part w) kind k = Some x" using view_target.lookup_ok [OF v that] .
  assume obj: "u_gvk K obj = kind"
  have kind: "IsViewKind (u_gvk K obj)" using laws obj by simp
  note ops = composite_view_ops [OF cl kind, where L = L and J = J and w = w]
  show "\<exists>c'. composite_inv K M cl n kind c' \<and> view_lookup K (view_part c') = view_lookup K (view_part w)
      \<and> c_Get (composite_client K L J cl) obj w = (case view_lookup K (view_part w) kind (store_key K obj) of
          None \<Rightarrow> (c', obj, Inl NotFound) | Some x \<Rightarrow> (c', Object_DeepCopy K x, Inr ()))"
  proof -
    obtain s where s: "view_inv K M kind s" "view_lookup K s = view_lookup K (view_part w)"
      "c_Get (view_client K L J) obj (view_part w) = (case view_lookup K (view_part w) kind (store_key K obj) of
          None \<Rightarrow> (s, obj, Inl NotFound) | Some x \<Rightarrow> (s, Object_DeepCopy K x, Inr ()))"
      using view_target.get [OF v obj, of L J] by blast
    then show ?thesis using cl n
      by (intro exI [of _ "put_view w s"]) (simp add: composite_inv_def ops(1) split: option.split)
  qed
  show "\<exists>c'. composite_inv K M cl n kind c'
      \<and> view_lookup K (view_part c') = (view_lookup K (view_part w))(kind := (view_lookup K (view_part w) kind)(store_key K obj := None))
      \<and> c_Delete (composite_client K L J cl) obj w
        = (c', if view_lookup K (view_part w) kind (store_key K obj) = None then Inl NotFound else Inr ())"
  proof -
    obtain s where s: "view_inv K M kind s" "view_lookup K s = (view_lookup K (view_part w))(kind := (view_lookup K (view_part w) kind)(store_key K obj := None))"
      "c_Delete (view_client K L J) obj (view_part w) = (s, if view_lookup K (view_part w) kind (store_key K obj) = None then Inl NotFound else Inr ())"
      using view_target.delete [OF v obj, of L J] by blast
    then show ?thesis using cl n by (intro exI [of _ "put_view w s"]) (simp add: composite_inv_def ops(4))
  qed
  assume ok: "meta_ok obj"
  show "\<exists>c' x. c_Create (composite_client K L J cl) obj w = (c', obj, Inr ()) \<and> composite_inv K M cl n kind c'
      \<and> view_lookup K (view_part c') = (view_lookup K (view_part w))(kind := (view_lookup K (view_part w) kind)(store_key K obj \<mapsto> x)) \<and> view_like K L x obj"
  proof -
    obtain s x where s: "c_Create (view_client K L J) obj (view_part w) = (s, obj, Inr ())" "view_inv K M kind s"
      "view_lookup K s = (view_lookup K (view_part w))(kind := (view_lookup K (view_part w) kind)(store_key K obj \<mapsto> x))" "view_like K L x obj"
      using view_target.create [OF v obj ok, of L J] by blast
    then show ?thesis using cl n by (intro exI [of _ "put_view w s"] exI [of _ x]) (simp add: composite_inv_def ops(2))
  qed
  assume old: "view_lookup K (view_part w) kind (store_key K obj) \<noteq> None"
  show "\<exists>c' x. c_Update (composite_client K L J cl) obj w = (c', obj, Inr ()) \<and> composite_inv K M cl n kind c'
      \<and> view_lookup K (view_part c') = (view_lookup K (view_part w))(kind := (view_lookup K (view_part w) kind)(store_key K obj \<mapsto> x)) \<and> view_like K L x obj"
  proof -
    obtain s x where s: "c_Update (view_client K L J) obj (view_part w) = (s, obj, Inr ())" "view_inv K M kind s"
      "view_lookup K s = (view_lookup K (view_part w))(kind := (view_lookup K (view_part w) kind)(store_key K obj \<mapsto> x))" "view_like K L x obj"
      using view_target.update [OF v obj ok old, of L J] by blast
    then show ?thesis using cl n by (intro exI [of _ "put_view w s"] exI [of _ x]) (simp add: composite_inv_def ops(3))
  qed
qed

end
