(* ===== verification/Composite_Properties.thy ===== *)
theory Composite_Properties
  imports Composite_Laws Reconciler_Properties
begin

text \<open>
  The property of the composite client: a target that is a view is written through it as through
  the client of the view cache, whatever the cluster is.
\<close>

text \<open>
  C15. A composite client that was given a composite cache keeps views and
  the cluster apart.  Writing a delta to a view of the operator through it succeeds even without a
  native client, changes exactly one key of one kind of the view cache, to an object with the
  fields of the delta or to nothing for a deletion, and leaves the state of the cluster as it was.
\<close>

theorem composite_target_write:
  assumes "cache_laws K" and "target_laws K M" and "equal_upto L R" and "view_target_ok oper t"
    and "healthy (w_view (w :: ('s, 'h, 'n) world))" and "\<And>k x. view_contents K (w_view w) (target_kind oper t) k = Some x \<Longrightarrow> meta_ok x"
    and "plain_object obj" and "client = composite_client K L J (SetCache (AComposite cc) cl)"
  shows "(ty \<in> {Added, Upserted, Updated, Replaced} \<longrightarrow>
      (\<exists>w' x. Target_Write K M J client steps KindFor oper t (Some \<lparr>d_Object = obj, d_Type = ty\<rparr>) original w = (w', Inr ())
        \<and> w_native w' = w_native w \<and> healthy (w_view w') \<and> fields_like R x obj
        \<and> view_contents K (w_view w') = (view_contents K (w_view w))
            (target_kind oper t := (view_contents K (w_view w) (target_kind oper t))(store_key K obj \<mapsto> x))))
    \<and> (\<exists>w'. Target_Write K M J client steps KindFor oper t (Some \<lparr>d_Object = obj, d_Type = Deleted\<rparr>) original w = (w', Inr ())
        \<and> w_native w' = w_native w \<and> healthy (w_view w')
        \<and> view_contents K (w_view w') = (view_contents K (w_view w))
            (target_kind oper t := (view_contents K (w_view w) (target_kind oper t))(store_key K obj := None)))"
proof -
  let ?cl = "SetCache (AComposite cc) cl" and ?kind = "target_kind oper t"
  have inv: "composite_inv K M ?cl (w_native w) ?kind w"
    using assms(1,2,5,6) target_kind_ok [OF assms(4)] SetCache_wired by (auto simp: composite_inv_def view_inv_def view_part_def)
  have invD: "w_native w' = w_native w \<and> healthy (w_view w')" if "composite_inv K M ?cl (w_native w) ?kind w'" for w' :: "('s, 'h, 'n) world"
    using that by (simp add: composite_inv_def view_inv_def view_part_def)
  have "\<exists>w' x. Target_Write K M J client steps KindFor oper t (Some \<lparr>d_Object = obj, d_Type = ty\<rparr>) original w = (w', Inr ())
      \<and> composite_inv K M ?cl (w_native w) ?kind w' \<and> fields_like R x obj
      \<and> view_lookup K (view_part w') = (view_lookup K (view_part w))(?kind := (view_lookup K (view_part w) ?kind)(store_key K obj \<mapsto> x))"
    if "ty \<in> {Added, Upserted, Updated, Replaced}"
    unfolding assms(8) using view_like_fields [OF assms(2,3)]
    by (intro composite_target.Target_upsert [OF assms(4) refl inv _ assms(7) that]) blast
  moreover have "\<exists>w'. Target_Write K M J client steps KindFor oper t (Some \<lparr>d_Object = obj, d_Type = Deleted\<rparr>) original w = (w', Inr ())
      \<and> composite_inv K M ?cl (w_native w) ?kind w'
      \<and> view_lookup K (view_part w') = (view_lookup K (view_part w))(?kind := (view_lookup K (view_part w) ?kind)(store_key K obj := None))"
    unfolding assms(8) by (rule composite_target.Target_delete [OF assms(4) refl inv])
  ultimately show ?thesis using invD unfolding view_lookup_def view_part_def fst_conv by blast
qed

definition headless :: "(unit, (string \<times> string) list, (string \<times> string) list, unit) CompositeClient" where
  "headless = \<lparr>cl_Client = None, cl_compositeCache = None, cl_viewClient = False\<rparr>"

definition headless_cache :: "(unit, (string \<times> string) list, (string \<times> string) list, unit) CompositeCache" where
  "headless_cache = \<lparr>cc_defaultCache = None, cc_viewCache = Shared\<rparr>"

definition new_world :: "(object list, string, unit) world" where
  "new_world = \<lparr>w_view = new_cache, w_calls = [], w_native = ()\<rparr>"

theorem composite_target_write_witness:
  "\<exists>w' x. Target_Write list_k8s list_meta no_nested (composite_client list_k8s list_libs no_nested (SetCache (AComposite headless_cache) headless)) 5
      no_kinds ''op'' pod_target (Some \<lparr>d_Object = pod_a, d_Type = Upserted\<rparr>) None new_world = (w', Inr ())
    \<and> view_contents list_k8s (w_view w') view_gvk ''default/a'' = Some x \<and> map_of x ''spec'' = map_of pod_a ''spec''"
proof -
  have "equal_upto list_libs (=)" by (simp add: equal_upto_def list_libs_def option.rel_eq)
  moreover have "plain_object pod_a" by (simp add: plain_object_def meta_ok_def pod_a_def) code_simp
  moreover have "store_key list_k8s pod_a = ''default/a''" by code_simp
  moreover have "view_contents list_k8s new_cache kind k = None" for kind k
    by (simp add: view_contents_def NewViewCache_def)
  moreover have "view_target_ok ''op'' pod_target" "target_kind ''op'' pod_target = view_gvk"
    by (simp_all add: view_target_ok_def target_kind_def pod_target_def view_gvk_def)
  ultimately obtain w' x where "Target_Write list_k8s list_meta no_nested
      (composite_client list_k8s list_libs no_nested (SetCache (AComposite headless_cache) headless)) 5 no_kinds ''op'' pod_target
      (Some \<lparr>d_Object = pod_a, d_Type = Upserted\<rparr>) None new_world = (w', Inr ())"
    and w': "view_contents list_k8s (w_view w') = (view_contents list_k8s new_cache)(view_gvk := (view_contents list_k8s new_cache view_gvk)(''default/a'' \<mapsto> x))"
    and x: "fields_like (=) x pod_a"
    using composite_target_write [where L = list_libs and R = "(=)" and oper = "''op''" and t = pod_target and w = new_world and obj = pod_a
        and ty = Upserted and J = no_nested and steps = 5 and KindFor = no_kinds and original = None and cl = headless and cc = headless_cache,
        OF list_cache_laws list_target_laws _ _ _ _ _ refl] new_cache_healthy
    by (auto simp: new_world_def)
  moreover have "map_of x ''spec'' = map_of pod_a ''spec''" using x unfolding fields_like_def option.rel_eq by simp
  moreover have "view_contents list_k8s (w_view w') view_gvk ''default/a'' = Some x" using w' by simp
  ultimately show ?thesis by blast
qed

end
