(* ===== verification/Rest_Mapper.thy ===== *)
theory Rest_Mapper
  imports Composite
begin

text \<open>
  Composite discovery and REST mapping (\<^verbatim>\<open>pkg/cache/discovery.go\<close>, \<^verbatim>\<open>view_restmapper.go\<close>,
  \<^verbatim>\<open>restmapper.go\<close>) and the bundle of API components (\<^verbatim>\<open>api.go\<close>).  The discovery client and the
  mapper of the cluster are parameters: the records \<open>native_discovery\<close> and \<open>native_mapper\<close>.
\<close>

section \<open>Discovery (\<^verbatim>\<open>discovery.go\<close>)\<close>

record ('v, 'd) native_discovery =
  nd_ServerResourcesForGroupVersion :: "string \<Rightarrow> APIResource list res"
  nd_ServerGroups :: "APIGroup list res"
  nd_ServerGroupsAndResources :: "(APIGroup list \<times> APIResource list list) res"
  nd_ServerPreferredResources :: "APIResource list list res"
  nd_ServerPreferredNamespacedResources :: "APIResource list list res"
  nd_ServerVersion :: "'v res"
  nd_OpenAPISchema :: "'d res"

record ('v, 'd) CompositeDiscoveryClient =
  cd_views :: registry
  cd_nativeDiscovery :: "('v, 'd) native_discovery option"

definition NewCompositeDiscoveryClient :: "('v, 'd) native_discovery option \<Rightarrow> ('v, 'd) CompositeDiscoveryClient" where
  "NewCompositeDiscoveryClient native = \<lparr>cd_views = [], cd_nativeDiscovery = native\<rparr>"

definition Composite_ServerResourcesForGroupVersion ::
    "(string \<Rightarrow> GroupVersion res) \<Rightarrow> ('v, 'd) CompositeDiscoveryClient \<Rightarrow> string \<Rightarrow> APIResource list res" where
  "Composite_ServerResourcesForGroupVersion ParseGroupVersion c groupVersion =
     bind (rewrap ''invalid group version'' (ParseGroupVersion groupVersion)) (\<lambda>gv.
       if IsViewGroup (gv_Group gv) then ServerResourcesForGroupVersion ParseGroupVersion (cd_views c) groupVersion
       else case cd_nativeDiscovery c of
         None \<Rightarrow> Inl (Error ''native discovery not available for group version'')
       | Some nd \<Rightarrow> nd_ServerResourcesForGroupVersion nd groupVersion)"

definition Composite_ServerGroups :: "('v, 'd) CompositeDiscoveryClient \<Rightarrow> APIGroup list res" where
  "Composite_ServerGroups c =
     (let viewGroups = ServerGroups (cd_views c) in
      case cd_nativeDiscovery c of
        None \<Rightarrow> Inr viewGroups
      | Some nd \<Rightarrow> bind (rewrap ''failed to get native server groups'' (nd_ServerGroups nd)) (\<lambda>groups. Inr (viewGroups @ groups)))"

definition Composite_ServerGroupsAndResources ::
    "(string \<Rightarrow> GroupVersion res) \<Rightarrow> ('v, 'd) CompositeDiscoveryClient \<Rightarrow> (APIGroup list \<times> APIResource list list) res" where
  "Composite_ServerGroupsAndResources ParseGroupVersion c =
     bind (ServerGroupsAndResources ParseGroupVersion (cd_views c)) (\<lambda>(viewGroups, viewResources).
       case cd_nativeDiscovery c of
         None \<Rightarrow> Inr (viewGroups, viewResources)
       | Some nd \<Rightarrow> bind (rewrap ''failed to get native groups and resources'' (nd_ServerGroupsAndResources nd)) (\<lambda>(gs, rs).
           Inr (viewGroups @ gs, viewResources @ rs)))"

definition Composite_ServerPreferredResources ::
    "(string \<Rightarrow> GroupVersion res) \<Rightarrow> ('v, 'd) CompositeDiscoveryClient \<Rightarrow> APIResource list list res" where
  "Composite_ServerPreferredResources ParseGroupVersion c =
     bind (ServerPreferredResources ParseGroupVersion (cd_views c)) (\<lambda>viewResources.
       case cd_nativeDiscovery c of
         None \<Rightarrow> Inr viewResources
       | Some nd \<Rightarrow> bind (rewrap ''failed to get native preferred resources'' (nd_ServerPreferredResources nd)) (\<lambda>rs.
           Inr (viewResources @ rs)))"

definition Composite_ServerPreferredNamespacedResources ::
    "(string \<Rightarrow> GroupVersion res) \<Rightarrow> ('v, 'd) CompositeDiscoveryClient \<Rightarrow> APIResource list list res" where
  "Composite_ServerPreferredNamespacedResources ParseGroupVersion c =
     bind (ServerPreferredResources ParseGroupVersion (cd_views c)) (\<lambda>viewResources.
       case cd_nativeDiscovery c of
         None \<Rightarrow> Inr viewResources
       | Some nd \<Rightarrow> bind (rewrap ''failed to get native namespaced resources'' (nd_ServerPreferredNamespacedResources nd)) (\<lambda>rs.
           Inr (viewResources @ rs)))"

text \<open>Without a cluster a fixed version is reported; \<open>fixed\<close> makes it from its three texts.\<close>

definition Composite_ServerVersion :: "(string \<Rightarrow> string \<Rightarrow> string \<Rightarrow> 'v) \<Rightarrow> ('v, 'd) CompositeDiscoveryClient \<Rightarrow> 'v res" where
  "Composite_ServerVersion fixed c =
     (case cd_nativeDiscovery c of Some nd \<Rightarrow> nd_ServerVersion nd | None \<Rightarrow> Inr (fixed ''1'' ''33'' ''v1.33.0-dcontroller''))"

definition Composite_OpenAPISchema :: "('v, 'd) CompositeDiscoveryClient \<Rightarrow> 'd res" where
  "Composite_OpenAPISchema c =
     (case cd_nativeDiscovery c of Some nd \<Rightarrow> nd_OpenAPISchema nd | None \<Rightarrow> Inl (Error ''OpenAPI schema not available''))"

text \<open>The copy for legacy discovery is a new client: it starts with no registered views.\<close>

definition WithLegacy ::
    "(('v, 'd) native_discovery \<Rightarrow> ('v, 'd) native_discovery) \<Rightarrow> ('v, 'd) CompositeDiscoveryClient \<Rightarrow> ('v, 'd) CompositeDiscoveryClient" where
  "WithLegacy legacy c =
     (case cd_nativeDiscovery c of Some nd \<Rightarrow> NewCompositeDiscoveryClient (Some (legacy nd)) | None \<Rightarrow> c)"

section \<open>Mapping of views (\<^verbatim>\<open>view_restmapper.go\<close>)\<close>

record GroupVersionResource =
  gvr_Group :: string
  gvr_Version :: string
  gvr_Resource :: string

record RESTMapping =
  rm_Resource :: GroupVersionResource
  rm_GroupVersionKind :: GroupVersionKind
  rm_namespaced :: bool

text \<open>\<^verbatim>\<open>strings.Title\<close> on ASCII text: letters, digits and the underscore do not separate words.\<close>

definition is_separator :: "char \<Rightarrow> bool" where
  "is_separator c \<longleftrightarrow> (let b = of_char c :: nat in
     \<not> (48 \<le> b \<and> b \<le> 57 \<or> 65 \<le> b \<and> b \<le> 90 \<or> 97 \<le> b \<and> b \<le> 122 \<or> b = 95))"

definition upper :: "char \<Rightarrow> char" where
  "upper c = (let b = of_char c :: nat in if 97 \<le> b \<and> b \<le> 122 then char_of (b - 32) else c)"

fun title_from :: "char \<Rightarrow> string \<Rightarrow> string" where
  "title_from prev [] = []"
| "title_from prev (c # s) = (if is_separator prev then upper c else c) # title_from c s"

definition Title :: "string \<Rightarrow> string" where
  "Title s = title_from (CHR '' '') s"

definition not_view_group :: error where
  "not_view_group = Error ''not a view group''"

definition View_KindFor :: "GroupVersionResource \<Rightarrow> GroupVersionKind res" where
  "View_KindFor r =
     (if IsViewGroup (gvr_Group r) then Inl not_view_group
      else Inr \<lparr>gvk_Group = gvr_Group r, gvk_Version = gvr_Version r, gvk_Kind = Title (ToLower (gvr_Resource r))\<rparr>)"

definition View_KindsFor :: "GroupVersionResource \<Rightarrow> GroupVersionKind list res" where
  "View_KindsFor r = bind (View_KindFor r) (\<lambda>gvk. Inr [gvk])"

definition View_ResourceFor :: "GroupVersionResource \<Rightarrow> GroupVersionResource res" where
  "View_ResourceFor r =
     (if IsViewGroup (gvr_Group r) then Inl not_view_group
      else Inr (r\<lparr>gvr_Resource := ToLower (gvr_Resource r)\<rparr>))"

definition View_ResourcesFor :: "GroupVersionResource \<Rightarrow> GroupVersionResource list res" where
  "View_ResourcesFor r = bind (View_ResourceFor r) (\<lambda>gvr. Inr [gvr])"

definition View_RESTMapping :: "string \<Rightarrow> string \<Rightarrow> string list \<Rightarrow> RESTMapping res" where
  "View_RESTMapping grp kind versions =
     (if IsViewGroup grp then Inl not_view_group
      else
        let version = (case versions of v # _ \<Rightarrow> if v \<noteq> [] then v else ViewVersion | [] \<Rightarrow> ViewVersion) in
        Inr \<lparr>rm_Resource = \<lparr>gvr_Group = grp, gvr_Version = version, gvr_Resource = ToLower kind\<rparr>,
             rm_GroupVersionKind = \<lparr>gvk_Group = grp, gvk_Version = version, gvk_Kind = kind\<rparr>, rm_namespaced = True\<rparr>)"

definition View_RESTMappings :: "string \<Rightarrow> string \<Rightarrow> string list \<Rightarrow> RESTMapping list res" where
  "View_RESTMappings grp kind versions = bind (View_RESTMapping grp kind versions) (\<lambda>m. Inr [m])"

definition View_ResourceSingularizer :: "string \<Rightarrow> string res" where
  "View_ResourceSingularizer resource = Inr (ToLower resource)"

section \<open>The composite mapper (\<^verbatim>\<open>restmapper.go\<close>)\<close>

record native_mapper =
  nm_KindFor :: "GroupVersionResource \<Rightarrow> GroupVersionKind res"
  nm_KindsFor :: "GroupVersionResource \<Rightarrow> GroupVersionKind list res"
  nm_ResourceFor :: "GroupVersionResource \<Rightarrow> GroupVersionResource res"
  nm_ResourcesFor :: "GroupVersionResource \<Rightarrow> GroupVersionResource list res"
  nm_RESTMapping :: "string \<Rightarrow> string \<Rightarrow> string list \<Rightarrow> RESTMapping res"
  nm_RESTMappings :: "string \<Rightarrow> string \<Rightarrow> string list \<Rightarrow> RESTMapping list res"
  nm_ResourceSingularizer :: "string \<Rightarrow> string res"

text \<open>The discovery client of a mapper: a composite one, or another one or none at all.\<close>

datatype ('v, 'd) discovery = CompositeDiscovery "('v, 'd) CompositeDiscoveryClient" | OtherDiscovery | NilDiscovery

record ('v, 'd) CompositeRESTMapper =
  crm_nativeMapper :: "native_mapper option"
  crm_discovery :: "('v, 'd) discovery"

text \<open>\<open>from_discovery\<close> is the library code that builds a mapper from a discovery client.\<close>

definition NewCompositeRESTMapper :: "(('v, 'd) discovery \<Rightarrow> native_mapper res) \<Rightarrow> ('v, 'd) discovery \<Rightarrow> ('v, 'd) CompositeRESTMapper" where
  "NewCompositeRESTMapper from_discovery d =
     \<lparr>crm_nativeMapper = (if d = NilDiscovery then None else case from_discovery d of Inr m \<Rightarrow> Some m | Inl _ \<Rightarrow> None),
      crm_discovery = d\<rparr>"

definition crm_isViewGroup :: "('v, 'd) CompositeRESTMapper \<Rightarrow> string \<Rightarrow> bool" where
  "crm_isViewGroup m grp =
     (case crm_discovery m of CompositeDiscovery _ \<Rightarrow> IsViewGroup grp | _ \<Rightarrow> grp = ''view.dcontroller.io'')"

definition by_native :: "('v, 'd) CompositeRESTMapper \<Rightarrow> (native_mapper \<Rightarrow> 'a res) \<Rightarrow> 'a res" where
  "by_native m f = (case crm_nativeMapper m of Some nm \<Rightarrow> f nm | None \<Rightarrow> Inl (Error ''no RESTMapper available''))"

definition Composite_KindFor :: "('v, 'd) CompositeRESTMapper \<Rightarrow> GroupVersionResource \<Rightarrow> GroupVersionKind res" where
  "Composite_KindFor m r = (if crm_isViewGroup m (gvr_Group r) then View_KindFor r else by_native m (\<lambda>nm. nm_KindFor nm r))"

definition Composite_KindsFor :: "('v, 'd) CompositeRESTMapper \<Rightarrow> GroupVersionResource \<Rightarrow> GroupVersionKind list res" where
  "Composite_KindsFor m r = (if crm_isViewGroup m (gvr_Group r) then View_KindsFor r else by_native m (\<lambda>nm. nm_KindsFor nm r))"

definition Composite_ResourceFor :: "('v, 'd) CompositeRESTMapper \<Rightarrow> GroupVersionResource \<Rightarrow> GroupVersionResource res" where
  "Composite_ResourceFor m r = (if crm_isViewGroup m (gvr_Group r) then View_ResourceFor r else by_native m (\<lambda>nm. nm_ResourceFor nm r))"

definition Composite_ResourcesFor :: "('v, 'd) CompositeRESTMapper \<Rightarrow> GroupVersionResource \<Rightarrow> GroupVersionResource list res" where
  "Composite_ResourcesFor m r = (if crm_isViewGroup m (gvr_Group r) then View_ResourcesFor r else by_native m (\<lambda>nm. nm_ResourcesFor nm r))"

definition Composite_RESTMapping :: "('v, 'd) CompositeRESTMapper \<Rightarrow> string \<Rightarrow> string \<Rightarrow> string list \<Rightarrow> RESTMapping res" where
  "Composite_RESTMapping m grp kind versions =
     (if crm_isViewGroup m grp then View_RESTMapping grp kind versions else by_native m (\<lambda>nm. nm_RESTMapping nm grp kind versions))"

definition Composite_RESTMappings :: "('v, 'd) CompositeRESTMapper \<Rightarrow> string \<Rightarrow> string \<Rightarrow> string list \<Rightarrow> RESTMapping list res" where
  "Composite_RESTMappings m grp kind versions =
     (if crm_isViewGroup m grp then View_RESTMappings grp kind versions else by_native m (\<lambda>nm. nm_RESTMappings nm grp kind versions))"

definition Composite_ResourceSingularizer :: "('v, 'd) CompositeRESTMapper \<Rightarrow> string \<Rightarrow> string res" where
  "Composite_ResourceSingularizer m resource =
     (case crm_nativeMapper m of
        Some nm \<Rightarrow> (case nm_ResourceSingularizer nm resource of Inr singular \<Rightarrow> Inr singular | Inl _ \<Rightarrow> Inr resource)
      | None \<Rightarrow> Inr resource)"

section \<open>The bundle (\<^verbatim>\<open>api.go\<close>)\<close>

text \<open>What a REST configuration gives: library code.\<close>

record ('n, 'l, 'f, 'i, 'v, 'd) rest_libs =
  rl_discovery :: "('v, 'd) native_discovery res"
  rl_cache :: "unit \<Rightarrow> ('n, 'l, 'f, 'i) native_cache res"
  rl_client :: "unit \<Rightarrow> ('n, 'l, 'f) native_client res"

record ('n, 'l, 'f, 'i, 'v, 'd) API =
  api_Client :: "('n, 'l, 'f, 'i) CompositeClient"
  api_Cache :: "('n, 'l, 'f, 'i) CompositeCache"
  api_Discovery :: "('v, 'd) CompositeDiscoveryClient"
  api_RESTMapper :: "('v, 'd) CompositeRESTMapper"

definition NewAPI ::
    "(('v, 'd) discovery \<Rightarrow> native_mapper res) \<Rightarrow> ('n, 'l, 'f, 'i, 'v, 'd) rest_libs option \<Rightarrow> ('n, 'l, 'f, 'i) native_cache option
      \<Rightarrow> ('n, 'l, 'f, 'i, 'v, 'd) API res" where
  "NewAPI from_discovery config defaultCache =
     bind (case config of None \<Rightarrow> Inr None | Some r \<Rightarrow> bind (rl_discovery r) (\<lambda>d. Inr (Some d))) (\<lambda>nativeDiscovery.
     let compositeDiscovery = NewCompositeDiscoveryClient nativeDiscovery;
         compositeRESTMapper = NewCompositeRESTMapper from_discovery (CompositeDiscovery compositeDiscovery) in
     bind (NewCompositeCache (map_option rl_cache config) defaultCache None) (\<lambda>compositeCache.
     bind (NewCompositeClient (map_option rl_client config)) (\<lambda>compositeClient.
     Inr \<lparr>api_Client = SetCache (AComposite compositeCache) compositeClient, api_Cache = compositeCache,
          api_Discovery = compositeDiscovery, api_RESTMapper = compositeRESTMapper\<rparr>)))"

section \<open>Laws\<close>

text \<open>
  The guard of the view mapper is inverted: it refuses exactly the view groups.  The composite
  mapper sends exactly the view groups to it, so it maps no view at all.
\<close>

theorem view_groups_not_mapped:
  fixes m :: "('v, 'd) CompositeRESTMapper"
  shows "IsViewGroup (gvr_Group r) \<Longrightarrow> crm_discovery m = CompositeDiscovery d \<Longrightarrow>
      Composite_KindFor m r = Inl not_view_group \<and> Composite_ResourceFor m r = Inl not_view_group
      \<and> Composite_RESTMapping m (gvr_Group r) kind versions = Inl not_view_group"
    and "\<not> IsViewGroup (gvr_Group r) \<Longrightarrow> is_ok (View_KindFor r) \<and> is_ok (View_ResourceFor r) \<and> is_ok (View_RESTMapping (gvr_Group r) kind versions)"
  by (simp_all add: Composite_KindFor_def Composite_ResourceFor_def Composite_RESTMapping_def crm_isViewGroup_def
      View_KindFor_def View_ResourceFor_def View_RESTMapping_def Let_def)

lemma title_loses_camel_case: "Title (ToLower ''PodView'') = ''Podview''"
  by code_simp

text \<open>The client of a bundle serves views, with or without a cluster.\<close>

lemma NewAPI_client:
  assumes "NewAPI from_discovery config defaultCache = Inr api"
  shows "cl_viewClient (api_Client api) \<and> cl_compositeCache (api_Client api) = Some (AComposite (api_Cache api))
    \<and> cc_viewCache (api_Cache api) = Shared"
  using assms by (auto simp: NewAPI_def Let_def bind_Inr_iff SetCache_def NewCompositeCache_def)

end
