(* ===== verification/Api_Storage.thy ===== *)
theory Api_Storage
  imports Rest_Mapper "HOL-Library.Multiset"
begin

text \<open>
  The storage of the embedded API server (\<^verbatim>\<open>pkg/apiserver/storage.go\<close>): the operations of a resource
  in terms of a client, and the tables that \<^verbatim>\<open>kubectl\<close> prints.  The client is the parameter
  \<open>storage_client\<close>, an extension of the client of the targets.  The context of a request gives its
  namespace, if it has one.  Error objects of the API are represented by their reason: \<open>NotFound\<close>,
  \<open>AlreadyExists\<close>, \<open>BadRequest\<close> and \<open>InternalError\<close>.
\<close>

section \<open>Storage\<close>

text \<open>Objects of the API machinery.\<close>

datatype runtime_object = Unstructured object | UnstructuredList GroupVersionKind "object list" | OtherObject

record ('c, 'l, 'f, 'w) storage_client = "'c client" +
  sc_Get :: "string \<Rightarrow> string \<Rightarrow> object \<Rightarrow> 'c \<Rightarrow> 'c \<times> object res"
  sc_List :: "GroupVersionKind \<Rightarrow> ('l, 'f) ListOption list \<Rightarrow> 'c \<Rightarrow> 'c \<times> object list res"
  sc_Watch :: "GroupVersionKind \<Rightarrow> ('l, 'f) ListOption list \<Rightarrow> 'c \<Rightarrow> 'c \<times> 'w res"

record ('c, 'l, 'f, 'w) ClientDelegatedStorage =
  st_client :: "('c, 'l, 'f, 'w) storage_client"
  st_hasWatcher :: bool
  st_gvk :: GroupVersionKind
  st_gvr :: GroupVersionResource
  st_namespaced :: bool
  st_hasStatus :: bool

definition AlreadyExists :: error where
  "AlreadyExists = Error ''AlreadyExists''"

definition namespace_required :: error where
  "namespace_required = Error ''BadRequest: namespace required for namespaced resource''"

definition Storage_New :: "'s k8s \<Rightarrow> ('c, 'l, 'f, 'w) ClientDelegatedStorage \<Rightarrow> object" where
  "Storage_New K s = u_set_gvk K (st_gvk s) []"

definition storage_list_gvk :: "('c, 'l, 'f, 'w) ClientDelegatedStorage \<Rightarrow> GroupVersionKind" where
  "storage_list_gvk s = \<lparr>gvk_Group = gvk_Group (st_gvk s), gvk_Version = gvk_Version (st_gvk s), gvk_Kind = gvk_Kind (st_gvk s) @ ''List''\<rparr>"

definition NewList :: "('c, 'l, 'f, 'w) ClientDelegatedStorage \<Rightarrow> runtime_object" where
  "NewList s = UnstructuredList (storage_list_gvk s) []"

definition NamespaceScoped :: "('c, 'l, 'f, 'w) ClientDelegatedStorage \<Rightarrow> bool" where
  "NamespaceScoped s = st_namespaced s"

definition GetSingularName :: "('c, 'l, 'f, 'w) ClientDelegatedStorage \<Rightarrow> string" where
  "GetSingularName s = gvr_Resource (st_gvr s)"

definition Storage_Get ::
    "'s k8s \<Rightarrow> meta_libs \<Rightarrow> string option \<Rightarrow> string \<Rightarrow> ('c, 'l, 'f, 'w) ClientDelegatedStorage \<Rightarrow> 'c \<Rightarrow> 'c \<times> object res" where
  "Storage_Get K M ctx_ns name s c =
     (case (if NamespaceScoped s then (case ctx_ns of Some ns \<Rightarrow> Inr ns | None \<Rightarrow> Inl namespace_required) else Inr []) of
        Inl err \<Rightarrow> (c, Inl err)
      | Inr ns \<Rightarrow>
          (case sc_Get (st_client s) ns name (Storage_New K s) c of
             (c1, Inr obj) \<Rightarrow> (c1, Inr obj)
           | (c1, Inl err) \<Rightarrow> (c1, Inl (if IsNotFound M err then NotFound else wrap ''InternalError: failed to get'' err))))"

text \<open>The selection of a list or watch request: the namespace of the request and the selectors of its options.\<close>

definition list_options :: "string option \<Rightarrow> 'l option \<Rightarrow> 'f option \<Rightarrow> ('c, 'l, 'f, 'w) ClientDelegatedStorage \<Rightarrow> ('l, 'f) ListOption list" where
  "list_options ctx_ns label field s =
     (if NamespaceScoped s then (case ctx_ns of Some ns \<Rightarrow> if ns \<noteq> [] then [InNamespace ns] else [] | None \<Rightarrow> []) else [])
     @ (case label of Some l \<Rightarrow> [MatchingLabelsSelector (Some l)] | None \<Rightarrow> [])
     @ (case field of Some f \<Rightarrow> [MatchingFieldsSelector (Some f)] | None \<Rightarrow> [])"

definition Storage_List ::
    "string option \<Rightarrow> 'l option \<Rightarrow> 'f option \<Rightarrow> ('c, 'l, 'f, 'w) ClientDelegatedStorage \<Rightarrow> 'c \<Rightarrow> 'c \<times> object list res" where
  "Storage_List ctx_ns label field s c =
     (case sc_List (st_client s) (storage_list_gvk s) (list_options ctx_ns label field s) c of
        (c1, Inr items) \<Rightarrow> (c1, Inr items)
      | (c1, Inl err) \<Rightarrow> (c1, Inl (wrap ''InternalError: failed to list'' err)))"

definition Storage_Create ::
    "'s k8s \<Rightarrow> (error \<Rightarrow> bool) \<Rightarrow> string option \<Rightarrow> runtime_object \<Rightarrow> (runtime_object \<Rightarrow> unit res) option
      \<Rightarrow> ('c, 'l, 'f, 'w) ClientDelegatedStorage \<Rightarrow> 'c \<Rightarrow> 'c \<times> object res" where
  "Storage_Create K IsAlreadyExists ctx_ns robj createValidation s c =
     (case bind (case createValidation of Some v \<Rightarrow> v robj | None \<Rightarrow> Inr ()) (\<lambda>_.
           bind (case robj of Unstructured obj \<Rightarrow> Inr (u_set_gvk K (st_gvk s) obj)
                 | _ \<Rightarrow> Inl (Error ''BadRequest: object is not unstructured'')) (\<lambda>obj.
           if NamespaceScoped s
           then (case ctx_ns of Some ns \<Rightarrow> Inr (u_set_namespace K ns obj) | None \<Rightarrow> Inl namespace_required)
           else Inr obj)) of
        Inl err \<Rightarrow> (c, Inl err)
      | Inr obj \<Rightarrow>
          (case c_Create (st_client s) obj c of
             (c1, obj1, Inr _) \<Rightarrow> (c1, Inr obj1)
           | (c1, obj1, Inl err) \<Rightarrow>
               (c1, Inl (if IsAlreadyExists err then AlreadyExists else wrap ''InternalError: failed to create'' err))))"

text \<open>The result of an update is the object and whether it was created.\<close>

definition Storage_Update ::
    "'s k8s \<Rightarrow> meta_libs \<Rightarrow> (error \<Rightarrow> bool) \<Rightarrow> string option \<Rightarrow> string \<Rightarrow> (object option \<Rightarrow> runtime_object res)
      \<Rightarrow> (runtime_object \<Rightarrow> unit res) option \<Rightarrow> (runtime_object \<Rightarrow> object \<Rightarrow> unit res) option \<Rightarrow> bool
      \<Rightarrow> ('c, 'l, 'f, 'w) ClientDelegatedStorage \<Rightarrow> 'c \<Rightarrow> 'c \<times> (object \<times> bool) res" where
  "Storage_Update K M IsAlreadyExists ctx_ns name UpdatedObject createValidation updateValidation forceAllowCreate s c =
     (case Storage_Get K M ctx_ns name s c of
        (c1, Inl err) \<Rightarrow>
          if IsNotFound M err \<and> forceAllowCreate
          then (case UpdatedObject None of
                  Inl e \<Rightarrow> (c1, Inl e)
                | Inr newObj \<Rightarrow>
                    (case Storage_Create K IsAlreadyExists ctx_ns newObj createValidation s c1 of
                       (c2, r) \<Rightarrow> (c2, bind r (\<lambda>obj. Inr (obj, True)))))
          else (c1, Inl err)
      | (c1, Inr currentObj) \<Rightarrow>
          (case bind (UpdatedObject (Some currentObj)) (\<lambda>updatedObj.
                bind (case updateValidation of Some v \<Rightarrow> v updatedObj currentObj | None \<Rightarrow> Inr ()) (\<lambda>_.
                case updatedObj of Unstructured obj \<Rightarrow> Inr (u_set_gvk K (st_gvk s) obj)
                | _ \<Rightarrow> Inl (Error ''BadRequest: object is not unstructured''))) of
             Inl err \<Rightarrow> (c1, Inl err)
           | Inr obj \<Rightarrow>
               (case c_Update (st_client s) obj c1 of
                  (c2, obj1, Inr _) \<Rightarrow> (c2, Inr (obj1, False))
                | (c2, obj1, Inl err) \<Rightarrow> (c2, Inl (wrap ''InternalError: failed to update'' err)))))"

definition Storage_Delete ::
    "'s k8s \<Rightarrow> meta_libs \<Rightarrow> string option \<Rightarrow> string \<Rightarrow> (object \<Rightarrow> unit res) option
      \<Rightarrow> ('c, 'l, 'f, 'w) ClientDelegatedStorage \<Rightarrow> 'c \<Rightarrow> 'c \<times> (object \<times> bool) res" where
  "Storage_Delete K M ctx_ns name deleteValidation s c =
     (case Storage_Get K M ctx_ns name s c of
        (c1, Inl err) \<Rightarrow> (c1, Inl err)
      | (c1, Inr obj) \<Rightarrow>
          (case (case deleteValidation of Some v \<Rightarrow> v obj | None \<Rightarrow> Inr ()) of
             Inl err \<Rightarrow> (c1, Inl err)
           | Inr _ \<Rightarrow>
               (case c_Delete (st_client s) obj c1 of
                  (c2, Inr _) \<Rightarrow> (c2, Inr (obj, True))
                | (c2, Inl err) \<Rightarrow> (c2, Inl (if IsNotFound M err then NotFound else wrap ''InternalError: failed to delete'' err)))))"

text \<open>Items that the validation refuses are skipped, failures are logged.\<close>

fun delete_each :: "(object \<Rightarrow> unit res) option \<Rightarrow> ('c, 'l, 'f, 'w) storage_client \<Rightarrow> object list \<Rightarrow> 'c \<Rightarrow> 'c" where
  "delete_each v cl [] c = c"
| "delete_each v cl (item # items) c =
     (if (case v of Some valid \<Rightarrow> \<not> is_ok (valid item) | None \<Rightarrow> False) then delete_each v cl items c
      else delete_each v cl items (fst (c_Delete cl item c)))"

definition Storage_DeleteCollection ::
    "string option \<Rightarrow> 'l option \<Rightarrow> 'f option \<Rightarrow> (object \<Rightarrow> unit res) option \<Rightarrow> ('c, 'l, 'f, 'w) ClientDelegatedStorage \<Rightarrow> 'c
      \<Rightarrow> 'c \<times> object list res" where
  "Storage_DeleteCollection ctx_ns label field deleteValidation s c =
     (case Storage_List ctx_ns label field s c of
        (c1, Inl err) \<Rightarrow> (c1, Inl err)
      | (c1, Inr items) \<Rightarrow> (delete_each deleteValidation (st_client s) items c1, Inr items))"

definition Storage_Watch ::
    "string option \<Rightarrow> 'l option \<Rightarrow> 'f option \<Rightarrow> ('c, 'l, 'f, 'w) ClientDelegatedStorage \<Rightarrow> 'c \<Rightarrow> 'c \<times> 'w res" where
  "Storage_Watch ctx_ns label field s c =
     (if \<not> st_hasWatcher s then (c, Inl (Error ''ServiceUnavailable: watch unavailable''))
      else case sc_Watch (st_client s) (storage_list_gvk s) (list_options ctx_ns label field s) c of
        (c1, Inr w) \<Rightarrow> (c1, Inr w)
      | (c1, Inl err) \<Rightarrow> (c1, Inl (wrap ''InternalError: failed to create watch'' err)))"

section \<open>Tables\<close>

record TableColumnDefinition =
  col_Name :: string
  col_Format :: string
  col_Description :: string
  col_Priority :: nat

record Table =
  tb_ColumnDefinitions :: "TableColumnDefinition list"
  tb_Rows :: "(string list \<times> object) list"
  tb_ResourceVersion :: string

definition getColumnDefinitions :: "('c, 'l, 'f, 'w) ClientDelegatedStorage \<Rightarrow> TableColumnDefinition list" where
  "getColumnDefinitions s =
     (if NamespaceScoped s
      then [\<lparr>col_Name = ''Namespace'', col_Format = [], col_Description = ''Namespace of the resource'', col_Priority = 0\<rparr>] else [])
     @ [\<lparr>col_Name = ''Name'', col_Format = ''name'', col_Description = ''Name of the resource'', col_Priority = 0\<rparr>,
        \<lparr>col_Name = ''Conditions'', col_Format = [], col_Description = ''Status conditions summary'', col_Priority = 0\<rparr>,
        \<lparr>col_Name = ''Labels'', col_Format = [], col_Description = ''Resource labels'', col_Priority = 1\<rparr>,
        \<lparr>col_Name = ''Annotations'', col_Format = [], col_Description = ''Number of annotations'', col_Priority = 1\<rparr>]"

fun Join :: "string list \<Rightarrow> string \<Rightarrow> string" where
  "Join [] sep = []"
| "Join [s] sep = s"
| "Join (s # t # ss) sep = s @ sep @ Join (t # ss) sep"

text \<open>At most three items, and the number of the others.\<close>

definition shorten :: "string list \<Rightarrow> string" where
  "shorten pairs =
     (if length pairs > 3 then Join (take 3 pairs) '','' @ '' +'' @ nat_str (length pairs - 3) @ '' more'' else Join pairs '','')"

definition none_text :: string where
  "none_text = ''<none>''"

text \<open>The map of well-known condition types; a type it does not have reads as 0.\<close>

definition wellKnownTypes :: "(string \<times> nat) list" where
  "wellKnownTypes = [(''Ready'', 1), (''Available'', 2), (''Progressing'', 3), (''Degraded'', 4)]"

definition known_priority :: "string \<Rightarrow> nat" where
  "known_priority t = (case map_of wellKnownTypes t of Some p \<Rightarrow> p | None \<Rightarrow> 0)"

definition existing_priority :: "string \<Rightarrow> nat" where
  "existing_priority existing = known_priority (hd (split_on CHR '':'' existing))"

fun insert_pair :: "nat \<Rightarrow> string \<Rightarrow> string list \<Rightarrow> string list" where
  "insert_pair priority pair [] = [pair]"
| "insert_pair priority pair (existing # rest) =
     (if existing_priority existing > priority then pair # existing # rest else existing # insert_pair priority pair rest)"

text \<open>The type and status of a condition, if it is a map with both texts.\<close>

definition condition_pair :: "gval \<Rightarrow> (string \<times> string) option" where
  "condition_pair cond =
     (case cond of
        VMap m \<Rightarrow> (case (map_of m ''type'', map_of m ''status'') of (Some (VStr t), Some (VStr st)) \<Rightarrow> Some (t, st) | _ \<Rightarrow> None)
      | _ \<Rightarrow> None)"

definition add_condition :: "string list \<times> string list \<Rightarrow> gval \<Rightarrow> string list \<times> string list" where
  "add_condition acc cond =
     (case condition_pair cond of
        None \<Rightarrow> acc
      | Some (t, st) \<Rightarrow>
          (let pair = t @ '':'' @ st in
           case map_of wellKnownTypes t of
             Some priority \<Rightarrow> (insert_pair priority pair (fst acc), snd acc)
           | None \<Rightarrow> (fst acc, snd acc @ [pair])))"

definition extractConditionsSummary :: "(doc \<Rightarrow> string list \<Rightarrow> gval option res) \<Rightarrow> object \<Rightarrow> string" where
  "extractConditionsSummary NestedFieldNoCopy obj =
     (case NestedFieldNoCopy obj [''status'', ''conditions''] of
        Inr (Some (VList conditions)) \<Rightarrow>
          if conditions = [] then none_text
          else
            let (priorityConditions, otherConditions) = foldl add_condition ([], []) conditions;
                allPairs = priorityConditions @ otherConditions in
            if allPairs = [] then none_text else shorten allPairs
      | _ \<Rightarrow> none_text)"

text \<open>The labels are given in the order of the iteration over their map.\<close>

definition formatLabels :: "(string \<times> string) list \<Rightarrow> string" where
  "formatLabels labels = (if labels = [] then none_text else shorten (map (\<lambda>(k, v). k @ ''='' @ v) labels))"

definition formatAnnotations :: "(string \<times> string) list \<Rightarrow> string" where
  "formatAnnotations annotations = (if annotations = [] then none_text else nat_str (length annotations))"

definition objectToTableRow ::
    "'s k8s \<Rightarrow> meta_libs \<Rightarrow> (doc \<Rightarrow> string list \<Rightarrow> gval option res) \<Rightarrow> ('c, 'l, 'f, 'w) ClientDelegatedStorage \<Rightarrow> object \<Rightarrow> string list \<times> object" where
  "objectToTableRow K M NestedFieldNoCopy s obj =
     (let cells = [u_name K obj, extractConditionsSummary NestedFieldNoCopy obj,
            formatLabels (case GetLabels M obj of Some ls \<Rightarrow> ls | None \<Rightarrow> []),
            formatAnnotations (case GetAnnotations M obj of Some as \<Rightarrow> as | None \<Rightarrow> [])] in
      (if NamespaceScoped s then u_namespace K obj # cells else cells, obj))"

definition ConvertToTable ::
    "'s k8s \<Rightarrow> meta_libs \<Rightarrow> (doc \<Rightarrow> string list \<Rightarrow> gval option res) \<Rightarrow> string \<Rightarrow> ('c, 'l, 'f, 'w) ClientDelegatedStorage \<Rightarrow> runtime_object
      \<Rightarrow> Table res" where
  "ConvertToTable K M NestedFieldNoCopy list_version s robj =
     (case robj of
        Unstructured obj \<Rightarrow> Inr \<lparr>tb_ColumnDefinitions = getColumnDefinitions s, tb_Rows = [objectToTableRow K M NestedFieldNoCopy s obj],
          tb_ResourceVersion = []\<rparr>
      | UnstructuredList _ items \<Rightarrow> Inr \<lparr>tb_ColumnDefinitions = getColumnDefinitions s,
          tb_Rows = map (objectToTableRow K M NestedFieldNoCopy s) items, tb_ResourceVersion = list_version\<rparr>
      | OtherObject \<Rightarrow> Inl (Error ''unsupported object type for table conversion''))"

section \<open>Laws of the tables\<close>

text \<open>Every row has a cell for every column.\<close>

lemma table_is_rectangular:
  "ConvertToTable K M NestedFieldNoCopy v s robj = Inr tb \<Longrightarrow>
    \<forall>row \<in> set (tb_Rows tb). length (fst row) = length (tb_ColumnDefinitions tb)"
  by (cases robj) (auto simp: ConvertToTable_def objectToTableRow_def getColumnDefinitions_def Let_def)

text \<open>
  Well-known conditions come first, sorted by their priority; conditions of equal priority, and the
  other ones, in the order of the object.
\<close>

lemma set_insert_pair: "set (insert_pair p x xs) = insert x (set xs)"
  by (induction xs) auto

lemma mset_insert_pair: "mset (insert_pair p x xs) = add_mset x (mset xs)"
  by (induction xs) auto

lemma sorted_insert_pair:
  "existing_priority x = p \<Longrightarrow> sorted (map existing_priority xs) \<Longrightarrow> sorted (map existing_priority (insert_pair p x xs))"
  by (induction xs) (auto simp: set_insert_pair)

lemma filter_insert_pair:
  "existing_priority x = p \<Longrightarrow> sorted (map existing_priority xs) \<Longrightarrow>
    filter (\<lambda>y. q = existing_priority y) (insert_pair p x xs) = filter (\<lambda>y. q = existing_priority y) (xs @ [x])"
proof (induction xs)
  case (Cons y ys)
  then have "filter (\<lambda>z. p = existing_priority z) (y # ys) = []" if "existing_priority y > p"
    using that by (auto simp: filter_empty_conv)
  with Cons show ?case by auto
qed simp

lemma insert_pair_stable:
  assumes "sort_key existing_priority ys = xs" and "existing_priority x = p"
  shows "sort_key existing_priority (ys @ [x]) = insert_pair p x xs"
proof -
  have sorted: "sorted (map existing_priority xs)" using assms(1) by (metis sorted_sort_key)
  have m: "mset xs = mset ys" using assms(1) by (metis mset_sort)
  have "filter (\<lambda>y. q = existing_priority y) (insert_pair p x xs) = filter (\<lambda>y. q = existing_priority y) (ys @ [x])" for q
  proof -
    have "filter (\<lambda>y. q = existing_priority y) xs = filter (\<lambda>y. q = existing_priority y) ys"
      using assms(1) by (metis (mono_tags, lifting) filter_sort filter_cong sort_key_stable)
    then show ?thesis using filter_insert_pair [OF assms(2) sorted, of q] by simp
  qed
  then show ?thesis
    using m sorted_insert_pair [OF assms(2) sorted] by (intro properties_for_sort_key) (simp_all add: mset_insert_pair)
qed

lemma hd_split_on: "c \<notin> set t \<Longrightarrow> hd (split_on c (t @ c # rest)) = t"
  by (induction t) (auto split: list.split)

definition well_known :: "gval \<Rightarrow> bool" where
  "well_known cond \<longleftrightarrow> (case condition_pair cond of Some (t, _) \<Rightarrow> t \<in> {''Ready'', ''Available'', ''Progressing'', ''Degraded''} | None \<Rightarrow> False)"

definition condition_text :: "gval \<Rightarrow> string" where
  "condition_text cond = (case condition_pair cond of Some (t, st) \<Rightarrow> t @ '':'' @ st | None \<Rightarrow> [])"

lemma map_of_wellKnown: "map_of wellKnownTypes t = Some p \<Longrightarrow> t \<in> {''Ready'', ''Available'', ''Progressing'', ''Degraded''} \<and> known_priority t = p"
  "map_of wellKnownTypes t = None \<Longrightarrow> t \<notin> {''Ready'', ''Available'', ''Progressing'', ''Degraded''}"
  by (auto simp: wellKnownTypes_def known_priority_def split: if_splits)

lemma condition_priority:
  assumes "condition_pair cond = Some (t, st)" and "map_of wellKnownTypes t = Some p"
  shows "existing_priority (t @ '':'' @ st) = p"
proof -
  have "CHR '':'' \<notin> set t" using map_of_wellKnown(1) [OF assms(2)] by auto
  then have "existing_priority (t @ '':'' @ st) = known_priority t" using hd_split_on [of "CHR '':''" t st] by (simp add: existing_priority_def)
  then show ?thesis using map_of_wellKnown(1) [OF assms(2)] by simp
qed

lemma add_conditions:
  "foldl add_condition ([], []) conds
    = (sort_key existing_priority (map condition_text (filter well_known conds)),
       map condition_text (filter (\<lambda>cond. condition_pair cond \<noteq> None \<and> \<not> well_known cond) conds))"
proof (induction conds rule: rev_induct)
  case (snoc cond conds)
  show ?case
  proof (cases "condition_pair cond")
    case None
    then show ?thesis using snoc by (simp add: add_condition_def well_known_def)
  next
    case (Some ts)
    obtain t st where ts: "ts = (t, st)" by force
    show ?thesis
    proof (cases "map_of wellKnownTypes t")
      case None
      then have "\<not> well_known cond" using map_of_wellKnown(2) Some ts by (simp add: well_known_def)
      then show ?thesis using snoc None Some ts by (simp add: add_condition_def condition_text_def)
    next
      case (Some p)
      have "well_known cond" using map_of_wellKnown(1) [OF Some] \<open>condition_pair cond = Some ts\<close> ts by (simp add: well_known_def)
      then show ?thesis
        using snoc Some \<open>condition_pair cond = Some ts\<close> ts insert_pair_stable [OF refl condition_priority [of cond t st p]]
        by (simp add: add_condition_def condition_text_def Let_def)
    qed
  qed
qed simp

text \<open>The summary never shows more than three conditions.\<close>

lemma conditions_summary:
  assumes "NestedFieldNoCopy obj [''status'', ''conditions''] = Inr (Some (VList conds))" and "\<exists>cond \<in> set conds. condition_pair cond \<noteq> None"
  shows "extractConditionsSummary NestedFieldNoCopy obj
    = shorten (sort_key existing_priority (map condition_text (filter well_known conds))
        @ map condition_text (filter (\<lambda>cond. condition_pair cond \<noteq> None \<and> \<not> well_known cond) conds))"
proof -
  let ?known = "map condition_text (filter well_known conds)"
    and ?other = "map condition_text (filter (\<lambda>cond. condition_pair cond \<noteq> None \<and> \<not> well_known cond) conds)"
  have "length (?known @ ?other) \<noteq> 0" using assms(2) by (simp add: filter_empty_conv) blast
  then have "sort_key existing_priority ?known @ ?other \<noteq> []" by (metis length_0_conv length_append length_sort)
  moreover have "conds \<noteq> []" using assms(2) by auto
  ultimately show ?thesis using assms(1) unfolding extractConditionsSummary_def add_conditions by auto
qed

end
