(* ===== verification/Storage_Laws.thy ===== *)
theory Storage_Laws
  imports Api_Storage Target_Laws
begin

text \<open>
  The storage of the API server over a client that keeps the contract of the targets, in addition
  reads an object by its key, and stores every object under its own kind and key: the locale
  \<open>storage_backend\<close>.  The client of the view cache is one.
\<close>

section \<open>The contract\<close>

locale storage_backend =
  object_client K M "client.truncate cl" kind inv lookup like
  for K :: "'s k8s" and M and cl :: "('c, 'l, 'f, 'w) storage_client" and kind and inv :: "'c \<Rightarrow> bool" and lookup like +
  assumes stored_under: "inv c \<Longrightarrow> lookup c kind k = Some x \<Longrightarrow> u_gvk K x = kind \<and> store_key K x = k"
    and sget: "inv c \<Longrightarrow> u_gvk K obj = kind \<Longrightarrow> \<exists>c'. inv c' \<and> lookup c' = lookup c
      \<and> sc_Get cl ns name obj c = (c', case lookup c kind (cache_key ns name) of
          None \<Rightarrow> Inl NotFound | Some x \<Rightarrow> Inr (Object_DeepCopy K x))"
    and copy_kind: "inv c \<Longrightarrow> u_gvk K (Object_DeepCopy K x) = u_gvk K x"
begin

lemma new_kind: "inv c \<Longrightarrow> u_gvk K (u_set_gvk K kind obj) = kind"
  using laws [of c] view_group [of c] target_lawsD(1) [of K M kind obj] by blast

text \<open>A storage of the kind on this client.\<close>

definition serves :: "('c, 'l, 'f, 'w) ClientDelegatedStorage \<Rightarrow> bool" where
  "serves s \<longleftrightarrow> st_client s = cl \<and> st_gvk s = kind \<and> st_namespaced s"

lemma Get:
  assumes "inv c" and "serves s"
  shows "\<exists>c'. inv c' \<and> lookup c' = lookup c \<and> Storage_Get K M (Some ns) name s c
    = (c', case lookup c kind (cache_key ns name) of None \<Rightarrow> Inl NotFound | Some x \<Rightarrow> Inr (Object_DeepCopy K x))"
proof -
  have nf: "IsNotFound M NotFound" using laws [OF assms(1)] target_lawsD(16) [of K M] by blast
  obtain c' where "inv c'" "lookup c' = lookup c" "sc_Get cl ns name (Storage_New K s) c = (c', case lookup c kind (cache_key ns name) of
      None \<Rightarrow> Inl NotFound | Some x \<Rightarrow> Inr (Object_DeepCopy K x))"
    using sget [OF assms(1), of "Storage_New K s" ns name] new_kind [OF assms(1), of "[]"] assms(2) by (auto simp: Storage_New_def serves_def)
  then show ?thesis using assms(2) nf
    by (intro exI [of _ c']) (simp add: Storage_Get_def NamespaceScoped_def serves_def split: option.split)
qed

lemma Create:
  assumes "inv c" and "serves s" and "meta_ok obj"
  shows "\<exists>c' x. inv c' \<and> Storage_Create K exists_err (Some ns) (Unstructured obj) None s c
      = (c', Inr (u_set_namespace K ns (u_set_gvk K kind obj)))
    \<and> lookup c' = (lookup c)(kind := (lookup c kind)(cache_key ns (u_name K obj) \<mapsto> x))
    \<and> like x (u_set_namespace K ns (u_set_gvk K kind obj))"
proof -
  let ?o = "u_set_namespace K ns (u_set_gvk K kind obj)"
  have tl: "target_laws K M" "accessor_laws K" using laws [OF assms(1)] by blast+
  have ok: "meta_ok (u_set_gvk K kind obj)" using target_lawsD(3) [OF tl(1) assms(3)] .
  have o: "u_gvk K ?o = kind" "meta_ok ?o"
    using meta_setterD(1,3) [OF target_lawsD(6) [OF tl(1)]] new_kind [OF assms(1)] ok by simp_all
  have "store_key K ?o = cache_key ns (u_name K obj)"
    using target_lawsD(11,12) [OF tl(1) ok] accessor_lawsD(2) [OF tl(2)] by (simp add: cache_key_store [symmetric])
  with create [OF assms(1) o] obtain c' x where "c_Create cl ?o c = (c', ?o, Inr ())" "inv c'"
      "lookup c' = (lookup c)(kind := (lookup c kind)(cache_key ns (u_name K obj) \<mapsto> x))" "like x ?o"
    by (auto simp: client.truncate_def)
  then show ?thesis using assms(2)
    by (intro exI [of _ c'] exI [of _ x]) (simp add: Storage_Create_def NamespaceScoped_def serves_def)
qed

lemma Delete:
  assumes "inv c" and "serves s"
  shows "\<exists>c'. inv c' \<and> lookup c' = (lookup c)(kind := (lookup c kind)(cache_key ns name := None))
    \<and> Storage_Delete K M (Some ns) name None s c = (c', case lookup c kind (cache_key ns name) of
        None \<Rightarrow> Inl NotFound | Some x \<Rightarrow> Inr (Object_DeepCopy K x, True))"
proof -
  obtain c1 where c1: "inv c1" "lookup c1 = lookup c" "Storage_Get K M (Some ns) name s c
      = (c1, case lookup c kind (cache_key ns name) of None \<Rightarrow> Inl NotFound | Some x \<Rightarrow> Inr (Object_DeepCopy K x))"
    using Get [OF assms] by blast
  show ?thesis
  proof (cases "lookup c kind (cache_key ns name)")
    case None
    then have "(lookup c)(kind := (lookup c kind)(cache_key ns name := None)) = lookup c" by (auto simp: fun_eq_iff)
    with None c1 show ?thesis by (auto simp: Storage_Delete_def)
  next
    case (Some x)
    let ?o = "Object_DeepCopy K x"
    have al: "accessor_laws K" using laws [OF assms(1)] by blast
    have o: "u_gvk K ?o = kind" "store_key K ?o = cache_key ns name"
      using stored_under [OF assms(1) Some] copy_kind [OF assms(1), of x] accessor_lawsD(2,3) [OF al]
      by (simp_all add: cache_key_store [symmetric] Object_DeepCopy_def)
    obtain c2 where "inv c2" "lookup c2 = (lookup c)(kind := (lookup c kind)(cache_key ns name := None))" "c_Delete cl ?o c1 = (c2, Inr ())"
      using delete [OF c1(1) o(1)] o(2) Some c1(2) by (auto simp: client.truncate_def)
    then show ?thesis using c1(3) Some assms(2) by (intro exI [of _ c2]) (simp add: Storage_Delete_def serves_def)
  qed
qed

text \<open>An update of an object that is there with a new version of it, and of one that is not.\<close>

lemma Update:
  assumes "inv c" and "serves s" and "lookup c kind (cache_key ns name) = Some x" and "f (Some (Object_DeepCopy K x)) = Inr (Unstructured obj)"
    and "meta_ok obj" and "cache_key (u_namespace K obj) (u_name K obj) = cache_key ns name"
  shows "\<exists>c' y. inv c' \<and> Storage_Update K M exists_err (Some ns) name f None None force s c = (c', Inr (u_set_gvk K kind obj, False))
    \<and> lookup c' = (lookup c)(kind := (lookup c kind)(cache_key ns name \<mapsto> y)) \<and> like y (u_set_gvk K kind obj)"
proof -
  let ?o = "u_set_gvk K kind obj"
  have tl: "target_laws K M" "accessor_laws K" using laws [OF assms(1)] by blast+
  have o: "u_gvk K ?o = kind" "meta_ok ?o" "store_key K ?o = cache_key ns name"
    using new_kind [OF assms(1)] target_lawsD(3) [OF tl(1) assms(5)] accessor_lawsD(2,3) [OF tl(2)] assms(6)
    by (simp_all add: cache_key_store [symmetric])
  obtain c1 where c1: "inv c1" "lookup c1 = lookup c" "Storage_Get K M (Some ns) name s c = (c1, Inr (Object_DeepCopy K x))"
    using Get [OF assms(1,2), of ns name] assms(3) by auto
  obtain c2 y where "c_Update cl ?o c1 = (c2, ?o, Inr ())" "inv c2" "lookup c2 = (lookup c)(kind := (lookup c kind)(cache_key ns name \<mapsto> y))" "like y ?o"
    using update [OF c1(1) o(1,2)] o(3) assms(3) c1(2) by (auto simp: client.truncate_def)
  then show ?thesis using c1(3) assms(2,4)
    by (intro exI [of _ c2] exI [of _ y]) (simp add: Storage_Update_def serves_def)
qed

lemma Update_missing:
  assumes "inv c" and "serves s" and "lookup c kind (cache_key ns name) = None"
  shows "\<exists>c'. inv c' \<and> lookup c' = lookup c \<and> Storage_Update K M exists_err (Some ns) name f None None False s c = (c', Inl NotFound)"
  using Get [OF assms(1,2), of ns name] assms(3) by (auto simp: Storage_Update_def)

text \<open>What a read returns after a write.\<close>

lemma create_get:
  assumes "inv c" and "serves s" and "meta_ok obj"
  shows "\<exists>c1 c2 x. Storage_Create K exists_err (Some ns) (Unstructured obj) None s c = (c1, Inr (u_set_namespace K ns (u_set_gvk K kind obj)))
    \<and> Storage_Get K M (Some ns) (u_name K obj) s c1 = (c2, Inr (Object_DeepCopy K x)) \<and> like x (u_set_namespace K ns (u_set_gvk K kind obj))"
proof -
  obtain c1 x where c1: "inv c1" "Storage_Create K exists_err (Some ns) (Unstructured obj) None s c
        = (c1, Inr (u_set_namespace K ns (u_set_gvk K kind obj)))"
      "lookup c1 kind (cache_key ns (u_name K obj)) = Some x" "like x (u_set_namespace K ns (u_set_gvk K kind obj))"
    using Create [OF assms, of exists_err ns] by fastforce
  then show ?thesis using Get [OF c1(1) assms(2), of ns "u_name K obj"] by fastforce
qed

lemma update_get:
  assumes "inv c" and "serves s" and "lookup c kind (cache_key ns name) \<noteq> None" and "meta_ok obj"
    and "cache_key (u_namespace K obj) (u_name K obj) = cache_key ns name"
  shows "\<exists>c1 c2 x. Storage_Update K M exists_err (Some ns) name (\<lambda>_. Inr (Unstructured obj)) None None force s c
      = (c1, Inr (u_set_gvk K kind obj, False))
    \<and> Storage_Get K M (Some ns) name s c1 = (c2, Inr (Object_DeepCopy K x)) \<and> like x (u_set_gvk K kind obj)"
proof -
  obtain y where y: "lookup c kind (cache_key ns name) = Some y" using assms(3) by blast
  obtain c1 x where c1: "inv c1"
      "Storage_Update K M exists_err (Some ns) name (\<lambda>_. Inr (Unstructured obj)) None None force s c = (c1, Inr (u_set_gvk K kind obj, False))"
      "lookup c1 kind (cache_key ns name) = Some x" "like x (u_set_gvk K kind obj)"
    using Update [where f = "\<lambda>_. Inr (Unstructured obj)", OF assms(1,2) y refl assms(4,5), of exists_err force] by fastforce
  then show ?thesis using Get [OF c1(1) assms(2), of ns name] by fastforce
qed

lemma delete_get:
  assumes "inv c" and "serves s" and "lookup c kind (cache_key ns name) = Some y"
  shows "\<exists>c1 c2. Storage_Delete K M (Some ns) name None s c = (c1, Inr (Object_DeepCopy K y, True))
    \<and> Storage_Get K M (Some ns) name s c1 = (c2, Inl NotFound)"
proof -
  obtain c1 where c1: "inv c1" "Storage_Delete K M (Some ns) name None s c = (c1, Inr (Object_DeepCopy K y, True))"
      "lookup c1 kind (cache_key ns name) = None"
    using Delete [OF assms(1,2), of ns name] assms(3) by auto
  then show ?thesis using Get [OF c1(1) assms(2), of ns name] by auto
qed

lemma missing:
  assumes "inv c" and "serves s" and none: "lookup c kind (cache_key ns name) = None"
  shows "\<exists>c1 c2 c3. Storage_Get K M (Some ns) name s c = (c1, Inl NotFound)
    \<and> Storage_Update K M exists_err (Some ns) name f None None False s c = (c2, Inl NotFound)
    \<and> Storage_Delete K M (Some ns) name None s c = (c3, Inl NotFound)
    \<and> lookup c1 = lookup c \<and> lookup c2 = lookup c \<and> lookup c3 = lookup c"
proof -
  have "(lookup c)(kind := (lookup c kind)(cache_key ns name := None)) = lookup c" using none by (auto simp: fun_eq_iff)
  then show ?thesis
    using Get [OF assms(1,2), of ns name] Update_missing [OF assms, of exists_err f] Delete [OF assms(1,2), of ns name] none by fastforce
qed

end

section \<open>The view cache behind the storage\<close>

definition view_storage_client ::
    "'s k8s \<Rightarrow> ('l, 'f) cache_libs \<Rightarrow> client_libs \<Rightarrow> 'h
      \<Rightarrow> (('s, 'h) ViewCache \<times> 'h calls, 'l, 'f, ('l, 'f) ViewCacheWatcher \<times> nat \<times> 64 word) storage_client" where
  "view_storage_client K L J h = client.extend (view_client K L J) (storage_client.fields
     (\<lambda>ns name obj (c, log). case Get_view K ns name (u_gvk K obj) c of (c', r) \<Rightarrow> ((c', log), r))
     (\<lambda>gvk opts (c, log). case List_view K L gvk [] opts c of (c', r) \<Rightarrow> ((c', log), r))
     (\<lambda>gvk opts (c, log). case Watch_view K L h gvk opts c of (c', calls, r) \<Rightarrow> ((c', log @ calls), r)))"

lemma view_storage_truncate: "client.truncate (view_storage_client K L J h) = view_client K L J"
  by (simp add: view_storage_client_def client.extend_def client.truncate_def)

lemma view_storage_get: "sc_Get (view_storage_client K L J h) ns name obj (c, log) = (case Get_view K ns name (u_gvk K obj) c of (c', r) \<Rightarrow> ((c', log), r))"
  by (simp add: view_storage_client_def client.extend_def storage_client.fields_def)

text \<open>Semantic equality tells kinds apart, and the objects of a kind are stored under it.\<close>

definition kinds_kept :: "'s k8s \<Rightarrow> ('l, 'f) cache_libs \<Rightarrow> bool" where
  "kinds_kept K L \<longleftrightarrow> (\<forall>a b. SemanticDeepEqual L a b \<longrightarrow> u_gvk K a = u_gvk K b)"

definition kind_inv :: "'s k8s \<Rightarrow> meta_libs \<Rightarrow> ('l, 'f) cache_libs \<Rightarrow> GroupVersionKind \<Rightarrow> ('s, 'h) ViewCache \<times> 'h calls \<Rightarrow> bool" where
  "kind_inv K M L kind s \<longleftrightarrow> view_inv K M kind s \<and> kinds_kept K L \<and> (\<forall>k x. view_lookup K s kind k = Some x \<longrightarrow> u_gvk K x = kind)"

lemma deep_copy_kind: "cache_laws K \<Longrightarrow> u_gvk K (Object_DeepCopy K x) = u_gvk K x"
  by (simp add: cache_laws_def Object_DeepCopy_def)

lemma view_like_kind:
  assumes "cache_laws K" and "kinds_kept K L" and "view_like K L x obj"
  shows "u_gvk K x = u_gvk K obj"
  using assms(3) deep_copy_kind [OF assms(1)] stored_accessors(1) [OF assms(1)] assms(2) unfolding view_like_def kinds_kept_def by metis

lemma view_lookup_key: "view_lookup K s kind k = Some x \<Longrightarrow> store_key K x = k"
  by (auto simp: view_lookup_def view_contents_def contents_def dest: map_of_SomeD split: option.splits)

interpretation view_storage: storage_backend K M "view_storage_client K L J h" kind "kind_inv K M L kind" "view_lookup K" "view_like K L"
  for K :: "'s k8s" and M and L :: "('l, 'f) cache_libs" and J and h :: 'h and kind
proof
  fix c :: "('s, 'h) ViewCache \<times> 'h calls" and obj :: object and k x and ns name
  assume inv: "kind_inv K M L kind c"
  then have v: "view_inv K M kind c" and kk: "kinds_kept K L" and kinds: "view_lookup K c kind k = Some x \<Longrightarrow> u_gvk K x = kind" for k x
    by (auto simp: kind_inv_def)
  have cl: "cache_laws K" using v by (simp add: view_inv_def)
  have keep: "kind_inv K M L kind c'" if "view_inv K M kind c'" "view_lookup K c' = (view_lookup K c)(kind := (view_lookup K c kind)(k := y))"
      "\<And>x. y = Some x \<Longrightarrow> u_gvk K x = kind" for c' :: "('s, 'h) ViewCache \<times> 'h calls" and k y
    using that kinds kk by (auto simp: kind_inv_def)
  show "target_laws K M \<and> accessor_laws K \<and> IsViewKind kind \<and> CHR ''/'' \<notin> set (gvk_Group kind) \<and> CHR ''/'' \<notin> set (gvk_Version kind)"
    by (rule view_target.laws [OF v])
  show "meta_ok x" if "view_lookup K c kind k = Some x" using view_target.lookup_ok [OF v that] .
  show "u_gvk K x = kind \<and> store_key K x = k" if "view_lookup K c kind k = Some x" using kinds that view_lookup_key by blast
  show "u_gvk K (Object_DeepCopy K x) = u_gvk K x" by (rule deep_copy_kind [OF cl])
  assume obj: "u_gvk K obj = kind"
  show "\<exists>c'. kind_inv K M L kind c' \<and> view_lookup K c' = view_lookup K c
      \<and> c_Get (client.truncate (view_storage_client K L J h)) obj c = (case view_lookup K c kind (store_key K obj) of
          None \<Rightarrow> (c', obj, Inl NotFound) | Some x \<Rightarrow> (c', Object_DeepCopy K x, Inr ()))"
    unfolding view_storage_truncate using view_target.get [OF v obj, of L J] kk kinds unfolding kind_inv_def by metis
  show "\<exists>c'. kind_inv K M L kind c' \<and> view_lookup K c' = view_lookup K c
      \<and> sc_Get (view_storage_client K L J h) ns name obj c = (c', case view_lookup K c kind (cache_key ns name) of
          None \<Rightarrow> Inl NotFound | Some x \<Rightarrow> Inr (Object_DeepCopy K x))"
  proof -
    obtain c0 log where c: "c = (c0, log)" by force
    have "IsViewKind kind" "healthy c0" using v view_target.laws [OF v] by (auto simp: c view_inv_def)
    then obtain c' where "Get_view K ns name kind c0 = (c', case view_contents K c0 kind (cache_key ns name) of
        None \<Rightarrow> Inl NotFound | Some obj \<Rightarrow> Inr (Object_DeepCopy K obj))" "healthy c'" "view_contents K c' = view_contents K c0"
      using Get_view_contents [OF cl] by blast
    then show ?thesis using inv obj unfolding c view_storage_get
      by (intro exI [of _ "(c', log)"]) (simp add: kind_inv_def view_inv_def view_lookup_def)
  qed
  show "\<exists>c'. kind_inv K M L kind c' \<and> view_lookup K c' = (view_lookup K c)(kind := (view_lookup K c kind)(store_key K obj := None))
      \<and> c_Delete (client.truncate (view_storage_client K L J h)) obj c
        = (c', if view_lookup K c kind (store_key K obj) = None then Inl NotFound else Inr ())"
    unfolding view_storage_truncate using view_target.delete [OF v obj, of L J] keep [where y = None] by blast
  assume ok: "meta_ok obj"
  have like: "view_like K L x obj \<Longrightarrow> u_gvk K x = kind" for x using view_like_kind [OF cl kk] obj by blast
  show "\<exists>c' x. c_Create (client.truncate (view_storage_client K L J h)) obj c = (c', obj, Inr ()) \<and> kind_inv K M L kind c'
      \<and> view_lookup K c' = (view_lookup K c)(kind := (view_lookup K c kind)(store_key K obj \<mapsto> x)) \<and> view_like K L x obj"
    unfolding view_storage_truncate using view_target.create [OF v obj ok, of L J] keep like by (metis option.inject)
  assume "view_lookup K c kind (store_key K obj) \<noteq> None"
  from view_target.update [OF v obj ok this, of L J]
  show "\<exists>c' x. c_Update (client.truncate (view_storage_client K L J h)) obj c = (c', obj, Inr ()) \<and> kind_inv K M L kind c'
      \<and> view_lookup K c' = (view_lookup K c)(kind := (view_lookup K c kind)(store_key K obj \<mapsto> x)) \<and> view_like K L x obj"
    unfolding view_storage_truncate using keep like by (metis option.inject)
qed

end
