(* ===== verification/Api_Registry.thy ===== *)
theory Api_Registry
  imports Api_Storage
begin

text \<open>
  The API groups of the embedded API server: resources (\<^verbatim>\<open>pkg/apiserver/resource.go\<close>), the handler
  that routes requests to storages (\<^verbatim>\<open>resource_handler.go\<close>), the handlers of discovery requests
  (\<^verbatim>\<open>dynamic_discovery.go\<close>), registration (\<^verbatim>\<open>registry.go\<close>) and the codec (\<^verbatim>\<open>codec.go\<close>).

  The scheme, the managers of discovery documents and the generic request handlers are library
  code.  The scheme is the state \<open>'sch\<close> with the operations of \<open>scheme_libs\<close>; a discovery manager is
  the association list of the groups it was given; a request that reaches a generic handler is the
  value \<open>Handled\<close>.  Maps are association lists; where the code iterates over a map it has just built,
  \<open>order\<close> gives the order of the iteration.
\<close>

section \<open>Resources (\<^verbatim>\<open>resource.go\<close>)\<close>

record Resource =
  res_GVK :: GroupVersionKind
  res_APIResource :: APIResource
  res_HasStatus :: bool

definition findAPIResource :: "GroupVersionKind \<Rightarrow> Resource res" where
  "findAPIResource gvk =
     (if \<not> IsViewKind gvk then Inl (Error ''native API resource refused (only view resources are supported)'')
      else
        let name = ToLower (gvk_Kind gvk) in
        Inr \<lparr>res_GVK = gvk,
             res_APIResource = \<lparr>ar_Name = name, ar_SingularName = name, ar_Namespaced = True, ar_Kind = gvk_Kind gvk,
               ar_Group = gvk_Group gvk, ar_Version = gvk_Version gvk, ar_Verbs = [], ar_Categories = []\<rparr>,
             res_HasStatus = True\<rparr>)"

definition listGVK :: "GroupVersionKind \<Rightarrow> GroupVersionKind" where
  "listGVK gvk = \<lparr>gvk_Group = gvk_Group gvk, gvk_Version = gvk_Version gvk, gvk_Kind = gvk_Kind gvk @ ''List''\<rparr>"

definition gvr_of :: "GroupVersionKind \<Rightarrow> Resource \<Rightarrow> GroupVersionResource" where
  "gvr_of gvk resource = \<lparr>gvr_Group = gvk_Group gvk, gvr_Version = gvk_Version gvk, gvr_Resource = ar_Name (res_APIResource resource)\<rparr>"

section \<open>Routing (\<^verbatim>\<open>resource_handler.go\<close>)\<close>

type_synonym ('c, 'l, 'f, 'w) storageMap = "(GroupVersionResource \<times> ('c, 'l, 'f, 'w) ClientDelegatedStorage) list"

record ('c, 'l, 'f, 'w) resourceHandler =
  rh_storage :: "('c, 'l, 'f, 'w) storageMap"
  rh_client :: "('c, 'l, 'f, 'w) storage_client"
  rh_canWatch :: bool

definition newResourceHandler :: "('c, 'l, 'f, 'w) storage_client \<Rightarrow> bool \<Rightarrow> ('c, 'l, 'f, 'w) resourceHandler" where
  "newResourceHandler cl canWatch = \<lparr>rh_storage = [], rh_client = cl, rh_canWatch = canWatch\<rparr>"

record RequestInfo =
  ri_IsResourceRequest :: bool
  ri_APIGroup :: string
  ri_APIVersion :: string
  ri_Resource :: string
  ri_Subresource :: string
  ri_Verb :: string

datatype ('c, 'l, 'f, 'w) route =
    Delegate
  | HTTPError nat
  | Handled string "('c, 'l, 'f, 'w) ClientDelegatedStorage"

definition routeRequest :: "RequestInfo \<Rightarrow> ('c, 'l, 'f, 'w) ClientDelegatedStorage \<Rightarrow> ('c, 'l, 'f, 'w) route" where
  "routeRequest requestInfo storage =
     (if ri_Subresource requestInfo \<noteq> [] then HTTPError 404
      else if ri_Verb requestInfo \<in> {''get'', ''list'', ''watch'', ''create'', ''update'', ''patch'', ''delete'', ''deletecollection''}
      then Handled (ri_Verb requestInfo) storage
      else HTTPError 405)"

definition ServeHTTP :: "RequestInfo option \<Rightarrow> ('c, 'l, 'f, 'w) resourceHandler \<Rightarrow> ('c, 'l, 'f, 'w) route" where
  "ServeHTTP info h =
     (case info of
        None \<Rightarrow> Delegate
      | Some requestInfo \<Rightarrow>
          if \<not> ri_IsResourceRequest requestInfo then Delegate
          else
            let gvr = \<lparr>gvr_Group = ri_APIGroup requestInfo, gvr_Version = ri_APIVersion requestInfo, gvr_Resource = ri_Resource requestInfo\<rparr> in
            if \<not> IsViewGroup (gvr_Group gvr) then Delegate
            else case map_of (rh_storage h) gvr of
              None \<Rightarrow> Delegate
            | Some storage \<Rightarrow> routeRequest requestInfo storage)"

text \<open>\<open>fieldManager\<close> says whether the library can make a field manager for the kind.\<close>

definition createServingInfo ::
    "(GroupVersionKind \<Rightarrow> unit res) \<Rightarrow> GroupVersionResource \<Rightarrow> GroupVersionKind \<Rightarrow> Resource \<Rightarrow> ('c, 'l, 'f, 'w) resourceHandler
      \<Rightarrow> ('c, 'l, 'f, 'w) ClientDelegatedStorage res" where
  "createServingInfo fieldManager gvr gvk resource h =
     (if \<not> rh_canWatch h then Inl (Error ''delegating client does not support Watch'')
      else bind (rewrap ''failed to create field manager'' (fieldManager gvk)) (\<lambda>_.
        Inr \<lparr>st_client = rh_client h, st_hasWatcher = True, st_gvk = gvk, st_gvr = gvr,
             st_namespaced = ar_Namespaced (res_APIResource resource), st_hasStatus = res_HasStatus resource\<rparr>))"

definition addStorage ::
    "(GroupVersionKind \<Rightarrow> unit res) \<Rightarrow> GroupVersionResource \<Rightarrow> GroupVersionKind \<Rightarrow> Resource \<Rightarrow> ('c, 'l, 'f, 'w) resourceHandler
      \<Rightarrow> ('c, 'l, 'f, 'w) resourceHandler res" where
  "addStorage fieldManager gvr gvk resource h =
     bind (rewrap ''failed to create serving info'' (createServingInfo fieldManager gvr gvk resource h)) (\<lambda>info.
       Inr (h\<lparr>rh_storage := AList.update gvr info (rh_storage h)\<rparr>))"

definition removeStorage :: "GroupVersionResource \<Rightarrow> ('c, 'l, 'f, 'w) resourceHandler \<Rightarrow> ('c, 'l, 'f, 'w) resourceHandler" where
  "removeStorage gvr h = h\<lparr>rh_storage := filter (\<lambda>(k, v). k \<noteq> gvr) (rh_storage h)\<rparr>"

section \<open>Discovery handlers (\<^verbatim>\<open>dynamic_discovery.go\<close>)\<close>

text \<open>\<^verbatim>\<open>strings.Trim(path, "/")\<close> and \<^verbatim>\<open>strings.Split\<close>.\<close>

definition trim_slashes :: "string \<Rightarrow> string" where
  "trim_slashes s = rev (dropWhile (\<lambda>c. c = CHR ''/'') (rev (dropWhile (\<lambda>c. c = CHR ''/'') s)))"

definition splitPath :: "string \<Rightarrow> string list" where
  "splitPath path = (let p = trim_slashes path in if p = [] then [] else split_on CHR ''/'' p)"

datatype 'a discovery_route = Serve 'a | Pass | Refuse nat

definition dynamicGroupHandler_ServeHTTP :: "(string \<times> 'a) list \<Rightarrow> string \<Rightarrow> 'a discovery_route" where
  "dynamicGroupHandler_ServeHTTP handlers path =
     (case splitPath path of
        [apis, grp] \<Rightarrow>
          if apis \<noteq> ''apis'' then Refuse 400
          else (case map_of handlers grp of Some handler \<Rightarrow> Serve handler | None \<Rightarrow> Refuse 404)
      | _ \<Rightarrow> Refuse 400)"

definition version_key :: "string \<Rightarrow> string \<Rightarrow> string" where
  "version_key grp version = grp @ ''/'' @ version"

definition dynamicVersionHandler_ServeHTTP :: "(string \<times> 'a) list \<Rightarrow> string \<Rightarrow> 'a discovery_route" where
  "dynamicVersionHandler_ServeHTTP handlers path =
     (case splitPath path of
        [apis, grp, version] \<Rightarrow>
          if apis \<noteq> ''apis'' then Pass
          else (case map_of handlers (version_key grp version) of Some handler \<Rightarrow> Serve handler | None \<Rightarrow> Pass)
      | _ \<Rightarrow> Pass)"

definition setHandler :: "string \<Rightarrow> 'a \<Rightarrow> (string \<times> 'a) list \<Rightarrow> (string \<times> 'a) list" where
  "setHandler key handler handlers = AList.update key handler handlers"

definition removeHandler :: "string \<Rightarrow> (string \<times> 'a) list \<Rightarrow> (string \<times> 'a) list" where
  "removeHandler key handlers = AList.delete key handlers"

section \<open>Registration (\<^verbatim>\<open>registry.go\<close>)\<close>

record 'sch scheme_libs =
  AddToGroupVersion :: "GroupVersion \<Rightarrow> 'sch \<Rightarrow> 'sch"
  AddKnownTypeWithName :: "GroupVersionKind \<Rightarrow> bool \<Rightarrow> 'sch \<Rightarrow> 'sch"
  SetVersionPriority :: "GroupVersion \<Rightarrow> 'sch \<Rightarrow> 'sch res"

text \<open>
  A resource of aggregated discovery; the OpenAPI caches are represented by whether they are valid.
\<close>

record APIResourceDiscovery =
  rd_Resource :: string
  rd_ResponseKind :: GroupVersionKind
  rd_SingularResource :: string
  rd_Verbs :: "string list"

record ('c, 'l, 'f, 'w, 'sch) APIServer =
  as_scheme :: 'sch
  as_groupGVKs :: "(string \<times> GroupVersionKind list) list"
  as_resourceHandler :: "('c, 'l, 'f, 'w) resourceHandler"
  as_groupHandlers :: "(string \<times> APIGroup) list"
  as_versionHandlers :: "(string \<times> APIResource list) list"
  as_discovery :: "(string \<times> APIGroup) list"
  as_aggregated :: "(string \<times> (string \<times> APIResourceDiscovery list) list) list option"
  as_openAPICached :: bool

definition add_types_for ::
    "'sch scheme_libs \<Rightarrow> 'sch \<Rightarrow> GroupVersion \<times> GroupVersionKind list \<Rightarrow> 'sch \<times> unit res" where
  "add_types_for SL sch e =
     (let (gv, gvkList) = e;
          sch1 = foldl (\<lambda>sch gvk. AddKnownTypeWithName SL (listGVK gvk) True (AddKnownTypeWithName SL gvk False (AddToGroupVersion SL gv sch))) sch gvkList
      in case SetVersionPriority SL gv sch1 of
           Inl err \<Rightarrow> (sch1, Inl (wrap ''failed to set version priority'' err))
         | Inr sch2 \<Rightarrow> (sch2, Inr ()))"

fun add_types_loop ::
    "'sch scheme_libs \<Rightarrow> 'sch \<Rightarrow> (GroupVersion \<times> GroupVersionKind list) list \<Rightarrow> 'sch \<times> unit res" where
  "add_types_loop SL sch [] = (sch, Inr ())"
| "add_types_loop SL sch (e # es) =
     (case add_types_for SL sch e of (sch1, Inl err) \<Rightarrow> (sch1, Inl err) | (sch1, Inr _) \<Rightarrow> add_types_loop SL sch1 es)"

definition addTypesToScheme ::
    "'sch scheme_libs \<Rightarrow> (GroupVersion list \<Rightarrow> GroupVersion list) \<Rightarrow> GroupVersionKind list \<Rightarrow> 'sch \<Rightarrow> 'sch \<times> unit res" where
  "addTypesToScheme SL order gvks sch =
     add_types_loop SL sch (map (\<lambda>gv. (gv, filter (\<lambda>gvk. gvk_GroupVersion gvk = gv) gvks)) (order (remdups (map gvk_GroupVersion gvks))))"

text \<open>Kinds without a resource are skipped.\<close>

fun add_storages ::
    "(GroupVersionKind \<Rightarrow> unit res) \<Rightarrow> GroupVersionKind list \<Rightarrow> ('c, 'l, 'f, 'w) resourceHandler \<Rightarrow> ('c, 'l, 'f, 'w) resourceHandler \<times> unit res" where
  "add_storages fm [] h = (h, Inr ())"
| "add_storages fm (gvk # gvks) h =
     (case findAPIResource gvk of
        Inl _ \<Rightarrow> add_storages fm gvks h
      | Inr resource \<Rightarrow>
          (case addStorage fm (gvr_of gvk resource) gvk resource h of
             Inl err \<Rightarrow> (h, Inl (wrap ''failed to add storage'' err))
           | Inr h1 \<Rightarrow> add_storages fm gvks h1))"

definition discovery_resource :: "GroupVersionKind \<Rightarrow> Resource \<Rightarrow> APIResourceDiscovery" where
  "discovery_resource gvk r = \<lparr>rd_Resource = ar_Name (res_APIResource r), rd_ResponseKind = gvk,
     rd_SingularResource = ar_SingularName (res_APIResource r),
     rd_Verbs = [''get'', ''list'', ''create'', ''update'', ''patch'', ''delete'', ''watch'']\<rparr>"

definition found_resources :: "GroupVersionKind list \<Rightarrow> (GroupVersionKind \<times> Resource) list" where
  "found_resources gvks = List.map_filter (\<lambda>gvk. case findAPIResource gvk of Inr r \<Rightarrow> Some (gvk, r) | Inl _ \<Rightarrow> None) gvks"

definition register_version ::
    "string \<Rightarrow> GroupVersionKind list \<Rightarrow> ('c, 'l, 'f, 'w, 'sch) APIServer \<Rightarrow> string \<Rightarrow> ('c, 'l, 'f, 'w, 'sch) APIServer" where
  "register_version grp gvks s version =
     (let found = found_resources (filter (\<lambda>gvk. gvk_Version gvk = version) gvks);
          s1 = s\<lparr>as_versionHandlers := setHandler (version_key grp version) (map (\<lambda>(_, r). res_APIResource r) found) (as_versionHandlers s)\<rparr>
      in s1\<lparr>as_aggregated := map_option (\<lambda>ag.
             AList.update grp (AList.update version (map (\<lambda>(gvk, r). discovery_resource gvk r) found)
               (case map_of ag grp of Some vs \<Rightarrow> vs | None \<Rightarrow> [])) ag) (as_aggregated s1)\<rparr>)"

text \<open>The preferred version is the first one of the iteration; an empty list of kinds has none.\<close>

definition registerDiscoveryHandlers ::
    "(string list \<Rightarrow> string list) \<Rightarrow> string \<Rightarrow> GroupVersionKind list \<Rightarrow> ('c, 'l, 'f, 'w, 'sch) APIServer
      \<Rightarrow> ('c, 'l, 'f, 'w, 'sch) APIServer \<times> unit res" where
  "registerDiscoveryHandlers order grp gvks s =
     (let versions = order (remdups (map gvk_Version gvks));
          forDiscovery = map (\<lambda>v. (gv_String \<lparr>gv_Group = grp, gv_Version = v\<rparr>, v)) versions
      in case forDiscovery of
           [] \<Rightarrow> (s, Inl (Panic ''index out of range [0] with length 0''))
         | preferred # _ \<Rightarrow>
             let apiGroup = \<lparr>ag_Name = grp, ag_Versions = forDiscovery, ag_PreferredVersion = Some preferred\<rparr>;
                 s1 = s\<lparr>as_groupHandlers := setHandler grp apiGroup (as_groupHandlers s),
                        as_discovery := AList.update grp apiGroup (as_discovery s)\<rparr>
             in (foldl (register_version grp gvks) s1 versions, Inr ()))"

record orders =
  o_gvs :: "GroupVersion list \<Rightarrow> GroupVersion list"
  o_versions :: "string list \<Rightarrow> string list"
  o_groups :: "string list \<Rightarrow> string list"

definition RegisterAPIGroup ::
    "'sch scheme_libs \<Rightarrow> (GroupVersionKind \<Rightarrow> unit res) \<Rightarrow> orders \<Rightarrow> string \<Rightarrow> GroupVersionKind list
      \<Rightarrow> ('c, 'l, 'f, 'w, 'sch) APIServer \<Rightarrow> ('c, 'l, 'f, 'w, 'sch) APIServer \<times> unit res" where
  "RegisterAPIGroup SL fm ord grp gvks s =
     (if \<not> IsViewGroup grp then (s, Inr ())
      else case addTypesToScheme SL (o_gvs ord) gvks (as_scheme s) of
        (sch, Inl err) \<Rightarrow> (s\<lparr>as_scheme := sch\<rparr>, Inl (wrap ''failed to add types to scheme'' err))
      | (sch, Inr _) \<Rightarrow>
          (case add_storages fm gvks (as_resourceHandler s) of
             (h, Inl err) \<Rightarrow> (s\<lparr>as_scheme := sch, as_resourceHandler := h\<rparr>, Inl err)
           | (h, Inr _) \<Rightarrow>
               (case registerDiscoveryHandlers (o_versions ord) grp gvks (s\<lparr>as_scheme := sch, as_resourceHandler := h\<rparr>) of
                  (s1, Inl err) \<Rightarrow> (s1, Inl err)
                | (s1, Inr _) \<Rightarrow>
                    (s1\<lparr>as_groupGVKs := AList.update grp (remdups gvks) (as_groupGVKs s1), as_openAPICached := False\<rparr>, Inr ()))))"

definition remove_resource :: "('c, 'l, 'f, 'w) resourceHandler \<Rightarrow> GroupVersionKind \<Rightarrow> ('c, 'l, 'f, 'w) resourceHandler" where
  "remove_resource h gvk = (case findAPIResource gvk of Inl _ \<Rightarrow> h | Inr resource \<Rightarrow> removeStorage (gvr_of gvk resource) h)"

definition UnregisterAPIGroup :: "string \<Rightarrow> ('c, 'l, 'f, 'w, 'sch) APIServer \<Rightarrow> ('c, 'l, 'f, 'w, 'sch) APIServer" where
  "UnregisterAPIGroup grp s =
     (case map_of (as_groupGVKs s) grp of
        None \<Rightarrow> s
      | Some gvks \<Rightarrow>
          s\<lparr>as_resourceHandler := foldl remove_resource (as_resourceHandler s) gvks,
            as_groupHandlers := removeHandler grp (as_groupHandlers s),
            as_versionHandlers := foldl (\<lambda>hs gvk. removeHandler (version_key (gvk_Group gvk) (gvk_Version gvk)) hs) (as_versionHandlers s) gvks,
            as_discovery := AList.delete grp (as_discovery s),
            as_aggregated := map_option (AList.delete grp) (as_aggregated s),
            as_groupGVKs := AList.delete grp (as_groupGVKs s),
            as_openAPICached := False\<rparr>)"

fun register_groups ::
    "'sch scheme_libs \<Rightarrow> (GroupVersionKind \<Rightarrow> unit res) \<Rightarrow> orders \<Rightarrow> (string \<times> GroupVersionKind list) list
      \<Rightarrow> ('c, 'l, 'f, 'w, 'sch) APIServer \<Rightarrow> ('c, 'l, 'f, 'w, 'sch) APIServer \<times> unit res" where
  "register_groups SL fm ord [] s = (s, Inr ())"
| "register_groups SL fm ord ((grp, gvkList) # rest) s =
     (case RegisterAPIGroup SL fm ord grp gvkList s of
        (s1, Inl err) \<Rightarrow> (s1, Inl (wrap ''failed to register API group'' err))
      | (s1, Inr _) \<Rightarrow> register_groups SL fm ord rest s1)"

definition RegisterGVKs ::
    "'sch scheme_libs \<Rightarrow> (GroupVersionKind \<Rightarrow> unit res) \<Rightarrow> orders \<Rightarrow> GroupVersionKind list
      \<Rightarrow> ('c, 'l, 'f, 'w, 'sch) APIServer \<Rightarrow> ('c, 'l, 'f, 'w, 'sch) APIServer \<times> unit res" where
  "RegisterGVKs SL fm ord gvks s =
     register_groups SL fm ord (map (\<lambda>grp. (grp, filter (\<lambda>gvk. gvk_Group gvk = grp) gvks)) (o_groups ord (remdups (map gvk_Group gvks)))) s"

definition UnregisterGVKs :: "orders \<Rightarrow> GroupVersionKind list \<Rightarrow> ('c, 'l, 'f, 'w, 'sch) APIServer \<Rightarrow> ('c, 'l, 'f, 'w, 'sch) APIServer" where
  "UnregisterGVKs ord gvks s = foldl (\<lambda>s grp. UnregisterAPIGroup grp s) s (o_groups ord (remdups (map gvk_Group gvks)))"

section \<open>The codec (\<^verbatim>\<open>codec.go\<close>)\<close>

text \<open>Views are encoded as they are, by the encoder; other objects by the codec, which may convert.\<close>

definition CompositeCodec_Encode :: "(runtime_object \<Rightarrow> GroupVersionKind) \<Rightarrow> (runtime_object \<Rightarrow> 'b res) \<Rightarrow> (runtime_object \<Rightarrow> 'b res) \<Rightarrow> runtime_object \<Rightarrow> 'b res" where
  "CompositeCodec_Encode kind_of codec encoder obj = (if \<not> IsViewKind (kind_of obj) then codec obj else encoder obj)"

end
