(* ===== verification/Registry_Laws.thy ===== *)
theory Registry_Laws
  imports Api_Registry
begin

text \<open>What registering and unregistering an API group does to the maps of the server.\<close>

section \<open>Storages\<close>

text \<open>The resource of a kind and the storage the handler makes for it.\<close>

definition kind_gvr :: "GroupVersionKind \<Rightarrow> GroupVersionResource" where
  "kind_gvr gvk = \<lparr>gvr_Group = gvk_Group gvk, gvr_Version = gvk_Version gvk, gvr_Resource = ToLower (gvk_Kind gvk)\<rparr>"

definition storage_for :: "('c, 'l, 'f, 'w) storage_client \<Rightarrow> GroupVersionKind \<Rightarrow> ('c, 'l, 'f, 'w) ClientDelegatedStorage" where
  "storage_for cl gvk = \<lparr>st_client = cl, st_hasWatcher = True, st_gvk = gvk, st_gvr = kind_gvr gvk, st_namespaced = True, st_hasStatus = True\<rparr>"

lemma addStorage_ok:
  assumes "findAPIResource gvk = Inr r" and "addStorage fm (gvr_of gvk r) gvk r h = Inr h'"
  shows "rh_client h' = rh_client h" "map_of (rh_storage h') = (map_of (rh_storage h))(kind_gvr gvk \<mapsto> storage_for (rh_client h) gvk)"
  using assms by (auto simp: findAPIResource_def addStorage_def createServingInfo_def bind_Inr_iff gvr_of_def kind_gvr_def storage_for_def
      update_conv' Let_def split: if_splits)

lemma add_storages_ok:
  assumes "add_storages fm gvks h = (h', Inr ())" and "\<forall>gvk \<in> set gvks. IsViewKind gvk"
  shows "rh_client h' = rh_client h"
    and "map_of (rh_storage h') = map_of (rh_storage h) ++ map_of (rev (map (\<lambda>gvk. (kind_gvr gvk, storage_for (rh_client h) gvk)) gvks))"
proof -
  have "rh_client h' = rh_client h
    \<and> map_of (rh_storage h') = map_of (rh_storage h) ++ map_of (rev (map (\<lambda>gvk. (kind_gvr gvk, storage_for (rh_client h) gvk)) gvks))"
    using assms
  proof (induction gvks arbitrary: h)
    case (Cons gvk gvks)
    from Cons.prems(2) obtain r where r: "findAPIResource gvk = Inr r" by (auto simp: findAPIResource_def Let_def)
    with Cons.prems(1) obtain h1 where h1: "addStorage fm (gvr_of gvk r) gvk r h = Inr h1" "add_storages fm gvks h1 = (h', Inr ())"
      by (auto split: sum.splits)
    from Cons.IH [OF h1(2)] Cons.prems(2) addStorage_ok [OF r h1(1)] show ?case by (simp add: fun_eq_iff map_add_def split: option.split)
  qed simp
  then show "rh_client h' = rh_client h"
    "map_of (rh_storage h') = map_of (rh_storage h) ++ map_of (rev (map (\<lambda>gvk. (kind_gvr gvk, storage_for (rh_client h) gvk)) gvks))" by blast+
qed

text \<open>The entry of a resource afterwards: the storage of a kind that has it, or what was there.\<close>

lemma add_storages_entry:
  assumes "add_storages fm gvks h = (h', Inr ())" and "\<forall>gvk \<in> set gvks. IsViewKind gvk"
  shows "gvr \<notin> kind_gvr ` set gvks \<Longrightarrow> map_of (rh_storage h') gvr = map_of (rh_storage h) gvr"
    and "gvr \<in> kind_gvr ` set gvks \<Longrightarrow>
      \<exists>gvk \<in> set gvks. kind_gvr gvk = gvr \<and> map_of (rh_storage h') gvr = Some (storage_for (rh_client h) gvk)"
proof -
  let ?new = "rev (map (\<lambda>gvk. (kind_gvr gvk, storage_for (rh_client h) gvk)) gvks)"
  have st: "map_of (rh_storage h') = map_of (rh_storage h) ++ map_of ?new" by (rule add_storages_ok(2) [OF assms])
  have keys: "fst ` set ?new = kind_gvr ` set gvks" by (simp add: image_image)
  show "map_of (rh_storage h') gvr = map_of (rh_storage h) gvr" if "gvr \<notin> kind_gvr ` set gvks"
  proof -
    have "map_of ?new gvr = None" unfolding map_of_eq_None_iff keys by (rule that)
    then show ?thesis by (simp add: st map_add_def)
  qed
  show "\<exists>gvk \<in> set gvks. kind_gvr gvk = gvr \<and> map_of (rh_storage h') gvr = Some (storage_for (rh_client h) gvk)"
    if "gvr \<in> kind_gvr ` set gvks"
  proof -
    have "map_of ?new gvr \<noteq> None" unfolding map_of_eq_None_iff keys using that by simp
    then obtain e where e: "map_of ?new gvr = Some e" by blast
    then show ?thesis using map_of_SomeD [OF e] by (auto simp: st map_add_find_right)
  qed
qed

lemma map_of_removed: "map_of (filter (\<lambda>(k, v). k \<noteq> x) xs) = (map_of xs)(x := None)"
  by (induction xs) (auto simp: fun_eq_iff)

lemma remove_resource_map:
  "IsViewKind gvk \<Longrightarrow> map_of (rh_storage (remove_resource h gvk)) = (map_of (rh_storage h))(kind_gvr gvk := None)"
  by (simp add: remove_resource_def findAPIResource_def removeStorage_def gvr_of_def kind_gvr_def map_of_removed Let_def)

lemma remove_resources_map:
  "\<forall>gvk \<in> set gvks. IsViewKind gvk \<Longrightarrow>
    map_of (rh_storage (foldl remove_resource h gvks)) = (\<lambda>gvr. if gvr \<in> kind_gvr ` set gvks then None else map_of (rh_storage h) gvr)"
  by (induction gvks arbitrary: h) (auto simp: remove_resource_map fun_eq_iff)

lemma remove_resources_client: "rh_client (foldl remove_resource h gvks) = rh_client h" "rh_canWatch (foldl remove_resource h gvks) = rh_canWatch h"
  by (induction gvks arbitrary: h) (auto simp: remove_resource_def removeStorage_def split: sum.splits)

section \<open>Discovery\<close>

lemma register_versions_map:
  "map_of (as_versionHandlers (foldl (register_version grp gvks) s vs)) k
    = (if \<exists>v \<in> set vs. k = version_key grp v then Some (map (\<lambda>(_, r). res_APIResource r)
        (found_resources (filter (\<lambda>gvk. version_key grp (gvk_Version gvk) = k) gvks)))
       else map_of (as_versionHandlers s) k)"
  by (induction vs arbitrary: s) (auto simp: register_version_def setHandler_def update_conv' version_key_def Let_def)

text \<open>The parts of the state that the handlers of versions leave alone, and those of the aggregated manager.\<close>

lemma register_versions_same:
  "as_scheme (foldl (register_version grp gvks) s vs) = as_scheme s" "as_groupGVKs (foldl (register_version grp gvks) s vs) = as_groupGVKs s"
  "as_resourceHandler (foldl (register_version grp gvks) s vs) = as_resourceHandler s"
  "as_groupHandlers (foldl (register_version grp gvks) s vs) = as_groupHandlers s" "as_discovery (foldl (register_version grp gvks) s vs) = as_discovery s"
  by (induction vs arbitrary: s) (simp_all add: register_version_def Let_def)

definition other_groups :: "string \<Rightarrow> (string \<times> 'a) list option \<Rightarrow> (string \<rightharpoonup> 'a) option" where
  "other_groups grp = map_option (\<lambda>ag. (map_of ag)(grp := None))"

lemma register_versions_aggregated:
  "other_groups grp (as_aggregated (foldl (register_version grp gvks) s vs)) = other_groups grp (as_aggregated s)"
proof (induction vs arbitrary: s)
  case (Cons v vs)
  have "other_groups grp (as_aggregated (register_version grp gvks s v)) = other_groups grp (as_aggregated s)"
    by (cases "as_aggregated s") (simp_all add: register_version_def other_groups_def update_conv' Let_def)
  with Cons show ?case by simp
qed simp

section \<open>Groups\<close>

lemma RegisterAPIGroup_ok:
  assumes "IsViewGroup grp" and "RegisterAPIGroup SL fm ord grp gvks s = (s', Inr ())"
  obtains sch h apiGroup where "add_storages fm gvks (as_resourceHandler s) = (h, Inr ())" "gvks \<noteq> [] \<or> o_versions ord [] \<noteq> []"
    "as_resourceHandler s' = h" "as_groupGVKs s' = AList.update grp (remdups gvks) (as_groupGVKs s)"
    "as_groupHandlers s' = setHandler grp apiGroup (as_groupHandlers s)" "as_discovery s' = AList.update grp apiGroup (as_discovery s)"
    "\<And>k. map_of (as_versionHandlers s') k
      = (if \<exists>v \<in> set (o_versions ord (remdups (map gvk_Version gvks))). k = version_key grp v then Some (map (\<lambda>(_, r). res_APIResource r)
          (found_resources (filter (\<lambda>gvk. version_key grp (gvk_Version gvk) = k) gvks)))
         else map_of (as_versionHandlers s) k)"
    "other_groups grp (as_aggregated s') = other_groups grp (as_aggregated s)"
proof -
  from assms obtain sch h s1 where a: "add_storages fm gvks (as_resourceHandler s) = (h, Inr ())"
      "registerDiscoveryHandlers (o_versions ord) grp gvks (s\<lparr>as_scheme := sch, as_resourceHandler := h\<rparr>) = (s1, Inr ())"
      "s' = s1\<lparr>as_groupGVKs := AList.update grp (remdups gvks) (as_groupGVKs s1), as_openAPICached := False\<rparr>"
    by (auto simp: RegisterAPIGroup_def split: prod.splits sum.splits)
  from a(2) obtain apiGroup where s1: "o_versions ord (remdups (map gvk_Version gvks)) \<noteq> []"
      "s1 = foldl (register_version grp gvks) (s\<lparr>as_scheme := sch, as_resourceHandler := h, as_groupHandlers := setHandler grp apiGroup (as_groupHandlers s),
         as_discovery := AList.update grp apiGroup (as_discovery s)\<rparr>) (o_versions ord (remdups (map gvk_Version gvks)))"
    by (auto simp: registerDiscoveryHandlers_def Let_def split: list.splits)
  have ne: "gvks \<noteq> [] \<or> o_versions ord [] \<noteq> []" using s1(1) by (cases gvks) auto
  show ?thesis
    by (rule that [OF a(1) ne, where apiGroup = apiGroup])
      (simp_all add: a(3) s1(2) register_versions_same register_versions_map register_versions_aggregated)
qed

lemma remove_versions_map:
  "map_of (foldl (\<lambda>hs gvk. removeHandler (version_key (gvk_Group gvk) (gvk_Version gvk)) hs) hs gvks) k
    = (if k \<in> (\<lambda>gvk. version_key (gvk_Group gvk) (gvk_Version gvk)) ` set gvks then None else map_of hs k)"
  by (induction gvks arbitrary: hs) (auto simp: removeHandler_def delete_conv')

end
