(* ===== verification/Api_Properties.thy ===== *)
theory Api_Properties
  imports Storage_Laws Registry_Laws Reconciler_Properties
begin

text \<open>
  The properties of the API server: its storages read and write the view cache, registered kinds
  are served by their storages, and unregistering a group undoes its registration.
\<close>

section \<open>Storage\<close>

text \<open>
  C12. The storage of a view kind over the client of the view cache, for
  requests with a namespace.  A created object is read back with the fields it was created with,
  under the namespace of the request.  An update of an object that is there replaces its fields.  A
  deleted object is returned once more and is then not found.  Reading, updating and deleting an
  object that is not there fail with NotFound and leave the content of the cache as it was.
\<close>

theorem storage_serves_view:
  fixes c :: "('s, 'h) ViewCache" and L :: "('l, 'f) cache_libs"
  assumes "cache_laws K" and "target_laws K M" and "equal_upto L R" and "kinds_kept K L" and "view_kind_ok gvk" and "healthy c"
    and "\<And>k x. view_contents K c gvk k = Some x \<Longrightarrow> meta_ok x \<and> u_gvk K x = gvk" and "meta_ok obj"
    and "s = storage_for (view_storage_client K L J h) gvk"
  shows "(\<exists>s1 s2 x. Storage_Create K exists_err (Some ns) (Unstructured obj) None s (c, log)
          = (s1, Inr (u_set_namespace K ns (u_set_gvk K gvk obj)))
        \<and> Storage_Get K M (Some ns) (u_name K obj) s s1 = (s2, Inr x) \<and> fields_like R x obj)
    \<and> (view_contents K c gvk (cache_key ns name) \<noteq> None \<longrightarrow> cache_key (u_namespace K obj) (u_name K obj) = cache_key ns name \<longrightarrow>
      (\<exists>s1 s2 x. Storage_Update K M exists_err (Some ns) name (\<lambda>_. Inr (Unstructured obj)) None None force s (c, log)
          = (s1, Inr (u_set_gvk K gvk obj, False))
        \<and> Storage_Get K M (Some ns) name s s1 = (s2, Inr x) \<and> fields_like R x obj))
    \<and> (\<forall>y. view_contents K c gvk (cache_key ns name) = Some y \<longrightarrow>
      (\<exists>s1 s2. Storage_Delete K M (Some ns) name None s (c, log) = (s1, Inr (Object_DeepCopy K y, True))
        \<and> Storage_Get K M (Some ns) name s s1 = (s2, Inl NotFound)))
    \<and> (view_contents K c gvk (cache_key ns name) = None \<longrightarrow>
      (\<exists>s1 s2 s3. Storage_Get K M (Some ns) name s (c, log) = (s1, Inl NotFound)
        \<and> Storage_Update K M exists_err (Some ns) name f None None False s (c, log) = (s2, Inl NotFound)
        \<and> Storage_Delete K M (Some ns) name None s (c, log) = (s3, Inl NotFound)
        \<and> view_contents K (fst s1) = view_contents K c \<and> view_contents K (fst s2) = view_contents K c
        \<and> view_contents K (fst s3) = view_contents K c))"
proof -
  have inv: "kind_inv K M L gvk (c, log)"
    using assms(1,2,4-7) by (auto simp: kind_inv_def view_inv_def view_lookup_def)
  have sv: "view_storage.serves K L J h gvk s" by (simp add: view_storage.serves_def assms(9) storage_for_def)
  have look: "view_lookup K = (\<lambda>s. view_contents K (fst s))" by (simp add: view_lookup_def fun_eq_iff)
  have fields: "fields_like R (Object_DeepCopy K x) obj" if "view_like K L x ob" "same_fields ob obj" for x ob
    using view_like_fields [OF assms(2,3) that(1)] stored_fields(2) [OF assms(2), of x] that(2)
    by (simp add: fields_like_def same_fields_def special_def)
  have gvk_fields: "same_fields (u_set_gvk K gvk obj) obj" using target_lawsD(2) [OF assms(2)] .
  have ns_fields: "same_fields (u_set_namespace K ns (u_set_gvk K gvk obj)) obj"
    using same_fields_trans [OF meta_setterD(2) [OF target_lawsD(6) [OF assms(2)]] gvk_fields] .
  note create = view_storage.create_get [OF inv sv assms(8), of exists_err ns]
    and update = view_storage.update_get [OF inv sv _ assms(8), of ns name exists_err force, unfolded look fst_conv]
    and delete = view_storage.delete_get [OF inv sv, of ns name, unfolded look fst_conv]
    and missing = view_storage.missing [OF inv sv, of ns name exists_err f, unfolded look fst_conv]
  show ?thesis
    using create update delete missing fields [OF _ ns_fields] fields [OF _ gvk_fields] by (intro conjI impI allI) blast+
qed

theorem storage_serves_view_witness:
  "\<exists>s1 s2 x. Storage_Create list_k8s (\<lambda>_. False) (Some ''default'') (Unstructured pod_a) None
      (storage_for (view_storage_client list_k8s list_libs no_nested ''h'') view_gvk) (new_cache, [])
      = (s1, Inr (u_set_namespace list_k8s ''default'' (u_set_gvk list_k8s view_gvk pod_a)))
    \<and> Storage_Get list_k8s list_meta (Some ''default'') ''a'' (storage_for (view_storage_client list_k8s list_libs no_nested ''h'') view_gvk) s1 = (s2, Inr x)
    \<and> map_of x ''spec'' = map_of pod_a ''spec''"
proof -
  have eq: "equal_upto list_libs (=)" by (simp add: equal_upto_def list_libs_def option.rel_eq)
  have kk: "kinds_kept list_k8s list_libs" by (simp add: kinds_kept_def list_libs_def)
  have ok: "meta_ok pod_a" by (simp add: meta_ok_def pod_a_def)
  have gvk: "view_kind_ok view_gvk" using target_kind_ok [of "''op''" pod_target]
    by (simp add: view_target_ok_def target_kind_def pod_target_def view_gvk_def)
  have none: "view_contents list_k8s (new_cache :: (object list, string) ViewCache) kind k = None" for kind k
    by (simp add: view_contents_def NewViewCache_def)
  have name: "u_name list_k8s pod_a = ''a''" by code_simp
  obtain s1 s2 x where "Storage_Create list_k8s (\<lambda>_. False) (Some ''default'') (Unstructured pod_a) None
      (storage_for (view_storage_client list_k8s list_libs no_nested ''h'') view_gvk) (new_cache, [])
      = (s1, Inr (u_set_namespace list_k8s ''default'' (u_set_gvk list_k8s view_gvk pod_a)))"
    "Storage_Get list_k8s list_meta (Some ''default'') ''a'' (storage_for (view_storage_client list_k8s list_libs no_nested ''h'') view_gvk) s1 = (s2, Inr x)"
    and x: "fields_like (=) x pod_a"
    using storage_serves_view [OF list_cache_laws list_target_laws eq kk gvk new_cache_healthy _ ok refl,
        where exists_err = "\<lambda>_. False" and ns = "''default''" and log = "[]" and h = "''h''" and J = no_nested] none name
    by fastforce
  moreover have "map_of x ''spec'' = map_of pod_a ''spec''" using x unfolding fields_like_def option.rel_eq by simp
  ultimately show ?thesis by blast
qed

section \<open>Registration\<close>

text \<open>A request for a resource, and a group of which the server has nothing.\<close>

definition resource_request :: "GroupVersionResource \<Rightarrow> string \<Rightarrow> RequestInfo" where
  "resource_request gvr verb = \<lparr>ri_IsResourceRequest = True, ri_APIGroup = gvr_Group gvr, ri_APIVersion = gvr_Version gvr,
     ri_Resource = gvr_Resource gvr, ri_Subresource = [], ri_Verb = verb\<rparr>"

definition unknown_group :: "string \<Rightarrow> ('c, 'l, 'f, 'w, 'sch) APIServer \<Rightarrow> bool" where
  "unknown_group grp s \<longleftrightarrow> (\<forall>gvr. gvr_Group gvr = grp \<longrightarrow> map_of (rh_storage (as_resourceHandler s)) gvr = None)
     \<and> map_of (as_groupGVKs s) grp = None \<and> map_of (as_groupHandlers s) grp = None \<and> map_of (as_discovery s) grp = None
     \<and> (\<forall>v. map_of (as_versionHandlers s) (version_key grp v) = None)
     \<and> (case as_aggregated s of Some ag \<Rightarrow> map_of ag grp = None | None \<Rightarrow> True)"

text \<open>The maps of the server.\<close>

definition api_maps where
  "api_maps s = (map_of (rh_storage (as_resourceHandler s)), map_of (as_groupGVKs s), map_of (as_groupHandlers s),
     map_of (as_versionHandlers s), map_of (as_discovery s), map_option map_of (as_aggregated s))"

text \<open>
  C10. Once a group of views has been registered, with kinds that differ in
  more than the case of letters, a request for the resource of a registered kind is handled by a
  storage of that kind, for each of the eight verbs; the routes of all resources of other groups are
  what they were, and so is the route of a resource of the group that no registered kind has.
\<close>

theorem registered_kinds_served:
  fixes s :: "('c, 'l, 'f, 'w, 'sch) APIServer"
  assumes "RegisterAPIGroup SL fm ord grp gvks s = (s', Inr ())" and "\<forall>gvk \<in> set gvks. IsViewKind gvk \<and> gvk_Group gvk = grp"
    and "inj_on kind_gvr (set gvks)" and "IsViewGroup grp"
  shows "(\<forall>gvk \<in> set gvks. \<forall>verb \<in> {''get'', ''list'', ''watch'', ''create'', ''update'', ''patch'', ''delete'', ''deletecollection''}.
        ServeHTTP (Some (resource_request (kind_gvr gvk) verb)) (as_resourceHandler s')
          = Handled verb (storage_for (rh_client (as_resourceHandler s)) gvk))
    \<and> (\<forall>gvr verb. gvr \<notin> kind_gvr ` set gvks \<longrightarrow>
        ServeHTTP (Some (resource_request gvr verb)) (as_resourceHandler s') = ServeHTTP (Some (resource_request gvr verb)) (as_resourceHandler s))"
proof -
  obtain h where h: "add_storages fm gvks (as_resourceHandler s) = (h, Inr ())" "as_resourceHandler s' = h"
    using RegisterAPIGroup_ok [OF assms(4,1)] by metis
  note entry = add_storages_entry [OF h(1)]
  have hit: "map_of (rh_storage h) (kind_gvr gvk) = Some (storage_for (rh_client (as_resourceHandler s)) gvk)" if "gvk \<in> set gvks" for gvk
    using entry(2) [of "kind_gvr gvk"] assms(2) inj_onD [OF assms(3)] that by (metis imageI)
  have miss: "map_of (rh_storage h) gvr = map_of (rh_storage (as_resourceHandler s)) gvr" if "gvr \<notin> kind_gvr ` set gvks" for gvr
    using entry(1) assms(2) that by blast
  have route: "ServeHTTP (Some (resource_request gvr verb)) rh = (if \<not> IsViewGroup (gvr_Group gvr) then Delegate
      else case map_of (rh_storage rh) gvr of None \<Rightarrow> Delegate | Some st \<Rightarrow> routeRequest (resource_request gvr verb) st)"
    for gvr verb and rh :: "('c, 'l, 'f, 'w) resourceHandler"
    by (cases gvr) (simp add: ServeHTTP_def resource_request_def Let_def split: option.split)
  have "IsViewGroup (gvr_Group (kind_gvr gvk))" if "gvk \<in> set gvks" for gvk using assms(2,4) that by (simp add: kind_gvr_def)
  with hit miss h(2) show ?thesis unfolding route by (auto simp: routeRequest_def resource_request_def)
qed

text \<open>
  C11. Registering a group that the server does not know and unregistering it
  again gives back all maps of the server: storages, kinds, discovery handlers and the documents of
  both discovery managers.
\<close>

theorem registration_roundtrip:
  assumes "RegisterAPIGroup SL fm ord grp gvks s = (s', Inr ())" and "\<forall>gvk \<in> set gvks. IsViewKind gvk \<and> gvk_Group gvk = grp"
    and "IsViewGroup grp" and "unknown_group grp s" and "\<And>vs. set (o_versions ord vs) = set vs"
  shows "api_maps (UnregisterAPIGroup grp s') = api_maps s"
proof -
  obtain h apiGroup where h: "add_storages fm gvks (as_resourceHandler s) = (h, Inr ())" "as_resourceHandler s' = h"
    and s': "as_groupGVKs s' = AList.update grp (remdups gvks) (as_groupGVKs s)" "as_groupHandlers s' = setHandler grp apiGroup (as_groupHandlers s)"
      "as_discovery s' = AList.update grp apiGroup (as_discovery s)"
    and vh: "\<And>k. \<not> (\<exists>v \<in> set (o_versions ord (remdups (map gvk_Version gvks))). k = version_key grp v) \<Longrightarrow>
      map_of (as_versionHandlers s') k = map_of (as_versionHandlers s) k"
    and ag: "other_groups grp (as_aggregated s') = other_groups grp (as_aggregated s)"
    using RegisterAPIGroup_ok [OF assms(3,1)] by metis
  have found: "map_of (as_groupGVKs s') grp = Some (remdups gvks)" by (simp add: s'(1) update_conv')
  note fresh = assms(4) [unfolded unknown_group_def]
  have same: "(map_of m)(grp := None) = map_of m" if "map_of m grp = None" for m :: "(string \<times> 'z) list" using that by auto
  have "map_of (rh_storage (foldl remove_resource h (remdups gvks))) gvr = map_of (rh_storage (as_resourceHandler s)) gvr" for gvr
  proof (cases "gvr \<in> kind_gvr ` set gvks")
    case True
    then show ?thesis using assms(2) fresh by (subst remove_resources_map) (auto simp: kind_gvr_def)
  next
    case False
    then show ?thesis using assms(2) add_storages_entry(1) [OF h(1)] by (subst remove_resources_map) auto
  qed
  moreover have "map_of (foldl (\<lambda>hs gvk. removeHandler (version_key (gvk_Group gvk) (gvk_Version gvk)) hs) (as_versionHandlers s') (remdups gvks)) k
      = map_of (as_versionHandlers s) k" for k
  proof (cases "k \<in> (\<lambda>gvk. version_key grp (gvk_Version gvk)) ` set gvks")
    case True
    then show ?thesis using assms(2) fresh by (auto simp: remove_versions_map image_iff)
  next
    case False
    then show ?thesis using assms(2,5) vh [of k] by (auto simp: remove_versions_map image_iff)
  qed
  moreover have "map_option (map_of \<circ> AList.delete grp) (as_aggregated s') = map_option map_of (as_aggregated s)"
    using ag fresh by (cases "as_aggregated s"; cases "as_aggregated s'") (auto simp: other_groups_def delete_conv' fun_eq_iff)
  ultimately show ?thesis
    using fresh by (simp add: UnregisterAPIGroup_def found api_maps_def h(2) s' setHandler_def removeHandler_def update_conv' delete_conv' same
        fun_eq_iff option.map_comp)
qed

section \<open>A group of views\<close>

definition no_scheme :: "unit scheme_libs" where
  "no_scheme = \<lparr>AddToGroupVersion = (\<lambda>_ s. s), AddKnownTypeWithName = (\<lambda>_ _ s. s), SetVersionPriority = (\<lambda>_ s. Inr s)\<rparr>"

definition in_order :: orders where
  "in_order = \<lparr>o_gvs = (\<lambda>x. x), o_versions = (\<lambda>x. x), o_groups = (\<lambda>x. x)\<rparr>"

definition no_client :: "(unit, unit, unit, unit) storage_client" where
  "no_client = \<lparr>c_Get = (\<lambda>obj c. (c, obj, Inl NotFound)), c_Create = (\<lambda>obj c. (c, obj, Inr ())), c_Update = (\<lambda>obj c. (c, obj, Inr ())),
     c_StatusUpdate = (\<lambda>obj c. (c, obj, Inr ())), c_Delete = (\<lambda>obj c. (c, Inl NotFound)), sc_Get = (\<lambda>ns n obj c. (c, Inl NotFound)),
     sc_List = (\<lambda>g os c. (c, Inr [])), sc_Watch = (\<lambda>g os c. (c, Inr ()))\<rparr>"

definition new_server :: "(unit, unit, unit, unit, unit) APIServer" where
  "new_server = \<lparr>as_scheme = (), as_groupGVKs = [], as_resourceHandler = newResourceHandler no_client True, as_groupHandlers = [],
     as_versionHandlers = [], as_discovery = [], as_aggregated = Some [], as_openAPICached = False\<rparr>"

definition kind_A :: GroupVersionKind where
  "kind_A = ViewGroupVersionKind ''op'' ''A''"

definition kind_B :: GroupVersionKind where
  "kind_B = ViewGroupVersionKind ''op'' ''B''"

definition server_AB :: "(unit, unit, unit, unit, unit) APIServer" where
  "server_AB = fst (RegisterAPIGroup no_scheme (\<lambda>_. Inr ()) in_order (Group ''op'') [kind_A, kind_B] new_server)"

lemma AB_registered: "RegisterAPIGroup no_scheme (\<lambda>_. Inr ()) in_order (Group ''op'') [kind_A, kind_B] new_server = (server_AB, Inr ())"
proof -
  have "snd (RegisterAPIGroup no_scheme (\<lambda>_. Inr ()) in_order (Group ''op'') [kind_A, kind_B] new_server) = Inr ()" by code_simp
  then show ?thesis by (simp add: server_AB_def prod_eq_iff)
qed

lemma AB_kinds: "\<forall>gvk \<in> set [kind_A, kind_B]. IsViewKind gvk \<and> gvk_Group gvk = Group ''op''" "inj_on kind_gvr (set [kind_A, kind_B])"
  "IsViewGroup (Group ''op'')"
  by code_simp+

theorem registered_kinds_served_witness:
  "ServeHTTP (Some (resource_request (kind_gvr kind_A) ''get'')) (as_resourceHandler server_AB) = Handled ''get'' (storage_for no_client kind_A)"
  using registered_kinds_served [OF AB_registered AB_kinds] by (simp add: new_server_def newResourceHandler_def)

theorem registration_roundtrip_witness: "api_maps (UnregisterAPIGroup (Group ''op'') server_AB) = api_maps new_server"
  by (rule registration_roundtrip [OF AB_registered AB_kinds(1,3)])
    (simp_all add: unknown_group_def new_server_def newResourceHandler_def in_order_def)

text \<open>
  Registering the group once more with fewer kinds leaves the storage of a kind that is gone, and
  unregistering the group does not remove it.  A group without kinds makes the server panic.
\<close>

theorem stale_storage:
  "map_option st_gvk (map_of (rh_storage (as_resourceHandler (UnregisterAPIGroup (Group ''op'')
      (fst (RegisterAPIGroup no_scheme (\<lambda>_. Inr ()) in_order (Group ''op'') [kind_A] server_AB))))) (kind_gvr kind_B)) = Some kind_B"
  "snd (RegisterAPIGroup no_scheme (\<lambda>_. Inr ()) in_order (Group ''op'') [] new_server) = Inl (Panic ''index out of range [0] with length 0'')"
  by code_simp+

end
