(* ===== verification/Managers.thy ===== *)
theory Managers
  imports Composite_Laws Rest_Mapper
begin

text \<open>
  Managers (\<^verbatim>\<open>pkg/manager/manager.go\<close>): which cache and which client a manager gets.  The manager of
  controller-runtime calls the functions it is given for the two; whether it can be made at all is
  the parameter \<open>runtime_new\<close>.  A REST configuration is what it gives, \<open>rest_libs\<close>; the headless
  manager passes an empty one.
\<close>

datatype ('n, 'l, 'f, 'i) any_client = ACompositeClient "('n, 'l, 'f, 'i) CompositeClient" | AViewClient "view_cache option"

record ('n, 'l, 'f, 'i) Manager =
  mgr_cache :: "('n, 'l, 'f, 'i) any_cache"
  mgr_client :: "('n, 'l, 'f, 'i) any_client"

type_synonym ('n, 'l, 'f, 'i, 'v, 'd) NewCacheFunc = "('n, 'l, 'f, 'i, 'v, 'd) rest_libs \<Rightarrow> ('n, 'l, 'f, 'i) any_cache res"

text \<open>
  A manager on a shared cache gets a delegating view cache of its own, within a composite cache if
  the shared cache is one.
\<close>

definition CacheInjector :: "('n, 'l, 'f, 'i) any_cache \<Rightarrow> ('n, 'l, 'f, 'i, 'v, 'd) NewCacheFunc" where
  "CacheInjector sharedCache config =
     (case sharedCache of
        AComposite c \<Rightarrow>
          (case cc_viewCache c of
             Shared \<Rightarrow> bind (NewCompositeCache (Some (rl_cache config)) None (Some (Some (Delegated NewDelegatingViewCache)))) (\<lambda>cc.
               Inr (AComposite cc))
           | Delegated _ \<Rightarrow> Inl (Error ''shared cache view cache must be *ViewCache''))
      | AView Shared \<Rightarrow> Inr (AView (Delegated NewDelegatingViewCache))
      | _ \<Rightarrow> Inl (Error ''expected CompositeCache or ViewCache''))"

text \<open>Both ways to make the client, of the new cache or empty, end with the cache of the manager set in it.\<close>

definition NewHeadless ::
    "unit res \<Rightarrow> ('n, 'l, 'f, 'i, 'v, 'd) rest_libs \<Rightarrow> ('n, 'l, 'f, 'i, 'v, 'd) NewCacheFunc option \<Rightarrow> ('n, 'l, 'f, 'i) Manager res" where
  "NewHeadless runtime_new empty_config newCache =
     (let cache = (case newCache of None \<Rightarrow> Inr (AView Shared) | Some f \<Rightarrow> f empty_config) in
      bind runtime_new (\<lambda>_. bind cache (\<lambda>c.
        case c of
          AView v \<Rightarrow> Inr \<lparr>mgr_cache = c, mgr_client = AViewClient (Some v)\<rparr>
        | _ \<Rightarrow> Inl (Error ''expected ViewCacheInterface''))))"

definition Manager_New ::
    "unit res \<Rightarrow> ('n, 'l, 'f, 'i, 'v, 'd) rest_libs \<Rightarrow> ('n, 'l, 'f, 'i, 'v, 'd) rest_libs option
      \<Rightarrow> ('n, 'l, 'f, 'i, 'v, 'd) NewCacheFunc option \<Rightarrow> ('n, 'l, 'f, 'i) Manager res" where
  "Manager_New runtime_new empty_config config newCache =
     (case config of
        None \<Rightarrow> NewHeadless runtime_new empty_config newCache
      | Some cfg \<Rightarrow>
          let newCacheFunc = (case newCache of
                Some f \<Rightarrow> f
              | None \<Rightarrow> (\<lambda>cfg. bind (NewCompositeCache (Some (rl_cache cfg)) None None) (\<lambda>cc. Inr (AComposite cc)))) in
          bind runtime_new (\<lambda>_. bind (newCacheFunc cfg) (\<lambda>cache. bind (NewCompositeClient (Some (rl_client cfg))) (\<lambda>client.
            Inr \<lparr>mgr_cache = cache, mgr_client = ACompositeClient (SetCache cache client)\<rparr>))))"

section \<open>The client of a manager\<close>

definition lift_view_client :: "(('s, 'h) ViewCache \<times> 'h calls) client \<Rightarrow> ('s, 'h, 'n) world client" where
  "lift_view_client cl = \<lparr>
     c_Get = (\<lambda>obj w. case c_Get cl obj (view_part w) of (s, r) \<Rightarrow> (put_view w s, r)),
     c_Create = (\<lambda>obj w. case c_Create cl obj (view_part w) of (s, r) \<Rightarrow> (put_view w s, r)),
     c_Update = (\<lambda>obj w. case c_Update cl obj (view_part w) of (s, r) \<Rightarrow> (put_view w s, r)),
     c_StatusUpdate = (\<lambda>obj w. case c_StatusUpdate cl obj (view_part w) of (s, r) \<Rightarrow> (put_view w s, r)),
     c_Delete = (\<lambda>obj w. case c_Delete cl obj (view_part w) of (s, r) \<Rightarrow> (put_view w s, r))\<rparr>"

definition nil_client :: "'c client" where
  "nil_client = \<lparr>c_Get = (\<lambda>obj c. (c, obj, Inl nil_call)), c_Create = (\<lambda>obj c. (c, obj, Inl nil_call)),
     c_Update = (\<lambda>obj c. (c, obj, Inl nil_call)), c_StatusUpdate = (\<lambda>obj c. (c, obj, Inl nil_call)), c_Delete = (\<lambda>obj c. (c, Inl nil_call))\<rparr>"

definition GetClient ::
    "'s k8s \<Rightarrow> ('l, 'f) cache_libs \<Rightarrow> client_libs \<Rightarrow> ('n, 'l, 'f, 'i) Manager \<Rightarrow> ('s, 'h, 'n) world client" where
  "GetClient K L J mgr =
     (case mgr_client mgr of
        ACompositeClient cl \<Rightarrow> composite_client K L J cl
      | AViewClient (Some _) \<Rightarrow> lift_view_client (view_client K L J)
      | AViewClient None \<Rightarrow> nil_client)"

section \<open>Laws\<close>

text \<open>
  With a cluster, a manager on a shared composite cache serves views; one on a bare view cache has
  a composite client without a view client, whose writes to views panic.
\<close>

lemma injected_composite:
  assumes "Manager_New runtime_new empty_config (Some cfg) (Some (CacheInjector (AComposite cc))) = Inr mgr"
  shows "\<exists>cl. mgr_client mgr = ACompositeClient cl \<and> wired cl"
  using assms by (auto simp: Manager_New_def CacheInjector_def bind_Inr_iff Let_def SetCache_wired split: view_cache.splits)

lemma injected_view_cache_panics:
  assumes "Manager_New runtime_new empty_config (Some cfg) (Some (CacheInjector (AView Shared))) = Inr mgr" and "IsViewKind (u_gvk K obj)"
  shows "c_Create (GetClient K L J mgr) obj w = (w, obj, Inl nil_call)"
  using assms by (auto simp: Manager_New_def CacheInjector_def bind_Inr_iff Let_def SetCache_def NewCompositeClient_def GetClient_def
      composite_client_def Composite_Create_def write_op_def)

text \<open>Without a cluster, a shared composite cache cannot be injected.\<close>

lemma headless_composite_fails:
  "\<not> is_ok (Manager_New runtime_new empty_config None (Some (CacheInjector (AComposite cc))))"
  by (auto simp: is_ok_iff Manager_New_def NewHeadless_def CacheInjector_def bind_Inr_iff Let_def split: view_cache.splits)

end
