(* ===== verification/Op_Controller.thy ===== *)
theory Op_Controller
  imports Managers Controllers Api_Registry
begin

text \<open>
  Operators (\<^verbatim>\<open>pkg/operator/operator.go\<close>) and the controller of the Operator resources
  (\<^verbatim>\<open>pkg/kubernetes/controllers/operator.go\<close>).

  All operators work on one shared state: the view cache with its calls to handlers and the cluster
  (\<open>world\<close>), and one API server.  The record \<open>env\<close> bundles the libraries and the parameters that every
  operator is built with.  Channels and goroutines are not modelled: an operator that has been
  started is one whose entry has its cancel function.
\<close>

section \<open>Operators\<close>

record ('s, 'n, 'l, 'f, 'i, 'v, 'd, 'q, 'p, 'r, 'sch) env =
  env_K :: "'s k8s"
  env_CL :: "('l, 'f) cache_libs"
  env_J :: client_libs
  env_L :: libs
  env_M :: meta_libs
  env_P :: "'p pred_libs"
  env_S :: "('q, 'p) source_libs"
  env_R :: "'p runtime_libs"
  env_KindFor :: "string \<Rightarrow> string \<Rightarrow> GroupVersionKind res"
  env_itoa :: "nat \<Rightarrow> string"
  env_sometimes :: "'r \<Rightarrow> 'r \<times> bool"
  env_limiter :: 'r
  env_text :: "error \<Rightarrow> string"
  env_now :: string
  env_SL :: "'sch scheme_libs"
  env_fm :: "GroupVersionKind \<Rightarrow> unit res"
  env_ord :: orders
  env_runtime_new :: "unit res"
  env_empty_config :: "('n, 'l, 'f, 'i, 'v, 'd) rest_libs"
  env_config :: "('n, 'l, 'f, 'i, 'v, 'd) rest_libs option"

datatype ('s, 'q, 'r) Controller = Declarative "('s, 'q, 'r) DeclarativeController" | Native NativeController

record ('s, 'n, 'l, 'f, 'i, 'q, 'r) Operator =
  op_name :: string
  op_mgr :: "('n, 'l, 'f, 'i) Manager"
  op_apiServer :: bool
  op_controllers :: "('s, 'q, 'r) Controller list"

fun Controller_GetName :: "('s, 'q, 'r) Controller \<Rightarrow> string" where
  "Controller_GetName (Declarative c) = dc_name c"
| "Controller_GetName (Native c) = nc_name c"

fun Controller_GetGVKs :: "(string \<Rightarrow> string \<Rightarrow> GroupVersionKind res) \<Rightarrow> ('s, 'q, 'r) Controller \<Rightarrow> GroupVersionKind list" where
  "Controller_GetGVKs KindFor (Declarative c) = Declarative_GetGVKs KindFor c"
| "Controller_GetGVKs KindFor (Native c) = nc_gvks c"

fun Controller_GetStatus :: "(error \<Rightarrow> string) \<Rightarrow> string \<Rightarrow> int \<Rightarrow> ('s, 'q, 'r) Controller \<Rightarrow> ControllerStatus" where
  "Controller_GetStatus text now gen (Declarative c) = Declarative_GetStatus text now gen c"
| "Controller_GetStatus text now gen (Native c) = Native_GetStatus now gen c"

definition Operator_New ::
    "('s, 'n, 'l, 'f, 'i, 'v, 'd, 'q, 'p, 'r, 'sch) env \<Rightarrow> string \<Rightarrow> ('n, 'l, 'f, 'i) any_cache option \<Rightarrow> bool
      \<Rightarrow> ('s, 'n, 'l, 'f, 'i, 'q, 'r) Operator res" where
  "Operator_New E name cache apiServer =
     bind (rewrap ''failed to create manager for operator''
       (Manager_New (env_runtime_new E) (env_empty_config E) (env_config E) (map_option CacheInjector cache))) (\<lambda>mgr.
     Inr \<lparr>op_name = name, op_mgr = mgr, op_apiServer = apiServer, op_controllers = []\<rparr>)"

definition SetAPIServer :: "bool \<Rightarrow> ('s, 'n, 'l, 'f, 'i, 'q, 'r) Operator \<Rightarrow> ('s, 'n, 'l, 'f, 'i, 'q, 'r) Operator" where
  "SetAPIServer apiServer oper = oper\<lparr>op_apiServer := apiServer\<rparr>"

definition ListControllers :: "('s, 'n, 'l, 'f, 'i, 'q, 'r) Operator \<Rightarrow> ('s, 'q, 'r) Controller list" where
  "ListControllers oper = op_controllers oper"

definition GetController :: "string \<Rightarrow> ('s, 'n, 'l, 'f, 'i, 'q, 'r) Operator \<Rightarrow> ('s, 'q, 'r) Controller option" where
  "GetController name oper = find (\<lambda>c. Controller_GetName c = name) (op_controllers oper)"

text \<open>The controller is kept also when it could not be built, to show its errors.\<close>

definition AddDeclarativeController ::
    "('s, 'n, 'l, 'f, 'i, 'v, 'd, 'q, 'p, 'r, 'sch) env \<Rightarrow> 'q ControllerSpec \<Rightarrow> ('s, 'n, 'l, 'f, 'i, 'q, 'r) Operator \<Rightarrow> ('s, 'h, 'n) world
      \<Rightarrow> ('s, 'h, 'n) world \<times> ('s, 'n, 'l, 'f, 'i, 'q, 'r) Operator \<times> unit res" where
  "AddDeclarativeController E config oper w =
     (case NewDeclarative (env_K E) (env_L E) (env_M E) (env_P E) (env_S E) (env_R E) (GetClient (env_K E) (env_CL E) (env_J E) (op_mgr oper))
             (env_KindFor E) (env_itoa E) (env_sometimes E) (env_limiter E) (Some []) (op_name oper) config w of
        (w1, c, err) \<Rightarrow> (w1, oper\<lparr>op_controllers := op_controllers oper @ [Declarative c]\<rparr>, err))"

definition AddNativeController :: "string \<Rightarrow> GroupVersionKind list \<Rightarrow> ('s, 'n, 'l, 'f, 'i, 'q, 'r) Operator \<Rightarrow> ('s, 'n, 'l, 'f, 'i, 'q, 'r) Operator" where
  "AddNativeController name gvks oper = oper\<lparr>op_controllers := op_controllers oper @ [Native (NewNative name gvks)]\<rparr>"

text \<open>The kinds of the operator's own group, each once.\<close>

fun first_of_group :: "string \<Rightarrow> GroupVersionKind set \<Rightarrow> GroupVersionKind list \<Rightarrow> GroupVersionKind list" where
  "first_of_group grp seen [] = []"
| "first_of_group grp seen (item # items) =
     (if gvk_Group item \<noteq> grp then first_of_group grp seen items
      else if item \<notin> seen then item # first_of_group grp (insert item seen) items
      else first_of_group grp seen items)"

definition GetGVKs :: "(string \<Rightarrow> string \<Rightarrow> GroupVersionKind res) \<Rightarrow> ('s, 'n, 'l, 'f, 'i, 'q, 'r) Operator \<Rightarrow> GroupVersionKind list" where
  "GetGVKs KindFor oper =
     first_of_group (Group (op_name oper)) {} (concat (map (Controller_GetGVKs KindFor) (op_controllers oper)))"

definition Operator_RegisterGVKs ::
    "('s, 'n, 'l, 'f, 'i, 'v, 'd, 'q, 'p, 'r, 'sch) env \<Rightarrow> ('s, 'n, 'l, 'f, 'i, 'q, 'r) Operator \<Rightarrow> ('c, 'sl, 'sf, 'sw, 'sch) APIServer
      \<Rightarrow> ('c, 'sl, 'sf, 'sw, 'sch) APIServer \<times> unit res" where
  "Operator_RegisterGVKs E oper srv =
     (if \<not> op_apiServer oper then (srv, Inr ())
      else RegisterGVKs (env_SL E) (env_fm E) (env_ord E) (GetGVKs (env_KindFor E) oper) srv)"

definition Operator_UnregisterGVKs ::
    "('s, 'n, 'l, 'f, 'i, 'v, 'd, 'q, 'p, 'r, 'sch) env \<Rightarrow> ('s, 'n, 'l, 'f, 'i, 'q, 'r) Operator \<Rightarrow> ('c, 'sl, 'sf, 'sw, 'sch) APIServer
      \<Rightarrow> ('c, 'sl, 'sf, 'sw, 'sch) APIServer" where
  "Operator_UnregisterGVKs E oper srv =
     (if \<not> op_apiServer oper then srv else UnregisterGVKs (env_ord E) (GetGVKs (env_KindFor E) oper) srv)"

text \<open>Failures of single controllers and of the registration are logged.\<close>

definition add_controllers where
  "add_controllers E = foldl (\<lambda>(w, oper) config. case AddDeclarativeController E config oper w of (w1, oper1, _) \<Rightarrow> (w1, oper1))"

definition AddSpec ::
    "('s, 'n, 'l, 'f, 'i, 'v, 'd, 'q, 'p, 'r, 'sch) env \<Rightarrow> 'q ControllerSpec list \<Rightarrow> ('s, 'n, 'l, 'f, 'i, 'q, 'r) Operator
      \<Rightarrow> ('c, 'sl, 'sf, 'sw, 'sch) APIServer \<Rightarrow> ('s, 'h, 'n) world
      \<Rightarrow> ('s, 'h, 'n) world \<times> ('c, 'sl, 'sf, 'sw, 'sch) APIServer \<times> ('s, 'n, 'l, 'f, 'i, 'q, 'r) Operator" where
  "AddSpec E spec oper srv w =
     (let (w1, oper1) = add_controllers E (w, oper) spec in (w1, fst (Operator_RegisterGVKs E oper1 srv), oper1))"

text \<open>\<^verbatim>\<open>NewFromFile\<close>: \<open>parsed\<close> is the specification read from the file.\<close>

definition NewFromFile where
  "NewFromFile E name parsed cache apiServer srv w =
     (case bind parsed (\<lambda>spec. bind (Operator_New E name cache apiServer) (\<lambda>oper. Inr (spec, oper))) of
        Inl err \<Rightarrow> (w, srv, Inl err)
      | Inr (spec, oper) \<Rightarrow> (case AddSpec E spec oper srv w of (w1, srv1, oper1) \<Rightarrow> (w1, srv1, Inr oper1)))"

definition Operator_GetStatus ::
    "('s, 'n, 'l, 'f, 'i, 'v, 'd, 'q, 'p, 'r, 'sch) env \<Rightarrow> int \<Rightarrow> ('s, 'n, 'l, 'f, 'i, 'q, 'r) Operator \<Rightarrow> ControllerStatus list" where
  "Operator_GetStatus E gen oper = map (Controller_GetStatus (env_text E) (env_now E) gen) (op_controllers oper)"

section \<open>The controller of operators\<close>

record ('s, 'n, 'l, 'f, 'i, 'q, 'r) opEntry =
  e_op :: "('s, 'n, 'l, 'f, 'i, 'q, 'r) Operator"
  e_cancel :: bool

record ('s, 'n, 'l, 'f, 'i, 'q, 'r) OpController =
  oc_operators :: "(string \<times> ('s, 'n, 'l, 'f, 'i, 'q, 'r) opEntry) list"
  oc_started :: bool
  oc_apiServer :: bool
  oc_sharedCache :: "('n, 'l, 'f, 'i) any_cache"

definition NewOpController :: "('n, 'l, 'f, 'i) any_cache \<Rightarrow> ('s, 'n, 'l, 'f, 'i, 'q, 'r) OpController" where
  "NewOpController sharedCache = \<lparr>oc_operators = [], oc_started = False, oc_apiServer = False, oc_sharedCache = sharedCache\<rparr>"

definition OpController_SetAPIServer :: "bool \<Rightarrow> ('s, 'n, 'l, 'f, 'i, 'q, 'r) OpController \<Rightarrow> ('s, 'n, 'l, 'f, 'i, 'q, 'r) OpController" where
  "OpController_SetAPIServer apiServer c =
     c\<lparr>oc_apiServer := apiServer, oc_operators := map (\<lambda>(n, e). (n, e\<lparr>e_op := SetAPIServer apiServer (e_op e)\<rparr>)) (oc_operators c)\<rparr>"

definition OpController_GetOperator :: "string \<Rightarrow> ('s, 'n, 'l, 'f, 'i, 'q, 'r) OpController \<Rightarrow> ('s, 'n, 'l, 'f, 'i, 'q, 'r) Operator option" where
  "OpController_GetOperator name c = map_option e_op (map_of (oc_operators c) name)"

definition startOp :: "('s, 'n, 'l, 'f, 'i, 'q, 'r) opEntry \<Rightarrow> ('s, 'n, 'l, 'f, 'i, 'q, 'r) opEntry" where
  "startOp e = e\<lparr>e_cancel := True\<rparr>"

definition AddOperator ::
    "('s, 'n, 'l, 'f, 'i, 'q, 'r) Operator \<Rightarrow> ('s, 'n, 'l, 'f, 'i, 'q, 'r) OpController \<Rightarrow> ('s, 'n, 'l, 'f, 'i, 'q, 'r) OpController" where
  "AddOperator oper c =
     (let e = \<lparr>e_op = oper, e_cancel = False\<rparr>; e1 = (if oc_started c then startOp e else e) in
      c\<lparr>oc_operators := AList.update (op_name oper) e1 (oc_operators c)\<rparr>)"

definition AddOperatorFromSpec ::
    "('s, 'n, 'l, 'f, 'i, 'v, 'd, 'q, 'p, 'r, 'sch) env \<Rightarrow> string \<Rightarrow> 'q ControllerSpec list \<Rightarrow> ('s, 'n, 'l, 'f, 'i, 'q, 'r) OpController
      \<Rightarrow> ('c, 'sl, 'sf, 'sw, 'sch) APIServer \<Rightarrow> ('s, 'h, 'n) world
      \<Rightarrow> ('s, 'h, 'n) world \<times> ('c, 'sl, 'sf, 'sw, 'sch) APIServer \<times> ('s, 'n, 'l, 'f, 'i, 'q, 'r) OpController
        \<times> ('s, 'n, 'l, 'f, 'i, 'q, 'r) Operator res" where
  "AddOperatorFromSpec E name spec c srv w =
     (case Operator_New E name (Some (oc_sharedCache c)) (oc_apiServer c) of
        Inl err \<Rightarrow> (w, srv, c, Inl err)
      | Inr oper \<Rightarrow> (case AddSpec E spec oper srv w of (w1, srv1, oper1) \<Rightarrow> (w1, srv1, AddOperator oper1 c, Inr oper1)))"

text \<open>Cancelling an operator that has not been started calls a nil function.\<close>

definition DeleteOperator ::
    "('s, 'n, 'l, 'f, 'i, 'v, 'd, 'q, 'p, 'r, 'sch) env \<Rightarrow> string \<Rightarrow> ('s, 'n, 'l, 'f, 'i, 'q, 'r) OpController
      \<Rightarrow> ('c, 'sl, 'sf, 'sw, 'sch) APIServer \<Rightarrow> ('c, 'sl, 'sf, 'sw, 'sch) APIServer \<times> ('s, 'n, 'l, 'f, 'i, 'q, 'r) OpController \<times> unit res" where
  "DeleteOperator E name c srv =
     (case map_of (oc_operators c) name of
        None \<Rightarrow> (srv, c, Inr ())
      | Some e \<Rightarrow>
          (Operator_UnregisterGVKs E (e_op e) srv, c\<lparr>oc_operators := AList.delete name (oc_operators c)\<rparr>,
           if e_cancel e then Inr () else Inl nil_call))"

definition UpsertOperator ::
    "('s, 'n, 'l, 'f, 'i, 'v, 'd, 'q, 'p, 'r, 'sch) env \<Rightarrow> string \<Rightarrow> 'q ControllerSpec list \<Rightarrow> ('s, 'n, 'l, 'f, 'i, 'q, 'r) OpController
      \<Rightarrow> ('c, 'sl, 'sf, 'sw, 'sch) APIServer \<Rightarrow> ('s, 'h, 'n) world
      \<Rightarrow> ('s, 'h, 'n) world \<times> ('c, 'sl, 'sf, 'sw, 'sch) APIServer \<times> ('s, 'n, 'l, 'f, 'i, 'q, 'r) OpController
        \<times> ('s, 'n, 'l, 'f, 'i, 'q, 'r) Operator res" where
  "UpsertOperator E name spec c srv w =
     (case (if OpController_GetOperator name c \<noteq> None then DeleteOperator E name c srv else (srv, c, Inr ())) of
        (srv1, c1, Inl err) \<Rightarrow> (w, srv1, c1, Inl err)
      | (srv1, c1, Inr _) \<Rightarrow> AddOperatorFromSpec E name spec c1 srv1 w)"

section \<open>Reconciling Operator resources\<close>

text \<open>
  The client of the cluster that holds the Operator resources is a parameter.  A resource carries
  the version it was read at, by which the cluster recognizes a write that is out of date.
\<close>

record 'q OperatorCRD =
  crd_ResourceVersion :: string
  crd_Generation :: int
  crd_Spec :: "'q ControllerSpec list"
  crd_Status :: "ControllerStatus list"

record ('k, 'q) crd_client =
  crd_Get :: "string \<Rightarrow> string \<Rightarrow> 'k \<Rightarrow> 'k \<times> 'q OperatorCRD res"
  crd_StatusUpdate :: "string \<Rightarrow> 'q OperatorCRD \<Rightarrow> 'k \<Rightarrow> 'k \<times> unit res"

text \<open>
  \<^verbatim>\<open>RetryOnConflict\<close> with \<open>steps\<close> attempts.  Every attempt reads the resource again, for its
  version, and writes the status that was computed before.
\<close>

fun status_attempts ::
    "meta_libs \<Rightarrow> ('k, 'q) crd_client \<Rightarrow> string \<Rightarrow> ControllerStatus list \<Rightarrow> nat \<Rightarrow> 'k \<Rightarrow> 'k \<times> unit res" where
  "status_attempts M cl name newStatus steps k =
     (case crd_Get cl [] name k of
        (k1, Inl err) \<Rightarrow> (if IsConflict M err \<and> 1 < steps then status_attempts M cl name newStatus (steps - 1) k1 else (k1, Inl err))
      | (k1, Inr spec) \<Rightarrow>
          (case crd_StatusUpdate cl name (spec\<lparr>crd_Status := newStatus\<rparr>) k1 of
             (k2, Inl err) \<Rightarrow> (if IsConflict M err \<and> 1 < steps then status_attempts M cl name newStatus (steps - 1) k2 else (k2, Inl err))
           | (k2, Inr _) \<Rightarrow> (k2, Inr ())))"

declare status_attempts.simps [simp del]

text \<open>The status is computed once, for the generation of the resource that is read first.\<close>

definition updateStatus ::
    "('s, 'n, 'l, 'f, 'i, 'v, 'd, 'q, 'p, 'r, 'sch) env \<Rightarrow> ('k, 'q) crd_client \<Rightarrow> nat \<Rightarrow> ('s, 'n, 'l, 'f, 'i, 'q, 'r) Operator \<Rightarrow> 'k \<Rightarrow> 'k" where
  "updateStatus E cl steps oper k =
     (case crd_Get cl [] (op_name oper) k of
        (k1, Inl _) \<Rightarrow> k1
      | (k1, Inr spec) \<Rightarrow>
          fst (status_attempts (env_M E) cl (op_name oper) (Operator_GetStatus E (crd_Generation spec) oper) steps k1))"

definition OpController_Reconcile ::
    "('s, 'n, 'l, 'f, 'i, 'v, 'd, 'q, 'p, 'r, 'sch) env \<Rightarrow> ('k, 'q) crd_client \<Rightarrow> nat \<Rightarrow> string \<Rightarrow> string
      \<Rightarrow> ('s, 'n, 'l, 'f, 'i, 'q, 'r) OpController \<Rightarrow> ('c, 'sl, 'sf, 'sw, 'sch) APIServer \<Rightarrow> ('s, 'h, 'n) world \<Rightarrow> 'k
      \<Rightarrow> 'k \<times> ('s, 'h, 'n) world \<times> ('c, 'sl, 'sf, 'sw, 'sch) APIServer \<times> ('s, 'n, 'l, 'f, 'i, 'q, 'r) OpController \<times> unit res" where
  "OpController_Reconcile E cl steps ns name c srv w k =
     (case crd_Get cl ns name k of
        (k1, Inl err) \<Rightarrow>
          if IsNotFound (env_M E) err
          then (case DeleteOperator E name c srv of (srv1, c1, r) \<Rightarrow> (k1, w, srv1, c1, r))
          else (k1, w, srv, c, Inl err)
      | (k1, Inr spec) \<Rightarrow>
          (case UpsertOperator E name (crd_Spec spec) c srv w of
             (w1, srv1, c1, Inl err) \<Rightarrow> (k1, w1, srv1, c1, Inl err)
           | (w1, srv1, c1, Inr oper) \<Rightarrow> (updateStatus E cl steps oper k1, w1, srv1, c1, Inr ())))"

text \<open>\<^verbatim>\<open>Start\<close> up to the point where it blocks: every operator that is there is started.\<close>

definition OpController_Start :: "('s, 'n, 'l, 'f, 'i, 'q, 'r) OpController \<Rightarrow> ('s, 'n, 'l, 'f, 'i, 'q, 'r) OpController" where
  "OpController_Start c = c\<lparr>oc_started := True, oc_operators := map (\<lambda>(n, e). (n, startOp e)) (oc_operators c)\<rparr>"

text \<open>An error of a controller that reaches the error channel updates the status of its operator.\<close>

definition handle_error ::
    "('s, 'n, 'l, 'f, 'i, 'v, 'd, 'q, 'p, 'r, 'sch) env \<Rightarrow> ('k, 'q) crd_client \<Rightarrow> nat \<Rightarrow> ctrl_error option \<Rightarrow> ('s, 'n, 'l, 'f, 'i, 'q, 'r) OpController
      \<Rightarrow> 'k \<Rightarrow> 'k" where
  "handle_error E cl steps err c k =
     (case err of
        None \<Rightarrow> k
      | Some operr \<Rightarrow> (case OpController_GetOperator (ce_Operator operr) c of None \<Rightarrow> k | Some oper \<Rightarrow> updateStatus E cl steps oper k))"

end
