(* ===== verification/Op_Laws.thy ===== *)
theory Op_Laws
  imports Op_Controller Registry_Laws
begin

text \<open>
  What an operator can change on the API server, and the invariant of the controller of operators.
\<close>

section \<open>Kinds of an operator\<close>

lemma first_of_group_set: "set (first_of_group grp seen xs) = {x \<in> set xs. gvk_Group x = grp} - seen"
  by (induction grp seen xs rule: first_of_group.induct) auto

lemma first_of_group_distinct: "distinct (first_of_group grp seen xs)"
  by (induction grp seen xs rule: first_of_group.induct) (auto simp: first_of_group_set)

lemma GetGVKs_group: "gvk \<in> set (GetGVKs KindFor oper) \<Longrightarrow> gvk_Group gvk = Group (op_name oper)"
  by (simp add: GetGVKs_def first_of_group_set)

section \<open>Other groups\<close>

text \<open>The maps of the server outside of a group.\<close>

definition other_maps where
  "other_maps grp s = ((\<lambda>gvr. if gvr_Group gvr = grp then None else map_of (rh_storage (as_resourceHandler s)) gvr),
     (map_of (as_groupGVKs s))(grp := None), (map_of (as_groupHandlers s))(grp := None), (map_of (as_discovery s))(grp := None),
     (\<lambda>k. if \<exists>v. k = version_key grp v then None else map_of (as_versionHandlers s) k), other_groups grp (as_aggregated s))"

text \<open>The server lists under a group only kinds of the group.\<close>

definition server_ok :: "('c, 'l, 'f, 'w, 'sch) APIServer \<Rightarrow> bool" where
  "server_ok s \<longleftrightarrow> (\<forall>grp gvks. map_of (as_groupGVKs s) grp = Some gvks \<longrightarrow> (\<forall>gvk \<in> set gvks. gvk_Group gvk = grp))"

definition orders_ok :: "orders \<Rightarrow> bool" where
  "orders_ok ord \<longleftrightarrow> (\<forall>xs. set (o_gvs ord xs) = set xs) \<and> (\<forall>xs. set (o_versions ord xs) = set xs) \<and> (\<forall>xs. set (o_groups ord xs) = set xs)"

lemma addStorage_storage:
  "addStorage fm gvr gvk r h = Inr h' \<Longrightarrow> gvr' \<noteq> gvr \<Longrightarrow> map_of (rh_storage h') gvr' = map_of (rh_storage h) gvr'"
  by (auto simp: addStorage_def bind_Inr_iff update_conv')

lemma add_storages_others:
  assumes "\<forall>gvk \<in> set gvks. gvk_Group gvk = grp" and "gvr_Group gvr \<noteq> grp"
  shows "map_of (rh_storage (fst (add_storages fm gvks h))) gvr = map_of (rh_storage h) gvr"
  using assms
proof (induction gvks arbitrary: h)
  case (Cons gvk gvks)
  then have gvr: "gvr \<noteq> gvr_of gvk r" for r by (auto simp: gvr_of_def)
  show ?case
  proof (cases "findAPIResource gvk")
    case (Inr r)
    then show ?thesis using Cons addStorage_storage [OF _ gvr] by (cases "addStorage fm (gvr_of gvk r) gvk r h") simp_all
  qed (use Cons in simp)
qed simp

lemma registerDiscovery_others: "other_maps grp (fst (registerDiscoveryHandlers order grp gvks s)) = other_maps grp s"
  "as_groupGVKs (fst (registerDiscoveryHandlers order grp gvks s)) = as_groupGVKs s"
  by (auto simp: registerDiscoveryHandlers_def other_maps_def Let_def register_versions_same register_versions_map register_versions_aggregated
      setHandler_def update_conv' fun_eq_iff split: list.split)

lemma RegisterAPIGroup_others:
  assumes "\<forall>gvk \<in> set gvks. gvk_Group gvk = grp"
  shows "other_maps grp (fst (RegisterAPIGroup SL fm ord grp gvks s)) = other_maps grp s"
    and "server_ok s \<Longrightarrow> server_ok (fst (RegisterAPIGroup SL fm ord grp gvks s))"
proof -
  obtain sch r1 h r2 where add: "addTypesToScheme SL (o_gvs ord) gvks (as_scheme s) = (sch, r1)" "add_storages fm gvks (as_resourceHandler s) = (h, r2)"
    by (metis prod.exhaust)
  let ?s = "s\<lparr>as_scheme := sch, as_resourceHandler := h\<rparr>"
  have h: "other_maps grp ?s = other_maps grp s" "other_maps grp (s\<lparr>as_scheme := sch\<rparr>) = other_maps grp s"
    using add_storages_others [OF assms, of _ fm "as_resourceHandler s"] add(2) by (auto simp: other_maps_def fun_eq_iff)
  obtain s1 r3 where s1: "registerDiscoveryHandlers (o_versions ord) grp gvks ?s = (s1, r3)" by force
  note d = registerDiscovery_others [where grp = grp and order = "o_versions ord" and gvks = gvks and s = ?s, unfolded s1 fst_conv]
  have "other_maps grp (s1\<lparr>as_groupGVKs := AList.update grp (remdups gvks) (as_groupGVKs s1), as_openAPICached := False\<rparr>) = other_maps grp s1"
    by (simp add: other_maps_def update_conv' cong: if_cong)
  then show "other_maps grp (fst (RegisterAPIGroup SL fm ord grp gvks s)) = other_maps grp s"
    using add s1 d(1) h by (simp add: RegisterAPIGroup_def split: sum.split)
  show "server_ok (fst (RegisterAPIGroup SL fm ord grp gvks s))" if "server_ok s"
    using that assms add s1 d(2) by (auto simp: RegisterAPIGroup_def server_ok_def update_conv' split: sum.split if_splits)
qed

lemma remove_resources_others:
  assumes "\<forall>gvk \<in> set gvks. gvk_Group gvk = grp" and "gvr_Group gvr \<noteq> grp"
  shows "map_of (rh_storage (foldl remove_resource h gvks)) gvr = map_of (rh_storage h) gvr"
  using assms
proof (induction gvks arbitrary: h)
  case (Cons gvk gvks)
  have "map_of (rh_storage (remove_resource h gvk)) gvr = map_of (rh_storage h) gvr"
    using Cons.prems by (auto simp: remove_resource_def removeStorage_def map_of_removed gvr_of_def split: sum.split)
  with Cons show ?case by simp
qed simp

lemma UnregisterAPIGroup_others:
  assumes "server_ok s"
  shows "other_maps grp (UnregisterAPIGroup grp s) = other_maps grp s" "server_ok (UnregisterAPIGroup grp s)"
proof -
  have gvks: "\<forall>gvk \<in> set gvks. gvk_Group gvk = grp" if "map_of (as_groupGVKs s) grp = Some gvks" for gvks
    using assms that by (simp add: server_ok_def)
  show "other_maps grp (UnregisterAPIGroup grp s) = other_maps grp s"
  proof (cases "map_of (as_groupGVKs s) grp")
    case (Some gvks)
    have "map_of (foldl (\<lambda>hs gvk. removeHandler (version_key (gvk_Group gvk) (gvk_Version gvk)) hs) (as_versionHandlers s) gvks) k
        = map_of (as_versionHandlers s) k" if "\<nexists>v. k = version_key grp v" for k
      using gvks [OF Some] that by (auto simp: remove_versions_map)
    moreover have "other_groups grp (map_option (AList.delete grp) (as_aggregated s)) = other_groups grp (as_aggregated s)"
      by (cases "as_aggregated s") (simp_all add: other_groups_def delete_conv')
    ultimately show ?thesis using Some remove_resources_others [OF gvks [OF Some]]
      by (auto simp: UnregisterAPIGroup_def other_maps_def removeHandler_def delete_conv' fun_eq_iff)
  qed (simp add: UnregisterAPIGroup_def)
  show "server_ok (UnregisterAPIGroup grp s)"
    using assms by (auto simp: server_ok_def UnregisterAPIGroup_def delete_conv' split: option.splits if_splits)
qed

lemma register_groups_others:
  assumes "\<forall>e \<in> set es. fst e = grp \<and> (\<forall>gvk \<in> set (snd e). gvk_Group gvk = grp)"
  shows "other_maps grp (fst (register_groups SL fm ord es s)) = other_maps grp s
    \<and> (server_ok s \<longrightarrow> server_ok (fst (register_groups SL fm ord es s)))"
  using assms
proof (induction es arbitrary: s)
  case (Cons e es)
  obtain gvks where e: "e = (grp, gvks)" "\<forall>gvk \<in> set gvks. gvk_Group gvk = grp" using Cons.prems by (cases e) auto
  obtain s1 r where s1: "RegisterAPIGroup SL fm ord grp gvks s = (s1, r)" by force
  note o1 = RegisterAPIGroup_others [OF e(2), where SL = SL and fm = fm and ord = ord and s = s, unfolded s1 fst_conv]
  show ?case using Cons.IH [of s1] Cons.prems o1 s1 e(1) by (auto split: sum.split)
qed simp

lemma unregister_groups_others:
  assumes "\<forall>g \<in> set gs. g = grp" and "server_ok s"
  shows "other_maps grp (foldl (\<lambda>s g. UnregisterAPIGroup g s) s gs) = other_maps grp s \<and> server_ok (foldl (\<lambda>s g. UnregisterAPIGroup g s) s gs)"
  using assms
proof (induction gs arbitrary: s)
  case (Cons g gs)
  then show ?case using UnregisterAPIGroup_others [OF Cons.prems(2), of grp] by simp
qed simp

end
