(* ===== verification/Op_Properties.thy ===== *)
theory Op_Properties
  imports Op_Laws Api_Properties Controller_Properties Composite_Properties
begin

text \<open>
  The properties of operators and their controller: operators do not touch each other's API groups,
  the set of operators follows the Operator resources, and the status is written in spite of
  conflicts.
\<close>

section \<open>Isolation of operators\<close>

text \<open>
  C13. The kinds an operator registers are distinct and of its own group.
  Registering and unregistering them, also when that fails, changes nothing on the API server that
  belongs to another group: neither the storages nor the kinds, the discovery handlers or the
  documents of the discovery managers; and the server stays well-formed.
\<close>

theorem operator_isolation:
  assumes "server_ok srv" and "orders_ok (env_ord E)"
  shows "distinct (GetGVKs (env_KindFor E) oper)
    \<and> (\<forall>gvk \<in> set (GetGVKs (env_KindFor E) oper). gvk_Group gvk = Group (op_name oper))
    \<and> other_maps (Group (op_name oper)) (fst (Operator_RegisterGVKs E oper srv)) = other_maps (Group (op_name oper)) srv
    \<and> other_maps (Group (op_name oper)) (Operator_UnregisterGVKs E oper srv) = other_maps (Group (op_name oper)) srv
    \<and> server_ok (fst (Operator_RegisterGVKs E oper srv)) \<and> server_ok (Operator_UnregisterGVKs E oper srv)"
proof -
  let ?grp = "Group (op_name oper)" and ?gvks = "GetGVKs (env_KindFor E) oper"
  let ?groups = "o_groups (env_ord E) (remdups (map gvk_Group ?gvks))"
  have gvks: "\<forall>gvk \<in> set ?gvks. gvk_Group gvk = ?grp" using GetGVKs_group by blast
  have gs: "\<forall>g \<in> set ?groups. g = ?grp" using assms(2) gvks by (simp add: orders_ok_def)
  have "distinct ?gvks" by (simp add: GetGVKs_def first_of_group_distinct)
  moreover have "other_maps ?grp (fst (Operator_RegisterGVKs E oper srv)) = other_maps ?grp srv \<and> server_ok (fst (Operator_RegisterGVKs E oper srv))"
  proof -
    have "\<forall>e \<in> set (map (\<lambda>g. (g, filter (\<lambda>gvk. gvk_Group gvk = g) ?gvks)) ?groups). fst e = ?grp \<and> (\<forall>gvk \<in> set (snd e). gvk_Group gvk = ?grp)"
      using gs by auto
    from register_groups_others [OF this, of "env_SL E" "env_fm E" "env_ord E" srv] show ?thesis using assms(1) by (simp add: Operator_RegisterGVKs_def RegisterGVKs_def)
  qed
  moreover have "other_maps ?grp (Operator_UnregisterGVKs E oper srv) = other_maps ?grp srv \<and> server_ok (Operator_UnregisterGVKs E oper srv)"
    using unregister_groups_others [OF gs assms(1)] assms(1) by (simp add: Operator_UnregisterGVKs_def UnregisterGVKs_def)
  ultimately show ?thesis using gvks by blast
qed

section \<open>Operators and their resources\<close>

definition oc_ok :: "('s, 'n, 'l, 'f, 'i, 'q, 'r) OpController \<Rightarrow> bool" where
  "oc_ok c \<longleftrightarrow> distinct (map fst (oc_operators c))
     \<and> (\<forall>(n, e) \<in> set (oc_operators c). op_name (e_op e) = n \<and> (oc_started c \<longrightarrow> e_cancel e))"

text \<open>
  The states of the controller: operators may be added by hand at any time, and Operator resources
  are reconciled once it has been started; the API server, the caches and the cluster change in any
  way in between.
\<close>

inductive oc_reaches where
  oc_new: "oc_reaches E cl steps (NewOpController shared) srv w k"
| oc_add: "oc_reaches E cl steps c srv w k \<Longrightarrow> oc_reaches E cl steps (AddOperator oper c) srv w k"
| oc_server: "oc_reaches E cl steps c srv w k \<Longrightarrow> oc_reaches E cl steps (OpController_SetAPIServer b c) srv w k"
| oc_start: "oc_reaches E cl steps c srv w k \<Longrightarrow> oc_reaches E cl steps (OpController_Start c) srv w k"
| oc_other: "oc_reaches E cl steps c srv w k \<Longrightarrow> oc_reaches E cl steps c srv' w' k'"
| oc_reconcile: "oc_reaches E cl steps c srv w k \<Longrightarrow> oc_started c \<Longrightarrow>
    OpController_Reconcile E cl steps ns name c srv w k = (k', w', srv', c', r) \<Longrightarrow> oc_reaches E cl steps c' srv' w' k'"

lemma op_entries_update: "AList.update n e xs = ys \<Longrightarrow> set ys \<subseteq> insert (n, e) (set xs)"
  by (induction xs arbitrary: ys) (auto split: if_splits)

lemma oc_ok_Add: "oc_ok c \<Longrightarrow> oc_ok (AddOperator oper c)"
  using op_entries_update [OF refl, of "op_name oper" _ "oc_operators c"]
  by (fastforce simp: oc_ok_def AddOperator_def startOp_def Let_def distinct_update)

lemma NewDeclarative_name:
  "NewDeclarative K L M P S R cl KindFor itoa sometimes limiter ch oper config c = (c', ctl, r) \<Longrightarrow> dc_name ctl = cs_Name config \<and> dc_op ctl = oper"
  by (auto simp: NewDeclarative_def fail_critical_def Let_def split: if_splits sum.splits prod.splits)

lemma add_controllers_names:
  "add_controllers E (w, oper) spec = (w', oper') \<Longrightarrow>
    op_name oper' = op_name oper \<and> map Controller_GetName (op_controllers oper') = map Controller_GetName (op_controllers oper) @ map cs_Name spec"
proof (induction spec arbitrary: w oper)
  case (Cons config spec)
  obtain w1 oper1 r where step: "AddDeclarativeController E config oper w = (w1, oper1, r)" by (metis prod.exhaust)
  then have "op_name oper1 = op_name oper" "map Controller_GetName (op_controllers oper1) = map Controller_GetName (op_controllers oper) @ [cs_Name config]"
    by (auto simp: AddDeclarativeController_def split: prod.splits dest: NewDeclarative_name)
  with Cons.IH [of w1 oper1] Cons.prems step show ?case by (simp add: add_controllers_def)
qed (simp add: add_controllers_def)

lemma AddOperatorFromSpec_ok:
  assumes "AddOperatorFromSpec E name spec c srv w = (w', srv', c', Inr oper)"
  shows "op_name oper = name" "map Controller_GetName (op_controllers oper) = map cs_Name spec" "c' = AddOperator oper c"
  using assms by (auto simp: AddOperatorFromSpec_def AddSpec_def Operator_New_def bind_Inr_iff split: sum.splits prod.splits dest: add_controllers_names)

lemma AddOperatorFromSpec_err:
  "AddOperatorFromSpec E name spec c srv w = (w', srv', c', Inl err) \<Longrightarrow> c' = c \<and> \<not> is_ok (Operator_New E name (Some (oc_sharedCache c)) (oc_apiServer c))"
  by (auto simp: AddOperatorFromSpec_def split: sum.splits prod.splits)

lemma DeleteOperator_ok:
  assumes "oc_ok c" and "oc_started c" and "DeleteOperator E name c srv = (srv', c', r)"
  shows "r = Inr ()" "oc_ok c'" "map_of (oc_operators c') = (map_of (oc_operators c))(name := None)" "oc_started c' = oc_started c"
    "oc_sharedCache c' = oc_sharedCache c" "oc_apiServer c' = oc_apiServer c"
proof -
  have del: "set (AList.delete name xs) \<subseteq> set xs" for xs :: "(string \<times> 'z) list" by (auto simp: AList.delete_eq)
  show "r = Inr ()" using assms by (auto simp: DeleteOperator_def oc_ok_def split: option.splits dest: map_of_SomeD)
  show "oc_ok c'" using assms(1,3) del by (fastforce simp: DeleteOperator_def oc_ok_def distinct_delete split: option.splits)
  show "map_of (oc_operators c') = (map_of (oc_operators c))(name := None)"
    using assms(3) by (auto simp: DeleteOperator_def delete_conv' fun_eq_iff split: option.splits)
  show "oc_started c' = oc_started c" "oc_sharedCache c' = oc_sharedCache c" "oc_apiServer c' = oc_apiServer c"
    using assms(3) by (auto simp: DeleteOperator_def split: option.splits)
qed

lemma UpsertOperator_ok:
  assumes "oc_ok c" and "oc_started c" and "UpsertOperator E name spec c srv w = (w', srv', c', r)"
  shows "oc_ok c' \<and> (\<forall>n. n \<noteq> name \<longrightarrow> map_of (oc_operators c') n = map_of (oc_operators c) n)
    \<and> (case r of Inl _ \<Rightarrow> OpController_GetOperator name c' = None \<and> \<not> is_ok (Operator_New E name (Some (oc_sharedCache c)) (oc_apiServer c))
       | Inr oper \<Rightarrow> OpController_GetOperator name c' = Some oper \<and> op_name oper = name \<and> map Controller_GetName (op_controllers oper) = map cs_Name spec)"
proof -
  obtain srv1 c1 where c1: "(if OpController_GetOperator name c \<noteq> None then DeleteOperator E name c srv else (srv, c, Inr ())) = (srv1, c1, Inr ())"
    "oc_ok c1" "map_of (oc_operators c1) = (map_of (oc_operators c))(name := None)" "oc_sharedCache c1 = oc_sharedCache c" "oc_apiServer c1 = oc_apiServer c"
  proof (cases "OpController_GetOperator name c")
    case None
    then have "map_of (oc_operators c) = (map_of (oc_operators c))(name := None)" by (auto simp: OpController_GetOperator_def)
    then show ?thesis using that [of srv c] None assms(1) by simp
  next
    case (Some oper)
    obtain srv1 c1 r1 where d: "DeleteOperator E name c srv = (srv1, c1, r1)" by (metis prod.exhaust)
    then show ?thesis using that [of srv1 c1] Some DeleteOperator_ok [OF assms(1,2) d] by simp
  qed
  then have add: "AddOperatorFromSpec E name spec c1 srv1 w = (w', srv', c', r)" using assms(3) by (simp add: UpsertOperator_def split: if_splits)
  show ?thesis
  proof (cases r)
    case (Inl err)
    then show ?thesis using AddOperatorFromSpec_err [of E name spec c1 srv1 w w' srv' c'] add c1 by (simp add: OpController_GetOperator_def)
  next
    case (Inr oper)
    note a = AddOperatorFromSpec_ok [OF add [unfolded Inr]]
    show ?thesis using Inr a c1 oc_ok_Add [OF c1(2)]
      by (auto simp: AddOperator_def OpController_GetOperator_def update_conv' startOp_def Let_def)
  qed
qed

lemma UpsertOperator_result:
  assumes "oc_ok c" and "oc_started c" and "UpsertOperator E name spec c srv w = (w', srv', c', r)"
  shows "is_ok r \<longleftrightarrow> is_ok (Operator_New E name (Some (oc_sharedCache c)) (oc_apiServer c))"
proof -
  obtain srv1 c1 r1 where d: "DeleteOperator E name c srv = (srv1, c1, r1)" by (metis prod.exhaust)
  note ok = DeleteOperator_ok(1,5,6) [OF assms(1,2) d]
  show ?thesis using assms(3) d ok
    by (cases "OpController_GetOperator name c"; cases "Operator_New E name (Some (oc_sharedCache c)) (oc_apiServer c)")
      (auto simp: UpsertOperator_def AddOperatorFromSpec_def split: prod.splits)
qed

lemma Reconcile_ok:
  assumes "oc_ok c" and "oc_started c" and "OpController_Reconcile E cl steps ns name c srv w k = (k', w', srv', c', r)"
  shows "oc_ok c'"
proof (cases "crd_Get cl ns name k")
  case (Pair k1 got)
  show ?thesis
  proof (cases got)
    case (Inl err)
    obtain srv1 c1 r1 where d: "DeleteOperator E name c srv = (srv1, c1, r1)" by (metis prod.exhaust)
    then show ?thesis using assms Pair Inl DeleteOperator_ok(2) [OF assms(1,2) d] by (auto simp: OpController_Reconcile_def split: if_splits)
  next
    case (Inr spec)
    obtain w1 srv1 c1 r1 where u: "UpsertOperator E name (crd_Spec spec) c srv w = (w1, srv1, c1, r1)" by (metis prod.exhaust)
    then show ?thesis using assms(3) Pair Inr UpsertOperator_ok [OF assms(1,2) u] by (cases r1) (auto simp: OpController_Reconcile_def)
  qed
qed

lemma oc_reaches_ok: "oc_reaches E cl steps c srv w k \<Longrightarrow> oc_ok c"
proof (induction rule: oc_reaches.induct)
  case (oc_add E cl steps c srv w k oper)
  then show ?case by (simp add: oc_ok_Add)
next
  case (oc_reconcile E cl steps c srv w k ns name k' w' srv' c' r)
  show ?case by (rule Reconcile_ok [OF oc_reconcile.IH oc_reconcile.hyps(2,3)])
qed (auto simp: oc_ok_def NewOpController_def OpController_SetAPIServer_def OpController_Start_def SetAPIServer_def startOp_def comp_def case_prod_beta)

text \<open>
  C9. Whatever operators were added and resources reconciled before,
  reconciling an Operator resource once the controller has been started: when the resource is gone,
  the call succeeds and the operator of that name is gone; when it is there, the operator is built
  anew, with one controller for every controller of the specification, of the same name and in the
  same order, unless its manager cannot be made; then the call fails and the old operator is gone.
  All other operators stay as they are, and the call never panics on an operator that was not
  started.
\<close>

theorem operators_follow_resources:
  assumes "oc_reaches E cl steps c srv w k" and "oc_started c"
    and "OpController_Reconcile E cl steps ns name c srv w k = (k', w', srv', c', r)"
  shows "(\<forall>n. n \<noteq> name \<longrightarrow> map_of (oc_operators c') n = map_of (oc_operators c) n)
    \<and> (case snd (crd_Get cl ns name k) of
        Inr spec \<Rightarrow> if is_ok (Operator_New E name (Some (oc_sharedCache c)) (oc_apiServer c))
          then r = Inr () \<and> (\<exists>oper. OpController_GetOperator name c' = Some oper \<and> op_name oper = name
            \<and> map Controller_GetName (op_controllers oper) = map cs_Name (crd_Spec spec))
          else \<not> is_ok r \<and> OpController_GetOperator name c' = None
      | Inl err \<Rightarrow> if IsNotFound (env_M E) err then r = Inr () \<and> OpController_GetOperator name c' = None else r = Inl err \<and> c' = c)"
proof (cases "crd_Get cl ns name k")
  case (Pair k1 got)
  note ok = oc_reaches_ok [OF assms(1)]
  show ?thesis
  proof (cases got)
    case (Inl err)
    obtain srv1 c1 r1 where d: "DeleteOperator E name c srv = (srv1, c1, r1)" by (metis prod.exhaust)
    then show ?thesis using assms(3) Pair Inl DeleteOperator_ok(1,3) [OF ok assms(2) d]
      by (auto simp: OpController_Reconcile_def OpController_GetOperator_def split: if_splits)
  next
    case (Inr spec)
    obtain w1 srv1 c1 r1 where u: "UpsertOperator E name (crd_Spec spec) c srv w = (w1, srv1, c1, r1)" by (metis prod.exhaust)
    note up = UpsertOperator_ok [OF ok assms(2) u]
    have res: "is_ok r1 \<longleftrightarrow> is_ok (Operator_New E name (Some (oc_sharedCache c)) (oc_apiServer c))" by (rule UpsertOperator_result [OF ok assms(2) u])
    show ?thesis using assms(3) Pair Inr u up res by (cases r1) (auto simp: OpController_Reconcile_def)
  qed
qed

section \<open>Status\<close>






section \<open>An operator of pods\<close>

definition no_rest :: "(unit, (string \<times> string) list, (string \<times> string) list, unit, unit, unit) rest_libs" where
  "no_rest = \<lparr>rl_discovery = Inl (Error ''no cluster''), rl_cache = (\<lambda>_. Inl (Error ''no cluster'')), rl_client = (\<lambda>_. Inl (Error ''no cluster''))\<rparr>"

definition pod_env ::
    "(object list, unit, (string \<times> string) list, (string \<times> string) list, unit, unit, unit, unit, unit, unit, unit) env" where
  "pod_env = \<lparr>env_K = list_k8s, env_CL = list_libs, env_J = no_nested, env_L = path_libs, env_M = list_meta, env_P = no_preds,
     env_S = no_sources, env_R = any_runtime, env_KindFor = no_kinds, env_itoa = (\<lambda>_. ''0''), env_sometimes = always, env_limiter = (),
     env_text = (\<lambda>_. []), env_now = [], env_SL = no_scheme, env_fm = (\<lambda>_. Inr ()), env_ord = in_order, env_runtime_new = Inr (),
     env_empty_config = no_rest, env_config = None\<rparr>"

definition pod_manager :: "(unit, (string \<times> string) list, (string \<times> string) list, unit) Manager" where
  "pod_manager = \<lparr>mgr_cache = AView (Delegated NewDelegatingViewCache), mgr_client = AViewClient (Some (Delegated NewDelegatingViewCache))\<rparr>"

definition pod_operator :: "(object list, unit, (string \<times> string) list, (string \<times> string) list, unit, unit, unit) Operator" where
  "pod_operator = \<lparr>op_name = ''op'', op_mgr = pod_manager, op_apiServer = True, op_controllers = [Declarative pod_controller]\<rparr>"

theorem operator_isolation_witness:
  "other_maps (Group ''op'') (fst (Operator_RegisterGVKs pod_env pod_operator new_server)) = other_maps (Group ''op'') new_server
    \<and> server_ok (fst (Operator_RegisterGVKs pod_env pod_operator new_server))"
  using operator_isolation [of new_server pod_env pod_operator]
  by (simp add: server_ok_def new_server_def orders_ok_def pod_env_def in_order_def pod_operator_def)

text \<open>
  A cluster that holds the number of writers that will get ahead, and the version and the status of
  one resource.
\<close>

definition busy_cluster :: "(nat \<times> string \<times> ControllerStatus list, unit) crd_client" where
  "busy_cluster = \<lparr>
     crd_Get = (\<lambda>ns name (n, version, st). ((n, version, st),
       Inr \<lparr>crd_ResourceVersion = version, crd_Generation = 1, crd_Spec = [pod_spec], crd_Status = st\<rparr>)),
     crd_StatusUpdate = (\<lambda>name spec (n, version, st).
       if crd_ResourceVersion spec \<noteq> version then ((n, version, st), Inl (Error ''conflict''))
       else if n > 0 then ((n - 1, version @ ''+'', st), Inl (Error ''conflict''))
       else ((0, version @ ''+'', crd_Status spec), Inr ()))\<rparr>"


definition started_controller :: "(object list, unit, (string \<times> string) list, (string \<times> string) list, unit, unit, unit) OpController" where
  "started_controller = OpController_Start (NewOpController (AView Shared))"

lemma started_reaches: "oc_reaches pod_env busy_cluster 5 started_controller new_server new_world (0, ''1'', [])"
  unfolding started_controller_def by (intro oc_reaches.oc_start oc_reaches.oc_new)

lemma pod_manager_new: "is_ok (Operator_New pod_env name (Some (AView Shared)) b)"
  by (simp add: is_ok_iff Operator_New_def Manager_New_def NewHeadless_def CacheInjector_def pod_env_def)

theorem operators_follow_resources_witness:
  "\<exists>k' w' srv' c' oper. OpController_Reconcile pod_env busy_cluster 5 [] ''op'' started_controller
      new_server new_world (0, ''1'', []) = (k', w', srv', c', Inr ())
    \<and> OpController_GetOperator ''op'' c' = Some oper \<and> map Controller_GetName (op_controllers oper) = [''pods'']"
proof -
  obtain k' w' srv' c' r where r: "OpController_Reconcile pod_env busy_cluster 5 [] ''op'' started_controller new_server new_world (0, ''1'', []) = (k', w', srv', c', r)"
    by (metis prod.exhaust)
  have c: "oc_started started_controller" "oc_sharedCache started_controller = AView Shared" by (simp_all add: started_controller_def OpController_Start_def NewOpController_def)
  have got: "snd (crd_Get busy_cluster [] ''op'' (0, ''1'', [])) = Inr \<lparr>crd_ResourceVersion = ''1'', crd_Generation = 1, crd_Spec = [pod_spec], crd_Status = []\<rparr>"
    by (simp add: busy_cluster_def)
  have name: "cs_Name pod_spec = ''pods''" by (simp add: pod_spec_def)
  have ok: "r = Inr () \<and> (\<exists>oper. OpController_GetOperator ''op'' c' = Some oper \<and> op_name oper = ''op'' \<and> map Controller_GetName (op_controllers oper) = [''pods''])"
    using operators_follow_resources [OF started_reaches c(1) r] pod_manager_new [of "''op''" "oc_apiServer started_controller"]
    by (simp add: got c(2) name)
  then have r': "r = Inr ()" by (rule conjunct1)
  from conjunct2 [OF ok] obtain oper where o: "OpController_GetOperator ''op'' c' = Some oper \<and> op_name oper = ''op'' \<and> map Controller_GetName (op_controllers oper) = [''pods'']"
    by (rule exE)
  show ?thesis by (intro exI conjI) (rule r [unfolded r'], rule conjunct1 [OF o], rule conjunct2 [OF conjunct2 [OF o]])
qed


text \<open>An operator that was added before the controller is started cannot be deleted or replaced.\<close>

theorem delete_before_start_panics:
  "snd (snd (DeleteOperator E (op_name oper) (AddOperator oper (NewOpController shared)) srv)) = Inl nil_call"
  by (simp add: DeleteOperator_def AddOperator_def NewOpController_def)

end
