(* ===== verification/Spec2Isabelle.thy ===== *)
theory Spec2Isabelle
  imports ZSet_Properties Operator_Properties Graph_Properties Expr_Properties Pipeline_Properties
    Object_Properties Auth_Properties Predicates View_Cache_Properties Reconciler_Properties
    Controller_Status Controller_Properties Composite_Properties Rest_Mapper Api_Properties Op_Properties
begin

text \<open>
  A verification development for \<open>\<Delta>\<close>-controller (\<^verbatim>\<open>github.com/l7mp/dcontroller\<close>), a framework
  that maintains Kubernetes view objects declaratively: a pipeline joins, filters, projects,
  unwinds and gathers source objects with a small expression language and keeps its target up to
  date by incremental computation on Z-sets.

  \<^bold>\<open>Parts of the program and the theories that model them.\<close>

  \<^item> Package \<^verbatim>\<open>dbsp\<close>, the incremental engine.  \<open>Documents\<close> and \<open>Float64\<close> model dynamic Go values,
    their canonical JSON keys, copies and equality (\<^verbatim>\<open>document.go\<close>); \<open>ZSet\<close> the Z-sets of
    documents with 64-bit wrapping multiplicities (\<^verbatim>\<open>zset.go\<close>), as the two maps the code keeps.
    \<open>Op_Base\<close>, \<open>Ops_Linear\<close>, \<open>Ops_Misc\<close>, \<open>Ops_Bilinear\<close>, \<open>Ops_Nonlinear\<close> and \<open>Operators\<close> model
    the operators with their state (\<^verbatim>\<open>op*.go\<close>, \<^verbatim>\<open>fused_op.go\<close>): one datatype of operators, one
    function \<open>op_Process\<close>.  \<open>Chain\<close> is the query graph (\<^verbatim>\<open>chain.go\<close>), \<open>Executor\<close> its execution
    (\<^verbatim>\<open>executor.go\<close>), \<open>Rewrite\<close> the optimizer (\<^verbatim>\<open>rewrite_engine.go\<close>), \<open>Converter\<close> the change
    between snapshot and incremental graphs (\<^verbatim>\<open>graph_converter.go\<close>).
  \<^item> Package \<^verbatim>\<open>expression\<close>.  \<open>Go_Values\<close> holds what it uses of Go's number formatting and
    parsing; \<open>Expr_Base\<close> the expressions, conversions, JSONPath getters and setters and label
    selectors; \<open>Marshaler\<close> the JSON form; \<open>Evaluator\<close> the evaluator, one definition per operator.
    A Go panic is an error value of its own, so its absence can be stated.
  \<^item> Packages \<^verbatim>\<open>object\<close>, \<^verbatim>\<open>cache\<close> (store) and the API types.  \<open>View_Group\<close> models the kinds of view
    objects, \<open>Sha256\<close> and \<open>Objects\<close> the objects, their identifiers, deltas, patches and the
    store, \<open>Pipeline_Ops\<close> the pipeline configuration with its JSON form.
  \<^item> Package \<^verbatim>\<open>pipeline\<close>.  \<open>Pipeline_Ops\<close> turns expressions into operators (\<^verbatim>\<open>op.go\<close>), \<open>Adaptor\<close>
    converts deltas to Z-sets and back and reconciles the target cache (\<^verbatim>\<open>zset_adaptor.go\<close>),
    \<open>Pipelines\<close> builds, evaluates and synchronizes a pipeline (\<^verbatim>\<open>pipeline.go\<close>).
  \<^item> Package \<^verbatim>\<open>auth\<close> and the command that issues kubeconfigs: \<open>Auth\<close> models the access rules, the
    authorizer, tokens and kubeconfigs.  Package \<^verbatim>\<open>predicate\<close>: \<open>Predicates\<close>.
  \<^item> Package \<^verbatim>\<open>cache\<close>.  \<open>View_Discovery\<close> is the registry of view kinds (\<^verbatim>\<open>view_discovery.go\<close>),
    \<open>View_Cache\<close> the shared view cache with its informers, handlers, watchers and the delegating
    caches on top of it (\<^verbatim>\<open>view_cache*.go\<close>, \<^verbatim>\<open>delegating_view_cache.go\<close>), \<open>View_Client\<close> its client
    (\<^verbatim>\<open>view_client.go\<close>).  \<open>Composite\<close> routes between views and the cluster (\<^verbatim>\<open>composite.go\<close>,
    \<^verbatim>\<open>client.go\<close>), \<open>Rest_Mapper\<close> holds discovery and mapping over both (\<^verbatim>\<open>discovery.go\<close>,
    \<^verbatim>\<open>restmapper.go\<close>, \<^verbatim>\<open>view_restmapper.go\<close>, \<^verbatim>\<open>api.go\<close>).
  \<^item> Packages \<^verbatim>\<open>reconciler\<close> and \<^verbatim>\<open>controller\<close>.  \<open>Reconciler\<close> models resources and targets (\<^verbatim>\<open>target.go\<close>,
    \<^verbatim>\<open>resource.go\<close>, \<^verbatim>\<open>ctrlutils.go\<close>), \<open>Controllers\<close> sources, declarative and native controllers with
    their status and the two reconcilers.
  \<^item> Package \<^verbatim>\<open>apiserver\<close>.  \<open>Api_Storage\<close> is the storage of a kind and its table output (\<^verbatim>\<open>storage.go\<close>),
    \<open>Api_Registry\<close> the registration of groups, the routing of requests and the discovery handlers
    (\<^verbatim>\<open>registry.go\<close>, \<^verbatim>\<open>resource*.go\<close>, \<^verbatim>\<open>dynamic_discovery.go\<close>, \<^verbatim>\<open>codec.go\<close>).
  \<^item> Packages \<^verbatim>\<open>manager\<close>, \<^verbatim>\<open>operator\<close> and \<^verbatim>\<open>kubernetes/controllers\<close>.  \<open>Managers\<close> says which cache and
    client a manager gets, \<open>Op_Controller\<close> models operators and the controller that keeps them in
    step with the Operator resources.

  \<^bold>\<open>How they interact.\<close>  A delta of a source object updates a source cache and becomes a Z-set; the
  executor runs it through the optimized graph, whose operators evaluate expressions on
  documents; the resulting Z-set becomes additions and deletions of target objects, which
  \<^verbatim>\<open>Reconcile\<close> turns into an ordered list of deletes and upserts against the target cache.  A
  declarative controller gets the deltas from the informers of its sources and writes the result
  to its target, through a client that sends views to the view cache and other objects to the
  cluster; the view cache calls the handlers of the controllers that watch the view.  An operator
  is a set of controllers on one manager; all operators share the view cache and an API server,
  which serves the views of each operator as a group of its own.

  \<^bold>\<open>State, errors, order.\<close>  Stateful code passes its state explicitly and returns it also when it
  fails.  Fallible code returns \<open>error + 'a\<close>; messages are abbreviated, wrapping is kept.  Where
  Go iterates over a map, documents keep their keys sorted (the result does not depend on the
  order, or a theorem says that it does) and \<^verbatim>\<open>Reconcile\<close> takes the iteration order as a parameter.
  Multiplicities and JSON integers are 64-bit words, counts wrap.  Log output is not modelled,
  except that printing an expression for a log line can panic.

  \<^bold>\<open>Parameters.\<close>  Third-party code is a parameter: the JSONPath library, label matching, the hash,
  the clock and the random source (record \<open>libs\<close>); the accessors of \<^verbatim>\<open>Unstructured\<close> and the
  key-value store of client-go (record \<open>k8s\<close>, with \<open>store_laws\<close> and \<open>accessor_laws\<close> as what the
  theorems assume of them); token signing and rule encoding (\<open>auth_libs\<close>); the predicates of
  controller-runtime (\<open>pred_libs\<close>); selectors and equality of objects (\<open>cache_libs\<close>); patches
  (\<open>client_libs\<close>); metadata accessors and the classification of errors (\<open>meta_libs\<close>); watches and
  runtime controllers (\<open>source_libs\<close>, \<open>runtime_libs\<close>); the clients, caches, discovery and mappers of
  the cluster (\<open>client\<close>, \<open>native_client\<close>, \<open>native_cache\<close>, \<open>native_discovery\<close>, \<open>native_mapper\<close>,
  \<open>storage_client\<close>, \<open>crd_client\<close>); the scheme of the API server (\<open>scheme_libs\<close>); the rate limiter.
  \<open>Samples\<close>, \<open>Expr_Samples\<close>, \<open>K8s_Samples\<close> and \<open>Meta_Samples\<close> give concrete instances that satisfy
  the assumptions, on which every property with hypotheses is instantiated.

  \<^bold>\<open>What is shown.\<close>

  \<^item> Z-sets (\<open>ZSet_Laws\<close>, \<open>ZSet_Properties\<close>): the representation invariant is kept, and the
    operations are pointwise arithmetic on multiplicities.  The locale \<open>zset_adt\<close> is the
    interface the operators use.
  \<^item> Operators (\<open>Operator_Properties\<close>): linear, fused, bilinear and gathering operators satisfy
    the contract of the locales \<open>linear_op\<close> and \<open>incremental\<close>: run on deltas, their outputs add up
    to the snapshot operator on the accumulated input.
  \<^item> Graphs (\<open>Rewrite_Correct\<close>, \<open>Converter\<close>, \<open>Graph_Properties\<close>): the executor refines a pure
    query, the rewrite rules are sound, the optimizer converges within its 20 iterations for
    chains of at most 16 operators, and conversion round-trips.
  \<^item> Incremental view maintenance (\<open>Incremental\<close> and this theory): optimizing a snapshot graph
    and running it on deltas adds up to running the snapshot graph on the accumulated inputs.
  \<^item> Expressions (\<open>Expr_Safe\<close>, \<open>Marshal_Laws\<close>, \<open>Expr_Laws\<close>, \<open>Expr_Properties\<close>): decoded expressions
    do not panic when \<^verbatim>\<open>@map\<close> and \<^verbatim>\<open>@rnd\<close> get usable arguments, the JSON form round-trips, and operators compute what their names say, with
    the exceptions that are stated as theorems of their own.
  \<^item> Objects (\<open>Object_Properties\<close>): embedding native kinds into views and back, patches against an
    inductive definition of merging (\<open>merges\<close> in \<open>Object_Laws\<close>), the identifiers of view objects, and the JSON form of pipelines.
  \<^item> Pipelines (\<open>Store_Laws\<close>, \<open>Reconcile_Laws\<close>, \<open>Target_View\<close>, \<open>Source_View\<close>, \<open>Pipeline_View\<close>,
    \<open>Pipeline_Correct\<close>, \<open>Pipeline_Properties\<close>): the Z-set of a delta is the change of the source
    cache, \<^verbatim>\<open>Reconcile\<close> follows its scenario table, and over any run the target cache holds
    exactly the result of the configured operators on the content of the source caches.  The
    locale \<open>view_query\<close> is the interface between the pipeline and the query engine.
  \<^item> Access (\<open>Auth_Properties\<close>) and predicates (\<open>Predicates\<close>): an issued kubeconfig grants what its
    command line says, namespaces isolate, predicates are the formulas they spell over the changes
    of an object that controller-runtime documents for the basic ones.
  \<^item> The view cache (\<open>View_Cache_Laws\<close>, \<open>View_Cache_Mirror\<close>, \<open>View_Cache_Properties\<close>): reads, writes
    and the events they cause, the invariant of informers, and that a handler can rebuild the
    content of the cache from its calls.
  \<^item> Targets (\<open>Target_Laws\<close>, \<open>Delete_Patch\<close>, \<open>Reconciler_Properties\<close>): the locale \<open>object_client\<close> is
    what a target needs of a client; the client of the view cache and the composite client
    (\<open>Composite_Laws\<close>, \<open>Composite_Properties\<close>) provide it.  A deletion through a patching target
    removes the scalars of the delta and keeps the identity and the rest of the object.
  \<^item> Controllers (\<open>Controller_Laws\<close>, \<open>Controller_Status\<close>, \<open>Controller_Properties\<close>): end to end, a
    declarative controller keeps in the view cache exactly the objects its pipeline produces on
    the content of its source caches; its status and bounded error reports.
  \<^item> The API server (\<open>Storage_Laws\<close>, \<open>Registry_Laws\<close>, \<open>Api_Properties\<close>): storages read back what was
    written, by the locale \<open>storage_backend\<close> that extends \<open>object_client\<close>; registered kinds are
    served by their storages, and unregistering undoes a registration.
  \<^item> Operators (\<open>Op_Laws\<close>, \<open>Op_Properties\<close>): they do not touch the API groups of each other, follow
    the Operator resources, and their status is written in spite of conflicts, on a cluster that
    refuses writes with an outdated resource version (\<open>crd_laws\<close>).

  \<^bold>\<open>Bounds.\<close>  The theorems on joins are for fewer than 63 inputs (the code enumerates subsets of
  inputs with a 64-bit mask); those on optimized graphs for chains of at most 16 to 18 operators,
  which is what 20 iterations of the optimizer can handle.  All loops of the model terminate; no
  fuel is used; attempts that are retried are counted as the code counts them.

  \<^bold>\<open>Not modelled.\<close>  Goroutines, channels and locks: every operation is one step, what waits for
  the end of a context is the step taken then, and an operator that was started is one that has
  its cancel function.  The construction of the API server and its OpenAPI documents
  (\<^verbatim>\<open>openapi.go\<close>, \<^verbatim>\<open>builder.go\<close>, \<^verbatim>\<open>config.go\<close>, \<^verbatim>\<open>apiserver.go\<close>) and the serving of HTTP are wiring
  of the API machinery of Kubernetes; most of the command line starts servers or prints;
  visualization, examples, fakes for tests and generated deep copies carry no logic of their own.
  The gather operation is modelled and verified as an operator, but the end-to-end theorems on
  pipelines and controllers are for linear operations.
\<close>

section \<open>Incremental view maintenance\<close>

text \<open>
  C3. Incremental view maintenance with a join: take a well-formed snapshot graph with an n-ary
  join and a chain of linear operators (projections, selections, unwinds, fused operators).
  \<^verbatim>\<open>Optimize\<close> succeeds on it, and the executor run on the optimized graph with a stream of deltas
  of the inputs produces outputs that add up to what the executor produces on the snapshot
  graph with the accumulated inputs.
\<close>

theorem incremental_view_maintenance:
  assumes "graph_wf g" and "graph_query g = Inr (Some (JoinOp eval names), ops)"
    and "length (input_names g) = length names" and "names \<noteq> []" and "length names < 63" and "length ops \<le> 17"
    and "\<forall>oper \<in> set ops. linear_stage oper \<and> plain dk oper" and "joins_known dk eval names"
    and "\<forall>ins \<in> set deltas. delta_inputs dk (input_names g) ins" and "delta_inputs dk (input_names g) snapshot"
    and "\<forall>n \<in> set (input_names g). \<forall>k. cnt (input_of snapshot n) k = total (map (\<lambda>ins. input_of ins n) deltas) k"
  shows "\<exists>g' gf outs gs out. Optimize g = (g', Inr ()) \<and> run_op Executor_Process g' deltas = (gf, Inr outs)
    \<and> Executor_Process g snapshot = (gs, Inr out) \<and> length outs = length deltas \<and> (\<forall>k. cnt out k = total outs k)"
proof -
  let ?ns = "input_names g"
  obtain f where view: "linear_view dk ops f" using linear_view_exists [OF assms(7)] ..
  from optimize_join_view [OF assms(1,2) disjI1 [OF refl] assms(3,4,7,6,8,5) view] obtain g' where
    g': "Optimize g = (g', Inr ())" "join_view_st dk eval names ?ns ops f g' (map (\<lambda>_ _. 0) ?ns)" by blast
  from view_join.telescopes [OF g'(2), of deltas] assms(9) obtain gf outs where
    run: "run_op Executor_Process g' deltas = (gf, Inr outs)" "length outs = length deltas"
      "\<And>k. total outs k = wsum (join_snap dk eval names (foldl (view_accum ?ns) (map (\<lambda>_ _. 0) ?ns) deltas))
          (\<lambda>k0. occ (imgs f (dk k0)) k)
        - wsum (join_snap dk eval names (map (\<lambda>_ _. 0) ?ns)) (\<lambda>k0. occ (imgs f (dk k0)) k)"
    by blast
  obtain gs out where snap: "Executor_Process g snapshot = (gs, Inr out)"
      "\<And>k. cnt out k = wsum (join_snap dk eval names (map (\<lambda>n. cnt (input_of snapshot n)) ?ns)) (\<lambda>k0. occ (imgs f (dk k0)) k)"
    using snapshot_join_view [OF assms(1-3,8) view assms(10)] by blast
  have acc: "foldl (view_accum ?ns) (map (\<lambda>_ _. 0) ?ns) deltas = map (\<lambda>n. cnt (input_of snapshot n)) ?ns"
    using view_accum_total [of ?ns "\<lambda>_ _. 0" deltas] assms(11) by (auto simp: fun_eq_iff)
  have "?ns \<noteq> []" using assms(3,4) by auto
  then have "join_snap dk eval names (map (\<lambda>_ _. 0) ?ns) = (\<lambda>_. 0)"
    by (intro ext join_snap_zero) auto
  with run(3) snap(2) acc have "cnt out k = total outs k" for k by simp
  with g'(1) run(1,2) snap(1) show ?thesis by blast
qed

definition view_deltas :: "(string \<times> zset) list list" where
  "view_deltas = [[(''A'', zset_ab 1 2), (''B'', zset_ab 1 0)], [(''A'', zset_ab 0 (- 1)), (''B'', zset_ab 2 1)]]"

definition view_snapshot :: "(string \<times> zset) list" where
  "view_snapshot = [(''A'', zset_ab 1 1), (''B'', zset_ab 3 1)]"

theorem incremental_view_maintenance_witness:
  "\<exists>g' gf outs gs out. Optimize join_graph = (g', Inr ()) \<and> run_op Executor_Process g' view_deltas = (gf, Inr outs)
    \<and> Executor_Process join_graph view_snapshot = (gs, Inr out) \<and> length outs = length view_deltas
    \<and> (\<forall>k. cnt out k = total outs k)"
  by (rule incremental_view_maintenance [OF join_graph_wf join_graph_query(1), where dk = dk_ab])
    (auto simp: join_graph_query ev_facts view_deltas_def view_snapshot_def delta_inputs_def input_of_def
      zset_ab_cnt algebra_simps)

text \<open>
  C23. Incremental view maintenance without a join: the same for a graph with a single input and
  a chain of linear operators.
\<close>

theorem incremental_chain_maintenance:
  assumes "graph_wf g" and "graph_query g = Inr (None, ops)" and "input_names g = [n]" and "length ops \<le> 18"
    and "\<forall>oper \<in> set ops. linear_stage oper \<and> plain dk oper"
    and "\<forall>ins \<in> set deltas. delta_inputs dk [n] ins" and "delta_inputs dk [n] snapshot"
    and "\<forall>k. cnt (input_of snapshot n) k = total (map (\<lambda>ins. input_of ins n) deltas) k"
  shows "\<exists>g' gf outs gs out. Optimize g = (g', Inr ()) \<and> run_op Executor_Process g' deltas = (gf, Inr outs)
    \<and> Executor_Process g snapshot = (gs, Inr out) \<and> length outs = length deltas \<and> (\<forall>k. cnt out k = total outs k)"
proof -
  obtain f where view: "linear_view dk ops f" using linear_view_exists [OF assms(5)] ..
  from optimize_single_view [OF assms(1-3,5,4) view] obtain g' where
    g': "Optimize g = (g', Inr ())" "single_view_st dk n ops f g' (\<lambda>_. 0)" by blast
  let ?acc = "foldl (\<lambda>a ins k. a k + cnt (input_of ins n) k) (\<lambda>_. 0) deltas"
  from view_single.telescopes [OF g'(2), of deltas] assms(6) obtain gf outs where
    run: "run_op Executor_Process g' deltas = (gf, Inr outs)" "length outs = length deltas"
      "\<And>k. total outs k = wsum ?acc (\<lambda>k0. occ (imgs f (dk k0)) k) - wsum (\<lambda>_. 0) (\<lambda>k0. occ (imgs f (dk k0)) k)"
    by blast
  obtain gs out where snap: "Executor_Process g snapshot = (gs, Inr out)"
      "\<And>k. cnt out k = wsum (cnt (input_of snapshot n)) (\<lambda>k0. occ (imgs f (dk k0)) k)"
    using snapshot_single_view [OF assms(1-3) view assms(7)] by blast
  have "foldl (\<lambda>a ins k. a k + cnt (input_of ins n) k) a ds = (\<lambda>k. a k + total (map (\<lambda>ins. input_of ins n) ds) k)" for a ds
    by (induction ds arbitrary: a) (auto simp: fun_eq_iff add.assoc)
  then have "?acc = cnt (input_of snapshot n)" using assms(8) by (simp add: fun_eq_iff)
  with run(3) snap(2) have "cnt out k = total outs k" for k by simp
  with g'(1) run(1,2) snap(1) show ?thesis by blast
qed

theorem incremental_chain_maintenance_witness:
  "\<exists>g' gf outs gs out. Optimize single_graph = (g', Inr ())
    \<and> run_op Executor_Process g' [[(''A'', zset_ab 1 2)], [(''A'', zset_ab 4 (- 2))]] = (gf, Inr outs)
    \<and> Executor_Process single_graph [(''A'', zset_ab 5 0)] = (gs, Inr out)
    \<and> length outs = length [[(''A'', zset_ab 1 2)], [(''A'', zset_ab 4 (- 2))]] \<and> (\<forall>k. cnt out k = total outs k)"
  by (rule incremental_chain_maintenance [OF single_graph_wf single_graph_query, where dk = dk_ab])
    (auto simp: ev_facts delta_inputs_def input_of_def zset_ab_cnt algebra_simps)

end
